(* ===== verification/Prelude.thy ===== *)
theory Prelude
  imports Main "HOL-Library.Sublist"
begin

text \<open>
  What every component theory shares: the effect type the handlers are written in, its
  program logic, and the list-as-table operations the persistence layer is built from.

  An \<open>async\<close> method of the back end is a function of the state that returns a result or a
  thrown value together with the new state.  A throw does not undo what was written before
  it (JavaScript exceptions do not), so the state is returned in both cases; only
  \<open>prisma.$transaction\<close> restores it (\<open>atomically\<close>).  The methods are composed with
  \<open>andThen\<close> (\<open>await\<close> followed by the rest of the body), \<open>catching\<close> (\<open>try/catch\<close>) and
  \<open>finallyDo\<close> (\<open>try/finally\<close>).

  \<open>triple P m Q E\<close> is the program logic: from a state with \<open>P\<close>, \<open>m\<close> returns \<open>r\<close> in a
  state with \<open>Q r\<close> or throws \<open>e\<close> in a state with \<open>E e\<close>.  \<open>preserves I m\<close> is the case
  of an invariant that holds whichever way \<open>m\<close> ends.
\<close>

named_theorems eff_simps "unfolding of the effect combinators"
named_theorems pres "which operations preserve which invariant"
named_theorems row_simps "projections of updated table rows"

section \<open>Effects\<close>

type_synonym ('s, 'e, 'a) eff = "'s \<Rightarrow> ('e + 'a) \<times> 's"

definition ret :: "'a \<Rightarrow> ('s, 'e, 'a) eff" where
  "ret x s = (Inr x, s)"

definition throw :: "'e \<Rightarrow> ('s, 'e, 'a) eff" where
  "throw e s = (Inl e, s)"

definition andThen :: "('s, 'e, 'a) eff \<Rightarrow> ('a \<Rightarrow> ('s, 'e, 'b) eff) \<Rightarrow> ('s, 'e, 'b) eff" where
  "andThen m f s = (case m s of (Inl e, s') \<Rightarrow> (Inl e, s') | (Inr x, s') \<Rightarrow> f x s')"

definition catching :: "('s, 'e, 'a) eff \<Rightarrow> ('e \<Rightarrow> ('s, 'e, 'a) eff) \<Rightarrow> ('s, 'e, 'a) eff" where
  "catching m h s = (case m s of (Inl e, s') \<Rightarrow> h e s' | (Inr x, s') \<Rightarrow> (Inr x, s'))"

text \<open>\<open>try { m } finally { f }\<close>: a throw of the finaliser replaces the outcome of \<open>m\<close>.\<close>

definition finallyDo :: "('s, 'e, 'a) eff \<Rightarrow> ('s, 'e, unit) eff \<Rightarrow> ('s, 'e, 'a) eff" where
  "finallyDo m f s =
     (case m s of (r, s') \<Rightarrow> (case f s' of (Inl e, s'') \<Rightarrow> (Inl e, s'') | (Inr _, s'') \<Rightarrow> (r, s'')))"

text \<open>\<open>prisma.$transaction\<close>: a throw inside rolls every write of the body back.\<close>

definition atomically :: "('s, 'e, 'a) eff \<Rightarrow> ('s, 'e, 'a) eff" where
  "atomically m s = (case m s of (Inl e, s') \<Rightarrow> (Inl e, s) | (Inr x, s') \<Rightarrow> (Inr x, s'))"

definition lift :: "'e + 'a \<Rightarrow> ('s, 'e, 'a) eff" where
  "lift r s = (r, s)"

definition gets :: "('s \<Rightarrow> 'a) \<Rightarrow> ('s, 'e, 'a) eff" where
  "gets f s = (Inr (f s), s)"

definition modify :: "('s \<Rightarrow> 's) \<Rightarrow> ('s, 'e, unit) eff" where
  "modify f s = (Inr (), f s)"

text \<open>\<open>if (!b) throw e\<close>.\<close>

definition require :: "bool \<Rightarrow> 'e \<Rightarrow> ('s, 'e, unit) eff" where
  "require b e = (if b then ret () else throw e)"

definition whenE :: "bool \<Rightarrow> ('s, 'e, unit) eff \<Rightarrow> ('s, 'e, unit) eff" where
  "whenE b m = (if b then m else ret ())"

text \<open>A sequential \<open>for ... of\<close> loop whose body only has effects.\<close>

fun forEach :: "'a list \<Rightarrow> ('a \<Rightarrow> ('s, 'e, unit) eff) \<Rightarrow> ('s, 'e, unit) eff" where
  "forEach [] f = ret ()"
| "forEach (x # xs) f = andThen (f x) (\<lambda>_. forEach xs f)"

text \<open>\<open>Promise.all(xs.map(f))\<close>, the calls taken in list order.\<close>

fun mapAll :: "('a \<Rightarrow> ('s, 'e, 'b) eff) \<Rightarrow> 'a list \<Rightarrow> ('s, 'e, 'b list) eff" where
  "mapAll f [] = ret []"
| "mapAll f (x # xs) = andThen (f x) (\<lambda>y. andThen (mapAll f xs) (\<lambda>ys. ret (y # ys)))"

lemma ret_app [simp]: "ret x s = (Inr x, s)"
  by (simp add: ret_def)

lemma throw_app [simp]: "throw e s = (Inl e, s)"
  by (simp add: throw_def)

lemma lift_app [simp]: "lift r s = (r, s)"
  by (simp add: lift_def)

lemma gets_app [simp]: "gets f s = (Inr (f s), s)"
  by (simp add: gets_def)

lemma modify_app [simp]: "modify f s = (Inr (), f s)"
  by (simp add: modify_def)

lemma require_True [simp]: "require True e = ret ()"
  by (simp add: require_def)

lemma require_False [simp]: "require False e = throw e"
  by (simp add: require_def)

lemma whenE_True [simp]: "whenE True m = m"
  by (simp add: whenE_def)

lemma whenE_False [simp]: "whenE False m = ret ()"
  by (simp add: whenE_def)

lemma andThen_ret [simp]: "andThen (ret x) f = f x"
  by (rule ext) (simp add: andThen_def)

lemma andThen_throw [simp]: "andThen (throw e) f = throw e"
  by (rule ext) (simp add: andThen_def)

lemma require_Inr [simp]: "require b e s = (Inr u, t) \<longleftrightarrow> b \<and> t = s"
  by (auto simp: require_def)

lemma andThen_gets [simp]: "andThen (gets f) g s = g (f s) s"
  by (simp add: andThen_def)

lemma andThen_lift_Inr [simp]: "andThen (lift (Inr x)) f = f x"
  by (rule ext) (simp add: andThen_def)

lemma andThen_lift_Inl [simp]: "andThen (lift (Inl e)) f = throw e"
  by (rule ext) (simp add: andThen_def)

lemma andThen_assoc: "andThen (andThen m f) g = andThen m (\<lambda>x. andThen (f x) g)"
  by (rule ext) (simp add: andThen_def split: prod.splits sum.splits)

lemmas [eff_simps] = andThen_def catching_def finallyDo_def atomically_def

lemma andThen_Inr: "m s = (Inr x, s') \<Longrightarrow> andThen m f s = f x s'"
  by (simp add: andThen_def)

lemma andThen_Inl: "m s = (Inl e, s') \<Longrightarrow> andThen m f s = (Inl e, s')"
  by (simp add: andThen_def)

lemma catching_Inr: "m s = (Inr x, s') \<Longrightarrow> catching m h s = (Inr x, s')"
  by (simp add: catching_def)

lemma catching_Inl: "m s = (Inl e, s') \<Longrightarrow> catching m h s = h e s'"
  by (simp add: catching_def)

lemma atomically_Inr: "m s = (Inr x, s') \<Longrightarrow> atomically m s = (Inr x, s')"
  by (simp add: atomically_def)

lemma atomically_Inl: "m s = (Inl e, s') \<Longrightarrow> atomically m s = (Inl e, s)"
  by (simp add: atomically_def)

lemma andThen_InrE:
  assumes "andThen m f s = (Inr y, t)"
  obtains x u where "m s = (Inr x, u)" and "f x u = (Inr y, t)"
  using assms by (auto simp: andThen_def split: prod.splits sum.splits)

section \<open>The program logic\<close>

definition triple ::
    "('s \<Rightarrow> bool) \<Rightarrow> ('s, 'e, 'a) eff \<Rightarrow> ('a \<Rightarrow> 's \<Rightarrow> bool) \<Rightarrow> ('e \<Rightarrow> 's \<Rightarrow> bool) \<Rightarrow> bool" where
  "triple P m Q E \<longleftrightarrow>
     (\<forall>s. P s \<longrightarrow> (case m s of (Inl e, s') \<Rightarrow> E e s' | (Inr x, s') \<Rightarrow> Q x s'))"

lemma tripleI:
  assumes "\<And>s x s'. P s \<Longrightarrow> m s = (Inr x, s') \<Longrightarrow> Q x s'"
    and "\<And>s e s'. P s \<Longrightarrow> m s = (Inl e, s') \<Longrightarrow> E e s'"
  shows "triple P m Q E"
  using assms by (auto simp: triple_def split: prod.splits sum.splits)

lemma triple_Inr: "triple P m Q E \<Longrightarrow> P s \<Longrightarrow> m s = (Inr x, s') \<Longrightarrow> Q x s'"
  by (force simp: triple_def split: prod.splits sum.splits)

lemma triple_Inl: "triple P m Q E \<Longrightarrow> P s \<Longrightarrow> m s = (Inl e, s') \<Longrightarrow> E e s'"
  by (force simp: triple_def split: prod.splits sum.splits)

lemma triple_pre: "triple P' m Q E \<Longrightarrow> (\<And>s. P s \<Longrightarrow> P' s) \<Longrightarrow> triple P m Q E"
  by (auto simp: triple_def)

lemma triple_conseq:
  assumes "triple P' m Q' E'" and "\<And>s. P s \<Longrightarrow> P' s"
    and "\<And>x s. Q' x s \<Longrightarrow> Q x s" and "\<And>e s. E' e s \<Longrightarrow> E e s"
  shows "triple P m Q E"
  using assms by (fastforce simp: triple_def split: prod.splits sum.splits)

lemma triple_ret: "triple (Q x) (ret x) Q E"
  by (simp add: triple_def)

lemma triple_throw: "triple (E e) (throw e) Q E"
  by (simp add: triple_def)

lemma triple_andThen:
  assumes "triple P m R E" and "\<And>x. triple (R x) (f x) Q E"
  shows "triple P (andThen m f) Q E"
proof (rule tripleI)
  fix s x s' assume "P s" and run: "andThen m f s = (Inr x, s')"
  from run obtain y t where "m s = (Inr y, t)" and "f y t = (Inr x, s')"
    by (rule andThen_InrE)
  then show "Q x s'" using \<open>P s\<close> assms by (blast dest: triple_Inr)
next
  fix s e s' assume "P s" and "andThen m f s = (Inl e, s')"
  then show "E e s'" using assms
    by (auto simp: andThen_def split: prod.splits sum.splits dest: triple_Inr triple_Inl)
qed

lemma triple_catching:
  assumes "triple P m Q E'" and "\<And>e. triple (E' e) (h e) Q E"
  shows "triple P (catching m h) Q E"
  by (rule tripleI)
     (use assms in \<open>auto simp: catching_def split: prod.splits sum.splits dest: triple_Inr triple_Inl\<close>)

lemma triple_atomically:
  assumes "triple P m Q (\<lambda>_ _. True)" and "\<And>s e. P s \<Longrightarrow> E e s"
  shows "triple P (atomically m) Q E"
  by (rule tripleI)
     (use assms in \<open>auto simp: atomically_def split: prod.splits sum.splits dest: triple_Inr\<close>)

lemma triple_if:
  assumes "b \<Longrightarrow> triple P m Q E" and "\<not> b \<Longrightarrow> triple P m' Q E"
  shows "triple P (if b then m else m') Q E"
  using assms by simp

lemma triple_require:
  assumes "\<And>s. P s \<Longrightarrow> \<not> b \<Longrightarrow> E e s" and "\<And>s. P s \<Longrightarrow> b \<Longrightarrow> Q () s"
  shows "triple P (require b e) Q E"
  by (rule tripleI) (use assms in \<open>auto simp: require_def split: if_splits\<close>)

section \<open>Invariants\<close>

definition preserves :: "('s \<Rightarrow> bool) \<Rightarrow> ('s, 'e, 'a) eff \<Rightarrow> bool" where
  "preserves I m \<longleftrightarrow> (\<forall>s. I s \<longrightarrow> I (snd (m s)))"

lemma preservesI: "(\<And>s. I s \<Longrightarrow> I (snd (m s))) \<Longrightarrow> preserves I m"
  by (simp add: preserves_def)

lemma preservesD: "preserves I m \<Longrightarrow> I s \<Longrightarrow> I (snd (m s))"
  by (simp add: preserves_def)

lemma preserves_run: "preserves I m \<Longrightarrow> m s = (r, s') \<Longrightarrow> I s \<Longrightarrow> I s'"
  by (metis preservesD snd_conv)

lemma preserves_ret [pres]: "preserves I (ret x)"
  by (simp add: preserves_def)

lemma preserves_throw [pres]: "preserves I (throw e)"
  by (simp add: preserves_def)

lemma preserves_lift [pres]: "preserves I (lift r)"
  by (simp add: preserves_def)

lemma preserves_gets [pres]: "preserves I (gets f)"
  by (simp add: preserves_def)

lemma preserves_require [pres]: "preserves I (require b e)"
  by (simp add: preserves_def require_def)

lemma preserves_andThen [pres]:
  "preserves I m \<Longrightarrow> (\<And>x. preserves I (f x)) \<Longrightarrow> preserves I (andThen m f)"
  unfolding preserves_def andThen_def
  by (auto split: prod.splits sum.splits)

lemma preserves_andThen_ret:
  assumes "preserves I m" and "\<And>s x s'. I s \<Longrightarrow> m s = (Inr x, s') \<Longrightarrow> preserves I (f x)"
  shows "preserves I (andThen m f)"
proof (rule preservesI)
  fix s assume I: "I s"
  show "I (snd (andThen m f s))"
  proof (cases "m s")
    case (Pair r s')
    with I assms(1) have I': "I s'" by (metis preserves_run)
    show ?thesis
    proof (cases r)
      case (Inl e)
      with Pair I' show ?thesis by (simp add: andThen_def)
    next
      case (Inr x)
      with Pair I assms(2) have "preserves I (f x)" by blast
      with I' Inr Pair show ?thesis by (simp add: andThen_def preservesD)
    qed
  qed
qed

lemma preserves_catching [pres]:
  "preserves I m \<Longrightarrow> (\<And>e. preserves I (h e)) \<Longrightarrow> preserves I (catching m h)"
  unfolding preserves_def catching_def
  by (auto split: prod.splits sum.splits)

lemma preserves_finallyDo [pres]:
  "preserves I m \<Longrightarrow> preserves I f \<Longrightarrow> preserves I (finallyDo m f)"
  unfolding preserves_def finallyDo_def
  by (auto split: prod.splits sum.splits)

lemma preserves_atomically [pres]: "preserves I m \<Longrightarrow> preserves I (atomically m)"
  unfolding preserves_def atomically_def
  by (auto split: prod.splits sum.splits)

lemma preserves_if [pres]: "(b \<Longrightarrow> preserves I m) \<Longrightarrow> (\<not> b \<Longrightarrow> preserves I m') \<Longrightarrow> preserves I (if b then m else m')"
  by simp

lemma preserves_whenE [pres]: "(b \<Longrightarrow> preserves I m) \<Longrightarrow> preserves I (whenE b m)"
  by (simp add: whenE_def preserves_ret)

lemma preserves_forEach [pres]: "(\<And>x. x \<in> set xs \<Longrightarrow> preserves I (f x)) \<Longrightarrow> preserves I (forEach xs f)"
  by (induction xs) (auto intro!: pres)

lemma preserves_mapAll [pres]: "(\<And>x. preserves I (f x)) \<Longrightarrow> preserves I (mapAll f xs)"
  by (induction xs) (auto intro!: pres)

lemma preserves_case_option [pres]:
  "(x = None \<Longrightarrow> preserves I m) \<Longrightarrow> (\<And>y. x = Some y \<Longrightarrow> preserves I (f y)) \<Longrightarrow>
   preserves I (case x of None \<Rightarrow> m | Some y \<Rightarrow> f y)"
  by (cases x) auto

lemma preserves_case_prod [pres]:
  "(\<And>a b. preserves I (f a b)) \<Longrightarrow> preserves I (case p of (a, b) \<Rightarrow> f a b)"
  by (cases p) auto

lemma preserves_let [pres]: "(\<And>y. preserves I (f y)) \<Longrightarrow> preserves I (let y = x in f y)"
  by simp

text \<open>An operation that does not write what a predicate reads preserves it.\<close>

lemma preserves_frame: "(\<And>s. I (snd (m s)) = I s) \<Longrightarrow> preserves I m"
  by (simp add: preserves_def)

section \<open>Lists as tables\<close>

definition updWhere :: "('r \<Rightarrow> bool) \<Rightarrow> ('r \<Rightarrow> 'r) \<Rightarrow> 'r list \<Rightarrow> 'r list" where
  "updWhere p f rows = map (\<lambda>r. if p r then f r else r) rows"

text \<open>\<open>orderBy ... desc\<close>: the rows in decreasing key order, equal keys in table order.\<close>

definition sortDesc :: "('r \<Rightarrow> nat) \<Rightarrow> 'r list \<Rightarrow> 'r list" where
  "sortDesc k rows = rev (sort_key k (rev rows))"

lemma find_Some_iff_first:
  "find p xs = Some x \<Longrightarrow> x \<in> set xs \<and> p x"
  by (auto simp: find_Some_iff)

lemma find_None_all: "find p xs = None \<longleftrightarrow> (\<forall>x \<in> set xs. \<not> p x)"
  by (auto simp: find_None_iff)

lemma set_sortDesc [simp]: "set (sortDesc k rows) = set rows"
  by (simp add: sortDesc_def)

lemma length_sortDesc [simp]: "length (sortDesc k rows) = length rows"
  by (simp add: sortDesc_def)

lemma updWhere_Nil [simp]: "updWhere p f [] = []"
  by (simp add: updWhere_def)

lemma updWhere_Cons [simp]: "updWhere p f (r # rs) = (if p r then f r else r) # updWhere p f rs"
  by (simp add: updWhere_def)

lemma length_updWhere [simp]: "length (updWhere p f rows) = length rows"
  by (simp add: updWhere_def)

lemma in_updWhere: "r \<in> set (updWhere p f rows) \<longleftrightarrow>
  (\<exists>r' \<in> set rows. r = (if p r' then f r' else r'))"
  by (auto simp: updWhere_def)

lemma map_updWhere: "(\<And>r. p r \<Longrightarrow> k (f r) = k r) \<Longrightarrow> map k (updWhere p f rows) = map k rows"
  by (induction rows) auto

lemma updWhere_none: "(\<And>r. r \<in> set rows \<Longrightarrow> \<not> p r) \<Longrightarrow> updWhere p f rows = rows"
  by (induction rows) auto

lemma find_updWhere:
  assumes "\<And>r. k (f r) = k r"
  shows "find (\<lambda>r. k r = i) (updWhere (\<lambda>r. k r = j) f rows)
       = (if i = j then map_option f (find (\<lambda>r. k r = i) rows) else find (\<lambda>r. k r = i) rows)"
  by (induction rows) (auto simp: assms)

text \<open>With distinct keys the row a lookup finds is the only one with its key.\<close>

lemma find_distinct_key:
  "distinct (map k rows) \<Longrightarrow> r \<in> set rows \<Longrightarrow> find (\<lambda>r'. k r' = k r) rows = Some r"
  by (induction rows) (auto simp: image_iff)

lemma distinct_key_eq:
  "distinct (map k rows) \<Longrightarrow> r \<in> set rows \<Longrightarrow> r' \<in> set rows \<Longrightarrow> k r = k r' \<Longrightarrow> r = r'"
  by (auto simp: distinct_map dest: inj_onD)

lemma find_append_fresh:
  "(\<forall>r \<in> set rows. k r \<noteq> i) \<Longrightarrow> k r' = i \<Longrightarrow> find (\<lambda>r. k r = i) (rows @ [r']) = Some r'"
  by (induction rows) auto

lemma find_append_old:
  "find p rows = Some r \<Longrightarrow> find p (rows @ rs) = Some r"
  by (induction rows) auto

lemma updWhere_append_fresh:
  "(\<forall>r \<in> set rows. k r \<noteq> i) \<Longrightarrow> k r' = i \<Longrightarrow> updWhere (\<lambda>q. k q = i) (\<lambda>_. r'') (rows @ [r']) = rows @ [r'']"
  by (induction rows) auto

end
