(* ===== verification/JsBase.thy ===== *)
theory JsBase
  imports Prelude
begin

text \<open>
  The part of the JavaScript language the back end computes with: JSON values, strings
  (ASCII; a string is a list of characters), \<open>trim\<close>, case conversion, \<open>split\<close>,
  \<open>BigInt(string)\<close> and \<open>toString\<close> of a bigint, and the request validator
  \<open>IsPositiveBigIntString\<close> of \<^verbatim>\<open>src/earn/validators\<close>.  The main fact is that reading back a
  printed bigint gives it back (\<open>bigint_show\<close>): every amount crosses the database, the
  response DTOs and the metadata column as a string.
\<close>

section \<open>JSON values\<close>

datatype json =
    JNull
  | JBool bool
  | JNum int
  | JStr string
  | JArr "json list"
  | JObj "(string \<times> json) list"

fun jfield :: "string \<Rightarrow> json \<Rightarrow> json option" where
  "jfield k (JObj kvs) = map_of kvs k"
| "jfield k _ = None"

text \<open>A property whose value is \<open>undefined\<close> is not part of the object that is stored.\<close>

definition optField :: "string \<Rightarrow> json option \<Rightarrow> (string \<times> json) list" where
  "optField k v = (case v of None \<Rightarrow> [] | Some j \<Rightarrow> [(k, j)])"

section \<open>Characters and strings\<close>

definition code :: "char \<Rightarrow> nat" where
  "code c = of_char c"

definition isSpace :: "char \<Rightarrow> bool" where
  "isSpace c = (code c = 32 \<or> (9 \<le> code c \<and> code c \<le> 13))"

definition isDigit :: "char \<Rightarrow> bool" where
  "isDigit c = (48 \<le> code c \<and> code c \<le> 57)"

definition trim :: "string \<Rightarrow> string" where
  "trim s = rev (dropWhile isSpace (rev (dropWhile isSpace s)))"

definition upperChar :: "char \<Rightarrow> char" where
  "upperChar c = (if 97 \<le> code c \<and> code c \<le> 122 then char_of (code c - 32) else c)"

definition lowerChar :: "char \<Rightarrow> char" where
  "lowerChar c = (if 65 \<le> code c \<and> code c \<le> 90 then char_of (code c + 32) else c)"

definition toUpperCase :: "string \<Rightarrow> string" where
  "toUpperCase s = map upperChar s"

definition toLowerCase :: "string \<Rightarrow> string" where
  "toLowerCase s = map lowerChar s"

definition startsWith :: "string \<Rightarrow> string \<Rightarrow> bool" where
  "startsWith s p = (take (length p) s = p)"

fun hasSubstring :: "string \<Rightarrow> string \<Rightarrow> bool" where
  "hasSubstring [] p = (p = [])"
| "hasSubstring (c # cs) p = (startsWith (c # cs) p \<or> hasSubstring cs p)"

fun splitOn :: "char \<Rightarrow> string \<Rightarrow> string list" where
  "splitOn d [] = [[]]"
| "splitOn d (c # cs) =
     (if c = d then [] # splitOn d cs
      else (case splitOn d cs of [] \<Rightarrow> [[c]] | w # ws \<Rightarrow> (c # w) # ws))"

section \<open>Decimal strings and bigints\<close>

definition digitChar :: "nat \<Rightarrow> char" where
  "digitChar d = char_of (48 + d)"

fun showNat :: "nat \<Rightarrow> string" where
  "showNat n = (if n < 10 then [digitChar n] else showNat (n div 10) @ [digitChar (n mod 10)])"

declare showNat.simps [simp del]

definition showInt :: "int \<Rightarrow> string" where
  "showInt i = (if i < 0 then CHR ''-'' # showNat (nat (- i)) else showNat (nat i))"

text \<open>The value of a digit in a radix of at most 36 (letters of either case after the digits).\<close>

definition digitOf :: "nat \<Rightarrow> char \<Rightarrow> nat option" where
  "digitOf r c =
     (let n = code c;
          v = (if 48 \<le> n \<and> n \<le> 57 then n - 48
               else if 97 \<le> n \<and> n \<le> 122 then n - 87
               else if 65 \<le> n \<and> n \<le> 90 then n - 55
               else 36)
      in if v < r then Some v else None)"

fun parseRadix :: "nat \<Rightarrow> nat \<Rightarrow> string \<Rightarrow> nat option" where
  "parseRadix r acc [] = Some acc"
| "parseRadix r acc (c # cs) =
     (case digitOf r c of None \<Rightarrow> None | Some d \<Rightarrow> parseRadix r (acc * r + d) cs)"

definition parseDigits :: "nat \<Rightarrow> string \<Rightarrow> nat option" where
  "parseDigits r s = (if s = [] then None else parseRadix r 0 s)"

text \<open>
  \<open>BigInt(s)\<close>: \<open>None\<close> is its \<open>SyntaxError\<close>.  The argument is trimmed, the empty string is 0,
  a sign is allowed before decimal digits only, and \<open>0x\<close>, \<open>0o\<close>, \<open>0b\<close> switch the radix.
\<close>

definition bigIntOf :: "string \<Rightarrow> int option" where
  "bigIntOf s =
     (let t = trim s in
      if t = [] then Some 0
      else if toLowerCase (take 2 t) = ''0x'' then map_option int (parseDigits 16 (drop 2 t))
      else if toLowerCase (take 2 t) = ''0o'' then map_option int (parseDigits 8 (drop 2 t))
      else if toLowerCase (take 2 t) = ''0b'' then map_option int (parseDigits 2 (drop 2 t))
      else if hd t = CHR ''-'' then map_option (\<lambda>n. - int n) (parseDigits 10 (tl t))
      else if hd t = CHR ''+'' then map_option int (parseDigits 10 (tl t))
      else map_option int (parseDigits 10 t))"

text \<open>\<open>/^\d+$/.test(s)\<close>.\<close>

definition allDigits :: "string \<Rightarrow> bool" where
  "allDigits s = (s \<noteq> [] \<and> list_all isDigit s)"

text \<open>The validator's \<open>validate\<close>: a string of digits whose value is positive.\<close>

definition isPositiveBigIntString :: "json \<Rightarrow> bool" where
  "isPositiveBigIntString v =
     (case v of
        JStr s \<Rightarrow>
          if \<not> allDigits s then False
          else (case bigIntOf s of None \<Rightarrow> False | Some n \<Rightarrow> n > 0)
      | _ \<Rightarrow> False)"

section \<open>Printing and reading back\<close>

lemma code_char_of [simp]: "n < 256 \<Longrightarrow> code (char_of n) = n"
  by (simp add: code_def)

lemma code_digitChar [simp]: "d < 10 \<Longrightarrow> code (digitChar d) = 48 + d"
  by (simp add: digitChar_def)

lemma isDigit_digitChar [simp]: "d < 10 \<Longrightarrow> isDigit (digitChar d)"
  by (simp add: isDigit_def)

lemma showNat_digits: "list_all isDigit (showNat n)"
  by (induction n rule: showNat.induct) (subst showNat.simps, auto)

lemma showNat_nonempty [simp]: "showNat n \<noteq> []"
  by (subst showNat.simps) simp

lemma digitOf_isDigit: "isDigit c \<Longrightarrow> digitOf 10 c = Some (code c - 48)"
  by (auto simp: isDigit_def digitOf_def Let_def)

lemma digitOf_digitChar [simp]: "d < 10 \<Longrightarrow> digitOf 10 (digitChar d) = Some d"
  by (simp add: digitOf_isDigit)

lemma parseRadix_append:
  "parseRadix r acc (s @ t) = (case parseRadix r acc s of None \<Rightarrow> None | Some a \<Rightarrow> parseRadix r a t)"
  by (induction s arbitrary: acc) (auto split: option.splits)

lemma parseRadix_showNat: "parseRadix 10 0 (showNat n) = Some n"
proof (induction n rule: showNat.induct)
  case (1 n)
  show ?case
  proof (cases "n < 10")
    case True
    then show ?thesis by (simp add: showNat.simps [of n])
  next
    case False
    with 1 show ?thesis by (simp add: showNat.simps [of n] parseRadix_append)
  qed
qed

lemma parseDigits_showNat [simp]: "parseDigits 10 (showNat n) = Some n"
  by (simp add: parseDigits_def parseRadix_showNat)

lemma digit_not_space: "isDigit c \<Longrightarrow> \<not> isSpace c"
  by (auto simp: isDigit_def isSpace_def)

lemma dropWhile_none: "s \<noteq> [] \<Longrightarrow> \<not> p (hd s) \<Longrightarrow> dropWhile p s = s"
  by (cases s) auto

lemma trim_id:
  assumes "s \<noteq> []" and "\<not> isSpace (hd s)" and "\<not> isSpace (last s)"
  shows "trim s = s"
  using assms by (simp add: trim_def dropWhile_none hd_rev)

lemma list_all_hd: "list_all p s \<Longrightarrow> s \<noteq> [] \<Longrightarrow> p (hd s)"
  by (cases s) auto

lemma list_all_last: "list_all p s \<Longrightarrow> s \<noteq> [] \<Longrightarrow> p (last s)"
  by (simp add: list_all_iff)

lemma trim_digits: "list_all isDigit s \<Longrightarrow> trim s = s"
  by (cases "s = []")
     (auto simp: trim_def dest: list_all_hd list_all_last digit_not_space intro!: trim_id [unfolded trim_def])

lemma lower_digit: "isDigit c \<Longrightarrow> lowerChar c = c"
  by (simp add: isDigit_def lowerChar_def)

lemma digits_no_radix_prefix:
  assumes "list_all isDigit s" and "\<not> isDigit x"
  shows "toLowerCase (take 2 s) \<noteq> [y, x]"
proof
  assume eq: "toLowerCase (take 2 s) = [y, x]"
  then obtain a b where "take 2 s = [a, b]" and "lowerChar b = x"
    by (auto simp: toLowerCase_def map_eq_Cons_conv)
  moreover have "set (take 2 s) \<subseteq> set s" by (rule set_take_subset)
  ultimately show False
    using assms lower_digit [of b] by (auto simp: list_all_iff)
qed

lemma digits_no_sign: "list_all isDigit s \<Longrightarrow> s \<noteq> [] \<Longrightarrow> \<not> isDigit x \<Longrightarrow> hd s \<noteq> x"
  using list_all_hd by blast

lemma not_digit [simp]:
  "\<not> isDigit (CHR ''x'')" "\<not> isDigit (CHR ''o'')" "\<not> isDigit (CHR ''b'')"
  "\<not> isDigit (CHR ''-'')" "\<not> isDigit (CHR ''+'')" "\<not> isDigit (CHR ''.'')" "\<not> isDigit (CHR '':'')"
  by (simp_all add: isDigit_def code_def)

lemma bigIntOf_digits:
  assumes "allDigits s"
  shows "bigIntOf s = map_option int (parseDigits 10 s)"
  using assms
  by (simp add: bigIntOf_def allDigits_def trim_digits digits_no_radix_prefix digits_no_sign Let_def)

lemma allDigits_showNat: "allDigits (showNat n)"
  by (simp add: allDigits_def showNat_digits)

lemma trim_minus: "list_all isDigit s \<Longrightarrow> s \<noteq> [] \<Longrightarrow> trim (CHR ''-'' # s) = CHR ''-'' # s"
  by (rule trim_id) (auto simp: isSpace_def code_def dest!: list_all_last digit_not_space)

lemma bigIntOf_minus:
  assumes "allDigits s"
  shows "bigIntOf (CHR ''-'' # s) = map_option (\<lambda>n. - int n) (parseDigits 10 s)"
  using assms
  by (simp add: bigIntOf_def allDigits_def trim_minus Let_def toLowerCase_def lowerChar_def code_def)

lemma bigint_show [simp]: "bigIntOf (showInt i) = Some i"
  by (simp add: showInt_def bigIntOf_digits bigIntOf_minus allDigits_showNat)

lemma showInt_inj: "showInt a = showInt b \<Longrightarrow> a = b"
  by (metis bigint_show option.inject)

lemma showInt_nonempty [simp]: "showInt i \<noteq> []"
  by (simp add: showInt_def)

lemma parseRadix_digits_Some: "list_all isDigit s \<Longrightarrow> \<exists>n. parseRadix 10 acc s = Some n"
  by (induction s arbitrary: acc) (auto simp: digitOf_isDigit)

lemma allDigits_parse: "allDigits s \<Longrightarrow> \<exists>n. bigIntOf s = Some (int n)"
  using parseRadix_digits_Some [of s 0]
  by (auto simp: bigIntOf_digits parseDigits_def allDigits_def)

text \<open>A validated amount is one \<open>BigInt\<close> reads without a throw, and it is positive.\<close>

lemma positive_amount: "isPositiveBigIntString (JStr s) \<Longrightarrow> \<exists>n > 0. bigIntOf s = Some n"
  by (auto simp: isPositiveBigIntString_def split: if_splits option.splits)

lemma positive_amount_complete: "0 < n \<Longrightarrow> isPositiveBigIntString (JStr (showInt n))"
  by (simp add: isPositiveBigIntString_def) (simp add: showInt_def allDigits_showNat)

end
