(* ===== verification/Errors.thy ===== *)
theory Errors
  imports JsBase
begin

text \<open>
  Thrown values and how they reach the client: \<^verbatim>\<open>src/common/exceptions\<close>, the exception
  classes of the earn and idempotency modules, the global exception filter and the request-id
  middleware of \<^verbatim>\<open>src/common\<close>.

  \<open>exn\<close> keeps apart what the code distinguishes: an \<open>HttpException\<close> with its status and
  response, a plain \<open>Error\<close>, a \<open>PrismaClientKnownRequestError\<close> with its code, and an error
  thrown by a library or a remote service (\<open>Foreign\<close>, with the fields the code reads).
\<close>

section \<open>Exceptions\<close>

datatype message = MsgOne string | MsgMany "string list"

record payload =
  pl_message :: "message option"
  pl_error :: "string option"
  pl_code :: "string option"
  pl_details :: "json option"

datatype response = RespString string | RespObject payload

record foreign_error =
  fe_name :: string
  fe_status :: "int option"
  fe_message :: string

datatype exn =
    HttpException nat response
  | PlainError string
  | PrismaKnown string string
  | Foreign foreign_error

type_synonym 'a res = "exn + 'a"

text \<open>\<open>ApiException\<close> (\<open>common/exceptions/api.exception.ts\<close>): an object response with a code.\<close>

definition apiException :: "nat \<Rightarrow> string \<Rightarrow> string \<Rightarrow> (string \<times> json) list \<Rightarrow> exn" where
  "apiException status msg cd details =
     HttpException status (RespObject \<lparr>pl_message = Some (MsgOne msg), pl_error = None,
       pl_code = Some cd, pl_details = Some (JObj details)\<rparr>)"

definition getCode :: "exn \<Rightarrow> string" where
  "getCode e =
     (case e of
        HttpException _ (RespObject p) \<Rightarrow> (case pl_code p of Some c \<Rightarrow> c | None \<Rightarrow> ''UNKNOWN_ERROR'')
      | _ \<Rightarrow> ''UNKNOWN_ERROR'')"

text \<open>The built-in Nest exceptions given a string: status, message and the error phrase.\<close>

definition httpError :: "nat \<Rightarrow> string \<Rightarrow> string \<Rightarrow> exn" where
  "httpError status phrase msg =
     HttpException status (RespObject \<lparr>pl_message = Some (MsgOne msg), pl_error = Some phrase,
       pl_code = None, pl_details = None\<rparr>)"

definition badRequest :: "string \<Rightarrow> exn" where
  "badRequest = httpError 400 ''Bad Request''"

definition unauthorized :: "string \<Rightarrow> exn" where
  "unauthorized = httpError 401 ''Unauthorized''"

definition forbidden :: "string \<Rightarrow> exn" where
  "forbidden = httpError 403 ''Forbidden''"

definition notFound :: "string \<Rightarrow> exn" where
  "notFound = httpError 404 ''Not Found''"

definition conflict :: "string \<Rightarrow> exn" where
  "conflict = httpError 409 ''Conflict''"

text \<open>\<open>new BadRequestException({ message, code })\<close>: the object itself is the response.\<close>

definition badRequestCode :: "string \<Rightarrow> string \<Rightarrow> exn" where
  "badRequestCode msg cd =
     HttpException 400 (RespObject \<lparr>pl_message = Some (MsgOne msg), pl_error = None,
       pl_code = Some cd, pl_details = None\<rparr>)"

section \<open>The earn exceptions\<close>

definition depositInProgress :: "string \<Rightarrow> exn" where
  "depositInProgress vaultId =
     apiException 409 (''A deposit is already in progress for vault: '' @ vaultId)
       ''DEPOSIT_IN_PROGRESS'' [(''vaultId'', JStr vaultId)]"

definition insufficientBalance :: "string \<Rightarrow> string \<Rightarrow> exn" where
  "insufficientBalance required available =
     apiException 400 (''Insufficient balance: required '' @ required @ '', available '' @ available)
       ''INSUFFICIENT_BALANCE'' [(''required'', JStr required), (''available'', JStr available)]"

definition insufficientAllowance :: "string \<Rightarrow> string \<Rightarrow> exn" where
  "insufficientAllowance required available =
     apiException 400
       (''Insufficient allowance: required '' @ required @ '', available '' @ available
          @ ''. Call POST /earn/vaults/:vaultId/approve first.'')
       ''APPROVAL_REQUIRED'' [(''required'', JStr required), (''available'', JStr available)]"

definition withdrawInProgress :: "string \<Rightarrow> exn" where
  "withdrawInProgress positionId =
     conflict (''A withdrawal is already in progress for position: '' @ positionId)"

definition insufficientPositionBalance :: "string \<Rightarrow> string \<Rightarrow> exn" where
  "insufficientPositionBalance required available =
     badRequest (''Insufficient position balance: required '' @ required @ '', available '' @ available)"

definition positionNotActive :: "string \<Rightarrow> exn" where
  "positionNotActive positionId = badRequest (''Position is not active: '' @ positionId)"

section \<open>The idempotency exceptions\<close>

definition idempotencyKeyRequired :: "string \<Rightarrow> exn" where
  "idempotencyKeyRequired headerName = badRequest (''Missing required header: '' @ headerName)"

definition idempotencyConflict :: "string \<Rightarrow> exn" where
  "idempotencyConflict key =
     conflict (''Idempotency key \"'' @ key @ ''\" was already used with a different request payload'')"

definition idempotencyInProgress :: "string \<Rightarrow> exn" where
  "idempotencyInProgress key = conflict (''Idempotency key \"'' @ key @ ''\" is already being processed'')"

definition isRetryableIdempotencyError :: "exn \<Rightarrow> bool" where
  "isRetryableIdempotencyError e = (case e of PrismaKnown c _ \<Rightarrow> c = ''P2002'' | _ \<Rightarrow> False)"

section \<open>What the code reads of an error\<close>

text \<open>\<open>error.message\<close>; for an \<open>HttpException\<close> Nest takes it from the response when it is a string.\<close>

definition errorMessage :: "exn \<Rightarrow> string" where
  "errorMessage e =
     (case e of
        HttpException _ (RespString m) \<Rightarrow> m
      | HttpException _ (RespObject p) \<Rightarrow>
          (case pl_message p of Some (MsgOne m) \<Rightarrow> m | _ \<Rightarrow> ''Http Exception'')
      | PlainError m \<Rightarrow> m
      | PrismaKnown _ m \<Rightarrow> m
      | Foreign f \<Rightarrow> fe_message f)"

definition exnStatus :: "exn \<Rightarrow> nat" where
  "exnStatus e = (case e of HttpException st _ \<Rightarrow> st | _ \<Rightarrow> 500)"

section \<open>The global exception filter\<close>

record error_response =
  er_statusCode :: nat
  er_message :: message
  er_error :: string
  er_code :: "string option"
  er_requestId :: "string option"
  er_timestamp :: nat
  er_path :: string

datatype log_level = LogError | LogWarn

text \<open>
  \<open>GlobalExceptionFilter.catch\<close>: the log level and the JSON body.  \<open>statusName\<close> is Nest's
  \<open>HttpStatus\<close> reverse lookup, \<open>now\<close> the time stamp; an empty code or request id is falsy and
  left out.
\<close>

definition exceptionFilter ::
    "(nat \<Rightarrow> string option) \<Rightarrow> nat \<Rightarrow> string \<Rightarrow> string option \<Rightarrow> exn \<Rightarrow> log_level \<times> error_response" where
  "exceptionFilter statusName now url requestId e =
     (let status = exnStatus e;
          dflt = (case statusName status of Some n \<Rightarrow> n | None \<Rightarrow> ''Error'');
          (msg, err, cd) =
            (case e of
               HttpException _ (RespString m) \<Rightarrow> (MsgOne m, dflt, None)
             | HttpException _ (RespObject p) \<Rightarrow>
                 (case pl_message p of
                    None \<Rightarrow> (MsgOne ''Internal server error'', dflt, None)
                  | Some m \<Rightarrow> (m, (case pl_error p of Some x \<Rightarrow> x | None \<Rightarrow> dflt), pl_code p))
             | _ \<Rightarrow> (MsgOne ''Internal server error'', dflt, None))
      in (if status \<ge> 500 then LogError else LogWarn,
          \<lparr>er_statusCode = status, er_message = msg, er_error = err,
           er_code = (if cd = Some [] then None else cd),
           er_requestId = (if requestId = Some [] then None else requestId),
           er_timestamp = now, er_path = url\<rparr>))"

text \<open>\<open>RequestIdMiddleware\<close>: the trimmed header when it has content, else a fresh UUID.\<close>

definition requestIdOf :: "string \<Rightarrow> string option \<Rightarrow> string" where
  "requestIdOf uuid incoming =
     (case incoming of
        Some h \<Rightarrow> if length (trim h) > 0 then trim h else uuid
      | None \<Rightarrow> uuid)"

section \<open>Facts\<close>

lemmas exception_defs =
  apiException_def httpError_def badRequest_def unauthorized_def forbidden_def notFound_def
  conflict_def badRequestCode_def depositInProgress_def insufficientBalance_def
  insufficientAllowance_def withdrawInProgress_def insufficientPositionBalance_def
  positionNotActive_def idempotencyKeyRequired_def idempotencyConflict_def
  idempotencyInProgress_def

text \<open>Nothing a non-HTTP error carries reaches the client.\<close>

lemma filter_hides_internal_errors:
  "(\<forall>st r. e \<noteq> HttpException st r) \<Longrightarrow>
   er_message (snd (exceptionFilter sn now url rid e)) = MsgOne ''Internal server error'' \<and>
   er_statusCode (snd (exceptionFilter sn now url rid e)) = 500 \<and>
   er_code (snd (exceptionFilter sn now url rid e)) = None"
  by (cases e) (auto simp: exceptionFilter_def exnStatus_def Let_def)

lemma filter_keeps_api_code:
  "cd \<noteq> [] \<Longrightarrow> er_code (snd (exceptionFilter sn now url rid (apiException st msg cd ds))) = Some cd \<and>
   er_statusCode (snd (exceptionFilter sn now url rid (apiException st msg cd ds))) = st"
  by (simp add: exceptionFilter_def exnStatus_def apiException_def Let_def)

lemma getCode_apiException [simp]: "getCode (apiException st msg cd ds) = cd"
  by (simp add: getCode_def apiException_def)

end
