(* ===== verification/Config.thy ===== *)
theory Config
  imports Errors
begin

text \<open>
  \<^verbatim>\<open>src/config\<close>: the configuration types, the loaders that read them from the process
  environment (\<open>env\<close>, a partial map from variable names), and the checks the loaders make:
  a JSON array is required, \<open>${NAME}\<close> placeholders are interpolated, and chain ids, vault ids
  and asset keys must be unique.  \<open>JSON.parse\<close> is a parameter of the loaders that use it, with
  \<open>None\<close> for its \<open>SyntaxError\<close>.  An integer read with \<open>parseInt\<close> is an \<open>int option\<close>, with
  \<open>None\<close> for \<open>NaN\<close>.
\<close>

section \<open>Types\<close>

datatype app_environment = Local | Develop | Production

record app_config =
  nodeEnv :: string
  appEnv :: string
  port :: "int option"
  apiPrefix :: string
  logLevel :: string
  corsOrigins :: "string list"

record security_config =
  rateLimitTtlMs :: "int option"
  rateLimitMax :: "int option"
  maxDepositsPerMinute :: "int option"
  maxWithdrawalsPerMinute :: "int option"
  dependencyCheckTimeoutMs :: "int option"

record blockchain_config =
  bc_chain :: string
  bc_chainId :: "int option"
  mainnetEnabled :: bool
  allowMainnetTransactions :: bool
  bc_rpcUrl :: string
  alchemyApiKey :: string

record redis_config =
  restUrl :: string
  restToken :: string
  redisUrl :: string
  queueEnabled :: bool

record privy_config =
  appId :: string
  appSecret :: string
  jwksUrl :: string
  authorizationPrivateKey :: "string option"
  walletSignerKeyQuorumId :: "string option"

record native_currency =
  nc_name :: string
  nc_symbol :: string
  nc_decimals :: nat

record chain_definition =
  ch_slug :: string
  ch_name :: string
  ch_chainId :: int
  isTestnet :: bool
  ch_isEnabled :: bool
  ch_rpcUrl :: string
  explorerUrl :: string
  nativeCurrency :: native_currency

record asset_definition =
  as_symbol :: string
  as_name :: string
  as_chainId :: int
  as_contractAddress :: string
  as_decimals :: nat
  as_isEnabled :: bool

datatype risk_level = Low | Medium | High

record aave_vault_definition =
  av_vaultId :: string
  av_chainId :: int
  poolAddress :: string
  aTokenAddress :: string
  av_assetSymbol :: string
  av_assetAddress :: string
  av_isEnabled :: bool
  av_riskLevel :: "risk_level option"
  av_depositEnabled :: "bool option"
  av_withdrawEnabled :: "bool option"

record aave_config =
  apiUrl :: string
  aaveVaults :: "aave_vault_definition list"

record idempotency_config =
  ttlHours :: int
  headerName :: string

text \<open>\<open>ConfigService.get(...)\<close> of each namespace; \<open>None\<close> where it is undefined.\<close>

record config =
  c_app :: "app_config option"
  c_security :: "security_config option"
  c_blockchain :: "blockchain_config option"
  c_redis :: "redis_config option"
  c_privy :: "privy_config option"
  c_chains :: "chain_definition list option"
  c_assets :: "asset_definition list option"
  c_aave :: "aave_config option"
  c_idempotency :: "idempotency_config option"

section \<open>Reading values\<close>

type_synonym environment = "string \<Rightarrow> string option"

definition envOr :: "environment \<Rightarrow> string \<Rightarrow> string \<Rightarrow> string" where
  "envOr env k dflt = (case env k of Some v \<Rightarrow> v | None \<Rightarrow> dflt)"

text \<open>\<open>parseInt(s, 10)\<close>: leading space and sign, then the longest prefix of digits.\<close>

definition parseIntJs :: "string \<Rightarrow> int option" where
  "parseIntJs s =
     (let t = dropWhile isSpace s;
          neg = (t \<noteq> [] \<and> hd t = CHR ''-'');
          u = (if t \<noteq> [] \<and> (hd t = CHR ''-'' \<or> hd t = CHR ''+'') then tl t else t);
          ds = takeWhile isDigit u
      in case parseDigits 10 ds of
           None \<Rightarrow> None
         | Some n \<Rightarrow> Some (if neg then - int n else int n))"

definition parseCorsOrigins :: "string option \<Rightarrow> string list" where
  "parseCorsOrigins value =
     (case value of
        None \<Rightarrow> [''*'']
      | Some v \<Rightarrow>
          if v = [] \<or> trim v = ''*'' then [''*'']
          else filter (\<lambda>origin. length origin > 0) (map trim (splitOn (CHR '','') v)))"

section \<open>JSON configuration values\<close>

definition parseConfigJson ::
    "(string \<Rightarrow> json option) \<Rightarrow> string option \<Rightarrow> string \<Rightarrow> json list res" where
  "parseConfigJson jsonParse raw configName =
     (case raw of
        None \<Rightarrow> Inl (PlainError (configName @ '' is required''))
      | Some r \<Rightarrow>
          if trim r = [] then Inl (PlainError (configName @ '' is required''))
          else (case jsonParse r of
                  None \<Rightarrow> Inl (PlainError (configName @ '' contains invalid JSON''))
                | Some (JArr xs) \<Rightarrow> Inr xs
                | Some _ \<Rightarrow> Inl (PlainError (configName @ '' must be a JSON array''))))"

definition isVarChar :: "char \<Rightarrow> bool" where
  "isVarChar c = (isDigit c \<or> (65 \<le> code c \<and> code c \<le> 90) \<or> c = CHR ''_'')"

text \<open>\<open>interpolateString\<close>: every \<open>${NAME}\<close>, scanned from the left, is replaced.\<close>

function interpolateString :: "environment \<Rightarrow> string \<Rightarrow> string res" where
  "interpolateString vars [] = Inr []"
| "interpolateString vars (c # cs) =
     (let body = tl cs; name = takeWhile isVarChar body; after = dropWhile isVarChar body in
      if c = CHR ''$'' \<and> cs \<noteq> [] \<and> hd cs = CHR ''{'' \<and> name \<noteq> [] \<and> after \<noteq> [] \<and> hd after = CHR ''}''
      then (case vars name of
              None \<Rightarrow> Inl (PlainError (''Missing environment variable for config interpolation: '' @ name))
            | Some v \<Rightarrow> (case interpolateString vars (tl after) of
                           Inl e \<Rightarrow> Inl e | Inr t \<Rightarrow> Inr (v @ t)))
      else (case interpolateString vars cs of Inl e \<Rightarrow> Inl e | Inr t \<Rightarrow> Inr (c # t)))"
  by pat_completeness auto
termination
proof (relation "measure (\<lambda>(vars, s). length s)", goal_cases)
  case (2 vars c cs body name after v)
  have "length (dropWhile isVarChar (tl cs)) \<le> length (tl cs)" by (rule length_dropWhile_le)
  then have "length (tl after) < length (c # cs)" using 2 by simp
  then show ?case by simp
qed auto

text \<open>\<open>interpolateRecord\<close>: strings are interpolated, objects entered, arrays left as they are.\<close>

fun interpolateValue :: "environment \<Rightarrow> json \<Rightarrow> json res"
and interpolateRecord :: "environment \<Rightarrow> (string \<times> json) list \<Rightarrow> (string \<times> json) list res" where
  "interpolateValue vars (JStr s) =
     (case interpolateString vars s of Inl e \<Rightarrow> Inl e | Inr t \<Rightarrow> Inr (JStr t))"
| "interpolateValue vars (JObj kvs) =
     (case interpolateRecord vars kvs of Inl e \<Rightarrow> Inl e | Inr r \<Rightarrow> Inr (JObj r))"
| "interpolateValue vars v = Inr v"
| "interpolateRecord vars [] = Inr []"
| "interpolateRecord vars ((k, v) # kvs) =
     (case interpolateValue vars v of
        Inl e \<Rightarrow> Inl e
      | Inr v' \<Rightarrow> (case interpolateRecord vars kvs of Inl e \<Rightarrow> Inl e | Inr r \<Rightarrow> Inr ((k, v') # r)))"

fun interpolateConfigValues ::
    "(string \<times> json) list list \<Rightarrow> environment \<Rightarrow> (string \<times> json) list list res" where
  "interpolateConfigValues [] vars = Inr []"
| "interpolateConfigValues (e # es) vars =
     (case interpolateRecord vars e of
        Inl x \<Rightarrow> Inl x
      | Inr e' \<Rightarrow> (case interpolateConfigValues es vars of Inl x \<Rightarrow> Inl x | Inr r \<Rightarrow> Inr (e' # r)))"

section \<open>Uniqueness checks\<close>

text \<open>
  The three loops have the same body: a set of the keys seen so far, a throw on the first
  repetition, the key added otherwise; the list itself is returned.
\<close>

fun checkUnique :: "('a \<Rightarrow> 'k) \<Rightarrow> ('k \<Rightarrow> string) \<Rightarrow> 'k list \<Rightarrow> 'a list \<Rightarrow> unit res" where
  "checkUnique key msg seen [] = Inr ()"
| "checkUnique key msg seen (x # xs) =
     (if key x \<in> set seen then Inl (PlainError (msg (key x)))
      else checkUnique key msg (key x # seen) xs)"

definition validateAaveVaults :: "aave_vault_definition list \<Rightarrow> aave_vault_definition list res" where
  "validateAaveVaults vaults =
     (case checkUnique av_vaultId (\<lambda>k. ''Duplicate vaultId in AAVE_VAULTS_CONFIG: '' @ k) [] vaults of
        Inl e \<Rightarrow> Inl e | Inr _ \<Rightarrow> Inr vaults)"

definition validateChains :: "chain_definition list \<Rightarrow> chain_definition list res" where
  "validateChains defs =
     (case checkUnique ch_chainId (\<lambda>k. ''Duplicate chainId in CHAINS_CONFIG: '' @ showInt k) [] defs of
        Inl e \<Rightarrow> Inl e | Inr _ \<Rightarrow> Inr defs)"

definition assetKey :: "asset_definition \<Rightarrow> string" where
  "assetKey a = showInt (as_chainId a) @ '':'' @ toUpperCase (as_symbol a)"

definition validateAssets :: "asset_definition list \<Rightarrow> asset_definition list res" where
  "validateAssets assets =
     (case checkUnique assetKey (\<lambda>k. ''Duplicate asset in ASSETS_CONFIG: '' @ k) [] assets of
        Inl e \<Rightarrow> Inl e | Inr _ \<Rightarrow> Inr assets)"

text \<open>The symbol is stored in upper case before the check.\<close>

definition assetsConfig :: "asset_definition list \<Rightarrow> asset_definition list res" where
  "assetsConfig assets = validateAssets (map (\<lambda>a. a\<lparr>as_symbol := toUpperCase (as_symbol a)\<rparr>) assets)"

section \<open>Loaders\<close>

definition appConfig :: "environment \<Rightarrow> app_config" where
  "appConfig env =
     \<lparr>nodeEnv = envOr env ''NODE_ENV'' ''development'',
      appEnv = envOr env ''APP_ENV'' ''local'',
      port = parseIntJs (envOr env ''PORT'' ''3000''),
      apiPrefix = envOr env ''API_PREFIX'' ''api/v1'',
      logLevel = envOr env ''LOG_LEVEL'' ''info'',
      corsOrigins = parseCorsOrigins (env ''CORS_ORIGINS'')\<rparr>"

definition securityConfig :: "environment \<Rightarrow> security_config" where
  "securityConfig env =
     \<lparr>rateLimitTtlMs = parseIntJs (envOr env ''RATE_LIMIT_TTL_MS'' ''60000''),
      rateLimitMax = parseIntJs (envOr env ''RATE_LIMIT_MAX'' ''100''),
      maxDepositsPerMinute = parseIntJs (envOr env ''MAX_DEPOSITS_PER_MINUTE'' ''10''),
      maxWithdrawalsPerMinute = parseIntJs (envOr env ''MAX_WITHDRAWALS_PER_MINUTE'' ''10''),
      dependencyCheckTimeoutMs = parseIntJs (envOr env ''DEPENDENCY_CHECK_TIMEOUT_MS'' ''5000'')\<rparr>"

definition blockchainConfig :: "environment \<Rightarrow> blockchain_config" where
  "blockchainConfig env =
     \<lparr>bc_chain = envOr env ''CHAIN'' ''base-sepolia'',
      bc_chainId = parseIntJs (envOr env ''CHAIN_ID'' ''84532''),
      mainnetEnabled = (env ''MAINNET_ENABLED'' = Some ''true''),
      allowMainnetTransactions = (env ''ALLOW_MAINNET_TRANSACTIONS'' = Some ''true''),
      bc_rpcUrl = envOr env ''RPC_URL'' ''https://sepolia.base.org'',
      alchemyApiKey = envOr env ''ALCHEMY_API_KEY'' []\<rparr>"

definition redisConfig :: "environment \<Rightarrow> redis_config" where
  "redisConfig env =
     \<lparr>restUrl = envOr env ''UPSTASH_REDIS_REST_URL'' [],
      restToken = envOr env ''UPSTASH_REDIS_REST_TOKEN'' [],
      redisUrl = envOr env ''REDIS_URL'' [],
      queueEnabled = (env ''NODE_ENV'' \<noteq> Some ''test''
        \<and> toLowerCase (envOr env ''QUEUE_ENABLED'' ''true'') \<noteq> ''false'')\<rparr>"

definition privyConfig :: "environment \<Rightarrow> privy_config" where
  "privyConfig env =
     \<lparr>appId = envOr env ''PRIVY_APP_ID'' [],
      appSecret = envOr env ''PRIVY_APP_SECRET'' [],
      jwksUrl = envOr env ''PRIVY_JWKS_URL'' [],
      authorizationPrivateKey = env ''PRIVY_AUTHORIZATION_PRIVATE_KEY'',
      walletSignerKeyQuorumId = env ''PRIVY_WALLET_SIGNER_KEY_QUORUM_ID''\<rparr>"

definition idempotencyConfig :: "environment \<Rightarrow> idempotency_config" where
  "idempotencyConfig env =
     \<lparr>ttlHours = (case parseIntJs (envOr env ''IDEMPOTENCY_TTL_HOURS'' ''24'') of
                    Some n \<Rightarrow> if n > 0 then n else 24
                  | None \<Rightarrow> 24),
      headerName = toLowerCase (envOr env ''IDEMPOTENCY_HEADER_NAME'' ''idempotency-key'')\<rparr>"

definition protocolsConfig :: "environment \<Rightarrow> string res" where
  "protocolsConfig env =
     (let provider = envOr env ''EARN_PROTOCOL_PROVIDER'' ''aave'' in
      if provider \<noteq> ''aave'' then Inl (PlainError (''Unsupported earn protocol provider: '' @ provider))
      else Inr ''aave'')"

section \<open>Facts\<close>

lemma checkUnique_Inr:
  "checkUnique key msg seen xs = Inr () \<longleftrightarrow> distinct (map key xs) \<and> set (map key xs) \<inter> set seen = {}"
  by (induction xs arbitrary: seen) auto

lemma checkUnique_Inl:
  "checkUnique key msg seen xs = Inl e \<Longrightarrow>
   \<exists>pre x post. xs = pre @ x # post \<and> key x \<in> set seen \<union> set (map key pre) \<and> e = PlainError (msg (key x))"
proof (induction xs arbitrary: seen)
  case Nil
  then show ?case by simp
next
  case (Cons x xs)
  show ?case
  proof (cases "key x \<in> set seen")
    case True
    with Cons.prems show ?thesis by (intro exI [of _ "[]"]) auto
  next
    case False
    with Cons obtain pre y post where "xs = pre @ y # post"
      and "key y \<in> set (key x # seen) \<union> set (map key pre)" and "e = PlainError (msg (key y))"
      by fastforce
    then show ?thesis by (intro exI [of _ "x # pre"] exI [of _ y] exI [of _ post]) auto
  qed
qed

lemma showInt_chars: "c \<in> set (showInt i) \<Longrightarrow> isDigit c \<or> c = CHR ''-''"
  using showNat_digits by (auto simp: showInt_def list_all_iff split: if_splits)

lemma takeWhile_stop: "(\<And>c. c \<in> set s \<Longrightarrow> p c) \<Longrightarrow> \<not> p x \<Longrightarrow> takeWhile p (s @ x # t) = s"
  by (induction s) auto

text \<open>No asset key is shared by two different (chain, symbol) pairs: a printed id has no colon.\<close>

lemma assetKey_inj:
  "assetKey a = assetKey b \<longleftrightarrow>
   as_chainId a = as_chainId b \<and> toUpperCase (as_symbol a) = toUpperCase (as_symbol b)"
proof
  assume eq: "assetKey a = assetKey b"
  let ?p = "\<lambda>c. c \<noteq> CHR '':''"
  have "takeWhile ?p (assetKey x) = showInt (as_chainId x)" for x
    unfolding assetKey_def append.simps by (rule takeWhile_stop) (auto dest: showInt_chars)
  with eq have id: "showInt (as_chainId a) = showInt (as_chainId b)" by metis
  with eq show "as_chainId a = as_chainId b \<and> toUpperCase (as_symbol a) = toUpperCase (as_symbol b)"
    by (auto simp: assetKey_def dest: showInt_inj)
qed (simp add: assetKey_def)

lemma interpolateString_id: "CHR ''$'' \<notin> set s \<Longrightarrow> interpolateString vars s = Inr s"
  by (induction s) (auto simp: Let_def)

lemma interpolateString_prefix:
  assumes "CHR ''$'' \<notin> set pre"
  shows "interpolateString vars (pre @ s) = (case interpolateString vars s of Inl e \<Rightarrow> Inl e | Inr t \<Rightarrow> Inr (pre @ t))"
  using assms by (induction pre) (auto simp: Let_def split: sum.splits)

lemma takeWhile_all_stop: "list_all p s \<Longrightarrow> \<not> p x \<Longrightarrow> takeWhile p (s @ x # t) = s"
  by (induction s) auto

lemma dropWhile_all_stop: "list_all p s \<Longrightarrow> \<not> p x \<Longrightarrow> dropWhile p (s @ x # t) = x # t"
  by (induction s) auto

lemma brace_not_var: "\<not> isVarChar (CHR ''}'')"
  by (simp add: isVarChar_def isDigit_def code_def)

lemma interpolateString_var:
  assumes "name \<noteq> []" and "list_all isVarChar name"
  shows "interpolateString vars (''${'' @ name @ CHR ''}'' # rest) =
    (case vars name of
       None \<Rightarrow> Inl (PlainError (''Missing environment variable for config interpolation: '' @ name))
     | Some v \<Rightarrow> (case interpolateString vars rest of Inl e \<Rightarrow> Inl e | Inr t \<Rightarrow> Inr (v @ t)))"
  using assms
  by (simp add: Let_def takeWhile_all_stop dropWhile_all_stop brace_not_var split: option.split
           del: takeWhile_eq_Nil_iff)

end
