(* ===== verification/Schema.thy ===== *)
theory Schema
  imports Config
begin

text \<open>
  The state every handler runs on.  The rows are the models of \<^verbatim>\<open>prisma/schema.prisma\<close>, a
  table is the list of its rows in insertion order, and \<open>world\<close> holds the tables, the Redis
  keys, the clock and the transactions handed to the wallet provider so far.  Identifiers are
  drawn from a counter (the column default \<open>uuid()\<close>); a decimal column \<open>Decimal(36, 18)\<close>
  holds an \<open>int\<close> below \<open>10 ^ 18\<close> in absolute value and a write of more is the database's
  numeric overflow error.

  \<open>env\<close> collects what the code calls and does not define: the configuration that was loaded,
  the JSON-RPC reads, the ABI encoder and the unit conversions of viem, the Privy API, the
  reachability of the audit table.  Each remote operation takes the number of the call first,
  so two calls with the same arguments may answer differently.
\<close>

section \<open>Rows\<close>

type_synonym uuid = nat

datatype wallet_type = EMBEDDED | EXTERNAL
datatype wallet_provider_type = MOCK | PRIVY
datatype position_status = P_ACTIVE | P_CLOSED | P_PENDING | P_WITHDRAWING | P_FAILED
datatype transaction_type = APPROVAL | DEPOSIT | WITHDRAW | YIELD_CLAIM | REBALANCE
datatype transaction_status = T_CREATED | T_SUBMITTED | T_CONFIRMED | T_FAILED | T_REVERTED

datatype audit_action =
    USER_REGISTERED | USER_LOGIN | WALLET_CREATED | APPROVAL_REQUESTED | APPROVAL_CONFIRMED
  | DEPOSIT_REQUESTED | DEPOSIT_CONFIRMED | WITHDRAW_REQUESTED | WITHDRAW_CONFIRMED

record user =
  u_id :: uuid
  u_privyUserId :: "string option"
  u_email :: "string option"
  u_passwordHash :: "string option"
  u_createdAt :: nat
  u_updatedAt :: nat

record wallet =
  w_id :: uuid
  w_userId :: uuid
  w_address :: string
  w_chainId :: int
  w_walletType :: wallet_type
  w_providerId :: string
  w_providerType :: wallet_provider_type
  w_isPrimary :: bool
  w_createdAt :: nat
  w_updatedAt :: nat

record vault =
  v_id :: uuid
  v_slug :: string
  v_name :: string
  v_chainId :: int
  v_contractAddress :: string
  v_assetSymbol :: string
  v_assetDecimals :: nat
  v_apy :: string
  v_isActive :: bool
  v_createdAt :: nat
  v_updatedAt :: nat

record position =
  p_id :: uuid
  p_userId :: uuid
  p_vaultId :: uuid
  p_status :: position_status
  p_depositedAmount :: int
  p_currentAmount :: int
  p_shares :: int
  p_createdAt :: nat
  p_updatedAt :: nat

type_synonym metadata = "(string \<times> json) list"

record transaction =
  t_id :: uuid
  t_userId :: uuid
  t_walletId :: "uuid option"
  t_vaultId :: "uuid option"
  t_positionId :: "uuid option"
  t_type :: transaction_type
  t_status :: transaction_status
  t_amount :: int
  t_txHash :: "string option"
  t_chainId :: int
  t_blockNumber :: "int option"
  t_metadata :: "metadata option"
  t_createdAt :: nat
  t_updatedAt :: nat

record idempotency_key =
  i_id :: uuid
  i_userId :: "uuid option"
  i_key :: string
  i_requestPath :: string
  i_requestHash :: string
  i_responseData :: "json option"
  i_statusCode :: "nat option"
  i_expiresAt :: nat
  i_createdAt :: nat

record audit_log =
  a_userId :: "uuid option"
  a_action :: audit_action
  a_entityType :: string
  a_entityId :: uuid
  a_metadata :: "metadata option"

section \<open>The world\<close>

record redis_entry =
  r_value :: string
  r_expires :: "nat option"

record send_transaction_input =
  s_providerWalletId :: string
  s_chainId :: int
  s_to :: string
  s_value :: "string option"
  s_data :: "string option"

text \<open>
  A request that reached the Privy API: the transaction and the idempotency key it carried (the
  number of the \<open>randomUUID()\<close> call that made it).
\<close>

record sent_request =
  q_input :: send_transaction_input
  q_idempotencyKey :: nat

record world =
  users :: "user list"
  wallets :: "wallet list"
  vaults :: "vault list"
  positions :: "position list"
  transactions :: "transaction list"
  idempotencyKeys :: "idempotency_key list"
  auditLogs :: "audit_log list"
  nextId :: nat
  now :: nat
  redis :: "string \<Rightarrow> redis_entry option"
  calls :: nat
  sent :: "sent_request list"

definition emptyWorld :: world where
  "emptyWorld = \<lparr>users = [], wallets = [], vaults = [], positions = [], transactions = [],
     idempotencyKeys = [], auditLogs = [], nextId = 0, now = 0, redis = (\<lambda>_. None), calls = 0,
     sent = []\<rparr>"

type_synonym 'a io = "world \<Rightarrow> 'a res \<times> world"

section \<open>The outside\<close>

datatype receipt_status = Success | Reverted

record receipt =
  rc_status :: receipt_status
  rc_blockNumber :: int
  rc_gasUsed :: int

record broadcast =
  b_hash :: string
  b_transactionId :: "string option"

record privy_wallet =
  pw_id :: string
  pw_address :: string
  pw_ownerId :: "string option"
  pw_additionalSigners :: "string list"

text \<open>What wallet creation asks Privy for: the external id, the name shown and the owner.\<close>

datatype wallet_owner = OwnerQuorum string | OwnerUser string | NoOwner

record privy_create_request =
  pc_externalId :: string
  pc_displayName :: string
  pc_owner :: wallet_owner

record privy_balance =
  pb_asset :: string
  pb_rawValue :: string
  pb_decimals :: nat

datatype abi_call =
    Supply string int string nat
  | WithdrawCall string int string
  | Approve string int
  | Mint string string int

record env =
  e_config :: config
  e_getBalance :: "nat \<Rightarrow> int \<Rightarrow> string \<Rightarrow> int res"
  e_balanceOf :: "nat \<Rightarrow> int \<Rightarrow> string \<Rightarrow> string \<Rightarrow> int res"
  e_allowance :: "nat \<Rightarrow> int \<Rightarrow> string \<Rightarrow> string \<Rightarrow> string \<Rightarrow> int res"
  e_reserveData :: "nat \<Rightarrow> int \<Rightarrow> string \<Rightarrow> string \<Rightarrow> (int \<times> int) res"
  e_totalSupply :: "nat \<Rightarrow> int \<Rightarrow> string \<Rightarrow> int res"
  e_symbol :: "nat \<Rightarrow> int \<Rightarrow> string \<Rightarrow> string res"
  e_estimateGas :: "nat \<Rightarrow> int \<Rightarrow> string \<Rightarrow> string \<Rightarrow> string \<Rightarrow> int res"
  e_waitReceipt :: "nat \<Rightarrow> int \<Rightarrow> string \<Rightarrow> receipt res"
  e_getReceipt :: "nat \<Rightarrow> int \<Rightarrow> string \<Rightarrow> receipt res"
  e_encode :: "abi_call \<Rightarrow> string res"
  e_formatUnits :: "int \<Rightarrow> nat \<Rightarrow> string"
  e_parseUnits :: "string \<Rightarrow> nat \<Rightarrow> int"
  e_privyGetWallet :: "nat \<Rightarrow> string \<Rightarrow> privy_wallet res"
  e_privySend :: "nat \<Rightarrow> sent_request \<Rightarrow> broadcast res"
  e_privySign :: "nat \<Rightarrow> sent_request \<Rightarrow> (string \<times> string) res"
  e_privyCreateWallet :: "nat \<Rightarrow> privy_create_request \<Rightarrow> privy_wallet res"
  e_privyBalance :: "nat \<Rightarrow> string \<Rightarrow> string \<Rightarrow> string \<Rightarrow> privy_balance list res"
  e_privyUserByCustomAuth :: "nat \<Rightarrow> string \<Rightarrow> string res"
  e_privyUserByEmail :: "nat \<Rightarrow> string \<Rightarrow> string res"
  e_privyCreateUser :: "nat \<Rightarrow> string \<Rightarrow> string option \<Rightarrow> string res"
  e_sha256 :: "string \<Rightarrow> string"
  e_getAddress :: "string \<Rightarrow> string res"
  e_jsonb :: "json \<Rightarrow> json"
  e_auditUp :: "nat \<Rightarrow> bool"
  e_redisUp :: "nat \<Rightarrow> bool"

text \<open>A remote call: it may fail or answer anything, and counts as one call.\<close>

definition extCall :: "(nat \<Rightarrow> 'a res) \<Rightarrow> 'a io" where
  "extCall f s = (f (calls s), s\<lparr>calls := Suc (calls s)\<rparr>)"

text \<open>\<open>setTimeout\<close> awaited.\<close>

definition sleep :: "nat \<Rightarrow> unit io" where
  "sleep ms = modify (\<lambda>s. s\<lparr>now := now s + ms\<rparr>)"

section \<open>Database errors and columns\<close>

definition decimalBound :: int where
  "decimalBound = 10 ^ 18"

definition decimalFits :: "int \<Rightarrow> bool" where
  "decimalFits n = (\<bar>n\<bar> < decimalBound)"

definition recordNotFound :: exn where
  "recordNotFound = PrismaKnown ''P2025'' ''No record was found''"

definition uniqueViolation :: exn where
  "uniqueViolation = PrismaKnown ''P2002'' ''Unique constraint failed''"

definition valueOutOfRange :: exn where
  "valueOutOfRange = PrismaKnown ''P2020'' ''Value out of range for the type''"

text \<open>A decimal column written from a string: Prisma's decimal parser, then the column's range.\<close>

definition decimalOf :: "string \<Rightarrow> int res" where
  "decimalOf s = (case bigIntOf s of
                    None \<Rightarrow> Inl (PlainError ''Invalid decimal'')
                  | Some n \<Rightarrow> if decimalFits n then Inr n else Inl valueOutOfRange)"

lemma decimalOf_show: "decimalOf (showInt n) = (if decimalFits n then Inr n else Inl valueOutOfRange)"
  by (simp add: decimalOf_def)

definition freshId :: "uuid io" where
  "freshId s = (Inr (nextId s), s\<lparr>nextId := Suc (nextId s)\<rparr>)"

section \<open>The audit log\<close>

record audit_log_input =
  al_userId :: "uuid option"
  al_action :: audit_action
  al_entityType :: string
  al_entityId :: uuid
  al_metadata :: "metadata option"

text \<open>\<open>AuditService.log\<close>: one row, or nothing when the insert fails; never a throw.\<close>

definition auditLog :: "env \<Rightarrow> audit_log_input \<Rightarrow> unit io" where
  "auditLog x input =
     catching
       (andThen (extCall (\<lambda>n. if e_auditUp x n then Inr () else Inl (PrismaKnown ''P1001'' ''Database unreachable'')))
          (\<lambda>_. modify (\<lambda>s. s\<lparr>auditLogs := auditLogs s @
              [\<lparr>a_userId = al_userId input, a_action = al_action input, a_entityType = al_entityType input,
                a_entityId = al_entityId input, a_metadata = al_metadata input\<rparr>]\<rparr>)))
       (\<lambda>_. ret ())"

lemma auditLog_never_throws: "\<exists>s'. auditLog x input s = (Inr (), s')"
  by (simp add: auditLog_def eff_simps extCall_def)

section \<open>Frames\<close>

text \<open>
  What a remote call, a delay or an audit entry writes is outside the tables the earn
  invariants speak of, so a predicate that ignores those four fields is preserved by them.
\<close>

definition ignoresOutside :: "(world \<Rightarrow> bool) \<Rightarrow> bool" where
  "ignoresOutside I \<longleftrightarrow>
     (\<forall>s n q a t. I (s\<lparr>calls := n\<rparr>) = I s \<and> I (s\<lparr>sent := q\<rparr>) = I s
        \<and> I (s\<lparr>auditLogs := a\<rparr>) = I s \<and> I (s\<lparr>now := t\<rparr>) = I s)"

lemma preserves_extCall [pres]: "ignoresOutside I \<Longrightarrow> preserves I (extCall f)"
  by (simp add: preserves_def extCall_def ignoresOutside_def)

lemma preserves_sleep [pres]: "ignoresOutside I \<Longrightarrow> preserves I (sleep ms)"
  by (simp add: preserves_def sleep_def ignoresOutside_def)

lemma preserves_auditLog [pres]: "ignoresOutside I \<Longrightarrow> preserves I (auditLog x input)"
  unfolding auditLog_def
  by (intro pres) (auto simp: preserves_def extCall_def ignoresOutside_def)

lemma extCall_fields [simp]:
  "positions (snd (extCall f s)) = positions s" "transactions (snd (extCall f s)) = transactions s"
  "vaults (snd (extCall f s)) = vaults s" "wallets (snd (extCall f s)) = wallets s"
  "nextId (snd (extCall f s)) = nextId s" "redis (snd (extCall f s)) = redis s"
  "idempotencyKeys (snd (extCall f s)) = idempotencyKeys s" "sent (snd (extCall f s)) = sent s"
  "users (snd (extCall f s)) = users s" "now (snd (extCall f s)) = now s"
  by (simp_all add: extCall_def)

lemma auditLog_fields [simp]:
  "positions (snd (auditLog x input s)) = positions s"
  "transactions (snd (auditLog x input s)) = transactions s"
  "vaults (snd (auditLog x input s)) = vaults s" "wallets (snd (auditLog x input s)) = wallets s"
  "nextId (snd (auditLog x input s)) = nextId s" "redis (snd (auditLog x input s)) = redis s"
  "idempotencyKeys (snd (auditLog x input s)) = idempotencyKeys s"
  "sent (snd (auditLog x input s)) = sent s"
  by (simp_all add: auditLog_def eff_simps extCall_def)

end
