(* ===== verification/Tables.thy ===== *)
theory Tables
  imports Schema
begin

text \<open>
  The one way the repositories change a row, \<open>update({ where: { id }, data })\<close>: look the row
  up by its key, compute the new row (which may fail on a column's range), stamp \<open>updatedAt\<close>,
  write it back.  The locale \<open>table\<close> is the contract of a table (reading what was put, keys
  untouched by the stamp) and holds the facts about updates once for all tables; it is
  interpreted here on the position, transaction, vault and idempotency tables of \<open>world\<close>.
\<close>

definition tableUpdate ::
    "(world \<Rightarrow> 'r list) \<Rightarrow> ('r list \<Rightarrow> world \<Rightarrow> world) \<Rightarrow> ('r \<Rightarrow> uuid) \<Rightarrow> (nat \<Rightarrow> 'r \<Rightarrow> 'r) \<Rightarrow>
     uuid \<Rightarrow> ('r \<Rightarrow> 'r res) \<Rightarrow> 'r io" where
  "tableUpdate get put key touch i f s =
     (case find (\<lambda>r. key r = i) (get s) of
        None \<Rightarrow> (Inl recordNotFound, s)
      | Some r \<Rightarrow>
          (case f r of
             Inl e \<Rightarrow> (Inl e, s)
           | Inr r' \<Rightarrow>
               (let r'' = touch (now s) r' in
                (Inr r'', put (updWhere (\<lambda>q. key q = i) (\<lambda>_. r'') (get s)) s))))"

definition putPositions :: "position list \<Rightarrow> world \<Rightarrow> world" where
  "putPositions rs s = s\<lparr>positions := rs\<rparr>"

definition putTransactions :: "transaction list \<Rightarrow> world \<Rightarrow> world" where
  "putTransactions rs s = s\<lparr>transactions := rs\<rparr>"

definition putVaults :: "vault list \<Rightarrow> world \<Rightarrow> world" where
  "putVaults rs s = s\<lparr>vaults := rs\<rparr>"

definition putIdempotencyKeys :: "idempotency_key list \<Rightarrow> world \<Rightarrow> world" where
  "putIdempotencyKeys rs s = s\<lparr>idempotencyKeys := rs\<rparr>"

definition touchPosition :: "nat \<Rightarrow> position \<Rightarrow> position" where
  "touchPosition t p = p\<lparr>p_updatedAt := t\<rparr>"

definition touchTransaction :: "nat \<Rightarrow> transaction \<Rightarrow> transaction" where
  "touchTransaction t r = r\<lparr>t_updatedAt := t\<rparr>"

definition touchVault :: "nat \<Rightarrow> vault \<Rightarrow> vault" where
  "touchVault t v = v\<lparr>v_updatedAt := t\<rparr>"

definition positionUpdate :: "uuid \<Rightarrow> (position \<Rightarrow> position res) \<Rightarrow> position io" where
  "positionUpdate = tableUpdate positions putPositions p_id touchPosition"

definition transactionUpdate :: "uuid \<Rightarrow> (transaction \<Rightarrow> transaction res) \<Rightarrow> transaction io" where
  "transactionUpdate = tableUpdate transactions putTransactions t_id touchTransaction"

definition vaultUpdate :: "uuid \<Rightarrow> (vault \<Rightarrow> vault res) \<Rightarrow> vault io" where
  "vaultUpdate = tableUpdate vaults putVaults v_id touchVault"

text \<open>The idempotency table has no \<open>updatedAt\<close> column.\<close>

definition idempotencyUpdate :: "uuid \<Rightarrow> (idempotency_key \<Rightarrow> idempotency_key res) \<Rightarrow> idempotency_key io" where
  "idempotencyUpdate = tableUpdate idempotencyKeys putIdempotencyKeys i_id (\<lambda>_ r. r)"

locale table =
  fixes get :: "world \<Rightarrow> 'r list"
    and put :: "'r list \<Rightarrow> world \<Rightarrow> world"
    and key :: "'r \<Rightarrow> uuid"
    and touch :: "nat \<Rightarrow> 'r \<Rightarrow> 'r"
  assumes get_put: "get (put rs s) = rs"
    and key_touch: "key (touch t r) = key r"
begin

lemma update_missing:
  "find (\<lambda>r. key r = i) (get s) = None \<Longrightarrow>
   tableUpdate get put key touch i f s = (Inl recordNotFound, s)"
  by (simp add: tableUpdate_def)

lemma update_rejected:
  "find (\<lambda>r. key r = i) (get s) = Some r \<Longrightarrow> f r = Inl e \<Longrightarrow>
   tableUpdate get put key touch i f s = (Inl e, s)"
  by (simp add: tableUpdate_def)

lemma update_hit:
  "find (\<lambda>r. key r = i) (get s) = Some r \<Longrightarrow> f r = Inr r' \<Longrightarrow>
   tableUpdate get put key touch i f s =
     (Inr (touch (now s) r'), put (updWhere (\<lambda>q. key q = i) (\<lambda>_. touch (now s) r') (get s)) s)"
  by (simp add: tableUpdate_def Let_def)

lemma update_InrE:
  assumes "tableUpdate get put key touch i f s = (Inr r'', s')"
  obtains r r' where "find (\<lambda>r. key r = i) (get s) = Some r" and "f r = Inr r'"
    and "r'' = touch (now s) r'"
    and "s' = put (updWhere (\<lambda>q. key q = i) (\<lambda>_. r'') (get s)) s"
  using assms by (auto simp: tableUpdate_def Let_def split: option.splits sum.splits)

lemma update_Inl_state:
  "tableUpdate get put key touch i f s = (Inl e, s') \<Longrightarrow> s' = s"
  by (auto simp: tableUpdate_def Let_def split: option.splits sum.splits)

text \<open>The updated row is the one the key finds, every other key finds what it found before.\<close>

lemma update_lookup:
  assumes "tableUpdate get put key touch i f s = (Inr r'', s')" and "\<And>r r'. f r = Inr r' \<Longrightarrow> key r' = key r"
  shows "find (\<lambda>r. key r = j) (get s')
       = (if j = i then Some r'' else find (\<lambda>r. key r = j) (get s))"
proof -
  from assms(1) obtain r r' where hit: "find (\<lambda>r. key r = i) (get s) = Some r"
    and "f r = Inr r'" and r'': "r'' = touch (now s) r'"
    and s': "s' = put (updWhere (\<lambda>q. key q = i) (\<lambda>_. r'') (get s)) s"
    by (rule update_InrE)
  from hit have "key r = i" by (auto dest: find_Some_iff_first)
  with assms(2) [OF \<open>f r = Inr r'\<close>] r'' have k: "key r'' = i" by (simp add: key_touch)
  have "find (\<lambda>r. key r = j) (updWhere (\<lambda>q. key q = i) (\<lambda>_. r'') rs)
      = (if j = i then map_option (\<lambda>_. r'') (find (\<lambda>r. key r = j) rs) else find (\<lambda>r. key r = j) rs)" for rs
    by (induction rs) (auto simp: k)
  with hit s' show ?thesis by (simp add: get_put)
qed

lemma update_map:
  assumes "\<And>r r'. r \<in> set (get s) \<Longrightarrow> f r = Inr r' \<Longrightarrow> h (touch (now s) r') = h r"
    and "distinct (map key (get s))"
  shows "map h (get (snd (tableUpdate get put key touch i f s))) = map h (get s)"
proof (cases "tableUpdate get put key touch i f s")
  case (Pair res s')
  show ?thesis
  proof (cases res)
    case (Inl e)
    with Pair show ?thesis using update_Inl_state by fastforce
  next
    case (Inr r'')
    with Pair obtain r r' where hit: "find (\<lambda>r. key r = i) (get s) = Some r" and f: "f r = Inr r'"
      and r'': "r'' = touch (now s) r'"
      and s': "s' = put (updWhere (\<lambda>q. key q = i) (\<lambda>_. r'') (get s)) s"
      by (auto elim: update_InrE)
    from hit have r: "r \<in> set (get s)" "key r = i" by (auto dest: find_Some_iff_first)
    have h: "h r'' = h r" using assms(1) [OF r(1) f] r'' by simp
    have "map h (updWhere (\<lambda>q. key q = i) (\<lambda>_. r'') (get s)) = map h (get s)"
      using h r distinct_key_eq [OF assms(2)] by (auto simp: updWhere_def)
    then show ?thesis using Pair s' by (simp add: get_put)
  qed
qed

text \<open>A property of every row survives if the new row has it.\<close>

lemma update_all_rows:
  assumes "\<And>r. r \<in> set (get s) \<Longrightarrow> Q r"
    and "\<And>r r'. r \<in> set (get s) \<Longrightarrow> key r = i \<Longrightarrow> Q r \<Longrightarrow> f r = Inr r' \<Longrightarrow> Q (touch (now s) r')"
    and "r \<in> set (get (snd (tableUpdate get put key touch i f s)))"
  shows "Q r"
  using assms
  by (auto simp: tableUpdate_def Let_def get_put in_updWhere split: option.splits sum.splits if_splits
           dest: find_Some_iff_first)

lemma update_frame:
  assumes "\<And>rs. h (put rs s) = h s"
  shows "h (snd (tableUpdate get put key touch i f s)) = h s"
  using assms by (simp add: tableUpdate_def Let_def split: option.splits sum.splits)

end

interpretation positionTable: table positions putPositions p_id touchPosition
  by unfold_locales (simp_all add: putPositions_def touchPosition_def)

interpretation transactionTable: table transactions putTransactions t_id touchTransaction
  by unfold_locales (simp_all add: putTransactions_def touchTransaction_def)

interpretation vaultTable: table vaults putVaults v_id touchVault
  by unfold_locales (simp_all add: putVaults_def touchVault_def)

interpretation idempotencyTable: table idempotencyKeys putIdempotencyKeys i_id "\<lambda>_ r. r"
  by unfold_locales (simp_all add: putIdempotencyKeys_def)

lemmas put_defs = putPositions_def putTransactions_def putVaults_def putIdempotencyKeys_def
lemmas touch_defs = touchPosition_def touchTransaction_def touchVault_def
lemmas update_defs = positionUpdate_def transactionUpdate_def vaultUpdate_def idempotencyUpdate_def

section \<open>An update writes its own table only\<close>

lemma positionUpdate_fields [simp]:
  "transactions (snd (positionUpdate i f s)) = transactions s"
  "vaults (snd (positionUpdate i f s)) = vaults s" "wallets (snd (positionUpdate i f s)) = wallets s"
  "nextId (snd (positionUpdate i f s)) = nextId s" "redis (snd (positionUpdate i f s)) = redis s"
  "idempotencyKeys (snd (positionUpdate i f s)) = idempotencyKeys s"
  "sent (snd (positionUpdate i f s)) = sent s" "now (snd (positionUpdate i f s)) = now s"
  "users (snd (positionUpdate i f s)) = users s" "calls (snd (positionUpdate i f s)) = calls s"
  by (simp_all add: positionUpdate_def positionTable.update_frame putPositions_def)

lemma transactionUpdate_fields [simp]:
  "positions (snd (transactionUpdate i f s)) = positions s"
  "vaults (snd (transactionUpdate i f s)) = vaults s" "wallets (snd (transactionUpdate i f s)) = wallets s"
  "nextId (snd (transactionUpdate i f s)) = nextId s" "redis (snd (transactionUpdate i f s)) = redis s"
  "idempotencyKeys (snd (transactionUpdate i f s)) = idempotencyKeys s"
  "sent (snd (transactionUpdate i f s)) = sent s" "now (snd (transactionUpdate i f s)) = now s"
  "users (snd (transactionUpdate i f s)) = users s" "calls (snd (transactionUpdate i f s)) = calls s"
  by (simp_all add: transactionUpdate_def transactionTable.update_frame putTransactions_def)

lemma vaultUpdate_fields [simp]:
  "positions (snd (vaultUpdate i f s)) = positions s"
  "transactions (snd (vaultUpdate i f s)) = transactions s" "wallets (snd (vaultUpdate i f s)) = wallets s"
  "nextId (snd (vaultUpdate i f s)) = nextId s" "redis (snd (vaultUpdate i f s)) = redis s"
  "idempotencyKeys (snd (vaultUpdate i f s)) = idempotencyKeys s"
  "sent (snd (vaultUpdate i f s)) = sent s" "now (snd (vaultUpdate i f s)) = now s"
  by (simp_all add: vaultUpdate_def vaultTable.update_frame putVaults_def)

lemma idempotencyUpdate_fields [simp]:
  "positions (snd (idempotencyUpdate i f s)) = positions s"
  "transactions (snd (idempotencyUpdate i f s)) = transactions s"
  "vaults (snd (idempotencyUpdate i f s)) = vaults s"
  "nextId (snd (idempotencyUpdate i f s)) = nextId s" "redis (snd (idempotencyUpdate i f s)) = redis s"
  "sent (snd (idempotencyUpdate i f s)) = sent s" "now (snd (idempotencyUpdate i f s)) = now s"
  by (simp_all add: idempotencyUpdate_def idempotencyTable.update_frame putIdempotencyKeys_def)

end
