(* ===== verification/Positions.thy ===== *)
theory Positions
  imports Tables
begin

text \<open>
  \<^verbatim>\<open>src/earn/persistence/positions\<close>: the position repository (\<open>posRepo_\<close>) and the service over
  it (\<open>pos_\<close>), which turns rows into records whose amounts are decimal strings.  The facts say
  what each operation writes, that a position's amounts stay equal and non-negative
  (\<open>goodPosition\<close>), and that keys, owners and vaults never change.
\<close>

section \<open>Types\<close>

record create_position_input =
  cp_userId :: uuid
  cp_vaultId :: uuid
  cp_status :: "position_status option"

record activate_position_input =
  ap_depositedAmount :: string
  ap_currentAmount :: string
  ap_shares :: string

record withdraw_position_input =
  wp_withdrawnAmount :: string
  wp_shares :: string

record position_record =
  pr_positionId :: uuid
  pr_userId :: uuid
  pr_vaultId :: uuid
  pr_status :: position_status
  pr_depositedAmount :: string
  pr_currentAmount :: string
  pr_shares :: string
  pr_createdAt :: nat
  pr_updatedAt :: nat

type_synonym position_with_vault = "position \<times> vault"

record position_filter =
  pf_userId :: uuid
  pf_vaultSlug :: "string option"
  pf_status :: "position_status option"
  pf_walletId :: "uuid option"

section \<open>Repository\<close>

definition posRepo_findByUserAndVault :: "uuid \<Rightarrow> uuid \<Rightarrow> position option io" where
  "posRepo_findByUserAndVault userId vaultId =
     gets (\<lambda>s. find (\<lambda>p. p_userId p = userId \<and> p_vaultId p = vaultId) (positions s))"

definition posRepo_findById :: "uuid \<Rightarrow> position option io" where
  "posRepo_findById positionId = gets (\<lambda>s. find (\<lambda>p. p_id p = positionId) (positions s))"

text \<open>\<open>include: { vault: true }\<close>: the row the foreign key names.\<close>

definition vaultById :: "world \<Rightarrow> uuid \<Rightarrow> vault option" where
  "vaultById s vaultId = find (\<lambda>v. v_id v = vaultId) (vaults s)"

definition withVault :: "world \<Rightarrow> position \<Rightarrow> position_with_vault option" where
  "withVault s p = map_option (\<lambda>v. (p, v)) (vaultById s (p_vaultId p))"

definition posRepo_findByIdWithVault :: "uuid \<Rightarrow> position_with_vault option io" where
  "posRepo_findByIdWithVault positionId =
     gets (\<lambda>s. case find (\<lambda>p. p_id p = positionId) (positions s) of
                 None \<Rightarrow> None | Some p \<Rightarrow> withVault s p)"

text \<open>The \<open>where\<close> clause, each optional filter added only when it is given (and not empty).\<close>

definition positionMatches :: "world \<Rightarrow> position_filter \<Rightarrow> position_with_vault \<Rightarrow> bool" where
  "positionMatches s input pv =
     (case pv of (p, v) \<Rightarrow>
        p_userId p = pf_userId input
        \<and> (case pf_status input of None \<Rightarrow> True | Some st \<Rightarrow> p_status p = st)
        \<and> (case pf_vaultSlug input of None \<Rightarrow> True | Some sl \<Rightarrow> sl = [] \<or> v_slug v = sl)
        \<and> (case pf_walletId input of
             None \<Rightarrow> True
           | Some w \<Rightarrow> \<exists>t \<in> set (transactions s). t_positionId t = Some (p_id p) \<and> t_walletId t = Some w))"

definition posRepo_findByUserWithFilters :: "position_filter \<Rightarrow> position_with_vault list io" where
  "posRepo_findByUserWithFilters input =
     gets (\<lambda>s. sortDesc (\<lambda>(p, v). p_updatedAt p)
                 (filter (positionMatches s input) (List.map_filter (withVault s) (positions s))))"

definition posRepo_findByUserIdWithVaults :: "uuid \<Rightarrow> position_with_vault list io" where
  "posRepo_findByUserIdWithVaults userId =
     posRepo_findByUserWithFilters
       \<lparr>pf_userId = userId, pf_vaultSlug = None, pf_status = None, pf_walletId = None\<rparr>"

text \<open>The insert, against the constraint \<open>@@unique([userId, vaultId])\<close>; amounts default to 0.\<close>

definition posRepo_create :: "create_position_input \<Rightarrow> position io" where
  "posRepo_create input s =
     (if \<exists>p \<in> set (positions s). p_userId p = cp_userId input \<and> p_vaultId p = cp_vaultId input
      then (Inl uniqueViolation, s)
      else let p = \<lparr>p_id = nextId s, p_userId = cp_userId input, p_vaultId = cp_vaultId input,
                    p_status = (case cp_status input of Some st \<Rightarrow> st | None \<Rightarrow> P_PENDING),
                    p_depositedAmount = 0, p_currentAmount = 0, p_shares = 0,
                    p_createdAt = now s, p_updatedAt = now s\<rparr>
           in (Inr p, s\<lparr>positions := positions s @ [p], nextId := Suc (nextId s)\<rparr>))"

definition setStatus :: "position_status \<Rightarrow> position \<Rightarrow> position res" where
  "setStatus st p = Inr (p\<lparr>p_status := st\<rparr>)"

text \<open>The three decimals a write takes as strings, in column order.\<close>

definition decimals3 :: "string \<Rightarrow> string \<Rightarrow> string \<Rightarrow> (int \<times> int \<times> int) res" where
  "decimals3 a b c =
     (case decimalOf a of Inl e \<Rightarrow> Inl e
      | Inr x \<Rightarrow> (case decimalOf b of Inl e \<Rightarrow> Inl e
      | Inr y \<Rightarrow> (case decimalOf c of Inl e \<Rightarrow> Inl e
      | Inr z \<Rightarrow> Inr (x, y, z))))"

definition setAmounts :: "position_status \<Rightarrow> string \<Rightarrow> string \<Rightarrow> string \<Rightarrow> position \<Rightarrow> position res" where
  "setAmounts st dep cur sh p =
     (case decimals3 dep cur sh of
        Inl e \<Rightarrow> Inl e
      | Inr (x, y, z) \<Rightarrow> Inr (p\<lparr>p_status := st, p_depositedAmount := x, p_currentAmount := y, p_shares := z\<rparr>))"

text \<open>\<open>{ increment: ... }\<close>: the sum is computed by the database and must fit the column too.\<close>

definition incAmounts :: "string \<Rightarrow> string \<Rightarrow> string \<Rightarrow> position \<Rightarrow> position res" where
  "incAmounts dep cur sh p =
     (case decimals3 dep cur sh of
        Inl e \<Rightarrow> Inl e
      | Inr (x, y, z) \<Rightarrow>
          if decimalFits (p_depositedAmount p + x) \<and> decimalFits (p_currentAmount p + y)
             \<and> decimalFits (p_shares p + z)
          then Inr (p\<lparr>p_status := P_ACTIVE, p_depositedAmount := p_depositedAmount p + x,
                      p_currentAmount := p_currentAmount p + y, p_shares := p_shares p + z\<rparr>)
          else Inl valueOutOfRange)"

definition posRepo_activate :: "uuid \<Rightarrow> activate_position_input \<Rightarrow> position io" where
  "posRepo_activate positionId input =
     positionUpdate positionId
       (setAmounts P_ACTIVE (ap_depositedAmount input) (ap_currentAmount input) (ap_shares input))"

definition posRepo_close :: "uuid \<Rightarrow> position io" where
  "posRepo_close positionId = positionUpdate positionId (setStatus P_CLOSED)"

definition posRepo_markWithdrawing :: "uuid \<Rightarrow> position io" where
  "posRepo_markWithdrawing positionId = positionUpdate positionId (setStatus P_WITHDRAWING)"

definition posRepo_markActive :: "uuid \<Rightarrow> position io" where
  "posRepo_markActive positionId = positionUpdate positionId (setStatus P_ACTIVE)"

definition posRepo_markFailed :: "uuid \<Rightarrow> position io" where
  "posRepo_markFailed positionId = positionUpdate positionId (setStatus P_FAILED)"

definition posRepo_addDeposit :: "uuid \<Rightarrow> activate_position_input \<Rightarrow> position io" where
  "posRepo_addDeposit positionId input =
     positionUpdate positionId
       (incAmounts (ap_depositedAmount input) (ap_currentAmount input) (ap_shares input))"

text \<open>\<open>BigInt(s)\<close> where a \<open>SyntaxError\<close> is thrown.\<close>

definition bigInt :: "string \<Rightarrow> int res" where
  "bigInt s = (case bigIntOf s of Some n \<Rightarrow> Inr n | None \<Rightarrow> Inl (PlainError (''Cannot convert '' @ s @ '' to a BigInt'')))"

lemma bigInt_Inr [simp]: "bigInt a = Inr n \<longleftrightarrow> bigIntOf a = Some n"
  by (simp add: bigInt_def split: option.split)

definition posRepo_subtractWithdraw :: "uuid \<Rightarrow> withdraw_position_input \<Rightarrow> position io" where
  "posRepo_subtractWithdraw positionId input =
     andThen (posRepo_findById positionId) (\<lambda>found.
     (case found of
        None \<Rightarrow> throw (PlainError (''Position not found: '' @ showNat positionId))
      | Some existing \<Rightarrow>
          andThen (lift (bigInt (wp_shares input))) (\<lambda>burned.
          andThen (lift (bigInt (wp_withdrawnAmount input))) (\<lambda>withdrawn.
          let remainingShares = p_shares existing - burned;
              remainingCurrent = p_currentAmount existing - withdrawn;
              remainingDeposited = p_depositedAmount existing - withdrawn
          in if remainingShares \<le> 0
             then positionUpdate positionId (setAmounts P_CLOSED ''0'' ''0'' ''0'')
             else positionUpdate positionId
                    (setAmounts P_ACTIVE (showInt remainingDeposited) (showInt remainingCurrent)
                       (showInt remainingShares))))))"

section \<open>Service\<close>

definition toPositionRecord :: "position \<Rightarrow> position_record" where
  "toPositionRecord p =
     \<lparr>pr_positionId = p_id p, pr_userId = p_userId p, pr_vaultId = p_vaultId p, pr_status = p_status p,
      pr_depositedAmount = showInt (p_depositedAmount p), pr_currentAmount = showInt (p_currentAmount p),
      pr_shares = showInt (p_shares p), pr_createdAt = p_createdAt p, pr_updatedAt = p_updatedAt p\<rparr>"

definition asRecord :: "position io \<Rightarrow> position_record io" where
  "asRecord m = andThen m (\<lambda>p. ret (toPositionRecord p))"

definition pos_findByUserAndVault :: "uuid \<Rightarrow> uuid \<Rightarrow> position_record option io" where
  "pos_findByUserAndVault userId vaultId =
     andThen (posRepo_findByUserAndVault userId vaultId) (\<lambda>p. ret (map_option toPositionRecord p))"

definition pos_findById :: "uuid \<Rightarrow> position_record option io" where
  "pos_findById positionId = andThen (posRepo_findById positionId) (\<lambda>p. ret (map_option toPositionRecord p))"

definition pos_findByIdWithVault :: "uuid \<Rightarrow> position_with_vault option io" where
  "pos_findByIdWithVault = posRepo_findByIdWithVault"

definition pos_findByUserIdWithVaults :: "uuid \<Rightarrow> position_with_vault list io" where
  "pos_findByUserIdWithVaults = posRepo_findByUserIdWithVaults"

definition pos_findByUserWithFilters :: "position_filter \<Rightarrow> position_with_vault list io" where
  "pos_findByUserWithFilters = posRepo_findByUserWithFilters"

definition pos_createPending :: "uuid \<Rightarrow> uuid \<Rightarrow> position_record io" where
  "pos_createPending userId vaultId =
     asRecord (posRepo_create \<lparr>cp_userId = userId, cp_vaultId = vaultId, cp_status = Some P_PENDING\<rparr>)"

definition pos_activate :: "uuid \<Rightarrow> activate_position_input \<Rightarrow> position_record io" where
  "pos_activate positionId input = asRecord (posRepo_activate positionId input)"

definition pos_addDeposit :: "uuid \<Rightarrow> activate_position_input \<Rightarrow> position_record io" where
  "pos_addDeposit positionId input = asRecord (posRepo_addDeposit positionId input)"

definition pos_close :: "uuid \<Rightarrow> position_record io" where
  "pos_close positionId = asRecord (posRepo_close positionId)"

definition pos_markWithdrawing :: "uuid \<Rightarrow> position_record io" where
  "pos_markWithdrawing positionId = asRecord (posRepo_markWithdrawing positionId)"

definition pos_markActive :: "uuid \<Rightarrow> position_record io" where
  "pos_markActive positionId = asRecord (posRepo_markActive positionId)"

definition pos_markFailed :: "uuid \<Rightarrow> position_record io" where
  "pos_markFailed positionId = asRecord (posRepo_markFailed positionId)"

definition pos_subtractWithdraw :: "uuid \<Rightarrow> withdraw_position_input \<Rightarrow> position_record io" where
  "pos_subtractWithdraw positionId input = asRecord (posRepo_subtractWithdraw positionId input)"

lemmas posRepo_defs =
  posRepo_findByUserAndVault_def posRepo_findById_def posRepo_findByIdWithVault_def
  posRepo_findByUserWithFilters_def posRepo_findByUserIdWithVaults_def posRepo_create_def
  posRepo_activate_def posRepo_close_def posRepo_markWithdrawing_def posRepo_markActive_def
  posRepo_markFailed_def posRepo_addDeposit_def posRepo_subtractWithdraw_def

lemmas pos_defs =
  pos_findByUserAndVault_def pos_findById_def pos_findByIdWithVault_def pos_findByUserIdWithVaults_def
  pos_findByUserWithFilters_def pos_createPending_def pos_activate_def pos_addDeposit_def pos_close_def
  pos_markWithdrawing_def pos_markActive_def pos_markFailed_def pos_subtractWithdraw_def asRecord_def

section \<open>What the operations keep of a position\<close>

text \<open>
  A position's three amounts are equal, non-negative and within the column: the protocol reads
  supply and withdrawal shares one to one, so each write adds or subtracts the same number.
\<close>

definition goodPosition :: "position \<Rightarrow> bool" where
  "goodPosition p \<longleftrightarrow> 0 \<le> p_shares p \<and> decimalFits (p_shares p)
     \<and> p_currentAmount p = p_shares p \<and> p_depositedAmount p = p_shares p"

definition posInv :: "world \<Rightarrow> bool" where
  "posInv s \<longleftrightarrow> distinct (map p_id (positions s)) \<and> (\<forall>p \<in> set (positions s). p_id p < nextId s)
     \<and> distinct (map (\<lambda>p. (p_userId p, p_vaultId p)) (positions s))
     \<and> (\<forall>p \<in> set (positions s). goodPosition p)"

text \<open>An input that gives the same number three times, in whatever spelling.\<close>

definition sameAmounts :: "activate_position_input \<Rightarrow> int \<Rightarrow> bool" where
  "sameAmounts d n \<longleftrightarrow> bigIntOf (ap_depositedAmount d) = Some n
     \<and> bigIntOf (ap_currentAmount d) = Some n \<and> bigIntOf (ap_shares d) = Some n"

lemma decimalOf_bigInt: "bigIntOf a = Some n \<Longrightarrow> decimalOf a = (if decimalFits n then Inr n else Inl valueOutOfRange)"
  by (simp add: decimalOf_def)

lemma setAmounts_same:
  assumes "bigIntOf a = Some n" "bigIntOf b = Some n" "bigIntOf c = Some n"
  shows "setAmounts st a b c p =
   (if decimalFits n
    then Inr (p\<lparr>p_status := st, p_depositedAmount := n, p_currentAmount := n, p_shares := n\<rparr>)
    else Inl valueOutOfRange)"
  using assms by (simp add: setAmounts_def decimals3_def decimalOf_bigInt)

lemma incAmounts_same:
  assumes "bigIntOf a = Some n" "bigIntOf b = Some n" "bigIntOf c = Some n"
    and "goodPosition p" and "0 \<le> n"
  shows "incAmounts a b c p =
   (if decimalFits (p_shares p + n)
    then Inr (p\<lparr>p_status := P_ACTIVE, p_depositedAmount := p_shares p + n,
                p_currentAmount := p_shares p + n, p_shares := p_shares p + n\<rparr>)
    else Inl valueOutOfRange)"
  using assms by (auto simp: incAmounts_def decimals3_def decimalOf_bigInt goodPosition_def decimalFits_def)

lemma bigIntOf_zero [simp]: "bigIntOf ''0'' = Some 0"
  by code_simp

lemma goodPosition_touch [simp]: "goodPosition (touchPosition t p) = goodPosition p"
  by (simp add: goodPosition_def touchPosition_def)

lemma touchPosition_fields [simp]:
  "p_id (touchPosition t p) = p_id p" "p_userId (touchPosition t p) = p_userId p"
  "p_vaultId (touchPosition t p) = p_vaultId p" "p_status (touchPosition t p) = p_status p"
  "p_shares (touchPosition t p) = p_shares p" "p_currentAmount (touchPosition t p) = p_currentAmount p"
  "p_depositedAmount (touchPosition t p) = p_depositedAmount p"
  by (simp_all add: touchPosition_def)

text \<open>Every row update of the repository keeps key, owner and vault of the row it changes.\<close>

definition keepsKeys :: "(position \<Rightarrow> position res) \<Rightarrow> bool" where
  "keepsKeys f \<longleftrightarrow> (\<forall>p p'. f p = Inr p' \<longrightarrow> p_id p' = p_id p \<and> p_userId p' = p_userId p \<and> p_vaultId p' = p_vaultId p)"

lemma keepsKeys_ops: "keepsKeys (setStatus st)" "keepsKeys (setAmounts st a b c)" "keepsKeys (incAmounts a b c)"
  by (auto simp: keepsKeys_def setStatus_def setAmounts_def incAmounts_def split: sum.splits if_splits)

lemma positionUpdate_posInv:
  assumes keys: "keepsKeys f" and good: "\<And>p p'. goodPosition p \<Longrightarrow> f p = Inr p' \<Longrightarrow> goodPosition p'"
  shows "preserves posInv (positionUpdate i f)"
proof (rule preservesI)
  fix s assume inv: "posInv s"
  let ?s' = "snd (positionUpdate i f s)"
  have map_eq: "map h (positions ?s') = map h (positions s)"
    if "\<And>p p' t. f p = Inr p' \<Longrightarrow> h (touchPosition t p') = h p" for h :: "position \<Rightarrow> 'b"
  proof -
    from inv have "distinct (map p_id (positions s))" by (simp add: posInv_def)
    then show ?thesis unfolding positionUpdate_def by (intro positionTable.update_map that)
  qed
  have ids: "map p_id (positions ?s') = map p_id (positions s)"
    by (rule map_eq) (use keys in \<open>auto simp: keepsKeys_def\<close>)
  have owners: "map (\<lambda>p. (p_userId p, p_vaultId p)) (positions ?s') = map (\<lambda>p. (p_userId p, p_vaultId p)) (positions s)"
    by (rule map_eq) (use keys in \<open>auto simp: keepsKeys_def\<close>)
  have "\<forall>i \<in> set (map p_id (positions s)). i < nextId s" using inv by (simp add: posInv_def)
  then have "\<forall>p \<in> set (positions ?s'). p_id p < nextId s" unfolding ids [symmetric] by simp
  moreover have "goodPosition p" if "p \<in> set (positions ?s')" for p
    using that unfolding positionUpdate_def
  proof (rule positionTable.update_all_rows [where Q = goodPosition, rotated 2])
    show "goodPosition r" if "r \<in> set (positions s)" for r using inv that by (simp add: posInv_def)
    show "goodPosition (touchPosition (now s) r')" if "goodPosition r" "f r = Inr r'" for r r'
      using good that by simp
  qed
  ultimately show "posInv ?s'" using inv ids owners by (simp add: posInv_def)
qed

lemma setStatus_good: "goodPosition p \<Longrightarrow> setStatus st p = Inr p' \<Longrightarrow> goodPosition p'"
  by (auto simp: setStatus_def goodPosition_def)

lemma posInv_setStatus: "preserves posInv (positionUpdate i (setStatus st))"
  by (rule positionUpdate_posInv) (auto simp: keepsKeys_ops intro: setStatus_good)

lemma posInv_activate:
  "sameAmounts d n \<Longrightarrow> 0 \<le> n \<Longrightarrow> preserves posInv (posRepo_activate i d)"
  unfolding posRepo_activate_def sameAmounts_def
  by (rule positionUpdate_posInv)
     (auto simp: keepsKeys_ops setAmounts_same goodPosition_def split: if_splits)

lemma posInv_addDeposit:
  "sameAmounts d n \<Longrightarrow> 0 \<le> n \<Longrightarrow> preserves posInv (posRepo_addDeposit i d)"
  unfolding posRepo_addDeposit_def sameAmounts_def
  by (rule positionUpdate_posInv)
     (auto simp: keepsKeys_ops incAmounts_same split: if_splits, auto simp: goodPosition_def)

lemma posInv_create: "preserves posInv (posRepo_create input)"
  by (rule preservesI)
     (auto simp: posRepo_create_def posInv_def Let_def goodPosition_def decimalFits_def decimalBound_def
        less_Suc_eq image_iff)

lemma goodPosition_remaining:
  "goodPosition p \<Longrightarrow> 0 \<le> n \<Longrightarrow> 0 < p_shares p - n \<Longrightarrow> decimalFits (p_shares p - n)"
  by (auto simp: goodPosition_def decimalFits_def)

text \<open>What a withdrawal of \<open>n\<close> leaves: nothing and a closed position, or the rest and an active one.\<close>

lemma subtractWithdraw_run:
  assumes inv: "posInv s" and hit: "find (\<lambda>p. p_id p = i) (positions s) = Some p"
    and w: "bigIntOf (wp_withdrawnAmount d) = Some n" "bigIntOf (wp_shares d) = Some n" and n: "0 \<le> n"
  shows "posRepo_subtractWithdraw i d s =
    (let r = max 0 (p_shares p - n);
         p' = touchPosition (now s)
               (p\<lparr>p_status := (if p_shares p \<le> n then P_CLOSED else P_ACTIVE),
                  p_depositedAmount := r, p_currentAmount := r, p_shares := r\<rparr>)
     in (Inr p', s\<lparr>positions := updWhere (\<lambda>q. p_id q = i) (\<lambda>_. p') (positions s)\<rparr>))"
proof -
  have good: "goodPosition p" using inv hit by (auto simp: posInv_def dest: find_Some_iff_first)
  show ?thesis
  proof (cases "p_shares p \<le> n")
    case True
    then show ?thesis
      using hit w positionTable.update_hit [OF hit, of "setAmounts P_CLOSED ''0'' ''0'' ''0''"]
      by (simp add: posRepo_subtractWithdraw_def posRepo_findById_def andThen_def bigInt_def Let_def
            setAmounts_same [where n = 0] decimalFits_def decimalBound_def positionUpdate_def put_defs)
  next
    case False
    with good have fits: "decimalFits (p_shares p - n)" using n by (intro goodPosition_remaining) auto
    from False good fits show ?thesis
      using hit w positionTable.update_hit [OF hit, of "setAmounts P_ACTIVE (showInt (p_shares p - n)) (showInt (p_shares p - n)) (showInt (p_shares p - n))"]
      by (simp add: posRepo_subtractWithdraw_def posRepo_findById_def andThen_def bigInt_def Let_def
            setAmounts_same [where n = "p_shares p - n"] positionUpdate_def put_defs goodPosition_def)
  qed
qed

lemma posInv_subtractWithdraw:
  assumes w: "bigIntOf (wp_withdrawnAmount d) = Some n" "bigIntOf (wp_shares d) = Some n" and n: "0 \<le> n"
  shows "preserves posInv (posRepo_subtractWithdraw i d)"
proof (rule preservesI)
  fix s assume inv: "posInv s"
  show "posInv (snd (posRepo_subtractWithdraw i d s))"
  proof (cases "find (\<lambda>p. p_id p = i) (positions s)")
    case None
    with inv show ?thesis by (simp add: posRepo_subtractWithdraw_def posRepo_findById_def andThen_def)
  next
    case (Some p)
    let ?r = "max 0 (p_shares p - n)"
    let ?f = "\<lambda>q. Inr (p\<lparr>p_status := (if p_shares p \<le> n then P_CLOSED else P_ACTIVE),
                  p_depositedAmount := ?r, p_currentAmount := ?r, p_shares := ?r\<rparr>)"
    have good: "goodPosition p" using inv Some by (auto simp: posInv_def dest: find_Some_iff_first)
    have run: "posRepo_subtractWithdraw i d s = positionUpdate i ?f s"
      unfolding subtractWithdraw_run [OF inv Some w n] positionUpdate_def
      by (simp add: positionTable.update_hit [OF Some] Let_def put_defs)
    have "posRepo_subtractWithdraw i d s
        = positionUpdate i (\<lambda>q. if p_id q = i \<and> q = p then ?f q else Inl recordNotFound) s"
      unfolding run positionUpdate_def using Some
      by (simp add: tableUpdate_def) (auto dest: find_Some_iff_first)
    moreover have "preserves posInv (positionUpdate i (\<lambda>q. if p_id q = i \<and> q = p then ?f q else Inl recordNotFound))"
      using good n by (intro positionUpdate_posInv)
        (auto simp: keepsKeys_def goodPosition_def decimalFits_def max_def split: if_splits)
    ultimately show ?thesis using inv by (simp add: preserves_def)
  qed
qed

end
