(* ===== verification/Transactions.thy ===== *)
theory Transactions
  imports Positions
begin

text \<open>
  \<^verbatim>\<open>src/earn/persistence/transactions\<close>: the transaction repository (\<open>txRepo_\<close>) and service
  (\<open>tx_\<close>).  A status update replaces the metadata column as a whole when metadata is given and
  leaves a field whose value is \<open>undefined\<close> alone.  \<open>confirmSubmitted\<close> is the one guarded
  transition: a compare-and-set on the status \<open>SUBMITTED\<close> that reports whether it applied.
\<close>

section \<open>Types\<close>

record create_transaction_input =
  ct_userId :: uuid
  ct_walletId :: uuid
  ct_chainId :: int
  ct_type :: transaction_type
  ct_amount :: string
  ct_vaultId :: "uuid option"
  ct_positionId :: "uuid option"
  ct_metadata :: "metadata option"

record transaction_record =
  tr_transactionId :: uuid
  tr_userId :: uuid
  tr_walletId :: "uuid option"
  tr_vaultId :: "uuid option"
  tr_vaultSlug :: "string option"
  tr_positionId :: "uuid option"
  tr_type :: transaction_type
  tr_status :: transaction_status
  tr_amount :: string
  tr_txHash :: "string option"
  tr_chainId :: int
  tr_blockNumber :: "string option"
  tr_metadata :: "metadata option"
  tr_createdAt :: nat
  tr_updatedAt :: nat

record status_update =
  su_status :: transaction_status
  su_txHash :: "string option"
  su_blockNumber :: "int option"
  su_metadata :: "metadata option"

record transaction_filter =
  tf_userId :: uuid
  tf_walletId :: "uuid option"
  tf_vaultSlug :: "string option"
  tf_positionId :: "uuid option"
  tf_type :: "transaction_type option"
  tf_status :: "transaction_status option"

section \<open>Repository\<close>

definition newTransaction :: "world \<Rightarrow> create_transaction_input \<Rightarrow> int \<Rightarrow> transaction" where
  "newTransaction s input amount =
     \<lparr>t_id = nextId s, t_userId = ct_userId input, t_walletId = Some (ct_walletId input),
      t_vaultId = ct_vaultId input, t_positionId = ct_positionId input, t_type = ct_type input,
      t_status = T_CREATED, t_amount = amount, t_txHash = None, t_chainId = ct_chainId input,
      t_blockNumber = None, t_metadata = ct_metadata input, t_createdAt = now s, t_updatedAt = now s\<rparr>"

definition txRepo_create :: "create_transaction_input \<Rightarrow> transaction io" where
  "txRepo_create input s =
     (case decimalOf (ct_amount input) of
        Inl e \<Rightarrow> (Inl e, s)
      | Inr amount \<Rightarrow>
          (let t = newTransaction s input amount in
           (Inr t, s\<lparr>transactions := transactions s @ [t], nextId := Suc (nextId s)\<rparr>)))"

definition isOpen :: "transaction_status \<Rightarrow> bool" where
  "isOpen st = (st = T_CREATED \<or> st = T_SUBMITTED)"

text \<open>\<open>findFirst\<close> with \<open>orderBy: { createdAt: 'desc' }\<close>.\<close>

definition findFirstDesc :: "(transaction \<Rightarrow> bool) \<Rightarrow> world \<Rightarrow> transaction option" where
  "findFirstDesc p s =
     (case sortDesc t_createdAt (filter p (transactions s)) of [] \<Rightarrow> None | t # _ \<Rightarrow> Some t)"

definition txRepo_findOpenDeposit :: "uuid \<Rightarrow> uuid \<Rightarrow> transaction option io" where
  "txRepo_findOpenDeposit userId vaultId =
     gets (findFirstDesc (\<lambda>t. t_userId t = userId \<and> t_vaultId t = Some vaultId
                              \<and> t_type t = DEPOSIT \<and> isOpen (t_status t)))"

definition txRepo_findOpenWithdraw :: "uuid \<Rightarrow> transaction option io" where
  "txRepo_findOpenWithdraw positionId =
     gets (findFirstDesc (\<lambda>t. t_positionId t = Some positionId \<and> t_type t = WITHDRAW \<and> isOpen (t_status t)))"

definition applyStatus :: "status_update \<Rightarrow> transaction \<Rightarrow> transaction res" where
  "applyStatus d t =
     Inr (t\<lparr>t_status := su_status d,
            t_txHash := (case su_txHash d of None \<Rightarrow> t_txHash t | h \<Rightarrow> h),
            t_blockNumber := (case su_blockNumber d of None \<Rightarrow> t_blockNumber t | b \<Rightarrow> b),
            t_metadata := (case su_metadata d of None \<Rightarrow> t_metadata t | m \<Rightarrow> m)\<rparr>)"

definition txRepo_updateStatus :: "uuid \<Rightarrow> status_update \<Rightarrow> transaction io" where
  "txRepo_updateStatus transactionId d = transactionUpdate transactionId (applyStatus d)"

text \<open>\<open>updateMany\<close> on id and status, then the row read back (\<open>findUniqueOrThrow\<close>).\<close>

definition txRepo_confirmSubmitted ::
    "uuid \<Rightarrow> int \<Rightarrow> metadata option \<Rightarrow> (bool \<times> transaction) io" where
  "txRepo_confirmSubmitted transactionId blockNumber metadata s =
     (case find (\<lambda>t. t_id t = transactionId) (transactions s) of
        None \<Rightarrow> (Inl recordNotFound, s)
      | Some t \<Rightarrow>
          if t_status t = T_SUBMITTED then
            (case transactionUpdate transactionId
                    (applyStatus \<lparr>su_status = T_CONFIRMED, su_txHash = None,
                       su_blockNumber = Some blockNumber, su_metadata = metadata\<rparr>) s of
               (Inl e, s') \<Rightarrow> (Inl e, s')
             | (Inr t', s') \<Rightarrow> (Inr (True, t'), s'))
          else (Inr (False, t), s))"

definition txRepo_findById :: "uuid \<Rightarrow> transaction option io" where
  "txRepo_findById transactionId = gets (\<lambda>s. find (\<lambda>t. t_id t = transactionId) (transactions s))"

definition txRepo_findPendingReconciliation :: "nat \<Rightarrow> transaction list io" where
  "txRepo_findPendingReconciliation lim =
     gets (\<lambda>s. take lim (sort_key t_updatedAt
       (filter (\<lambda>t. t_status t = T_SUBMITTED \<and> t_txHash t \<noteq> None) (transactions s))))"

definition txRepo_findStaleCreated :: "nat \<Rightarrow> nat \<Rightarrow> transaction list io" where
  "txRepo_findStaleCreated olderThan lim =
     gets (\<lambda>s. take lim (sort_key t_createdAt
       (filter (\<lambda>t. t_status t = T_CREATED \<and> t_txHash t = None \<and> t_createdAt t < olderThan) (transactions s))))"

definition txRepo_findByPositionId :: "uuid \<Rightarrow> transaction list io" where
  "txRepo_findByPositionId positionId =
     gets (\<lambda>s. sortDesc t_createdAt (filter (\<lambda>t. t_positionId t = Some positionId) (transactions s)))"

definition vaultSlugOf :: "world \<Rightarrow> transaction \<Rightarrow> string option" where
  "vaultSlugOf s t = (case t_vaultId t of None \<Rightarrow> None | Some v \<Rightarrow> map_option v_slug (vaultById s v))"

definition transactionMatches :: "world \<Rightarrow> transaction_filter \<Rightarrow> transaction \<Rightarrow> bool" where
  "transactionMatches s input t =
     (t_userId t = tf_userId input
      \<and> (case tf_walletId input of None \<Rightarrow> True | Some w \<Rightarrow> t_walletId t = Some w)
      \<and> (case tf_positionId input of None \<Rightarrow> True | Some p \<Rightarrow> t_positionId t = Some p)
      \<and> (case tf_type input of None \<Rightarrow> True | Some ty \<Rightarrow> t_type t = ty)
      \<and> (case tf_status input of None \<Rightarrow> True | Some st \<Rightarrow> t_status t = st)
      \<and> (case tf_vaultSlug input of None \<Rightarrow> True | Some sl \<Rightarrow> sl = [] \<or> vaultSlugOf s t = Some sl))"

text \<open>
  The query orders by \<open>createdAt\<close> alone, and the database returns rows with equal keys in any order, in every query
  anew.  The order it happens to take is the argument \<open>ties\<close>: of two such rows the one with the smaller number first.
\<close>

definition txRepo_findByUserWithFilters ::
    "(transaction \<Rightarrow> nat) \<Rightarrow> transaction_filter \<Rightarrow> nat \<Rightarrow> nat \<Rightarrow> ((transaction \<times> string option) list \<times> nat) io" where
  "txRepo_findByUserWithFilters ties input skip lim =
     gets (\<lambda>s. let matching = sort_key ties (filter (transactionMatches s input) (transactions s)) in
       (map (\<lambda>t. (t, vaultSlugOf s t)) (take lim (drop skip (sortDesc t_createdAt matching))),
        length matching))"

section \<open>Service\<close>

definition toTransactionRecord :: "string option \<Rightarrow> transaction \<Rightarrow> transaction_record" where
  "toTransactionRecord slug t =
     \<lparr>tr_transactionId = t_id t, tr_userId = t_userId t, tr_walletId = t_walletId t,
      tr_vaultId = t_vaultId t, tr_vaultSlug = slug, tr_positionId = t_positionId t,
      tr_type = t_type t, tr_status = t_status t, tr_amount = showInt (t_amount t),
      tr_txHash = t_txHash t, tr_chainId = t_chainId t,
      tr_blockNumber = map_option showInt (t_blockNumber t), tr_metadata = t_metadata t,
      tr_createdAt = t_createdAt t, tr_updatedAt = t_updatedAt t\<rparr>"

definition asTxRecord :: "transaction io \<Rightarrow> transaction_record io" where
  "asTxRecord m = andThen m (\<lambda>t. ret (toTransactionRecord None t))"

definition tx_hasOpenDeposit :: "uuid \<Rightarrow> uuid \<Rightarrow> bool io" where
  "tx_hasOpenDeposit userId vaultId =
     andThen (txRepo_findOpenDeposit userId vaultId) (\<lambda>t. ret (t \<noteq> None))"

definition tx_hasOpenWithdraw :: "uuid \<Rightarrow> bool io" where
  "tx_hasOpenWithdraw positionId = andThen (txRepo_findOpenWithdraw positionId) (\<lambda>t. ret (t \<noteq> None))"

definition tx_createTransaction :: "create_transaction_input \<Rightarrow> transaction_record io" where
  "tx_createTransaction input = asTxRecord (txRepo_create input)"

definition tx_markSubmitted :: "uuid \<Rightarrow> string \<Rightarrow> metadata option \<Rightarrow> transaction_record io" where
  "tx_markSubmitted transactionId txHash metadata =
     asTxRecord (txRepo_updateStatus transactionId
       \<lparr>su_status = T_SUBMITTED, su_txHash = Some txHash, su_blockNumber = None, su_metadata = metadata\<rparr>)"

definition tx_markConfirmed :: "uuid \<Rightarrow> int \<Rightarrow> metadata option \<Rightarrow> transaction_record io" where
  "tx_markConfirmed transactionId blockNumber metadata =
     asTxRecord (txRepo_updateStatus transactionId
       \<lparr>su_status = T_CONFIRMED, su_txHash = None, su_blockNumber = Some blockNumber, su_metadata = metadata\<rparr>)"

definition tx_confirmSubmitted :: "uuid \<Rightarrow> int \<Rightarrow> metadata option \<Rightarrow> (bool \<times> transaction_record) io" where
  "tx_confirmSubmitted transactionId blockNumber metadata =
     andThen (txRepo_confirmSubmitted transactionId blockNumber metadata)
       (\<lambda>(applied, t). ret (applied, toTransactionRecord None t))"

definition tx_markFailed :: "uuid \<Rightarrow> metadata option \<Rightarrow> transaction_record io" where
  "tx_markFailed transactionId metadata =
     asTxRecord (txRepo_updateStatus transactionId
       \<lparr>su_status = T_FAILED, su_txHash = None, su_blockNumber = None, su_metadata = metadata\<rparr>)"

definition tx_markReverted :: "uuid \<Rightarrow> int \<Rightarrow> metadata option \<Rightarrow> transaction_record io" where
  "tx_markReverted transactionId blockNumber metadata =
     asTxRecord (txRepo_updateStatus transactionId
       \<lparr>su_status = T_REVERTED, su_txHash = None, su_blockNumber = Some blockNumber, su_metadata = metadata\<rparr>)"

definition tx_findPendingReconciliation :: "nat \<Rightarrow> transaction_record list io" where
  "tx_findPendingReconciliation lim =
     andThen (txRepo_findPendingReconciliation lim) (\<lambda>ts. ret (map (toTransactionRecord None) ts))"

definition tx_findStaleCreated :: "nat \<Rightarrow> nat \<Rightarrow> transaction_record list io" where
  "tx_findStaleCreated olderThan lim =
     andThen (txRepo_findStaleCreated olderThan lim) (\<lambda>ts. ret (map (toTransactionRecord None) ts))"

definition tx_findById :: "uuid \<Rightarrow> transaction_record option io" where
  "tx_findById transactionId =
     andThen (txRepo_findById transactionId) (\<lambda>t. ret (map_option (toTransactionRecord None) t))"

definition tx_findByPositionId :: "uuid \<Rightarrow> transaction_record list io" where
  "tx_findByPositionId positionId =
     andThen (txRepo_findByPositionId positionId) (\<lambda>ts. ret (map (toTransactionRecord None) ts))"

record transaction_page =
  tp_items :: "transaction_record list"
  tp_total :: nat
  tp_page :: nat
  tp_limit :: nat

text \<open>Page 1 and limit 20 by default; the validator admits pages from 1 and limits 1 to 100.\<close>

definition tx_findByUserWithFilters ::
    "(transaction \<Rightarrow> nat) \<Rightarrow> transaction_filter \<Rightarrow> nat option \<Rightarrow> nat option \<Rightarrow> transaction_page io" where
  "tx_findByUserWithFilters ties input pageIn limitIn =
     (let page = (case pageIn of Some p \<Rightarrow> p | None \<Rightarrow> 1);
          lim = (case limitIn of Some l \<Rightarrow> l | None \<Rightarrow> 20);
          skip = (page - 1) * lim
      in andThen (txRepo_findByUserWithFilters ties input skip lim) (\<lambda>(items, total).
         ret \<lparr>tp_items = map (\<lambda>(t, slug). toTransactionRecord slug t) items,
              tp_total = total, tp_page = page, tp_limit = lim\<rparr>))"

lemmas txRepo_defs =
  txRepo_create_def txRepo_findOpenDeposit_def txRepo_findOpenWithdraw_def txRepo_updateStatus_def
  txRepo_confirmSubmitted_def txRepo_findById_def txRepo_findPendingReconciliation_def
  txRepo_findStaleCreated_def txRepo_findByPositionId_def txRepo_findByUserWithFilters_def

lemmas tx_defs =
  tx_hasOpenDeposit_def tx_hasOpenWithdraw_def tx_createTransaction_def tx_markSubmitted_def
  tx_markConfirmed_def tx_confirmSubmitted_def tx_markFailed_def tx_markReverted_def
  tx_findPendingReconciliation_def tx_findStaleCreated_def tx_findById_def tx_findByPositionId_def
  tx_findByUserWithFilters_def asTxRecord_def

section \<open>What the operations keep of a transaction\<close>

text \<open>
  The shares an open deposit or withdrawal will move are recorded in its metadata, where the
  reconciliation job reads them (\<open>metadataString\<close>); in a good table they are the amount.
\<close>

definition metadataString :: "metadata option \<Rightarrow> string \<Rightarrow> string" where
  "metadataString metadata field =
     (case metadata of
        None \<Rightarrow> ''0''
      | Some m \<Rightarrow> (case map_of m field of
                     Some (JStr v) \<Rightarrow> if v = [] then ''0'' else v
                   | _ \<Rightarrow> ''0''))"

definition sharesField :: "transaction_type \<Rightarrow> string option" where
  "sharesField ty = (case ty of DEPOSIT \<Rightarrow> Some ''estimatedShares'' | WITHDRAW \<Rightarrow> Some ''sharesBurned'' | _ \<Rightarrow> None)"

definition metadataGood :: "transaction_type \<Rightarrow> int \<Rightarrow> metadata option \<Rightarrow> bool" where
  "metadataGood ty n m =
     (case sharesField ty of None \<Rightarrow> True | Some f \<Rightarrow> bigIntOf (metadataString m f) = Some n)"

definition goodTransaction :: "transaction \<Rightarrow> bool" where
  "goodTransaction t \<longleftrightarrow> 0 \<le> t_amount t \<and> decimalFits (t_amount t)
     \<and> (isOpen (t_status t) \<longrightarrow> metadataGood (t_type t) (t_amount t) (t_metadata t))"

definition txInv :: "world \<Rightarrow> bool" where
  "txInv s \<longleftrightarrow> distinct (map t_id (transactions s)) \<and> (\<forall>t \<in> set (transactions s). t_id t < nextId s)
     \<and> (\<forall>t \<in> set (transactions s). goodTransaction t)"

text \<open>What a handler knows of the row it created: nothing changes its type or its amount.\<close>

definition knownTx :: "uuid \<Rightarrow> transaction_type \<Rightarrow> int \<Rightarrow> world \<Rightarrow> bool" where
  "knownTx i ty n s \<longleftrightarrow> (\<forall>t \<in> set (transactions s). t_id t = i \<longrightarrow> t_type t = ty \<and> t_amount t = n)"

definition dbInv :: "world \<Rightarrow> bool" where
  "dbInv s \<longleftrightarrow> posInv s \<and> txInv s"

lemma metadataString_hit [simp]:
  "map_of m f = Some (JStr v) \<Longrightarrow> v \<noteq> [] \<Longrightarrow> metadataString (Some m) f = v"
  by (simp add: metadataString_def)

lemma sharesField_simps [simp]:
  "sharesField DEPOSIT = Some ''estimatedShares''" "sharesField WITHDRAW = Some ''sharesBurned''"
  "sharesField APPROVAL = None"
  by (simp_all add: sharesField_def)

lemma touchTransaction_fields [simp]:
  "t_id (touchTransaction k t) = t_id t" "t_type (touchTransaction k t) = t_type t"
  "t_amount (touchTransaction k t) = t_amount t" "t_status (touchTransaction k t) = t_status t"
  "t_metadata (touchTransaction k t) = t_metadata t" "t_txHash (touchTransaction k t) = t_txHash t"
  "t_positionId (touchTransaction k t) = t_positionId t" "t_userId (touchTransaction k t) = t_userId t"
  "t_blockNumber (touchTransaction k t) = t_blockNumber t" "t_vaultId (touchTransaction k t) = t_vaultId t"
  "goodTransaction (touchTransaction k t) = goodTransaction t"
  by (simp_all add: touchTransaction_def goodTransaction_def)

lemma applyStatus_keys:
  "applyStatus d t = Inr t' \<Longrightarrow> t_id t' = t_id t \<and> t_type t' = t_type t \<and> t_amount t' = t_amount t
     \<and> t_status t' = su_status d"
  by (auto simp: applyStatus_def)

lemma transactionUpdate_txInv:
  assumes keys: "\<And>t t'. f t = Inr t' \<Longrightarrow> t_id t' = t_id t"
    and good: "\<And>t t'. t \<in> set (transactions s) \<Longrightarrow> t_id t = i \<Longrightarrow> goodTransaction t \<Longrightarrow> f t = Inr t' \<Longrightarrow> goodTransaction t'"
    and inv: "txInv s"
  shows "txInv (snd (transactionUpdate i f s))"
proof -
  let ?s' = "snd (transactionUpdate i f s)"
  have dist: "distinct (map t_id (transactions s))" using inv by (simp add: txInv_def)
  have ids: "map t_id (transactions ?s') = map t_id (transactions s)"
    unfolding transactionUpdate_def by (intro transactionTable.update_map dist) (simp add: keys)
  have "\<forall>i \<in> set (map t_id (transactions s)). i < nextId s" using inv by (simp add: txInv_def)
  then have below: "\<forall>t \<in> set (transactions ?s'). t_id t < nextId s" unfolding ids [symmetric] by simp
  have "goodTransaction t" if "t \<in> set (transactions ?s')" for t
    using that unfolding transactionUpdate_def
  proof (rule transactionTable.update_all_rows [where Q = goodTransaction, rotated 2])
    show "goodTransaction r" if "r \<in> set (transactions s)" for r using inv that by (simp add: txInv_def)
    show "goodTransaction (touchTransaction (now s) r')"
      if "r \<in> set (transactions s)" "t_id r = i" "goodTransaction r" "f r = Inr r'" for r r'
      using good that by simp
  qed
  then show "txInv ?s'" using dist ids below by (simp add: txInv_def)
qed

lemma known_update:
  assumes "knownTx i ty n s" and "\<And>t t'. f t = Inr t' \<Longrightarrow> t_id t' = t_id t \<and> t_type t' = t_type t \<and> t_amount t' = t_amount t"
  shows "knownTx i ty n (snd (transactionUpdate j f s))"
proof -
  let ?Q = "\<lambda>t. t_id t = i \<longrightarrow> t_type t = ty \<and> t_amount t = n"
  have "?Q t" if "t \<in> set (transactions (snd (transactionUpdate j f s)))" for t
    using that unfolding transactionUpdate_def
  proof (rule transactionTable.update_all_rows [where Q = ?Q, rotated 2])
    show "?Q r" if "r \<in> set (transactions s)" for r using assms(1) that by (simp add: knownTx_def)
    show "?Q (touchTransaction (now s) r')" if "?Q r" "f r = Inr r'" for r r'
      using assms(2) [OF that(2)] that(1) by simp
  qed
  then show ?thesis by (simp add: knownTx_def)
qed

section \<open>The invariant across operations\<close>

lemma posInv_frame:
  "positions s' = positions s \<Longrightarrow> nextId s \<le> nextId s' \<Longrightarrow> posInv s \<Longrightarrow> posInv s'"
  by (fastforce simp: posInv_def)

lemma txInv_frame:
  "transactions s' = transactions s \<Longrightarrow> nextId s \<le> nextId s' \<Longrightarrow> txInv s \<Longrightarrow> txInv s'"
  by (fastforce simp: txInv_def)

lemma dbInv_updateStatus:
  assumes "dbInv s" and "isOpen (su_status d) \<Longrightarrow> knownTx i ty n s \<and> (\<exists>m. su_metadata d = Some m \<and> metadataGood ty n (Some m))"
  shows "dbInv (snd (txRepo_updateStatus i d s))"
proof -
  have "txInv (snd (transactionUpdate i (applyStatus d) s))"
  proof (rule transactionUpdate_txInv)
    show "goodTransaction t'" if "t \<in> set (transactions s)" "t_id t = i" "goodTransaction t" "applyStatus d t = Inr t'" for t t'
      using that assms(2) by (auto simp: applyStatus_def goodTransaction_def knownTx_def)
  qed (use assms(1) applyStatus_keys in \<open>auto simp: dbInv_def\<close>)
  moreover have "posInv (snd (transactionUpdate i (applyStatus d) s))"
    by (rule posInv_frame) (use assms(1) in \<open>auto simp: dbInv_def\<close>)
  ultimately show ?thesis by (simp add: dbInv_def txRepo_updateStatus_def)
qed

lemma confirmSubmitted_as_update:
  "\<exists>f. snd (txRepo_confirmSubmitted i b m s) = snd (transactionUpdate i f s)
     \<and> (f = applyStatus \<lparr>su_status = T_CONFIRMED, su_txHash = None, su_blockNumber = Some b, su_metadata = m\<rparr>
        \<or> f = (\<lambda>_. Inl recordNotFound))"
proof (cases "find (\<lambda>t. t_id t = i) (transactions s)")
  case None
  then show ?thesis
    by (intro exI [of _ "\<lambda>_. Inl recordNotFound"])
       (simp add: txRepo_confirmSubmitted_def transactionUpdate_def tableUpdate_def)
next
  case (Some t)
  let ?d = "\<lparr>su_status = T_CONFIRMED, su_txHash = None, su_blockNumber = Some b, su_metadata = m\<rparr>"
  show ?thesis
  proof (cases "t_status t = T_SUBMITTED")
    case True
    then show ?thesis using Some
      by (intro exI [of _ "applyStatus ?d"])
         (simp add: txRepo_confirmSubmitted_def split: prod.splits sum.splits)
  next
    case False
    with Some show ?thesis
      by (intro exI [of _ "\<lambda>_. Inl recordNotFound"])
         (simp add: txRepo_confirmSubmitted_def transactionUpdate_def tableUpdate_def)
  qed
qed

lemma dbInv_confirmSubmitted: "dbInv s \<Longrightarrow> dbInv (snd (txRepo_confirmSubmitted i b m s))"
proof -
  assume inv: "dbInv s"
  obtain f where run: "snd (txRepo_confirmSubmitted i b m s) = snd (transactionUpdate i f s)"
    and f: "f = applyStatus \<lparr>su_status = T_CONFIRMED, su_txHash = None, su_blockNumber = Some b, su_metadata = m\<rparr>
        \<or> f = (\<lambda>_. Inl recordNotFound)" using confirmSubmitted_as_update by blast
  have "txInv (snd (transactionUpdate i f s))"
    by (rule transactionUpdate_txInv)
       (use f inv in \<open>auto simp: applyStatus_def goodTransaction_def isOpen_def dbInv_def\<close>)
  moreover have "posInv (snd (transactionUpdate i f s))"
    by (rule posInv_frame) (use inv in \<open>auto simp: dbInv_def\<close>)
  ultimately show ?thesis by (simp add: run dbInv_def)
qed

lemma dbInv_createTransaction:
  assumes inv: "dbInv s" and n: "bigIntOf (ct_amount input) = Some n" "0 \<le> n"
    and m: "metadataGood (ct_type input) n (ct_metadata input)"
  shows "dbInv (snd (txRepo_create input s))"
  using assms
  by (fastforce simp: txRepo_create_def decimalOf_def newTransaction_def Let_def dbInv_def posInv_def
        txInv_def goodTransaction_def)

lemma known_create:
  assumes inv: "txInv s" and n: "bigIntOf (ct_amount input) = Some n"
    and run: "txRepo_create input s = (Inr t, s')"
  shows "knownTx (t_id t) (ct_type input) n s' \<and> t_status t = T_CREATED"
proof -
  have "t_id q \<noteq> nextId s" if "q \<in> set (transactions s)" for q using inv that by (fastforce simp: txInv_def)
  then show ?thesis using n run
    by (auto simp: txRepo_create_def decimalOf_def newTransaction_def Let_def knownTx_def split: if_splits)
qed

text \<open>The invariant a handler works under once its transaction row \<open>i\<close> exists.\<close>

definition workInv :: "uuid \<Rightarrow> transaction_type \<Rightarrow> int \<Rightarrow> world \<Rightarrow> bool" where
  "workInv i ty n s \<longleftrightarrow> dbInv s \<and> knownTx i ty n s"

lemma preserves_workInv [pres]:
  "preserves dbInv m \<Longrightarrow> preserves (knownTx i ty n) m \<Longrightarrow> preserves (workInv i ty n) m"
  by (simp add: preserves_def workInv_def)

lemma ignoresOutside_invs [simp]:
  "ignoresOutside posInv" "ignoresOutside txInv" "ignoresOutside dbInv" "ignoresOutside (knownTx i ty n)"
  by (simp_all add: ignoresOutside_def posInv_def txInv_def dbInv_def knownTx_def)

lemma preserves_dbInv_positions:
  "preserves posInv m \<Longrightarrow> (\<And>s. transactions (snd (m s)) = transactions s) \<Longrightarrow>
   (\<And>s. nextId s \<le> nextId (snd (m s))) \<Longrightarrow> preserves dbInv m"
  by (auto simp: preserves_def dbInv_def intro: txInv_frame)

lemma preserves_known_frame:
  "(\<And>s. transactions (snd (m s)) = transactions s) \<Longrightarrow> preserves (knownTx i ty n) m"
  by (simp add: preserves_def knownTx_def)

text \<open>The positions service.\<close>

lemmas pos_ops = pos_createPending_def pos_activate_def pos_addDeposit_def pos_close_def
  pos_markWithdrawing_def pos_markActive_def pos_markFailed_def pos_subtractWithdraw_def

lemma asRecord_snd [simp]: "snd (asRecord m s) = snd (m s)"
  by (simp add: asRecord_def andThen_def split: prod.splits sum.splits)

lemma preserves_asRecord [pres]: "preserves I m \<Longrightarrow> preserves I (asRecord m)"
  by (simp add: preserves_def)

lemma posRepo_transactions [simp]:
  "transactions (snd (posRepo_create ci s)) = transactions s"
  "transactions (snd (posRepo_activate j ai s)) = transactions s"
  "transactions (snd (posRepo_addDeposit j ai s)) = transactions s"
  "transactions (snd (posRepo_subtractWithdraw j wi s)) = transactions s"
  "transactions (snd (posRepo_markWithdrawing j s)) = transactions s"
  "transactions (snd (posRepo_markActive j s)) = transactions s"
  "transactions (snd (posRepo_markFailed j s)) = transactions s"
  "transactions (snd (posRepo_close j s)) = transactions s"
  by (simp_all add: posRepo_create_def posRepo_activate_def posRepo_addDeposit_def Let_def
       posRepo_subtractWithdraw_def posRepo_findById_def andThen_def bigInt_def
       posRepo_markWithdrawing_def posRepo_markActive_def posRepo_markFailed_def posRepo_close_def
       split: option.splits)

lemma posRepo_nextId [simp]:
  "nextId s \<le> nextId (snd (posRepo_create ci s))"
  "nextId (snd (posRepo_activate j ai s)) = nextId s"
  "nextId (snd (posRepo_addDeposit j ai s)) = nextId s"
  "nextId (snd (posRepo_subtractWithdraw j wi s)) = nextId s"
  "nextId (snd (posRepo_markWithdrawing j s)) = nextId s"
  "nextId (snd (posRepo_markActive j s)) = nextId s"
  "nextId (snd (posRepo_markFailed j s)) = nextId s"
  "nextId (snd (posRepo_close j s)) = nextId s"
  by (simp_all add: posRepo_create_def posRepo_activate_def posRepo_addDeposit_def Let_def
       posRepo_subtractWithdraw_def posRepo_findById_def andThen_def bigInt_def
       posRepo_markWithdrawing_def posRepo_markActive_def posRepo_markFailed_def posRepo_close_def
       split: option.splits)

lemma dbInv_pos_status [pres]:
  "preserves dbInv (pos_markFailed j)" "preserves dbInv (pos_markActive j)"
  "preserves dbInv (pos_markWithdrawing j)" "preserves dbInv (pos_close j)"
  "preserves dbInv (pos_createPending u v)"
  unfolding pos_markFailed_def pos_markActive_def pos_markWithdrawing_def pos_close_def pos_createPending_def
  by (intro preserves_dbInv_positions preserves_asRecord;
      simp add: posRepo_markFailed_def posRepo_markActive_def posRepo_markWithdrawing_def posRepo_close_def
        posInv_setStatus posInv_create)+

lemma dbInv_pos_amounts:
  "sameAmounts d n \<Longrightarrow> 0 \<le> n \<Longrightarrow> preserves dbInv (pos_activate j d)"
  "sameAmounts d n \<Longrightarrow> 0 \<le> n \<Longrightarrow> preserves dbInv (pos_addDeposit j d)"
  "bigIntOf (wp_withdrawnAmount w) = Some n \<Longrightarrow> bigIntOf (wp_shares w) = Some n \<Longrightarrow> 0 \<le> n \<Longrightarrow>
   preserves dbInv (pos_subtractWithdraw j w)"
  unfolding pos_activate_def pos_addDeposit_def pos_subtractWithdraw_def
  by (intro preserves_dbInv_positions preserves_asRecord;
      simp add: posInv_activate posInv_addDeposit posInv_subtractWithdraw)+

lemma known_pos [pres]:
  "preserves (knownTx i ty n) (pos_markFailed j)" "preserves (knownTx i ty n) (pos_markActive j)"
  "preserves (knownTx i ty n) (pos_markWithdrawing j)" "preserves (knownTx i ty n) (pos_close j)"
  "preserves (knownTx i ty n) (pos_createPending u v)" "preserves (knownTx i ty n) (pos_activate j d)"
  "preserves (knownTx i ty n) (pos_addDeposit j d)" "preserves (knownTx i ty n) (pos_subtractWithdraw j w)"
  by (rule preserves_known_frame, simp add: pos_ops)+

text \<open>The transactions service.\<close>

lemma asTxRecord_snd [simp]: "snd (asTxRecord m s) = snd (m s)"
  by (simp add: asTxRecord_def andThen_def split: prod.splits sum.splits)

lemmas tx_marks = tx_markSubmitted_def tx_markConfirmed_def tx_markFailed_def tx_markReverted_def

lemma dbInv_tx_closed [pres]:
  "preserves dbInv (tx_markFailed j m)" "preserves dbInv (tx_markReverted j b m)"
  "preserves dbInv (tx_markConfirmed j b m)"
  by (rule preservesI, simp add: tx_marks, rule dbInv_updateStatus, assumption, simp add: isOpen_def)+

lemma dbInv_markSubmitted:
  "metadataGood ty n (Some m) \<Longrightarrow> preserves (workInv i ty n) (tx_markSubmitted i h (Some m))"
  by (rule preservesI)
     (auto simp: tx_marks workInv_def txRepo_updateStatus_def
        intro!: dbInv_updateStatus [unfolded txRepo_updateStatus_def] known_update dest: applyStatus_keys)

lemma known_updateStatus [pres]: "preserves (knownTx i ty n) (txRepo_updateStatus j d)"
  by (rule preservesI)
     (auto simp: txRepo_updateStatus_def intro!: known_update dest: applyStatus_keys)

lemma preserves_asTxRecord: "preserves I m \<Longrightarrow> preserves I (asTxRecord m)"
  by (simp add: preserves_def)

lemma known_tx [pres]:
  "preserves (knownTx i ty n) (tx_markFailed j m)" "preserves (knownTx i ty n) (tx_markReverted j b m)"
  "preserves (knownTx i ty n) (tx_markConfirmed j b m)" "preserves (knownTx i ty n) (tx_markSubmitted j h m)"
  unfolding tx_marks by (intro preserves_asTxRecord known_updateStatus)+

lemma known_confirmSubmitted: "preserves (knownTx i ty n) (txRepo_confirmSubmitted j b m)"
proof (rule preservesI)
  fix s assume known: "knownTx i ty n s"
  obtain f where run: "snd (txRepo_confirmSubmitted j b m s) = snd (transactionUpdate j f s)"
    and f: "f = applyStatus \<lparr>su_status = T_CONFIRMED, su_txHash = None, su_blockNumber = Some b, su_metadata = m\<rparr>
        \<or> f = (\<lambda>_. Inl recordNotFound)" using confirmSubmitted_as_update by blast
  show "knownTx i ty n (snd (txRepo_confirmSubmitted j b m s))"
    unfolding run by (rule known_update [OF known]) (use f in \<open>auto dest: applyStatus_keys\<close>)
qed

lemma pres_confirmSubmitted [pres]:
  "preserves dbInv (tx_confirmSubmitted j b m)" "preserves (knownTx i ty n) (tx_confirmSubmitted j b m)"
  unfolding tx_confirmSubmitted_def
  by (intro pres; simp add: preserves_def dbInv_confirmSubmitted known_confirmSubmitted [unfolded preserves_def])+

text \<open>Reads write nothing.\<close>

lemma pres_reads [pres]:
  "preserves I (pos_findById j)" "preserves I (pos_findByUserAndVault u v)"
  "preserves I (pos_findByIdWithVault j)" "preserves I (tx_hasOpenDeposit u v)"
  "preserves I (tx_hasOpenWithdraw j)" "preserves I (tx_findPendingReconciliation lim)"
  "preserves I (tx_findStaleCreated olderThan lim)"
  unfolding pos_findById_def pos_findByUserAndVault_def pos_findByIdWithVault_def tx_hasOpenDeposit_def
    tx_hasOpenWithdraw_def tx_findPendingReconciliation_def tx_findStaleCreated_def posRepo_findById_def
    posRepo_findByUserAndVault_def posRepo_findByIdWithVault_def txRepo_findOpenDeposit_def
    txRepo_findOpenWithdraw_def txRepo_findPendingReconciliation_def txRepo_findStaleCreated_def
  by (intro pres)+

text \<open>The guarded confirmation applies to a submitted row, once.\<close>

lemma confirmSubmitted_applied:
  assumes "txRepo_confirmSubmitted i b m s = (Inr (True, t'), s')"
  shows "\<exists>t. find (\<lambda>t. t_id t = i) (transactions s) = Some t \<and> t_status t = T_SUBMITTED \<and>
      find (\<lambda>t. t_id t = i) (transactions s') = Some t' \<and> t_status t' = T_CONFIRMED"
proof -
  from assms obtain t where t: "find (\<lambda>t. t_id t = i) (transactions s) = Some t" "t_status t = T_SUBMITTED"
    and run: "transactionUpdate i (applyStatus \<lparr>su_status = T_CONFIRMED, su_txHash = None,
       su_blockNumber = Some b, su_metadata = m\<rparr>) s = (Inr t', s')" (is "transactionUpdate i ?f s = _")
    by (auto simp: txRepo_confirmSubmitted_def split: option.splits if_splits prod.splits sum.splits)
  have "find (\<lambda>t. t_id t = i) (transactions s') = Some t'"
    using transactionTable.update_lookup [OF run [unfolded transactionUpdate_def], of i] by (auto dest: applyStatus_keys)
  moreover from run have "t_status t' = T_CONFIRMED"
    unfolding transactionUpdate_def by (elim transactionTable.update_InrE) (auto simp: applyStatus_def)
  ultimately show ?thesis using t by auto
qed

lemma confirmSubmitted_not_twice:
  assumes "find (\<lambda>t. t_id t = i) (transactions s) = Some t" and "t_status t \<noteq> T_SUBMITTED"
  shows "txRepo_confirmSubmitted i b m s = (Inr (False, t), s)"
  using assms by (simp add: txRepo_confirmSubmitted_def)

lemma findFirstDesc_None: "findFirstDesc p s = None \<longleftrightarrow> (\<forall>t \<in> set (transactions s). \<not> p t)"
proof -
  have "sortDesc t_createdAt (filter p (transactions s)) = [] \<longleftrightarrow> filter p (transactions s) = []"
    by (metis length_0_conv length_sortDesc)
  then show ?thesis by (auto simp: findFirstDesc_def filter_empty_conv split: list.split)
qed

end
