(* ===== verification/Ledger.thy ===== *)
theory Ledger
  imports Transactions
begin

text \<open>
  The abstract account of a position and what the handlers keep of it.  \<open>ledger\<close> is the
  specification the detailed state refines: a position holds the sum of its confirmed deposits
  minus the sum of its confirmed withdrawals.  \<open>base sk S\<close> adds the table invariants and says that
  every open transaction is one of \<open>S\<close>; \<open>working\<close> is the state in which a handler works on the
  open transaction \<open>i\<close> it created, and \<open>book_\<close> are the ways it leaves that state.
\<close>

section \<open>Definitions\<close>

definition delta :: "uuid \<Rightarrow> transaction \<Rightarrow> int" where
  "delta pid t =
     (if t_positionId t = Some pid \<and> t_status t = T_CONFIRMED
      then (case t_type t of DEPOSIT \<Rightarrow> t_amount t | WITHDRAW \<Rightarrow> - t_amount t | _ \<Rightarrow> 0)
      else 0)"

definition balanceOf :: "world \<Rightarrow> uuid \<Rightarrow> int" where
  "balanceOf s pid = sum_list (map (delta pid) (transactions s))"

definition ledger :: "(uuid \<Rightarrow> int) \<Rightarrow> world \<Rightarrow> bool" where
  "ledger sk s \<longleftrightarrow> (\<forall>p \<in> set (positions s). p_shares p = balanceOf s (p_id p) + sk (p_id p))
     \<and> (\<forall>i. nextId s \<le> i \<longrightarrow> sk i = 0)"

definition openIn :: "uuid set \<Rightarrow> world \<Rightarrow> bool" where
  "openIn S s \<longleftrightarrow> (\<forall>t \<in> set (transactions s). isOpen (t_status t) \<longrightarrow> t_id t \<in> S)"

definition refsBelow :: "world \<Rightarrow> bool" where
  "refsBelow s \<longleftrightarrow> (\<forall>t \<in> set (transactions s). \<forall>pid. t_positionId t = Some pid \<longrightarrow> pid < nextId s)"

definition base :: "(uuid \<Rightarrow> int) \<Rightarrow> uuid set \<Rightarrow> world \<Rightarrow> bool" where
  "base sk S s \<longleftrightarrow> dbInv s \<and> ledger sk s \<and> openIn S s \<and> refsBelow s"

text \<open>
  \<open>ty n pid\<close>: type, amount and position of the row; \<open>K\<close>: what is known of the position's
  shares; \<open>sub\<close>: whether the row is known to be submitted.
\<close>

definition working ::
    "(uuid \<Rightarrow> int) \<Rightarrow> uuid set \<Rightarrow> uuid \<Rightarrow> transaction_type \<Rightarrow> int \<Rightarrow> uuid option \<Rightarrow> (int \<Rightarrow> bool) \<Rightarrow> bool \<Rightarrow> world \<Rightarrow> bool" where
  "working sk S i ty n pid K sub s \<longleftrightarrow> base sk (insert i S) s
     \<and> (\<exists>t. find (\<lambda>t. t_id t = i) (transactions s) = Some t \<and> isOpen (t_status t)
            \<and> (sub \<longrightarrow> t_status t = T_SUBMITTED) \<and> t_type t = ty
            \<and> t_amount t = n \<and> t_positionId t = pid)
     \<and> (\<forall>q. pid = Some q \<longrightarrow> (\<exists>p. find (\<lambda>p. p_id p = q) (positions s) = Some p \<and> K (p_shares p)))"

section \<open>Frames\<close>

lemma ignoresOutside_base [simp]:
  "ignoresOutside (base sk S)" "ignoresOutside (working sk S i ty n pid K sub)"
  by (simp_all add: ignoresOutside_def base_def working_def dbInv_def posInv_def txInv_def ledger_def
       openIn_def refsBelow_def balanceOf_def)

lemma triple_preserves: "preserves I m \<Longrightarrow> triple I m (\<lambda>_. I) (\<lambda>_. I)"
  by (rule tripleI) (auto dest: preserves_run)

lemma preserves_triple: "triple I m (\<lambda>_. I) (\<lambda>_. I) \<Longrightarrow> preserves I m"
proof (rule preservesI)
  fix s assume t: "triple I m (\<lambda>_. I) (\<lambda>_. I)" and "I s"
  then show "I (snd (m s))"
    by (cases "m s"; cases "fst (m s)") (auto dest: triple_Inr triple_Inl)
qed

lemma base_frame:
  assumes "base sk S s" and "positions s' = positions s" and "transactions s' = transactions s"
    and "nextId s \<le> nextId s'"
  shows "base sk S s'"
  using assms posInv_frame [of s' s] txInv_frame [of s' s]
  by (fastforce simp: base_def dbInv_def ledger_def openIn_def refsBelow_def balanceOf_def)

section \<open>Updating one row\<close>

lemma ball_updWhere:
  "(\<And>r. r \<in> set rows \<Longrightarrow> k r \<noteq> i \<Longrightarrow> Q r) \<Longrightarrow> Q r' \<Longrightarrow>
   \<forall>r \<in> set (updWhere (\<lambda>q. k q = i) (\<lambda>_. r') rows). Q r"
  by (auto simp: in_updWhere)

lemma sum_updWhere:
  fixes f :: "transaction \<Rightarrow> int"
  assumes "distinct (map t_id ts)" and "t \<in> set ts" and "t_id t = i"
  shows "sum_list (map f (updWhere (\<lambda>q. t_id q = i) (\<lambda>_. t') ts)) = sum_list (map f ts) - f t + f t'"
  using assms
proof (induction ts)
  case (Cons q ts)
  show ?case
  proof (cases "q = t")
    case True
    with Cons.prems have "\<And>r. r \<in> set ts \<Longrightarrow> t_id r \<noteq> i" by (auto simp: image_iff)
    then have "updWhere (\<lambda>q. t_id q = i) (\<lambda>_. t') ts = ts" by (rule updWhere_none)
    with True Cons.prems show ?thesis by simp
  next
    case False
    with Cons.prems have "t \<in> set ts" and "t_id q \<noteq> i" by (auto simp: image_iff)
    with Cons show ?thesis by simp
  qed
qed simp

lemma updateStatus_run:
  assumes "find (\<lambda>t. t_id t = i) (transactions s) = Some t"
  shows "\<exists>t'. txRepo_updateStatus i d s
           = (Inr t', s\<lparr>transactions := updWhere (\<lambda>q. t_id q = i) (\<lambda>_. t') (transactions s)\<rparr>)
         \<and> t_id t' = i \<and> t_status t' = su_status d \<and> t_type t' = t_type t \<and> t_amount t' = t_amount t
         \<and> t_positionId t' = t_positionId t"
proof -
  have i: "t_id t = i" using assms by (auto dest: find_Some_iff_first)
  obtain r where r: "applyStatus d t = Inr r" by (simp add: applyStatus_def)
  then have "t_id r = t_id t \<and> t_status r = su_status d \<and> t_type r = t_type t \<and> t_amount r = t_amount t
     \<and> t_positionId r = t_positionId t" by (auto simp: applyStatus_def)
  moreover have "transactionUpdate i (applyStatus d) s = (Inr (touchTransaction (now s) r),
      putTransactions (updWhere (\<lambda>q. t_id q = i) (\<lambda>_. touchTransaction (now s) r) (transactions s)) s)"
    unfolding transactionUpdate_def by (rule transactionTable.update_hit [where f = "applyStatus d", OF assms r])
  ultimately show ?thesis using i by (simp add: txRepo_updateStatus_def put_defs)
qed

lemma tx_found:
  "txInv s \<Longrightarrow> find (\<lambda>t. t_id t = i) (transactions s) = Some t \<Longrightarrow>
   distinct (map t_id (transactions s)) \<and> t \<in> set (transactions s) \<and> t_id t = i"
  by (auto simp: txInv_def dest: find_Some_iff_first)

text \<open>A row update that does not count: neither status is confirmed, or the row moves no shares.\<close>

lemma base_updateStatus:
  assumes b: "base sk S s" and hit: "find (\<lambda>t. t_id t = i) (transactions s) = Some t"
    and db: "dbInv (snd (txRepo_updateStatus i d s))"
    and uncounted: "t_status t \<noteq> T_CONFIRMED \<and> su_status d \<noteq> T_CONFIRMED \<or> t_type t \<notin> {DEPOSIT, WITHDRAW}"
    and S': "openIn S' (snd (txRepo_updateStatus i d s))"
  shows "base sk S' (snd (txRepo_updateStatus i d s))"
proof -
  obtain t' where run: "txRepo_updateStatus i d s
           = (Inr t', s\<lparr>transactions := updWhere (\<lambda>q. t_id q = i) (\<lambda>_. t') (transactions s)\<rparr>)"
    and t': "t_id t' = i" "t_status t' = su_status d" "t_positionId t' = t_positionId t" "t_type t' = t_type t"
    using updateStatus_run [OF hit] by blast
  from b have inv: "txInv s" by (simp add: base_def dbInv_def)
  note f = tx_found [OF inv hit]
  have d0: "delta pid t = 0" "delta pid t' = 0" for pid
    using uncounted t' by (auto simp: delta_def split: transaction_type.split)
  have bal: "balanceOf (snd (txRepo_updateStatus i d s)) pid = balanceOf s pid" for pid
    using sum_updWhere [of "transactions s" t i "delta pid" t'] f d0 run by (simp add: balanceOf_def)
  have "refsBelow (snd (txRepo_updateStatus i d s))"
  proof -
    have "\<forall>r \<in> set (updWhere (\<lambda>q. t_id q = i) (\<lambda>_. t') (transactions s)). \<forall>pid. t_positionId r = Some pid \<longrightarrow> pid < nextId s"
      by (rule ball_updWhere) (use b f t' in \<open>auto simp: base_def refsBelow_def\<close>)
    then show ?thesis by (simp add: run refsBelow_def)
  qed
  then show ?thesis using b db S' bal run by (simp add: base_def ledger_def)
qed

lemma openIn_close:
  assumes "openIn (insert i S) s" and run: "txRepo_updateStatus i d s
           = (Inr t', s\<lparr>transactions := updWhere (\<lambda>q. t_id q = i) (\<lambda>_. t') (transactions s)\<rparr>)"
    and "t_status t' = su_status d" "\<not> isOpen (su_status d)"
  shows "openIn S (snd (txRepo_updateStatus i d s))"
proof -
  have "\<forall>r \<in> set (updWhere (\<lambda>q. t_id q = i) (\<lambda>_. t') (transactions s)). isOpen (t_status r) \<longrightarrow> t_id r \<in> S"
    by (rule ball_updWhere) (use assms(1,3,4) in \<open>auto simp: openIn_def\<close>)
  then show ?thesis by (simp add: run openIn_def)
qed

text \<open>Closing the transaction without confirming it.\<close>

lemma book_close:
  assumes w: "working sk S i ty n pid K sub s" and d: "su_status d = T_FAILED \<or> su_status d = T_REVERTED"
  shows "base sk S (snd (txRepo_updateStatus i d s)) \<and> (\<exists>t'. fst (txRepo_updateStatus i d s) = Inr t' \<and> t_id t' = i)"
proof -
  from w obtain t where hit: "find (\<lambda>t. t_id t = i) (transactions s) = Some t" and o: "isOpen (t_status t)"
    and b: "base sk (insert i S) s" by (auto simp: working_def)
  obtain t' where run: "txRepo_updateStatus i d s
           = (Inr t', s\<lparr>transactions := updWhere (\<lambda>q. t_id q = i) (\<lambda>_. t') (transactions s)\<rparr>)"
    and t': "t_id t' = i" "t_status t' = su_status d"
    using updateStatus_run [OF hit] by blast
  have cl: "\<not> isOpen (su_status d)" using d by (auto simp: isOpen_def)
  have "base sk S (snd (txRepo_updateStatus i d s))"
  proof (rule base_updateStatus [OF b hit])
    show "dbInv (snd (txRepo_updateStatus i d s))"
      using b cl by (intro dbInv_updateStatus) (auto simp: base_def)
    show "openIn S (snd (txRepo_updateStatus i d s))"
      by (rule openIn_close [OF _ run t'(2) cl]) (use b in \<open>simp add: base_def\<close>)
  qed (use o d in \<open>auto simp: isOpen_def\<close>)
  with run t' show ?thesis by simp
qed

text \<open>Marking it submitted.\<close>

lemma book_submit:
  assumes w: "working sk S i ty n pid K sub s" and d: "su_status d = T_SUBMITTED" "su_metadata d = Some m"
    and m: "metadataGood ty n (Some m)"
  shows "working sk S i ty n pid K True (snd (txRepo_updateStatus i d s))
       \<and> (\<exists>t'. fst (txRepo_updateStatus i d s) = Inr t' \<and> t_id t' = i)"
proof -
  from w obtain t where hit: "find (\<lambda>t. t_id t = i) (transactions s) = Some t" and o: "isOpen (t_status t)"
    and t: "t_type t = ty" "t_amount t = n" "t_positionId t = pid"
    and b: "base sk (insert i S) s" and p: "\<forall>q. pid = Some q \<longrightarrow> (\<exists>p. find (\<lambda>p. p_id p = q) (positions s) = Some p \<and> K (p_shares p))"
    by (auto simp: working_def)
  obtain t' where run: "txRepo_updateStatus i d s
           = (Inr t', s\<lparr>transactions := updWhere (\<lambda>q. t_id q = i) (\<lambda>_. t') (transactions s)\<rparr>)"
    and t': "t_id t' = i" "t_status t' = su_status d" "t_type t' = t_type t" "t_amount t' = t_amount t"
      "t_positionId t' = t_positionId t"
    using updateStatus_run [OF hit] by blast
  have inv: "txInv s" using b by (simp add: base_def dbInv_def)
  note f = tx_found [OF inv hit]
  have known: "knownTx i ty n s" unfolding knownTx_def
    using f t distinct_key_eq [of t_id "transactions s"] by blast
  have "base sk (insert i S) (snd (txRepo_updateStatus i d s))"
  proof (rule base_updateStatus [OF b hit])
    show "dbInv (snd (txRepo_updateStatus i d s))"
      using b d m known by (intro dbInv_updateStatus) (auto simp: base_def)
    show "openIn (insert i S) (snd (txRepo_updateStatus i d s))"
    proof -
      have "\<forall>r \<in> set (updWhere (\<lambda>q. t_id q = i) (\<lambda>_. t') (transactions s)). isOpen (t_status r) \<longrightarrow> t_id r \<in> insert i S"
        by (rule ball_updWhere) (use b t' in \<open>auto simp: base_def openIn_def\<close>)
      then show ?thesis by (simp add: run openIn_def)
    qed
  qed (use o d in \<open>auto simp: isOpen_def\<close>)
  moreover have "find (\<lambda>t. t_id t = i) (updWhere (\<lambda>q. t_id q = i) (\<lambda>_. t') ts) = map_option (\<lambda>_. t') (find (\<lambda>t. t_id t = i) ts)" for ts
    by (induction ts) (auto simp: t')
  ultimately show ?thesis using run t' t p hit d by (auto simp: working_def isOpen_def)
qed


section \<open>Confirming\<close>

definition signed :: "transaction_type \<Rightarrow> int \<Rightarrow> int" where
  "signed ty n = (case ty of DEPOSIT \<Rightarrow> n | WITHDRAW \<Rightarrow> - n | _ \<Rightarrow> 0)"

lemma signed_simps [simp]: "signed DEPOSIT n = n" "signed WITHDRAW n = - n" "signed APPROVAL n = 0"
  by (simp_all add: signed_def)

text \<open>Between the confirmation and the write of the position, which lags behind by \<open>d\<close>.\<close>

definition lagging :: "(uuid \<Rightarrow> int) \<Rightarrow> uuid set \<Rightarrow> uuid \<Rightarrow> int \<Rightarrow> world \<Rightarrow> bool" where
  "lagging sk S pid d s \<longleftrightarrow> dbInv s \<and> openIn S s \<and> refsBelow s
     \<and> (\<forall>p \<in> set (positions s). p_shares p + (if p_id p = pid then d else 0) = balanceOf s (p_id p) + sk (p_id p))
     \<and> (\<forall>i. nextId s \<le> i \<longrightarrow> sk i = 0)"

lemma lagging_zero: "lagging sk S pid 0 s \<Longrightarrow> base sk S s"
  by (auto simp: lagging_def base_def ledger_def)

lemma confirm_run:
  assumes w: "working sk S i ty n opid K True s" and pid: "\<And>q. opid = Some q \<Longrightarrow> q = pid"
  shows "\<exists>t' s'. txRepo_confirmSubmitted i b m s = (Inr (True, t'), s') \<and> positions s' = positions s
     \<and> lagging sk S pid (if opid = None then 0 else signed ty n) s' \<and> t_id t' = i \<and> t_status t' = T_CONFIRMED"
proof -
  let ?d = "\<lparr>su_status = T_CONFIRMED, su_txHash = None, su_blockNumber = Some b, su_metadata = m\<rparr>"
  from w obtain t where hit: "find (\<lambda>t. t_id t = i) (transactions s) = Some t" and sub: "t_status t = T_SUBMITTED"
    and t: "t_type t = ty" "t_amount t = n" "t_positionId t = opid"
    and b: "base sk (insert i S) s" by (auto simp: working_def)
  obtain t' where run: "txRepo_updateStatus i ?d s
           = (Inr t', s\<lparr>transactions := updWhere (\<lambda>q. t_id q = i) (\<lambda>_. t') (transactions s)\<rparr>)" (is "_ = (_, ?s')")
    and t': "t_id t' = i" "t_status t' = su_status ?d" "t_type t' = t_type t" "t_amount t' = t_amount t"
      "t_positionId t' = t_positionId t"
    using updateStatus_run [OF hit] by blast
  have go: "txRepo_confirmSubmitted i b m s = (Inr (True, t'), ?s')"
    using run hit sub by (simp add: txRepo_confirmSubmitted_def txRepo_updateStatus_def)
  have inv: "txInv s" using b by (simp add: base_def dbInv_def)
  note f = tx_found [OF inv hit]
  have db: "dbInv ?s'" using dbInv_confirmSubmitted [of s i b m] b go by (simp add: base_def)
  have op: "openIn S ?s'"
    using openIn_close [OF _ run t'(2)] b run by (simp add: base_def isOpen_def)
  have ref: "refsBelow ?s'"
  proof -
    have "\<forall>r \<in> set (updWhere (\<lambda>q. t_id q = i) (\<lambda>_. t') (transactions s)). \<forall>pid. t_positionId r = Some pid \<longrightarrow> pid < nextId s"
      by (rule ball_updWhere) (use b f t' in \<open>auto simp: base_def refsBelow_def\<close>)
    then show ?thesis by (simp add: refsBelow_def)
  qed
  have "delta q t = 0" for q using sub by (simp add: delta_def)
  moreover have "delta q t' = (if q = pid then (if opid = None then 0 else signed ty n) else 0)" for q
    using t t' pid by (cases opid) (auto simp: delta_def signed_def split: transaction_type.split)
  ultimately have "balanceOf ?s' q = balanceOf s q + (if q = pid then (if opid = None then 0 else signed ty n) else 0)" for q
    using sum_updWhere [of "transactions s" t i "delta q" t'] f by (simp add: balanceOf_def)
  with b db op ref have "lagging sk S pid (if opid = None then 0 else signed ty n) ?s'" by (simp add: lagging_def base_def ledger_def)
  with go t' show ?thesis by fastforce
qed

text \<open>The position catches up.\<close>

lemma lagging_update:
  assumes lag: "lagging sk S pid d s" and hit: "find (\<lambda>p. p_id p = pid) (positions s) = Some p"
    and run: "positionUpdate pid f s = (Inr p', s')" and db: "dbInv s'"
    and f: "\<And>q. f p = Inr q \<Longrightarrow> p_id q = pid \<and> p_shares q = p_shares p + d"
  shows "base sk S s'"
proof -
  from run hit obtain q where fq: "f p = Inr q" and p': "p' = touchPosition (now s) q"
    and s': "s' = s\<lparr>positions := updWhere (\<lambda>r. p_id r = pid) (\<lambda>_. p') (positions s)\<rparr>"
    unfolding positionUpdate_def by (elim positionTable.update_InrE) (auto simp: put_defs)
  have pin: "p \<in> set (positions s)" "p_id p = pid" using hit by (auto dest: find_Some_iff_first)
  have bal: "balanceOf s' = balanceOf s" by (simp add: s' balanceOf_def fun_eq_iff)
  have "\<forall>r \<in> set (updWhere (\<lambda>r. p_id r = pid) (\<lambda>_. p') (positions s)). p_shares r = balanceOf s (p_id r) + sk (p_id r)"
  proof (rule ball_updWhere)
    show "p_shares r = balanceOf s (p_id r) + sk (p_id r)" if "r \<in> set (positions s)" "p_id r \<noteq> pid" for r
      using lag that by (auto simp: lagging_def)
    show "p_shares p' = balanceOf s (p_id p') + sk (p_id p')"
      using lag pin f [OF fq] p' by (auto simp: lagging_def)
  qed
  then have "ledger sk s'" using lag unfolding ledger_def bal by (simp add: s' lagging_def)
  moreover have "openIn S s'" "refsBelow s'" using lag by (simp_all add: lagging_def openIn_def refsBelow_def s')
  ultimately show ?thesis using db by (simp add: base_def)
qed

lemma update_Inl_same: "positionUpdate i f s = (Inl e, s') \<Longrightarrow> s' = s"
  unfolding positionUpdate_def by (rule positionTable.update_Inl_state)

section \<open>Status changes of a position\<close>

lemma base_setStatus: "base sk S s \<Longrightarrow> base sk S (snd (positionUpdate j (setStatus st) s))"
proof (cases "positionUpdate j (setStatus st) s")
  case (Pair r s')
  assume b: "base sk S s"
  show ?thesis
  proof (cases r)
    case (Inl e)
    with Pair b show ?thesis by (auto dest: update_Inl_same)
  next
    case (Inr p')
    with Pair obtain p where hit: "find (\<lambda>p. p_id p = j) (positions s) = Some p"
      unfolding positionUpdate_def by (auto elim: positionTable.update_InrE)
    have "lagging sk S j 0 s" using b by (simp add: base_def lagging_def ledger_def)
    moreover have "dbInv s'"
      using b Pair preservesD [OF posInv_setStatus [of j st], of s] txInv_frame [of s' s]
        positionUpdate_fields [of j "setStatus st" s]
      by (simp add: base_def dbInv_def)
    moreover have "p_id p = j" using hit by (auto dest: find_Some_iff_first)
    ultimately have "base sk S s'"
      using hit Pair Inr by (intro lagging_update [where p = p and f = "setStatus st"]) (auto simp: setStatus_def)
    with Pair show ?thesis by simp
  qed
qed

lemma setStatus_shares:
  assumes hit: "find (\<lambda>p. p_id p = q) (positions s) = Some p"
  shows "\<exists>p'. find (\<lambda>p. p_id p = q) (positions (snd (positionUpdate j (setStatus st) s))) = Some p' \<and> p_shares p' = p_shares p"
proof (cases "positionUpdate j (setStatus st) s")
  case (Pair r s')
  show ?thesis
  proof (cases r)
    case (Inl e)
    with Pair hit show ?thesis by (auto dest: update_Inl_same)
  next
    case (Inr p')
    with Pair have run: "tableUpdate positions putPositions p_id touchPosition j (setStatus st) s = (Inr p', s')"
      by (simp add: positionUpdate_def)
    have look: "find (\<lambda>p. p_id p = q) (positions s') = (if q = j then Some p' else find (\<lambda>p. p_id p = q) (positions s))"
      by (rule positionTable.update_lookup [OF run]) (auto simp: setStatus_def)
    from run have "q = j \<Longrightarrow> p_shares p' = p_shares p"
      using hit by (elim positionTable.update_InrE) (auto simp: setStatus_def)
    with look hit Pair show ?thesis by auto
  qed
qed

lemma working_setStatus:
  assumes w: "working sk S i ty n pid K sub s"
  shows "working sk S i ty n pid K sub (snd (positionUpdate j (setStatus st) s))"
proof -
  have "\<forall>q. pid = Some q \<longrightarrow> (\<exists>p. find (\<lambda>p. p_id p = q) (positions (snd (positionUpdate j (setStatus st) s))) = Some p \<and> K (p_shares p))"
    using w setStatus_shares [of _ s _ j st] by (fastforce simp: working_def)
  then show ?thesis using w base_setStatus [of sk "insert i S" s j st] by (auto simp: working_def)
qed

lemma base_pos_status [pres]:
  "preserves (base sk S) (pos_markFailed j)" "preserves (base sk S) (pos_markActive j)"
  "preserves (base sk S) (pos_markWithdrawing j)"
  unfolding pos_ops by (intro preserves_asRecord preservesI;
    simp add: posRepo_markFailed_def posRepo_markActive_def posRepo_markWithdrawing_def base_setStatus)+

lemma working_pos_status [pres]:
  "preserves (working sk S i ty n pid K sub) (pos_markFailed j)" "preserves (working sk S i ty n pid K sub) (pos_markActive j)"
  "preserves (working sk S i ty n pid K sub) (pos_markWithdrawing j)"
  unfolding pos_ops by (intro preserves_asRecord preservesI;
    simp add: posRepo_markFailed_def posRepo_markActive_def posRepo_markWithdrawing_def working_setStatus)+


section \<open>The services, as triples\<close>

lemma triple_run:
  assumes "\<And>s. P s \<Longrightarrow> \<exists>x s'. m s = (Inr x, s') \<and> Q x s'"
  shows "triple P m Q E"
  by (rule tripleI) (use assms in fastforce)+

lemma book_markSubmitted:
  assumes "metadataGood ty n (Some m)"
  shows "triple (working sk S i ty n pid K sub) (tx_markSubmitted i h (Some m))
           (\<lambda>r s. working sk S i ty n pid K True s \<and> tr_transactionId r = i) E"
proof (rule triple_run)
  fix s assume w: "working sk S i ty n pid K sub s"
  let ?d = "\<lparr>su_status = T_SUBMITTED, su_txHash = Some h, su_blockNumber = None, su_metadata = Some m\<rparr>"
  from book_submit [OF w, of ?d m] assms obtain t' where
    "working sk S i ty n pid K True (snd (txRepo_updateStatus i ?d s))" and
    "fst (txRepo_updateStatus i ?d s) = Inr t' \<and> t_id t' = i" by auto
  then show "\<exists>x s'. tx_markSubmitted i h (Some m) s = (Inr x, s') \<and> working sk S i ty n pid K True s' \<and> tr_transactionId x = i"
    by (cases "txRepo_updateStatus i ?d s") (auto simp: tx_markSubmitted_def asTxRecord_def andThen_def toTransactionRecord_def)
qed

lemma book_marks:
  "triple (working sk S i ty n pid K sub) (tx_markFailed i m) (\<lambda>r s. base sk S s \<and> tr_transactionId r = i) E"
  "triple (working sk S i ty n pid K sub) (tx_markReverted i b m) (\<lambda>r s. base sk S s \<and> tr_transactionId r = i) E"
proof -
  have "\<exists>x s'. asTxRecord (txRepo_updateStatus i d) s = (Inr x, s') \<and> base sk S s' \<and> tr_transactionId x = i"
    if "working sk S i ty n pid K sub s" "su_status d = T_FAILED \<or> su_status d = T_REVERTED" for d s
    using book_close [OF that]
    by (cases "txRepo_updateStatus i d s") (auto simp: asTxRecord_def andThen_def toTransactionRecord_def)
  then show "triple (working sk S i ty n pid K sub) (tx_markFailed i m) (\<lambda>r s. base sk S s \<and> tr_transactionId r = i) E"
    "triple (working sk S i ty n pid K sub) (tx_markReverted i b m) (\<lambda>r s. base sk S s \<and> tr_transactionId r = i) E"
    unfolding tx_markFailed_def tx_markReverted_def by (intro triple_run; simp)+
qed

lemma working_known:
  assumes w: "working sk S i ty n pid K sub s"
  shows "knownTx i ty n s"
proof -
  from w obtain t where hit: "find (\<lambda>t. t_id t = i) (transactions s) = Some t" and t: "t_type t = ty" "t_amount t = n"
    and b: "base sk (insert i S) s" by (auto simp: working_def)
  from b have inv: "txInv s" by (simp add: base_def dbInv_def)
  from tx_found [OF inv hit] t show ?thesis
    unfolding knownTx_def using distinct_key_eq [of t_id "transactions s"] by blast
qed

text \<open>A transaction that moves no shares can be closed in any state.\<close>

lemma approval_row_close:
  assumes b: "base sk (insert i S) s" and hit: "find (\<lambda>t. t_id t = i) (transactions s) = Some t"
    and ty: "t_type t = APPROVAL" and d: "\<not> isOpen (su_status d)"
  shows "base sk S (snd (txRepo_updateStatus i d s))"
proof -
  obtain t' where run: "txRepo_updateStatus i d s
           = (Inr t', s\<lparr>transactions := updWhere (\<lambda>q. t_id q = i) (\<lambda>_. t') (transactions s)\<rparr>)"
    and t': "t_status t' = su_status d" using updateStatus_run [OF hit] by blast
  show ?thesis
  proof (rule base_updateStatus [OF b hit])
    show "dbInv (snd (txRepo_updateStatus i d s))" using b d by (intro dbInv_updateStatus) (auto simp: base_def)
    show "openIn S (snd (txRepo_updateStatus i d s))"
      by (rule openIn_close [OF _ run t' d]) (use b in \<open>simp add: base_def\<close>)
  qed (simp add: ty)
qed

lemma base_weaken_open: "base sk S s \<Longrightarrow> base sk (insert i S) s"
  by (auto simp: base_def openIn_def)

lemma approval_close:
  assumes b: "base sk S s" and k: "knownTx i APPROVAL n s" and d: "\<not> isOpen (su_status d)"
  shows "base sk S (snd (txRepo_updateStatus i d s))"
proof (cases "find (\<lambda>t. t_id t = i) (transactions s)")
  case None
  with b show ?thesis by (simp add: txRepo_updateStatus_def transactionUpdate_def transactionTable.update_missing)
next
  case (Some t)
  then have "t_type t = APPROVAL" using k by (auto simp: knownTx_def dest: find_Some_iff_first)
  with b Some d show ?thesis by (intro approval_row_close base_weaken_open)
qed

lemma triple_and:
  "triple P m Q E \<Longrightarrow> preserves I m \<Longrightarrow> triple (\<lambda>s. P s \<and> I s) m (\<lambda>x s. Q x s \<and> I s) (\<lambda>e s. E e s \<and> I s)"
  by (rule tripleI) (auto dest: triple_Inr triple_Inl preserves_run)

text \<open>The guarded confirmation in a handler always applies.\<close>

lemma book_confirmSubmitted:
  assumes "\<And>q. opid = Some q \<Longrightarrow> q = pid"
  shows "triple (working sk S i ty n opid K True) (tx_confirmSubmitted i b m)
           (\<lambda>(applied, r) s. applied \<and> lagging sk S pid (if opid = None then 0 else signed ty n) s
              \<and> tr_transactionId r = i \<and> tr_status r = T_CONFIRMED
              \<and> (opid \<noteq> None \<longrightarrow> (\<exists>p. find (\<lambda>p. p_id p = pid) (positions s) = Some p \<and> K (p_shares p)))) E"
proof (rule triple_run)
  fix s assume w: "working sk S i ty n opid K True s"
  from confirm_run [OF this assms, of b m] obtain t' s' where
    r: "txRepo_confirmSubmitted i b m s = (Inr (True, t'), s')" "positions s' = positions s"
     "lagging sk S pid (if opid = None then 0 else signed ty n) s'" "t_id t' = i" "t_status t' = T_CONFIRMED" by blast
  moreover have "opid \<noteq> None \<longrightarrow> (\<exists>p. find (\<lambda>p. p_id p = pid) (positions s') = Some p \<and> K (p_shares p))"
    using w r(2) assms by (auto simp: working_def)
  ultimately show "\<exists>x s'. tx_confirmSubmitted i b m s = (Inr x, s') \<and>
      (\<lambda>(applied, r) s. applied \<and> lagging sk S pid (if opid = None then 0 else signed ty n) s
              \<and> tr_transactionId r = i \<and> tr_status r = T_CONFIRMED
              \<and> (opid \<noteq> None \<longrightarrow> (\<exists>p. find (\<lambda>p. p_id p = pid) (positions s) = Some p \<and> K (p_shares p)))) x s'"
    by (auto simp: tx_confirmSubmitted_def andThen_def toTransactionRecord_def)
qed

lemma triple_True: "triple P m (\<lambda>_ _. True) (\<lambda>_ _. True)"
  by (rule tripleI) auto

text \<open>The three writes that let a position catch up.\<close>

lemma catch_up:
  assumes d: "\<And>p. K (p_shares p) \<Longrightarrow> goodPosition p \<Longrightarrow> (\<And>q. f p = Inr q \<Longrightarrow> p_id q = p_id p \<and> p_shares q = p_shares p + d)"
    and db: "preserves dbInv (positionUpdate pid f)"
  shows "triple (\<lambda>s. lagging sk S pid d s \<and> (\<exists>p. find (\<lambda>p. p_id p = pid) (positions s) = Some p \<and> K (p_shares p)))
           (asRecord (positionUpdate pid f)) (\<lambda>_. base sk S) (\<lambda>_ _. True)"
proof (rule tripleI)
  fix s r s'
  assume P: "lagging sk S pid d s \<and> (\<exists>p. find (\<lambda>p. p_id p = pid) (positions s) = Some p \<and> K (p_shares p))"
    and "asRecord (positionUpdate pid f) s = (Inr r, s')"
  then obtain p' where run: "positionUpdate pid f s = (Inr p', s')"
    by (auto simp: asRecord_def elim: andThen_InrE)
  from P obtain p where hit: "find (\<lambda>p. p_id p = pid) (positions s) = Some p" and K: "K (p_shares p)"
    and lag: "lagging sk S pid d s" by blast
  from lag have "dbInv s" by (simp add: lagging_def)
  then have "dbInv s'" using preserves_run [OF db run] by simp
  moreover have "goodPosition p" "p_id p = pid"
    using \<open>dbInv s\<close> hit by (auto simp: dbInv_def posInv_def dest: find_Some_iff_first)
  ultimately show "base sk S s'" using lagging_update [OF lag hit run] d [OF K] by auto
qed simp

section \<open>Creating rows\<close>

text \<open>A new transaction row, linked to a position that exists or to none.\<close>

lemma book_create:
  assumes n: "bigIntOf (ct_amount input) = Some n" "0 \<le> n"
    and m: "metadataGood (ct_type input) n (ct_metadata input)"
  shows "triple (\<lambda>s. base sk S s \<and> (\<forall>q. ct_positionId input = Some q \<longrightarrow>
             (\<exists>p. find (\<lambda>p. p_id p = q) (positions s) = Some p \<and> K (p_shares p))))
           (tx_createTransaction input)
           (\<lambda>r. working sk S (tr_transactionId r) (ct_type input) n (ct_positionId input) K False) (\<lambda>_. base sk S)"
    (is "triple ?P _ ?Q _")
proof (rule tripleI)
  fix s r s'
  assume P: "?P s" and run: "tx_createTransaction input s = (Inr r, s')"
  then have b: "base sk S s" by simp
  then have inv: "dbInv s" by (simp add: base_def)
  from run n obtain t where t: "t = newTransaction s input n" and r: "tr_transactionId r = nextId s"
    and s': "s' = s\<lparr>transactions := transactions s @ [t], nextId := Suc (nextId s)\<rparr>"
    and create: "txRepo_create input s = (Inr t, s')"
    by (auto simp: tx_createTransaction_def asTxRecord_def andThen_def txRepo_create_def decimalOf_def Let_def
          toTransactionRecord_def newTransaction_def split: if_splits)
  have db: "dbInv s'" using dbInv_createTransaction [OF inv n m] create by simp
  have fresh: "\<forall>q \<in> set (transactions s). t_id q \<noteq> nextId s"
    using inv by (auto simp: dbInv_def txInv_def)
  have fld: "t_id t = nextId s" "t_status t = T_CREATED" "t_type t = ct_type input" "t_amount t = n"
    "t_positionId t = ct_positionId input" by (simp_all add: t newTransaction_def)
  have d0: "delta pid t = 0" for pid by (simp add: delta_def fld)
  have below: "pid < nextId s" if "ct_positionId input = Some pid" for pid
    using P that inv by (auto simp: dbInv_def posInv_def dest!: find_Some_iff_first)
  have bal: "balanceOf s' pid = balanceOf s pid" for pid by (simp add: balanceOf_def s' d0)
  have "ledger sk s'" using b unfolding ledger_def bal base_def by (simp add: s' ledger_def)
  moreover have "openIn (insert (nextId s) S) s'" using b by (auto simp: base_def openIn_def s' fld)
  moreover have "refsBelow s'"
  proof -
    have "pid < Suc (nextId s)" if "q \<in> set (transactions s)" "t_positionId q = Some pid" for q pid
      using b that by (auto simp: base_def refsBelow_def intro: less_SucI)
    then show ?thesis using below fld by (auto simp: refsBelow_def s' less_SucI)
  qed
  moreover have "find (\<lambda>q. t_id q = nextId s) (transactions s') = Some t"
    using fresh fld by (simp add: s' find_append_fresh)
  ultimately show "?Q r s'" using db P r fld by (auto simp: working_def base_def isOpen_def s')
next
  fix s e s'
  assume "?P s" and "tx_createTransaction input s = (Inl e, s')"
  then show "base sk S s'" using n
    by (auto simp: tx_createTransaction_def asTxRecord_def andThen_def txRepo_create_def decimalOf_def Let_def
        split: if_splits)
qed

text \<open>A new position starts empty, and nothing refers to it yet.\<close>

lemma balance_unreferenced:
  "refsBelow s \<Longrightarrow> nextId s \<le> pid \<Longrightarrow> balanceOf s pid = 0"
proof -
  assume r: "refsBelow s" and le: "nextId s \<le> pid"
  have "delta pid t = 0" if "t \<in> set (transactions s)" for t
    using r that le by (fastforce simp: refsBelow_def delta_def)
  then show ?thesis unfolding balanceOf_def by (simp add: sum_list_0 cong: map_cong)
qed

lemma book_createPending:
  "triple (base sk S) (pos_createPending u v)
     (\<lambda>r s. base sk S s \<and> (\<exists>p. find (\<lambda>p. p_id p = pr_positionId r) (positions s) = Some p \<and> p_shares p = 0))
     (\<lambda>_. base sk S)"
proof (rule tripleI)
  fix s r s' assume b: "base sk S s" and run: "pos_createPending u v s = (Inr r, s')"
  from run obtain p where s': "s' = s\<lparr>positions := positions s @ [p], nextId := Suc (nextId s)\<rparr>"
    and p: "p_id p = nextId s" "p_shares p = 0" "pr_positionId r = nextId s"
    by (auto simp: pos_createPending_def asRecord_def andThen_def posRepo_create_def Let_def toPositionRecord_def
        split: if_splits)
  have inv: "dbInv s" using b by (simp add: base_def)
  then have db: "dbInv s'" by (rule preserves_run [OF dbInv_pos_status(5) run])
  have bal: "balanceOf s' q = balanceOf s q" for q by (simp add: balanceOf_def s')
  have fresh: "\<forall>q \<in> set (positions s). p_id q \<noteq> nextId s" using inv by (auto simp: dbInv_def posInv_def)
  have "ledger sk s'" using b balance_unreferenced [of s "nextId s"] p
    unfolding ledger_def bal base_def by (auto simp: s' ledger_def)
  moreover have "openIn S s'" using b by (simp add: base_def openIn_def s')
  moreover have "refsBelow s'" using b by (auto simp: base_def refsBelow_def s' intro: less_SucI)
  moreover have "find (\<lambda>q. p_id q = nextId s) (positions s') = Some p"
    using fresh p by (simp add: s' find_append_fresh)
  ultimately show "base sk S s' \<and> (\<exists>p. find (\<lambda>p. p_id p = pr_positionId r) (positions s') = Some p \<and> p_shares p = 0)"
    using db p by (simp add: base_def)
next
  fix s e s' assume "base sk S s" and "pos_createPending u v s = (Inl e, s')"
  then show "base sk S s'"
    by (auto simp: pos_createPending_def asRecord_def andThen_def posRepo_create_def Let_def split: if_splits)
qed

lemma working_base: "working sk S i ty n pid K sub s \<Longrightarrow> base sk (insert i S) s"
  by (simp add: working_def)

lemma find_by_id:
  assumes "base sk S s" and "p \<in> set (positions s)"
  shows "find (\<lambda>q. p_id q = p_id p) (positions s) = Some p"
  using assms by (auto simp: base_def dbInv_def posInv_def intro!: find_distinct_key)

lemma working_weaken: "working sk S i ty n pid K sub s \<Longrightarrow> working sk S i ty n pid K False s"
  by (auto simp: working_def)

lemma triple_frame:
  assumes "preserves I m" and "\<And>s. P s \<Longrightarrow> I s" and "\<And>x s. I s \<Longrightarrow> Q x s" and "\<And>e s. I s \<Longrightarrow> E e s"
  shows "triple P m Q E"
  using triple_preserves [OF assms(1)] assms(2-4) by (rule triple_conseq) auto

lemma triple_auditLog:
  assumes "ignoresOutside I"
  shows "triple I (auditLog x a) (\<lambda>_. I) E"
proof (rule triple_run)
  fix s assume "I s"
  moreover obtain s' where "auditLog x a s = (Inr (), s')" using auditLog_never_throws by blast
  ultimately show "\<exists>u s'. auditLog x a s = (Inr u, s') \<and> I s'"
    using preserves_run [OF preserves_auditLog [OF assms]] by blast
qed

lemma book_marks_base:
  "triple (working sk S i ty n pid K sub) (tx_markFailed i m) (\<lambda>_. base sk S) E"
  "triple (working sk S i ty n pid K sub) (tx_markReverted i b m) (\<lambda>_. base sk S) E"
  by (rule triple_conseq [OF book_marks(1)], auto) (rule triple_conseq [OF book_marks(2)], auto)

text \<open>The position catches up: a first deposit, a further one, a withdrawal.\<close>

lemma catch_up_activate:
  assumes d: "sameAmounts d n" "0 \<le> n"
  shows "triple (\<lambda>s. lagging sk S pid n s \<and> (\<exists>p. find (\<lambda>p. p_id p = pid) (positions s) = Some p \<and> p_shares p = 0))
           (pos_activate pid d) (\<lambda>_. base sk S) (\<lambda>_ _. True)"
  unfolding pos_activate_def posRepo_activate_def
proof (rule catch_up)
  show "preserves dbInv (positionUpdate pid (setAmounts P_ACTIVE (ap_depositedAmount d) (ap_currentAmount d) (ap_shares d)))"
    by (rule preserves_dbInv_positions [OF posInv_activate [OF d, unfolded posRepo_activate_def]]) simp_all
qed (use d in \<open>auto simp: sameAmounts_def setAmounts_same split: if_splits\<close>)

lemma catch_up_addDeposit:
  assumes d: "sameAmounts d n" "0 \<le> n"
  shows "triple (\<lambda>s. lagging sk S pid n s \<and> (\<exists>p. find (\<lambda>p. p_id p = pid) (positions s) = Some p \<and> K (p_shares p)))
           (pos_addDeposit pid d) (\<lambda>_. base sk S) (\<lambda>_ _. True)"
  unfolding pos_addDeposit_def posRepo_addDeposit_def
proof (rule catch_up)
  show "preserves dbInv (positionUpdate pid (incAmounts (ap_depositedAmount d) (ap_currentAmount d) (ap_shares d)))"
    by (rule preserves_dbInv_positions [OF posInv_addDeposit [OF d, unfolded posRepo_addDeposit_def]]) simp_all
qed (use d in \<open>auto simp: sameAmounts_def incAmounts_same split: if_splits\<close>)

lemma catch_up_subtract:
  assumes d: "bigIntOf (wp_withdrawnAmount d) = Some n" "bigIntOf (wp_shares d) = Some n" "0 \<le> n"
  shows "triple (\<lambda>s. lagging sk S pid (- n) s \<and> (\<exists>p. find (\<lambda>p. p_id p = pid) (positions s) = Some p \<and> n \<le> p_shares p))
           (pos_subtractWithdraw pid d) (\<lambda>_. base sk S) (\<lambda>_ _. True)"
proof (rule tripleI)
  fix s r s'
  assume P: "lagging sk S pid (- n) s \<and> (\<exists>p. find (\<lambda>p. p_id p = pid) (positions s) = Some p \<and> n \<le> p_shares p)"
    and "pos_subtractWithdraw pid d s = (Inr r, s')"
  then obtain q where run: "posRepo_subtractWithdraw pid d s = (Inr q, s')"
    by (auto simp: pos_subtractWithdraw_def asRecord_def elim: andThen_InrE)
  from P obtain p where hit: "find (\<lambda>p. p_id p = pid) (positions s) = Some p" and le: "n \<le> p_shares p"
    and lag: "lagging sk S pid (- n) s" by blast
  have db: "dbInv s" and inv: "posInv s" using lag by (simp_all add: lagging_def dbInv_def)
  let ?f = "\<lambda>_. Inr (p\<lparr>p_status := (if p_shares p \<le> n then P_CLOSED else P_ACTIVE),
      p_depositedAmount := max 0 (p_shares p - n), p_currentAmount := max 0 (p_shares p - n),
      p_shares := max 0 (p_shares p - n)\<rparr>)"
  have "p_id p = pid" using hit by (auto dest: find_Some_iff_first)
  moreover have "positionUpdate pid ?f s = (Inr q, s')"
    using subtractWithdraw_run [OF inv hit d] run positionTable.update_hit [OF hit, of ?f]
    by (simp add: positionUpdate_def put_defs Let_def)
  moreover have "dbInv s'"
  proof (rule preserves_run [where I = dbInv])
    show "posRepo_subtractWithdraw pid d s = (Inr q, s')" by (rule run)
    show "dbInv s" by (rule db)
    show "preserves dbInv (posRepo_subtractWithdraw pid d)"
      by (rule preserves_dbInv_positions [OF posInv_subtractWithdraw [OF d]]) simp_all
  qed
  ultimately show "base sk S s'" using le by (intro lagging_update [OF lag hit]) auto
qed simp

lemma triple_reads:
  assumes "\<And>s. \<exists>x. m s = (Inr x, s)" and "\<And>x s. P s \<Longrightarrow> m s = (Inr x, s) \<Longrightarrow> Q x s"
  shows "triple P m Q E"
  by (rule triple_run) (use assms in blast)

lemma pos_findByUserAndVault_run:
  "pos_findByUserAndVault u v s =
     (Inr (map_option toPositionRecord (find (\<lambda>p. p_userId p = u \<and> p_vaultId p = v) (positions s))), s)"
  by (simp add: pos_findByUserAndVault_def posRepo_findByUserAndVault_def)

lemma triple_pos_markFailed:
  "triple (working sk S i ty n pid K sub) (whenE b (andThen (pos_markFailed j) (\<lambda>_. ret ())))
     (\<lambda>_. working sk S i ty n pid K sub) (\<lambda>_. working sk S i ty n pid K False)"
  by (rule triple_frame [where I = "working sk S i ty n pid K sub"]) (auto intro!: pres intro: working_weaken)

text \<open>\<open>opened sk S n p t isNew\<close>: the state once a mutation of \<open>n\<close> is recorded.\<close>

abbreviation opened ::
    "(uuid \<Rightarrow> int) \<Rightarrow> uuid set \<Rightarrow> transaction_type \<Rightarrow> int \<Rightarrow> position_record \<Rightarrow> transaction_record \<Rightarrow> bool \<Rightarrow> bool \<Rightarrow> world \<Rightarrow> bool" where
  "opened sk S ty n p t isNew sub \<equiv>
     working sk S (tr_transactionId t) ty n (Some (pr_positionId p)) (\<lambda>sh. isNew \<longrightarrow> sh = 0) sub"

end
