(* ===== verification/RedisLocks.thy ===== *)
theory RedisLocks
  imports Schema
begin

text \<open>
  The Redis commands the back end uses and the two services built on them: the per-minute
  mutation limit (\<^verbatim>\<open>src/earn/services/earn-mutation-rate-limit.service.ts\<close>) and the
  reconciliation lock (\<^verbatim>\<open>src/reconciliation/reconciliation-lock.service.ts\<close>).  A command is one
  remote call that may fail; a key whose expiry has passed is absent.

  The facts: at most the configured number of mutations of a kind is let through per user and
  calendar minute, whatever else is called in between and whatever command fails; a job that
  acquired the lock keeps it for its 25 seconds against every other job, unless a job of an earlier
  lock is between the two commands of its release, which then deletes it (\<open>release_race\<close>).
\<close>

section \<open>Redis\<close>

definition redisDown :: exn where
  "redisDown = PlainError ''Redis request failed''"

definition redisLive :: "world \<Rightarrow> string \<Rightarrow> redis_entry option" where
  "redisLive s k =
     (case redis s k of
        None \<Rightarrow> None
      | Some e \<Rightarrow> (case r_expires e of
                     None \<Rightarrow> Some e
                   | Some t \<Rightarrow> if now s < t then Some e else None))"

definition redisCommand :: "env \<Rightarrow> 'a io \<Rightarrow> 'a io" where
  "redisCommand x m = andThen (extCall (\<lambda>n. if e_redisUp x n then Inr () else Inl redisDown)) (\<lambda>_. m)"

text \<open>\<open>INCR\<close>: an absent key counts as 0 and gets no expiry; a key keeps the expiry it has.\<close>

definition redisIncr :: "string \<Rightarrow> int io" where
  "redisIncr k s =
     (case redisLive s k of
        None \<Rightarrow> (Inr 1, s\<lparr>redis := (redis s)(k \<mapsto> \<lparr>r_value = showInt 1, r_expires = None\<rparr>)\<rparr>)
      | Some e \<Rightarrow>
          (case bigIntOf (r_value e) of
             None \<Rightarrow> (Inl (PlainError ''ERR value is not an integer or out of range''), s)
           | Some n \<Rightarrow> (Inr (n + 1), s\<lparr>redis := (redis s)(k \<mapsto> e\<lparr>r_value := showInt (n + 1)\<rparr>)\<rparr>)))"

definition redisExpire :: "string \<Rightarrow> nat \<Rightarrow> unit io" where
  "redisExpire k seconds s =
     (case redisLive s k of
        None \<Rightarrow> (Inr (), s)
      | Some e \<Rightarrow> (Inr (), s\<lparr>redis := (redis s)(k \<mapsto> e\<lparr>r_expires := Some (now s + seconds * 1000)\<rparr>)\<rparr>))"

text \<open>\<open>SET key value NX EX seconds\<close>: whether the key was set.\<close>

definition redisSetNxEx :: "string \<Rightarrow> string \<Rightarrow> nat \<Rightarrow> bool io" where
  "redisSetNxEx k v seconds s =
     (case redisLive s k of
        Some _ \<Rightarrow> (Inr False, s)
      | None \<Rightarrow> (Inr True, s\<lparr>redis := (redis s)(k \<mapsto> \<lparr>r_value = v, r_expires = Some (now s + seconds * 1000)\<rparr>)\<rparr>))"

definition redisGet :: "string \<Rightarrow> string option io" where
  "redisGet k = gets (\<lambda>s. map_option r_value (redisLive s k))"

definition redisDel :: "string \<Rightarrow> unit io" where
  "redisDel k = modify (\<lambda>s. s\<lparr>redis := (redis s)(k := None)\<rparr>)"

lemmas redis_defs = redisIncr_def redisExpire_def redisSetNxEx_def redisGet_def redisDel_def redisCommand_def

section \<open>The mutation rate limit\<close>

datatype mutation_action = DepositMutation | WithdrawMutation

fun actionName :: "mutation_action \<Rightarrow> string" where
  "actionName DepositMutation = ''deposit''"
| "actionName WithdrawMutation = ''withdraw''"

definition rateLimitKey :: "uuid \<Rightarrow> mutation_action \<Rightarrow> nat \<Rightarrow> string" where
  "rateLimitKey userId action windowKey =
     ''earn:'' @ actionName action @ '':'' @ showNat userId @ '':'' @ showNat windowKey"

definition rateLimitExceeded :: "mutation_action \<Rightarrow> int \<Rightarrow> exn" where
  "rateLimitExceeded action lim =
     HttpException 429 (RespObject
       \<lparr>pl_message = Some (MsgOne (''Too many '' @ actionName action @ '' requests. Limit is '' @ showInt lim @ '' per minute.'')),
        pl_error = None, pl_code = Some ''RATE_LIMIT_EXCEEDED'',
        pl_details = Some (JObj [(''action'', JStr (actionName action)), (''limit'', JNum lim), (''windowSeconds'', JNum 60)])\<rparr>)"

text \<open>With a \<open>NaN\<close> limit (\<open>None\<close>) the comparison \<open>count > limit\<close> is never true.\<close>

definition assertAllowed :: "env \<Rightarrow> uuid \<Rightarrow> mutation_action \<Rightarrow> int option \<Rightarrow> unit io" where
  "assertAllowed x userId action limit =
     andThen (gets (\<lambda>s. rateLimitKey userId action (now s div 60000))) (\<lambda>key.
     andThen (redisCommand x (redisIncr key)) (\<lambda>count.
     andThen (whenE (count = 1) (redisCommand x (redisExpire key 60))) (\<lambda>_.
     (case limit of
        None \<Rightarrow> ret ()
      | Some lim \<Rightarrow> require (\<not> count > lim) (rateLimitExceeded action lim)))))"

definition getSecurityConfig :: "env \<Rightarrow> security_config res" where
  "getSecurityConfig x =
     (case c_security (e_config x) of
        None \<Rightarrow> Inl (PlainError ''Security configuration failed to load'')
      | Some c \<Rightarrow> Inr c)"

definition assertDepositAllowed :: "env \<Rightarrow> uuid \<Rightarrow> unit io" where
  "assertDepositAllowed x userId =
     andThen (lift (getSecurityConfig x)) (\<lambda>c. assertAllowed x userId DepositMutation (maxDepositsPerMinute c))"

definition assertWithdrawAllowed :: "env \<Rightarrow> uuid \<Rightarrow> unit io" where
  "assertWithdrawAllowed x userId =
     andThen (lift (getSecurityConfig x)) (\<lambda>c. assertAllowed x userId WithdrawMutation (maxWithdrawalsPerMinute c))"

section \<open>The reconciliation lock\<close>

definition lockKey :: string where
  "lockKey = ''reconciliation:lock''"

definition lockTtlSeconds :: nat where
  "lockTtlSeconds = 25"

definition lockAcquire :: "env \<Rightarrow> string \<Rightarrow> bool io" where
  "lockAcquire x jobId = redisCommand x (redisSetNxEx lockKey jobId lockTtlSeconds)"

text \<open>The two commands of \<open>release\<close>: whether the key holds the id of the job, and its deletion.\<close>

definition lockIsMine :: "env \<Rightarrow> string \<Rightarrow> bool io" where
  "lockIsMine x jobId =
     andThen (redisCommand x (redisGet lockKey)) (\<lambda>current. ret (current = Some jobId))"

definition lockDelete :: "env \<Rightarrow> unit io" where
  "lockDelete x = redisCommand x (redisDel lockKey)"

definition lockRelease :: "env \<Rightarrow> string \<Rightarrow> unit io" where
  "lockRelease x jobId = andThen (lockIsMine x jobId) (\<lambda>mine. whenE mine (lockDelete x))"

section \<open>Frames\<close>

text \<open>Redis commands write the keys and the call counter only.\<close>

definition ignoresRedis :: "(world \<Rightarrow> bool) \<Rightarrow> bool" where
  "ignoresRedis I \<longleftrightarrow> ignoresOutside I \<and> (\<forall>s r. I (s\<lparr>redis := r\<rparr>) = I s)"

lemma preserves_redis [pres]:
  "ignoresRedis I \<Longrightarrow> preserves I m \<Longrightarrow> preserves I (redisCommand x m)"
  "ignoresRedis I \<Longrightarrow> preserves I (redisIncr k)" "ignoresRedis I \<Longrightarrow> preserves I (redisExpire k n)"
  "ignoresRedis I \<Longrightarrow> preserves I (redisSetNxEx k v n)" "ignoresRedis I \<Longrightarrow> preserves I (redisDel k)"
  unfolding redisCommand_def
  by (auto simp: preserves_def redisIncr_def redisExpire_def redisSetNxEx_def redisDel_def ignoresRedis_def
      ignoresOutside_def extCall_def andThen_def split: option.splits prod.splits sum.splits)

lemma preserves_rateLimit [pres]:
  assumes "ignoresRedis I"
  shows "preserves I (assertDepositAllowed x u)" "preserves I (assertWithdrawAllowed x u)"
  unfolding assertDepositAllowed_def assertWithdrawAllowed_def assertAllowed_def
  by (intro pres assms)+

lemma preserves_lock [pres]:
  assumes "ignoresRedis I"
  shows "preserves I (lockAcquire x j)" "preserves I (lockRelease x j)" "preserves I (lockIsMine x j)" "preserves I (lockDelete x)"
  unfolding lockAcquire_def lockRelease_def lockIsMine_def lockDelete_def redisGet_def
  by (intro pres assms)+

section \<open>Keys\<close>

lemma split_at_colon:
  assumes "a @ CHR '':'' # b = c @ CHR '':'' # d" and "CHR '':'' \<notin> set a" and "CHR '':'' \<notin> set c"
  shows "a = c \<and> b = d"
  using assms by (induction a arbitrary: c) (case_tac c; auto)+

lemma colon_not_showNat [simp]: "CHR '':'' \<notin> set (showNat n)"
  using showNat_digits [of n] by (auto simp: list_all_iff isDigit_def code_def)

lemma showNat_inj [simp]: "showNat a = showNat b \<longleftrightarrow> a = b"
  by (metis option.inject parseDigits_showNat)

lemma rateLimitKey_inj [simp]:
  "rateLimitKey u a w = rateLimitKey u' a' w' \<longleftrightarrow> u = u' \<and> a = a' \<and> w = w'"
proof
  assume eq: "rateLimitKey u a w = rateLimitKey u' a' w'"
  then have e1: "actionName a @ CHR '':'' # (showNat u @ CHR '':'' # showNat w)
        = actionName a' @ CHR '':'' # (showNat u' @ CHR '':'' # showNat w')"
    by (simp add: rateLimitKey_def)
  have "actionName a = actionName a' \<and> showNat u @ CHR '':'' # showNat w = showNat u' @ CHR '':'' # showNat w'"
    by (rule split_at_colon [OF e1]) (cases a; simp; fail | cases a'; simp)+
  moreover from this have "showNat u = showNat u' \<and> showNat w = showNat w'"
    by (intro split_at_colon) auto
  ultimately show "u = u' \<and> a = a' \<and> w = w'" by (cases a; cases a') auto
qed simp

section \<open>The limit holds\<close>

text \<open>Requests served one after the other, each at its time; the results in order.\<close>

type_synonym mutation_request = "uuid \<times> mutation_action \<times> nat"

fun serveMutations :: "env \<Rightarrow> int option \<Rightarrow> mutation_request list \<Rightarrow> world \<Rightarrow> bool list" where
  "serveMutations x lim [] s = []"
| "serveMutations x lim ((u, a, t) # rs) s =
     (let (r, s') = assertAllowed x u a lim (s\<lparr>now := t\<rparr>)
      in (\<not> isl r) # serveMutations x lim rs s')"

definition allowedIn :: "uuid \<Rightarrow> mutation_action \<Rightarrow> nat \<Rightarrow> mutation_request list \<Rightarrow> bool list \<Rightarrow> nat" where
  "allowedIn u a w rs oks =
     length (filter (\<lambda>((u', a', t), ok). u' = u \<and> a' = a \<and> t div 60000 = w \<and> ok) (zip rs oks))"

text \<open>The key of minute \<open>w\<close> has counted at least the \<open>c\<close> requests let through and outlives the minute.\<close>

definition counted :: "string \<Rightarrow> nat \<Rightarrow> nat \<Rightarrow> world \<Rightarrow> bool" where
  "counted k w c s =
     (case redis s k of
        None \<Rightarrow> c = 0
      | Some e \<Rightarrow> (\<exists>n. bigIntOf (r_value e) = Some n \<and> int c \<le> n)
           \<and> (case r_expires e of None \<Rightarrow> True | Some t \<Rightarrow> (w + 1) * 60000 \<le> t))"

lemma counted_now [simp]: "counted k w c (s\<lparr>now := t\<rparr>) = counted k w c s"
  by (simp add: counted_def)

lemma window_end: "t div 60000 = w \<Longrightarrow> t < (w + 1) * (60000::nat)"
  by (metis dividend_less_times_div Suc_eq_plus1 mult.commute mult_Suc_right zero_less_numeral add.commute)

lemma counted_mono: "counted k w (Suc c) s \<Longrightarrow> counted k w c s"
  by (auto simp: counted_def split: option.splits)

lemma incr_counted:
  assumes "counted k w c s" and "now s < (w + 1) * 60000" and "redisCommand x (redisIncr k) s = (r, s')"
  shows "now s' = now s \<and> (case r of Inl _ \<Rightarrow> counted k w c s' | Inr n \<Rightarrow> int (Suc c) \<le> n \<and> counted k w (Suc c) s')"
proof (cases "redis s k")
  case None
  with assms show ?thesis
    by (auto simp: redisCommand_def redisIncr_def andThen_def extCall_def redisLive_def counted_def
          split: if_splits)
next
  case (Some e)
  with assms(1,2) obtain n where n: "bigIntOf (r_value e) = Some n" "int c \<le> n"
    and live: "redisLive (s\<lparr>calls := Suc (calls s)\<rparr>) k = Some e"
    and exp: "case r_expires e of None \<Rightarrow> True | Some t \<Rightarrow> (w + 1) * 60000 \<le> t"
    by (auto simp: counted_def redisLive_def split: option.splits)
  show ?thesis
  proof (cases "e_redisUp x (calls s)")
    case True
    with assms(3) n live have "r = Inr (n + 1)"
      and "s' = s\<lparr>calls := Suc (calls s), redis := (redis s)(k \<mapsto> e\<lparr>r_value := showInt (n + 1)\<rparr>)\<rparr>"
      by (simp_all add: redisCommand_def redisIncr_def andThen_def extCall_def)
    then show ?thesis using n exp by (simp add: counted_def)
  next
    case False
    with assms Some show ?thesis by (auto simp: redisCommand_def andThen_def extCall_def counted_def)
  qed
qed

lemma expire_counted:
  assumes "counted k w c s" and "w * 60000 \<le> now s"
  shows "counted k w c (snd (redisCommand x (redisExpire k 60) s))"
  using assms
  by (auto simp: redisCommand_def redisExpire_def andThen_def extCall_def redisLive_def counted_def
        split: option.splits)

lemma assertAllowed_counted:
  assumes inv: "counted (rateLimitKey u a w) w c s" and win: "now s div 60000 = w"
    and run: "assertAllowed x u a (Some lim) s = (r, s')"
  shows "counted (rateLimitKey u a w) w (if isl r then c else Suc c) s' \<and> (isl r \<or> int (Suc c) \<le> lim)"
proof -
  let ?k = "rateLimitKey u a w"
  obtain q t where incr: "redisCommand x (redisIncr ?k) s = (q, t)" by force
  have start: "w * 60000 \<le> now s" using win by auto
  note step = incr_counted [OF inv window_end [OF win] incr]
  show ?thesis
  proof (cases q)
    case (Inl e)
    with run incr win step show ?thesis by (auto simp: assertAllowed_def andThen_def)
  next
    case (Inr n)
    with step have n: "int (Suc c) \<le> n" and t: "counted ?k w (Suc c) t" "now t = now s" by auto
    obtain q' t' where exp: "whenE (n = 1) (redisCommand x (redisExpire ?k 60)) t = (q', t')" by force
    have t': "counted ?k w (Suc c) t'"
      using expire_counted [OF t(1), of x] start t exp by (auto simp: whenE_def split: if_splits)
    from run have "(r, s') = (case q' of Inl e \<Rightarrow> (Inl e, t') | Inr _ \<Rightarrow> require (\<not> n > lim) (rateLimitExceeded a lim) t')"
      using win incr Inr exp by (auto simp: assertAllowed_def andThen_def split: sum.splits)
    then show ?thesis using t' counted_mono [OF t'] n
      by (auto simp: require_def split: sum.splits if_splits)
  qed
qed

lemma counted_otherKey [pres]:
  assumes "k \<noteq> k'"
  shows "preserves (counted k w c) (redisCommand x (redisIncr k'))"
    "preserves (counted k w c) (redisCommand x (redisExpire k' n))"
  using assms
  by (auto simp: preserves_def redisCommand_def redisIncr_def redisExpire_def andThen_def extCall_def
        counted_def split: option.splits sum.splits)

lemma assertAllowed_other:
  assumes "(u', a', now s div 60000) \<noteq> (u, a, w)" and "counted (rateLimitKey u a w) w c s"
  shows "counted (rateLimitKey u a w) w c (snd (assertAllowed x u' a' lim s))"
proof -
  have k: "rateLimitKey u a w \<noteq> rateLimitKey u' a' (now s div 60000)" using assms(1) by auto
  show ?thesis
    unfolding assertAllowed_def andThen_gets
    by (rule preservesD [where I = "counted (rateLimitKey u a w) w c"]) (intro pres k, rule assms(2))
qed

lemma allowed_bounded:
  "counted (rateLimitKey u a w) w c s \<Longrightarrow>
   int (c + allowedIn u a w rs (serveMutations x (Some lim) rs s)) \<le> max (int c) lim"
proof (induction rs arbitrary: c s)
  case Nil
  then show ?case by (simp add: allowedIn_def)
next
  case (Cons q rs)
  obtain u' a' t where q: "q = (u', a', t)" by (cases q)
  obtain r s' where run: "assertAllowed x u' a' (Some lim) (s\<lparr>now := t\<rparr>) = (r, s')" by (cases "assertAllowed x u' a' (Some lim) (s\<lparr>now := t\<rparr>)")
  show ?case
  proof (cases "(u', a', t div 60000) = (u, a, w)")
    case True
    with run have "counted (rateLimitKey u a w) w (if isl r then c else Suc c) s' \<and> (isl r \<or> int (Suc c) \<le> lim)"
      using Cons.prems by (intro assertAllowed_counted [where s = "s\<lparr>now := t\<rparr>" and x = x]) auto
    then show ?thesis using Cons.IH [of "if isl r then c else Suc c" s'] run True
      by (auto simp: q allowedIn_def split: if_splits)
  next
    case False
    with run Cons.prems have "counted (rateLimitKey u a w) w c s'"
      using assertAllowed_other [of u' a' "s\<lparr>now := t\<rparr>" u a w c x "Some lim"] by simp
    from Cons.IH [OF this] show ?thesis using run False by (auto simp: q allowedIn_def)
  qed
qed

section \<open>The lock excludes\<close>

text \<open>
  What jobs do with the lock, and the passing of time.  A release is two commands with an \<open>await\<close>
  between them: \<open>LookUp j\<close> reads the key, and when it holds the id of \<open>j\<close>, the job is among those
  that will delete the key, whatever happens before \<open>Delete j\<close>.
\<close>

datatype lock_op = Acquire string | LookUp string | Delete string | Wait nat

fun lockStep :: "env \<Rightarrow> lock_op \<Rightarrow> string list \<times> world \<Rightarrow> string list \<times> world" where
  "lockStep x (Acquire j) (deleting, s) = (deleting, snd (lockAcquire x j s))"
| "lockStep x (LookUp j) (deleting, s) =
     (let (r, s') = lockIsMine x j s in (if r = Inr True then j # deleting else deleting, s'))"
| "lockStep x (Delete j) (deleting, s) =
     (if j \<in> set deleting then (remove1 j deleting, snd (lockDelete x s)) else (deleting, s))"
| "lockStep x (Wait d) (deleting, s) = (deleting, s\<lparr>now := now s + d\<rparr>)"

text \<open>Without another job in between, the two steps are the release.\<close>

lemma lockStep_release:
  "j \<notin> set deleting \<Longrightarrow> fold (lockStep x) [LookUp j, Delete j] (deleting, s) = (deleting, snd (lockRelease x j s))"
  by (auto simp: lockRelease_def andThen_def whenE_def split: prod.splits sum.splits)

definition heldBy :: "string \<Rightarrow> nat \<Rightarrow> world \<Rightarrow> bool" where
  "heldBy j t s \<longleftrightarrow> redis s lockKey = Some \<lparr>r_value = j, r_expires = Some t\<rparr>"

lemma acquire_holds:
  "lockAcquire x j s = (Inr True, s') \<Longrightarrow> heldBy j (now s + 25000) s' \<and> now s' = now s"
  by (auto simp: lockAcquire_def redis_defs andThen_def extCall_def heldBy_def lockTtlSeconds_def redisLive_def
      split: if_splits option.splits)

lemma held_lockStep:
  assumes "heldBy j t s" and "now (snd (lockStep x op (ds, s))) < t" and "op \<noteq> LookUp j"
    and "\<forall>k \<in> set ds. op \<noteq> Delete k"
  shows "heldBy j t (snd (lockStep x op (ds, s))) \<and> set (fst (lockStep x op (ds, s))) \<subseteq> set ds"
  using assms
  by (cases op) (auto simp: lockAcquire_def lockIsMine_def redis_defs andThen_def extCall_def heldBy_def
      redisLive_def split: if_splits option.splits)

lemma lockStep_now: "now s \<le> now (snd (lockStep x op (ds, s)))"
  by (cases op) (auto simp: lockAcquire_def lockIsMine_def lockDelete_def redis_defs andThen_def extCall_def
      split: if_splits option.splits sum.splits prod.splits)

lemma lockSteps_now: "now s \<le> now (snd (fold (lockStep x) ops (ds, s)))"
proof (induction ops arbitrary: ds s)
  case (Cons op ops)
  obtain ds' s' where step: "lockStep x op (ds, s) = (ds', s')" by force
  show ?case using lockStep_now [of s x op ds] Cons.IH [of s' ds'] step by simp
qed simp

lemma held_lockSteps:
  assumes "heldBy j t s" and "now (snd (fold (lockStep x) ops (ds, s))) < t" and "LookUp j \<notin> set ops"
    and "\<forall>k \<in> set ds. Delete k \<notin> set ops"
  shows "heldBy j t (snd (fold (lockStep x) ops (ds, s)))"
  using assms
proof (induction ops arbitrary: ds s)
  case (Cons op ops)
  obtain ds' s' where step: "lockStep x op (ds, s) = (ds', s')" by force
  have "now s' < t" using Cons.prems(2) lockSteps_now [of s' x ops ds'] step by simp
  then have "heldBy j t s' \<and> set ds' \<subseteq> set ds"
    using held_lockStep [OF Cons.prems(1), of x op ds] Cons.prems(3,4) step by auto
  with Cons.IH [of s' ds'] Cons.prems(2-4) step show ?case by auto
qed simp

lemma held_excludes:
  "heldBy j t s \<Longrightarrow> now s < t \<Longrightarrow> \<exists>r s'. lockAcquire x j' s = (r, s') \<and> r \<noteq> Inr True"
  by (auto simp: lockAcquire_def redis_defs andThen_def extCall_def heldBy_def redisLive_def)

text \<open>
  What a job between its two commands can do: its lock expires, another job acquires it, the deletion
  then takes that job's lock away, and a third acquires it at the same moment.
\<close>

lemma release_race:
  assumes up: "\<And>n. e_redisUp x n" and free: "redis s lockKey = None"
  shows "\<exists>s1 s2 s3. fold (lockStep x) [Acquire a, LookUp a, Wait 25000] ([], s) = ([a], s1)
     \<and> lockAcquire x b s1 = (Inr True, s2) \<and> lockStep x (Delete a) ([a], s2) = ([], s3)
     \<and> now s3 = now s2 \<and> fst (lockAcquire x c s3) = Inr True"
  using assms
  by (simp add: lockAcquire_def lockIsMine_def lockDelete_def redis_defs andThen_def extCall_def redisLive_def lockTtlSeconds_def)

end
