(* ===== verification/Protocols.thy ===== *)
theory Protocols
  imports Schema
begin

text \<open>
  \<^verbatim>\<open>src/protocols\<close>: the earn protocol provider.  \<open>aave_\<close> are the methods of \<open>AaveProvider\<close>,
  \<open>viem_\<close> those of \<open>AaveViemService\<close>; the contract reads are remote calls of \<open>env\<close>, unit
  formatting and parsing are parameters of it.  \<open>position-value.util.ts\<close>, which values a
  position with the share price the provider reports, is here too.

  The locale \<open>earn_protocol_provider\<close> is the interface \<open>EarnProtocolProvider\<close> as the handlers
  rely on it; the Aave provider interprets it.
\<close>

section \<open>Types\<close>

record protocol_vault =
  pv_vaultId :: string
  pv_protocol :: string
  pv_chainId :: int
  pv_contractAddress :: string
  pv_shareTokenAddress :: string
  pv_name :: string
  pv_symbol :: string
  pv_assetSymbol :: string
  pv_assetDecimals :: nat
  pv_assetAddress :: string
  pv_apy :: string
  pv_tvl :: string
  pv_sharePrice :: string
  pv_totalSupply :: string
  pv_description :: string
  pv_isEnabled :: bool
  pv_depositEnabled :: bool
  pv_withdrawEnabled :: bool
  pv_riskLevel :: risk_level

record get_vaults_input =
  gv_chainId :: "int option"
  gv_assetSymbol :: "string option"
  gv_protocol :: "string option"

record preview_result =
  pre_vaultId :: string
  pre_chainId :: int
  pre_assetAmount :: string
  pre_shares :: string
  pre_sharePrice :: string

record reserve_data =
  rd_name :: string
  rd_symbol :: string
  rd_assetAddress :: string
  rd_aTokenAddress :: string
  rd_apy :: string
  rd_tvl :: string
  rd_sharePrice :: string
  rd_totalSupply :: int
  rd_liquidityIndex :: int

section \<open>AaveViemService\<close>

definition ray :: int where
  "ray = 10 ^ 27"

definition viem_getChainDefinition :: "env \<Rightarrow> int \<Rightarrow> chain_definition res" where
  "viem_getChainDefinition x chainId =
     (case c_chains (e_config x) of
        None \<Rightarrow> Inl (PlainError ''Chains configuration failed to load'')
      | Some cs \<Rightarrow>
          (case find (\<lambda>entry. ch_chainId entry = chainId) cs of
             None \<Rightarrow> Inl (PlainError (''Unsupported chainId for Aave provider: '' @ showInt chainId))
           | Some c \<Rightarrow> Inr c))"

text \<open>\<open>(Number(a) / 10_000).toFixed(4)\<close> of a non-negative integer below \<open>10 ^ 15\<close>.\<close>

definition fixed4 :: "nat \<Rightarrow> string" where
  "fixed4 a = showNat (a div 10000) @ ''.'' @ map digitChar
     [a div 1000 mod 10, a div 100 mod 10, a div 10 mod 10, a mod 10]"

text \<open>The rate is an unsigned word of the contract, so the quotient truncates downwards.\<close>

definition viem_formatSupplyApy :: "int \<Rightarrow> string" where
  "viem_formatSupplyApy liquidityRate =
     (if liquidityRate = 0 then ''0''
      else fixed4 (nat (liquidityRate * 1000000 div ray)))"

definition viem_readTokenSymbol :: "env \<Rightarrow> int \<Rightarrow> string \<Rightarrow> string io" where
  "viem_readTokenSymbol x chainId tokenAddress =
     catching (extCall (\<lambda>n. e_symbol x n chainId tokenAddress)) (\<lambda>_. ret ''aToken'')"

definition viem_readReserveData ::
    "env \<Rightarrow> int \<Rightarrow> string \<Rightarrow> string \<Rightarrow> string \<Rightarrow> string \<Rightarrow> reserve_data io" where
  "viem_readReserveData x chainId pool assetAddress aToken assetSymbol =
     andThen (lift (viem_getChainDefinition x chainId)) (\<lambda>_.
     andThen (extCall (\<lambda>n. e_reserveData x n chainId pool assetAddress)) (\<lambda>(liquidityIndex, currentLiquidityRate).
     andThen (extCall (\<lambda>n. e_totalSupply x n chainId aToken)) (\<lambda>totalSupply.
     andThen (viem_readTokenSymbol x chainId aToken) (\<lambda>aTokenSymbol.
     ret \<lparr>rd_name = ''Aave V3 '' @ assetSymbol, rd_symbol = aTokenSymbol, rd_assetAddress = assetAddress,
          rd_aTokenAddress = aToken, rd_apy = viem_formatSupplyApy currentLiquidityRate,
          rd_tvl = showInt totalSupply, rd_sharePrice = e_formatUnits x liquidityIndex 27,
          rd_totalSupply = totalSupply, rd_liquidityIndex = liquidityIndex\<rparr>))))"

text \<open>Aave's shares are the asset amount itself: the amount is passed through.\<close>

definition viem_previewDeposit ::
    "env \<Rightarrow> int \<Rightarrow> string \<Rightarrow> string \<Rightarrow> string \<Rightarrow> string \<Rightarrow> (string \<times> string) io" where
  "viem_previewDeposit x chainId assetAmount pool assetAddress aToken =
     andThen (viem_readReserveData x chainId pool assetAddress aToken ''ASSET'')
       (\<lambda>onChain. ret (assetAmount, rd_sharePrice onChain))"

definition viem_previewWithdraw ::
    "env \<Rightarrow> int \<Rightarrow> string \<Rightarrow> string \<Rightarrow> string \<Rightarrow> string \<Rightarrow> (string \<times> string) io" where
  "viem_previewWithdraw x chainId assetAmount pool assetAddress aToken =
     andThen (viem_readReserveData x chainId pool assetAddress aToken ''ASSET'')
       (\<lambda>onChain. ret (assetAmount, rd_sharePrice onChain))"

definition viem_readATokenBalance :: "env \<Rightarrow> int \<Rightarrow> string \<Rightarrow> string \<Rightarrow> int io" where
  "viem_readATokenBalance x chainId aToken walletAddress =
     andThen (lift (viem_getChainDefinition x chainId)) (\<lambda>_.
       extCall (\<lambda>n. e_balanceOf x n chainId aToken walletAddress))"

section \<open>AaveProvider\<close>

definition aave_resolveAssetDecimals :: "env \<Rightarrow> aave_vault_definition \<Rightarrow> nat res" where
  "aave_resolveAssetDecimals x vault =
     (case (case c_assets (e_config x) of
              None \<Rightarrow> None
            | Some assets \<Rightarrow> find (\<lambda>entry. as_chainId entry = av_chainId vault
                  \<and> toUpperCase (as_symbol entry) = toUpperCase (av_assetSymbol vault) \<and> as_isEnabled entry) assets) of
        None \<Rightarrow> Inl (PlainError (''Asset decimals not found for '' @ av_assetSymbol vault @ '' on chain ''
                  @ showInt (av_chainId vault)))
      | Some asset \<Rightarrow> Inr (as_decimals asset))"

definition aave_getConfig :: "env \<Rightarrow> aave_vault_definition list res" where
  "aave_getConfig x =
     (case c_aave (e_config x) of
        None \<Rightarrow> Inl (PlainError ''Aave configuration failed to load'')
      | Some c \<Rightarrow> Inr (aaveVaults c))"

definition aave_vaultSelected :: "get_vaults_input \<Rightarrow> aave_vault_definition \<Rightarrow> bool" where
  "aave_vaultSelected input vault =
     (if \<not> av_isEnabled vault then False
      else if gv_chainId input \<noteq> None \<and> Some (av_chainId vault) \<noteq> gv_chainId input then False
      else (case gv_assetSymbol input of
              None \<Rightarrow> True
            | Some wanted \<Rightarrow> wanted = [] \<or> toUpperCase (av_assetSymbol vault) = toUpperCase wanted))"

definition aave_getEnabledVaultDefinitions :: "env \<Rightarrow> get_vaults_input \<Rightarrow> aave_vault_definition list res" where
  "aave_getEnabledVaultDefinitions x input =
     (case aave_getConfig x of Inl e \<Rightarrow> Inl e | Inr vs \<Rightarrow> Inr (filter (aave_vaultSelected input) vs))"

definition aave_findVaultDefinition :: "env \<Rightarrow> string \<Rightarrow> int option \<Rightarrow> aave_vault_definition option res" where
  "aave_findVaultDefinition x vaultId chainId =
     (case aave_getConfig x of
        Inl e \<Rightarrow> Inl e
      | Inr vs \<Rightarrow> Inr (find (\<lambda>vault.
          if av_vaultId vault \<noteq> vaultId \<or> \<not> av_isEnabled vault then False
          else if chainId \<noteq> None \<and> Some (av_chainId vault) \<noteq> chainId then False
          else True) vs))"

definition aave_requireVaultDefinition :: "env \<Rightarrow> string \<Rightarrow> int option \<Rightarrow> aave_vault_definition res" where
  "aave_requireVaultDefinition x vaultId chainId =
     (case aave_findVaultDefinition x vaultId chainId of
        Inl e \<Rightarrow> Inl e
      | Inr None \<Rightarrow> Inl (notFound (''Vault not found: '' @ vaultId))
      | Inr (Some v) \<Rightarrow> Inr v)"

definition orElse :: "'a option \<Rightarrow> 'a \<Rightarrow> 'a" where
  "orElse v d = (case v of Some y \<Rightarrow> y | None \<Rightarrow> d)"

definition aave_buildVault :: "env \<Rightarrow> aave_vault_definition \<Rightarrow> protocol_vault io" where
  "aave_buildVault x vault =
     andThen (lift (aave_resolveAssetDecimals x vault)) (\<lambda>assetDecimals.
     andThen (viem_readReserveData x (av_chainId vault) (poolAddress vault) (av_assetAddress vault)
                (aTokenAddress vault) (av_assetSymbol vault)) (\<lambda>onChain.
     ret \<lparr>pv_vaultId = av_vaultId vault, pv_protocol = ''aave'', pv_chainId = av_chainId vault,
          pv_contractAddress = poolAddress vault, pv_shareTokenAddress = aTokenAddress vault,
          pv_name = rd_name onChain, pv_symbol = rd_symbol onChain, pv_assetSymbol = av_assetSymbol vault,
          pv_assetDecimals = assetDecimals, pv_assetAddress = av_assetAddress vault, pv_apy = rd_apy onChain,
          pv_tvl = rd_tvl onChain, pv_sharePrice = rd_sharePrice onChain,
          pv_totalSupply = showInt (rd_totalSupply onChain),
          pv_description = ''Supply '' @ av_assetSymbol vault @ '' to Aave V3 on chain '' @ showInt (av_chainId vault),
          pv_isEnabled = av_isEnabled vault,
          pv_depositEnabled = orElse (av_depositEnabled vault) (av_isEnabled vault),
          pv_withdrawEnabled = orElse (av_withdrawEnabled vault) (av_isEnabled vault),
          pv_riskLevel = orElse (av_riskLevel vault) Medium\<rparr>))"

definition aave_getVault :: "env \<Rightarrow> string \<Rightarrow> int option \<Rightarrow> protocol_vault io" where
  "aave_getVault x vaultId chainId =
     andThen (lift (aave_requireVaultDefinition x vaultId chainId)) (aave_buildVault x)"

definition aave_getVaults :: "env \<Rightarrow> get_vaults_input \<Rightarrow> protocol_vault list io" where
  "aave_getVaults x input =
     (if (case gv_protocol input of None \<Rightarrow> False | Some p \<Rightarrow> p \<noteq> [] \<and> p \<noteq> ''aave'') then ret []
      else andThen (lift (aave_getEnabledVaultDefinitions x input)) (mapAll (aave_buildVault x)))"

definition aave_preview ::
    "(env \<Rightarrow> int \<Rightarrow> string \<Rightarrow> string \<Rightarrow> string \<Rightarrow> string \<Rightarrow> (string \<times> string) io) \<Rightarrow>
     env \<Rightarrow> string \<Rightarrow> int \<Rightarrow> string \<Rightarrow> preview_result io" where
  "aave_preview viemPreview x vaultId chainId assetAmount =
     andThen (lift (aave_requireVaultDefinition x vaultId (Some chainId))) (\<lambda>vault.
     andThen (lift (aave_resolveAssetDecimals x vault)) (\<lambda>_.
     andThen (viemPreview x (av_chainId vault) assetAmount (poolAddress vault) (av_assetAddress vault)
                (aTokenAddress vault)) (\<lambda>(shares, sharePrice).
     ret \<lparr>pre_vaultId = av_vaultId vault, pre_chainId = av_chainId vault, pre_assetAmount = assetAmount,
          pre_shares = shares, pre_sharePrice = sharePrice\<rparr>)))"

definition aave_previewDeposit :: "env \<Rightarrow> string \<Rightarrow> int \<Rightarrow> string \<Rightarrow> preview_result io" where
  "aave_previewDeposit = aave_preview viem_previewDeposit"

definition aave_previewWithdraw :: "env \<Rightarrow> string \<Rightarrow> int \<Rightarrow> string \<Rightarrow> preview_result io" where
  "aave_previewWithdraw = aave_preview viem_previewWithdraw"

section \<open>The value of a position\<close>

text \<open>
  BigInt division truncates towards zero; the shares of a position and a share price are not
  negative, where this is \<open>div\<close>.  A share string that is no integer is a \<open>SyntaxError\<close>.
\<close>

definition computeCurrentValue :: "env \<Rightarrow> string \<Rightarrow> string \<Rightarrow> nat \<Rightarrow> nat \<Rightarrow> string res" where
  "computeCurrentValue x shares sharePrice assetDecimals shareDecimals =
     (if shares = ''0'' then Inr ''0''
      else (case bigIntOf shares of
              None \<Rightarrow> Inl (PlainError (''Cannot convert '' @ shares @ '' to a BigInt''))
            | Some sharesBn \<Rightarrow>
                if shareDecimals = assetDecimals
                then Inr (showInt (sharesBn * e_parseUnits x sharePrice 27 div ray))
                else Inr (showInt (sharesBn * e_parseUnits x sharePrice assetDecimals div 10 ^ shareDecimals))))"

lemmas viem_defs = viem_readTokenSymbol_def viem_readReserveData_def viem_previewDeposit_def
  viem_previewWithdraw_def viem_readATokenBalance_def

section \<open>The provider's contract\<close>

locale earn_protocol_provider =
  fixes getVault :: "string \<Rightarrow> int option \<Rightarrow> protocol_vault io"
  assumes reads_only: "ignoresOutside I \<Longrightarrow> preserves I (getVault vaultId chainId)"
    and asked_for: "getVault vaultId chainId s = (Inr v, s') \<Longrightarrow>
          pv_vaultId v = vaultId \<and> pv_isEnabled v \<and> (\<forall>c. chainId = Some c \<longrightarrow> pv_chainId v = c)"
begin

lemma same_tables:
  "positions (snd (getVault vaultId chainId s)) = positions s"
  "transactions (snd (getVault vaultId chainId s)) = transactions s"
  "vaults (snd (getVault vaultId chainId s)) = vaults s"
  "wallets (snd (getVault vaultId chainId s)) = wallets s"
  "nextId (snd (getVault vaultId chainId s)) = nextId s"
  by (rule preservesD [OF reads_only [where I = "\<lambda>t. f t = f s" for f]];
      simp add: ignoresOutside_def)+

end

lemma reserveData_reads_only: "ignoresOutside I \<Longrightarrow> preserves I (viem_readReserveData x c p a t sy)"
  unfolding viem_readReserveData_def viem_readTokenSymbol_def by (intro pres)

lemma buildVault_result:
  assumes "aave_buildVault x d s = (Inr v, s')"
  shows "pv_vaultId v = av_vaultId d \<and> pv_chainId v = av_chainId d \<and> pv_isEnabled v = av_isEnabled d"
  using assms
  by (auto simp: aave_buildVault_def andThen_def split: prod.splits sum.splits)

text \<open>A vault the provider answers with is one of the configuration, field by field.\<close>

lemma getVault_definition:
  assumes "aave_getVault x vaultId chainId s = (Inr v, s')"
  obtains cfg d where "c_aave (e_config x) = Some cfg"
    and "find (\<lambda>d. av_vaultId d = vaultId \<and> av_isEnabled d \<and> (chainId = None \<or> chainId = Some (av_chainId d))) (aaveVaults cfg) = Some d"
    and "av_isEnabled d" "pv_vaultId v = av_vaultId d" "pv_chainId v = av_chainId d" "pv_isEnabled v"
    and "pv_contractAddress v = poolAddress d" "pv_shareTokenAddress v = aTokenAddress d"
    and "pv_assetAddress v = av_assetAddress d"
    and "pv_depositEnabled v \<longleftrightarrow> av_depositEnabled d \<noteq> Some False"
    and "pv_withdrawEnabled v \<longleftrightarrow> av_withdrawEnabled d \<noteq> Some False"
proof -
  from assms obtain d where d: "aave_requireVaultDefinition x vaultId chainId = Inr d"
    and b: "aave_buildVault x d s = (Inr v, s')"
    by (auto simp: aave_getVault_def andThen_def split: prod.splits sum.splits)
  have sel: "(\<lambda>vault. if av_vaultId vault \<noteq> vaultId \<or> \<not> av_isEnabled vault then False
      else if chainId \<noteq> None \<and> Some (av_chainId vault) \<noteq> chainId then False else True)
    = (\<lambda>d. av_vaultId d = vaultId \<and> av_isEnabled d \<and> (chainId = None \<or> chainId = Some (av_chainId d)))"
    by (rule ext) auto
  from d obtain cfg where cfg: "c_aave (e_config x) = Some cfg"
    and f: "find (\<lambda>d. av_vaultId d = vaultId \<and> av_isEnabled d \<and> (chainId = None \<or> chainId = Some (av_chainId d))) (aaveVaults cfg) = Some d"
    unfolding aave_requireVaultDefinition_def aave_findVaultDefinition_def aave_getConfig_def sel
    by (auto split: sum.splits option.splits)
  from f have en: "av_isEnabled d" by (auto dest: find_Some_iff_first)
  from b en have "pv_vaultId v = av_vaultId d \<and> pv_chainId v = av_chainId d \<and> pv_isEnabled v
      \<and> pv_contractAddress v = poolAddress d \<and> pv_shareTokenAddress v = aTokenAddress d \<and> pv_assetAddress v = av_assetAddress d
      \<and> pv_depositEnabled v = orElse (av_depositEnabled d) True \<and> pv_withdrawEnabled v = orElse (av_withdrawEnabled d) True"
    by (auto simp: aave_buildVault_def andThen_def split: prod.splits sum.splits)
  moreover have "orElse b True \<longleftrightarrow> b \<noteq> Some False" for b by (cases b) (auto simp: orElse_def)
  ultimately show ?thesis using that [OF cfg f en] by simp
qed

interpretation aave: earn_protocol_provider "aave_getVault x" for x
proof unfold_locales
  show "preserves I (aave_getVault x vaultId chainId)" if "ignoresOutside I" for I vaultId chainId
    unfolding aave_getVault_def aave_buildVault_def
    by (intro pres reserveData_reads_only that)
next
  fix vaultId chainId s v s'
  assume "aave_getVault x vaultId chainId s = (Inr v, s')"
  then obtain d where d: "aave_requireVaultDefinition x vaultId chainId = Inr d"
    and "aave_buildVault x d s = (Inr v, s')"
    by (auto simp: aave_getVault_def andThen_def split: prod.splits sum.splits)
  then have "pv_vaultId v = av_vaultId d \<and> pv_chainId v = av_chainId d \<and> pv_isEnabled v = av_isEnabled d"
    by (auto dest: buildVault_result)
  moreover from d have "av_vaultId d = vaultId \<and> av_isEnabled d \<and> (\<forall>c. chainId = Some c \<longrightarrow> av_chainId d = c)"
    by (auto simp: aave_requireVaultDefinition_def aave_findVaultDefinition_def
          split: sum.splits option.splits if_splits dest!: find_Some_iff_first)
  ultimately show "pv_vaultId v = vaultId \<and> pv_isEnabled v \<and> (\<forall>c. chainId = Some c \<longrightarrow> pv_chainId v = c)"
    by simp
qed

lemma showInt_zero [simp]: "showInt 0 = ''0''"
  by code_simp

lemma showInt_is_zero: "showInt n = ''0'' \<longleftrightarrow> n = 0"
  using showInt_inj [of n 0] by auto

text \<open>What the share price is worth when printing and parsing it loses nothing.\<close>

lemma value_from_index:
  assumes "e_parseUnits x (e_formatUnits x index 27) 27 = index"
  shows "computeCurrentValue x (showInt n) (e_formatUnits x index 27) dec dec
       = Inr (showInt (n * index div ray))"
  using assms by (simp add: computeCurrentValue_def showInt_is_zero)

end
