(* ===== verification/Blockchain.thy ===== *)
theory Blockchain
  imports Protocols
begin

text \<open>
  \<^verbatim>\<open>src/earn/services/earn-blockchain.service.ts\<close> (\<open>bc_\<close>): balances, allowances, receipts
  and gas over JSON-RPC, and the call data of the transactions.  Creating a client only looks
  the chain up in the configuration; the requests are the remote calls of \<open>env\<close> and the ABI
  encoder is a parameter of it.  A receipt fetch is tried up to three times.
\<close>

definition maxUint256 :: int where
  "maxUint256 = 2 ^ 256 - 1"

definition bc_getBlockchainConfig :: "env \<Rightarrow> blockchain_config res" where
  "bc_getBlockchainConfig x =
     (case c_blockchain (e_config x) of
        None \<Rightarrow> Inl (PlainError ''Blockchain configuration failed to load'')
      | Some b \<Rightarrow> Inr b)"

definition bc_getChainDefinition :: "env \<Rightarrow> int \<Rightarrow> chain_definition res" where
  "bc_getChainDefinition x chainId =
     (case c_chains (e_config x) of
        None \<Rightarrow> Inl (PlainError ''Chains configuration failed to load'')
      | Some cs \<Rightarrow>
          (case find (\<lambda>entry. ch_chainId entry = chainId) cs of
             None \<Rightarrow> Inl (PlainError (''Unsupported chainId: '' @ showInt chainId))
           | Some c \<Rightarrow> Inr c))"

definition mainnetDisabled :: exn where
  "mainnetDisabled = forbidden ''Mainnet transactions are disabled. Set ALLOW_MAINNET_TRANSACTIONS=true to enable.''"

definition bc_assertMainnetTransactionsAllowed :: "env \<Rightarrow> int \<Rightarrow> unit io" where
  "bc_assertMainnetTransactionsAllowed x chainId =
     andThen (lift (bc_getChainDefinition x chainId)) (\<lambda>chain.
     andThen (lift (bc_getBlockchainConfig x)) (\<lambda>blockchain.
       require (isTestnet chain \<or> allowMainnetTransactions blockchain) mainnetDisabled))"

text \<open>A request over the client of a chain.\<close>

definition viaClient :: "env \<Rightarrow> int \<Rightarrow> (nat \<Rightarrow> 'a res) \<Rightarrow> 'a io" where
  "viaClient x chainId request = andThen (lift (bc_getChainDefinition x chainId)) (\<lambda>_. extCall request)"

definition bc_readErc20Allowance :: "env \<Rightarrow> int \<Rightarrow> string \<Rightarrow> string \<Rightarrow> string \<Rightarrow> int io" where
  "bc_readErc20Allowance x chainId ownerAddress assetAddress spenderAddress =
     viaClient x chainId (\<lambda>n. e_allowance x n chainId assetAddress ownerAddress spenderAddress)"

definition bc_readAssetBalance :: "env \<Rightarrow> int \<Rightarrow> string \<Rightarrow> string \<Rightarrow> int io" where
  "bc_readAssetBalance x chainId walletAddress assetAddress =
     viaClient x chainId (\<lambda>n.
       if assetAddress = ''native'' then e_getBalance x n chainId walletAddress
       else e_balanceOf x n chainId assetAddress walletAddress)"

definition bc_previewDepositShares :: "protocol_vault \<Rightarrow> int \<Rightarrow> int io" where
  "bc_previewDepositShares vault amount = ret amount"

definition bc_previewWithdrawShares :: "protocol_vault \<Rightarrow> int \<Rightarrow> int io" where
  "bc_previewWithdrawShares vault amount = ret amount"

definition bc_readVaultShareBalance :: "env \<Rightarrow> protocol_vault \<Rightarrow> string \<Rightarrow> int io" where
  "bc_readVaultShareBalance x vault walletAddress =
     viaClient x (pv_chainId vault) (\<lambda>n. e_balanceOf x n (pv_chainId vault) (pv_shareTokenAddress vault) walletAddress)"

definition bc_encodeVaultDeposit :: "env \<Rightarrow> protocol_vault \<Rightarrow> int \<Rightarrow> string \<Rightarrow> string res" where
  "bc_encodeVaultDeposit x vault amount receiverAddress =
     e_encode x (Supply (pv_assetAddress vault) amount receiverAddress 0)"

definition bc_encodeVaultWithdraw :: "env \<Rightarrow> protocol_vault \<Rightarrow> int \<Rightarrow> string \<Rightarrow> bool \<Rightarrow> string res" where
  "bc_encodeVaultWithdraw x vault amount receiverAddress fullWithdraw =
     e_encode x (WithdrawCall (pv_assetAddress vault) (if fullWithdraw then maxUint256 else amount) receiverAddress)"

definition bc_encodeErc20Approve :: "env \<Rightarrow> string \<Rightarrow> int \<Rightarrow> string res" where
  "bc_encodeErc20Approve x spenderAddress amount = e_encode x (Approve spenderAddress amount)"

definition bc_waitForTransactionReceipt :: "env \<Rightarrow> int \<Rightarrow> string \<Rightarrow> receipt io" where
  "bc_waitForTransactionReceipt x chainId txHash = viaClient x chainId (\<lambda>n. e_waitReceipt x n chainId txHash)"

definition bc_getTransactionReceipt :: "env \<Rightarrow> int \<Rightarrow> string \<Rightarrow> receipt io" where
  "bc_getTransactionReceipt x chainId txHash = viaClient x chainId (\<lambda>n. e_getReceipt x n chainId txHash)"

text \<open>The loop from attempt \<open>k\<close> with \<open>left\<close> attempts to go; a pause of \<open>k\<close> seconds between two.\<close>

fun receiptRetry :: "env \<Rightarrow> int \<Rightarrow> string \<Rightarrow> nat \<Rightarrow> nat \<Rightarrow> receipt io" where
  "receiptRetry x chainId txHash k 0 = throw (PlainError ''undefined'')"
| "receiptRetry x chainId txHash k (Suc left) =
     catching (bc_getTransactionReceipt x chainId txHash) (\<lambda>lastError.
       if left = 0 then throw lastError
       else andThen (sleep (k * 1000)) (\<lambda>_. receiptRetry x chainId txHash (Suc k) left))"

definition bc_getTransactionReceiptWithRetry :: "env \<Rightarrow> int \<Rightarrow> string \<Rightarrow> receipt io" where
  "bc_getTransactionReceiptWithRetry x chainId txHash = receiptRetry x chainId txHash 1 3"

record deposit_preview_data =
  dp_walletBalance :: int
  dp_allowance :: int
  dp_requiresApproval :: bool
  dp_estimatedGas :: int
  dp_estimatedShares :: int

definition bc_fetchDepositPreviewData :: "env \<Rightarrow> protocol_vault \<Rightarrow> string \<Rightarrow> int \<Rightarrow> deposit_preview_data io" where
  "bc_fetchDepositPreviewData x vault walletAddress amount =
     (let chainId = pv_chainId vault;
          pool = pv_contractAddress vault;
          asset = pv_assetAddress vault;
          isNativeAsset = (asset = ''native'')
      in andThen (lift (bc_getChainDefinition x chainId)) (\<lambda>_.
         andThen (extCall (\<lambda>n. if isNativeAsset then e_getBalance x n chainId walletAddress
                               else e_balanceOf x n chainId asset walletAddress)) (\<lambda>walletBalance.
         andThen (if isNativeAsset then ret 0
                  else extCall (\<lambda>n. e_allowance x n chainId asset walletAddress pool)) (\<lambda>allowance.
         andThen (bc_previewDepositShares vault amount) (\<lambda>estimatedShares.
         let requiresApproval = (\<not> isNativeAsset \<and> allowance < amount);
             hasSufficientBalance = (walletBalance \<ge> amount)
         in andThen (if hasSufficientBalance \<and> requiresApproval
                     then andThen (lift (e_encode x (Approve pool amount))) (\<lambda>d.
                            extCall (\<lambda>n. e_estimateGas x n chainId walletAddress asset d))
                     else if hasSufficientBalance \<and> \<not> requiresApproval
                     then andThen (lift (bc_encodeVaultDeposit x vault amount walletAddress)) (\<lambda>d.
                            extCall (\<lambda>n. e_estimateGas x n chainId walletAddress pool d))
                     else ret 0) (\<lambda>estimatedGas.
            ret \<lparr>dp_walletBalance = walletBalance, dp_allowance = allowance,
                 dp_requiresApproval = requiresApproval, dp_estimatedGas = estimatedGas,
                 dp_estimatedShares = estimatedShares\<rparr>))))))"

lemmas bc_reads = bc_readErc20Allowance_def bc_readAssetBalance_def bc_readVaultShareBalance_def
  bc_waitForTransactionReceipt_def bc_getTransactionReceipt_def

section \<open>Facts\<close>

lemma preserves_viaClient [pres]: "ignoresOutside I \<Longrightarrow> preserves I (viaClient x c r)"
  unfolding viaClient_def by (intro pres)

lemma preserves_bc [pres]:
  assumes "ignoresOutside I"
  shows "preserves I (bc_readErc20Allowance x c o' a sp)" "preserves I (bc_readAssetBalance x c w a)"
    "preserves I (bc_readVaultShareBalance x v w)" "preserves I (bc_waitForTransactionReceipt x c h)"
    "preserves I (bc_getTransactionReceipt x c h)"
  unfolding bc_reads by (intro pres assms)+

lemma preserves_preview_shares [pres]:
  "preserves I (bc_previewDepositShares v n)" "preserves I (bc_previewWithdrawShares v n)"
  unfolding bc_previewDepositShares_def bc_previewWithdrawShares_def by (intro pres)+

lemma preserves_receiptRetry [pres]: "ignoresOutside I \<Longrightarrow> preserves I (receiptRetry x c h k left)"
proof (induction left arbitrary: k)
  case (Suc left)
  then show ?case unfolding receiptRetry.simps by (intro pres) auto
qed (simp add: pres)

lemma preserves_receiptWithRetry [pres]:
  "ignoresOutside I \<Longrightarrow> preserves I (bc_getTransactionReceiptWithRetry x c h)"
  unfolding bc_getTransactionReceiptWithRetry_def by (rule preserves_receiptRetry)

lemma preview_shares_run [simp]:
  "bc_previewDepositShares v n s = (Inr n, s)" "bc_previewWithdrawShares v n s = (Inr n, s)"
  by (simp_all add: bc_previewDepositShares_def bc_previewWithdrawShares_def)

text \<open>Up to three fetches, and the first one that answers is the result.\<close>

lemma receiptRetry_calls:
  "calls (snd (receiptRetry x c h k left s)) \<le> calls s + left"
proof (induction left arbitrary: k s)
  case 0
  show ?case by simp
next
  case (Suc left)
  show ?case
  proof (cases "bc_getTransactionReceipt x c h s")
    case (Pair r s1)
    then have c1: "calls s1 \<le> calls s + 1"
      by (auto simp: bc_getTransactionReceipt_def viaClient_def andThen_def extCall_def split: sum.splits prod.splits)
    then show ?thesis
      using Pair Suc.IH [of "Suc k" "s1\<lparr>now := now s1 + k * 1000\<rparr>"]
      by (auto simp: catching_def andThen_def sleep_def split: sum.splits)
  qed
qed

end
