(* ===== verification/Reconcile.thy ===== *)
theory Reconcile
  imports Ledger RedisLocks Blockchain
begin

text \<open>
  \<^verbatim>\<open>src/reconciliation\<close>: the job that settles what a request handler left open.
  \<open>reconcilePendingTransactions\<close> takes the lock, fails the transactions that stayed
  \<open>CREATED\<close> for ten minutes, looks up the receipt of every submitted one and confirms or reverts
  it, and gives the lock back.  \<open>rec_\<close> are the private methods of
  \<^verbatim>\<open>transaction-reconciliation.service.ts\<close>.

  The facts: the job keeps the tables' invariants whatever the chain answers; a transaction that
  is no longer submitted is left alone, so a deposit or withdrawal is applied once however often
  it is confirmed; a first deposit and a withdrawal keep the ledger.  A further deposit does not
  (\<open>rec_topup_lost\<close>): it is confirmed and the position keeps its old amounts.
\<close>

section \<open>The service\<close>

record reconciliation_summary =
  rs_scanned :: nat
  rs_confirmed :: nat
  rs_reverted :: nat
  rs_failed :: nat
  rs_pending :: nat

definition emptySummary :: reconciliation_summary where
  "emptySummary = \<lparr>rs_scanned = 0, rs_confirmed = 0, rs_reverted = 0, rs_failed = 0, rs_pending = 0\<rparr>"

datatype reconciliation_outcome = OutConfirmed | OutReverted | OutPending

definition staleCreatedMinutes :: nat where
  "staleCreatedMinutes = 10"

fun typeName :: "transaction_type \<Rightarrow> string" where
  "typeName APPROVAL = ''APPROVAL''"
| "typeName DEPOSIT = ''DEPOSIT''"
| "typeName WITHDRAW = ''WITHDRAW''"
| "typeName YIELD_CLAIM = ''YIELD_CLAIM''"
| "typeName REBALANCE = ''REBALANCE''"

definition readMetadataString :: "transaction_record \<Rightarrow> string \<Rightarrow> string" where
  "readMetadataString r field = metadataString (tr_metadata r) field"

definition readEstimatedShares :: "transaction_record \<Rightarrow> string" where
  "readEstimatedShares r = readMetadataString r ''estimatedShares''"

definition confirmedAction :: "transaction_type \<Rightarrow> audit_action option" where
  "confirmedAction ty = (case ty of APPROVAL \<Rightarrow> Some APPROVAL_CONFIRMED | DEPOSIT \<Rightarrow> Some DEPOSIT_CONFIRMED
                          | WITHDRAW \<Rightarrow> Some WITHDRAW_CONFIRMED | _ \<Rightarrow> None)"

definition rec_logConfirmedAudit :: "env \<Rightarrow> transaction_record \<Rightarrow> uuid \<Rightarrow> string option \<Rightarrow> unit io" where
  "rec_logConfirmedAudit x r transactionId txHash =
     (case confirmedAction (tr_type r) of
        None \<Rightarrow> ret ()
      | Some action \<Rightarrow>
          auditLog x \<lparr>al_userId = Some (tr_userId r), al_action = action, al_entityType = ''transaction'',
            al_entityId = transactionId,
            al_metadata = Some [(''txHash'', case txHash of Some h \<Rightarrow> JStr h | None \<Rightarrow> JNull),
              (''reconciled'', JBool True), (''type'', JStr (typeName (tr_type r)))]\<rparr>)"

text \<open>The body of the database transaction of \<open>confirmDepositTransaction\<close>.\<close>

definition rec_confirmDepositBody :: "transaction_record \<Rightarrow> int \<Rightarrow> int \<Rightarrow> unit io" where
  "rec_confirmDepositBody r blockNumber gasUsed =
     (let estimatedShares = readEstimatedShares r;
          depositAmounts = \<lparr>ap_depositedAmount = tr_amount r, ap_currentAmount = tr_amount r, ap_shares = estimatedShares\<rparr>
      in andThen (tx_confirmSubmitted (tr_transactionId r) blockNumber
                    (Some [(''gasUsed'', JStr (showInt gasUsed)), (''estimatedShares'', JStr estimatedShares),
                           (''reconciled'', JBool True)])) (\<lambda>(applied, _).
         (case tr_positionId r of
            None \<Rightarrow> ret ()
          | Some positionId \<Rightarrow>
              if \<not> applied then ret ()
              else andThen (pos_findById positionId) (\<lambda>found.
                   (case found of
                      None \<Rightarrow> ret ()
                    | Some p \<Rightarrow>
                        if pr_status p \<noteq> P_PENDING then ret ()
                        else andThen (pos_activate (pr_positionId p) depositAmounts) (\<lambda>_. ret ()))))))"

definition rec_confirmDepositTransaction :: "transaction_record \<Rightarrow> int \<Rightarrow> int \<Rightarrow> unit io" where
  "rec_confirmDepositTransaction r blockNumber gasUsed = atomically (rec_confirmDepositBody r blockNumber gasUsed)"

definition rec_confirmWithdrawBody :: "transaction_record \<Rightarrow> int \<Rightarrow> int \<Rightarrow> unit io" where
  "rec_confirmWithdrawBody r blockNumber gasUsed =
     (let sharesBurned = readMetadataString r ''sharesBurned''
      in andThen (tx_confirmSubmitted (tr_transactionId r) blockNumber
                    (Some [(''gasUsed'', JStr (showInt gasUsed)), (''sharesBurned'', JStr sharesBurned),
                           (''reconciled'', JBool True)])) (\<lambda>(applied, _).
         (case tr_positionId r of
            None \<Rightarrow> ret ()
          | Some positionId \<Rightarrow>
              if \<not> applied then ret ()
              else andThen (pos_findById positionId) (\<lambda>found.
                   (case found of
                      None \<Rightarrow> ret ()
                    | Some p \<Rightarrow>
                        if pr_status p \<noteq> P_WITHDRAWING then ret ()
                        else andThen (pos_subtractWithdraw positionId
                               \<lparr>wp_withdrawnAmount = tr_amount r, wp_shares = sharesBurned\<rparr>) (\<lambda>_. ret ()))))))"

definition rec_confirmWithdrawTransaction :: "transaction_record \<Rightarrow> int \<Rightarrow> int \<Rightarrow> unit io" where
  "rec_confirmWithdrawTransaction r blockNumber gasUsed = atomically (rec_confirmWithdrawBody r blockNumber gasUsed)"

definition rec_handleConfirmedTransaction :: "env \<Rightarrow> transaction_record \<Rightarrow> int \<Rightarrow> int \<Rightarrow> unit io" where
  "rec_handleConfirmedTransaction x r blockNumber gasUsed =
     (if tr_type r = DEPOSIT then rec_confirmDepositTransaction r blockNumber gasUsed
      else if tr_type r = WITHDRAW then rec_confirmWithdrawTransaction r blockNumber gasUsed
      else andThen (tx_confirmSubmitted (tr_transactionId r) blockNumber
                      (Some [(''gasUsed'', JStr (showInt gasUsed)), (''reconciled'', JBool True)])) (\<lambda>(applied, confirmed).
           if \<not> applied then ret ()
           else rec_logConfirmedAudit x r (tr_transactionId confirmed) (tr_txHash confirmed)))"

definition rec_revertBody :: "transaction_record \<Rightarrow> int \<Rightarrow> int \<Rightarrow> unit io" where
  "rec_revertBody r blockNumber gasUsed =
     andThen (tx_markReverted (tr_transactionId r) blockNumber
                (Some [(''gasUsed'', JStr (showInt gasUsed)), (''reconciled'', JBool True)])) (\<lambda>_.
     (case tr_positionId r of
        None \<Rightarrow> ret ()
      | Some positionId \<Rightarrow>
          andThen (pos_findById positionId) (\<lambda>found.
          (case found of
             None \<Rightarrow> ret ()
           | Some p \<Rightarrow>
               if tr_type r = DEPOSIT \<and> pr_status p = P_PENDING
               then andThen (pos_markFailed (pr_positionId p)) (\<lambda>_. ret ())
               else whenE (tr_type r = WITHDRAW \<and> pr_status p = P_WITHDRAWING)
                      (andThen (pos_markActive (pr_positionId p)) (\<lambda>_. ret ()))))))"

definition rec_handleRevertedTransaction :: "transaction_record \<Rightarrow> int \<Rightarrow> int \<Rightarrow> unit io" where
  "rec_handleRevertedTransaction r blockNumber gasUsed = atomically (rec_revertBody r blockNumber gasUsed)"

definition rec_reconcileTransaction :: "env \<Rightarrow> transaction_record \<Rightarrow> reconciliation_outcome io" where
  "rec_reconcileTransaction x r =
     (case tr_txHash r of
        None \<Rightarrow> ret OutPending
      | Some txHash \<Rightarrow>
          if txHash = [] then ret OutPending
          else andThen (bc_getTransactionReceiptWithRetry x (tr_chainId r) txHash) (\<lambda>receipt.
               if rc_status receipt = Success
               then andThen (rec_handleConfirmedTransaction x r (rc_blockNumber receipt) (rc_gasUsed receipt))
                      (\<lambda>_. ret OutConfirmed)
               else andThen (rec_handleRevertedTransaction r (rc_blockNumber receipt) (rc_gasUsed receipt))
                      (\<lambda>_. ret OutReverted)))"

text \<open>The two loops, with the summary they count in.\<close>

fun rec_staleLoop :: "reconciliation_summary \<Rightarrow> transaction_record list \<Rightarrow> reconciliation_summary io" where
  "rec_staleLoop summary [] = ret summary"
| "rec_staleLoop summary (r # rs) =
     andThen (tx_markFailed (tr_transactionId r) (Some [(''reason'', JStr ''STALE_CREATED_TRANSACTION'')])) (\<lambda>_.
     andThen (case tr_positionId r of
                None \<Rightarrow> ret ()
              | Some positionId \<Rightarrow>
                  whenE (tr_type r = DEPOSIT)
                    (andThen (pos_findById positionId) (\<lambda>found.
                     (case found of
                        None \<Rightarrow> ret ()
                      | Some p \<Rightarrow> whenE (pr_status p = P_PENDING)
                                   (andThen (pos_markFailed (pr_positionId p)) (\<lambda>_. ret ())))))) (\<lambda>_.
       rec_staleLoop (summary\<lparr>rs_scanned := rs_scanned summary + 1, rs_failed := rs_failed summary + 1\<rparr>) rs))"

definition rec_reconcileStaleCreated :: "reconciliation_summary \<Rightarrow> reconciliation_summary io" where
  "rec_reconcileStaleCreated summary =
     andThen (gets (\<lambda>s. now s - staleCreatedMinutes * 60000)) (\<lambda>olderThan.
     andThen (tx_findStaleCreated olderThan 50) (rec_staleLoop summary))"

definition countOutcome :: "reconciliation_outcome \<Rightarrow> reconciliation_summary \<Rightarrow> reconciliation_summary" where
  "countOutcome outcome summary =
     (case outcome of
        OutConfirmed \<Rightarrow> summary\<lparr>rs_confirmed := rs_confirmed summary + 1\<rparr>
      | OutReverted \<Rightarrow> summary\<lparr>rs_reverted := rs_reverted summary + 1\<rparr>
      | OutPending \<Rightarrow> summary\<lparr>rs_pending := rs_pending summary + 1\<rparr>)"

text \<open>An error of one transaction is logged and the loop goes on.\<close>

fun rec_pendingLoop :: "env \<Rightarrow> reconciliation_summary \<Rightarrow> transaction_record list \<Rightarrow> reconciliation_summary io" where
  "rec_pendingLoop x summary [] = ret summary"
| "rec_pendingLoop x summary (r # rs) =
     (let scanned = summary\<lparr>rs_scanned := rs_scanned summary + 1\<rparr>
      in andThen (catching (andThen (rec_reconcileTransaction x r) (\<lambda>outcome. ret (countOutcome outcome scanned)))
                    (\<lambda>_. ret scanned)) (\<lambda>summary'.
         rec_pendingLoop x summary' rs))"

definition rec_runReconciliation :: "env \<Rightarrow> reconciliation_summary io" where
  "rec_runReconciliation x =
     andThen (rec_reconcileStaleCreated emptySummary) (\<lambda>summary.
     andThen (tx_findPendingReconciliation 100) (rec_pendingLoop x summary))"

definition reconcilePendingTransactions :: "env \<Rightarrow> string \<Rightarrow> reconciliation_summary io" where
  "reconcilePendingTransactions x jobId =
     andThen (lockAcquire x jobId) (\<lambda>acquired.
       if \<not> acquired then ret emptySummary
       else finallyDo (rec_runReconciliation x) (lockRelease x jobId))"

text \<open>The worker's job handler; a job without an id runs as \<open>unknown\<close>.\<close>

definition reconciliationJob :: string where
  "reconciliationJob = ''TransactionReconciliationJob''"

definition processJob :: "env \<Rightarrow> string \<Rightarrow> string option \<Rightarrow> unit io" where
  "processJob x jobName jobId =
     whenE (jobName = reconciliationJob)
       (andThen (reconcilePendingTransactions x (case jobId of Some j \<Rightarrow> j | None \<Rightarrow> ''unknown'')) (\<lambda>_. ret ()))"

text \<open>The worker's wait before attempt \<open>n + 1\<close>, in milliseconds.\<close>

definition backoffStrategy :: "nat \<Rightarrow> nat" where
  "backoffStrategy attemptsMade = min (attemptsMade * 2000) 30000"

lemmas rec_bodies = rec_confirmDepositTransaction_def rec_confirmWithdrawTransaction_def
  rec_handleRevertedTransaction_def rec_confirmDepositBody_def rec_confirmWithdrawBody_def rec_revertBody_def

section \<open>The invariants\<close>

text \<open>A record of a good row: its amount is a number, and its shares are the same number.\<close>

definition goodRecord :: "transaction_record \<Rightarrow> bool" where
  "goodRecord r \<longleftrightarrow> (\<exists>n \<ge> 0. bigIntOf (tr_amount r) = Some n \<and> metadataGood (tr_type r) n (tr_metadata r))"

lemma goodRecord_of_row:
  "goodTransaction t \<Longrightarrow> isOpen (t_status t) \<Longrightarrow> goodRecord (toTransactionRecord slug t)"
  by (auto simp: goodRecord_def goodTransaction_def toTransactionRecord_def)

lemma findPending_good:
  assumes "dbInv s" and "tx_findPendingReconciliation lim s = (Inr rs, s')" and "r \<in> set rs"
  shows "goodRecord r"
  using assms
  by (auto simp: tx_findPendingReconciliation_def txRepo_findPendingReconciliation_def dbInv_def txInv_def isOpen_def
      intro!: goodRecord_of_row dest!: in_set_takeD)

lemma depositAmounts_same:
  assumes "goodRecord r" and "tr_type r = DEPOSIT"
  obtains n where "0 \<le> n" and "sameAmounts \<lparr>ap_depositedAmount = tr_amount r, ap_currentAmount = tr_amount r,
      ap_shares = readEstimatedShares r\<rparr> n"
  using assms by (auto simp: goodRecord_def sameAmounts_def readEstimatedShares_def readMetadataString_def metadataGood_def)

lemma withdrawAmounts_same:
  assumes "goodRecord r" and "tr_type r = WITHDRAW"
  obtains n where "0 \<le> n" and "bigIntOf (tr_amount r) = Some n" and "bigIntOf (readMetadataString r ''sharesBurned'') = Some n"
  using assms by (auto simp: goodRecord_def readMetadataString_def metadataGood_def)

lemma rec_confirm_dbInv:
  assumes good: "goodRecord r"
  shows "tr_type r = DEPOSIT \<Longrightarrow> preserves dbInv (rec_confirmDepositTransaction r b g)"
    and "tr_type r = WITHDRAW \<Longrightarrow> preserves dbInv (rec_confirmWithdrawTransaction r b g)"
proof -
  assume "tr_type r = DEPOSIT"
  then obtain n where n: "0 \<le> n" "sameAmounts \<lparr>ap_depositedAmount = tr_amount r, ap_currentAmount = tr_amount r,
      ap_shares = readEstimatedShares r\<rparr> n" using depositAmounts_same [OF good] by blast
  show "preserves dbInv (rec_confirmDepositTransaction r b g)"
    unfolding rec_bodies Let_def by (intro pres dbInv_pos_amounts(1) [OF n(2,1)])
next
  assume "tr_type r = WITHDRAW"
  then obtain n where n: "0 \<le> n" "bigIntOf (tr_amount r) = Some n" "bigIntOf (readMetadataString r ''sharesBurned'') = Some n"
    using withdrawAmounts_same [OF good] by blast
  show "preserves dbInv (rec_confirmWithdrawTransaction r b g)"
    unfolding rec_bodies Let_def
    by (intro pres dbInv_pos_amounts(3)) (use n in auto)
qed

lemma rec_reconcileTransaction_dbInv:
  assumes "goodRecord r"
  shows "preserves dbInv (rec_reconcileTransaction x r)"
  unfolding rec_reconcileTransaction_def rec_handleConfirmedTransaction_def rec_handleRevertedTransaction_def
    rec_revertBody_def rec_logConfirmedAudit_def
  by (intro pres rec_confirm_dbInv assms) simp_all

lemma rec_pendingLoop_dbInv:
  "(\<And>r. r \<in> set rs \<Longrightarrow> goodRecord r) \<Longrightarrow> preserves dbInv (rec_pendingLoop x summary rs)"
proof (induction rs arbitrary: summary)
  case (Cons r rs)
  show ?case unfolding rec_pendingLoop.simps Let_def
    by (intro pres rec_reconcileTransaction_dbInv Cons.IH) (use Cons.prems in auto)
qed (simp add: pres)

lemma rec_staleLoop_dbInv: "preserves dbInv (rec_staleLoop summary rs)"
proof (induction rs arbitrary: summary)
  case (Cons r rs)
  show ?case unfolding rec_staleLoop.simps by (intro pres Cons.IH)
qed (simp add: pres)

lemma ignoresRedis_dbInv [simp]: "ignoresRedis dbInv"
  by (simp add: ignoresRedis_def, simp add: dbInv_def posInv_def txInv_def)

text \<open>The whole job, whatever Redis and the chain answer.\<close>

lemma reconcile_keeps_dbInv: "preserves dbInv (reconcilePendingTransactions x jobId)"
proof -
  have loop: "preserves dbInv (andThen (tx_findPendingReconciliation 100) (rec_pendingLoop x summary))" for summary
    by (rule preserves_andThen_ret) (auto intro!: pres_reads rec_pendingLoop_dbInv dest: findPending_good)
  show ?thesis
    unfolding reconcilePendingTransactions_def rec_runReconciliation_def rec_reconcileStaleCreated_def
    by (intro pres loop rec_staleLoop_dbInv) simp_all
qed

section \<open>Once\<close>

text \<open>A row that is no longer submitted: nothing is written, whichever receipt it has.\<close>

lemma rec_confirm_settled:
  assumes "find (\<lambda>t. t_id t = tr_transactionId r) (transactions s) = Some t" and "t_status t \<noteq> T_SUBMITTED"
  shows "rec_handleConfirmedTransaction x r b g s = (Inr (), s)"
  using assms
  by (auto simp: rec_handleConfirmedTransaction_def rec_bodies tx_confirmSubmitted_def confirmSubmitted_not_twice
      andThen_Inr eff_simps Let_def split: option.split)

definition settled :: "uuid \<Rightarrow> world \<Rightarrow> bool" where
  "settled i s \<longleftrightarrow> (\<exists>t. find (\<lambda>t. t_id t = i) (transactions s) = Some t \<and> t_status t \<noteq> T_SUBMITTED)"

lemma settled_frame: "transactions s' = transactions s \<Longrightarrow> settled i s' = settled i s"
  by (simp add: settled_def)

lemma ignoresOutside_settled [simp]: "ignoresOutside (settled i)"
  by (simp add: ignoresOutside_def settled_def)

lemma settled_positions [pres]:
  "preserves (settled i) (pos_activate j d)" "preserves (settled i) (pos_subtractWithdraw j w)"
  "preserves (settled i) (pos_markFailed j)" "preserves (settled i) (pos_markActive j)"
  by (rule preserves_frame, rule settled_frame, simp add: pos_ops)+

lemma confirm_settles:
  assumes "tx_confirmSubmitted i b m s = (Inr c, s')"
  shows "settled i s'"
proof -
  from assms obtain a t' where run: "txRepo_confirmSubmitted i b m s = (Inr (a, t'), s')"
    by (auto simp: tx_confirmSubmitted_def elim!: andThen_InrE)
  show ?thesis
  proof (cases a)
    case True
    with confirmSubmitted_applied run show ?thesis by (force simp: settled_def)
  next
    case False
    with run show ?thesis
      by (auto simp: txRepo_confirmSubmitted_def settled_def split: option.splits if_splits prod.splits sum.splits)
  qed
qed

lemma settled_after_confirm:
  assumes "andThen (tx_confirmSubmitted i b m) f s = (Inr y, s')" and "\<And>c. preserves (settled i) (f c)"
  shows "settled i s'"
  using assms(1) by (rule andThen_InrE) (blast dest: confirm_settles preserves_run [OF assms(2)])

lemma atomically_InrD: "atomically m s = (Inr x, s') \<Longrightarrow> m s = (Inr x, s')"
  by (auto simp: atomically_def split: prod.splits sum.splits)

text \<open>So a second confirmation of the same record does nothing.\<close>

lemma rec_confirmed_settled:
  assumes run: "rec_handleConfirmedTransaction x r b g s = (Inr (), s')"
  shows "settled (tr_transactionId r) s'"
proof (cases "tr_type r = DEPOSIT \<or> tr_type r = WITHDRAW")
  case True
  then have "rec_confirmDepositBody r b g s = (Inr (), s') \<or> rec_confirmWithdrawBody r b g s = (Inr (), s')"
    using run by (auto simp: rec_handleConfirmedTransaction_def rec_confirmDepositTransaction_def
        rec_confirmWithdrawTransaction_def dest: atomically_InrD)
  then show ?thesis
  proof
    assume "rec_confirmDepositBody r b g s = (Inr (), s')"
    then show ?thesis unfolding rec_confirmDepositBody_def Let_def
      by (rule settled_after_confirm) (intro pres)
  next
    assume "rec_confirmWithdrawBody r b g s = (Inr (), s')"
    then show ?thesis unfolding rec_confirmWithdrawBody_def Let_def
      by (rule settled_after_confirm) (intro pres)
  qed
next
  case False
  with run show ?thesis unfolding rec_handleConfirmedTransaction_def rec_logConfirmedAudit_def
    by (simp, elim settled_after_confirm) (intro pres, simp_all)
qed

lemma rec_confirm_once:
  assumes "rec_handleConfirmedTransaction x r b g s = (Inr (), s')"
  shows "rec_handleConfirmedTransaction x r b' g' s' = (Inr (), s')"
  using rec_confirmed_settled [OF assms] unfolding settled_def by (blast intro: rec_confirm_settled)

section \<open>The ledger\<close>

lemma confirm_start:
  assumes w: "working sk S i ty n (Some pid) K True s"
  shows "\<exists>c s1. tx_confirmSubmitted i b m s = (Inr (True, c), s1) \<and> positions s1 = positions s
     \<and> lagging sk S pid (signed ty n) s1"
  using confirm_run [OF w, of pid b m]
  by (auto simp: tx_confirmSubmitted_def eff_simps)

text \<open>The position the transaction is for, as its status and shares say.\<close>

definition positionIs :: "uuid \<Rightarrow> (position_status \<Rightarrow> int \<Rightarrow> bool) \<Rightarrow> world \<Rightarrow> bool" where
  "positionIs pid Q s \<longleftrightarrow> (\<exists>p. find (\<lambda>p. p_id p = pid) (positions s) = Some p \<and> Q (p_status p) (p_shares p))"

lemma positionIs_find:
  "positionIs pid Q s \<Longrightarrow> \<exists>p. pos_findById pid s = (Inr (Some (toPositionRecord p)), s) \<and> p_id p = pid
     \<and> find (\<lambda>p. p_id p = pid) (positions s) = Some p \<and> Q (p_status p) (p_shares p)"
  by (auto simp: positionIs_def pos_findById_def posRepo_findById_def dest: find_Some_iff_first)

lemma triple_atomic_body:
  assumes "\<And>s y s'. P s \<Longrightarrow> m s = (Inr y, s') \<Longrightarrow> Q y s'"
  shows "triple P (atomically m) Q (\<lambda>_. P)"
  by (rule triple_atomically, rule tripleI) (use assms in auto)

text \<open>A first deposit (the position is pending and holds nothing) is applied to the position.\<close>

lemma rec_first_deposit:
  assumes good: "bigIntOf (tr_amount r) = Some n" "0 \<le> n" "metadataGood DEPOSIT n (tr_metadata r)"
    and r: "tr_type r = DEPOSIT" "tr_positionId r = Some pid"
  shows "triple (\<lambda>s. working sk S (tr_transactionId r) DEPOSIT n (Some pid) (\<lambda>_. True) True s
             \<and> positionIs pid (\<lambda>st sh. st = P_PENDING \<and> sh = 0) s)
           (rec_handleConfirmedTransaction x r b g) (\<lambda>_. base sk S)
           (\<lambda>_ s. working sk S (tr_transactionId r) DEPOSIT n (Some pid) (\<lambda>_. True) True s
             \<and> positionIs pid (\<lambda>st sh. st = P_PENDING \<and> sh = 0) s)"
proof -
  let ?d = "\<lparr>ap_depositedAmount = tr_amount r, ap_currentAmount = tr_amount r, ap_shares = readEstimatedShares r\<rparr>"
  have same: "sameAmounts ?d n" using good
    by (simp add: sameAmounts_def readEstimatedShares_def readMetadataString_def metadataGood_def)
  show ?thesis
    unfolding rec_handleConfirmedTransaction_def rec_confirmDepositTransaction_def r if_True simp_thms
  proof (rule triple_atomic_body, elim conjE)
    fix s y s'
    assume "working sk S (tr_transactionId r) DEPOSIT n (Some pid) (\<lambda>_. True) True s"
      and pos: "positionIs pid (\<lambda>st sh. st = P_PENDING \<and> sh = 0) s"
      and run: "rec_confirmDepositBody r b g s = (Inr y, s')"
    from confirm_start [OF this(1), of b "Some [(''gasUsed'', JStr (showInt g)), (''estimatedShares'', JStr (readEstimatedShares r)), (''reconciled'', JBool True)]"]
    obtain c s1 where conf: "tx_confirmSubmitted (tr_transactionId r) b (Some [(''gasUsed'', JStr (showInt g)),
        (''estimatedShares'', JStr (readEstimatedShares r)), (''reconciled'', JBool True)]) s = (Inr (True, c), s1)"
      and s1: "positions s1 = positions s" "lagging sk S pid n s1" by auto
    from pos s1 have "positionIs pid (\<lambda>st sh. st = P_PENDING \<and> sh = 0) s1" by (simp add: positionIs_def)
    from positionIs_find [OF this] obtain p where p: "pos_findById pid s1 = (Inr (Some (toPositionRecord p)), s1)"
      "p_id p = pid" "find (\<lambda>p. p_id p = pid) (positions s1) = Some p" "p_status p = P_PENDING" "p_shares p = 0" by blast
    have "andThen (pos_activate pid ?d) (\<lambda>_. ret ()) s1 = (Inr y, s')"
      using run p r conf by (simp add: rec_confirmDepositBody_def Let_def andThen_def toPositionRecord_def)
    then obtain q where "pos_activate pid ?d s1 = (Inr q, s')" by (auto elim!: andThen_InrE)
    then show "base sk S s'" using triple_Inr [OF catch_up_activate [OF same good(2)]] s1 p by blast
  qed
qed

text \<open>A withdrawal of what the position holds, while it is being withdrawn from.\<close>

lemma rec_withdrawal:
  assumes good: "bigIntOf (tr_amount r) = Some n" "0 \<le> n" "metadataGood WITHDRAW n (tr_metadata r)"
    and r: "tr_type r = WITHDRAW" "tr_positionId r = Some pid"
  shows "triple (\<lambda>s. working sk S (tr_transactionId r) WITHDRAW n (Some pid) (\<lambda>_. True) True s
             \<and> positionIs pid (\<lambda>st sh. st = P_WITHDRAWING \<and> n \<le> sh) s)
           (rec_handleConfirmedTransaction x r b g) (\<lambda>_. base sk S)
           (\<lambda>_ s. working sk S (tr_transactionId r) WITHDRAW n (Some pid) (\<lambda>_. True) True s
             \<and> positionIs pid (\<lambda>st sh. st = P_WITHDRAWING \<and> n \<le> sh) s)"
proof -
  let ?d = "\<lparr>wp_withdrawnAmount = tr_amount r, wp_shares = readMetadataString r ''sharesBurned''\<rparr>"
  have same: "bigIntOf (wp_withdrawnAmount ?d) = Some n" "bigIntOf (wp_shares ?d) = Some n" using good
    by (simp_all add: readMetadataString_def metadataGood_def)
  have handle: "rec_handleConfirmedTransaction x r b g = atomically (rec_confirmWithdrawBody r b g)"
    using r by (simp add: rec_handleConfirmedTransaction_def rec_confirmWithdrawTransaction_def)
  show ?thesis
    unfolding handle
  proof (rule triple_atomic_body, elim conjE)
    fix s y s'
    assume "working sk S (tr_transactionId r) WITHDRAW n (Some pid) (\<lambda>_. True) True s"
      and pos: "positionIs pid (\<lambda>st sh. st = P_WITHDRAWING \<and> n \<le> sh) s"
      and run: "rec_confirmWithdrawBody r b g s = (Inr y, s')"
    from confirm_start [OF this(1), of b "Some [(''gasUsed'', JStr (showInt g)), (''sharesBurned'', JStr (readMetadataString r ''sharesBurned'')), (''reconciled'', JBool True)]"]
    obtain c s1 where conf: "tx_confirmSubmitted (tr_transactionId r) b (Some [(''gasUsed'', JStr (showInt g)),
        (''sharesBurned'', JStr (readMetadataString r ''sharesBurned'')), (''reconciled'', JBool True)]) s = (Inr (True, c), s1)"
      and s1: "positions s1 = positions s" "lagging sk S pid (- n) s1" by auto
    from pos s1 have "positionIs pid (\<lambda>st sh. st = P_WITHDRAWING \<and> n \<le> sh) s1" by (simp add: positionIs_def)
    from positionIs_find [OF this] obtain p where p: "pos_findById pid s1 = (Inr (Some (toPositionRecord p)), s1)"
      "p_id p = pid" "find (\<lambda>p. p_id p = pid) (positions s1) = Some p" "p_status p = P_WITHDRAWING" "n \<le> p_shares p" by blast
    have "andThen (pos_subtractWithdraw pid ?d) (\<lambda>_. ret ()) s1 = (Inr y, s')"
      using run p r conf by (simp add: rec_confirmWithdrawBody_def Let_def andThen_def toPositionRecord_def)
    then obtain q where "pos_subtractWithdraw pid ?d s1 = (Inr q, s')" by (auto elim!: andThen_InrE)
    then show "base sk S s'" using triple_Inr [OF catch_up_subtract [OF same good(2)]] s1 p by blast
  qed
qed

text \<open>
  What the position lags behind by when nothing writes it: the skew of this one position.
\<close>

lemma lagging_skew:
  assumes lag: "lagging sk S pid d s" and p: "p \<in> set (positions s)" "p_id p = pid"
  shows "base (sk(pid := sk pid - d)) S s"
proof -
  have "pid < nextId s" using lag p by (auto simp: lagging_def dbInv_def posInv_def)
  then show ?thesis using lag by (auto simp: base_def lagging_def ledger_def)
qed

text \<open>
  A further deposit is confirmed, and the position does not get it; a withdrawal whose position is
  not waiting for it is confirmed, and the position keeps the shares that were burned.
\<close>

lemma rec_topup_lost:
  assumes r: "tr_type r = DEPOSIT" "tr_positionId r = Some pid"
    and w: "working sk S (tr_transactionId r) DEPOSIT n (Some pid) (\<lambda>_. True) True s"
    and pos: "positionIs pid (\<lambda>st _. st \<noteq> P_PENDING) s"
  shows "\<exists>s'. rec_handleConfirmedTransaction x r b g s = (Inr (), s') \<and> positions s' = positions s
     \<and> base (sk(pid := sk pid - n)) S s'"
proof -
  let ?m = "Some [(''gasUsed'', JStr (showInt g)), (''estimatedShares'', JStr (readEstimatedShares r)), (''reconciled'', JBool True)]"
  from confirm_start [OF w, of b ?m] obtain c s1 where conf: "tx_confirmSubmitted (tr_transactionId r) b ?m s = (Inr (True, c), s1)"
    and s1: "positions s1 = positions s" "lagging sk S pid n s1" by auto
  from pos s1 have "positionIs pid (\<lambda>st _. st \<noteq> P_PENDING) s1" by (simp add: positionIs_def)
  from positionIs_find [OF this] obtain p where p: "pos_findById pid s1 = (Inr (Some (toPositionRecord p)), s1)"
    "p_id p = pid" "find (\<lambda>p. p_id p = pid) (positions s1) = Some p" "p_status p \<noteq> P_PENDING" by blast
  have "rec_handleConfirmedTransaction x r b g s = (Inr (), s1)"
    using r conf p by (simp add: rec_handleConfirmedTransaction_def rec_confirmDepositTransaction_def rec_confirmDepositBody_def
        Let_def atomically_def andThen_Inr toPositionRecord_def)
  moreover have "p \<in> set (positions s1)" using p by (auto dest: find_Some_iff_first)
  ultimately show ?thesis using s1 lagging_skew [OF s1(2) _ p(2)] by blast
qed

lemma rec_withdrawal_lost:
  assumes r: "tr_type r = WITHDRAW" "tr_positionId r = Some pid"
    and w: "working sk S (tr_transactionId r) WITHDRAW n (Some pid) (\<lambda>_. True) True s"
    and pos: "positionIs pid (\<lambda>st _. st \<noteq> P_WITHDRAWING) s"
  shows "\<exists>s'. rec_handleConfirmedTransaction x r b g s = (Inr (), s') \<and> positions s' = positions s
     \<and> base (sk(pid := sk pid + n)) S s'"
proof -
  let ?m = "Some [(''gasUsed'', JStr (showInt g)), (''sharesBurned'', JStr (readMetadataString r ''sharesBurned'')), (''reconciled'', JBool True)]"
  from confirm_start [OF w, of b ?m] obtain c s1 where conf: "tx_confirmSubmitted (tr_transactionId r) b ?m s = (Inr (True, c), s1)"
    and s1: "positions s1 = positions s" "lagging sk S pid (- n) s1" by auto
  from pos s1 have "positionIs pid (\<lambda>st _. st \<noteq> P_WITHDRAWING) s1" by (simp add: positionIs_def)
  from positionIs_find [OF this] obtain p where p: "pos_findById pid s1 = (Inr (Some (toPositionRecord p)), s1)"
    "p_id p = pid" "find (\<lambda>p. p_id p = pid) (positions s1) = Some p" "p_status p \<noteq> P_WITHDRAWING" by blast
  have "rec_handleConfirmedTransaction x r b g s = (Inr (), s1)"
    using r conf p by (simp add: rec_handleConfirmedTransaction_def rec_confirmWithdrawTransaction_def rec_confirmWithdrawBody_def
        Let_def atomically_def andThen_Inr toPositionRecord_def)
  moreover have "p \<in> set (positions s1)" using p by (auto dest: find_Some_iff_first)
  moreover have "sk pid - - n = sk pid + n" by simp
  ultimately show ?thesis using s1 lagging_skew [OF s1(2) _ p(2)] by metis
qed

section \<open>The job\<close>

lemma reconcile_skips:
  "lockAcquire x jobId s = (Inr False, s') \<Longrightarrow> reconcilePendingTransactions x jobId s = (Inr emptySummary, s')"
  by (simp add: reconcilePendingTransactions_def andThen_def)

definition summaryBalanced :: "reconciliation_summary \<Rightarrow> bool" where
  "summaryBalanced m \<longleftrightarrow> rs_confirmed m + rs_reverted m + rs_failed m + rs_pending m \<le> rs_scanned m"

lemma pendingLoop_summary:
  "rec_pendingLoop x m rs s = (Inr m', s') \<Longrightarrow> summaryBalanced m \<Longrightarrow>
   summaryBalanced m' \<and> rs_scanned m' = rs_scanned m + length rs \<and> rs_failed m' = rs_failed m"
proof (induction rs arbitrary: m s)
  case (Cons r rs)
  from Cons.prems(1) obtain m1 s1 where m1: "catching (andThen (rec_reconcileTransaction x r)
      (\<lambda>outcome. ret (countOutcome outcome (m\<lparr>rs_scanned := rs_scanned m + 1\<rparr>))))
      (\<lambda>_. ret (m\<lparr>rs_scanned := rs_scanned m + 1\<rparr>)) s = (Inr m1, s1)"
    and rest: "rec_pendingLoop x m1 rs s1 = (Inr m', s')"
    by (auto simp: Let_def elim!: andThen_InrE)
  from m1 have "m1 = m\<lparr>rs_scanned := rs_scanned m + 1\<rparr> \<or> (\<exists>o'. m1 = countOutcome o' (m\<lparr>rs_scanned := rs_scanned m + 1\<rparr>))"
    by (auto simp: eff_simps split: prod.splits sum.splits)
  then have "summaryBalanced m1" "rs_scanned m1 = rs_scanned m + 1" "rs_failed m1 = rs_failed m"
    using Cons.prems(2) by (auto simp: summaryBalanced_def countOutcome_def split: reconciliation_outcome.split)
  with Cons.IH [OF rest] show ?case by simp
qed simp

lemma staleLoop_summary:
  "rec_staleLoop m rs s = (Inr m', s') \<Longrightarrow> summaryBalanced m \<Longrightarrow> summaryBalanced m'"
proof (induction rs arbitrary: m s)
  case (Cons r rs)
  from Cons.prems(1) obtain s1 where
    "rec_staleLoop (m\<lparr>rs_scanned := rs_scanned m + 1, rs_failed := rs_failed m + 1\<rparr>) rs s1 = (Inr m', s')"
    by (auto elim!: andThen_InrE)
  from Cons.IH [OF this] show ?case using Cons.prems(2) by (simp add: summaryBalanced_def)
qed simp

text \<open>No transaction is counted twice: what is missing are those whose settling threw.\<close>

lemma reconcile_summary:
  assumes "reconcilePendingTransactions x jobId s = (Inr m, s')"
  shows "summaryBalanced m"
proof -
  have "summaryBalanced m" if run: "rec_runReconciliation x t = (Inr m, t')" for t t'
  proof -
    from run obtain m1 t1 rs t2 where "rec_reconcileStaleCreated emptySummary t = (Inr m1, t1)"
      and rest: "rec_pendingLoop x m1 rs t2 = (Inr m, t')"
      unfolding rec_runReconciliation_def by (auto elim!: andThen_InrE)
    then obtain rs' t3 where "rec_staleLoop emptySummary rs' t3 = (Inr m1, t1)"
      unfolding rec_reconcileStaleCreated_def by (auto elim!: andThen_InrE)
    then have "summaryBalanced m1" by (rule staleLoop_summary) (simp add: emptySummary_def summaryBalanced_def)
    with pendingLoop_summary [OF rest] show ?thesis by simp
  qed
  moreover have "summaryBalanced emptySummary" by (simp add: emptySummary_def summaryBalanced_def)
  ultimately show ?thesis using assms
    by (auto simp: reconcilePendingTransactions_def finallyDo_def elim!: andThen_InrE split: if_splits prod.splits sum.splits)
qed

end
