(* ===== verification/Settling.thy ===== *)
theory Settling
  imports Reconcile
begin

text \<open>
  The worker settles: when the receipts of the submitted transactions can be read, one run of the
  job leaves none of them submitted (\<open>job_settles\<close>).  The facts before it say what one transaction
  and the two loops do to the transaction table: every write of the job changes the row of the
  transaction in hand and no other, and it closes it.
\<close>

section \<open>One row at a time\<close>

definition settles :: "uuid \<Rightarrow> world \<Rightarrow> world \<Rightarrow> bool" where
  "settles i s s' \<longleftrightarrow> (\<exists>t'. t_id t' = i \<and> \<not> isOpen (t_status t')
     \<and> transactions s' = updWhere (\<lambda>q. t_id q = i) (\<lambda>_. t') (transactions s))"

lemma settlesI:
  "t_id t' = i \<Longrightarrow> \<not> isOpen (t_status t') \<Longrightarrow>
   transactions s' = updWhere (\<lambda>q. t_id q = i) (\<lambda>_. t') (transactions s) \<Longrightarrow> settles i s s'"
  by (auto simp: settles_def)

lemma settlesE:
  assumes "settles i s s'"
  obtains t' where "t_id t' = i" "\<not> isOpen (t_status t')"
    "transactions s' = updWhere (\<lambda>q. t_id q = i) (\<lambda>_. t') (transactions s)"
  using assms by (auto simp only: settles_def)

lemma settles_same: "settles i s s1 \<Longrightarrow> transactions s2 = transactions s1 \<Longrightarrow> settles i s s2"
  by (simp add: settles_def)

lemma settles_from: "settles i s1 s2 \<Longrightarrow> transactions s1 = transactions s \<Longrightarrow> settles i s s2"
  by (simp add: settles_def)

lemma settles_rows:
  assumes "settles i s s'" and "t \<in> set (transactions s')"
  shows "t \<in> set (transactions s) \<and> t_id t \<noteq> i \<or> \<not> isOpen (t_status t)"
proof -
  from assms(1) obtain t' where "t_id t' = i" "\<not> isOpen (t_status t')"
    "transactions s' = updWhere (\<lambda>q. t_id q = i) (\<lambda>_. t') (transactions s)" by (rule settlesE)
  with assms(2) show ?thesis by (auto simp: in_updWhere split: if_splits)
qed

lemma settles_find:
  assumes "settles i s s'" and "j \<noteq> i"
  shows "find (\<lambda>t. t_id t = j) (transactions s') = find (\<lambda>t. t_id t = j) (transactions s)"
proof -
  from assms(1) obtain t' where t': "t_id t' = i" and
    eq: "transactions s' = updWhere (\<lambda>q. t_id q = i) (\<lambda>_. t') (transactions s)" by (rule settlesE)
  have "find (\<lambda>t. t_id t = j) (updWhere (\<lambda>q. t_id q = i) (\<lambda>_. t') ts) = find (\<lambda>t. t_id t = j) ts" for ts
    using t' \<open>j \<noteq> i\<close> by (induction ts) auto
  then show ?thesis by (simp add: eq)
qed

lemma filter_updWhere:
  assumes "\<not> P t'" and "\<And>q. q \<in> set ts \<Longrightarrow> t_id q = i \<Longrightarrow> \<not> P q"
  shows "filter P (updWhere (\<lambda>q. t_id q = i) (\<lambda>_. t') ts) = filter P ts"
  using assms by (induction ts) auto

section \<open>Writes that succeed\<close>

lemma mark_closes:
  assumes "find (\<lambda>t. t_id t = i) (transactions s) = Some t"
  shows "\<exists>r s'. tx_markFailed i m s = (Inr r, s') \<and> settles i s s' \<and> positions s' = positions s"
    and "\<exists>r s'. tx_markReverted i b m s = (Inr r, s') \<and> settles i s s' \<and> positions s' = positions s"
proof -
  have run: "\<exists>r s'. asTxRecord (txRepo_updateStatus i d) s = (Inr r, s') \<and> settles i s s' \<and> positions s' = positions s"
    if "\<not> isOpen (su_status d)" for d
  proof -
    from updateStatus_run [OF assms, of d] obtain t' where
      run: "txRepo_updateStatus i d s = (Inr t', s\<lparr>transactions := updWhere (\<lambda>q. t_id q = i) (\<lambda>_. t') (transactions s)\<rparr>)"
      and t': "t_id t' = i" "t_status t' = su_status d" by blast
    have "settles i s (s\<lparr>transactions := updWhere (\<lambda>q. t_id q = i) (\<lambda>_. t') (transactions s)\<rparr>)"
      by (rule settlesI [OF t'(1)]) (simp_all add: t' that)
    with run show ?thesis by (simp add: asTxRecord_def andThen_Inr)
  qed
  show "\<exists>r s'. tx_markFailed i m s = (Inr r, s') \<and> settles i s s' \<and> positions s' = positions s"
    "\<exists>r s'. tx_markReverted i b m s = (Inr r, s') \<and> settles i s s' \<and> positions s' = positions s"
    unfolding tx_marks by (rule run, simp add: isOpen_def)+
qed

lemma confirm_closes:
  assumes "find (\<lambda>t. t_id t = i) (transactions s) = Some t" and "t_status t = T_SUBMITTED"
  shows "\<exists>r s'. tx_confirmSubmitted i b m s = (Inr (True, r), s') \<and> settles i s s' \<and> positions s' = positions s"
proof -
  let ?d = "\<lparr>su_status = T_CONFIRMED, su_txHash = None, su_blockNumber = Some b, su_metadata = m\<rparr>"
  from updateStatus_run [OF assms(1), of ?d] obtain t' where
    run: "txRepo_updateStatus i ?d s = (Inr t', s\<lparr>transactions := updWhere (\<lambda>q. t_id q = i) (\<lambda>_. t') (transactions s)\<rparr>)"
    and t': "t_id t' = i" "t_status t' = T_CONFIRMED" by auto
  have "settles i s (s\<lparr>transactions := updWhere (\<lambda>q. t_id q = i) (\<lambda>_. t') (transactions s)\<rparr>)"
    by (rule settlesI [OF t'(1)]) (simp_all add: t' isOpen_def)
  with run assms show ?thesis
    by (simp add: tx_confirmSubmitted_def txRepo_confirmSubmitted_def txRepo_updateStatus_def eff_simps)
qed

lemma position_writes_succeed:
  assumes "find (\<lambda>p. p_id p = i) (positions s) = Some p"
  shows "\<exists>r s'. pos_markFailed i s = (Inr r, s') \<and> transactions s' = transactions s"
    and "\<exists>r s'. pos_markActive i s = (Inr r, s') \<and> transactions s' = transactions s"
    and "sameAmounts d n \<Longrightarrow> decimalFits n \<Longrightarrow> \<exists>r s'. pos_activate i d s = (Inr r, s') \<and> transactions s' = transactions s"
    and "posInv s \<Longrightarrow> bigIntOf (wp_withdrawnAmount w) = Some n \<Longrightarrow> bigIntOf (wp_shares w) = Some n \<Longrightarrow> 0 \<le> n \<Longrightarrow>
      \<exists>r s'. pos_subtractWithdraw i w s = (Inr r, s') \<and> transactions s' = transactions s"
proof -
  have run: "\<exists>r s'. asRecord (positionUpdate i f) s = (Inr r, s') \<and> transactions s' = transactions s" if "f p = Inr p'" for f p'
    using positionTable.update_hit [OF assms, of f] that
    by (simp add: asRecord_def positionUpdate_def andThen_Inr put_defs)
  show "\<exists>r s'. pos_markFailed i s = (Inr r, s') \<and> transactions s' = transactions s"
    "\<exists>r s'. pos_markActive i s = (Inr r, s') \<and> transactions s' = transactions s"
    unfolding pos_markFailed_def posRepo_markFailed_def pos_markActive_def posRepo_markActive_def
    by (rule run, simp add: setStatus_def)+
  show "\<exists>r s'. pos_activate i d s = (Inr r, s') \<and> transactions s' = transactions s" if "sameAmounts d n" "decimalFits n"
    unfolding pos_activate_def posRepo_activate_def
    by (rule run) (use that in \<open>simp add: sameAmounts_def setAmounts_same\<close>)
  show "\<exists>r s'. pos_subtractWithdraw i w s = (Inr r, s') \<and> transactions s' = transactions s"
    if "posInv s" "bigIntOf (wp_withdrawnAmount w) = Some n" "bigIntOf (wp_shares w) = Some n" "0 \<le> n"
    using subtractWithdraw_run [OF that(1) assms that(2-4)]
    by (simp add: pos_subtractWithdraw_def asRecord_def andThen_Inr Let_def)
qed

section \<open>One transaction\<close>

text \<open>The receipt of a submitted transaction can be read.\<close>

definition readable :: "env \<Rightarrow> transaction \<Rightarrow> bool" where
  "readable x t \<longleftrightarrow> (\<exists>h d. t_txHash t = Some h \<and> h \<noteq> [] \<and> bc_getChainDefinition x (t_chainId t) = Inr d
     \<and> (\<forall>k. \<exists>rc. e_getReceipt x k (t_chainId t) h = Inr rc))"

lemma receipt_read:
  assumes "bc_getChainDefinition x c = Inr d" and "\<And>k. \<exists>rc. e_getReceipt x k c h = Inr rc"
  shows "\<exists>rc. bc_getTransactionReceiptWithRetry x c h s = (Inr rc, s\<lparr>calls := Suc (calls s)\<rparr>)"
proof -
  obtain rc where "e_getReceipt x (calls s) c h = Inr rc" using assms(2) by blast
  then have "bc_getTransactionReceipt x c h s = (Inr rc, s\<lparr>calls := Suc (calls s)\<rparr>)"
    using assms(1) by (simp add: bc_getTransactionReceipt_def viaClient_def extCall_def)
  then show ?thesis by (simp add: bc_getTransactionReceiptWithRetry_def numeral_3_eq_3 catching_Inr)
qed

lemma found_position:
  "pos_findById pid s = (Inr (map_option toPositionRecord (find (\<lambda>p. p_id p = pid) (positions s))), s)"
  by (simp add: pos_findById_def posRepo_findById_def)

text \<open>What a submitted row says of the amounts the worker reads from it.\<close>

lemma submitted_row:
  assumes inv: "dbInv s" and hit: "find (\<lambda>t. t_id t = i) (transactions s) = Some t" and sub: "t_status t = T_SUBMITTED"
  shows "t_id t = i" "bigIntOf (tr_amount (toTransactionRecord slug t)) = Some (t_amount t)" "0 \<le> t_amount t"
    "decimalFits (t_amount t)" "metadataGood (t_type t) (t_amount t) (t_metadata t)"
proof -
  show "t_id t = i" using hit by (auto dest: find_Some_iff_first)
  have "goodTransaction t" using inv hit by (auto simp: dbInv_def txInv_def dest: find_Some_iff_first)
  then show "bigIntOf (tr_amount (toTransactionRecord slug t)) = Some (t_amount t)" "0 \<le> t_amount t"
    "decimalFits (t_amount t)" "metadataGood (t_type t) (t_amount t) (t_metadata t)"
    using sub by (simp_all add: goodTransaction_def isOpen_def toTransactionRecord_def)
qed

lemma record_fields [simp]:
  "tr_transactionId (toTransactionRecord slug t) = t_id t" "tr_type (toTransactionRecord slug t) = t_type t"
  "tr_positionId (toTransactionRecord slug t) = t_positionId t" "tr_metadata (toTransactionRecord slug t) = t_metadata t"
  "tr_txHash (toTransactionRecord slug t) = t_txHash t" "tr_chainId (toTransactionRecord slug t) = t_chainId t"
  by (simp_all add: toTransactionRecord_def)

lemma positionRecord_fields [simp]:
  "pr_positionId (toPositionRecord p) = p_id p" "pr_status (toPositionRecord p) = p_status p"
  by (simp_all add: toPositionRecord_def)

lemma deposit_settles:
  assumes inv: "dbInv s" and hit: "find (\<lambda>t. t_id t = i) (transactions s) = Some t" and sub: "t_status t = T_SUBMITTED"
    and ty: "t_type t = DEPOSIT"
  shows "\<exists>s'. rec_confirmDepositTransaction (toTransactionRecord slug t) b g s = (Inr (), s') \<and> settles i s s'"
proof -
  let ?r = "toTransactionRecord slug t"
  let ?d = "\<lparr>ap_depositedAmount = tr_amount ?r, ap_currentAmount = tr_amount ?r, ap_shares = readEstimatedShares ?r\<rparr>"
  note row = submitted_row [OF inv hit sub]
  have same: "sameAmounts ?d (t_amount t)" using row ty
    by (simp add: sameAmounts_def readEstimatedShares_def readMetadataString_def metadataGood_def)
  obtain c s1 where c: "tx_confirmSubmitted i b (Some [(''gasUsed'', JStr (showInt g)),
      (''estimatedShares'', JStr (readEstimatedShares ?r)), (''reconciled'', JBool True)]) s = (Inr (True, c), s1)" "settles i s s1"
    using confirm_closes [OF hit sub] by blast
  show ?thesis
  proof (cases "\<exists>pid p. t_positionId t = Some pid \<and> find (\<lambda>p. p_id p = pid) (positions s1) = Some p \<and> p_status p = P_PENDING")
    case True
    then obtain pid p where p: "t_positionId t = Some pid" "find (\<lambda>p. p_id p = pid) (positions s1) = Some p" "p_status p = P_PENDING" by blast
    moreover have "p_id p = pid" using p(2) by (auto dest: find_Some_iff_first)
    moreover obtain q s2 where "pos_activate pid ?d s1 = (Inr q, s2)" "transactions s2 = transactions s1"
      using position_writes_succeed(3) [OF p(2) same row(4)] by blast
    ultimately show ?thesis using c settles_same [OF c(2)] row(1)
      by (simp add: rec_confirmDepositTransaction_def rec_confirmDepositBody_def Let_def atomically_def andThen_Inr found_position)
  next
    case False
    then have "rec_confirmDepositTransaction ?r b g s = (Inr (), s1)" using c row(1)
      by (auto simp: rec_confirmDepositTransaction_def rec_confirmDepositBody_def Let_def atomically_def andThen_Inr
          found_position split: option.split)
    with c show ?thesis by simp
  qed
qed

lemma withdrawal_settles:
  assumes inv: "dbInv s" and hit: "find (\<lambda>t. t_id t = i) (transactions s) = Some t" and sub: "t_status t = T_SUBMITTED"
    and ty: "t_type t = WITHDRAW"
  shows "\<exists>s'. rec_confirmWithdrawTransaction (toTransactionRecord slug t) b g s = (Inr (), s') \<and> settles i s s'"
proof -
  let ?r = "toTransactionRecord slug t"
  let ?d = "\<lparr>wp_withdrawnAmount = tr_amount ?r, wp_shares = readMetadataString ?r ''sharesBurned''\<rparr>"
  note row = submitted_row [OF inv hit sub]
  have same: "bigIntOf (wp_withdrawnAmount ?d) = Some (t_amount t)" "bigIntOf (wp_shares ?d) = Some (t_amount t)"
    using row ty by (simp_all add: readMetadataString_def metadataGood_def)
  obtain c s1 where c: "tx_confirmSubmitted i b (Some [(''gasUsed'', JStr (showInt g)),
      (''sharesBurned'', JStr (readMetadataString ?r ''sharesBurned'')), (''reconciled'', JBool True)]) s = (Inr (True, c), s1)"
    "settles i s s1" using confirm_closes [OF hit sub] by blast
  have inv1: "posInv s1" using preserves_run [OF pres_confirmSubmitted(1) c(1) inv] by (simp add: dbInv_def)
  show ?thesis
  proof (cases "\<exists>pid p. t_positionId t = Some pid \<and> find (\<lambda>p. p_id p = pid) (positions s1) = Some p \<and> p_status p = P_WITHDRAWING")
    case True
    then obtain pid p where p: "t_positionId t = Some pid" "find (\<lambda>p. p_id p = pid) (positions s1) = Some p" "p_status p = P_WITHDRAWING" by blast
    moreover obtain q s2 where "pos_subtractWithdraw pid ?d s1 = (Inr q, s2)" "transactions s2 = transactions s1"
      using position_writes_succeed(4) [OF p(2) inv1 same row(3)] by blast
    ultimately show ?thesis using c settles_same [OF c(2)] row(1)
      by (simp add: rec_confirmWithdrawTransaction_def rec_confirmWithdrawBody_def Let_def atomically_def andThen_Inr found_position)
  next
    case False
    then have "rec_confirmWithdrawTransaction ?r b g s = (Inr (), s1)" using c row(1)
      by (auto simp: rec_confirmWithdrawTransaction_def rec_confirmWithdrawBody_def Let_def atomically_def andThen_Inr
          found_position split: option.split)
    with c show ?thesis by simp
  qed
qed

text \<open>
  What the worker books: the transaction is confirmed in that block, and the position is the one before
  with the amount of the transaction as its balance, or with the amount taken off.
\<close>

definition confirmedIn :: "int \<Rightarrow> uuid \<Rightarrow> world \<Rightarrow> bool" where
  "confirmedIn b i s \<longleftrightarrow> (\<exists>t'. find (\<lambda>t. t_id t = i) (transactions s) = Some t'
     \<and> t_status t' = T_CONFIRMED \<and> t_blockNumber t' = Some b)"

lemma confirm_row:
  assumes "find (\<lambda>t. t_id t = i) (transactions s) = Some t" and "t_status t = T_SUBMITTED"
  shows "\<exists>c s1. tx_confirmSubmitted i b m s = (Inr (True, c), s1) \<and> positions s1 = positions s \<and> now s1 = now s
     \<and> confirmedIn b i s1"
proof -
  let ?d = "\<lparr>su_status = T_CONFIRMED, su_txHash = None, su_blockNumber = Some b, su_metadata = m\<rparr>"
  obtain r where r: "applyStatus ?d t = Inr r" and f: "t_status r = T_CONFIRMED" "t_blockNumber r = Some b" "t_id r = t_id t"
    by (simp add: applyStatus_def)
  let ?t = "touchTransaction (now s) r"
  let ?s = "s\<lparr>transactions := updWhere (\<lambda>q. t_id q = i) (\<lambda>_. ?t) (transactions s)\<rparr>"
  have run: "transactionUpdate i (applyStatus ?d) s = (Inr ?t, ?s)"
    unfolding transactionUpdate_def by (subst transactionTable.update_hit [where f = "applyStatus ?d", OF assms(1) r]) (simp add: put_defs)
  have i: "t_id t = i" using assms(1) by (auto dest: find_Some_iff_first)
  have "find (\<lambda>t. t_id t = i) (updWhere (\<lambda>q. t_id q = i) (\<lambda>_. ?t) ts) = Some ?t"
    if "find (\<lambda>t. t_id t = i) ts = Some t" for ts
    using that i f by (induction ts) (auto simp: touchTransaction_def split: if_splits)
  then have "confirmedIn b i ?s" using assms(1) f by (simp add: confirmedIn_def touchTransaction_def)
  with run assms show ?thesis by (simp add: tx_confirmSubmitted_def txRepo_confirmSubmitted_def eff_simps)
qed

lemma find_replaced:
  assumes "find (\<lambda>p. k p = i) ps = Some p" and "k p' = i"
  shows "find (\<lambda>p. k p = i) (updWhere (\<lambda>q. k q = i) (\<lambda>_. p') ps) = Some p'"
  using assms by (induction ps) (auto split: if_splits)

lemma deposit_booked:
  assumes inv: "dbInv s" and hit: "find (\<lambda>t. t_id t = i) (transactions s) = Some t" and sub: "t_status t = T_SUBMITTED"
    and ty: "t_type t = DEPOSIT" "t_positionId t = Some pid"
    and p: "find (\<lambda>p. p_id p = pid) (positions s) = Some p" "p_status p = P_PENDING"
  shows "\<exists>s'. rec_handleConfirmedTransaction x (toTransactionRecord slug t) b g s = (Inr (), s') \<and> confirmedIn b i s'
     \<and> (\<exists>p'. find (\<lambda>p. p_id p = pid) (positions s') = Some p' \<and> p_status p' = P_ACTIVE \<and> p_shares p' = t_amount t)"
proof -
  let ?r = "toTransactionRecord slug t"
  let ?d = "\<lparr>ap_depositedAmount = tr_amount ?r, ap_currentAmount = tr_amount ?r, ap_shares = readEstimatedShares ?r\<rparr>"
  let ?f = "setAmounts P_ACTIVE (ap_depositedAmount ?d) (ap_currentAmount ?d) (ap_shares ?d)"
  note row = submitted_row [OF inv hit sub]
  have same: "sameAmounts ?d (t_amount t)" using row ty
    by (simp add: sameAmounts_def readEstimatedShares_def readMetadataString_def metadataGood_def)
  obtain c s1 where c: "tx_confirmSubmitted i b (Some [(''gasUsed'', JStr (showInt g)),
      (''estimatedShares'', JStr (readEstimatedShares ?r)), (''reconciled'', JBool True)]) s = (Inr (True, c), s1)"
    "positions s1 = positions s" "confirmedIn b i s1"
    using confirm_row [OF hit sub] by blast
  from p c have p1: "find (\<lambda>p. p_id p = pid) (positions s1) = Some p" by simp
  have id: "p_id p = pid" using p by (auto dest: find_Some_iff_first)
  obtain p' where f: "?f p = Inr p'" and p': "p_id p' = p_id p" "p_status p' = P_ACTIVE" "p_shares p' = t_amount t"
    using same row(4) by (simp add: sameAmounts_def setAmounts_same)
  let ?q = "touchPosition (now s1) p'"
  have "pos_activate pid ?d s1 = (Inr (toPositionRecord ?q), s1\<lparr>positions := updWhere (\<lambda>q. p_id q = pid) (\<lambda>_. ?q) (positions s1)\<rparr>)"
    using positionTable.update_hit [OF p1, of ?f, OF f]
    by (simp add: pos_activate_def posRepo_activate_def asRecord_def positionUpdate_def andThen_Inr put_defs)
  moreover have "find (\<lambda>p. p_id p = pid) (updWhere (\<lambda>q. p_id q = pid) (\<lambda>_. ?q) (positions s1)) = Some ?q"
    using p' id by (intro find_replaced [OF p1]) (simp add: touchPosition_def)
  ultimately show ?thesis using c p p' id row(1) ty
    by (simp add: rec_handleConfirmedTransaction_def rec_confirmDepositTransaction_def rec_confirmDepositBody_def Let_def
        atomically_def andThen_Inr found_position confirmedIn_def touchPosition_def)
qed

lemma withdrawal_booked:
  assumes inv: "dbInv s" and hit: "find (\<lambda>t. t_id t = i) (transactions s) = Some t" and sub: "t_status t = T_SUBMITTED"
    and ty: "t_type t = WITHDRAW" "t_positionId t = Some pid"
    and p: "find (\<lambda>p. p_id p = pid) (positions s) = Some p" "p_status p = P_WITHDRAWING" "t_amount t \<le> p_shares p"
  shows "\<exists>s'. rec_handleConfirmedTransaction x (toTransactionRecord slug t) b g s = (Inr (), s') \<and> confirmedIn b i s'
     \<and> (\<exists>p'. find (\<lambda>p. p_id p = pid) (positions s') = Some p' \<and> p_shares p' = p_shares p - t_amount t
          \<and> p_status p' = (if p_shares p = t_amount t then P_CLOSED else P_ACTIVE))"
proof -
  let ?r = "toTransactionRecord slug t"
  let ?d = "\<lparr>wp_withdrawnAmount = tr_amount ?r, wp_shares = readMetadataString ?r ''sharesBurned''\<rparr>"
  note row = submitted_row [OF inv hit sub]
  have same: "bigIntOf (wp_withdrawnAmount ?d) = Some (t_amount t)" "bigIntOf (wp_shares ?d) = Some (t_amount t)"
    using row ty by (simp_all add: readMetadataString_def metadataGood_def)
  obtain c s1 where c: "tx_confirmSubmitted i b (Some [(''gasUsed'', JStr (showInt g)),
      (''sharesBurned'', JStr (readMetadataString ?r ''sharesBurned'')), (''reconciled'', JBool True)]) s = (Inr (True, c), s1)"
    "positions s1 = positions s" "confirmedIn b i s1"
    using confirm_row [OF hit sub] by blast
  have inv1: "posInv s1" using preserves_run [OF pres_confirmSubmitted(1) c(1) inv] by (simp add: dbInv_def)
  from p c have p1: "find (\<lambda>p. p_id p = pid) (positions s1) = Some p" by simp
  have id: "p_id p = pid" using p by (auto dest: find_Some_iff_first)
  let ?n = "max 0 (p_shares p - t_amount t)"
  let ?q = "touchPosition (now s1) (p\<lparr>p_status := (if p_shares p \<le> t_amount t then P_CLOSED else P_ACTIVE),
                  p_depositedAmount := ?n, p_currentAmount := ?n, p_shares := ?n\<rparr>)"
  have "pos_subtractWithdraw pid ?d s1 = (Inr (toPositionRecord ?q), s1\<lparr>positions := updWhere (\<lambda>q. p_id q = pid) (\<lambda>_. ?q) (positions s1)\<rparr>)"
    using subtractWithdraw_run [OF inv1 p1 same row(3)]
    by (simp add: pos_subtractWithdraw_def asRecord_def andThen_Inr Let_def)
  moreover have "find (\<lambda>p. p_id p = pid) (updWhere (\<lambda>q. p_id q = pid) (\<lambda>_. ?q) (positions s1)) = Some ?q"
    using id by (intro find_replaced [OF p1]) (simp add: touchPosition_def)
  ultimately show ?thesis using c p id row(1) ty
    by (simp add: rec_handleConfirmedTransaction_def rec_confirmWithdrawTransaction_def rec_confirmWithdrawBody_def Let_def
        atomically_def andThen_Inr found_position confirmedIn_def touchPosition_def)
qed

lemma audit_run:
  "\<exists>s'. rec_logConfirmedAudit x r i h s = (Inr (), s') \<and> transactions s' = transactions s"
proof (cases "confirmedAction (tr_type r)")
  case (Some action)
  let ?log = "auditLog x \<lparr>al_userId = Some (tr_userId r), al_action = action, al_entityType = ''transaction'', al_entityId = i,
      al_metadata = Some [(''txHash'', case h of Some h \<Rightarrow> JStr h | None \<Rightarrow> JNull), (''reconciled'', JBool True),
        (''type'', JStr (typeName (tr_type r)))]\<rparr>"
  obtain s' where run: "?log s = (Inr (), s')" using auditLog_never_throws by blast
  have "ignoresOutside (\<lambda>t. transactions t = transactions s)" by (simp add: ignoresOutside_def)
  from preserves_run [OF preserves_auditLog [OF this] run] run Some show ?thesis by (simp add: rec_logConfirmedAudit_def)
qed (simp add: rec_logConfirmedAudit_def)

lemma confirmed_settles:
  assumes inv: "dbInv s" and hit: "find (\<lambda>t. t_id t = i) (transactions s) = Some t" and sub: "t_status t = T_SUBMITTED"
  shows "\<exists>s'. rec_handleConfirmedTransaction x (toTransactionRecord slug t) b g s = (Inr (), s') \<and> settles i s s'"
proof (cases "t_type t = DEPOSIT \<or> t_type t = WITHDRAW")
  case True
  with deposit_settles [OF assms] withdrawal_settles [OF assms] show ?thesis
    by (auto simp: rec_handleConfirmedTransaction_def)
next
  case False
  obtain c s1 where c: "tx_confirmSubmitted i b (Some [(''gasUsed'', JStr (showInt g)), (''reconciled'', JBool True)]) s
      = (Inr (True, c), s1)" "settles i s s1" using confirm_closes [OF hit sub] by blast
  obtain s2 where "rec_logConfirmedAudit x (toTransactionRecord slug t) (tr_transactionId c) (tr_txHash c) s1 = (Inr (), s2)"
    "transactions s2 = transactions s1" using audit_run by blast
  with c False settles_same [OF c(2)] submitted_row(1) [OF assms] show ?thesis
    by (simp add: rec_handleConfirmedTransaction_def andThen_Inr)
qed

lemma reverted_settles:
  assumes hit: "find (\<lambda>t. t_id t = i) (transactions s) = Some t"
  shows "\<exists>s'. rec_handleRevertedTransaction (toTransactionRecord slug t) b g s = (Inr (), s') \<and> settles i s s'"
proof -
  have i: "t_id t = i" using hit by (auto dest: find_Some_iff_first)
  obtain c s1 where c: "tx_markReverted i b (Some [(''gasUsed'', JStr (showInt g)), (''reconciled'', JBool True)]) s
      = (Inr c, s1)" "settles i s s1" using mark_closes(2) [OF hit] by blast
  have "\<exists>s'. (case tr_positionId (toTransactionRecord slug t) of
        None \<Rightarrow> ret ()
      | Some positionId \<Rightarrow>
          andThen (pos_findById positionId) (\<lambda>found.
          (case found of
             None \<Rightarrow> ret ()
           | Some p \<Rightarrow>
               if tr_type (toTransactionRecord slug t) = DEPOSIT \<and> pr_status p = P_PENDING
               then andThen (pos_markFailed (pr_positionId p)) (\<lambda>_. ret ())
               else whenE (tr_type (toTransactionRecord slug t) = WITHDRAW \<and> pr_status p = P_WITHDRAWING)
                      (andThen (pos_markActive (pr_positionId p)) (\<lambda>_. ret ()))))) s1 = (Inr (), s') \<and> transactions s' = transactions s1"
    (is "\<exists>s'. ?rest s1 = _ \<and> _")
  proof (cases "t_positionId t")
    case (Some pid)
    show ?thesis
    proof (cases "find (\<lambda>p. p_id p = pid) (positions s1)")
      case (Some p)
      have "p_id p = pid" using Some by (auto dest: find_Some_iff_first)
      with position_writes_succeed(1,2) [OF Some] \<open>t_positionId t = Some pid\<close> Some show ?thesis
        by (auto simp: andThen_Inr found_position whenE_def)
    qed (simp add: \<open>t_positionId t = Some pid\<close> andThen_Inr found_position)
  qed simp
  then obtain s2 where s2: "?rest s1 = (Inr (), s2)" "transactions s2 = transactions s1" by blast
  have "rec_revertBody (toTransactionRecord slug t) b g s = ?rest s1"
    unfolding rec_revertBody_def record_fields(1) i using c(1) by (rule andThen_Inr)
  then show ?thesis unfolding rec_handleRevertedTransaction_def using s2 settles_same [OF c(2) s2(2)] atomically_Inr by metis
qed

lemma transaction_settles:
  assumes inv: "dbInv s" and hit: "find (\<lambda>t. t_id t = i) (transactions s) = Some t" and sub: "t_status t = T_SUBMITTED"
    and ready: "readable x t"
  shows "\<exists>outcome s'. rec_reconcileTransaction x (toTransactionRecord slug t) s = (Inr outcome, s') \<and> outcome \<noteq> OutPending
     \<and> settles i s s' \<and> dbInv s'"
proof -
  let ?r = "toTransactionRecord slug t"
  from ready obtain h d where h: "t_txHash t = Some h" "h \<noteq> []" "bc_getChainDefinition x (t_chainId t) = Inr d"
    "\<And>k. \<exists>rc. e_getReceipt x k (t_chainId t) h = Inr rc" by (auto simp: readable_def)
  let ?s = "s\<lparr>calls := Suc (calls s)\<rparr>"
  obtain rc where rc: "bc_getTransactionReceiptWithRetry x (t_chainId t) h s = (Inr rc, ?s)" using receipt_read [OF h(3,4)] by blast
  have "dbInv ?s" using inv by (simp add: dbInv_def posInv_def txInv_def)
  moreover have "find (\<lambda>t. t_id t = i) (transactions ?s) = Some t" using hit by simp
  ultimately obtain s1 s2 where
    "rec_handleConfirmedTransaction x ?r (rc_blockNumber rc) (rc_gasUsed rc) ?s = (Inr (), s1)" "settles i ?s s1"
    "rec_handleRevertedTransaction ?r (rc_blockNumber rc) (rc_gasUsed rc) ?s = (Inr (), s2)" "settles i ?s s2"
    using confirmed_settles reverted_settles sub by meson
  moreover from this have "settles i s s1" "settles i s s2" by (auto intro: settles_from)
  ultimately obtain outcome s' where run: "rec_reconcileTransaction x ?r s = (Inr outcome, s')" "outcome \<noteq> OutPending" "settles i s s'"
    using h rc by (cases "rc_status rc = Success") (auto simp: rec_reconcileTransaction_def andThen_Inr)
  moreover have "goodRecord ?r" using inv hit sub
    by (intro goodRecord_of_row) (auto simp: dbInv_def txInv_def isOpen_def dest: find_Some_iff_first)
  ultimately show ?thesis using preserves_run [OF rec_reconcileTransaction_dbInv run(1) inv] by blast
qed

section \<open>The loops\<close>

text \<open>A record of a submitted row of the table whose receipt can be read.\<close>

definition inHand :: "env \<Rightarrow> world \<Rightarrow> transaction_record \<Rightarrow> bool" where
  "inHand x s r \<longleftrightarrow> (\<exists>t. r = toTransactionRecord None t \<and> find (\<lambda>q. t_id q = t_id t) (transactions s) = Some t
     \<and> t_status t = T_SUBMITTED \<and> readable x t)"

lemma pendingLoop_settles:
  assumes "dbInv s" and "\<And>r. r \<in> set rs \<Longrightarrow> inHand x s r" and "distinct (map tr_transactionId rs)"
  shows "\<exists>m' s'. rec_pendingLoop x m rs s = (Inr m', s') \<and> rs_scanned m' = rs_scanned m + length rs
     \<and> rs_confirmed m' + rs_reverted m' = rs_confirmed m + rs_reverted m + length rs
     \<and> (\<forall>t \<in> set (transactions s'). t \<in> set (transactions s) \<and> t_id t \<notin> set (map tr_transactionId rs) \<or> \<not> isOpen (t_status t))"
  using assms
proof (induction rs arbitrary: m s)
  case (Cons r rs)
  from Cons.prems(2) [of r] obtain t where r: "r = toTransactionRecord None t"
    and t: "find (\<lambda>q. t_id q = t_id t) (transactions s) = Some t" "t_status t = T_SUBMITTED" "readable x t" by (auto simp: inHand_def)
  obtain out s1 where one: "rec_reconcileTransaction x r s = (Inr out, s1)" "out \<noteq> OutPending" "settles (t_id t) s s1" "dbInv s1"
    using transaction_settles [OF Cons.prems(1) t] r by blast
  let ?m = "countOutcome out (m\<lparr>rs_scanned := rs_scanned m + 1\<rparr>)"
  have rest: "inHand x s1 q" if "q \<in> set rs" for q
  proof -
    from that Cons.prems(2) obtain u where u: "q = toTransactionRecord None u"
      "find (\<lambda>v. t_id v = t_id u) (transactions s) = Some u" "t_status u = T_SUBMITTED" "readable x u" by (auto simp: inHand_def)
    moreover have "t_id u \<noteq> t_id t" using Cons.prems(3) that r u(1) by (auto simp: image_iff)
    ultimately show ?thesis unfolding inHand_def using settles_find [OF one(3)] by metis
  qed
  from Cons.IH [OF one(4) rest, of ?m] Cons.prems(3) obtain m' s' where IH: "rec_pendingLoop x ?m rs s1 = (Inr m', s')"
    "rs_scanned m' = rs_scanned ?m + length rs"
    "rs_confirmed m' + rs_reverted m' = rs_confirmed ?m + rs_reverted ?m + length rs"
    "\<forall>q \<in> set (transactions s'). q \<in> set (transactions s1) \<and> t_id q \<notin> set (map tr_transactionId rs) \<or> \<not> isOpen (t_status q)"
    by fastforce
  have "rec_pendingLoop x m (r # rs) s = (Inr m', s')"
    using one(1) IH(1) by (simp add: Let_def andThen_Inr catching_Inr)
  moreover have "rs_scanned ?m = rs_scanned m + 1" "rs_confirmed ?m + rs_reverted ?m = rs_confirmed m + rs_reverted m + 1"
    using one(2) by (cases out; simp add: countOutcome_def)+
  ultimately show ?case using IH settles_rows [OF one(3)] r by fastforce
qed simp

text \<open>The stale rows are failed; no submitted row is touched.\<close>

lemma staleLoop_runs:
  assumes "\<And>r. r \<in> set rs \<Longrightarrow> \<exists>t. find (\<lambda>t. t_id t = tr_transactionId r) (transactions s) = Some t"
    and "\<And>r q. r \<in> set rs \<Longrightarrow> q \<in> set (transactions s) \<Longrightarrow> t_id q = tr_transactionId r \<Longrightarrow> t_status q \<noteq> T_SUBMITTED"
  shows "\<exists>m' s'. rec_staleLoop m rs s = (Inr m', s')
     \<and> filter (\<lambda>t. t_status t = T_SUBMITTED) (transactions s') = filter (\<lambda>t. t_status t = T_SUBMITTED) (transactions s)"
  using assms
proof (induction rs arbitrary: m s)
  case (Cons r rs)
  let ?i = "tr_transactionId r" and ?f = "filter (\<lambda>t. t_status t = T_SUBMITTED)"
  obtain t where hit: "find (\<lambda>t. t_id t = ?i) (transactions s) = Some t" using Cons.prems(1) [of r] by auto
  obtain c s1 where c: "tx_markFailed ?i (Some [(''reason'', JStr ''STALE_CREATED_TRANSACTION'')]) s = (Inr c, s1)" "settles ?i s s1"
    using mark_closes(1) [OF hit] by blast
  let ?rest = "case tr_positionId r of
                None \<Rightarrow> ret ()
              | Some positionId \<Rightarrow>
                  whenE (tr_type r = DEPOSIT)
                    (andThen (pos_findById positionId) (\<lambda>found.
                     (case found of
                        None \<Rightarrow> ret ()
                      | Some p \<Rightarrow> whenE (pr_status p = P_PENDING)
                                   (andThen (pos_markFailed (pr_positionId p)) (\<lambda>_. ret ())))))"
  have "\<exists>s'. ?rest s1 = (Inr (), s') \<and> transactions s' = transactions s1"
  proof (cases "tr_positionId r")
    case (Some pid)
    show ?thesis
    proof (cases "find (\<lambda>p. p_id p = pid) (positions s1)")
      case (Some p)
      have "p_id p = pid" using Some by (auto dest: find_Some_iff_first)
      with position_writes_succeed(1) [OF Some] \<open>tr_positionId r = Some pid\<close> Some show ?thesis
        by (auto simp: andThen_Inr found_position whenE_def)
    qed (simp add: \<open>tr_positionId r = Some pid\<close> andThen_Inr found_position whenE_def)
  qed simp
  then obtain s2 where s2: "?rest s1 = (Inr (), s2)" "transactions s2 = transactions s1" by blast
  have set: "settles ?i s s2" by (rule settles_same [OF c(2) s2(2)])
  then obtain t' where t': "t_id t' = ?i" "\<not> isOpen (t_status t')"
    and rows: "transactions s2 = updWhere (\<lambda>q. t_id q = ?i) (\<lambda>_. t') (transactions s)" by (rule settlesE)
  have same: "?f (transactions s2) = ?f (transactions s)"
    unfolding rows by (rule filter_updWhere) (use t' Cons.prems(2) in \<open>auto simp: isOpen_def\<close>)
  have "\<exists>m' s'. rec_staleLoop (m\<lparr>rs_scanned := rs_scanned m + 1, rs_failed := rs_failed m + 1\<rparr>) rs s2 = (Inr m', s')
     \<and> ?f (transactions s') = ?f (transactions s2)"
  proof (rule Cons.IH)
    show "\<exists>t. find (\<lambda>t. t_id t = tr_transactionId q) (transactions s2) = Some t" if "q \<in> set rs" for q
    proof (cases "tr_transactionId q = ?i")
      case True
      have "find (\<lambda>t. t_id t = ?i) (updWhere (\<lambda>q. t_id q = ?i) (\<lambda>_. t') ts) = map_option (\<lambda>_. t') (find (\<lambda>t. t_id t = ?i) ts)" for ts
        using t'(1) by (induction ts) auto
      then show ?thesis using hit by (simp add: rows True)
    next
      case False
      with settles_find [OF set this] Cons.prems(1) [of q] that show ?thesis by simp
    qed
    show "t_status v \<noteq> T_SUBMITTED" if "q \<in> set rs" "v \<in> set (transactions s2)" "t_id v = tr_transactionId q" for q v
      using settles_rows [OF set that(2)] Cons.prems(2) [of q v] that by (auto simp: isOpen_def)
  qed
  then show ?case using c(1) s2(1) same by (auto simp: andThen_Inr)
qed simp

section \<open>The job\<close>

definition submitted :: "world \<Rightarrow> transaction list" where
  "submitted s = filter (\<lambda>t. t_status t = T_SUBMITTED) (transactions s)"

lemma stale_runs:
  assumes "dbInv s"
  shows "\<exists>m s'. rec_reconcileStaleCreated emptySummary s = (Inr m, s') \<and> submitted s' = submitted s"
proof -
  let ?old = "filter (\<lambda>t. t_status t = T_CREATED \<and> t_txHash t = None \<and> t_createdAt t < now s - staleCreatedMinutes * 60000) (transactions s)"
  let ?rs = "map (toTransactionRecord None) (take 50 (sort_key t_createdAt ?old))"
  have d: "distinct (map t_id (transactions s))" using assms by (simp add: dbInv_def txInv_def)
  have row: "\<exists>t \<in> set (transactions s). r = toTransactionRecord None t \<and> t_status t = T_CREATED" if "r \<in> set ?rs" for r
    using that by (auto dest!: in_set_takeD)
  have "\<exists>m' s'. rec_staleLoop emptySummary ?rs s = (Inr m', s') \<and> submitted s' = submitted s"
    unfolding submitted_def
  proof (rule staleLoop_runs)
    fix r assume "r \<in> set ?rs"
    then obtain t where t: "t \<in> set (transactions s)" "r = toTransactionRecord None t" "t_status t = T_CREATED" using row by blast
    then show "\<exists>t. find (\<lambda>t. t_id t = tr_transactionId r) (transactions s) = Some t"
      using find_distinct_key [OF d t(1)] by auto
    show "t_status q \<noteq> T_SUBMITTED" if "q \<in> set (transactions s)" "t_id q = tr_transactionId r" for q
      using distinct_key_eq [OF d that(1) t(1)] that(2) t by simp
  qed
  then show ?thesis
    by (auto simp: rec_reconcileStaleCreated_def tx_findStaleCreated_def txRepo_findStaleCreated_def andThen_def)
qed

lemma stale_dbInv: "preserves dbInv (rec_reconcileStaleCreated summary)"
  unfolding rec_reconcileStaleCreated_def by (intro pres rec_staleLoop_dbInv)

lemma run_settles:
  assumes inv: "dbInv s" and few: "length (submitted s) \<le> 100" and ready: "\<And>t. t \<in> set (submitted s) \<Longrightarrow> readable x t"
  shows "\<exists>m s'. rec_runReconciliation x s = (Inr m, s') \<and> submitted s' = []
     \<and> rs_confirmed m + rs_reverted m = length (submitted s)"
proof -
  obtain m s1 where stale: "rec_reconcileStaleCreated emptySummary s = (Inr m, s1)" and same: "submitted s1 = submitted s"
    using stale_runs [OF inv] by blast
  have inv1: "dbInv s1" by (rule preserves_run [OF stale_dbInv stale inv])
  then have d: "distinct (map t_id (transactions s1))" by (simp add: dbInv_def txInv_def)
  have hash: "t_txHash t \<noteq> None" if "t \<in> set (transactions s1)" "t_status t = T_SUBMITTED" for t
  proof -
    have "t \<in> set (submitted s1)" using that by (simp add: submitted_def)
    then show ?thesis using ready [of t] same by (auto simp: readable_def)
  qed
  let ?ts = "sort_key t_updatedAt (submitted s1)"
  have "filter (\<lambda>t. t_status t = T_SUBMITTED \<and> t_txHash t \<noteq> None) (transactions s1) = submitted s1"
    unfolding submitted_def by (rule filter_cong) (auto dest: hash)
  then have found: "tx_findPendingReconciliation 100 s1 = (Inr (map (toTransactionRecord None) ?ts), s1)"
    using few same by (simp add: tx_findPendingReconciliation_def txRepo_findPendingReconciliation_def andThen_def)
  let ?rs = "map (toTransactionRecord None) ?ts"
  have ids: "map tr_transactionId ?rs = map t_id ?ts" by simp
  have "inHand x s1 r" if "r \<in> set ?rs" for r
  proof -
    from that obtain t where t: "r = toTransactionRecord None t" "t \<in> set (submitted s1)" by auto
    then have "t \<in> set (transactions s1)" "t_status t = T_SUBMITTED" by (simp_all add: submitted_def)
    then show ?thesis unfolding inHand_def using t ready [of t] same find_distinct_key [OF d] by metis
  qed
  moreover have "distinct (map tr_transactionId ?rs)"
  proof -
    have "distinct (map t_id (submitted s1))" unfolding submitted_def using d by (rule distinct_map_filter)
    then show ?thesis unfolding ids by (simp add: distinct_map)
  qed
  ultimately obtain m' s2 where loop: "rec_pendingLoop x m ?rs s1 = (Inr m', s2)"
    "rs_confirmed m' + rs_reverted m' = rs_confirmed m + rs_reverted m + length ?rs"
    and rest: "\<forall>t \<in> set (transactions s2). t \<in> set (transactions s1) \<and> t_id t \<notin> set (map tr_transactionId ?rs) \<or> \<not> isOpen (t_status t)"
    using pendingLoop_settles [OF inv1, of ?rs x m] by blast
  have "t_status t \<noteq> T_SUBMITTED" if "t \<in> set (transactions s2)" for t
    using rest that by (auto simp: submitted_def isOpen_def)
  then have "submitted s2 = []" by (simp add: submitted_def filter_empty_conv)
  moreover have "rs_confirmed m = 0 \<and> rs_reverted m = 0"
  proof -
    have "rec_staleLoop n rs t = (Inr m, s') \<Longrightarrow> rs_confirmed m = rs_confirmed n \<and> rs_reverted m = rs_reverted n" for n rs t s'
      by (induction rs arbitrary: n t) (force elim!: andThen_InrE)+
    then show ?thesis using stale
      by (auto simp: rec_reconcileStaleCreated_def emptySummary_def elim!: andThen_InrE)
  qed
  ultimately show ?thesis using stale found loop same
    by (simp add: rec_runReconciliation_def andThen_Inr)
qed

text \<open>The whole job: whatever it answers, nothing is left submitted.\<close>

lemma job_settles:
  assumes inv: "dbInv s" and lock: "lockAcquire x jobId s = (Inr True, s1)"
    and few: "length (submitted s) \<le> 100" and ready: "\<And>t. t \<in> set (submitted s) \<Longrightarrow> readable x t"
  shows "submitted (snd (reconcilePendingTransactions x jobId s)) = []"
proof -
  have red: "ignoresRedis (\<lambda>t. dbInv t \<and> submitted t = submitted s)"
    using ignoresRedis_dbInv by (auto simp: ignoresRedis_def ignoresOutside_def submitted_def)
  have "dbInv s1" "submitted s1 = submitted s" using preserves_run [OF preserves_lock(1) [OF red] lock] inv by simp_all
  with run_settles [of s1 x] few ready obtain m s2 where run: "rec_runReconciliation x s1 = (Inr m, s2)" "submitted s2 = []" by auto
  have "ignoresRedis (\<lambda>t. submitted t = [])" by (simp add: ignoresRedis_def ignoresOutside_def submitted_def)
  from preservesD [OF preserves_lock(2) [OF this], of s2 x jobId] run
  have "submitted (snd (lockRelease x jobId s2)) = []" by simp
  with run lock show ?thesis
    by (auto simp: reconcilePendingTransactions_def andThen_Inr finallyDo_def split: prod.splits sum.splits)
qed

end
