(* ===== verification/Canonical.thy ===== *)
theory Canonical
  imports JsBase "HOL-Library.Char_ord" "HOL-Library.List_Lexorder" "HOL-Library.Multiset"
begin

text \<open>
  \<^verbatim>\<open>src/idempotency/utils/request-hash.util.ts\<close>: the canonical text of a request.
  \<open>sortValue\<close> sorts the keys of every object, \<open>stringify\<close> is \<open>JSON.stringify\<close> (strings in
  their quoted form, numbers as integers).  An object is its list of properties in enumeration
  order; \<open>fromEntries\<close> puts integer-like keys first, in numeric order, as JavaScript does.

  The facts: the canonical text does not depend on the order in which a client wrote the keys,
  at any depth (\<open>stableStringify_same\<close>), and \<open>stringify\<close> is injective (\<open>stringify_inj\<close>), so two
  requests with the same canonical text are equal up to that order.
\<close>

section \<open>\<open>JSON.stringify\<close>\<close>

definition hexDigit :: "nat \<Rightarrow> char" where
  "hexDigit d = char_of (if d < 10 then 48 + d else 87 + d)"

definition backslash :: char where
  "backslash = CHR 0x5C"

definition doubleQuote :: char where
  "doubleQuote = CHR 0x22"

definition escapeChar :: "char \<Rightarrow> string" where
  "escapeChar c =
     (if c = doubleQuote \<or> c = backslash then [backslash, c]
      else if code c = 8 then backslash # ''b''
      else if code c = 9 then backslash # ''t''
      else if code c = 10 then backslash # ''n''
      else if code c = 12 then backslash # ''f''
      else if code c = 13 then backslash # ''r''
      else if code c < 32 then backslash # ''u00'' @ [hexDigit (code c div 16), hexDigit (code c mod 16)]
      else [c])"

definition quoteString :: "string \<Rightarrow> string" where
  "quoteString s = doubleQuote # concat (map escapeChar s) @ [doubleQuote]"

fun stringify :: "json \<Rightarrow> string"
and stringifyElems :: "json list \<Rightarrow> string"
and stringifyProps :: "(string \<times> json) list \<Rightarrow> string" where
  "stringify JNull = ''null''"
| "stringify (JBool b) = (if b then ''true'' else ''false'')"
| "stringify (JNum n) = showInt n"
| "stringify (JStr s) = quoteString s"
| "stringify (JArr xs) = CHR ''['' # stringifyElems xs @ '']''"
| "stringify (JObj kvs) = CHR ''{'' # stringifyProps kvs @ ''}''"
| "stringifyElems [] = []"
| "stringifyElems [x] = stringify x"
| "stringifyElems (x # y # ys) = stringify x @ CHR '','' # stringifyElems (y # ys)"
| "stringifyProps [] = []"
| "stringifyProps [(k, v)] = quoteString k @ CHR '':'' # stringify v"
| "stringifyProps ((k, v) # kv # kvs) = quoteString k @ CHR '':'' # stringify v @ CHR '','' # stringifyProps (kv # kvs)"

section \<open>Sorting\<close>

text \<open>The number an array-index key stands for: no leading zero, below \<open>2 ^ 32 - 1\<close>.\<close>

definition arrayIndex :: "string \<Rightarrow> nat option" where
  "arrayIndex k =
     (if allDigits k \<and> (k = ''0'' \<or> hd k \<noteq> CHR ''0'')
      then (case parseDigits 10 k of
              Some n \<Rightarrow> if n < 2 ^ 32 - 1 then Some n else None
            | None \<Rightarrow> None)
      else None)"

definition fromEntries :: "(string \<times> json) list \<Rightarrow> (string \<times> json) list" where
  "fromEntries kvs =
     sort_key (\<lambda>(k, v). the (arrayIndex k)) (filter (\<lambda>(k, v). arrayIndex k \<noteq> None) kvs)
     @ filter (\<lambda>(k, v). arrayIndex k = None) kvs"

fun sortValue :: "json \<Rightarrow> json" where
  "sortValue (JArr xs) = JArr (map sortValue xs)"
| "sortValue (JObj kvs) = JObj (fromEntries (map (\<lambda>(k, v). (k, sortValue v)) (sort_key fst kvs)))"
| "sortValue v = v"

definition stableStringify :: "json \<Rightarrow> string" where
  "stableStringify v = stringify (sortValue v)"

record request_fingerprint =
  fp_method :: string
  fp_path :: string
  fp_params :: "(string \<times> json) list"
  fp_query :: "(string \<times> json) list"
  fp_body :: json

definition fingerprintJson :: "request_fingerprint \<Rightarrow> json" where
  "fingerprintJson f =
     JObj [(''method'', JStr (fp_method f)), (''path'', JStr (fp_path f)), (''params'', JObj (fp_params f)),
           (''query'', JObj (fp_query f)), (''body'', fp_body f)]"

text \<open>\<open>hashRequest\<close>; SHA-256 in hexadecimal is a parameter.\<close>

definition hashRequest :: "(string \<Rightarrow> string) \<Rightarrow> request_fingerprint \<Rightarrow> string" where
  "hashRequest sha256 f = sha256 (stableStringify (fingerprintJson f))"

section \<open>Independence of the key order\<close>

text \<open>Equal up to the order of the properties of every object.\<close>

inductive sameJson :: "json \<Rightarrow> json \<Rightarrow> bool" where
  sameRefl [intro]: "sameJson v v"
| sameSym: "sameJson v w \<Longrightarrow> sameJson w v"
| sameTrans: "sameJson u v \<Longrightarrow> sameJson v w \<Longrightarrow> sameJson u w"
| sameOrder: "mset kvs = mset kvs' \<Longrightarrow> distinct (map fst kvs) \<Longrightarrow> sameJson (JObj kvs) (JObj kvs')"
| sameElems: "list_all2 sameJson xs ys \<Longrightarrow> sameJson (JArr xs) (JArr ys)"
| sameProps: "map fst kvs = map fst kvs' \<Longrightarrow> list_all2 sameJson (map snd kvs) (map snd kvs') \<Longrightarrow>
     sameJson (JObj kvs) (JObj kvs')"

lemma insort_key_fst_map:
  "map (\<lambda>(k, v). (k, g v)) (insort_key fst x xs) = insort_key fst ((\<lambda>(k, v). (k, g v)) x) (map (\<lambda>(k, v). (k, g v)) xs)"
  by (induction xs) (auto split: prod.splits)

lemma sort_key_fst_map:
  "map (\<lambda>(k, v). (k, g v)) (sort_key fst xs) = sort_key fst (map (\<lambda>(k, v). (k, g v)) xs)"
  by (induction xs) (simp_all add: insort_key_fst_map)

lemma sortValue_obj:
  "sortValue (JObj kvs) = JObj (fromEntries (sort_key fst (map (\<lambda>(k, v). (k, sortValue v)) kvs)))"
  by (simp add: sort_key_fst_map)

lemma sortValue_order:
  assumes "mset kvs = mset kvs'" and "distinct (map fst kvs)"
  shows "sortValue (JObj kvs) = sortValue (JObj kvs')"
proof -
  let ?g = "\<lambda>(k, v). (k, sortValue v)"
  have "mset (map ?g kvs) = mset (map ?g kvs')" using assms(1) by simp
  moreover have "map fst (map ?g kvs) = map fst kvs" by (induction kvs) auto
  with assms(2) have "inj_on fst (set (map ?g kvs))" by (metis distinct_map)
  ultimately have "sort_key fst (map ?g kvs) = sort_key fst (map ?g kvs')"
    by (intro sort_key_inj_key_eq) simp_all
  then show ?thesis by (simp only: sortValue_obj)
qed

lemma sortValue_props:
  "map fst kvs = map fst kvs' \<Longrightarrow> list_all2 (\<lambda>v w. sortValue v = sortValue w) (map snd kvs) (map snd kvs') \<Longrightarrow>
   map (\<lambda>(k, v). (k, sortValue v)) kvs = map (\<lambda>(k, v). (k, sortValue v)) kvs'"
  by (induction kvs arbitrary: kvs') (auto simp: Cons_eq_map_conv)

lemma same_sortValue: "sameJson v w \<Longrightarrow> sortValue v = sortValue w"
proof (induction rule: sameJson.induct)
  case (sameElems xs ys)
  then have "map sortValue xs = map sortValue ys" by (induction rule: list_all2_induct) auto
  then show ?case by simp
next
  case (sameProps kvs kvs')
  then have "map (\<lambda>(k, v). (k, sortValue v)) kvs = map (\<lambda>(k, v). (k, sortValue v)) kvs'"
    by (intro sortValue_props) (auto elim: list_all2_mono)
  then show ?case by (simp only: sortValue_obj)
qed (auto intro: sortValue_order simp del: sortValue.simps)

lemma stableStringify_same: "sameJson v w \<Longrightarrow> stableStringify v = stableStringify w"
  by (simp add: stableStringify_def same_sortValue)

text \<open>Objects with one value per key, at every depth: what \<open>JSON.parse\<close> returns.\<close>

fun wfJson :: "json \<Rightarrow> bool" where
  "wfJson (JArr xs) = list_all wfJson xs"
| "wfJson (JObj kvs) = (distinct (map fst kvs) \<and> list_all (\<lambda>(k, v). wfJson v) kvs)"
| "wfJson _ = True"

lemma mset_fromEntries: "mset (fromEntries kvs) = mset kvs"
proof -
  have "mset (filter p kvs) + mset (filter (\<lambda>q. \<not> p q) kvs) = mset kvs" for p :: "string \<times> json \<Rightarrow> bool"
    by (induction kvs) auto
  from this [of "\<lambda>(k, v). arrayIndex k \<noteq> None"] show ?thesis
    by (simp add: fromEntries_def case_prod_unfold)
qed

lemma sortValue_is_same: "wfJson v \<Longrightarrow> sameJson v (sortValue v)"
proof (induction v rule: sortValue.induct)
  case (1 xs)
  then have "list_all2 sameJson xs (map sortValue xs)" by (auto simp: list_all2_conv_all_nth list_all_length)
  then show ?case by (simp add: sameElems)
next
  case (2 kvs)
  let ?g = "\<lambda>(k, v). (k, sortValue v)"
  have "sameJson (snd q) (sortValue (snd q))" if "q \<in> set kvs" for q
    using 2 that by (cases q) (auto simp: list_all_iff intro: 2(1))
  then have "list_all2 sameJson (map snd kvs) (map snd (map ?g kvs))"
    by (auto simp: list_all2_conv_all_nth case_prod_unfold)
  moreover have k: "map fst (map ?g kvs) = map fst kvs" by (induction kvs) auto
  ultimately have "sameJson (JObj kvs) (JObj (map ?g kvs))" by (intro sameProps) simp_all
  moreover have "sameJson (JObj (map ?g kvs)) (JObj (fromEntries (sort_key fst (map ?g kvs))))"
    by (rule sameOrder) (use 2(2) in \<open>simp_all only: k mset_fromEntries mset_sort wfJson.simps\<close>)
  ultimately show ?case unfolding sortValue_obj by (rule sameTrans)
qed auto

section \<open>\<open>stringify\<close> is injective\<close>

lemma code_inj: "code a = code b \<Longrightarrow> a = b"
  by (simp add: code_def)

lemma hexDigit_inj: "a < 16 \<Longrightarrow> b < 16 \<Longrightarrow> hexDigit a = hexDigit b \<Longrightarrow> a = b"
proof -
  assume a: "a < 16" "b < 16" and "hexDigit a = hexDigit b"
  then have "code (hexDigit a) = code (hexDigit b)" by simp
  with a show ?thesis by (auto simp: hexDigit_def split: if_splits)
qed

text \<open>An escaped character is not empty, does not start with a quote, and can be told apart.\<close>

lemma escapeChar_hd: "\<exists>h t. escapeChar c = h # t \<and> h \<noteq> doubleQuote"
  by (auto simp: escapeChar_def doubleQuote_def backslash_def)

definition isShort :: "char \<Rightarrow> bool" where
  "isShort c = (c = doubleQuote \<or> c = backslash \<or> code c < 32)"

lemma escapeChar_plain: "\<not> isShort c \<Longrightarrow> escapeChar c = [c] \<and> c \<noteq> backslash"
  by (auto simp: escapeChar_def isShort_def)

lemma escapeChar_short: "isShort c \<Longrightarrow> \<exists>t. escapeChar c = backslash # t"
  by (auto simp: escapeChar_def isShort_def)

lemma code_numbers [simp]: "code doubleQuote = 34" "code backslash = 92"
  by (simp_all add: code_def doubleQuote_def backslash_def)

lemma short_cases:
  assumes "isShort c"
  shows "escapeChar c = [backslash, c] \<and> (c = doubleQuote \<or> c = backslash)
   \<or> (\<exists>x. escapeChar c = [backslash, x] \<and> (code c, x) \<in> {(8, CHR ''b''), (9, CHR ''t''), (10, CHR ''n''), (12, CHR ''f''), (13, CHR ''r'')})
   \<or> escapeChar c = backslash # ''u00'' @ [hexDigit (code c div 16), hexDigit (code c mod 16)] \<and> code c < 32"
proof (cases "c = doubleQuote \<or> c = backslash")
  case False
  then have "code c < 32" using assms by (simp add: isShort_def)
  with False show ?thesis by (simp add: escapeChar_def)
qed (simp add: escapeChar_def)

lemma escapeChar_prefix:
  assumes "escapeChar c @ r = escapeChar d @ r'"
  shows "c = d \<and> r = r'"
proof (cases "isShort c \<and> isShort d")
  case False
  then show ?thesis using assms escapeChar_plain [of c] escapeChar_plain [of d] escapeChar_short [of c] escapeChar_short [of d]
    by (cases "isShort c"; cases "isShort d") auto
next
  case True
  then have c: "isShort c" and d: "isShort d" by auto
  have hex: "code c = code d" if "hexDigit (code c div 16) = hexDigit (code d div 16)"
    "hexDigit (code c mod 16) = hexDigit (code d mod 16)" "code c < 32" "code d < 32"
  proof -
    have "code c div 16 = code d div 16" "code c mod 16 = code d mod 16"
      using that by (auto intro!: hexDigit_inj)
    then show ?thesis by (metis div_mult_mod_eq)
  qed
  show ?thesis
    using short_cases [OF c] short_cases [OF d] assms hex
    by (elim disjE) (auto simp: doubleQuote_def backslash_def intro: code_inj)
qed

lemma quoteBody_inj:
  "concat (map escapeChar s) @ doubleQuote # r = concat (map escapeChar t) @ doubleQuote # r' \<Longrightarrow> s = t \<and> r = r'"
proof (induction s arbitrary: t)
  case Nil
  show ?case
  proof (cases t)
    case (Cons d t')
    with Nil escapeChar_hd [of d] show ?thesis by auto
  qed (use Nil in auto)
next
  case (Cons c s)
  show ?case
  proof (cases t)
    case Nil
    with Cons.prems escapeChar_hd [of c] show ?thesis by auto
  next
    case (Cons d t')
    with Cons.prems have "escapeChar c @ (concat (map escapeChar s) @ doubleQuote # r)
        = escapeChar d @ (concat (map escapeChar t') @ doubleQuote # r')" by simp
    with escapeChar_prefix have "c = d"
      and "concat (map escapeChar s) @ doubleQuote # r = concat (map escapeChar t') @ doubleQuote # r'" by blast+
    with Cons.IH Cons show ?thesis by blast
  qed
qed

lemma quoteString_inj: "quoteString s @ r = quoteString t @ r' \<Longrightarrow> s = t \<and> r = r'"
  using quoteBody_inj [of s r t r'] by (simp add: quoteString_def)

text \<open>What can follow a value inside an array or an object, or at the end.\<close>

definition delimited :: "string \<Rightarrow> bool" where
  "delimited r \<longleftrightarrow> (r = [] \<or> hd r \<in> {CHR '','', CHR '']'', CHR ''}''})"

lemma delimited_simps [simp]:
  "delimited []" "delimited (c # r) \<longleftrightarrow> c \<in> {CHR '','', CHR '']'', CHR ''}''}"
  by (auto simp: delimited_def)

lemma showInt_delimited:
  assumes "showInt m @ r = showInt n @ r'" and "delimited r" and "delimited r'"
  shows "m = n \<and> r = r'"
proof -
  let ?p = "\<lambda>c. isDigit c \<or> c = CHR ''-''"
  have "takeWhile ?p (showInt i @ q) = showInt i" if "delimited q" for i q
  proof (cases q)
    case Nil
    have "takeWhile ?p (showInt i) = showInt i"
      by (rule takeWhile_eq_all_conv [THEN iffD2]) (use showNat_digits in \<open>auto simp: showInt_def list_all_iff split: if_splits\<close>)
    with Nil show ?thesis by simp
  next
    case (Cons c q')
    with that have "\<not> ?p c" by (auto simp: isDigit_def code_def)
    have "\<forall>x \<in> set (showInt i). ?p x" using showNat_digits by (auto simp: showInt_def list_all_iff split: if_splits)
    with Cons \<open>\<not> ?p c\<close> show ?thesis by (simp add: takeWhile_append)
  qed
  with assms have "showInt m = showInt n" by metis
  with assms(1) show ?thesis by (auto dest: showInt_inj)
qed

lemma showInt_hd: "\<exists>h t. showInt n = h # t \<and> (isDigit h \<or> h = CHR ''-'')"
proof (cases "showInt n")
  case (Cons h t)
  then have "h \<in> set (showInt n)" by simp
  then have "isDigit h \<or> h = CHR ''-''"
    using showNat_digits by (auto simp: showInt_def list_all_iff split: if_splits)
  with Cons show ?thesis by blast
qed simp

text \<open>The first character tells the kinds of values apart.\<close>

fun startsAs :: "json \<Rightarrow> char \<Rightarrow> bool" where
  "startsAs JNull h = (h = CHR ''n'')"
| "startsAs (JBool b) h = (h = (if b then CHR ''t'' else CHR ''f''))"
| "startsAs (JNum n) h = (isDigit h \<or> h = CHR ''-'')"
| "startsAs (JStr s) h = (h = doubleQuote)"
| "startsAs (JArr xs) h = (h = CHR ''['')"
| "startsAs (JObj kvs) h = (h = CHR ''{'')"

lemma stringify_starts: "\<exists>h t. stringify v = h # t \<and> startsAs v h"
  using showInt_hd by (cases v) (auto simp: quoteString_def)

lemma not_digits [simp]:
  "\<not> isDigit (CHR ''n'')" "\<not> isDigit (CHR ''t'')" "\<not> isDigit (CHR ''f'')" "\<not> isDigit doubleQuote" "\<not> isDigit (CHR 0x22)"
  "\<not> isDigit (CHR ''['')" "\<not> isDigit (CHR ''{'')" "\<not> isDigit (CHR '']'')" "\<not> isDigit (CHR ''}'')" "\<not> isDigit (CHR '','')"
  by (simp_all add: isDigit_def, simp_all add: code_def)

lemma startsAs_not_close: "startsAs v h \<Longrightarrow> h \<noteq> CHR '']'' \<and> h \<noteq> CHR ''}'' \<and> h \<noteq> CHR '',''"
  by (cases v) (auto simp: doubleQuote_def split: if_splits)

lemma same_start:
  assumes "stringify v @ r = stringify w @ r'"
  shows "\<exists>h. startsAs v h \<and> startsAs w h"
  using stringify_starts [of v] stringify_starts [of w] assms by auto

fun sameKind :: "json \<Rightarrow> json \<Rightarrow> bool" where
  "sameKind JNull JNull = True"
| "sameKind (JBool a) (JBool b) = (a = b)"
| "sameKind (JNum a) (JNum b) = True"
| "sameKind (JStr a) (JStr b) = True"
| "sameKind (JArr a) (JArr b) = True"
| "sameKind (JObj a) (JObj b) = True"
| "sameKind _ _ = False"

lemma startsAs_kind: "startsAs v h \<Longrightarrow> startsAs w h \<Longrightarrow> sameKind v w"
  by (cases v; cases w) (auto simp: doubleQuote_def split: if_splits)

lemma stringify_kind: "stringify v @ r = stringify w @ r' \<Longrightarrow> sameKind v w"
  using same_start startsAs_kind by blast

text \<open>A non-empty list is its first member and the members that follow a comma each.\<close>

definition moreElems :: "json list \<Rightarrow> string" where
  "moreElems xs = (if xs = [] then [] else CHR '','' # stringifyElems xs)"

definition moreProps :: "(string \<times> json) list \<Rightarrow> string" where
  "moreProps kvs = (if kvs = [] then [] else CHR '','' # stringifyProps kvs)"

lemma stringify_Cons:
  "stringifyElems (x # xs) = stringify x @ moreElems xs"
  "stringifyProps ((k, v) # kvs) = quoteString k @ CHR '':'' # stringify v @ moreProps kvs"
  by (cases xs; simp add: moreElems_def) (cases kvs; simp add: moreProps_def)

lemma more_delimited: "delimited (moreElems xs @ CHR '']'' # r)" "delimited (moreProps kvs @ CHR ''}'' # r)"
  by (simp_all add: moreElems_def moreProps_def)

definition readsBack :: "json \<Rightarrow> bool" where
  "readsBack v \<longleftrightarrow> (\<forall>w r r'. stringify v @ r = stringify w @ r' \<longrightarrow> delimited r \<longrightarrow> delimited r' \<longrightarrow> v = w \<and> r = r')"

lemma readsBackD: "readsBack v \<Longrightarrow> stringify v @ r = stringify w @ r' \<Longrightarrow> delimited r \<Longrightarrow> delimited r' \<Longrightarrow> v = w \<and> r = r'"
  by (simp add: readsBack_def)

lemma stringify_not_close: "stringify v @ r \<noteq> CHR '']'' # r'"
  using stringify_starts [of v] startsAs_not_close [of v] by auto

lemma elems_read_back:
  assumes "\<And>x. x \<in> set xs \<Longrightarrow> readsBack x"
    and "stringifyElems xs @ CHR '']'' # r = stringifyElems ys @ CHR '']'' # r'"
  shows "xs = ys \<and> r = r'"
  using assms
proof (induction xs arbitrary: ys)
  case Nil
  then show ?case by (cases ys) (auto simp: stringify_Cons stringify_not_close [symmetric])
next
  case (Cons x xs)
  show ?case
  proof (cases ys)
    case Nil
    with Cons.prems(2) show ?thesis by (simp add: stringify_Cons stringify_not_close)
  next
    case (Cons y ys')
    with Cons.prems(2) have "stringify x @ (moreElems xs @ CHR '']'' # r) = stringify y @ (moreElems ys' @ CHR '']'' # r')"
      by (simp add: stringify_Cons)
    from readsBackD [OF Cons.prems(1) this more_delimited(1) more_delimited(1)]
    have xy: "x = y" and rest: "moreElems xs @ CHR '']'' # r = moreElems ys' @ CHR '']'' # r'" by auto
    from rest have "xs = ys' \<and> r = r'"
      using Cons.IH [of ys'] Cons.prems(1) by (auto simp: moreElems_def split: if_splits)
    with xy Cons show ?thesis by simp
  qed
qed

lemma quoteString_not_close: "quoteString k @ r \<noteq> CHR ''}'' # r'"
  by (simp add: quoteString_def doubleQuote_def)

lemma props_read_back:
  assumes "\<And>k v. (k, v) \<in> set kvs \<Longrightarrow> readsBack v"
    and "stringifyProps kvs @ CHR ''}'' # r = stringifyProps kvs' @ CHR ''}'' # r'"
  shows "kvs = kvs' \<and> r = r'"
  using assms
proof (induction kvs arbitrary: kvs')
  case Nil
  then show ?case by (cases kvs') (auto simp: stringify_Cons quoteString_not_close [symmetric])
next
  case (Cons kv kvs)
  obtain k v where kv: "kv = (k, v)" by fastforce
  show ?case
  proof (cases kvs')
    case Nil
    with Cons.prems(2) kv show ?thesis by (simp add: stringify_Cons quoteString_not_close)
  next
    case (Cons kw kws)
    obtain k' w where kw: "kw = (k', w)" by fastforce
    with Cons kv Cons.prems(2) have "quoteString k @ (CHR '':'' # stringify v @ moreProps kvs @ CHR ''}'' # r)
        = quoteString k' @ (CHR '':'' # stringify w @ moreProps kws @ CHR ''}'' # r')" by (simp add: stringify_Cons)
    from quoteString_inj [OF this] have k: "k = k'"
      and "stringify v @ (moreProps kvs @ CHR ''}'' # r) = stringify w @ (moreProps kws @ CHR ''}'' # r')" by auto
    from readsBackD [OF Cons.prems(1) this(2) more_delimited(2) more_delimited(2)] kv
    have v: "v = w" and rest: "moreProps kvs @ CHR ''}'' # r = moreProps kws @ CHR ''}'' # r'" by auto
    from rest have "kvs = kws \<and> r = r'"
      using Cons.IH [of kws] Cons.prems(1) by (auto simp: moreProps_def split: if_splits)
    with k v kv kw Cons show ?thesis by simp
  qed
qed

lemma readsBack: "readsBack v"
proof (induction v)
  case (JNum n)
  show ?case unfolding readsBack_def
  proof (intro allI impI)
    fix w r r' assume eq: "stringify (JNum n) @ r = stringify w @ r'" and d: "delimited r" "delimited r'"
    from stringify_kind [OF eq] obtain m where "w = JNum m" by (cases w) simp_all
    with eq d showInt_delimited [of n r m r'] show "JNum n = w \<and> r = r'" by simp
  qed
next
  case (JStr s)
  show ?case unfolding readsBack_def
  proof (intro allI impI)
    fix w r r' assume eq: "stringify (JStr s) @ r = stringify w @ r'"
    from stringify_kind [OF eq] obtain t where "w = JStr t" by (cases w) simp_all
    with eq quoteString_inj [of s r t r'] show "JStr s = w \<and> r = r'" by simp
  qed
next
  case (JArr xs)
  show ?case unfolding readsBack_def
  proof (intro allI impI)
    fix w r r' assume eq: "stringify (JArr xs) @ r = stringify w @ r'"
    from stringify_kind [OF eq] obtain ys where "w = JArr ys" by (cases w) simp_all
    with eq elems_read_back [of xs r ys r'] JArr show "JArr xs = w \<and> r = r'" by simp
  qed
next
  case (JObj kvs)
  then have all: "readsBack v" if "(k, v) \<in> set kvs" for k v using that by fastforce
  show ?case unfolding readsBack_def
  proof (intro allI impI)
    fix w r r' assume eq: "stringify (JObj kvs) @ r = stringify w @ r'"
    from stringify_kind [OF eq] obtain kws where "w = JObj kws" by (cases w) simp_all
    with eq props_read_back [of kvs r kws r'] all show "JObj kvs = w \<and> r = r'" by simp
  qed
next
  case JNull
  have "w = JNull" if "sameKind JNull w" for w using that by (cases w) simp_all
  then show ?case unfolding readsBack_def using stringify_kind by (metis append_same_eq same_append_eq)
next
  case (JBool b)
  have "w = JBool b" if "sameKind (JBool b) w" for w using that by (cases w) simp_all
  then show ?case unfolding readsBack_def using stringify_kind by (metis append_same_eq same_append_eq)
qed

lemma stringify_inj: "stringify v = stringify w \<longleftrightarrow> v = w"
  using readsBackD [OF readsBack, of v "[]" w "[]"] by auto

text \<open>The canonical text decides equality up to key order.\<close>

lemma stableStringify_iff:
  assumes "wfJson v" and "wfJson w"
  shows "stableStringify v = stableStringify w \<longleftrightarrow> sameJson v w"
proof
  assume "stableStringify v = stableStringify w"
  then have "sortValue v = sortValue w" by (simp add: stableStringify_def stringify_inj)
  with sortValue_is_same [OF assms(1)] sortValue_is_same [OF assms(2)] show "sameJson v w"
    by (metis sameSym sameTrans)
qed (rule stableStringify_same)

end
