(* ===== verification/Idempotency.thy ===== *)
theory Idempotency
  imports Tables Canonical
begin

text \<open>
  \<^verbatim>\<open>src/idempotency\<close>: the repository (\<open>idemRepo_\<close>), the service (\<open>idem_\<close>) and the interceptor
  (\<open>intercept\<close>), which wraps the handler of an idempotent route.  A response is its status code
  and body; the route's own status code is what the framework set before the interceptor runs.
  The column of the stored response is JSONB: what it makes of a value is the field \<open>e_jsonb\<close> of the
  environment, and a stored response is read back as that.

  The facts: the first call with a key runs the handler and stores a response of the 2xx range;
  every later call with the same key and payload gets that response, as the database keeps it, and runs nothing; a call
  with another payload, or while the first still runs, is refused; a failed call leaves no row.
  The locale \<open>idempotent_handler\<close> is what the interceptor needs of the handler it wraps.
\<close>

section \<open>Operations and requests\<close>

datatype idempotency_operation = OpApproval | OpDeposit | OpWithdrawal

fun requestPathOf :: "idempotency_operation \<Rightarrow> string" where
  "requestPathOf OpApproval = ''POST /earn/vaults/:vaultId/approve''"
| "requestPathOf OpDeposit = ''POST /earn/vaults/:vaultId/deposit''"
| "requestPathOf OpWithdrawal = ''POST /earn/positions/:positionId/withdraw''"

text \<open>What the interceptor reads of a request: the route path falls back to the request's path.\<close>

record http_request =
  h_method :: string
  h_routePath :: "string option"
  h_path :: string
  h_params :: "(string \<times> string) list"
  h_query :: "(string \<times> json) list"
  h_body :: "json option"
  h_header :: "string \<Rightarrow> string option"
  h_userId :: "uuid option"

type_synonym http_response = "nat \<times> json"

section \<open>Repository\<close>

definition idemRepo_findByKeyAndPath :: "string \<Rightarrow> string \<Rightarrow> idempotency_key option io" where
  "idemRepo_findByKeyAndPath key requestPath =
     gets (\<lambda>s. find (\<lambda>r. i_key r = key \<and> i_requestPath r = requestPath) (idempotencyKeys s))"

record create_idempotency_input =
  ci_key :: string
  ci_requestPath :: string
  ci_requestHash :: string
  ci_userId :: "uuid option"
  ci_expiresAt :: nat

text \<open>The insert, against \<open>@@unique([key, requestPath])\<close>.\<close>

definition idemRepo_create :: "create_idempotency_input \<Rightarrow> idempotency_key io" where
  "idemRepo_create input s =
     (if \<exists>r \<in> set (idempotencyKeys s). i_key r = ci_key input \<and> i_requestPath r = ci_requestPath input
      then (Inl uniqueViolation, s)
      else let r = \<lparr>i_id = nextId s, i_userId = ci_userId input, i_key = ci_key input,
                    i_requestPath = ci_requestPath input, i_requestHash = ci_requestHash input,
                    i_responseData = None, i_statusCode = None, i_expiresAt = ci_expiresAt input,
                    i_createdAt = now s\<rparr>
           in (Inr r, s\<lparr>idempotencyKeys := idempotencyKeys s @ [r], nextId := Suc (nextId s)\<rparr>))"

text \<open>The column is \<open>JSONB\<close>: what is read back is \<open>e_jsonb\<close> of what was written.\<close>

definition idemRepo_saveResponse :: "env \<Rightarrow> uuid \<Rightarrow> json \<Rightarrow> nat \<Rightarrow> idempotency_key io" where
  "idemRepo_saveResponse x recordId responseData statusCode =
     idempotencyUpdate recordId
       (\<lambda>r. Inr (r\<lparr>i_responseData := Some (e_jsonb x responseData), i_statusCode := Some statusCode\<rparr>))"

definition idemRepo_deleteById :: "uuid \<Rightarrow> idempotency_key io" where
  "idemRepo_deleteById recordId s =
     (case find (\<lambda>r. i_id r = recordId) (idempotencyKeys s) of
        None \<Rightarrow> (Inl recordNotFound, s)
      | Some r \<Rightarrow> (Inr r, s\<lparr>idempotencyKeys := filter (\<lambda>q. i_id q \<noteq> recordId) (idempotencyKeys s)\<rparr>))"

section \<open>Service\<close>

definition idem_getConfig :: "env \<Rightarrow> idempotency_config res" where
  "idem_getConfig x =
     (case c_idempotency (e_config x) of
        None \<Rightarrow> Inl (PlainError ''Idempotency configuration failed to load'')
      | Some c \<Rightarrow> Inr c)"

text \<open>The hours are added to the local time of the server, which is taken to be UTC.\<close>

definition idem_computeExpiryDate :: "env \<Rightarrow> nat io" where
  "idem_computeExpiryDate x =
     andThen (lift (idem_getConfig x)) (\<lambda>c. gets (\<lambda>s. now s + nat (ttlHours c) * 3600000))"

text \<open>A stored response counts as missing when it is \<open>null\<close>.\<close>

definition idem_resolveExistingRecord :: "idempotency_key \<Rightarrow> string \<Rightarrow> (http_response option \<times> uuid) res" where
  "idem_resolveExistingRecord existing requestHash =
     (if i_requestHash existing \<noteq> requestHash then Inl (idempotencyConflict (i_key existing))
      else (case (i_responseData existing, i_statusCode existing) of
              (Some body, Some st) \<Rightarrow>
                if body = JNull then Inl (idempotencyInProgress (i_key existing))
                else Inr (Some (st, body), i_id existing)
            | _ \<Rightarrow> Inl (idempotencyInProgress (i_key existing))))"

record acquire_input =
  aq_key :: string
  aq_requestPath :: string
  aq_requestHash :: string
  aq_userId :: "uuid option"

text \<open>The second half of \<open>acquire\<close>: create the row, or resolve the one another call created.\<close>

definition idem_acquireNew :: "env \<Rightarrow> acquire_input \<Rightarrow> (http_response option \<times> uuid) io" where
  "idem_acquireNew x input =
     catching
       (andThen (idem_computeExpiryDate x) (\<lambda>expiresAt.
        andThen (idemRepo_create \<lparr>ci_key = aq_key input, ci_requestPath = aq_requestPath input,
                   ci_requestHash = aq_requestHash input, ci_userId = aq_userId input, ci_expiresAt = expiresAt\<rparr>)
          (\<lambda>created. ret (None, i_id created))))
       (\<lambda>e. if \<not> isRetryableIdempotencyError e then throw e
            else andThen (idemRepo_findByKeyAndPath (aq_key input) (aq_requestPath input)) (\<lambda>raced.
                 (case raced of
                    None \<Rightarrow> throw e
                  | Some r \<Rightarrow> lift (idem_resolveExistingRecord r (aq_requestHash input)))))"

definition idem_acquire :: "env \<Rightarrow> acquire_input \<Rightarrow> (http_response option \<times> uuid) io" where
  "idem_acquire x input =
     andThen (idemRepo_findByKeyAndPath (aq_key input) (aq_requestPath input)) (\<lambda>existing.
     (case existing of
        Some r \<Rightarrow> lift (idem_resolveExistingRecord r (aq_requestHash input))
      | None \<Rightarrow> idem_acquireNew x input))"

definition shouldPersistResponse :: "nat \<Rightarrow> bool" where
  "shouldPersistResponse statusCode = (200 \<le> statusCode \<and> statusCode < 300)"

definition idem_complete :: "env \<Rightarrow> uuid \<Rightarrow> nat \<Rightarrow> json \<Rightarrow> unit io" where
  "idem_complete x recordId statusCode responseData =
     (if \<not> shouldPersistResponse statusCode
      then andThen (idemRepo_deleteById recordId) (\<lambda>_. ret ())
      else andThen (idemRepo_saveResponse x recordId responseData statusCode) (\<lambda>_. ret ()))"

section \<open>Interceptor\<close>

definition readIdempotencyKey :: "http_request \<Rightarrow> string \<Rightarrow> string option" where
  "readIdempotencyKey request name =
     (case h_header request name of
        None \<Rightarrow> None
      | Some v \<Rightarrow> if trim v = [] then None else Some (trim v))"

text \<open>\<open>String(value)\<close>.\<close>

fun jsString :: "json \<Rightarrow> string" and jsJoin :: "json list \<Rightarrow> string" where
  "jsString JNull = ''null''"
| "jsString (JBool b) = (if b then ''true'' else ''false'')"
| "jsString (JNum n) = showInt n"
| "jsString (JStr s) = s"
| "jsString (JArr xs) = jsJoin xs"
| "jsString (JObj kvs) = ''[object Object]''"
| "jsJoin [] = []"
| "jsJoin [v] = (if v = JNull then [] else jsString v)"
| "jsJoin (v # w # vs) = (if v = JNull then [] else jsString v) @ CHR '','' # jsJoin (w # vs)"

definition normalizeParams :: "(string \<times> string) list \<Rightarrow> (string \<times> json) list" where
  "normalizeParams params = fromEntries (map (\<lambda>(k, v). (k, JStr v)) params)"

definition normalizeQuery :: "(string \<times> json) list \<Rightarrow> (string \<times> json) list" where
  "normalizeQuery query =
     fromEntries (map (\<lambda>(k, v). (k, case v of JArr xs \<Rightarrow> JArr (map (\<lambda>e. JStr (jsString e)) xs)
                                          | _ \<Rightarrow> JStr (jsString v))) query)"

definition fingerprintOf :: "http_request \<Rightarrow> request_fingerprint" where
  "fingerprintOf request =
     \<lparr>fp_method = h_method request,
      fp_path = (case h_routePath request of Some p \<Rightarrow> p | None \<Rightarrow> h_path request),
      fp_params = normalizeParams (h_params request), fp_query = normalizeQuery (h_query request),
      fp_body = (case h_body request of Some b \<Rightarrow> b | None \<Rightarrow> JNull)\<rparr>"

definition payloadJson :: "payload \<Rightarrow> json" where
  "payloadJson p =
     JObj (optField ''message'' (map_option (\<lambda>m. case m of MsgOne s \<Rightarrow> JStr s | MsgMany ms \<Rightarrow> JArr (map JStr ms)) (pl_message p))
       @ optField ''error'' (map_option JStr (pl_error p)) @ optField ''code'' (map_option JStr (pl_code p))
       @ optField ''details'' (pl_details p))"

definition idem_handleFailure :: "env \<Rightarrow> uuid \<Rightarrow> exn \<Rightarrow> unit io" where
  "idem_handleFailure x recordId e =
     (case e of
        HttpException st (RespString m) \<Rightarrow> idem_complete x recordId st (JStr m)
      | HttpException st (RespObject p) \<Rightarrow> idem_complete x recordId st (payloadJson p)
      | _ \<Rightarrow> idem_complete x recordId 500 (JObj [(''message'', JStr ''Internal server error'')]))"

text \<open>
  \<open>routeStatus\<close>: the code the framework set for the route.  An error of the handler, or of
  storing its response, is handled and thrown again.
\<close>

definition idem_runHandler :: "env \<Rightarrow> nat \<Rightarrow> uuid \<Rightarrow> json io \<Rightarrow> http_response io" where
  "idem_runHandler x routeStatus recordId handler =
     catching
       (andThen handler (\<lambda>body.
        andThen (idem_complete x recordId (if routeStatus = 0 then 200 else routeStatus) body)
          (\<lambda>_. ret (routeStatus, body))))
       (\<lambda>e. andThen (idem_handleFailure x recordId e) (\<lambda>_. throw e))"

definition acquireInputOf :: "env \<Rightarrow> idempotency_operation \<Rightarrow> http_request \<Rightarrow> string \<Rightarrow> acquire_input" where
  "acquireInputOf x operation request key =
     \<lparr>aq_key = key, aq_requestPath = requestPathOf operation,
      aq_requestHash = hashRequest (e_sha256 x) (fingerprintOf request), aq_userId = h_userId request\<rparr>"

definition intercept ::
    "env \<Rightarrow> idempotency_operation option \<Rightarrow> nat \<Rightarrow> http_request \<Rightarrow> json io \<Rightarrow> http_response io" where
  "intercept x options routeStatus request handler =
     (case options of
        None \<Rightarrow> andThen handler (\<lambda>body. ret (routeStatus, body))
      | Some operation \<Rightarrow>
          andThen (lift (idem_getConfig x)) (\<lambda>c.
          (case readIdempotencyKey request (headerName c) of
             None \<Rightarrow> throw (idempotencyKeyRequired (headerName c))
           | Some key \<Rightarrow>
               andThen (idem_acquire x (acquireInputOf x operation request key)) (\<lambda>(replay, recordId).
               (case replay of
                  Some response \<Rightarrow> ret response
                | None \<Rightarrow> idem_runHandler x routeStatus recordId handler)))))"

section \<open>What the interceptor needs of a handler\<close>

locale idempotent_handler =
  fixes handler :: "json io"
  assumes keeps_keys: "idempotencyKeys (snd (handler s)) = idempotencyKeys s"
    and answers: "handler s = (Inr body, s') \<Longrightarrow> body \<noteq> JNull \<and> wfJson body"

section \<open>Facts\<close>

lemma sameJson_null: "sameJson v w \<Longrightarrow> v = JNull \<Longrightarrow> w = JNull"
  using same_sortValue [of v w] by (cases w) auto

definition idemInv :: "world \<Rightarrow> bool" where
  "idemInv s \<longleftrightarrow> (\<forall>r \<in> set (idempotencyKeys s). i_id r < nextId s)"

definition rowFor :: "string \<Rightarrow> string \<Rightarrow> world \<Rightarrow> idempotency_key option" where
  "rowFor key path s = find (\<lambda>r. i_key r = key \<and> i_requestPath r = path) (idempotencyKeys s)"

lemma acquire_hit:
  "rowFor (aq_key input) (aq_requestPath input) s = Some r \<Longrightarrow>
   idem_acquire x input s = (idem_resolveExistingRecord r (aq_requestHash input), s)"
  by (simp add: idem_acquire_def idemRepo_findByKeyAndPath_def rowFor_def)

text \<open>The row a call creates when it finds none.\<close>

definition freshRow :: "env \<Rightarrow> acquire_input \<Rightarrow> world \<Rightarrow> idempotency_key" where
  "freshRow x input s =
     \<lparr>i_id = nextId s, i_userId = aq_userId input, i_key = aq_key input, i_requestPath = aq_requestPath input,
      i_requestHash = aq_requestHash input, i_responseData = None, i_statusCode = None,
      i_expiresAt = now s + nat (ttlHours (the (c_idempotency (e_config x)))) * 3600000, i_createdAt = now s\<rparr>"

definition withRow :: "idempotency_key \<Rightarrow> world \<Rightarrow> world" where
  "withRow r s = s\<lparr>idempotencyKeys := idempotencyKeys s @ [r], nextId := Suc (nextId s)\<rparr>"

lemma acquire_miss:
  assumes "c_idempotency (e_config x) = Some c" and "rowFor (aq_key input) (aq_requestPath input) s = None"
  shows "idem_acquire x input s = (Inr (None, nextId s), withRow (freshRow x input s) s)"
proof -
  have "\<not> (\<exists>r \<in> set (idempotencyKeys s). i_key r = aq_key input \<and> i_requestPath r = aq_requestPath input)"
    using assms(2) by (auto simp: rowFor_def find_None_all)
  then have "idem_acquireNew x input s = (Inr (None, nextId s), withRow (freshRow x input s) s)"
    using assms(1)
    by (auto simp: idem_acquireNew_def idem_getConfig_def idem_computeExpiryDate_def idemRepo_create_def
        catching_def freshRow_def withRow_def andThen_def Let_def)
  with assms(2) show ?thesis by (simp add: idem_acquire_def idemRepo_findByKeyAndPath_def rowFor_def)
qed

text \<open>
  Two calls that both found no row: the create is one step, so once the first has created its row the second
  cannot create one, whatever is done to the table in between except deleting that row.
\<close>

datatype key_op = KeyCreate create_idempotency_input | KeySave uuid json nat | KeyDelete uuid

fun keyStep :: "env \<Rightarrow> key_op \<Rightarrow> world \<Rightarrow> world" where
  "keyStep x (KeyCreate input) s = snd (idemRepo_create input s)"
| "keyStep x (KeySave i body st) s = snd (idemRepo_saveResponse x i body st s)"
| "keyStep x (KeyDelete i) s = snd (idemRepo_deleteById i s)"

definition claimed :: "uuid \<Rightarrow> string \<Rightarrow> string \<Rightarrow> world \<Rightarrow> bool" where
  "claimed i key path s \<longleftrightarrow> i < nextId s \<and> i \<in> i_id ` set (idempotencyKeys s)
     \<and> (\<forall>r \<in> set (idempotencyKeys s). i_id r = i \<longrightarrow> i_key r = key \<and> i_requestPath r = path)"

lemma claimed_keyStep:
  assumes "claimed i key path s" and "op \<noteq> KeyDelete i"
  shows "claimed i key path (keyStep x op s)"
proof (cases op)
  case (KeyCreate input)
  with assms(1) show ?thesis by (auto simp: claimed_def idemRepo_create_def Let_def)
next
  case (KeySave j body st)
  show ?thesis
  proof (cases "find (\<lambda>r. i_id r = j) (idempotencyKeys s)")
    case None
    with assms(1) KeySave show ?thesis
      by (simp add: idemRepo_saveResponse_def idempotencyUpdate_def tableUpdate_def)
  next
    case (Some r)
    then have r: "r \<in> set (idempotencyKeys s)" "i_id r = j" by (auto dest: find_Some_iff_first)
    let ?r = "r\<lparr>i_responseData := Some (e_jsonb x body), i_statusCode := Some st\<rparr>"
    have "idempotencyKeys (keyStep x op s) = updWhere (\<lambda>q. i_id q = j) (\<lambda>_. ?r) (idempotencyKeys s)
        \<and> nextId (keyStep x op s) = nextId s"
      using idempotencyTable.update_hit [OF Some, of "\<lambda>r. Inr (r\<lparr>i_responseData := Some (e_jsonb x body), i_statusCode := Some st\<rparr>)"]
      by (simp add: KeySave idemRepo_saveResponse_def idempotencyUpdate_def put_defs)
    moreover have "i_id ` set (updWhere (\<lambda>q. i_id q = j) (\<lambda>_. ?r) rows) = i_id ` set rows" for rows
      using r(2) by (induction rows) auto
    ultimately show ?thesis using assms(1) r by (auto simp: claimed_def in_updWhere split: if_splits)
  qed
next
  case (KeyDelete j)
  with assms show ?thesis by (auto simp: claimed_def idemRepo_deleteById_def split: option.split)
qed

lemma claimed_keySteps:
  "claimed i key path s \<Longrightarrow> KeyDelete i \<notin> set ops \<Longrightarrow> claimed i key path (fold (keyStep x) ops s)"
proof (induction ops arbitrary: s)
  case (Cons op ops)
  then have "op \<noteq> KeyDelete i" by auto
  from Cons.IH [OF claimed_keyStep [OF Cons.prems(1) this]] Cons.prems(2) show ?case by simp
qed simp

lemma acquire_race:
  assumes inv: "idemInv s" and first: "idem_acquireNew x input s = (Inr (None, i), s')"
    and kept: "KeyDelete i \<notin> set ops" and later: "idempotencyKeys t = idempotencyKeys (fold (keyStep x) ops s')"
    and same: "aq_key input' = aq_key input" "aq_requestPath input' = aq_requestPath input"
  shows "fst (idem_acquireNew x input' t) \<noteq> Inr (None, j)"
proof -
  have none: "idem_resolveExistingRecord r h \<noteq> Inr (None, k)" for r h k
    by (auto simp: idem_resolveExistingRecord_def split: option.splits)
  have old: "i_id r \<noteq> nextId s" if "r \<in> set (idempotencyKeys s)" for r using inv that by (auto simp: idemInv_def)
  then have "claimed i (aq_key input) (aq_requestPath input) s'"
    using first none
    by (auto simp: idem_acquireNew_def idem_computeExpiryDate_def idemRepo_create_def Let_def eff_simps
        idemRepo_findByKeyAndPath_def claimed_def split: sum.splits if_splits option.splits)
  from claimed_keySteps [OF this kept, of x]
  have "\<exists>r \<in> set (idempotencyKeys t). i_key r = aq_key input' \<and> i_requestPath r = aq_requestPath input'"
    unfolding later claimed_def same by auto
  then show ?thesis
    using none
    by (cases "idem_getConfig x")
       (auto simp: idem_acquireNew_def idem_computeExpiryDate_def idemRepo_create_def eff_simps
        idemRepo_findByKeyAndPath_def split: sum.splits if_splits option.splits)
qed

text \<open>What the interceptor does for a request with a key, by the row it finds.\<close>

definition keyed :: "env \<Rightarrow> http_request \<Rightarrow> string \<Rightarrow> bool" where
  "keyed x request key \<longleftrightarrow>
     (\<exists>c. c_idempotency (e_config x) = Some c \<and> readIdempotencyKey request (headerName c) = Some key)"

definition requestHashOf :: "env \<Rightarrow> http_request \<Rightarrow> string" where
  "requestHashOf x request = hashRequest (e_sha256 x) (fingerprintOf request)"

lemma intercept_keyed:
  "keyed x request key \<Longrightarrow> intercept x (Some operation) routeStatus request handler s =
     andThen (idem_acquire x (acquireInputOf x operation request key)) (\<lambda>(replay, recordId).
       (case replay of
          Some response \<Rightarrow> ret response
        | None \<Rightarrow> idem_runHandler x routeStatus recordId handler)) s"
  by (auto simp: keyed_def intercept_def idem_getConfig_def)

lemma acquireInputOf_fields [simp]:
  "aq_key (acquireInputOf x operation request key) = key"
  "aq_requestPath (acquireInputOf x operation request key) = requestPathOf operation"
  "aq_requestHash (acquireInputOf x operation request key) = requestHashOf x request"
  by (simp_all add: acquireInputOf_def requestHashOf_def)

lemma intercept_found:
  assumes "keyed x request key" and "rowFor key (requestPathOf operation) s = Some r"
  shows "intercept x (Some operation) routeStatus request handler s =
    (case idem_resolveExistingRecord r (requestHashOf x request) of
       Inl e \<Rightarrow> (Inl e, s) | Inr (Some response, _) \<Rightarrow> (Inr response, s)
     | Inr (None, recordId) \<Rightarrow> idem_runHandler x routeStatus recordId handler s)"
  using assms
  by (auto simp: intercept_keyed acquire_hit andThen_def split: sum.split prod.split option.split)

lemma rowFor_key: "rowFor key path s = Some r \<Longrightarrow> i_key r = key"
  by (auto simp: rowFor_def dest: find_Some_iff_first)

lemma intercept_replay:
  assumes "keyed x request key" and "rowFor key (requestPathOf operation) s = Some r"
    and "i_requestHash r = requestHashOf x request" and "i_responseData r = Some body" "body \<noteq> JNull"
    and "i_statusCode r = Some st"
  shows "intercept x (Some operation) routeStatus request handler s = (Inr (st, body), s)"
  using assms by (simp add: intercept_found idem_resolveExistingRecord_def)

lemma intercept_refuses:
  assumes "keyed x request key" and "rowFor key (requestPathOf operation) s = Some r"
  shows "i_requestHash r \<noteq> requestHashOf x request \<Longrightarrow>
      intercept x (Some operation) routeStatus request handler s = (Inl (idempotencyConflict key), s)"
    and "i_requestHash r = requestHashOf x request \<Longrightarrow> i_responseData r = None \<Longrightarrow>
      intercept x (Some operation) routeStatus request handler s = (Inl (idempotencyInProgress key), s)"
  using assms rowFor_key [OF assms(2)] by (simp_all add: intercept_found idem_resolveExistingRecord_def)

lemma intercept_first:
  assumes "keyed x request key" and "rowFor key (requestPathOf operation) s = None"
  shows "intercept x (Some operation) routeStatus request handler s =
    idem_runHandler x routeStatus (nextId s) handler
      (withRow (freshRow x (acquireInputOf x operation request key) s) s)"
proof -
  from assms(1) obtain c where "c_idempotency (e_config x) = Some c" by (auto simp: keyed_def)
  from acquire_miss [OF this, of "acquireInputOf x operation request key" s] assms
  show ?thesis by (simp add: intercept_keyed andThen_def)
qed

lemma shouldPersist_not_zero: "shouldPersistResponse n \<Longrightarrow> (if n = 0 then 200 else n) = n"
  by (simp add: shouldPersistResponse_def)

context idempotent_handler
begin

text \<open>The state after the handler has run behind a fresh row.\<close>

lemma handler_keeps_row:
  assumes "handler (withRow r s) = (q, t)"
  shows "idempotencyKeys t = idempotencyKeys s @ [r]"
  using keeps_keys [of "withRow r s"] assms by (simp add: withRow_def)

lemma complete_fresh:
  assumes inv: "idemInv s" and r: "i_id r = nextId s" and t: "idempotencyKeys t = idempotencyKeys s @ [r]"
  shows "shouldPersistResponse st \<Longrightarrow> idem_complete x (nextId s) st body t =
      (Inr (), t\<lparr>idempotencyKeys := idempotencyKeys s @ [r\<lparr>i_responseData := Some (e_jsonb x body), i_statusCode := Some st\<rparr>]\<rparr>)"
    and "\<not> shouldPersistResponse st \<Longrightarrow> idem_complete x (nextId s) st body t =
      (Inr (), t\<lparr>idempotencyKeys := idempotencyKeys s\<rparr>)"
proof -
  let ?r = "r\<lparr>i_responseData := Some (e_jsonb x body), i_statusCode := Some st\<rparr>"
  have old: "\<forall>q \<in> set (idempotencyKeys s). i_id q \<noteq> nextId s" using inv by (auto simp: idemInv_def)
  have find: "find (\<lambda>q. i_id q = nextId s) (idempotencyKeys t) = Some r"
    unfolding t by (rule find_append_fresh [OF old r])
  have upd: "updWhere (\<lambda>q. i_id q = nextId s) (\<lambda>_. ?r) (idempotencyKeys t) = idempotencyKeys s @ [?r]"
    unfolding t by (rule updWhere_append_fresh [OF old r])
  show "idem_complete x (nextId s) st body t = (Inr (), t\<lparr>idempotencyKeys := idempotencyKeys s @ [?r]\<rparr>)"
    if "shouldPersistResponse st"
    using that idempotencyTable.update_hit [OF find, of "\<lambda>r. Inr (r\<lparr>i_responseData := Some (e_jsonb x body), i_statusCode := Some st\<rparr>)"] upd
    by (simp add: idem_complete_def idemRepo_saveResponse_def idempotencyUpdate_def andThen_def put_defs)
  have "filter (\<lambda>q. i_id q \<noteq> nextId s) (idempotencyKeys t) = idempotencyKeys s"
    using old r by (simp add: t filter_id_conv)
  then show "idem_complete x (nextId s) st body t = (Inr (), t\<lparr>idempotencyKeys := idempotencyKeys s\<rparr>)"
    if "\<not> shouldPersistResponse st"
    using that find by (simp add: idem_complete_def idemRepo_deleteById_def andThen_def)
qed

lemma freshRow_id [simp]: "i_id (freshRow x input s) = nextId s"
  by (simp add: freshRow_def)

lemma find_append_None: "find p rows = None \<Longrightarrow> p r \<Longrightarrow> find p (rows @ [r]) = Some r"
  by (induction rows) (auto split: if_splits)

lemma rowFor_fresh:
  assumes "rowFor key path s = None" and "i_key r = key" "i_requestPath r = path"
  shows "find (\<lambda>r. i_key r = key \<and> i_requestPath r = path) (idempotencyKeys s @ [r]) = Some r"
  using assms by (simp add: rowFor_def find_append_None)

text \<open>
  An answer, whether computed or replayed, leaves a row with what every later call with the key and the payload
  gets: the same JSON value, which may have lost the order of its keys in the table.
\<close>

lemma answered_row:
  assumes jsonb: "\<And>v. wfJson v \<Longrightarrow> sameJson (e_jsonb x v) v" and inv: "idemInv s"
    and st: "shouldPersistResponse routeStatus" and k: "keyed x request key"
    and run: "intercept x (Some operation) routeStatus request handler s = (Inr (st, body), s')"
  obtains r body' where "rowFor key (requestPathOf operation) s' = Some r" and "i_requestHash r = requestHashOf x request"
    and "i_responseData r = Some body'" and "i_statusCode r = Some st" and "body' \<noteq> JNull" and "sameJson body' body"
proof (cases "rowFor key (requestPathOf operation) s")
  case None
  let ?r = "freshRow x (acquireInputOf x operation request key) s"
  obtain q t where h: "handler (withRow ?r s) = (q, t)" by force
  note t = handler_keeps_row [OF h]
  from run None k h obtain b where q: "q = Inr b"
    by (cases q) (auto simp: intercept_first idem_runHandler_def catching_def andThen_def split: prod.splits sum.splits)
  let ?r' = "?r\<lparr>i_responseData := Some (e_jsonb x b), i_statusCode := Some routeStatus\<rparr>"
  have "intercept x (Some operation) routeStatus request handler s = (Inr (routeStatus, b),
      t\<lparr>idempotencyKeys := idempotencyKeys s @ [?r']\<rparr>)"
    using complete_fresh(1) [OF inv _ t st] h q st
    by (simp add: intercept_first [OF k None] idem_runHandler_def catching_def andThen_def shouldPersist_not_zero)
  with run have res: "st = routeStatus" "body = b" "idempotencyKeys s' = idempotencyKeys s @ [?r']" by auto
  have b: "b \<noteq> JNull" "wfJson b" using answers h q by blast+
  show thesis
  proof (rule that)
    show "rowFor key (requestPathOf operation) s' = Some ?r'"
      unfolding rowFor_def res(3) by (rule rowFor_fresh [OF None]) (simp_all add: freshRow_def)
    show "sameJson (e_jsonb x b) body" unfolding res(2) by (rule jsonb [OF b(2)])
    show "e_jsonb x b \<noteq> JNull" using sameJson_null [OF jsonb [OF b(2)]] b(1) by auto
  qed (simp_all add: freshRow_def res(1))
next
  case (Some r)
  with run k have "idem_resolveExistingRecord r (requestHashOf x request) = Inr (Some (st, body), i_id r)" "s' = s"
    by (auto simp: intercept_found idem_resolveExistingRecord_def split: if_splits option.splits)
  with Some show thesis
    by (intro that [of r body]) (auto simp: idem_resolveExistingRecord_def split: if_splits option.splits)
qed

text \<open>A request adds at most one row to the table and changes none.\<close>

lemma intercept_grows:
  assumes inv: "idemInv s"
  shows "\<exists>ks. idempotencyKeys (snd (intercept x (Some operation) routeStatus request handler s)) = idempotencyKeys s @ ks"
proof (cases "\<exists>key. keyed x request key")
  case False
  then show ?thesis
    by (auto simp: keyed_def intercept_def idem_getConfig_def andThen_def split: option.splits)
next
  case True
  then obtain key where k: "keyed x request key" ..
  show ?thesis
  proof (cases "rowFor key (requestPathOf operation) s")
    case None
    let ?r = "freshRow x (acquireInputOf x operation request key) s"
    obtain q t where h: "handler (withRow ?r s) = (q, t)" by force
    note t = handler_keeps_row [OF h]
    have completes: "\<exists>ks. idempotencyKeys (snd (idem_complete x (nextId s) st body t)) = idempotencyKeys s @ ks
        \<and> fst (idem_complete x (nextId s) st body t) = Inr ()" for st body
      using complete_fresh [OF inv freshRow_id t] by (cases "shouldPersistResponse st") auto
    then have failed: "\<exists>ks. idempotencyKeys (snd (idem_handleFailure x (nextId s) e t)) = idempotencyKeys s @ ks" for e
      by (auto simp: idem_handleFailure_def split: exn.split response.split)
    have "intercept x (Some operation) routeStatus request handler s = idem_runHandler x routeStatus (nextId s) handler (withRow ?r s)"
      by (rule intercept_first [OF k None])
    with h show ?thesis
    proof (cases q)
      case (Inr body)
      with h completes [of "if routeStatus = 0 then 200 else routeStatus" body] show ?thesis
        by (auto simp: intercept_first [OF k None] idem_runHandler_def catching_def andThen_def split: prod.splits sum.splits)
    next
      case (Inl e)
      with h failed [of e] show ?thesis
        by (auto simp: intercept_first [OF k None] idem_runHandler_def catching_def andThen_def split: prod.splits sum.splits)
    qed
  next
    case (Some r)
    then show ?thesis
      by (auto simp: intercept_found [OF k Some] idem_resolveExistingRecord_def split: option.splits)
  qed
qed

text \<open>A handler that failed leaves no row, so the key is free again.\<close>

lemma failure_frees_key:
  assumes inv: "idemInv s" and k: "keyed x request key" and none: "rowFor key (requestPathOf operation) s = None"
    and fails: "handler (withRow (freshRow x (acquireInputOf x operation request key) s) s) = (Inl e, t)"
    and st: "\<not> shouldPersistResponse (exnStatus e)"
  shows "intercept x (Some operation) routeStatus request handler s
       = (Inl e, t\<lparr>idempotencyKeys := idempotencyKeys s\<rparr>)"
proof -
  note t = handler_keeps_row [OF fails]
  have nope: "\<not> shouldPersistResponse 500" by (simp add: shouldPersistResponse_def)
  have "idem_handleFailure x (nextId s) e t = (Inr (), t\<lparr>idempotencyKeys := idempotencyKeys s\<rparr>)"
    using st nope by (auto simp: idem_handleFailure_def exnStatus_def complete_fresh(2) [OF inv _ t] split: exn.splits response.splits)
  then show ?thesis
    using fails by (simp add: intercept_first [OF k none] idem_runHandler_def catching_def andThen_def)
qed

text \<open>What the interceptor throws for a fresh key is what the handler threw.\<close>

lemma failure_handled:
  assumes inv: "idemInv s" and r: "i_id r = nextId s" and t: "idempotencyKeys t = idempotencyKeys s @ [r]"
  shows "\<exists>t'. idem_handleFailure x (nextId s) e t = (Inr (), t')"
proof -
  have "\<exists>t'. idem_complete x (nextId s) st body t = (Inr (), t')" for st body
    using complete_fresh [OF inv r t] by (cases "shouldPersistResponse st") auto
  then show ?thesis by (auto simp: idem_handleFailure_def split: exn.split response.split)
qed

lemma fails_as_handler:
  assumes inv: "idemInv s" and st: "shouldPersistResponse routeStatus" and k: "keyed x request key"
    and none: "rowFor key (requestPathOf operation) s = None"
    and run: "intercept x (Some operation) routeStatus request handler s = (Inl e, s')"
  shows "\<exists>t. handler (withRow (freshRow x (acquireInputOf x operation request key) s) s) = (Inl e, t)"
proof -
  let ?row = "freshRow x (acquireInputOf x operation request key) s"
  obtain q t where h: "handler (withRow ?row s) = (q, t)" by force
  note t = handler_keeps_row [OF h]
  show ?thesis
  proof (cases q)
    case (Inr body)
    have "fst (intercept x (Some operation) routeStatus request handler s) = Inr (routeStatus, body)"
      using complete_fresh(1) [OF inv _ t st] h Inr st
      by (simp add: intercept_first [OF k none] idem_runHandler_def catching_def andThen_def shouldPersist_not_zero)
    with run show ?thesis by simp
  next
    case (Inl e')
    obtain t' where "idem_handleFailure x (nextId s) e' t = (Inr (), t')" using failure_handled [OF inv freshRow_id t] by blast
    with run h Inl have "e' = e" by (simp add: intercept_first [OF k none] idem_runHandler_def catching_def andThen_def)
    with h Inl show ?thesis by simp
  qed
qed

end

end
