(* ===== verification/Privy.thy ===== *)
theory Privy
  imports Schema
begin

text \<open>
  \<^verbatim>\<open>src/wallets/providers\<close>: the Privy wallet provider.  The retry loop and its predicate
  (\<^verbatim>\<open>privy-retry.util.ts\<close>), the mapping of Privy errors to HTTP errors
  (\<^verbatim>\<open>privy-wallet.errors.ts\<close>), the chain names and quantities (\<^verbatim>\<open>privy-chain.util.ts\<close>) and the
  methods of \<open>PrivyWalletService\<close> (\<open>privy_\<close>).  Every request to send a transaction is recorded
  in \<open>sent\<close> with the idempotency key it carries.

  The locale \<open>wallet_provider\<close> is the interface \<open>WalletProvider\<close> as the earn handlers rely on it
  for sending; the Privy service interprets it.
\<close>

section \<open>Retries\<close>

definition defaultMaxAttempts :: nat where
  "defaultMaxAttempts = 3"

definition defaultBaseDelayMs :: nat where
  "defaultBaseDelayMs = 250"

text \<open>The fields of an error object: a status (a Nest exception has one too) and a name.\<close>

definition statusField :: "exn \<Rightarrow> int option" where
  "statusField e = (case e of HttpException st _ \<Rightarrow> Some (int st) | Foreign f \<Rightarrow> fe_status f | _ \<Rightarrow> None)"

definition nameField :: "exn \<Rightarrow> string" where
  "nameField e = (case e of Foreign f \<Rightarrow> fe_name f | HttpException _ _ \<Rightarrow> ''HttpException''
     | PlainError _ \<Rightarrow> ''Error'' | PrismaKnown _ _ \<Rightarrow> ''PrismaClientKnownRequestError'')"

definition isRetryablePrivyError :: "exn \<Rightarrow> bool" where
  "isRetryablePrivyError e =
     (if statusField e = Some 429 then True
      else if (case statusField e of Some st \<Rightarrow> st \<ge> 500 | None \<Rightarrow> False) then True
      else nameField e = ''APIConnectionError'' \<or> nameField e = ''APIConnectionTimeoutError''
           \<or> nameField e = ''InternalServerError'')"

text \<open>The loop from attempt \<open>k\<close> with \<open>left\<close> attempts to go; it is entered with at least one.\<close>

fun retryFrom :: "nat \<Rightarrow> nat \<Rightarrow> 'a io \<Rightarrow> 'a io" where
  "retryFrom k 0 op = throw (PlainError ''undefined'')"
| "retryFrom k (Suc left) op =
     catching op (\<lambda>e.
       if left = 0 \<or> \<not> isRetryablePrivyError e then throw e
       else andThen (sleep (defaultBaseDelayMs * k)) (\<lambda>_. retryFrom (Suc k) left op))"

definition withRetry :: "'a io \<Rightarrow> 'a io" where
  "withRetry op = retryFrom 1 defaultMaxAttempts op"

section \<open>Errors\<close>

definition isPrivyLikeError :: "exn \<Rightarrow> string \<Rightarrow> int option \<Rightarrow> bool" where
  "isPrivyLikeError e name status =
     (if nameField e \<noteq> name then False
      else (case status of None \<Rightarrow> True | Some st \<Rightarrow> statusField e = Some st))"

definition badGateway :: "string \<Rightarrow> exn" where
  "badGateway = httpError 502 ''Bad Gateway''"

definition mapPrivyError :: "exn \<Rightarrow> string \<Rightarrow> exn" where
  "mapPrivyError e context =
     (case e of
        HttpException _ _ \<Rightarrow> e
      | _ \<Rightarrow>
        if isPrivyLikeError e ''NotFoundError'' (Some 404) then notFound (context @ '': wallet not found'')
        else if isPrivyLikeError e ''AuthenticationError'' (Some 401)
        then unauthorized (context @ '': Privy authentication failed'')
        else if isPrivyLikeError e ''PermissionDeniedError'' (Some 403)
        then forbidden (context @ '': Privy permission denied'')
        else if isPrivyLikeError e ''ConflictError'' (Some 409) then conflict (context @ '': Privy resource conflict'')
        else if isPrivyLikeError e ''UnprocessableEntityError'' (Some 422)
        then httpError 422 ''Unprocessable Entity'' (context @ '': invalid Privy request'')
        else if isPrivyLikeError e ''RateLimitError'' (Some 429)
        then httpError 503 ''Service Unavailable'' (context @ '': Privy rate limit exceeded'')
        else if isPrivyLikeError e ''APIConnectionTimeoutError'' None
        then httpError 504 ''Gateway Timeout'' (context @ '': Privy request timed out'')
        else if isPrivyLikeError e ''APIConnectionError'' None then badGateway (context @ '': Privy connection failed'')
        else if hasSubstring ''No valid authorization keys'' (errorMessage e)
        then badRequest (context @ '': Privy rejected the wallet transaction signature. Ensure PRIVY_AUTHORIZATION_PRIVATE_KEY and PRIVY_WALLET_SIGNER_KEY_QUORUM_ID match the same key pair in Privy Dashboard, restart the server, then create a new wallet via POST /api/v1/wallets (see docs/privy-server-signing.md).'')
        else (case statusField e of
                None \<Rightarrow> badGateway (context @ '': unexpected Privy wallet error'')
              | Some st \<Rightarrow>
                  if st \<ge> 500 then badGateway (context @ '': Privy upstream error'')
                  else if st \<ge> 400 then badRequest (context @ '': Privy request failed'')
                  else badGateway (context @ '': unexpected Privy wallet error'')))"

section \<open>Chains and quantities\<close>

definition resolveCaip2Chain :: "int \<Rightarrow> string" where
  "resolveCaip2Chain chainId = ''eip155:'' @ showInt chainId"

definition privyChains :: "int \<Rightarrow> string option" where
  "privyChains = [1 \<mapsto> ''ethereum'', 8453 \<mapsto> ''base'', 84532 \<mapsto> ''base_sepolia'', 11155111 \<mapsto> ''sepolia'']"

definition resolvePrivyChain :: "int \<Rightarrow> string res" where
  "resolvePrivyChain chainId =
     (case privyChains chainId of
        None \<Rightarrow> Inl (PlainError (''Unsupported chain ID for Privy wallet operations: '' @ showInt chainId))
      | Some c \<Rightarrow> Inr c)"

definition hexChar :: "nat \<Rightarrow> char" where
  "hexChar d = (if d < 10 then digitChar d else char_of (d + 87))"

fun showHexNat :: "nat \<Rightarrow> string" where
  "showHexNat n = (if n < 16 then [hexChar n] else showHexNat (n div 16) @ [hexChar (n mod 16)])"

declare showHexNat.simps [simp del]

text \<open>\<open>BigInt(value).toString(16)\<close>.\<close>

definition showHexInt :: "int \<Rightarrow> string" where
  "showHexInt i = (if i < 0 then CHR ''-'' # showHexNat (nat (- i)) else showHexNat (nat i))"

definition toHexQuantity :: "string \<Rightarrow> string res" where
  "toHexQuantity v =
     (if startsWith v ''0x'' then Inr v
      else (case bigIntOf v of
              None \<Rightarrow> Inl (PlainError (''Cannot convert '' @ v @ '' to a BigInt''))
            | Some n \<Rightarrow> Inr (''0x'' @ showHexInt n)))"

section \<open>PrivyService and PrivyWalletService\<close>

definition getAuthorizationContext :: "env \<Rightarrow> string option" where
  "getAuthorizationContext x =
     (case c_privy (e_config x) of
        None \<Rightarrow> None
      | Some c \<Rightarrow> (case authorizationPrivateKey c of
                     None \<Rightarrow> None
                   | Some k \<Rightarrow> if trim k = [] then None else Some (trim k)))"

definition getWalletSignerKeyQuorumId :: "env \<Rightarrow> string option" where
  "getWalletSignerKeyQuorumId x =
     (case c_privy (e_config x) of
        None \<Rightarrow> None
      | Some c \<Rightarrow> (case walletSignerKeyQuorumId c of
                     None \<Rightarrow> None
                   | Some k \<Rightarrow> if trim k = [] then None else Some (trim k)))"

definition privy_execute :: "string \<Rightarrow> 'a io \<Rightarrow> 'a io" where
  "privy_execute context operation =
     catching (withRetry operation) (\<lambda>e. throw (mapPrivyError e context))"

definition signingNotConfigured :: exn where
  "signingNotConfigured = badRequest ''Privy server signing is not configured. Set PRIVY_AUTHORIZATION_PRIVATE_KEY and PRIVY_WALLET_SIGNER_KEY_QUORUM_ID, then restart the server.''"

definition notSignable :: "string \<Rightarrow> exn" where
  "notSignable providerWalletId = badRequest (''Wallet '' @ providerWalletId @ '' cannot be signed by the server. Create a new wallet via POST /api/v1/wallets after configuring Privy authorization keys. Older user-owned wallets are not compatible with server-side signing.'')"

definition privy_assertWalletServerSignable :: "env \<Rightarrow> string \<Rightarrow> unit io" where
  "privy_assertWalletServerSignable x providerWalletId =
     (case (getWalletSignerKeyQuorumId x, getAuthorizationContext x) of
        (Some quorum, Some _) \<Rightarrow>
          andThen (extCall (\<lambda>n. e_privyGetWallet x n providerWalletId)) (\<lambda>wallet.
          let isOwnedByQuorum = (pw_ownerId wallet = Some quorum);
              hasSigner = (quorum \<in> set (pw_additionalSigners wallet))
          in require (isOwnedByQuorum \<or> hasSigner) (notSignable providerWalletId))
      | _ \<Rightarrow> throw signingNotConfigured)"

definition privy_ensureWalletServerSigner :: "env \<Rightarrow> string \<Rightarrow> unit io" where
  "privy_ensureWalletServerSigner = privy_assertWalletServerSignable"

text \<open>
  The parameters of a request: the quantity in hexadecimal and empty data by default.  The key is
  \<open>randomUUID()\<close>, here the number of the call it is made for.
\<close>

definition transactionParams :: "send_transaction_input \<Rightarrow> string \<Rightarrow> nat \<Rightarrow> sent_request" where
  "transactionParams input hexValue key =
     \<lparr>q_input = input\<lparr>s_value := Some hexValue,
        s_data := Some (case s_data input of Some d \<Rightarrow> d | None \<Rightarrow> ''0x'')\<rparr>,
      q_idempotencyKey = key\<rparr>"

definition sendRequest :: "env \<Rightarrow> sent_request \<Rightarrow> broadcast io" where
  "sendRequest x req =
     andThen (modify (\<lambda>s. s\<lparr>sent := sent s @ [req]\<rparr>)) (\<lambda>_. extCall (\<lambda>n. e_privySend x n req))"

definition privy_sendOnce :: "env \<Rightarrow> send_transaction_input \<Rightarrow> broadcast io" where
  "privy_sendOnce x input =
     andThen (privy_assertWalletServerSignable x (s_providerWalletId input)) (\<lambda>_.
     andThen (gets calls) (\<lambda>key.
     andThen (lift (toHexQuantity (case s_value input of Some v \<Rightarrow> v | None \<Rightarrow> ''0''))) (\<lambda>hexValue.
       sendRequest x (transactionParams input hexValue key))))"

definition privy_sendTransaction :: "env \<Rightarrow> send_transaction_input \<Rightarrow> broadcast io" where
  "privy_sendTransaction x input = privy_execute ''send transaction'' (privy_sendOnce x input)"

record signed_transaction =
  sg_hash :: string
  sg_signature :: string
  sg_encoding :: string

definition deriveTransactionHash :: "env \<Rightarrow> string \<Rightarrow> string" where
  "deriveTransactionHash x signedTransaction = ''0x'' @ e_sha256 x signedTransaction"

definition privy_prepareTransactionSigning :: "env \<Rightarrow> send_transaction_input \<Rightarrow> signed_transaction io" where
  "privy_prepareTransactionSigning x input =
     privy_execute ''prepare transaction signing''
       (andThen (gets calls) (\<lambda>key.
        andThen (lift (toHexQuantity (case s_value input of Some v \<Rightarrow> v | None \<Rightarrow> ''0''))) (\<lambda>hexValue.
        andThen (extCall (\<lambda>n. e_privySign x n (transactionParams input hexValue key))) (\<lambda>(signed, encoding).
          ret \<lparr>sg_hash = deriveTransactionHash x signed, sg_signature = signed, sg_encoding = encoding\<rparr>))))"

record provider_wallet =
  vw_providerWalletId :: string
  vw_address :: string
  vw_chainId :: int

record wallet_balance =
  wb_address :: string
  wb_chainId :: int
  wb_balance :: string
  wb_symbol :: string
  wb_decimals :: nat

definition privy_getWallet :: "env \<Rightarrow> string \<Rightarrow> int \<Rightarrow> provider_wallet io" where
  "privy_getWallet x providerWalletId chainId =
     privy_execute ''get wallet''
       (andThen (extCall (\<lambda>n. e_privyGetWallet x n providerWalletId)) (\<lambda>wallet.
         ret \<lparr>vw_providerWalletId = pw_id wallet, vw_address = pw_address wallet, vw_chainId = chainId\<rparr>))"

definition balanceEntry :: "string \<Rightarrow> int \<Rightarrow> string \<Rightarrow> privy_balance list \<Rightarrow> wallet_balance" where
  "balanceEntry address chainId asset balances =
     (let entry = find (\<lambda>b. pb_asset b = asset) balances
      in \<lparr>wb_address = address, wb_chainId = chainId,
          wb_balance = (case entry of Some b \<Rightarrow> pb_rawValue b | None \<Rightarrow> ''0''),
          wb_symbol = toUpperCase asset,
          wb_decimals = (case entry of Some b \<Rightarrow> pb_decimals b | None \<Rightarrow> if asset = ''eth'' then 18 else 6)\<rparr>)"

definition privy_getBalances :: "env \<Rightarrow> string \<Rightarrow> int \<Rightarrow> wallet_balance list io" where
  "privy_getBalances x providerWalletId chainId =
     privy_execute ''get wallet balances''
       (andThen (lift (resolvePrivyChain chainId)) (\<lambda>chain.
        andThen (privy_getWallet x providerWalletId chainId) (\<lambda>wallet.
        andThen (mapAll (\<lambda>asset. extCall (\<lambda>n. e_privyBalance x n providerWalletId asset chain)) [''eth'', ''usdc'']) (\<lambda>responses.
          ret (map (\<lambda>(asset, r). balanceEntry (vw_address wallet) chainId asset r)
                 (zip [''eth'', ''usdc''] responses))))))"

definition privy_getBalance :: "env \<Rightarrow> string \<Rightarrow> int \<Rightarrow> wallet_balance io" where
  "privy_getBalance x providerWalletId chainId =
     andThen (privy_getBalances x providerWalletId chainId) (\<lambda>balances.
       ret (case find (\<lambda>b. wb_symbol b = ''ETH'') balances of Some b \<Rightarrow> b | None \<Rightarrow> hd balances))"

definition isIdChar :: "char \<Rightarrow> bool" where
  "isIdChar c = (isDigit c \<or> (65 \<le> code c \<and> code c \<le> 90) \<or> (97 \<le> code c \<and> code c \<le> 122)
     \<or> c = CHR ''_'' \<or> c = CHR ''-'')"

definition toExternalId :: "string \<Rightarrow> string" where
  "toExternalId userId = take 64 (map (\<lambda>c. if isIdChar c then c else CHR ''_'') userId)"

definition privy_createWallet :: "env \<Rightarrow> uuid \<Rightarrow> int \<Rightarrow> string option \<Rightarrow> provider_wallet io" where
  "privy_createWallet x userId chainId privyUserId =
     privy_execute ''create wallet''
       (let owner = (case (getWalletSignerKeyQuorumId x, getAuthorizationContext x) of
                       (Some quorum, Some _) \<Rightarrow> OwnerQuorum quorum
                     | _ \<Rightarrow> (case privyUserId of
                               Some u \<Rightarrow> if u = [] then NoOwner else OwnerUser u
                             | None \<Rightarrow> NoOwner))
        in andThen (extCall (\<lambda>n. e_privyCreateWallet x n
                     \<lparr>pc_externalId = toExternalId (showNat userId),
                      pc_displayName = ''DeFi Earn wallet ('' @ showInt chainId @ '')'',
                      pc_owner = owner\<rparr>)) (\<lambda>wallet.
           ret \<lparr>vw_providerWalletId = pw_id wallet, vw_address = pw_address wallet, vw_chainId = chainId\<rparr>))"

definition privy_findExistingPrivyUser :: "env \<Rightarrow> uuid \<Rightarrow> string option \<Rightarrow> string option io" where
  "privy_findExistingPrivyUser x userId email =
     catching (andThen (extCall (\<lambda>n. e_privyUserByCustomAuth x n (showNat userId))) (\<lambda>i. ret (Some i)))
       (\<lambda>_. case email of
              Some m \<Rightarrow>
                if m = [] then ret None
                else catching (andThen (extCall (\<lambda>n. e_privyUserByEmail x n m)) (\<lambda>i. ret (Some i))) (\<lambda>_. ret None)
            | None \<Rightarrow> ret None)"

definition setPrivyUserId :: "uuid \<Rightarrow> string \<Rightarrow> unit io" where
  "setPrivyUserId userId privyUserId s =
     (case find (\<lambda>u. u_id u = userId) (users s) of
        None \<Rightarrow> (Inl recordNotFound, s)
      | Some _ \<Rightarrow>
          if \<exists>u \<in> set (users s). u_id u \<noteq> userId \<and> u_privyUserId u = Some privyUserId
          then (Inl uniqueViolation, s)
          else (Inr (), s\<lparr>users := updWhere (\<lambda>u. u_id u = userId)
                  (\<lambda>u. u\<lparr>u_privyUserId := Some privyUserId, u_updatedAt := now s\<rparr>) (users s)\<rparr>))"

definition privy_ensurePrivyUserId :: "env \<Rightarrow> uuid \<Rightarrow> string io" where
  "privy_ensurePrivyUserId x userId =
     andThen (gets (\<lambda>s. find (\<lambda>u. u_id u = userId) (users s))) (\<lambda>found.
     (case found of
        None \<Rightarrow> throw recordNotFound
      | Some user \<Rightarrow>
          (case (case u_privyUserId user of Some [] \<Rightarrow> None | p \<Rightarrow> p) of
             Some p \<Rightarrow> ret p
           | None \<Rightarrow>
               andThen (privy_findExistingPrivyUser x userId (u_email user)) (\<lambda>existing.
               (case (case existing of Some [] \<Rightarrow> None | p \<Rightarrow> p) of
                  Some p \<Rightarrow> andThen (setPrivyUserId userId p) (\<lambda>_. ret p)
                | None \<Rightarrow>
                    andThen (extCall (\<lambda>n. e_privyCreateUser x n (showNat userId)
                       (case u_email user of Some [] \<Rightarrow> None | m \<Rightarrow> m))) (\<lambda>p.
                    andThen (setPrivyUserId userId p) (\<lambda>_. ret p)))))))"

section \<open>Facts about retries and errors\<close>

lemma retryFrom_success: "op s = (Inr v, s') \<Longrightarrow> retryFrom k (Suc left) op s = (Inr v, s')"
  by (simp add: catching_def)

lemma retryFrom_fatal:
  "op s = (Inl e, s') \<Longrightarrow> \<not> isRetryablePrivyError e \<Longrightarrow> retryFrom k (Suc left) op s = (Inl e, s')"
  by (simp add: catching_def)

lemma preserves_retryFrom [pres]:
  assumes "ignoresOutside I" and "preserves I op"
  shows "preserves I (retryFrom k left op)"
proof (induction left arbitrary: k)
  case (Suc left)
  show ?case unfolding retryFrom.simps by (intro pres assms Suc.IH)
qed (simp add: pres)

lemma preserves_execute [pres]:
  "ignoresOutside I \<Longrightarrow> preserves I op \<Longrightarrow> preserves I (privy_execute c op)"
  unfolding privy_execute_def withRetry_def by (intro pres)

lemma mapPrivyError_http: "\<exists>st r. mapPrivyError e c = HttpException st r"
  by (cases e) (auto simp: mapPrivyError_def exception_defs badGateway_def split: option.splits)

lemma execute_throws_http: "privy_execute c op s = (Inl e, s') \<Longrightarrow> \<exists>st r. e = HttpException st r"
  using mapPrivyError_http by (auto simp: privy_execute_def catching_def split: prod.splits sum.splits)

section \<open>What a send does\<close>

text \<open>
  \<open>sends n P m\<close>: \<open>m\<close> adds at most \<open>n\<close> requests to the ones made so far, each as \<open>P\<close> says and
  with an idempotency key of its own, and at least one when it returns.
\<close>

definition sends :: "nat \<Rightarrow> (sent_request \<Rightarrow> bool) \<Rightarrow> 'a io \<Rightarrow> bool" where
  "sends n P m \<longleftrightarrow> (\<forall>s. calls s \<le> calls (snd (m s)) \<and>
     (\<exists>qs. sent (snd (m s)) = sent s @ qs \<and> length qs \<le> n
        \<and> (\<forall>q \<in> set qs. P q \<and> calls s \<le> q_idempotencyKey q \<and> q_idempotencyKey q < calls (snd (m s)))
        \<and> distinct (map q_idempotencyKey qs) \<and> (\<not> isl (fst (m s)) \<longrightarrow> qs \<noteq> [])))"

lemma sends_retry:
  assumes op: "sends (Suc 0) P op"
  shows "sends left P (retryFrom k left op)"
proof (induction left arbitrary: k)
  case 0
  show ?case by (simp add: sends_def)
next
  case (Suc left)
  show ?case unfolding sends_def
  proof
    fix s
    obtain r s1 where run: "op s = (r, s1)" by force
    from op [unfolded sends_def, rule_format, of s] run obtain qs where
      c1: "calls s \<le> calls s1" and q1: "sent s1 = sent s @ qs" "length qs \<le> Suc 0"
      "\<forall>q \<in> set qs. P q \<and> calls s \<le> q_idempotencyKey q \<and> q_idempotencyKey q < calls s1"
      "distinct (map q_idempotencyKey qs)" "\<not> isl r \<longrightarrow> qs \<noteq> []" by auto
    show "calls s \<le> calls (snd (retryFrom k (Suc left) op s)) \<and>
     (\<exists>qs. sent (snd (retryFrom k (Suc left) op s)) = sent s @ qs \<and> length qs \<le> Suc left
        \<and> (\<forall>q \<in> set qs. P q \<and> calls s \<le> q_idempotencyKey q \<and> q_idempotencyKey q < calls (snd (retryFrom k (Suc left) op s)))
        \<and> distinct (map q_idempotencyKey qs) \<and> (\<not> isl (fst (retryFrom k (Suc left) op s)) \<longrightarrow> qs \<noteq> []))"
      (is "?goal (retryFrom k (Suc left) op s)")
    proof (cases "\<exists>e. r = Inl e \<and> left \<noteq> 0 \<and> isRetryablePrivyError e")
      case False
      then have "snd (retryFrom k (Suc left) op s) = s1 \<and> isl (fst (retryFrom k (Suc left) op s)) = isl r"
        using run by (cases r) (auto simp: catching_def)
      then show ?thesis using c1 q1 by (auto intro!: exI [of _ qs])
    next
      case True
      let ?s2 = "s1\<lparr>now := now s1 + defaultBaseDelayMs * k\<rparr>"
      have go: "retryFrom k (Suc left) op s = retryFrom (Suc k) left op ?s2"
        using True run by (auto simp: catching_def andThen_def sleep_def)
      from Suc.IH [of "Suc k", unfolded sends_def, rule_format, of ?s2] obtain qs2 where
        c2: "calls s1 \<le> calls (snd (retryFrom (Suc k) left op ?s2))"
        and q2: "sent (snd (retryFrom (Suc k) left op ?s2)) = sent s1 @ qs2" "length qs2 \<le> left"
        "\<forall>q \<in> set qs2. P q \<and> calls s1 \<le> q_idempotencyKey q \<and> q_idempotencyKey q < calls (snd (retryFrom (Suc k) left op ?s2))"
        "distinct (map q_idempotencyKey qs2)" "\<not> isl (fst (retryFrom (Suc k) left op ?s2)) \<longrightarrow> qs2 \<noteq> []"
        by auto
      have "distinct (map q_idempotencyKey (qs @ qs2))"
        using q1(3,4) q2(3,4) by (fastforce simp: image_iff)
      moreover have "\<forall>q \<in> set (qs @ qs2). P q \<and> calls s \<le> q_idempotencyKey q \<and> q_idempotencyKey q < calls (snd (retryFrom (Suc k) left op ?s2))"
        using q1(3) q2(3) c1 c2 by fastforce
      ultimately show ?thesis unfolding go using c1 c2 q1(1,2) q2(1,2,5)
        by (intro conjI exI [of _ "qs @ qs2"]) auto
    qed
  qed
qed

lemma sends_same:
  "sends n P m \<Longrightarrow> (\<And>s. snd (m' s) = snd (m s) \<and> isl (fst (m' s)) = isl (fst (m s))) \<Longrightarrow> sends n P m'"
  by (simp add: sends_def)

lemma sends_execute: "sends (Suc 0) P op \<Longrightarrow> sends 3 P (privy_execute c op)"
  by (rule sends_same [where m = "retryFrom 1 3 op"], erule sends_retry)
     (simp add: privy_execute_def withRetry_def defaultMaxAttempts_def catching_def
        split: prod.splits sum.splits del: retryFrom.simps)

text \<open>A request that asks for what the caller asked for.\<close>

definition asksFor :: "send_transaction_input \<Rightarrow> sent_request \<Rightarrow> bool" where
  "asksFor input q \<longleftrightarrow> s_providerWalletId (q_input q) = s_providerWalletId input
     \<and> s_chainId (q_input q) = s_chainId input \<and> s_to (q_input q) = s_to input
     \<and> (\<exists>h. toHexQuantity (case s_value input of Some v \<Rightarrow> v | None \<Rightarrow> ''0'') = Inr h \<and> s_value (q_input q) = Some h)
     \<and> s_data (q_input q) = Some (case s_data input of Some d \<Rightarrow> d | None \<Rightarrow> ''0x'')"

lemma assertSignable_keeps:
  "sent (snd (privy_assertWalletServerSignable x w s)) = sent s \<and>
   calls s \<le> calls (snd (privy_assertWalletServerSignable x w s))"
  by (auto simp: privy_assertWalletServerSignable_def andThen_def extCall_def require_def Let_def
      split: option.splits sum.splits)

lemma sends_sendOnce: "sends (Suc 0) (asksFor input) (privy_sendOnce x input)"
  unfolding sends_def
proof
  fix s
  obtain r s1 where run: "privy_assertWalletServerSignable x (s_providerWalletId input) s = (r, s1)" by force
  with assertSignable_keeps [of x "s_providerWalletId input" s] have k: "sent s1 = sent s" "calls s \<le> calls s1" by auto
  show "calls s \<le> calls (snd (privy_sendOnce x input s)) \<and>
     (\<exists>qs. sent (snd (privy_sendOnce x input s)) = sent s @ qs \<and> length qs \<le> Suc 0
        \<and> (\<forall>q \<in> set qs. asksFor input q \<and> calls s \<le> q_idempotencyKey q \<and> q_idempotencyKey q < calls (snd (privy_sendOnce x input s)))
        \<and> distinct (map q_idempotencyKey qs) \<and> (\<not> isl (fst (privy_sendOnce x input s)) \<longrightarrow> qs \<noteq> []))"
  proof (cases r)
    case (Inl e)
    with run k show ?thesis by (auto simp: privy_sendOnce_def andThen_def)
  next
    case (Inr u)
    then have go: "privy_sendOnce x input s =
      andThen (lift (toHexQuantity (case s_value input of Some v \<Rightarrow> v | None \<Rightarrow> ''0'')))
        (\<lambda>hexValue. sendRequest x (transactionParams input hexValue (calls s1))) s1"
      using run by (simp add: privy_sendOnce_def andThen_Inr)
    show ?thesis
    proof (cases "toHexQuantity (case s_value input of Some v \<Rightarrow> v | None \<Rightarrow> ''0'')")
      case (Inl e)
      then show ?thesis unfolding go using k by auto
    next
      case (Inr h)
      then show ?thesis unfolding go using k
        by (auto simp: sendRequest_def andThen_def extCall_def asksFor_def transactionParams_def
              intro!: exI [of _ "[transactionParams input h (calls s1)]"])
    qed
  qed
qed

section \<open>The provider's contract\<close>

locale wallet_provider =
  fixes send :: "send_transaction_input \<Rightarrow> broadcast io"
  assumes writes_outside: "ignoresOutside I \<Longrightarrow> preserves I (send input)"
    and requests: "sends 3 (asksFor input) (send input)"
begin

lemma asked_only:
  assumes "q \<in> set (sent (snd (send input s)))" and "q \<notin> set (sent s)"
  shows "asksFor input q"
  using requests [of input, unfolded sends_def, rule_format, of s] assms by auto

lemma sent_grows: "\<exists>qs. sent (snd (send input s)) = sent s @ qs \<and> length qs \<le> 3"
  using requests [of input, unfolded sends_def, rule_format, of s] by blast

lemma sent_something: "send input s = (Inr b, s') \<Longrightarrow> sent s' \<noteq> sent s"
  using requests [of input, unfolded sends_def, rule_format, of s] by auto

lemma same_tables:
  "positions (snd (send input s)) = positions s" "transactions (snd (send input s)) = transactions s"
  "vaults (snd (send input s)) = vaults s" "nextId (snd (send input s)) = nextId s"
  by (rule preservesD [OF writes_outside [where I = "\<lambda>t. f t = f s" for f]]; simp add: ignoresOutside_def)+

end

lemma preserves_sendOnce: "ignoresOutside I \<Longrightarrow> preserves I (privy_sendOnce x input)"
proof -
  assume I: "ignoresOutside I"
  have "preserves I (modify (\<lambda>s. s\<lparr>sent := sent s @ [req]\<rparr>))" for req
    using I by (simp add: preserves_def ignoresOutside_def)
  moreover have "preserves I (privy_assertWalletServerSignable x w)" for w
    unfolding privy_assertWalletServerSignable_def using I by (auto split: option.splits intro!: pres)
  ultimately show ?thesis unfolding privy_sendOnce_def sendRequest_def by (intro pres I)
qed

interpretation privy: wallet_provider "privy_sendTransaction x" for x
proof unfold_locales
  show "preserves I (privy_sendTransaction x input)" if "ignoresOutside I" for I input
    unfolding privy_sendTransaction_def by (intro pres that preserves_sendOnce)
  show "sends 3 (asksFor input) (privy_sendTransaction x input)" for input
    unfolding privy_sendTransaction_def by (intro sends_execute sends_sendOnce)
qed

section \<open>Quantities\<close>

lemma hexChar_props: "d < 16 \<Longrightarrow> digitOf 16 (hexChar d) = Some d" "d < 16 \<Longrightarrow> \<not> isSpace (hexChar d)"
  by (auto simp: hexChar_def digitChar_def digitOf_def isSpace_def Let_def)

lemma parseRadix_showHexNat: "parseRadix 16 0 (showHexNat n) = Some n"
proof (induction n rule: showHexNat.induct)
  case (1 n)
  show ?case
  proof (cases "n < 16")
    case True
    then show ?thesis by (simp add: showHexNat.simps [of n] hexChar_props(1))
  next
    case False
    with 1 show ?thesis
      by (simp add: showHexNat.simps [of n] parseRadix_append hexChar_props(1))
  qed
qed

lemma showHexNat_last: "showHexNat n \<noteq> [] \<and> \<not> isSpace (last (showHexNat n))"
  by (cases "n < 16") (simp_all add: showHexNat.simps [of n] hexChar_props)

lemma zero_not_space: "\<not> isSpace (CHR ''0'')"
  by code_simp

text \<open>The quantity sent is the number the handler gave.\<close>

lemma toHexQuantity_value:
  assumes "0 \<le> n"
  shows "toHexQuantity (showInt n) = Inr (''0x'' @ showHexNat (nat n)) \<and>
         bigIntOf (''0x'' @ showHexNat (nat n)) = Some n"
proof
  have "CHR ''x'' \<notin> set (showInt n)"
    using showInt_chars [of "CHR ''x''" n] by (auto simp: isDigit_def code_def)
  then have "\<not> startsWith (showInt n) ''0x''"
    unfolding startsWith_def by (metis in_set_takeD list.set_intros(1) list.set_intros(2))
  then show "toHexQuantity (showInt n) = Inr (''0x'' @ showHexNat (nat n))"
    using assms by (simp add: toHexQuantity_def showHexInt_def)
  have trim: "trim (''0x'' @ showHexNat (nat n)) = ''0x'' @ showHexNat (nat n)"
    by (rule trim_id) (use showHexNat_last [of "nat n"] zero_not_space in auto)
  show "bigIntOf (''0x'' @ showHexNat (nat n)) = Some n"
    using assms showHexNat_last [of "nat n"] unfolding bigIntOf_def trim
    by (simp add: parseDigits_def parseRadix_showHexNat toLowerCase_def lowerChar_def code_def)
qed

end
