(* ===== verification/Validation.thy ===== *)
theory Validation
  imports Blockchain Tables
begin

text \<open>
  The checks made before a transaction is built: \<^verbatim>\<open>earn-transaction-validation.service.ts\<close>
  (\<open>val_\<close>), the wallet lookup it uses (\<^verbatim>\<open>wallets.service.ts\<close>), the vault repository and the
  explorer links.
\<close>

section \<open>Wallets, vaults, links\<close>

definition findOwnedWallet :: "uuid \<Rightarrow> uuid \<Rightarrow> wallet io" where
  "findOwnedWallet userId walletId =
     andThen (gets (\<lambda>s. find (\<lambda>w. w_id w = walletId \<and> w_userId w = userId) (wallets s))) (\<lambda>found.
     (case found of None \<Rightarrow> throw (notFound ''Wallet not found'') | Some w \<Rightarrow> ret w))"

definition newVault :: "world \<Rightarrow> protocol_vault \<Rightarrow> vault" where
  "newVault s pv =
     \<lparr>v_id = nextId s, v_slug = pv_vaultId pv, v_name = pv_name pv, v_chainId = pv_chainId pv,
      v_contractAddress = pv_contractAddress pv, v_assetSymbol = pv_assetSymbol pv,
      v_assetDecimals = pv_assetDecimals pv, v_apy = pv_apy pv, v_isActive = pv_isEnabled pv,
      v_createdAt = now s, v_updatedAt = now s\<rparr>"

definition refreshVault :: "protocol_vault \<Rightarrow> vault \<Rightarrow> vault res" where
  "refreshVault pv v =
     Inr (v\<lparr>v_name := pv_name pv, v_contractAddress := pv_contractAddress pv,
            v_assetSymbol := pv_assetSymbol pv, v_assetDecimals := pv_assetDecimals pv,
            v_apy := pv_apy pv, v_isActive := pv_isEnabled pv\<rparr>)"

text \<open>\<open>EarnVaultRepository.findOrCreate\<close>: an upsert on the slug.\<close>

definition vaultRepo_findOrCreate :: "protocol_vault \<Rightarrow> vault io" where
  "vaultRepo_findOrCreate pv s =
     (case find (\<lambda>v. v_slug v = pv_vaultId pv) (vaults s) of
        Some v \<Rightarrow> vaultUpdate (v_id v) (refreshVault pv) s
      | None \<Rightarrow>
          (let v = newVault s pv
           in (Inr v, s\<lparr>vaults := vaults s @ [v], nextId := Suc (nextId s)\<rparr>)))"

definition buildExplorerUrl :: "string option \<Rightarrow> string option \<Rightarrow> string option" where
  "buildExplorerUrl explorerBaseUrl txHash =
     (case (explorerBaseUrl, txHash) of
        (Some b, Some h) \<Rightarrow>
          if b = [] \<or> h = [] then None
          else Some ((if last b = CHR ''/'' then butlast b else b) @ ''/tx/'' @ h)
      | _ \<Rightarrow> None)"

definition explorer_forTransaction :: "env \<Rightarrow> int \<Rightarrow> string option \<Rightarrow> string option" where
  "explorer_forTransaction x chainId txHash =
     buildExplorerUrl
       (case c_chains (e_config x) of
          None \<Rightarrow> None
        | Some cs \<Rightarrow> map_option explorerUrl (find (\<lambda>c. ch_chainId c = chainId) cs))
       txHash"

section \<open>EarnTransactionValidationService\<close>

definition val_getChainDefinition :: "env \<Rightarrow> int \<Rightarrow> chain_definition res" where
  "val_getChainDefinition x chainId =
     (case c_chains (e_config x) of
        None \<Rightarrow> Inl (PlainError ''Chains configuration failed to load'')
      | Some cs \<Rightarrow>
          (case find (\<lambda>entry. ch_chainId entry = chainId) cs of
             None \<Rightarrow> Inl (badRequest (''Unsupported chainId: '' @ showInt chainId))
           | Some c \<Rightarrow> Inr c))"

definition val_assertWalletBelongsToUser :: "uuid \<Rightarrow> uuid \<Rightarrow> wallet io" where
  "val_assertWalletBelongsToUser = findOwnedWallet"

definition val_assertChainMatchesEnvironment :: "env \<Rightarrow> int \<Rightarrow> unit io" where
  "val_assertChainMatchesEnvironment x chainId =
     andThen (lift (val_getChainDefinition x chainId)) (\<lambda>chain.
     andThen (lift (bc_getBlockchainConfig x)) (\<lambda>blockchain.
       require (isTestnet chain \<or> allowMainnetTransactions blockchain) mainnetDisabled))"

definition val_assertVaultBelongsToChain :: "protocol_vault \<Rightarrow> int \<Rightarrow> unit io" where
  "val_assertVaultBelongsToChain vault chainId =
     require (pv_chainId vault = chainId)
       (badRequest (''Vault '' @ pv_vaultId vault @ '' does not belong to chain '' @ showInt chainId))"

definition val_assertRpcBelongsToChain :: "env \<Rightarrow> int \<Rightarrow> unit io" where
  "val_assertRpcBelongsToChain x chainId =
     andThen (lift (val_getChainDefinition x chainId)) (\<lambda>chain.
     andThen (require (ch_rpcUrl chain \<noteq> [] \<and> startsWith (ch_rpcUrl chain) ''http'')
                (badRequest (''RPC URL is not configured for chain '' @ showInt chainId))) (\<lambda>_.
       require (ch_isEnabled chain) (badRequest (''Chain '' @ showInt chainId @ '' is disabled''))))"

definition val_assertWalletChainMatchesVault :: "wallet \<Rightarrow> protocol_vault \<Rightarrow> unit io" where
  "val_assertWalletChainMatchesVault wallet vault =
     require (w_chainId wallet = pv_chainId vault)
       (badRequest (''Wallet chain '' @ showInt (w_chainId wallet) @ '' does not match vault chain ''
          @ showInt (pv_chainId vault)))"

definition val_assertVaultActive :: "protocol_vault \<Rightarrow> unit io" where
  "val_assertVaultActive vault =
     require (pv_isEnabled vault) (badRequestCode (''Vault is not active: '' @ pv_vaultId vault) ''VAULT_DISABLED'')"

definition val_assertDepositEnabled :: "protocol_vault \<Rightarrow> unit io" where
  "val_assertDepositEnabled vault =
     andThen (val_assertVaultActive vault) (\<lambda>_.
       require (pv_depositEnabled vault)
         (badRequestCode (''Deposits are disabled for vault: '' @ pv_vaultId vault) ''VAULT_DEPOSIT_DISABLED''))"

definition val_assertWithdrawEnabled :: "protocol_vault \<Rightarrow> unit io" where
  "val_assertWithdrawEnabled vault =
     andThen (val_assertVaultActive vault) (\<lambda>_.
       require (pv_withdrawEnabled vault)
         (badRequestCode (''Withdrawals are disabled for vault: '' @ pv_vaultId vault) ''VAULT_WITHDRAW_DISABLED''))"

definition val_assertSufficientBalance :: "int \<Rightarrow> int \<Rightarrow> unit io" where
  "val_assertSufficientBalance required available =
     require (\<not> available < required)
       (badRequest (''Insufficient balance: required '' @ showInt required @ '', available '' @ showInt available))"

definition val_assertSufficientAllowance :: "int \<Rightarrow> int \<Rightarrow> unit io" where
  "val_assertSufficientAllowance required available =
     require (\<not> available < required)
       (badRequest (''Insufficient allowance: required '' @ showInt required @ '', available '' @ showInt available))"

lemmas val_defs = val_assertChainMatchesEnvironment_def val_assertVaultBelongsToChain_def
  val_assertRpcBelongsToChain_def val_assertWalletChainMatchesVault_def val_assertVaultActive_def
  val_assertDepositEnabled_def val_assertWithdrawEnabled_def val_assertWalletBelongsToUser_def
  findOwnedWallet_def

section \<open>Facts\<close>

lemma preserves_val [pres]:
  "preserves I (val_assertChainMatchesEnvironment x c)" "preserves I (val_assertVaultBelongsToChain v c)"
  "preserves I (val_assertRpcBelongsToChain x c)" "preserves I (val_assertWalletChainMatchesVault w v)"
  "preserves I (val_assertDepositEnabled v)" "preserves I (val_assertWithdrawEnabled v)"
  "preserves I (val_assertWalletBelongsToUser u wid)"
  unfolding val_defs by (intro pres)+

text \<open>A slug names one vault row, and an upsert leaves the rows of the other tables alone.\<close>

lemma findOrCreate_fields [simp]:
  "positions (snd (vaultRepo_findOrCreate pv s)) = positions s"
  "transactions (snd (vaultRepo_findOrCreate pv s)) = transactions s"
  "nextId s \<le> nextId (snd (vaultRepo_findOrCreate pv s))"
  "sent (snd (vaultRepo_findOrCreate pv s)) = sent s"
  by (simp_all add: vaultRepo_findOrCreate_def Let_def split: option.split)

definition vaultInv :: "world \<Rightarrow> bool" where
  "vaultInv s \<longleftrightarrow> distinct (map v_id (vaults s)) \<and> (\<forall>v \<in> set (vaults s). v_id v < nextId s)
     \<and> distinct (map v_slug (vaults s))"

lemma findOrCreate_vaultInv: "preserves vaultInv (vaultRepo_findOrCreate pv)"
proof (rule preservesI)
  fix s assume inv: "vaultInv s"
  show "vaultInv (snd (vaultRepo_findOrCreate pv s))"
  proof (cases "find (\<lambda>v. v_slug v = pv_vaultId pv) (vaults s)")
    case None
    then have fresh: "\<forall>v \<in> set (vaults s). v_slug v \<noteq> pv_vaultId pv" by (simp add: find_None_all)
    have "\<forall>v \<in> set (vaults s). v_id v \<noteq> nextId s" using inv by (auto simp: vaultInv_def)
    with fresh inv None show ?thesis
      by (auto simp: vaultRepo_findOrCreate_def newVault_def vaultInv_def Let_def less_Suc_eq image_iff)
  next
    case (Some v)
    have dist: "distinct (map v_id (vaults s))" using inv by (simp add: vaultInv_def)
    have same: "map h (vaults (snd (vaultUpdate (v_id v) (refreshVault pv) s))) = map h (vaults s)"
      if "\<And>v' v'' t. refreshVault pv v' = Inr v'' \<Longrightarrow> h (touchVault t v'') = h v'" for h :: "vault \<Rightarrow> 'a"
      unfolding vaultUpdate_def by (intro vaultTable.update_map dist that)
    have ids: "map v_id (vaults (snd (vaultUpdate (v_id v) (refreshVault pv) s))) = map v_id (vaults s)"
      by (rule same) (auto simp: refreshVault_def touchVault_def)
    have slugs: "map v_slug (vaults (snd (vaultUpdate (v_id v) (refreshVault pv) s))) = map v_slug (vaults s)"
      by (rule same) (auto simp: refreshVault_def touchVault_def)
    have "\<forall>i \<in> set (map v_id (vaults s)). i < nextId s" using inv by (simp add: vaultInv_def)
    then have "\<forall>v' \<in> set (vaults (snd (vaultUpdate (v_id v) (refreshVault pv) s))). v_id v' < nextId s"
      unfolding ids [symmetric] by simp
    with ids slugs inv Some show ?thesis by (simp add: vaultRepo_findOrCreate_def vaultInv_def)
  qed
qed

text \<open>What holds of the chain and the wallet when the checks have passed.\<close>

definition chainUsable :: "env \<Rightarrow> int \<Rightarrow> bool" where
  "chainUsable x chainId \<longleftrightarrow>
     (\<exists>c b. val_getChainDefinition x chainId = Inr c \<and> bc_getBlockchainConfig x = Inr b
        \<and> (isTestnet c \<or> allowMainnetTransactions b) \<and> ch_isEnabled c \<and> startsWith (ch_rpcUrl c) ''http'')"

lemma chainUsable_checks:
  assumes "val_assertChainMatchesEnvironment x c s = (Inr u, s1)" and "val_assertRpcBelongsToChain x c s1 = (Inr u', s2)"
  shows "chainUsable x c \<and> s1 = s \<and> s2 = s"
  using assms
  by (auto simp: val_assertChainMatchesEnvironment_def val_assertRpcBelongsToChain_def chainUsable_def
      elim!: andThen_InrE)

lemma findOwnedWallet_Inr:
  "val_assertWalletBelongsToUser u i s = (Inr w, s') \<Longrightarrow> s' = s \<and> w \<in> set (wallets s) \<and> w_id w = i \<and> w_userId w = u"
  by (auto simp: val_assertWalletBelongsToUser_def findOwnedWallet_def split: option.splits dest: find_Some_iff_first)

lemma viaClient_Inr: "viaClient x c r s = (Inr v, s') \<Longrightarrow> \<exists>k. r k = Inr v"
  by (auto simp: viaClient_def extCall_def elim!: andThen_InrE)

lemma findOrCreate_existing:
  assumes "find (\<lambda>v. v_slug v = pv_vaultId pv) (vaults s) = Some v"
  shows "\<exists>v' s'. vaultRepo_findOrCreate pv s = (Inr v', s') \<and> v_id v' = v_id v"
proof -
  have "v \<in> set (vaults s)" using assms by (auto dest: find_Some_iff_first)
  then obtain r where r: "find (\<lambda>q. v_id q = v_id v) (vaults s) = Some r"
    by (metis (mono_tags, lifting) find_None_all option.exhaust)
  then have "v_id r = v_id v" by (auto dest: find_Some_iff_first)
  moreover obtain r' where r': "refreshVault pv r = Inr r'" "v_id r' = v_id r" by (simp add: refreshVault_def)
  ultimately show ?thesis
    using assms vaultTable.update_hit [where f = "refreshVault pv", OF r r'(1)]
    by (simp add: vaultRepo_findOrCreate_def vaultUpdate_def touchVault_def)
qed

end
