(* ===== verification/Sending.thy ===== *)
theory Sending
  imports Ledger RedisLocks Privy Validation
begin

text \<open>
  What the handlers' parts do to the requests sent: everything but the wallet provider leaves
  them alone (\<open>silent\<close>), so a property of the requests made so far goes through every other
  step, and the provider adds only requests for what it was asked.
\<close>

text \<open>Whichever way a handler ends, the invariant does not see the Redis keys.\<close>

lemma ignoresRedis_base [simp]: "ignoresRedis (base sk S)"
  by (simp add: ignoresRedis_def, simp add: base_def dbInv_def posInv_def txInv_def ledger_def openIn_def refsBelow_def balanceOf_def)

section \<open>Silent operations\<close>

definition silent :: "'a io \<Rightarrow> bool" where
  "silent m \<longleftrightarrow> (\<forall>s. sent (snd (m s)) = sent s)"

named_theorems quiet "operations that send nothing"

lemma silentI: "(\<And>s. sent (snd (m s)) = sent s) \<Longrightarrow> silent m"
  by (simp add: silent_def)

lemma silentD: "silent m \<Longrightarrow> m s = (r, s') \<Longrightarrow> sent s' = sent s"
  by (metis silent_def snd_conv)

lemma silent_iff: "silent m \<longleftrightarrow> (\<forall>J. preserves (\<lambda>s. J (sent s)) m)"
proof
  assume all: "\<forall>J. preserves (\<lambda>s. J (sent s)) m"
  show "silent m"
  proof (rule silentI)
    fix s :: world
    from all have "preserves (\<lambda>t. sent t = sent s) m" by (rule spec [where x = "\<lambda>q. q = sent s"])
    then show "sent (snd (m s)) = sent s" by (auto dest: preservesD)
  qed
qed (simp add: silent_def preserves_def)

lemma quiet_basic [quiet]:
  "silent (ret x)" "silent (throw e)" "silent (lift r)" "silent (gets f)" "silent (require b e)" "silent (extCall g)"
  by (simp_all add: silent_def require_def)

lemma quiet_combine [quiet]:
  "silent m \<Longrightarrow> (\<And>x. silent (f x)) \<Longrightarrow> silent (andThen m f)"
  "silent m \<Longrightarrow> (\<And>e. silent (h e)) \<Longrightarrow> silent (catching m h)"
  "silent m \<Longrightarrow> silent k \<Longrightarrow> silent (finallyDo m k)"
  "silent m \<Longrightarrow> silent (atomically m)"
  "silent u \<Longrightarrow> silent (whenE b u)"
  unfolding silent_iff by (intro allI pres; blast)+

lemma quiet_if [quiet]: "(b \<Longrightarrow> silent m) \<Longrightarrow> (\<not> b \<Longrightarrow> silent m') \<Longrightarrow> silent (if b then m else m')"
  by simp

lemma quiet_cases [quiet]:
  "(y = None \<Longrightarrow> silent m) \<Longrightarrow> (\<And>z. y = Some z \<Longrightarrow> silent (g z)) \<Longrightarrow> silent (case y of None \<Rightarrow> m | Some z \<Rightarrow> g z)"
  "(\<And>a b. silent (k a b)) \<Longrightarrow> silent (case q of (a, b) \<Rightarrow> k a b)"
  "(\<And>z. silent (g z)) \<Longrightarrow> silent (let z = y' in g z)"
  subgoal by (cases y) auto
  subgoal by (cases q) auto
  subgoal by simp
  done

lemma quiet_sleep [quiet]: "silent (sleep ms)"
  by (simp add: silent_def sleep_def)

lemma quiet_auditLog [quiet]: "silent (auditLog x a)"
  by (simp add: silent_def)

lemma quiet_reads [quiet]:
  "silent (pos_findById j)" "silent (pos_findByUserAndVault u v)" "silent (pos_findByIdWithVault j)"
  "silent (tx_hasOpenDeposit u v)" "silent (tx_hasOpenWithdraw j)"
  unfolding silent_iff by (intro allI pres)+

lemma quiet_positions [quiet]:
  "silent (pos_markFailed j)" "silent (pos_markActive j)" "silent (pos_markWithdrawing j)"
  "silent (pos_createPending u v)" "silent (pos_activate j d)" "silent (pos_addDeposit j d)"
  "silent (pos_subtractWithdraw j w)"
  by (simp_all add: silent_def pos_ops posRepo_create_def posRepo_activate_def posRepo_addDeposit_def Let_def
       posRepo_subtractWithdraw_def posRepo_findById_def andThen_def bigInt_def
       posRepo_markWithdrawing_def posRepo_markActive_def posRepo_markFailed_def split: option.splits)

lemma quiet_transactions [quiet]:
  "silent (tx_markFailed j m)" "silent (tx_markReverted j b m)" "silent (tx_markConfirmed j b m)"
  "silent (tx_markSubmitted j h m)" "silent (tx_createTransaction ci)" "silent (tx_confirmSubmitted j b m)"
proof -
  show "silent (tx_confirmSubmitted j b m)"
  proof (rule silentI)
    fix s
    obtain f where "snd (txRepo_confirmSubmitted j b m s) = snd (transactionUpdate j f s)"
      using confirmSubmitted_as_update by blast
    then show "sent (snd (tx_confirmSubmitted j b m s)) = sent s"
      by (cases "txRepo_confirmSubmitted j b m s") (auto simp: tx_confirmSubmitted_def andThen_def split: sum.splits)
  qed
  show "silent (tx_createTransaction ci)"
    by (simp add: silent_def tx_createTransaction_def txRepo_create_def Let_def split: sum.splits)
qed (simp_all add: silent_def tx_marks txRepo_updateStatus_def)

lemma quiet_redis [quiet]: "silent m \<Longrightarrow> silent (redisCommand x m)"
  unfolding redisCommand_def by (intro quiet)

lemma quiet_redis_commands [quiet]: "silent (redisIncr k)" "silent (redisExpire k n)"
  by (auto simp: silent_def redisIncr_def redisExpire_def split: option.splits)

lemma quiet_rateLimit [quiet]: "silent (assertDepositAllowed x u)" "silent (assertWithdrawAllowed x u)"
  unfolding assertDepositAllowed_def assertWithdrawAllowed_def assertAllowed_def by (intro quiet)+

lemma quiet_vault [quiet]: "silent (vaultRepo_findOrCreate pv)"
  by (simp add: silent_def)

lemma quiet_val [quiet]:
  "silent (val_assertChainMatchesEnvironment x c)" "silent (val_assertVaultBelongsToChain v c)"
  "silent (val_assertRpcBelongsToChain x c)" "silent (val_assertWalletChainMatchesVault w v)"
  "silent (val_assertDepositEnabled v)" "silent (val_assertWithdrawEnabled v)"
  "silent (val_assertWalletBelongsToUser u wid)"
  unfolding silent_iff by (intro allI pres)+

lemma quiet_bc [quiet]:
  "silent (bc_readErc20Allowance x c o' a sp)" "silent (bc_readAssetBalance x c w a)"
  "silent (bc_readVaultShareBalance x v w)" "silent (bc_waitForTransactionReceipt x c h)"
  "silent (bc_previewDepositShares v n)" "silent (bc_previewWithdrawShares v n)"
  unfolding bc_reads viaClient_def bc_previewDepositShares_def bc_previewWithdrawShares_def by (intro quiet)+

lemma quiet_aave [quiet]: "silent (aave_getVault x v c)"
  unfolding aave_getVault_def aave_buildVault_def viem_readReserveData_def viem_readTokenSymbol_def
  by (intro quiet)

section \<open>What is sent\<close>

text \<open>\<open>sendsOnly Q m\<close>: every request \<open>m\<close> adds is as \<open>Q\<close> says.\<close>

definition sendsOnly :: "(sent_request \<Rightarrow> bool) \<Rightarrow> 'a io \<Rightarrow> bool" where
  "sendsOnly Q m \<longleftrightarrow> (\<forall>s. \<forall>q \<in> set (sent (snd (m s))). q \<in> set (sent s) \<or> Q q)"

lemma sendsOnlyD: "sendsOnly Q m \<Longrightarrow> q \<in> set (sent (snd (m s))) \<Longrightarrow> q \<notin> set (sent s) \<Longrightarrow> Q q"
  by (auto simp: sendsOnly_def)

lemma silent_sendsOnly: "silent m \<Longrightarrow> sendsOnly Q m"
  by (simp add: silent_def sendsOnly_def)

lemma sendsOnly_andThen_ret:
  assumes "sendsOnly Q m" and "\<And>s y s'. m s = (Inr y, s') \<Longrightarrow> sendsOnly Q (f y)"
  shows "sendsOnly Q (andThen m f)"
  unfolding sendsOnly_def
proof (intro allI ballI)
  fix s q assume q: "q \<in> set (sent (snd (andThen m f s)))"
  obtain r s1 where run: "m s = (r, s1)" by force
  show "q \<in> set (sent s) \<or> Q q"
  proof (cases r)
    case (Inl e)
    with q run show ?thesis using sendsOnlyD [OF assms(1), of q s] by (auto simp: andThen_def)
  next
    case (Inr y)
    with q run show ?thesis
      using sendsOnlyD [OF assms(1), of q s] sendsOnlyD [OF assms(2), of s y s1 q s1] by (auto simp: andThen_def)
  qed
qed

lemma sendsOnly_andThen:
  assumes "sendsOnly Q m" and "\<And>y. sendsOnly Q (f y)"
  shows "sendsOnly Q (andThen m f)"
  by (rule sendsOnly_andThen_ret) (rule assms)+

lemma sendsOnly_catching:
  assumes "sendsOnly Q m" and "\<And>e. sendsOnly Q (h e)"
  shows "sendsOnly Q (catching m h)"
  unfolding sendsOnly_def
proof (intro allI ballI)
  fix s q assume q: "q \<in> set (sent (snd (catching m h s)))"
  obtain r s1 where run: "m s = (r, s1)" by force
  show "q \<in> set (sent s) \<or> Q q"
  proof (cases r)
    case (Inl e)
    with q run show ?thesis
      using sendsOnlyD [OF assms(1), of q s] sendsOnlyD [OF assms(2), of q e s1] by (auto simp: catching_def)
  next
    case (Inr y)
    with q run show ?thesis using sendsOnlyD [OF assms(1), of q s] by (auto simp: catching_def)
  qed
qed

lemma sendsOnly_send: "(\<And>q. asksFor input q \<Longrightarrow> Q q) \<Longrightarrow> sendsOnly Q (privy_sendTransaction x input)"
  unfolding sendsOnly_def using privy.asked_only by metis

end
