(* ===== verification/Deposit.thy ===== *)
theory Deposit
  imports Sending
begin

text \<open>
  \<^verbatim>\<open>src/earn/services/earn-deposit.service.ts\<close>: \<open>depositVault\<close>, in the parts its body has: the
  checks (\<open>dep_checks\<close>), the database transaction that opens the deposit (\<open>dep_open\<close>), the
  \<open>try\<close> block (\<open>dep_submit\<close>, then \<open>dep_settle\<close> with the branch a reverted receipt takes and the
  one a successful receipt takes), the \<open>catch\<close> block (\<open>dep_fail\<close>), and the response.

  The facts: a deposit keeps the tables' invariants and the ledger whichever way it ends and
  leaves no open transaction behind; nothing is sent unless every check passed and the
  transaction was recorded.
\<close>

section \<open>The service\<close>

record deposit_dto =
  dd_walletId :: uuid
  dd_amount :: string

record deposit_response =
  dr_vaultId :: string
  dr_chainId :: int
  dr_walletId :: uuid
  dr_amount :: string
  dr_walletBalance :: string
  dr_allowance :: string
  dr_positionId :: uuid
  dr_positionStatus :: position_status
  dr_depositedAmount :: string
  dr_shares :: string
  dr_transactionId :: uuid
  dr_status :: transaction_status
  dr_txHash :: "string option"
  dr_blockNumber :: "string option"
  dr_explorerUrl :: "string option"

text \<open>The local variables the rest of the body uses.\<close>

record deposit_context =
  dc_amount :: int
  dc_vault :: protocol_vault
  dc_wallet :: wallet
  dc_walletBalance :: int
  dc_allowance :: int
  dc_estimatedShares :: int

definition dep_checks :: "env \<Rightarrow> uuid \<Rightarrow> string \<Rightarrow> deposit_dto \<Rightarrow> deposit_context io" where
  "dep_checks x userId vaultId dto =
     andThen (lift (bigInt (dd_amount dto))) (\<lambda>amount.
     andThen (aave_getVault x vaultId None) (\<lambda>vault.
     andThen (val_assertDepositEnabled vault) (\<lambda>_.
     andThen (val_assertChainMatchesEnvironment x (pv_chainId vault)) (\<lambda>_.
     andThen (val_assertRpcBelongsToChain x (pv_chainId vault)) (\<lambda>_.
     andThen (val_assertVaultBelongsToChain vault (pv_chainId vault)) (\<lambda>_.
     andThen (val_assertWalletBelongsToUser userId (dd_walletId dto)) (\<lambda>wallet.
     andThen (val_assertWalletChainMatchesVault wallet vault) (\<lambda>_.
     andThen (bc_readAssetBalance x (pv_chainId vault) (w_address wallet) (pv_assetAddress vault)) (\<lambda>walletBalance.
     andThen (if pv_assetAddress vault = ''native'' then ret amount
              else bc_readErc20Allowance x (pv_chainId vault) (w_address wallet) (pv_assetAddress vault)
                     (pv_contractAddress vault)) (\<lambda>allowance.
     andThen (bc_previewDepositShares vault amount) (\<lambda>estimatedShares.
     andThen (require (\<not> walletBalance < amount) (insufficientBalance (dd_amount dto) (showInt walletBalance))) (\<lambda>_.
     andThen (require (\<not> allowance < amount) (insufficientAllowance (dd_amount dto) (showInt allowance))) (\<lambda>_.
     ret \<lparr>dc_amount = amount, dc_vault = vault, dc_wallet = wallet, dc_walletBalance = walletBalance,
          dc_allowance = allowance, dc_estimatedShares = estimatedShares\<rparr>)))))))))))))"

definition dep_assertNoDuplicateDeposit :: "uuid \<Rightarrow> uuid \<Rightarrow> string \<Rightarrow> unit io" where
  "dep_assertNoDuplicateDeposit userId dbVaultId protocolVaultId =
     andThen (pos_findByUserAndVault userId dbVaultId) (\<lambda>existingPosition.
     andThen (tx_hasOpenDeposit userId dbVaultId) (\<lambda>hasOpenDeposit.
     andThen (require (map_option pr_status existingPosition \<noteq> Some P_PENDING) (depositInProgress protocolVaultId)) (\<lambda>_.
       require (\<not> hasOpenDeposit) (depositInProgress protocolVaultId))))"

definition dep_metadata :: "deposit_context \<Rightarrow> metadata" where
  "dep_metadata c =
     [(''protocolVaultId'', JStr (pv_vaultId (dc_vault c))),
      (''estimatedShares'', JStr (showInt (dc_estimatedShares c))),
      (''walletBalance'', JStr (showInt (dc_walletBalance c))),
      (''allowance'', JStr (showInt (dc_allowance c)))]"

definition dep_transactionInput :: "uuid \<Rightarrow> uuid \<Rightarrow> deposit_dto \<Rightarrow> deposit_context \<Rightarrow> uuid \<Rightarrow> create_transaction_input" where
  "dep_transactionInput userId dbVaultId dto c positionId =
     \<lparr>ct_userId = userId, ct_walletId = w_id (dc_wallet c), ct_chainId = pv_chainId (dc_vault c),
      ct_type = DEPOSIT, ct_amount = dd_amount dto, ct_vaultId = Some dbVaultId,
      ct_positionId = Some positionId, ct_metadata = Some (dep_metadata c)\<rparr>"

text \<open>The body of the database transaction: position, transaction, whether the position is new.\<close>

definition dep_openBody ::
    "uuid \<Rightarrow> uuid \<Rightarrow> deposit_dto \<Rightarrow> deposit_context \<Rightarrow> (position_record \<times> transaction_record \<times> bool) io" where
  "dep_openBody userId dbVaultId dto c =
     andThen (pos_findByUserAndVault userId dbVaultId) (\<lambda>existingPosition.
     andThen (require (map_option pr_status existingPosition \<noteq> Some P_PENDING)
                (depositInProgress (pv_vaultId (dc_vault c)))) (\<lambda>_.
     andThen (tx_hasOpenDeposit userId dbVaultId) (\<lambda>hasOpenDeposit.
     andThen (require (\<not> hasOpenDeposit) (depositInProgress (pv_vaultId (dc_vault c)))) (\<lambda>_.
     andThen (case existingPosition of
                Some p \<Rightarrow> ret (p, False)
              | None \<Rightarrow> andThen (pos_createPending userId dbVaultId) (\<lambda>p. ret (p, True))) (\<lambda>(positionRecord, isNew).
     andThen (tx_createTransaction (dep_transactionInput userId dbVaultId dto c (pr_positionId positionRecord)))
       (\<lambda>transactionRecord. ret (positionRecord, transactionRecord, isNew)))))))"

definition dep_open ::
    "uuid \<Rightarrow> deposit_dto \<Rightarrow> deposit_context \<Rightarrow> (vault \<times> position_record \<times> transaction_record \<times> bool) io" where
  "dep_open userId dto c =
     andThen (vaultRepo_findOrCreate (dc_vault c)) (\<lambda>dbVault.
     andThen (dep_assertNoDuplicateDeposit userId (v_id dbVault) (pv_vaultId (dc_vault c))) (\<lambda>_.
     andThen (atomically (dep_openBody userId (v_id dbVault) dto c)) (\<lambda>(position, transaction, isNewPosition).
       ret (dbVault, position, transaction, isNewPosition))))"

definition dep_requested :: "env \<Rightarrow> uuid \<Rightarrow> deposit_dto \<Rightarrow> deposit_context \<Rightarrow> position_record \<Rightarrow> transaction_record \<Rightarrow> unit io" where
  "dep_requested x userId dto c position transaction =
     auditLog x \<lparr>al_userId = Some userId, al_action = DEPOSIT_REQUESTED, al_entityType = ''transaction'',
       al_entityId = tr_transactionId transaction,
       al_metadata = Some [(''vaultId'', JStr (pv_vaultId (dc_vault c))), (''walletId'', JStr (showNat (dd_walletId dto))),
         (''amount'', JStr (dd_amount dto)), (''positionId'', JStr (showNat (pr_positionId position)))]\<rparr>"

text \<open>Encoding, sending, and recording the hash.\<close>

definition dep_sendInput :: "deposit_context \<Rightarrow> string \<Rightarrow> send_transaction_input" where
  "dep_sendInput c depositData =
     \<lparr>s_providerWalletId = w_providerId (dc_wallet c), s_chainId = pv_chainId (dc_vault c),
      s_to = pv_contractAddress (dc_vault c), s_value = Some ''0'', s_data = Some depositData\<rparr>"

definition dep_submittedMetadata :: "deposit_context \<Rightarrow> broadcast \<Rightarrow> metadata" where
  "dep_submittedMetadata c broadcast =
     optField ''privyTransactionId'' (map_option JStr (b_transactionId broadcast))
     @ [(''estimatedShares'', JStr (showInt (dc_estimatedShares c)))]"

definition dep_submit :: "env \<Rightarrow> deposit_context \<Rightarrow> transaction_record \<Rightarrow> (transaction_record \<times> receipt) io" where
  "dep_submit x c transaction =
     andThen (lift (bc_encodeVaultDeposit x (dc_vault c) (dc_amount c) (w_address (dc_wallet c)))) (\<lambda>depositData.
     andThen (privy_sendTransaction x (dep_sendInput c depositData)) (\<lambda>broadcast.
     andThen (tx_markSubmitted (tr_transactionId transaction) (b_hash broadcast)
                (Some (dep_submittedMetadata c broadcast))) (\<lambda>submitted.
     andThen (bc_waitForTransactionReceipt x (pv_chainId (dc_vault c)) (b_hash broadcast)) (\<lambda>receipt.
       ret (submitted, receipt)))))"

definition dep_toResponse ::
    "env \<Rightarrow> deposit_dto \<Rightarrow> deposit_context \<Rightarrow> position_record \<Rightarrow> transaction_record \<Rightarrow> string \<Rightarrow> deposit_response" where
  "dep_toResponse x dto c position transaction shares =
     \<lparr>dr_vaultId = pv_vaultId (dc_vault c), dr_chainId = pv_chainId (dc_vault c), dr_walletId = dd_walletId dto,
      dr_amount = dd_amount dto, dr_walletBalance = showInt (dc_walletBalance c),
      dr_allowance = showInt (dc_allowance c), dr_positionId = pr_positionId position,
      dr_positionStatus = pr_status position, dr_depositedAmount = pr_depositedAmount position,
      dr_shares = shares, dr_transactionId = tr_transactionId transaction, dr_status = tr_status transaction,
      dr_txHash = tr_txHash transaction, dr_blockNumber = tr_blockNumber transaction,
      dr_explorerUrl = explorer_forTransaction x (pv_chainId (dc_vault c)) (tr_txHash transaction)\<rparr>"

definition dep_reverted ::
    "env \<Rightarrow> uuid \<Rightarrow> deposit_dto \<Rightarrow> deposit_context \<Rightarrow> vault \<Rightarrow> position_record \<Rightarrow> bool \<Rightarrow>
     transaction_record \<Rightarrow> receipt \<Rightarrow> deposit_response io" where
  "dep_reverted x userId dto c dbVault position isNewPosition submitted receipt =
     andThen (whenE isNewPosition (andThen (pos_markFailed (pr_positionId position)) (\<lambda>_. ret ()))) (\<lambda>_.
     andThen (tx_markReverted (tr_transactionId submitted) (rc_blockNumber receipt)
                (Some [(''gasUsed'', JStr (showInt (rc_gasUsed receipt)))])) (\<lambda>reverted.
     andThen (pos_findByUserAndVault userId (v_id dbVault)) (\<lambda>currentPosition.
       ret (dep_toResponse x dto c (orElse currentPosition position) reverted
              (case currentPosition of Some p \<Rightarrow> pr_shares p | None \<Rightarrow> ''0'')))))"

definition dep_amounts :: "deposit_dto \<Rightarrow> deposit_context \<Rightarrow> activate_position_input" where
  "dep_amounts dto c =
     \<lparr>ap_depositedAmount = dd_amount dto, ap_currentAmount = dd_amount dto,
      ap_shares = showInt (dc_estimatedShares c)\<rparr>"

definition dep_positionMissing :: "uuid \<Rightarrow> exn" where
  "dep_positionMissing positionId =
     PlainError (''Position '' @ showNat positionId @ '' not found after deposit confirmation'')"

text \<open>The body of the database transaction that confirms the deposit.\<close>

definition dep_confirmBody ::
    "deposit_dto \<Rightarrow> deposit_context \<Rightarrow> position_record \<Rightarrow> bool \<Rightarrow> transaction_record \<Rightarrow> receipt \<Rightarrow>
     (transaction_record \<times> position_record) io" where
  "dep_confirmBody dto c position isNewPosition submitted receipt =
     andThen (tx_confirmSubmitted (tr_transactionId submitted) (rc_blockNumber receipt)
                (Some [(''gasUsed'', JStr (showInt (rc_gasUsed receipt))),
                       (''estimatedShares'', JStr (showInt (dc_estimatedShares c)))])) (\<lambda>(applied, confirmed).
     andThen (if applied
              then (if isNewPosition
                    then andThen (pos_activate (pr_positionId position) (dep_amounts dto c)) (\<lambda>p. ret (Some p))
                    else andThen (pos_addDeposit (pr_positionId position) (dep_amounts dto c)) (\<lambda>p. ret (Some p)))
              else pos_findById (pr_positionId position)) (\<lambda>updatedPosition.
     (case updatedPosition of
        None \<Rightarrow> throw (dep_positionMissing (pr_positionId position))
      | Some p \<Rightarrow> ret (confirmed, p))))"

definition dep_confirmed ::
    "env \<Rightarrow> uuid \<Rightarrow> deposit_dto \<Rightarrow> deposit_context \<Rightarrow> position_record \<Rightarrow> bool \<Rightarrow>
     transaction_record \<Rightarrow> receipt \<Rightarrow> deposit_response io" where
  "dep_confirmed x userId dto c position isNewPosition submitted receipt =
     andThen (atomically (dep_confirmBody dto c position isNewPosition submitted receipt)) (\<lambda>(confirmed, updatedPosition).
     andThen (auditLog x \<lparr>al_userId = Some userId, al_action = DEPOSIT_CONFIRMED, al_entityType = ''transaction'',
                al_entityId = tr_transactionId confirmed,
                al_metadata = Some [(''vaultId'', JStr (pv_vaultId (dc_vault c))),
                  (''txHash'', case tr_txHash confirmed of Some h \<Rightarrow> JStr h | None \<Rightarrow> JNull),
                  (''positionId'', JStr (showNat (pr_positionId updatedPosition)))]\<rparr>) (\<lambda>_.
       ret (dep_toResponse x dto c updatedPosition confirmed (pr_shares updatedPosition))))"

definition dep_settle ::
    "env \<Rightarrow> uuid \<Rightarrow> deposit_dto \<Rightarrow> deposit_context \<Rightarrow> vault \<Rightarrow> position_record \<Rightarrow> bool \<Rightarrow>
     transaction_record \<Rightarrow> receipt \<Rightarrow> deposit_response io" where
  "dep_settle x userId dto c dbVault position isNewPosition submitted receipt =
     (if rc_status receipt \<noteq> Success
      then dep_reverted x userId dto c dbVault position isNewPosition submitted receipt
      else dep_confirmed x userId dto c position isNewPosition submitted receipt)"

definition dep_fail :: "position_record \<Rightarrow> bool \<Rightarrow> transaction_record \<Rightarrow> exn \<Rightarrow> 'a io" where
  "dep_fail position isNewPosition transaction e =
     andThen (tx_markFailed (tr_transactionId transaction) (Some [(''error'', JStr (errorMessage e))])) (\<lambda>_.
     andThen (whenE isNewPosition (andThen (pos_markFailed (pr_positionId position)) (\<lambda>_. ret ()))) (\<lambda>_.
       throw e))"

definition dep_attempt ::
    "env \<Rightarrow> uuid \<Rightarrow> deposit_dto \<Rightarrow> deposit_context \<Rightarrow> vault \<Rightarrow> position_record \<Rightarrow> transaction_record \<Rightarrow> bool \<Rightarrow>
     deposit_response io" where
  "dep_attempt x userId dto c dbVault position transaction isNewPosition =
     catching
       (andThen (dep_submit x c transaction) (\<lambda>(submitted, receipt).
          dep_settle x userId dto c dbVault position isNewPosition submitted receipt))
       (dep_fail position isNewPosition transaction)"

definition depositVault :: "env \<Rightarrow> uuid \<Rightarrow> string \<Rightarrow> deposit_dto \<Rightarrow> deposit_response io" where
  "depositVault x userId vaultId dto =
     andThen (assertDepositAllowed x userId) (\<lambda>_.
     andThen (dep_checks x userId vaultId dto) (\<lambda>c.
     andThen (dep_open userId dto c) (\<lambda>(dbVault, position, transaction, isNewPosition).
     andThen (dep_requested x userId dto c position transaction) (\<lambda>_.
       dep_attempt x userId dto c dbVault position transaction isNewPosition))))"

section \<open>The checks\<close>

text \<open>
  What a deposit that passed its checks is of: an enabled vault of the configuration, a wallet of the
  user on its chain, and an amount covered by a balance and an allowance that were read.
\<close>

lemma dep_checks_passed:
  assumes "dep_checks x userId vaultId dto s = (Inr c, s')"
  shows "bigIntOf (dd_amount dto) = Some (dc_amount c)" "dc_estimatedShares c = dc_amount c"
    "\<exists>k b. (if pv_assetAddress (dc_vault c) = ''native''
       then e_getBalance x k (pv_chainId (dc_vault c)) (w_address (dc_wallet c))
       else e_balanceOf x k (pv_chainId (dc_vault c)) (pv_assetAddress (dc_vault c)) (w_address (dc_wallet c))) = Inr b
       \<and> dc_amount c \<le> b"
    "pv_assetAddress (dc_vault c) \<noteq> ''native'' \<longrightarrow>
       (\<exists>k b. e_allowance x k (pv_chainId (dc_vault c)) (pv_assetAddress (dc_vault c)) (w_address (dc_wallet c))
          (pv_contractAddress (dc_vault c)) = Inr b \<and> dc_amount c \<le> b)"
    "chainUsable x (pv_chainId (dc_vault c))"
    "\<exists>s0 s1. aave_getVault x vaultId None s0 = (Inr (dc_vault c), s1)"
    "pv_vaultId (dc_vault c) = vaultId" "pv_depositEnabled (dc_vault c)"
    "dc_wallet c \<in> set (wallets s)" "w_id (dc_wallet c) = dd_walletId dto" "w_userId (dc_wallet c) = userId"
    "w_chainId (dc_wallet c) = pv_chainId (dc_vault c)"
proof -
  from assms obtain n v s1 s2 s3 s4 w s5 wb s6 al s7 where
    n: "bigIntOf (dd_amount dto) = Some n" and v: "aave_getVault x vaultId None s = (Inr v, s1)"
    and en: "val_assertDepositEnabled v s1 = (Inr (), s2)"
    and c1: "val_assertChainMatchesEnvironment x (pv_chainId v) s2 = (Inr (), s3)"
    and c2: "val_assertRpcBelongsToChain x (pv_chainId v) s3 = (Inr (), s4)"
    and w: "val_assertWalletBelongsToUser userId (dd_walletId dto) s4 = (Inr w, s5)"
    and wc: "w_chainId w = pv_chainId v"
    and b: "bc_readAssetBalance x (pv_chainId v) (w_address w) (pv_assetAddress v) s5 = (Inr wb, s6)"
    and a: "(if pv_assetAddress v = ''native'' then ret n
              else bc_readErc20Allowance x (pv_chainId v) (w_address w) (pv_assetAddress v)
                     (pv_contractAddress v)) s6 = (Inr al, s7)"
    and le: "\<not> wb < n" "\<not> al < n"
    and c: "c = \<lparr>dc_amount = n, dc_vault = v, dc_wallet = w, dc_walletBalance = wb,
          dc_allowance = al, dc_estimatedShares = n\<rparr>"
    unfolding dep_checks_def val_assertVaultBelongsToChain_def val_assertWalletChainMatchesVault_def
    by (elim andThen_InrE) (simp del: if_split_asm)
  have same: "wallets s2 = wallets s" using en aave.same_tables(4) [of x vaultId None s] v
    by (auto simp: val_assertDepositEnabled_def val_assertVaultActive_def elim!: andThen_InrE)
  note cc = chainUsable_checks [OF c1 c2]
  note ww = findOwnedWallet_Inr [OF w]
  note vv = aave.asked_for [OF v]
  show "bigIntOf (dd_amount dto) = Some (dc_amount c)" "dc_estimatedShares c = dc_amount c"
    using n c by simp_all
  from b obtain k where "(if pv_assetAddress v = ''native'' then e_getBalance x k (pv_chainId v) (w_address w)
      else e_balanceOf x k (pv_chainId v) (pv_assetAddress v) (w_address w)) = Inr wb"
    unfolding bc_readAssetBalance_def by (auto dest!: viaClient_Inr)
  then show "\<exists>k b. (if pv_assetAddress (dc_vault c) = ''native''
       then e_getBalance x k (pv_chainId (dc_vault c)) (w_address (dc_wallet c))
       else e_balanceOf x k (pv_chainId (dc_vault c)) (pv_assetAddress (dc_vault c)) (w_address (dc_wallet c))) = Inr b
       \<and> dc_amount c \<le> b" using le c by (intro exI [of _ k] exI [of _ wb]) (simp split: if_splits)
  show "pv_assetAddress (dc_vault c) \<noteq> ''native'' \<longrightarrow>
       (\<exists>k b. e_allowance x k (pv_chainId (dc_vault c)) (pv_assetAddress (dc_vault c)) (w_address (dc_wallet c))
          (pv_contractAddress (dc_vault c)) = Inr b \<and> dc_amount c \<le> b)"
    using a le c by (fastforce simp: bc_readErc20Allowance_def dest!: viaClient_Inr)
  show "chainUsable x (pv_chainId (dc_vault c))" using cc c by simp
  show "\<exists>s0 s1. aave_getVault x vaultId None s0 = (Inr (dc_vault c), s1)" using v c by auto
  show "pv_vaultId (dc_vault c) = vaultId" using vv c by simp
  show "pv_depositEnabled (dc_vault c)" using en c
    by (auto simp: val_assertDepositEnabled_def elim!: andThen_InrE)
  show "dc_wallet c \<in> set (wallets s)" "w_id (dc_wallet c) = dd_walletId dto" "w_userId (dc_wallet c) = userId"
    using ww cc same c by simp_all
  show "w_chainId (dc_wallet c) = pv_chainId (dc_vault c)" using wc c by simp
qed

lemma preserves_dep_checks: "ignoresOutside I \<Longrightarrow> preserves I (dep_checks x u v dto)"
  unfolding dep_checks_def by (intro pres aave.reads_only) auto

section \<open>Opening the deposit\<close>

lemma dep_metadata_good: "dc_estimatedShares c = n \<Longrightarrow> metadataGood DEPOSIT n (Some (dep_metadata c))"
  by (simp add: metadataGood_def dep_metadata_def metadataString_def)

text \<open>A run of the body: the position is the user's old one or a new one, and the transaction is created for it.\<close>

lemma dep_openBody_run:
  assumes run: "dep_openBody userId v dto c s = (Inr (p, t, isNew), s')"
  shows "\<exists>s1. (isNew \<and> pos_createPending userId v s = (Inr p, s1)
       \<or> \<not> isNew \<and> s1 = s \<and> (\<exists>q \<in> set (positions s). p = toPositionRecord q \<and> p_userId q = userId))
     \<and> tx_createTransaction (dep_transactionInput userId v dto c (pr_positionId p)) s1 = (Inr t, s')"
proof -
  from run obtain found s0 b s2 y s1 where
    f: "pos_findByUserAndVault userId v s = (Inr found, s0)" and o: "tx_hasOpenDeposit userId v s0 = (Inr b, s2)"
    and get2: "(case found of Some p \<Rightarrow> ret (p, False)
              | None \<Rightarrow> andThen (pos_createPending userId v) (\<lambda>p. ret (p, True))) s2 = (Inr y, s1)"
    and rest: "(case y of (q, new) \<Rightarrow> andThen (tx_createTransaction (dep_transactionInput userId v dto c (pr_positionId q)))
       (\<lambda>transactionRecord. ret (q, transactionRecord, new))) s1 = (Inr (p, t, isNew), s')"
    unfolding dep_openBody_def by (elim andThen_InrE) (auto simp only: require_Inr)
  from f have found: "found = map_option toPositionRecord (find (\<lambda>p. p_userId p = userId \<and> p_vaultId p = v) (positions s))"
    and "s0 = s" by (auto simp: pos_findByUserAndVault_run)
  with o have "s2 = s" by (simp add: tx_hasOpenDeposit_def txRepo_findOpenDeposit_def)
  with get2 have get: "(case found of Some p \<Rightarrow> ret (p, False)
              | None \<Rightarrow> andThen (pos_createPending userId v) (\<lambda>p. ret (p, True))) s = (Inr y, s1)" by simp
  obtain q new where y: "y = (q, new)" by (cases y)
  from rest have create: "tx_createTransaction (dep_transactionInput userId v dto c (pr_positionId p)) s1 = (Inr t, s')"
    and yy: "y = (p, isNew)"
    unfolding y prod.case by (elim andThen_InrE; simp)+
  show ?thesis
  proof (cases found)
    case None
    with get yy have "andThen (pos_createPending userId v) (\<lambda>p. ret (p, True)) s = (Inr (p, isNew), s1)" by simp
    then have "isNew \<and> pos_createPending userId v s = (Inr p, s1)" by (elim andThen_InrE) simp
    with create show ?thesis by blast
  next
    case (Some r)
    with get yy have "p = r" "\<not> isNew" "s1 = s" by simp_all
    with Some found create show ?thesis by (auto dest: find_Some_iff_first)
  qed
qed

lemma dep_openBody_opened:
  assumes n: "bigIntOf (dd_amount dto) = Some n" "0 \<le> n" and c: "dc_estimatedShares c = n"
    and b: "base sk S s" and run: "dep_openBody userId v dto c s = (Inr (p, t, isNew), s')"
  shows "opened sk S DEPOSIT n p t isNew False s'"
proof -
  let ?in = "dep_transactionInput userId v dto c (pr_positionId p)"
  from dep_openBody_run [OF run] obtain s1 where
    cases: "isNew \<and> pos_createPending userId v s = (Inr p, s1)
       \<or> \<not> isNew \<and> s1 = s \<and> (\<exists>q \<in> set (positions s). p = toPositionRecord q \<and> p_userId q = userId)"
    and create: "tx_createTransaction ?in s1 = (Inr t, s')" by blast
  have "base sk S s1 \<and> (\<exists>q. find (\<lambda>q. p_id q = pr_positionId p) (positions s1) = Some q \<and> (isNew \<longrightarrow> p_shares q = 0))"
    using cases
  proof
    assume "isNew \<and> pos_createPending userId v s = (Inr p, s1)"
    with triple_Inr [OF book_createPending b] show ?thesis by blast
  next
    assume "\<not> isNew \<and> s1 = s \<and> (\<exists>q \<in> set (positions s). p = toPositionRecord q \<and> p_userId q = userId)"
    then show ?thesis using b find_by_id [OF b] by (auto simp: toPositionRecord_def)
  qed
  then have "working sk S (tr_transactionId t) (ct_type ?in) n (ct_positionId ?in) (\<lambda>sh. isNew \<longrightarrow> sh = 0) False s'"
    by (intro triple_Inr [OF book_create _ create])
       (use n c in \<open>auto simp: dep_transactionInput_def dep_metadata_good\<close>)
  then show ?thesis by (simp add: dep_transactionInput_def)
qed

lemma dep_open_triple:
  assumes "bigIntOf (dd_amount dto) = Some n" "0 \<le> n" and "dc_estimatedShares c = n"
  shows "triple (base sk S) (dep_open userId dto c)
           (\<lambda>(v, p, t, isNew). opened sk S DEPOSIT n p t isNew False) (\<lambda>_. base sk S)"
  unfolding dep_open_def
proof (intro triple_andThen)
  show "triple (base sk S) (vaultRepo_findOrCreate (dc_vault c)) (\<lambda>_. base sk S) (\<lambda>_. base sk S)"
    by (rule triple_preserves, rule preservesI, rule base_frame, assumption) (rule findOrCreate_fields)+
  show "triple (base sk S) (dep_assertNoDuplicateDeposit userId (v_id dbVault) (pv_vaultId (dc_vault c))) (\<lambda>_. base sk S) (\<lambda>_. base sk S)"
    for dbVault unfolding dep_assertNoDuplicateDeposit_def by (intro triple_preserves pres)
  show "triple (base sk S) (atomically (dep_openBody userId (v_id dbVault) dto c))
          (\<lambda>(p, t, isNew). opened sk S DEPOSIT n p t isNew False) (\<lambda>_. base sk S)" for dbVault
  proof (rule triple_atomically [OF tripleI])
    fix s r s' assume "base sk S s" and run: "dep_openBody userId (v_id dbVault) dto c s = (Inr r, s')"
    then show "(\<lambda>(p, t, isNew). opened sk S DEPOSIT n p t isNew False) r s'"
      using dep_openBody_opened [OF assms] by (cases r) simp
  qed simp_all
  show "triple ((\<lambda>(p, t, isNew). opened sk S DEPOSIT n p t isNew False) r)
          ((\<lambda>(position, transaction, isNewPosition). ret (dbVault, position, transaction, isNewPosition)) r)
          (\<lambda>(v, p, t, isNew). opened sk S DEPOSIT n p t isNew False) (\<lambda>_. base sk S)" for dbVault r
    by (cases r) (simp add: triple_def)
qed

section \<open>Settling the deposit\<close>

lemma dep_submit_triple:
  assumes "dc_estimatedShares c = n"
  shows "triple (opened sk S DEPOSIT n p t isNew False) (dep_submit x c t)
     (\<lambda>(submitted, receipt) s. opened sk S DEPOSIT n p t isNew True s \<and> tr_transactionId submitted = tr_transactionId t)
     (\<lambda>_. opened sk S DEPOSIT n p t isNew False)"
  unfolding dep_submit_def
proof (intro triple_andThen)
  let ?w = "opened sk S DEPOSIT n p t isNew"
  show "triple (?w False) (lift (bc_encodeVaultDeposit x (dc_vault c) (dc_amount c) (w_address (dc_wallet c))))
      (\<lambda>_. ?w False) (\<lambda>_. ?w False)" by (intro triple_preserves pres)
  show "triple (?w False) (privy_sendTransaction x i) (\<lambda>_. ?w False) (\<lambda>_. ?w False)" for i
    by (intro triple_preserves privy.writes_outside) simp
  have "metadataGood DEPOSIT n (Some (dep_submittedMetadata c b))" for b
    using assms by (cases "b_transactionId b")
      (simp_all add: metadataGood_def dep_submittedMetadata_def metadataString_def optField_def)
  then show "triple (?w False) (tx_markSubmitted (tr_transactionId t) (b_hash b) (Some (dep_submittedMetadata c b)))
      (\<lambda>r s. ?w True s \<and> tr_transactionId r = tr_transactionId t) (\<lambda>_. ?w False)" for b
    by (rule book_markSubmitted)
  let ?sub = "\<lambda>r s. ?w True s \<and> tr_transactionId r = tr_transactionId t"
  have out: "ignoresOutside (?sub r)" for r by (cases "tr_transactionId r = tr_transactionId t") (simp_all add: ignoresOutside_def [of "\<lambda>_. False"])
  show "triple (?sub r) (bc_waitForTransactionReceipt x (pv_chainId (dc_vault c)) h) (\<lambda>_. ?sub r) (\<lambda>_. ?w False)" for r h
    by (rule triple_frame [OF preserves_bc(4) [OF out]]) (auto intro: working_weaken)
  show "triple (?sub r) (ret (r, receipt))
      (\<lambda>(submitted, receipt) s. ?w True s \<and> tr_transactionId submitted = tr_transactionId t) (\<lambda>_. ?w False)" for r receipt
    by (simp add: triple_def)
qed

lemma dep_reverted_triple:
  assumes "tr_transactionId submitted = tr_transactionId t"
  shows "triple (opened sk S DEPOSIT n p t isNew True) (dep_reverted x userId dto c v p isNew submitted receipt)
     (\<lambda>_. base sk S) (\<lambda>_. opened sk S DEPOSIT n p t isNew False)"
  unfolding dep_reverted_def assms
proof (intro triple_andThen)
  show "triple (base sk S) (pos_findByUserAndVault userId (v_id v)) (\<lambda>_. base sk S) (\<lambda>_. opened sk S DEPOSIT n p t isNew False)"
    by (rule triple_reads) (simp_all add: pos_findByUserAndVault_run)
  show "triple (base sk S) (ret r) (\<lambda>_. base sk S) (\<lambda>_. opened sk S DEPOSIT n p t isNew False)" for r
    by (simp add: triple_def)
qed (rule triple_pos_markFailed book_marks_base(2))+

lemma dep_confirmBody_base:
  assumes n: "bigIntOf (dd_amount dto) = Some n" "0 \<le> n" and c: "dc_estimatedShares c = n"
    and w: "opened sk S DEPOSIT n p t isNew True s" and id: "tr_transactionId submitted = tr_transactionId t"
    and run: "dep_confirmBody dto c p isNew submitted receipt s = (Inr r, s')"
  shows "base sk S s'"
proof -
  let ?K = "\<lambda>sh. isNew \<longrightarrow> sh = 0"
  have same: "sameAmounts (dep_amounts dto c) n" using n c by (simp add: sameAmounts_def dep_amounts_def)
  note act = catch_up_activate [OF same n(2), of sk S "pr_positionId p"]
  note add = catch_up_addDeposit [OF same n(2), of sk S "pr_positionId p" ?K]
  obtain applied confirmed s1 where conf: "tx_confirmSubmitted (tr_transactionId t) (rc_blockNumber receipt)
       (Some [(''gasUsed'', JStr (showInt (rc_gasUsed receipt))), (''estimatedShares'', JStr (showInt (dc_estimatedShares c)))]) s
       = (Inr (applied, confirmed), s1)"
    using run id unfolding dep_confirmBody_def by (auto elim!: andThen_InrE)
  from triple_Inr [OF book_confirmSubmitted [where pid = "pr_positionId p"] w conf]
  have ok: "applied" and lag: "lagging sk S (pr_positionId p) n s1 \<and>
      (\<exists>q. find (\<lambda>q. p_id q = pr_positionId p) (positions s1) = Some q \<and> ?K (p_shares q))" by auto
  let ?m = "if isNew then pos_activate (pr_positionId p) (dep_amounts dto c) else pos_addDeposit (pr_positionId p) (dep_amounts dto c)"
  from run conf ok id have "andThen (andThen ?m (\<lambda>p. ret (Some p))) (\<lambda>updatedPosition. case updatedPosition of
      None \<Rightarrow> throw (dep_positionMissing (pr_positionId p))
    | Some p \<Rightarrow> ret (confirmed, p)) s1 = (Inr r, s')"
    unfolding dep_confirmBody_def by (cases isNew) (simp_all add: andThen_Inr)
  then obtain q where "?m s1 = (Inr q, s')" by (elim andThen_InrE) (simp split: option.splits)
  then show ?thesis using triple_Inr [OF act] triple_Inr [OF add] lag by (cases isNew) auto
qed

lemma dep_settle_triple:
  assumes n: "bigIntOf (dd_amount dto) = Some n" "0 \<le> n" and c: "dc_estimatedShares c = n"
    and id: "tr_transactionId submitted = tr_transactionId t"
  shows "triple (opened sk S DEPOSIT n p t isNew True) (dep_settle x userId dto c v p isNew submitted receipt)
     (\<lambda>_. base sk S) (\<lambda>_. opened sk S DEPOSIT n p t isNew False)"
proof -
  have "triple (opened sk S DEPOSIT n p t isNew True) (dep_confirmed x userId dto c p isNew submitted receipt)
     (\<lambda>_. base sk S) (\<lambda>_. opened sk S DEPOSIT n p t isNew False)"
    unfolding dep_confirmed_def
  proof (rule triple_andThen [where R = "\<lambda>_. base sk S"])
    show "triple (opened sk S DEPOSIT n p t isNew True) (atomically (dep_confirmBody dto c p isNew submitted receipt))
        (\<lambda>_. base sk S) (\<lambda>_. opened sk S DEPOSIT n p t isNew False)"
      by (rule triple_atomically, rule tripleI)
         (use dep_confirmBody_base [OF n c _ id] in \<open>auto intro: working_weaken\<close>)
    show "triple (base sk S) ((\<lambda>(confirmed, updatedPosition).
       andThen (auditLog x (a confirmed updatedPosition)) (\<lambda>_. ret (f confirmed updatedPosition))) r)
       (\<lambda>_. base sk S) (\<lambda>_. opened sk S DEPOSIT n p t isNew False)" for r a f
      by (cases r, simp, rule triple_andThen [OF triple_auditLog [OF ignoresOutside_base(1)]]) (simp add: triple_def)
  qed
  with dep_reverted_triple [OF id] show ?thesis by (simp add: dep_settle_def)
qed

lemma dep_fail_triple:
  "triple (opened sk S DEPOSIT n p t isNew False) (dep_fail p isNew t e) (\<lambda>_. base sk S) (\<lambda>_. base sk S)"
  unfolding dep_fail_def
  by (rule triple_andThen [OF book_marks(1)], rule triple_frame [where I = "base sk S"]) (auto intro!: pres)

lemma dep_attempt_triple:
  assumes "bigIntOf (dd_amount dto) = Some n" "0 \<le> n" and "dc_estimatedShares c = n"
  shows "triple (opened sk S DEPOSIT n p t isNew False) (dep_attempt x userId dto c v p t isNew) (\<lambda>_. base sk S) (\<lambda>_. base sk S)"
  unfolding dep_attempt_def
proof (rule triple_catching [OF _ dep_fail_triple], rule triple_andThen [OF dep_submit_triple [OF assms(3)]])
  fix r
  show "triple ((\<lambda>(submitted, receipt) s. opened sk S DEPOSIT n p t isNew True s \<and> tr_transactionId submitted = tr_transactionId t) r)
     ((\<lambda>(submitted, receipt). dep_settle x userId dto c v p isNew submitted receipt) r)
     (\<lambda>_. base sk S) (\<lambda>_. opened sk S DEPOSIT n p t isNew False)"
    using dep_settle_triple [OF assms, of "fst r" t sk S p isNew x userId v "snd r"]
    by (cases r) (auto simp: triple_def)
qed

text \<open>
  The way to the open transaction, whatever follows: with it the deposit is recorded, and before it
  the books are as they were.
\<close>

lemma deposit_prefix:
  assumes n: "bigIntOf (dd_amount dto) = Some n" "0 \<le> n"
    and rest: "\<And>c v p t isNew. dc_estimatedShares c = n \<Longrightarrow>
      triple (opened sk S DEPOSIT n p t isNew False) (rest c v p t isNew) (\<lambda>_. base sk S) (\<lambda>_. base sk S)"
  shows "triple (base sk S) (andThen (assertDepositAllowed x userId) (\<lambda>_.
     andThen (dep_checks x userId vaultId dto) (\<lambda>c.
     andThen (dep_open userId dto c) (\<lambda>(v, p, t, isNew). rest c v p t isNew)))) (\<lambda>_. base sk S) (\<lambda>_. base sk S)"
proof (rule triple_andThen [where R = "\<lambda>_. base sk S"])
  show "triple (base sk S) (assertDepositAllowed x userId) (\<lambda>_. base sk S) (\<lambda>_. base sk S)"
    by (intro triple_preserves pres) simp
  let ?P = "\<lambda>c s. base sk S s \<and> dc_estimatedShares c = n"
  show "triple (base sk S) (andThen (dep_checks x userId vaultId dto) (\<lambda>c.
     andThen (dep_open userId dto c) (\<lambda>(v, p, t, isNew). rest c v p t isNew))) (\<lambda>_. base sk S) (\<lambda>_. base sk S)"
  proof (rule triple_andThen [where R = ?P])
    note keep = preserves_run [OF preserves_dep_checks [OF ignoresOutside_base(1)]]
    show "triple (base sk S) (dep_checks x userId vaultId dto) ?P (\<lambda>_. base sk S)"
      by (rule tripleI) (use keep dep_checks_passed(1,2) n in fastforce)+
    fix c
    show "triple (?P c) (andThen (dep_open userId dto c) (\<lambda>(v, p, t, isNew). rest c v p t isNew)) (\<lambda>_. base sk S) (\<lambda>_. base sk S)"
    proof (cases "dc_estimatedShares c = n")
      case True
      show ?thesis
        by (rule triple_andThen [OF triple_pre [OF dep_open_triple [OF n True]]]) (use rest [OF True] in auto)
    qed (simp add: triple_def)
  qed
qed

text \<open>Whichever way a deposit ends, it keeps the invariants and the ledger and leaves nothing open.\<close>

lemma depositVault_keeps:
  assumes n: "bigIntOf (dd_amount dto) = Some n" "0 \<le> n"
  shows "triple (base sk S) (depositVault x userId vaultId dto) (\<lambda>_. base sk S) (\<lambda>_. base sk S)"
  unfolding depositVault_def dep_requested_def
  by (intro deposit_prefix [OF n] triple_andThen [OF triple_auditLog [OF ignoresOutside_base(2)]] dep_attempt_triple [OF n])

section \<open>What a deposit sends\<close>

lemma quiet_deposit [quiet]:
  "silent (dep_open u dto c)" "silent (dep_requested x u dto c p t)"
  "silent (dep_settle x u dto c v p isNew sub rc)" "silent (dep_fail p isNew t e)"
  "silent (dep_checks x u vid dto)"
  unfolding dep_open_def dep_assertNoDuplicateDeposit_def dep_openBody_def dep_requested_def dep_settle_def
    dep_reverted_def dep_confirmed_def dep_confirmBody_def dep_fail_def dep_checks_def
  by (intro quiet)+

lemma dep_submit_sends:
  "sendsOnly (\<lambda>q. \<exists>d. bc_encodeVaultDeposit x (dc_vault c) (dc_amount c) (w_address (dc_wallet c)) = Inr d
     \<and> asksFor (dep_sendInput c d) q) (dep_submit x c t)" (is "sendsOnly ?Q _")
proof (cases "bc_encodeVaultDeposit x (dc_vault c) (dc_amount c) (w_address (dc_wallet c))")
  case (Inl e)
  then show ?thesis by (simp add: dep_submit_def silent_sendsOnly quiet)
next
  case (Inr d)
  then have "sendsOnly ?Q (privy_sendTransaction x (dep_sendInput c d))"
    by (intro sendsOnly_send) auto
  then show ?thesis unfolding dep_submit_def Inr andThen_lift_Inr
    by (rule sendsOnly_andThen) (intro silent_sendsOnly quiet)
qed

lemma dep_rest_sends:
  "sendsOnly (\<lambda>q. \<exists>d. bc_encodeVaultDeposit x (dc_vault c) (dc_amount c) (w_address (dc_wallet c)) = Inr d
     \<and> asksFor (dep_sendInput c d) q) (andThen (dep_open u dto c) (\<lambda>(v, p, t, isNew).
     andThen (dep_requested x u dto c p t) (\<lambda>_. dep_attempt x u dto c v p t isNew)))"
  unfolding dep_attempt_def
  by (auto intro!: sendsOnly_andThen sendsOnly_catching dep_submit_sends intro: silent_sendsOnly quiet split: prod.split)

lemma depositVault_sends:
  assumes new: "q \<in> set (sent (snd (depositVault x userId vaultId dto s)))" "q \<notin> set (sent s)"
  shows "\<exists>c s0 s1 d. dep_checks x userId vaultId dto s0 = (Inr c, s1) \<and> wallets s0 = wallets s
     \<and> bc_encodeVaultDeposit x (dc_vault c) (dc_amount c) (w_address (dc_wallet c)) = Inr d \<and> asksFor (dep_sendInput c d) q"
proof -
  obtain r s0 where lim: "assertDepositAllowed x userId s = (r, s0)" by force
  have keep: "sent s0 = sent s" using silentD [OF quiet_rateLimit(1) lim] .
  have "ignoresRedis (\<lambda>t. wallets t = wallets s)" by (simp add: ignoresRedis_def ignoresOutside_def)
  from preserves_run [OF preserves_rateLimit(1) [OF this] lim] have ws: "wallets s0 = wallets s" by simp
  show ?thesis
  proof (cases r)
    case (Inl e)
    with new lim keep show ?thesis by (simp add: depositVault_def andThen_def)
  next
    case (Inr u)
    obtain r1 s1 where ch: "dep_checks x userId vaultId dto s0 = (r1, s1)" by force
    have keep1: "sent s1 = sent s" using silentD [OF quiet_deposit(5) ch] keep by simp
    show ?thesis
    proof (cases r1)
      case (Inl e)
      with new lim Inr ch keep1 show ?thesis by (simp add: depositVault_def andThen_def)
    next
      case (Inr c)
      with lim \<open>r = Inr u\<close> ch have go: "depositVault x userId vaultId dto s =
        andThen (dep_open userId dto c) (\<lambda>(v, p, t, isNew).
          andThen (dep_requested x userId dto c p t) (\<lambda>_. dep_attempt x userId dto c v p t isNew)) s1"
        by (simp add: depositVault_def andThen_Inr)
      have "\<exists>d. bc_encodeVaultDeposit x (dc_vault c) (dc_amount c) (w_address (dc_wallet c)) = Inr d
          \<and> asksFor (dep_sendInput c d) q"
        by (rule sendsOnlyD [OF dep_rest_sends [of x c userId dto], of q s1]) (use new go keep1 in auto)
      with ch Inr ws show ?thesis by blast
    qed
  qed
qed

text \<open>The same over the configuration, the tables and the chain alone.\<close>

lemma deposit_asks:
  assumes "q \<in> set (sent (snd (depositVault x userId vaultId dto s)))" "q \<notin> set (sent s)"
  shows "\<exists>cfg d w n data. c_aave (e_config x) = Some cfg
     \<and> find (\<lambda>d. av_vaultId d = vaultId \<and> av_isEnabled d) (aaveVaults cfg) = Some d
     \<and> av_depositEnabled d \<noteq> Some False \<and> chainUsable x (av_chainId d)
     \<and> w \<in> set (wallets s) \<and> w_id w = dd_walletId dto \<and> w_userId w = userId \<and> w_chainId w = av_chainId d
     \<and> bigIntOf (dd_amount dto) = Some n
     \<and> (\<exists>k b. (if av_assetAddress d = ''native'' then e_getBalance x k (av_chainId d) (w_address w)
               else e_balanceOf x k (av_chainId d) (av_assetAddress d) (w_address w)) = Inr b \<and> n \<le> b)
     \<and> (av_assetAddress d \<noteq> ''native'' \<longrightarrow>
          (\<exists>k b. e_allowance x k (av_chainId d) (av_assetAddress d) (w_address w) (poolAddress d) = Inr b \<and> n \<le> b))
     \<and> e_encode x (Supply (av_assetAddress d) n (w_address w) 0) = Inr data
     \<and> asksFor \<lparr>s_providerWalletId = w_providerId w, s_chainId = av_chainId d, s_to = poolAddress d,
          s_value = Some ''0'', s_data = Some data\<rparr> q"
proof -
  from depositVault_sends [OF assms] obtain c s0 s1 data where run: "dep_checks x userId vaultId dto s0 = (Inr c, s1)"
    and ws: "wallets s0 = wallets s" and enc: "bc_encodeVaultDeposit x (dc_vault c) (dc_amount c) (w_address (dc_wallet c)) = Inr data"
    and q: "asksFor (dep_sendInput c data) q" by blast
  note f = dep_checks_passed [OF run]
  from f(6) obtain t0 t1 where "aave_getVault x vaultId None t0 = (Inr (dc_vault c), t1)" by blast
  then obtain cfg d where cfg: "c_aave (e_config x) = Some cfg"
    and d: "find (\<lambda>d. av_vaultId d = vaultId \<and> av_isEnabled d) (aaveVaults cfg) = Some d"
    and v: "pv_chainId (dc_vault c) = av_chainId d" "pv_contractAddress (dc_vault c) = poolAddress d"
      "pv_assetAddress (dc_vault c) = av_assetAddress d" "pv_depositEnabled (dc_vault c) \<longleftrightarrow> av_depositEnabled d \<noteq> Some False"
    by (rule getVault_definition) simp
  show ?thesis
    by (rule exI [of _ cfg], rule exI [of _ d], rule exI [of _ "dc_wallet c"], rule exI [of _ "dc_amount c"], rule exI [of _ data])
       (use cfg d f [unfolded v] v enc q ws in \<open>simp add: bc_encodeVaultDeposit_def dep_sendInput_def\<close>)
qed

section \<open>One deposit at a time\<close>

text \<open>What makes the user's deposit into the vault with row id \<open>v\<close> one too many.\<close>

definition depositUnderWay :: "uuid \<Rightarrow> uuid \<Rightarrow> world \<Rightarrow> bool" where
  "depositUnderWay userId v s \<longleftrightarrow>
     (\<exists>p. find (\<lambda>p. p_userId p = userId \<and> p_vaultId p = v) (positions s) = Some p \<and> p_status p = P_PENDING)
     \<or> (\<exists>t \<in> set (transactions s). t_userId t = userId \<and> t_vaultId t = Some v \<and> t_type t = DEPOSIT \<and> isOpen (t_status t))"

lemma assertNoDuplicate_throws:
  "depositUnderWay userId v s \<Longrightarrow> dep_assertNoDuplicateDeposit userId v pid s = (Inl (depositInProgress pid), s)"
  by (auto simp: dep_assertNoDuplicateDeposit_def pos_findByUserAndVault_run tx_hasOpenDeposit_def
      txRepo_findOpenDeposit_def findFirstDesc_None andThen_def require_def depositUnderWay_def
      toPositionRecord_def split: option.splits)

lemma dep_open_refused:
  assumes v: "find (\<lambda>v. v_slug v = pv_vaultId (dc_vault c)) (vaults s) = Some v" and busy: "depositUnderWay userId (v_id v) s"
  shows "\<exists>s'. dep_open userId dto c s = (Inl (depositInProgress (pv_vaultId (dc_vault c))), s')
     \<and> transactions s' = transactions s \<and> positions s' = positions s \<and> sent s' = sent s"
proof -
  obtain v' s' where f: "vaultRepo_findOrCreate (dc_vault c) s = (Inr v', s')" and id: "v_id v' = v_id v"
    using findOrCreate_existing [OF v] by blast
  have same: "transactions s' = transactions s" "positions s' = positions s" "sent s' = sent s"
    using findOrCreate_fields(1,2,4) [of "dc_vault c" s] f by simp_all
  then have "depositUnderWay userId (v_id v') s'" using busy id by (simp add: depositUnderWay_def)
  from assertNoDuplicate_throws [OF this] f same show ?thesis by (simp add: dep_open_def andThen_def)
qed

lemma deposit_single_flight:
  assumes v: "find (\<lambda>v. v_slug v = vaultId) (vaults s) = Some v" and busy: "depositUnderWay userId (v_id v) s"
  shows "\<exists>e s'. depositVault x userId vaultId dto s = (Inl e, s')
     \<and> transactions s' = transactions s \<and> positions s' = positions s \<and> sent s' = sent s"
proof -
  let ?I = "\<lambda>t. transactions t = transactions s \<and> positions t = positions s \<and> vaults t = vaults s \<and> sent t = sent s"
  let ?J = "\<lambda>t. transactions t = transactions s \<and> positions t = positions s \<and> vaults t = vaults s"
  have J: "ignoresRedis ?J" "ignoresOutside ?J" by (simp_all add: ignoresRedis_def ignoresOutside_def)
  obtain r s0 where lim: "assertDepositAllowed x userId s = (r, s0)" by force
  have s0: "?I s0" using silentD [OF quiet_rateLimit(1) lim] preserves_run [OF preserves_rateLimit(1) [OF J(1)] lim] by simp
  obtain r1 s1 where ch: "dep_checks x userId vaultId dto s0 = (r1, s1)" by force
  have s1: "?I s1" using silentD [OF quiet_deposit(5) ch] preserves_run [OF preserves_dep_checks [OF J(2)] ch] s0 by simp
  show ?thesis
  proof (cases r; cases r1)
    fix u c assume ok: "r = Inr u" "r1 = Inr c"
    then have "pv_vaultId (dc_vault c) = vaultId" using dep_checks_passed(7) ch by blast
    with dep_open_refused [of c s1 v userId dto] s1 v busy obtain s2 where
      "dep_open userId dto c s1 = (Inl (depositInProgress vaultId), s2)"
      "transactions s2 = transactions s \<and> positions s2 = positions s \<and> sent s2 = sent s"
      by (auto simp: depositUnderWay_def)
    with lim ch ok show ?thesis by (simp add: depositVault_def andThen_def)
  qed (use lim ch s0 s1 in \<open>auto simp: depositVault_def andThen_def\<close>)
qed

end
