(* ===== verification/Withdraw.thy ===== *)
theory Withdraw
  imports Sending
begin

text \<open>
  \<^verbatim>\<open>src/earn/services/earn-withdraw.service.ts\<close>: \<open>withdrawPosition\<close>, in the parts its body has:
  the checks (\<open>wd_checks\<close>), the database transaction that opens the withdrawal (\<open>wd_open\<close>), the
  \<open>try\<close> block (\<open>wd_submit\<close>, \<open>wd_settle\<close>), the \<open>catch\<close> block (\<open>wd_fail\<close>) and the response.

  The facts mirror those of deposits: the invariants and the ledger are kept whichever way a
  withdrawal ends, nothing is left open, no more than the position holds is sent for.
\<close>

section \<open>The service\<close>

record withdraw_dto =
  wdd_walletId :: uuid
  wdd_amount :: "string option"
  wdd_fullWithdraw :: "bool option"

record withdraw_response =
  wr_positionId :: uuid
  wr_vaultId :: string
  wr_chainId :: int
  wr_walletId :: uuid
  wr_amount :: string
  wr_fullWithdraw :: bool
  wr_sharesBurned :: string
  wr_positionStatus :: position_status
  wr_remainingAmount :: string
  wr_remainingShares :: string
  wr_transactionId :: uuid
  wr_status :: transaction_status
  wr_txHash :: "string option"
  wr_blockNumber :: "string option"
  wr_explorerUrl :: "string option"

text \<open>The local variables the rest of the body uses.\<close>

record withdraw_context =
  wc_position :: position
  wc_dbVault :: vault
  wc_vault :: protocol_vault
  wc_wallet :: wallet
  wc_fullWithdraw :: bool
  wc_withdrawAmount :: string
  wc_amountBn :: int
  wc_sharesToBurn :: int
  wc_onChainShares :: int

definition wd_resolveWithdrawAmount :: "position \<Rightarrow> withdraw_dto \<Rightarrow> bool \<Rightarrow> string res" where
  "wd_resolveWithdrawAmount position dto fullWithdraw =
     (if fullWithdraw then Inr (showInt (p_currentAmount position))
      else (case wdd_amount dto of
              None \<Rightarrow> Inl (badRequest ''Either amount or fullWithdraw must be provided'')
            | Some a \<Rightarrow> if a = [] then Inl (badRequest ''Either amount or fullWithdraw must be provided'') else Inr a))"

text \<open>The position, which must be the user's and active, with its vault.\<close>

definition wd_position :: "uuid \<Rightarrow> uuid \<Rightarrow> position_with_vault io" where
  "wd_position userId positionId =
     andThen (pos_findByIdWithVault positionId) (\<lambda>found.
     (case found of
        None \<Rightarrow> throw (notFound ''Position not found'')
      | Some (position, dbVault) \<Rightarrow>
          if p_userId position \<noteq> userId then throw (notFound ''Position not found'')
          else if p_status position \<noteq> P_ACTIVE then throw (positionNotActive (showNat positionId))
          else ret (position, dbVault)))"

definition wd_checks :: "env \<Rightarrow> uuid \<Rightarrow> uuid \<Rightarrow> withdraw_dto \<Rightarrow> withdraw_context io" where
  "wd_checks x userId positionId dto =
     andThen (wd_position userId positionId) (\<lambda>(position, dbVault).
     andThen (aave_getVault x (v_slug dbVault) (Some (v_chainId dbVault))) (\<lambda>vault.
     andThen (val_assertWithdrawEnabled vault) (\<lambda>_.
     andThen (val_assertChainMatchesEnvironment x (pv_chainId vault)) (\<lambda>_.
     andThen (val_assertVaultBelongsToChain vault (pv_chainId vault)) (\<lambda>_.
     andThen (val_assertRpcBelongsToChain x (pv_chainId vault)) (\<lambda>_.
     andThen (val_assertWalletBelongsToUser userId (wdd_walletId dto)) (\<lambda>wallet.
     andThen (val_assertWalletChainMatchesVault wallet vault) (\<lambda>_.
     let fullWithdraw = (wdd_fullWithdraw dto = Some True) in
     andThen (bc_readVaultShareBalance x vault (w_address wallet)) (\<lambda>onChainShares.
     let positionShares = p_shares position in
     andThen (lift (wd_resolveWithdrawAmount position dto fullWithdraw)) (\<lambda>withdrawAmount.
     andThen (lift (bigInt withdrawAmount)) (\<lambda>amountBn.
     let positionAmount = p_currentAmount position in
     andThen (require (\<not> amountBn > positionAmount)
                (insufficientPositionBalance withdrawAmount (showInt (p_currentAmount position)))) (\<lambda>_.
     andThen (if fullWithdraw then ret positionShares else bc_previewWithdrawShares vault amountBn) (\<lambda>sharesToBurn.
     andThen (require (\<not> sharesToBurn > positionShares)
                (insufficientPositionBalance (showInt sharesToBurn) (showInt (p_shares position)))) (\<lambda>_.
     andThen (require (\<not> sharesToBurn > onChainShares)
                (insufficientPositionBalance (showInt sharesToBurn) (showInt onChainShares))) (\<lambda>_.
     ret \<lparr>wc_position = position, wc_dbVault = dbVault, wc_vault = vault, wc_wallet = wallet,
          wc_fullWithdraw = fullWithdraw, wc_withdrawAmount = withdrawAmount, wc_amountBn = amountBn,
          wc_sharesToBurn = sharesToBurn, wc_onChainShares = onChainShares\<rparr>)))))))))))))))"

definition wd_metadata :: "withdraw_context \<Rightarrow> metadata" where
  "wd_metadata c =
     [(''protocolVaultId'', JStr (pv_vaultId (wc_vault c))),
      (''sharesBurned'', JStr (showInt (wc_sharesToBurn c))),
      (''fullWithdraw'', JBool (wc_fullWithdraw c)),
      (''onChainShares'', JStr (showInt (wc_onChainShares c)))]"

definition wd_transactionInput :: "uuid \<Rightarrow> withdraw_context \<Rightarrow> create_transaction_input" where
  "wd_transactionInput userId c =
     \<lparr>ct_userId = userId, ct_walletId = w_id (wc_wallet c), ct_chainId = pv_chainId (wc_vault c),
      ct_type = WITHDRAW, ct_amount = wc_withdrawAmount c, ct_vaultId = Some (p_vaultId (wc_position c)),
      ct_positionId = Some (p_id (wc_position c)), ct_metadata = Some (wd_metadata c)\<rparr>"

definition wd_openBody :: "uuid \<Rightarrow> withdraw_context \<Rightarrow> transaction_record io" where
  "wd_openBody userId c =
     (let positionId = p_id (wc_position c)
      in andThen (tx_hasOpenWithdraw positionId) (\<lambda>openWithdraw.
         andThen (require (\<not> openWithdraw) (withdrawInProgress (showNat positionId))) (\<lambda>_.
         andThen (pos_markWithdrawing positionId) (\<lambda>_.
           tx_createTransaction (wd_transactionInput userId c)))))"

definition wd_open :: "uuid \<Rightarrow> withdraw_context \<Rightarrow> transaction_record io" where
  "wd_open userId c =
     andThen (tx_hasOpenWithdraw (p_id (wc_position c))) (\<lambda>hasOpenWithdraw.
     andThen (require (\<not> hasOpenWithdraw) (withdrawInProgress (showNat (p_id (wc_position c))))) (\<lambda>_.
       atomically (wd_openBody userId c)))"

definition wd_requested :: "env \<Rightarrow> uuid \<Rightarrow> withdraw_context \<Rightarrow> transaction_record \<Rightarrow> unit io" where
  "wd_requested x userId c transaction =
     auditLog x \<lparr>al_userId = Some userId, al_action = WITHDRAW_REQUESTED, al_entityType = ''transaction'',
       al_entityId = tr_transactionId transaction,
       al_metadata = Some [(''positionId'', JStr (showNat (p_id (wc_position c)))),
         (''vaultId'', JStr (pv_vaultId (wc_vault c))), (''amount'', JStr (wc_withdrawAmount c)),
         (''fullWithdraw'', JBool (wc_fullWithdraw c))]\<rparr>"

definition wd_sendInput :: "withdraw_context \<Rightarrow> string \<Rightarrow> send_transaction_input" where
  "wd_sendInput c withdrawData =
     \<lparr>s_providerWalletId = w_providerId (wc_wallet c), s_chainId = pv_chainId (wc_vault c),
      s_to = pv_contractAddress (wc_vault c), s_value = Some ''0'', s_data = Some withdrawData\<rparr>"

definition wd_submittedMetadata :: "withdraw_context \<Rightarrow> broadcast \<Rightarrow> metadata" where
  "wd_submittedMetadata c broadcast =
     optField ''privyTransactionId'' (map_option JStr (b_transactionId broadcast))
     @ [(''sharesBurned'', JStr (showInt (wc_sharesToBurn c))), (''fullWithdraw'', JBool (wc_fullWithdraw c))]"

definition wd_submit :: "env \<Rightarrow> withdraw_context \<Rightarrow> transaction_record \<Rightarrow> (transaction_record \<times> receipt) io" where
  "wd_submit x c transaction =
     andThen (lift (bc_encodeVaultWithdraw x (wc_vault c) (wc_amountBn c) (w_address (wc_wallet c)) (wc_fullWithdraw c))) (\<lambda>withdrawData.
     andThen (privy_sendTransaction x (wd_sendInput c withdrawData)) (\<lambda>broadcast.
     andThen (tx_markSubmitted (tr_transactionId transaction) (b_hash broadcast)
                (Some (wd_submittedMetadata c broadcast))) (\<lambda>submitted.
     andThen (bc_waitForTransactionReceipt x (pv_chainId (wc_vault c)) (b_hash broadcast)) (\<lambda>receipt.
       ret (submitted, receipt)))))"

text \<open>Without an updated position the response shows the one read at the start.\<close>

definition wd_toResponse ::
    "env \<Rightarrow> withdraw_dto \<Rightarrow> withdraw_context \<Rightarrow> transaction_record \<Rightarrow> position_record option \<Rightarrow> withdraw_response" where
  "wd_toResponse x dto c transaction updatedPosition =
     (let positionState = orElse updatedPosition (toPositionRecord (wc_position c))
      in \<lparr>wr_positionId = p_id (wc_position c), wr_vaultId = v_slug (wc_dbVault c),
          wr_chainId = v_chainId (wc_dbVault c), wr_walletId = wdd_walletId dto, wr_amount = tr_amount transaction,
          wr_fullWithdraw = wc_fullWithdraw c, wr_sharesBurned = showInt (wc_sharesToBurn c),
          wr_positionStatus = pr_status positionState, wr_remainingAmount = pr_currentAmount positionState,
          wr_remainingShares = pr_shares positionState, wr_transactionId = tr_transactionId transaction,
          wr_status = tr_status transaction, wr_txHash = tr_txHash transaction,
          wr_blockNumber = tr_blockNumber transaction,
          wr_explorerUrl = explorer_forTransaction x (v_chainId (wc_dbVault c)) (tr_txHash transaction)\<rparr>)"

definition wd_reverted ::
    "env \<Rightarrow> withdraw_dto \<Rightarrow> withdraw_context \<Rightarrow> transaction_record \<Rightarrow> receipt \<Rightarrow> withdraw_response io" where
  "wd_reverted x dto c submitted receipt =
     andThen (tx_markReverted (tr_transactionId submitted) (rc_blockNumber receipt)
                (Some [(''gasUsed'', JStr (showInt (rc_gasUsed receipt)))])) (\<lambda>reverted.
     andThen (pos_markActive (p_id (wc_position c))) (\<lambda>_.
       ret (wd_toResponse x dto c reverted None)))"

definition wd_positionMissing :: "uuid \<Rightarrow> exn" where
  "wd_positionMissing positionId =
     PlainError (''Position '' @ showNat positionId @ '' not found after withdrawal confirmation'')"

definition wd_confirmBody ::
    "withdraw_context \<Rightarrow> transaction_record \<Rightarrow> receipt \<Rightarrow> (transaction_record \<times> position_record) io" where
  "wd_confirmBody c submitted receipt =
     andThen (tx_confirmSubmitted (tr_transactionId submitted) (rc_blockNumber receipt)
                (Some [(''gasUsed'', JStr (showInt (rc_gasUsed receipt))),
                       (''sharesBurned'', JStr (showInt (wc_sharesToBurn c))),
                       (''fullWithdraw'', JBool (wc_fullWithdraw c))])) (\<lambda>(applied, confirmed).
     andThen (if applied
              then andThen (pos_subtractWithdraw (p_id (wc_position c))
                     \<lparr>wp_withdrawnAmount = wc_withdrawAmount c, wp_shares = showInt (wc_sharesToBurn c)\<rparr>)
                     (\<lambda>p. ret (Some p))
              else pos_findById (p_id (wc_position c))) (\<lambda>updatedPosition.
     (case updatedPosition of
        None \<Rightarrow> throw (wd_positionMissing (p_id (wc_position c)))
      | Some p \<Rightarrow> ret (confirmed, p))))"

definition wd_confirmed ::
    "env \<Rightarrow> uuid \<Rightarrow> withdraw_dto \<Rightarrow> withdraw_context \<Rightarrow> transaction_record \<Rightarrow> receipt \<Rightarrow> withdraw_response io" where
  "wd_confirmed x userId dto c submitted receipt =
     andThen (atomically (wd_confirmBody c submitted receipt)) (\<lambda>(confirmed, updatedPosition).
     andThen (auditLog x \<lparr>al_userId = Some userId, al_action = WITHDRAW_CONFIRMED, al_entityType = ''transaction'',
                al_entityId = tr_transactionId confirmed,
                al_metadata = Some [(''positionId'', JStr (showNat (p_id (wc_position c)))),
                  (''txHash'', case tr_txHash confirmed of Some h \<Rightarrow> JStr h | None \<Rightarrow> JNull),
                  (''fullWithdraw'', JBool (wc_fullWithdraw c))]\<rparr>) (\<lambda>_.
       ret (wd_toResponse x dto c confirmed (Some updatedPosition))))"

definition wd_settle ::
    "env \<Rightarrow> uuid \<Rightarrow> withdraw_dto \<Rightarrow> withdraw_context \<Rightarrow> transaction_record \<Rightarrow> receipt \<Rightarrow> withdraw_response io" where
  "wd_settle x userId dto c submitted receipt =
     (if rc_status receipt \<noteq> Success then wd_reverted x dto c submitted receipt
      else wd_confirmed x userId dto c submitted receipt)"

definition wd_fail :: "withdraw_context \<Rightarrow> transaction_record \<Rightarrow> exn \<Rightarrow> 'a io" where
  "wd_fail c transaction e =
     andThen (tx_markFailed (tr_transactionId transaction) (Some [(''error'', JStr (errorMessage e))])) (\<lambda>_.
     andThen (pos_markActive (p_id (wc_position c))) (\<lambda>_. throw e))"

definition wd_attempt ::
    "env \<Rightarrow> uuid \<Rightarrow> withdraw_dto \<Rightarrow> withdraw_context \<Rightarrow> transaction_record \<Rightarrow> withdraw_response io" where
  "wd_attempt x userId dto c transaction =
     catching
       (andThen (wd_submit x c transaction) (\<lambda>(submitted, receipt). wd_settle x userId dto c submitted receipt))
       (wd_fail c transaction)"

definition withdrawPosition :: "env \<Rightarrow> uuid \<Rightarrow> uuid \<Rightarrow> withdraw_dto \<Rightarrow> withdraw_response io" where
  "withdrawPosition x userId positionId dto =
     andThen (assertWithdrawAllowed x userId) (\<lambda>_.
     andThen (wd_checks x userId positionId dto) (\<lambda>c.
     andThen (wd_open userId c) (\<lambda>transaction.
     andThen (wd_requested x userId c transaction) (\<lambda>_.
       wd_attempt x userId dto c transaction))))"

section \<open>The checks\<close>

lemma preserves_wd_checks: "ignoresOutside I \<Longrightarrow> preserves I (wd_checks x u pid dto)"
  unfolding wd_checks_def wd_position_def Let_def
  by (intro pres aave.reads_only) auto

lemma wd_position_Inr:
  "wd_position u pid s = (Inr (p, v), s') \<Longrightarrow>
   s' = s \<and> find (\<lambda>p. p_id p = pid) (positions s) = Some p \<and> p_userId p = u \<and> p_status p = P_ACTIVE
   \<and> v \<in> set (vaults s) \<and> v_id v = p_vaultId p"
  by (auto simp: wd_position_def pos_findByIdWithVault_def posRepo_findByIdWithVault_def withVault_def vaultById_def
      split: option.splits if_splits dest: find_Some_iff_first)

lemma wd_checks_passed:
  assumes run: "wd_checks x userId positionId dto s = (Inr c, s')"
  shows "find (\<lambda>p. p_id p = positionId) (positions s) = Some (wc_position c)"
    "p_userId (wc_position c) = userId" "p_status (wc_position c) = P_ACTIVE"
    "bigIntOf (wc_withdrawAmount c) = Some (wc_amountBn c)"
    "wc_amountBn c \<le> p_currentAmount (wc_position c)"
    "wc_sharesToBurn c \<le> p_shares (wc_position c)" "wc_sharesToBurn c \<le> wc_onChainShares c"
    "wc_sharesToBurn c = (if wc_fullWithdraw c then p_shares (wc_position c) else wc_amountBn c)"
    "wc_fullWithdraw c \<Longrightarrow> wc_amountBn c = p_currentAmount (wc_position c)"
    "\<not> wc_fullWithdraw c \<Longrightarrow> wdd_amount dto = Some (wc_withdrawAmount c)"
    "chainUsable x (pv_chainId (wc_vault c))" "pv_withdrawEnabled (wc_vault c)"
    "pv_vaultId (wc_vault c) = v_slug (wc_dbVault c)" "v_id (wc_dbVault c) = p_vaultId (wc_position c)"
    "w_id (wc_wallet c) = wdd_walletId dto" "w_userId (wc_wallet c) = userId"
    "w_chainId (wc_wallet c) = pv_chainId (wc_vault c)"
    "wc_fullWithdraw c \<longleftrightarrow> wdd_fullWithdraw dto = Some True"
    "\<exists>s0 s1. aave_getVault x (v_slug (wc_dbVault c)) (Some (v_chainId (wc_dbVault c))) s0 = (Inr (wc_vault c), s1)"
    "wc_dbVault c \<in> set (vaults s)" "wc_wallet c \<in> set (wallets s)"
    "\<exists>k. e_balanceOf x k (pv_chainId (wc_vault c)) (pv_shareTokenAddress (wc_vault c)) (w_address (wc_wallet c))
       = Inr (wc_onChainShares c)"
proof -
  from run obtain p dbv s0 v s1 s2 s3 s4 w s5 full oc s6 wa n sh where
    p: "wd_position userId positionId s = (Inr (p, dbv), s0)"
    and v: "aave_getVault x (v_slug dbv) (Some (v_chainId dbv)) s0 = (Inr v, s1)"
    and en: "val_assertWithdrawEnabled v s1 = (Inr (), s2)"
    and c1: "val_assertChainMatchesEnvironment x (pv_chainId v) s2 = (Inr (), s3)"
    and c2: "val_assertRpcBelongsToChain x (pv_chainId v) s3 = (Inr (), s4)"
    and w: "val_assertWalletBelongsToUser userId (wdd_walletId dto) s4 = (Inr w, s5)"
    and wc: "w_chainId w = pv_chainId v"
    and full: "full = (wdd_fullWithdraw dto = Some True)"
    and oc: "bc_readVaultShareBalance x v (w_address w) s5 = (Inr oc, s6)"
    and wa: "wd_resolveWithdrawAmount p dto full = Inr wa" and n: "bigIntOf wa = Some n"
    and le: "\<not> n > p_currentAmount p"
    and sh: "sh = (if full then p_shares p else n)" and le2: "\<not> sh > p_shares p" "\<not> sh > oc"
    and c: "c = \<lparr>wc_position = p, wc_dbVault = dbv, wc_vault = v, wc_wallet = w,
          wc_fullWithdraw = full, wc_withdrawAmount = wa, wc_amountBn = n,
          wc_sharesToBurn = sh, wc_onChainShares = oc\<rparr>"
    unfolding wd_checks_def val_assertVaultBelongsToChain_def val_assertWalletChainMatchesVault_def Let_def
    by (elim andThen_InrE, case_tac xa, simp only: prod.case) (elim andThen_InrE, auto split: if_splits)
  show "find (\<lambda>p. p_id p = positionId) (positions s) = Some (wc_position c)"
    "p_userId (wc_position c) = userId" "p_status (wc_position c) = P_ACTIVE"
    "v_id (wc_dbVault c) = p_vaultId (wc_position c)" using wd_position_Inr [OF p] c by simp_all
  show "bigIntOf (wc_withdrawAmount c) = Some (wc_amountBn c)" "wc_amountBn c \<le> p_currentAmount (wc_position c)"
    "wc_sharesToBurn c \<le> p_shares (wc_position c)" "wc_sharesToBurn c \<le> wc_onChainShares c"
    "wc_sharesToBurn c = (if wc_fullWithdraw c then p_shares (wc_position c) else wc_amountBn c)"
    using n le le2 sh c by simp_all
  show "wc_fullWithdraw c \<Longrightarrow> wc_amountBn c = p_currentAmount (wc_position c)"
    "\<not> wc_fullWithdraw c \<Longrightarrow> wdd_amount dto = Some (wc_withdrawAmount c)"
    using wa n c by (auto simp: wd_resolveWithdrawAmount_def split: option.splits if_splits)
  show "chainUsable x (pv_chainId (wc_vault c))" using chainUsable_checks [OF c1 c2] c by simp
  show "pv_withdrawEnabled (wc_vault c)" using en c by (auto simp: val_assertWithdrawEnabled_def elim!: andThen_InrE)
  show "pv_vaultId (wc_vault c) = v_slug (wc_dbVault c)" using aave.asked_for [OF v] c by simp
  show "w_id (wc_wallet c) = wdd_walletId dto" "w_userId (wc_wallet c) = userId"
    using findOwnedWallet_Inr [OF w] c by simp_all
  show "w_chainId (wc_wallet c) = pv_chainId (wc_vault c)" using wc c by simp
  show "wc_fullWithdraw c \<longleftrightarrow> wdd_fullWithdraw dto = Some True" using full c by simp
  show "\<exists>s0 s1. aave_getVault x (v_slug (wc_dbVault c)) (Some (v_chainId (wc_dbVault c))) s0 = (Inr (wc_vault c), s1)"
    using v c by auto
  show "wc_dbVault c \<in> set (vaults s)" using wd_position_Inr [OF p] c by simp
  have "wallets s2 = wallets s" using en aave.same_tables(4) [of x "v_slug dbv" "Some (v_chainId dbv)" s0] v wd_position_Inr [OF p]
    by (auto simp: val_assertWithdrawEnabled_def val_assertVaultActive_def elim!: andThen_InrE)
  then show "wc_wallet c \<in> set (wallets s)" using findOwnedWallet_Inr [OF w] chainUsable_checks [OF c1 c2] c by simp
  show "\<exists>k. e_balanceOf x k (pv_chainId (wc_vault c)) (pv_shareTokenAddress (wc_vault c)) (w_address (wc_wallet c))
       = Inr (wc_onChainShares c)" using oc c by (auto simp: bc_readVaultShareBalance_def dest: viaClient_Inr)
qed

section \<open>Opening the withdrawal\<close>

text \<open>What the validated body of a withdrawal satisfies.\<close>

definition validWithdraw :: "withdraw_dto \<Rightarrow> bool" where
  "validWithdraw dto \<longleftrightarrow>
     (wdd_fullWithdraw dto \<noteq> Some True \<longrightarrow>
        (case wdd_amount dto of None \<Rightarrow> False | Some a \<Rightarrow> isPositiveBigIntString (JStr a)))"

text \<open>The amount to withdraw is one number in all its uses, and the position holds it.\<close>

definition coveredBy :: "withdraw_context \<Rightarrow> int \<Rightarrow> world \<Rightarrow> bool" where
  "coveredBy c n s \<longleftrightarrow> 0 \<le> n \<and> bigIntOf (wc_withdrawAmount c) = Some n \<and> wc_sharesToBurn c = n
     \<and> (\<exists>p. find (\<lambda>p. p_id p = p_id (wc_position c)) (positions s) = Some p \<and> n \<le> p_shares p)"

lemma wd_checks_covered:
  assumes valid: "validWithdraw dto" and b: "base sk S s" and run: "wd_checks x userId positionId dto s = (Inr c, s')"
  shows "base sk S s' \<and> coveredBy c (wc_amountBn c) s'"
proof
  note f = wd_checks_passed [OF run]
  let ?I = "\<lambda>t. base sk S t \<and> positions t = positions s"
  have out: "ignoresOutside ?I" using ignoresOutside_base(1) [of sk S] by (simp add: ignoresOutside_def)
  have s': "?I s'" using preserves_run [OF preserves_wd_checks [OF out] run] b by simp
  then show "base sk S s'" by simp
  have id: "p_id (wc_position c) = positionId" using f(1) by (auto dest: find_Some_iff_first)
  have "goodPosition (wc_position c)"
    using b f(1) by (auto simp: base_def dbInv_def posInv_def dest: find_Some_iff_first)
  then have eq: "p_currentAmount (wc_position c) = p_shares (wc_position c)" "0 \<le> p_shares (wc_position c)"
    by (simp_all add: goodPosition_def)
  have "0 \<le> wc_amountBn c"
  proof (cases "wc_fullWithdraw c")
    case True
    with f(9) eq show ?thesis by simp
  next
    case False
    have "wdd_fullWithdraw dto \<noteq> Some True" using False run
      unfolding wd_checks_def Let_def by (elim andThen_InrE) (auto split: prod.splits elim!: andThen_InrE)
    with valid f(10) [OF False] have "isPositiveBigIntString (JStr (wc_withdrawAmount c))"
      by (auto simp: validWithdraw_def)
    from positive_amount [OF this] f(4) show ?thesis by auto
  qed
  then show "coveredBy c (wc_amountBn c) s'"
    using f(1,4,5,6,8,9) eq s' id by (auto simp: coveredBy_def split: if_splits)
qed

abbreviation withdrawing :: "(uuid \<Rightarrow> int) \<Rightarrow> uuid set \<Rightarrow> int \<Rightarrow> withdraw_context \<Rightarrow> transaction_record \<Rightarrow> bool \<Rightarrow> world \<Rightarrow> bool" where
  "withdrawing sk S n c t sub \<equiv>
     working sk S (tr_transactionId t) WITHDRAW n (Some (p_id (wc_position c))) (\<lambda>sh. n \<le> sh) sub"

lemma coveredBy_setStatus:
  assumes "coveredBy c n s"
  shows "coveredBy c n (snd (positionUpdate j (setStatus st) s))"
proof -
  from assms obtain p where hit: "find (\<lambda>p. p_id p = p_id (wc_position c)) (positions s) = Some p" and le: "n \<le> p_shares p"
    by (auto simp: coveredBy_def)
  from setStatus_shares [OF hit, of j st] le assms show ?thesis by (auto simp: coveredBy_def)
qed

lemma wd_openBody_triple:
  "triple (\<lambda>s. base sk S s \<and> coveredBy c n s) (wd_openBody userId c) (\<lambda>t. withdrawing sk S n c t False) (\<lambda>_. base sk S)"
  unfolding wd_openBody_def Let_def
proof (intro triple_andThen)
  let ?P = "\<lambda>s. base sk S s \<and> coveredBy c n s"
  show "triple ?P (tx_hasOpenWithdraw (p_id (wc_position c))) (\<lambda>_. ?P) (\<lambda>_. base sk S)"
    by (rule triple_reads) (simp_all add: tx_hasOpenWithdraw_def txRepo_findOpenWithdraw_def)
  show "triple ?P (require (\<not> b) (withdrawInProgress (showNat (p_id (wc_position c))))) (\<lambda>_. ?P) (\<lambda>_. base sk S)" for b
    by (rule triple_require) auto
  show "triple ?P (pos_markWithdrawing (p_id (wc_position c))) (\<lambda>_. ?P) (\<lambda>_. base sk S)"
    by (rule triple_frame [where I = ?P])
       (auto simp: preserves_def pos_markWithdrawing_def posRepo_markWithdrawing_def base_setStatus coveredBy_setStatus)
  show "triple ?P (tx_createTransaction (wd_transactionInput userId c)) (\<lambda>t. withdrawing sk S n c t False) (\<lambda>_. base sk S)"
  proof (rule tripleI)
    let ?in = "wd_transactionInput userId c"
    fix s assume P: "?P s"
    then have n: "bigIntOf (ct_amount ?in) = Some n" "0 \<le> n" and m: "metadataGood (ct_type ?in) n (ct_metadata ?in)"
      by (auto simp: coveredBy_def wd_transactionInput_def metadataGood_def wd_metadata_def metadataString_def)
    note tr = book_create [OF n m, of sk S "\<lambda>sh. n \<le> sh"]
    have pre: "base sk S s \<and> (\<forall>q. ct_positionId ?in = Some q \<longrightarrow> (\<exists>p. find (\<lambda>p. p_id p = q) (positions s) = Some p \<and> n \<le> p_shares p))"
      using P by (auto simp: coveredBy_def wd_transactionInput_def)
    show "withdrawing sk S n c t False s'" if "tx_createTransaction ?in s = (Inr t, s')" for t s'
      using triple_Inr [OF tr pre that] by (simp add: wd_transactionInput_def)
    show "base sk S s'" if "tx_createTransaction ?in s = (Inl e, s')" for e s'
      using triple_Inl [OF tr pre that] .
  qed
qed

lemma wd_open_triple:
  "triple (\<lambda>s. base sk S s \<and> coveredBy c n s) (wd_open userId c) (\<lambda>t. withdrawing sk S n c t False) (\<lambda>_. base sk S)"
  unfolding wd_open_def
proof (intro triple_andThen)
  let ?P = "\<lambda>s. base sk S s \<and> coveredBy c n s"
  show "triple ?P (tx_hasOpenWithdraw (p_id (wc_position c))) (\<lambda>_. ?P) (\<lambda>_. base sk S)"
    by (rule triple_reads) (simp_all add: tx_hasOpenWithdraw_def txRepo_findOpenWithdraw_def)
  show "triple ?P (require (\<not> b) (withdrawInProgress (showNat (p_id (wc_position c))))) (\<lambda>_. ?P) (\<lambda>_. base sk S)" for b
    by (rule triple_require) auto
  show "triple ?P (atomically (wd_openBody userId c)) (\<lambda>t. withdrawing sk S n c t False) (\<lambda>_. base sk S)"
    by (rule triple_atomically [OF triple_conseq [OF wd_openBody_triple]]) auto
qed

section \<open>Settling the withdrawal\<close>

lemma wd_submit_triple:
  assumes "wc_sharesToBurn c = n"
  shows "triple (withdrawing sk S n c t False) (wd_submit x c t)
     (\<lambda>(submitted, receipt) s. withdrawing sk S n c t True s \<and> tr_transactionId submitted = tr_transactionId t)
     (\<lambda>_. withdrawing sk S n c t False)"
  unfolding wd_submit_def
proof (intro triple_andThen)
  let ?w = "withdrawing sk S n c t"
  show "triple (?w False) (lift r) (\<lambda>_. ?w False) (\<lambda>_. ?w False)" for r :: "string res"
    by (intro triple_preserves pres)
  show "triple (?w False) (privy_sendTransaction x i) (\<lambda>_. ?w False) (\<lambda>_. ?w False)" for i
    by (intro triple_preserves privy.writes_outside) simp
  have "metadataGood WITHDRAW n (Some (wd_submittedMetadata c b))" for b
    using assms by (cases "b_transactionId b")
      (simp_all add: metadataGood_def wd_submittedMetadata_def metadataString_def optField_def)
  then show "triple (?w False) (tx_markSubmitted (tr_transactionId t) (b_hash b) (Some (wd_submittedMetadata c b)))
      (\<lambda>r s. ?w True s \<and> tr_transactionId r = tr_transactionId t) (\<lambda>_. ?w False)" for b
    by (rule book_markSubmitted)
  let ?sub = "\<lambda>r s. ?w True s \<and> tr_transactionId r = tr_transactionId t"
  have out: "ignoresOutside (?sub r)" for r by (cases "tr_transactionId r = tr_transactionId t") (simp_all add: ignoresOutside_def [of "\<lambda>_. False"])
  show "triple (?sub r) (bc_waitForTransactionReceipt x (pv_chainId (wc_vault c)) h) (\<lambda>_. ?sub r) (\<lambda>_. ?w False)" for r h
    by (rule triple_frame [OF preserves_bc(4) [OF out]]) (auto intro: working_weaken)
  show "triple (?sub r) (ret (r, receipt))
      (\<lambda>(submitted, receipt) s. ?w True s \<and> tr_transactionId submitted = tr_transactionId t) (\<lambda>_. ?w False)" for r receipt
    by (simp add: triple_def)
qed

text \<open>Once the transaction is closed the rest cannot undo it: the position is there.\<close>

definition hasPosition :: "uuid \<Rightarrow> world \<Rightarrow> bool" where
  "hasPosition pid s \<longleftrightarrow> find (\<lambda>p. p_id p = pid) (positions s) \<noteq> None"

lemma markActive_present:
  "triple (\<lambda>s. base sk S s \<and> hasPosition pid s) (pos_markActive pid) (\<lambda>_. base sk S) E"
proof (rule triple_run)
  fix s assume P: "base sk S s \<and> hasPosition pid s"
  then obtain p where hit: "find (\<lambda>p. p_id p = pid) (positions s) = Some p" by (auto simp: hasPosition_def)
  have "positionUpdate pid (setStatus P_ACTIVE) s = (Inr (touchPosition (now s) (p\<lparr>p_status := P_ACTIVE\<rparr>)),
     putPositions (updWhere (\<lambda>q. p_id q = pid) (\<lambda>_. touchPosition (now s) (p\<lparr>p_status := P_ACTIVE\<rparr>)) (positions s)) s)"
    unfolding positionUpdate_def by (rule positionTable.update_hit [where f = "setStatus P_ACTIVE", OF hit]) (simp add: setStatus_def)
  with P base_setStatus [of sk S s pid P_ACTIVE] show "\<exists>r s'. pos_markActive pid s = (Inr r, s') \<and> base sk S s'"
    by (simp add: pos_markActive_def posRepo_markActive_def asRecord_def andThen_def)
qed

lemma book_close_keeps:
  "triple (working sk S i ty n (Some pid) K sub) (tx_markReverted i b m) (\<lambda>_ s. base sk S s \<and> hasPosition pid s) E"
  "triple (working sk S i ty n (Some pid) K sub) (tx_markFailed i m) (\<lambda>_ s. base sk S s \<and> hasPosition pid s) E"
proof -
  have *: "triple (working sk S i ty n (Some pid) K sub) op (\<lambda>_ s. base sk S s \<and> hasPosition pid s) E"
    if t: "triple (working sk S i ty n (Some pid) K sub) op (\<lambda>_. base sk S) (\<lambda>_ _. False)" and f: "\<And>s. positions (snd (op s)) = positions s"
    for op :: "transaction_record io"
  proof (rule tripleI)
    fix s r s' assume w: "working sk S i ty n (Some pid) K sub s" and run: "op s = (Inr r, s')"
    have "hasPosition pid s" using w by (auto simp: working_def hasPosition_def)
    then show "base sk S s' \<and> hasPosition pid s'" using triple_Inr [OF t w run] f [of s] run by (simp add: hasPosition_def)
  next
    fix s e s' assume "working sk S i ty n (Some pid) K sub s" and "op s = (Inl e, s')"
    then show "E e s'" using triple_Inl [OF t] by blast
  qed
  show "triple (working sk S i ty n (Some pid) K sub) (tx_markReverted i b m) (\<lambda>_ s. base sk S s \<and> hasPosition pid s) E"
    by (rule * [OF book_marks_base(2)]) (simp add: tx_markReverted_def txRepo_updateStatus_def)
  show "triple (working sk S i ty n (Some pid) K sub) (tx_markFailed i m) (\<lambda>_ s. base sk S s \<and> hasPosition pid s) E"
    by (rule * [OF book_marks_base(1)]) (simp add: tx_markFailed_def txRepo_updateStatus_def)
qed

lemma wd_reverted_triple:
  assumes "tr_transactionId submitted = tr_transactionId t"
  shows "triple (withdrawing sk S n c t True) (wd_reverted x dto c submitted receipt) (\<lambda>_. base sk S) E"
  unfolding wd_reverted_def assms
  by (rule triple_andThen [OF book_close_keeps(1)], rule triple_andThen [OF markActive_present]) (simp add: triple_def)

lemma wd_confirmBody_base:
  assumes n: "bigIntOf (wc_withdrawAmount c) = Some n" "0 \<le> n" and sh: "wc_sharesToBurn c = n"
    and w: "withdrawing sk S n c t True s" and id: "tr_transactionId submitted = tr_transactionId t"
    and run: "wd_confirmBody c submitted receipt s = (Inr r, s')"
  shows "base sk S s'"
proof -
  let ?pid = "p_id (wc_position c)"
  let ?d = "\<lparr>wp_withdrawnAmount = wc_withdrawAmount c, wp_shares = showInt (wc_sharesToBurn c)\<rparr>"
  obtain applied confirmed s1 where conf: "tx_confirmSubmitted (tr_transactionId t) (rc_blockNumber receipt)
       (Some [(''gasUsed'', JStr (showInt (rc_gasUsed receipt))), (''sharesBurned'', JStr (showInt (wc_sharesToBurn c))),
          (''fullWithdraw'', JBool (wc_fullWithdraw c))]) s = (Inr (applied, confirmed), s1)"
    using run id unfolding wd_confirmBody_def by (auto elim!: andThen_InrE)
  from triple_Inr [OF book_confirmSubmitted [where pid = ?pid] w conf]
  have ok: "applied" and lag: "lagging sk S ?pid (- n) s1 \<and> (\<exists>q. find (\<lambda>q. p_id q = ?pid) (positions s1) = Some q \<and> n \<le> p_shares q)"
    by auto
  from run conf ok id have "andThen (andThen (pos_subtractWithdraw ?pid ?d) (\<lambda>p. ret (Some p))) (\<lambda>updatedPosition. case updatedPosition of
      None \<Rightarrow> throw (wd_positionMissing ?pid) | Some p \<Rightarrow> ret (confirmed, p)) s1 = (Inr r, s')"
    unfolding wd_confirmBody_def by (simp add: andThen_Inr)
  then obtain q where "pos_subtractWithdraw ?pid ?d s1 = (Inr q, s')" by (elim andThen_InrE) (simp split: option.splits)
  from triple_Inr [OF catch_up_subtract lag this] n sh show ?thesis by simp
qed

lemma wd_settle_triple:
  assumes n: "bigIntOf (wc_withdrawAmount c) = Some n" "0 \<le> n" and sh: "wc_sharesToBurn c = n"
    and id: "tr_transactionId submitted = tr_transactionId t"
  shows "triple (withdrawing sk S n c t True) (wd_settle x userId dto c submitted receipt)
     (\<lambda>_. base sk S) (\<lambda>_. withdrawing sk S n c t False)"
proof -
  have "triple (withdrawing sk S n c t True) (wd_confirmed x userId dto c submitted receipt)
     (\<lambda>_. base sk S) (\<lambda>_. withdrawing sk S n c t False)"
    unfolding wd_confirmed_def
  proof (rule triple_andThen [where R = "\<lambda>_. base sk S"])
    show "triple (withdrawing sk S n c t True) (atomically (wd_confirmBody c submitted receipt))
        (\<lambda>_. base sk S) (\<lambda>_. withdrawing sk S n c t False)"
      by (rule triple_atomically, rule tripleI)
         (use wd_confirmBody_base [OF n sh _ id] in \<open>auto intro: working_weaken\<close>)
    show "triple (base sk S) ((\<lambda>(confirmed, updatedPosition).
       andThen (auditLog x (a confirmed updatedPosition)) (\<lambda>_. ret (f confirmed updatedPosition))) r)
       (\<lambda>_. base sk S) (\<lambda>_. withdrawing sk S n c t False)" for r a f
      by (cases r, simp, rule triple_andThen [OF triple_auditLog [OF ignoresOutside_base(1)]]) (simp add: triple_def)
  qed
  with wd_reverted_triple [OF id] show ?thesis by (simp add: wd_settle_def)
qed

lemma wd_fail_triple:
  "triple (withdrawing sk S n c t False) (wd_fail c t e) (\<lambda>_. base sk S) (\<lambda>_. base sk S)"
  unfolding wd_fail_def
  by (rule triple_andThen [OF book_marks_base(1)], rule triple_frame [where I = "base sk S"]) (auto intro!: pres)

lemma wd_attempt_triple:
  assumes "bigIntOf (wc_withdrawAmount c) = Some n" "0 \<le> n" and "wc_sharesToBurn c = n"
  shows "triple (withdrawing sk S n c t False) (wd_attempt x userId dto c t) (\<lambda>_. base sk S) (\<lambda>_. base sk S)"
  unfolding wd_attempt_def
proof (rule triple_catching [OF _ wd_fail_triple], rule triple_andThen [OF wd_submit_triple [OF assms(3)]])
  fix r
  show "triple ((\<lambda>(submitted, receipt) s. withdrawing sk S n c t True s \<and> tr_transactionId submitted = tr_transactionId t) r)
     ((\<lambda>(submitted, receipt). wd_settle x userId dto c submitted receipt) r)
     (\<lambda>_. base sk S) (\<lambda>_. withdrawing sk S n c t False)"
    using wd_settle_triple [OF assms, of "fst r" t sk S x userId dto "snd r"]
    by (cases r) (auto simp: triple_def)
qed

text \<open>The way to the open transaction, whatever follows.\<close>

lemma withdraw_prefix:
  assumes valid: "validWithdraw dto"
    and rest: "\<And>c t n. bigIntOf (wc_withdrawAmount c) = Some n \<Longrightarrow> 0 \<le> n \<Longrightarrow> wc_sharesToBurn c = n \<Longrightarrow>
      triple (withdrawing sk S n c t False) (rest c t) (\<lambda>_. base sk S) (\<lambda>_. base sk S)"
  shows "triple (base sk S) (andThen (assertWithdrawAllowed x userId) (\<lambda>_.
     andThen (wd_checks x userId positionId dto) (\<lambda>c.
     andThen (wd_open userId c) (rest c)))) (\<lambda>_. base sk S) (\<lambda>_. base sk S)"
proof (rule triple_andThen [where R = "\<lambda>_. base sk S"])
  show "triple (base sk S) (assertWithdrawAllowed x userId) (\<lambda>_. base sk S) (\<lambda>_. base sk S)"
    by (intro triple_preserves pres) simp
  let ?P = "\<lambda>c s. base sk S s \<and> coveredBy c (wc_amountBn c) s"
  show "triple (base sk S) (andThen (wd_checks x userId positionId dto) (\<lambda>c. andThen (wd_open userId c) (rest c)))
     (\<lambda>_. base sk S) (\<lambda>_. base sk S)"
  proof (rule triple_andThen [where R = ?P])
    show "triple (base sk S) (wd_checks x userId positionId dto) ?P (\<lambda>_. base sk S)"
      by (rule tripleI) (use wd_checks_covered [OF valid] preserves_run [OF preserves_wd_checks [OF ignoresOutside_base(1)]] in blast)+
    fix c
    show "triple (?P c) (andThen (wd_open userId c) (rest c)) (\<lambda>_. base sk S) (\<lambda>_. base sk S)"
    proof (cases "0 \<le> wc_amountBn c \<and> bigIntOf (wc_withdrawAmount c) = Some (wc_amountBn c) \<and> wc_sharesToBurn c = wc_amountBn c")
      case True
      then show ?thesis by (intro triple_andThen [OF wd_open_triple] rest) auto
    qed (auto simp: triple_def coveredBy_def)
  qed
qed

text \<open>Whichever way a withdrawal ends, it keeps the invariants and the ledger and leaves nothing open.\<close>

lemma withdrawPosition_keeps:
  assumes valid: "validWithdraw dto"
  shows "triple (base sk S) (withdrawPosition x userId positionId dto) (\<lambda>_. base sk S) (\<lambda>_. base sk S)"
  unfolding withdrawPosition_def wd_requested_def
  by (intro withdraw_prefix [OF valid] triple_andThen [OF triple_auditLog [OF ignoresOutside_base(2)]] wd_attempt_triple)

section \<open>What a withdrawal sends\<close>

lemma quiet_withdraw [quiet]:
  "silent (wd_open u c)" "silent (wd_requested x u c t)" "silent (wd_settle x u dto c sub rc)"
  "silent (wd_fail c t e)" "silent (wd_checks x u pid dto)"
  unfolding wd_open_def wd_openBody_def wd_requested_def wd_settle_def wd_reverted_def wd_confirmed_def
    wd_confirmBody_def wd_fail_def wd_checks_def wd_position_def Let_def
  by (intro quiet)+

lemma wd_submit_sends:
  "sendsOnly (\<lambda>q. \<exists>d. bc_encodeVaultWithdraw x (wc_vault c) (wc_amountBn c) (w_address (wc_wallet c)) (wc_fullWithdraw c) = Inr d
     \<and> asksFor (wd_sendInput c d) q) (wd_submit x c t)" (is "sendsOnly ?Q _")
proof (cases "bc_encodeVaultWithdraw x (wc_vault c) (wc_amountBn c) (w_address (wc_wallet c)) (wc_fullWithdraw c)")
  case (Inl e)
  then show ?thesis by (simp add: wd_submit_def silent_sendsOnly quiet)
next
  case (Inr d)
  then have "sendsOnly ?Q (privy_sendTransaction x (wd_sendInput c d))"
    by (intro sendsOnly_send) auto
  then show ?thesis unfolding wd_submit_def Inr andThen_lift_Inr
    by (rule sendsOnly_andThen) (intro silent_sendsOnly quiet)
qed

lemma wd_rest_sends:
  "sendsOnly (\<lambda>q. \<exists>d. bc_encodeVaultWithdraw x (wc_vault c) (wc_amountBn c) (w_address (wc_wallet c)) (wc_fullWithdraw c) = Inr d
     \<and> asksFor (wd_sendInput c d) q) (andThen (wd_open u c) (\<lambda>t.
     andThen (wd_requested x u c t) (\<lambda>_. wd_attempt x u dto c t)))"
  unfolding wd_attempt_def
  by (auto intro!: sendsOnly_andThen sendsOnly_catching wd_submit_sends intro: silent_sendsOnly quiet split: prod.split)

lemma withdrawPosition_sends:
  assumes new: "q \<in> set (sent (snd (withdrawPosition x userId positionId dto s)))" "q \<notin> set (sent s)"
  shows "\<exists>c s0 s1 d. wd_checks x userId positionId dto s0 = (Inr c, s1)
     \<and> positions s0 = positions s \<and> vaults s0 = vaults s \<and> wallets s0 = wallets s
     \<and> bc_encodeVaultWithdraw x (wc_vault c) (wc_amountBn c) (w_address (wc_wallet c)) (wc_fullWithdraw c) = Inr d
     \<and> asksFor (wd_sendInput c d) q"
proof -
  obtain r s0 where lim: "assertWithdrawAllowed x userId s = (r, s0)" by force
  have keep: "sent s0 = sent s" using silentD [OF quiet_rateLimit(2) lim] .
  have "ignoresRedis (\<lambda>t. positions t = positions s \<and> vaults t = vaults s \<and> wallets t = wallets s)"
    by (simp add: ignoresRedis_def ignoresOutside_def)
  from preserves_run [OF preserves_rateLimit(2) [OF this] lim]
  have ps: "positions s0 = positions s \<and> vaults s0 = vaults s \<and> wallets s0 = wallets s" by simp
  show ?thesis
  proof (cases r)
    case (Inl e)
    with new lim keep show ?thesis by (simp add: withdrawPosition_def andThen_def)
  next
    case (Inr u)
    obtain r1 s1 where ch: "wd_checks x userId positionId dto s0 = (r1, s1)" by force
    have keep1: "sent s1 = sent s" using silentD [OF quiet_withdraw(5) ch] keep by simp
    show ?thesis
    proof (cases r1)
      case (Inl e)
      with new lim Inr ch keep1 show ?thesis by (simp add: withdrawPosition_def andThen_def)
    next
      case (Inr c)
      with lim \<open>r = Inr u\<close> ch have go: "withdrawPosition x userId positionId dto s =
        andThen (wd_open userId c) (\<lambda>t. andThen (wd_requested x userId c t) (\<lambda>_. wd_attempt x userId dto c t)) s1"
        by (simp add: withdrawPosition_def andThen_Inr)
      have "\<exists>d. bc_encodeVaultWithdraw x (wc_vault c) (wc_amountBn c) (w_address (wc_wallet c)) (wc_fullWithdraw c) = Inr d
          \<and> asksFor (wd_sendInput c d) q"
        by (rule sendsOnlyD [OF wd_rest_sends [of x c userId dto], of q s1]) (use new go keep1 in auto)
      with ch Inr ps show ?thesis by blast
    qed
  qed
qed

text \<open>
  The same over the configuration, the tables and the chain alone.  A full withdrawal asks the pool
  for everything the wallet has there (\<open>maxUint256\<close>), whatever the position holds.
\<close>

lemma withdraw_asks:
  assumes "q \<in> set (sent (snd (withdrawPosition x userId positionId dto s)))" "q \<notin> set (sent s)"
  shows "\<exists>p v cfg d w held k data. find (\<lambda>p. p_id p = positionId) (positions s) = Some p
     \<and> p_userId p = userId \<and> p_status p = P_ACTIVE
     \<and> v \<in> set (vaults s) \<and> v_id v = p_vaultId p
     \<and> c_aave (e_config x) = Some cfg
     \<and> find (\<lambda>d. av_vaultId d = v_slug v \<and> av_isEnabled d \<and> av_chainId d = v_chainId v) (aaveVaults cfg) = Some d
     \<and> av_withdrawEnabled d \<noteq> Some False \<and> chainUsable x (v_chainId v)
     \<and> w \<in> set (wallets s) \<and> w_id w = wdd_walletId dto \<and> w_userId w = userId \<and> w_chainId w = v_chainId v
     \<and> e_balanceOf x k (v_chainId v) (aTokenAddress d) (w_address w) = Inr held
     \<and> (if wdd_fullWithdraw dto = Some True
        then p_shares p \<le> held \<and> e_encode x (WithdrawCall (av_assetAddress d) maxUint256 (w_address w)) = Inr data
        else (\<exists>a n. wdd_amount dto = Some a \<and> bigIntOf a = Some n
           \<and> n \<le> p_currentAmount p \<and> n \<le> p_shares p \<and> n \<le> held
           \<and> e_encode x (WithdrawCall (av_assetAddress d) n (w_address w)) = Inr data))
     \<and> asksFor \<lparr>s_providerWalletId = w_providerId w, s_chainId = v_chainId v, s_to = poolAddress d,
          s_value = Some ''0'', s_data = Some data\<rparr> q"
proof -
  from withdrawPosition_sends [OF assms] obtain c s0 s1 data where run: "wd_checks x userId positionId dto s0 = (Inr c, s1)"
    and same: "positions s0 = positions s" "vaults s0 = vaults s" "wallets s0 = wallets s"
    and enc: "bc_encodeVaultWithdraw x (wc_vault c) (wc_amountBn c) (w_address (wc_wallet c)) (wc_fullWithdraw c) = Inr data"
    and q: "asksFor (wd_sendInput c data) q" by blast
  note f = wd_checks_passed [OF run]
  let ?v = "wc_dbVault c"
  from f(19) obtain t0 t1 where "aave_getVault x (v_slug ?v) (Some (v_chainId ?v)) t0 = (Inr (wc_vault c), t1)" by blast
  then obtain cfg d where cfg: "c_aave (e_config x) = Some cfg"
    and d: "find (\<lambda>d. av_vaultId d = v_slug ?v \<and> av_isEnabled d \<and> av_chainId d = v_chainId ?v) (aaveVaults cfg) = Some d"
    and v: "pv_chainId (wc_vault c) = av_chainId d" "pv_contractAddress (wc_vault c) = poolAddress d"
      "pv_shareTokenAddress (wc_vault c) = aTokenAddress d"
      "pv_assetAddress (wc_vault c) = av_assetAddress d" "pv_withdrawEnabled (wc_vault c) \<longleftrightarrow> av_withdrawEnabled d \<noteq> Some False"
    by (rule getVault_definition) (auto simp: eq_commute [of "v_chainId _"])
  from d have ch: "av_chainId d = v_chainId ?v" by (auto dest: find_Some_iff_first)
  from f(22) obtain k where k: "e_balanceOf x k (v_chainId ?v) (aTokenAddress d) (w_address (wc_wallet c)) = Inr (wc_onChainShares c)"
    unfolding v ch by blast
  have amounts: "if wdd_fullWithdraw dto = Some True
        then p_shares (wc_position c) \<le> wc_onChainShares c
          \<and> e_encode x (WithdrawCall (av_assetAddress d) maxUint256 (w_address (wc_wallet c))) = Inr data
        else (\<exists>a n. wdd_amount dto = Some a \<and> bigIntOf a = Some n
           \<and> n \<le> p_currentAmount (wc_position c) \<and> n \<le> p_shares (wc_position c) \<and> n \<le> wc_onChainShares c
           \<and> e_encode x (WithdrawCall (av_assetAddress d) n (w_address (wc_wallet c))) = Inr data)"
    using f(4-8,10,18) enc v by (auto simp: bc_encodeVaultWithdraw_def split: if_splits)
  show ?thesis
    by (rule exI [of _ "wc_position c"], rule exI [of _ ?v], rule exI [of _ cfg], rule exI [of _ d],
        rule exI [of _ "wc_wallet c"], rule exI [of _ "wc_onChainShares c"], rule exI [of _ k], rule exI [of _ data])
       (use cfg d f(1-3,11,12,14-17,20,21) k amounts v ch q same in \<open>simp add: wd_sendInput_def\<close>)
qed

end
