(* ===== verification/Approval.thy ===== *)
theory Approval
  imports Sending
begin

text \<open>
  \<^verbatim>\<open>src/earn/services/earn-approval.service.ts\<close>: \<open>approveVault\<close>, which sets the token allowance a
  deposit needs: the checks (\<open>ap_checks\<close>), the branch with enough allowance (\<open>ap_skip\<close>), the \<open>try\<close>
  block (\<open>ap_submit\<close>, \<open>ap_settle\<close>), the \<open>catch\<close> block (\<open>ap_fail\<close>) and the response.

  The facts: with enough allowance nothing is sent; what is sent asks for the approval of the
  amount; the invariants are kept.  A failure to read the allowance back after the approval was
  confirmed turns the confirmed transaction into a failed one (\<open>approval_overwritten\<close> of \<open>Scenarios\<close>).
\<close>

section \<open>The service\<close>

record approve_dto =
  ad_walletId :: uuid
  ad_amount :: string

record approve_response =
  ar_vaultId :: string
  ar_chainId :: int
  ar_walletId :: uuid
  ar_amount :: string
  ar_allowance :: string
  ar_requiresApproval :: bool
  ar_status :: transaction_status
  ar_transactionId :: uuid
  ar_txHash :: "string option"
  ar_blockNumber :: "string option"
  ar_explorerUrl :: "string option"

record approve_context =
  ac_amount :: int
  ac_vault :: protocol_vault
  ac_wallet :: wallet
  ac_allowance :: int

definition ap_readAllowance :: "env \<Rightarrow> protocol_vault \<Rightarrow> wallet \<Rightarrow> int io" where
  "ap_readAllowance x vault wallet =
     bc_readErc20Allowance x (pv_chainId vault) (w_address wallet) (pv_assetAddress vault) (pv_contractAddress vault)"

definition ap_checks :: "env \<Rightarrow> uuid \<Rightarrow> string \<Rightarrow> approve_dto \<Rightarrow> approve_context io" where
  "ap_checks x userId vaultId dto =
     andThen (lift (bigInt (ad_amount dto))) (\<lambda>amount.
     andThen (aave_getVault x vaultId None) (\<lambda>vault.
     andThen (val_assertDepositEnabled vault) (\<lambda>_.
     andThen (val_assertChainMatchesEnvironment x (pv_chainId vault)) (\<lambda>_.
     andThen (val_assertRpcBelongsToChain x (pv_chainId vault)) (\<lambda>_.
     andThen (val_assertVaultBelongsToChain vault (pv_chainId vault)) (\<lambda>_.
     andThen (val_assertWalletBelongsToUser userId (ad_walletId dto)) (\<lambda>wallet.
     andThen (val_assertWalletChainMatchesVault wallet vault) (\<lambda>_.
     andThen (require (pv_assetAddress vault \<noteq> ''native'')
                (badRequest ''Native assets do not require ERC-20 approval'')) (\<lambda>_.
     andThen (ap_readAllowance x vault wallet) (\<lambda>allowance.
     ret \<lparr>ac_amount = amount, ac_vault = vault, ac_wallet = wallet, ac_allowance = allowance\<rparr>))))))))))"

definition ap_toResponse ::
    "env \<Rightarrow> approve_dto \<Rightarrow> protocol_vault \<Rightarrow> int \<Rightarrow> bool \<Rightarrow> transaction_record \<Rightarrow> approve_response" where
  "ap_toResponse x dto vault allowance requiresApproval transaction =
     \<lparr>ar_vaultId = pv_vaultId vault, ar_chainId = pv_chainId vault, ar_walletId = ad_walletId dto,
      ar_amount = ad_amount dto, ar_allowance = showInt allowance, ar_requiresApproval = requiresApproval,
      ar_status = tr_status transaction, ar_transactionId = tr_transactionId transaction,
      ar_txHash = tr_txHash transaction, ar_blockNumber = tr_blockNumber transaction,
      ar_explorerUrl = explorer_forTransaction x (pv_chainId vault) (tr_txHash transaction)\<rparr>"

definition ap_transactionInput :: "uuid \<Rightarrow> approve_dto \<Rightarrow> approve_context \<Rightarrow> metadata \<Rightarrow> create_transaction_input" where
  "ap_transactionInput userId dto c extra =
     \<lparr>ct_userId = userId, ct_walletId = w_id (ac_wallet c), ct_chainId = pv_chainId (ac_vault c),
      ct_type = APPROVAL, ct_amount = ad_amount dto, ct_vaultId = None, ct_positionId = None,
      ct_metadata = Some ([(''vaultId'', JStr (pv_vaultId (ac_vault c))),
        (''assetAddress'', JStr (pv_assetAddress (ac_vault c))),
        (''spenderAddress'', JStr (pv_contractAddress (ac_vault c)))] @ extra)\<rparr>"

text \<open>Enough allowance: a transaction row that is confirmed at once, at block 0.\<close>

definition ap_skip :: "env \<Rightarrow> uuid \<Rightarrow> approve_dto \<Rightarrow> approve_context \<Rightarrow> approve_response io" where
  "ap_skip x userId dto c =
     andThen (tx_createTransaction (ap_transactionInput userId dto c
                [(''skipped'', JBool True), (''reason'', JStr ''SUFFICIENT_ALLOWANCE'')])) (\<lambda>transaction.
     andThen (tx_markConfirmed (tr_transactionId transaction) 0
                (Some [(''allowance'', JStr (showInt (ac_allowance c))), (''requiresApproval'', JBool False)])) (\<lambda>confirmed.
     andThen (auditLog x \<lparr>al_userId = Some userId, al_action = APPROVAL_CONFIRMED, al_entityType = ''transaction'',
                al_entityId = tr_transactionId confirmed,
                al_metadata = Some [(''vaultId'', JStr (pv_vaultId (ac_vault c))), (''skipped'', JBool True)]\<rparr>) (\<lambda>_.
       ret (ap_toResponse x dto (ac_vault c) (ac_allowance c) False confirmed))))"

definition ap_sendInput :: "approve_context \<Rightarrow> string \<Rightarrow> send_transaction_input" where
  "ap_sendInput c approveData =
     \<lparr>s_providerWalletId = w_providerId (ac_wallet c), s_chainId = pv_chainId (ac_vault c),
      s_to = pv_assetAddress (ac_vault c), s_value = Some ''0'', s_data = Some approveData\<rparr>"

definition ap_submittedMetadata :: "approve_context \<Rightarrow> broadcast \<Rightarrow> metadata" where
  "ap_submittedMetadata c broadcast =
     optField ''privyTransactionId'' (map_option JStr (b_transactionId broadcast))
     @ [(''allowanceBefore'', JStr (showInt (ac_allowance c)))]"

definition ap_submit :: "env \<Rightarrow> approve_context \<Rightarrow> transaction_record \<Rightarrow> (transaction_record \<times> receipt) io" where
  "ap_submit x c transaction =
     andThen (lift (bc_encodeErc20Approve x (pv_contractAddress (ac_vault c)) (ac_amount c))) (\<lambda>approveData.
     andThen (privy_sendTransaction x (ap_sendInput c approveData)) (\<lambda>broadcast.
     andThen (tx_markSubmitted (tr_transactionId transaction) (b_hash broadcast)
                (Some (ap_submittedMetadata c broadcast))) (\<lambda>submitted.
     andThen (bc_waitForTransactionReceipt x (pv_chainId (ac_vault c)) (b_hash broadcast)) (\<lambda>receipt.
       ret (submitted, receipt)))))"

definition ap_receiptMetadata :: "approve_context \<Rightarrow> receipt \<Rightarrow> metadata" where
  "ap_receiptMetadata c receipt =
     [(''gasUsed'', JStr (showInt (rc_gasUsed receipt))), (''allowanceBefore'', JStr (showInt (ac_allowance c)))]"

definition ap_finalRecord :: "approve_context \<Rightarrow> transaction_record \<Rightarrow> receipt \<Rightarrow> transaction_record io" where
  "ap_finalRecord c submitted receipt =
     (if rc_status receipt = Success
      then andThen (tx_confirmSubmitted (tr_transactionId submitted) (rc_blockNumber receipt)
                      (Some (ap_receiptMetadata c receipt))) (\<lambda>(applied, transaction). ret transaction)
      else tx_markReverted (tr_transactionId submitted) (rc_blockNumber receipt) (Some (ap_receiptMetadata c receipt)))"

definition ap_settle ::
    "env \<Rightarrow> uuid \<Rightarrow> approve_dto \<Rightarrow> approve_context \<Rightarrow> transaction_record \<Rightarrow> receipt \<Rightarrow> approve_response io" where
  "ap_settle x userId dto c submitted receipt =
     andThen (ap_finalRecord c submitted receipt) (\<lambda>finalRecord.
     andThen (ap_readAllowance x (ac_vault c) (ac_wallet c)) (\<lambda>updatedAllowance.
     andThen (whenE (tr_status finalRecord = T_CONFIRMED)
                (auditLog x \<lparr>al_userId = Some userId, al_action = APPROVAL_CONFIRMED, al_entityType = ''transaction'',
                   al_entityId = tr_transactionId finalRecord,
                   al_metadata = Some [(''vaultId'', JStr (pv_vaultId (ac_vault c))),
                     (''txHash'', case tr_txHash finalRecord of Some h \<Rightarrow> JStr h | None \<Rightarrow> JNull)]\<rparr>)) (\<lambda>_.
       ret (ap_toResponse x dto (ac_vault c) updatedAllowance (updatedAllowance < ac_amount c) finalRecord))))"

definition ap_fail :: "approve_context \<Rightarrow> transaction_record \<Rightarrow> exn \<Rightarrow> 'a io" where
  "ap_fail c transaction e =
     andThen (tx_markFailed (tr_transactionId transaction)
                (Some [(''error'', JStr (errorMessage e)), (''allowanceBefore'', JStr (showInt (ac_allowance c)))])) (\<lambda>_.
       throw e)"

definition ap_attempt ::
    "env \<Rightarrow> uuid \<Rightarrow> approve_dto \<Rightarrow> approve_context \<Rightarrow> transaction_record \<Rightarrow> approve_response io" where
  "ap_attempt x userId dto c transaction =
     catching
       (andThen (ap_submit x c transaction) (\<lambda>(submitted, receipt). ap_settle x userId dto c submitted receipt))
       (ap_fail c transaction)"

definition ap_request :: "env \<Rightarrow> uuid \<Rightarrow> approve_dto \<Rightarrow> approve_context \<Rightarrow> approve_response io" where
  "ap_request x userId dto c =
     andThen (tx_createTransaction (ap_transactionInput userId dto c
                [(''allowanceBefore'', JStr (showInt (ac_allowance c)))])) (\<lambda>transaction.
     andThen (auditLog x \<lparr>al_userId = Some userId, al_action = APPROVAL_REQUESTED, al_entityType = ''transaction'',
                al_entityId = tr_transactionId transaction,
                al_metadata = Some [(''vaultId'', JStr (pv_vaultId (ac_vault c))), (''amount'', JStr (ad_amount dto))]\<rparr>) (\<lambda>_.
       ap_attempt x userId dto c transaction))"

definition approveVault :: "env \<Rightarrow> uuid \<Rightarrow> string \<Rightarrow> approve_dto \<Rightarrow> approve_response io" where
  "approveVault x userId vaultId dto =
     andThen (ap_checks x userId vaultId dto) (\<lambda>c.
       if \<not> ac_allowance c < ac_amount c then ap_skip x userId dto c else ap_request x userId dto c)"

section \<open>The checks\<close>

lemma preserves_ap_checks: "ignoresOutside I \<Longrightarrow> preserves I (ap_checks x u v dto)"
  unfolding ap_checks_def ap_readAllowance_def by (intro pres aave.reads_only) auto

lemma ap_checks_passed:
  assumes "ap_checks x userId vaultId dto s = (Inr c, s')"
  shows "bigIntOf (ad_amount dto) = Some (ac_amount c)" "pv_vaultId (ac_vault c) = vaultId"
    "pv_assetAddress (ac_vault c) \<noteq> ''native''" "chainUsable x (pv_chainId (ac_vault c))"
    "w_userId (ac_wallet c) = userId" "w_id (ac_wallet c) = ad_walletId dto"
    "w_chainId (ac_wallet c) = pv_chainId (ac_vault c)"
    "\<exists>k. e_allowance x k (pv_chainId (ac_vault c)) (pv_assetAddress (ac_vault c)) (w_address (ac_wallet c))
           (pv_contractAddress (ac_vault c)) = Inr (ac_allowance c)"
proof -
  from assms obtain n v s1 s2 s3 s4 w s5 al s6 where
    n: "bigIntOf (ad_amount dto) = Some n" and v: "aave_getVault x vaultId None s = (Inr v, s1)"
    and c1: "val_assertChainMatchesEnvironment x (pv_chainId v) s2 = (Inr (), s3)"
    and c2: "val_assertRpcBelongsToChain x (pv_chainId v) s3 = (Inr (), s4)"
    and w: "val_assertWalletBelongsToUser userId (ad_walletId dto) s4 = (Inr w, s5)"
    and wc: "w_chainId w = pv_chainId v" and nat: "pv_assetAddress v \<noteq> ''native''"
    and a: "ap_readAllowance x v w s5 = (Inr al, s6)"
    and c: "c = \<lparr>ac_amount = n, ac_vault = v, ac_wallet = w, ac_allowance = al\<rparr>"
    unfolding ap_checks_def val_assertVaultBelongsToChain_def val_assertWalletChainMatchesVault_def
    by (elim andThen_InrE) simp
  show "bigIntOf (ad_amount dto) = Some (ac_amount c)" "pv_assetAddress (ac_vault c) \<noteq> ''native''"
    "w_chainId (ac_wallet c) = pv_chainId (ac_vault c)" using n nat wc c by simp_all
  show "pv_vaultId (ac_vault c) = vaultId" using aave.asked_for [OF v] c by simp
  show "chainUsable x (pv_chainId (ac_vault c))" using chainUsable_checks [OF c1 c2] c by simp
  show "w_userId (ac_wallet c) = userId" "w_id (ac_wallet c) = ad_walletId dto" using findOwnedWallet_Inr [OF w] c by simp_all
  show "\<exists>k. e_allowance x k (pv_chainId (ac_vault c)) (pv_assetAddress (ac_vault c)) (w_address (ac_wallet c))
           (pv_contractAddress (ac_vault c)) = Inr (ac_allowance c)"
    using a c by (auto simp: ap_readAllowance_def bc_readErc20Allowance_def dest: viaClient_Inr)
qed

section \<open>What an approval sends\<close>

definition approveRequest :: "env \<Rightarrow> approve_context \<Rightarrow> sent_request \<Rightarrow> bool" where
  "approveRequest x c q \<longleftrightarrow>
     (\<exists>d. bc_encodeErc20Approve x (pv_contractAddress (ac_vault c)) (ac_amount c) = Inr d \<and> asksFor (ap_sendInput c d) q)"

lemma quiet_approval [quiet]:
  "silent (ap_checks x u v dto)" "silent (ap_skip x u dto c)" "silent (ap_settle x u dto c sub rc)" "silent (ap_fail c t e)"
  unfolding ap_checks_def ap_readAllowance_def ap_skip_def ap_settle_def ap_finalRecord_def ap_fail_def
  by (intro quiet)+

lemma ap_submit_sends: "sendsOnly (approveRequest x c) (ap_submit x c t)"
proof (cases "bc_encodeErc20Approve x (pv_contractAddress (ac_vault c)) (ac_amount c)")
  case (Inl e)
  then show ?thesis by (simp add: ap_submit_def silent_sendsOnly quiet)
next
  case (Inr d)
  then have "sendsOnly (approveRequest x c) (privy_sendTransaction x (ap_sendInput c d))"
    by (intro sendsOnly_send) (auto simp: approveRequest_def)
  then show ?thesis unfolding ap_submit_def Inr andThen_lift_Inr
    by (rule sendsOnly_andThen) (intro silent_sendsOnly quiet)
qed

lemma ap_request_sends: "sendsOnly (approveRequest x c) (ap_request x u dto c)"
  unfolding ap_request_def ap_attempt_def
  by (auto intro!: sendsOnly_andThen sendsOnly_catching ap_submit_sends intro: silent_sendsOnly quiet split: prod.split)

lemma approveVault_sends:
  assumes new: "q \<in> set (sent (snd (approveVault x userId vaultId dto s)))" "q \<notin> set (sent s)"
  shows "\<exists>c s1. ap_checks x userId vaultId dto s = (Inr c, s1) \<and> ac_allowance c < ac_amount c \<and> approveRequest x c q"
proof -
  obtain r s1 where ch: "ap_checks x userId vaultId dto s = (r, s1)" by force
  have keep: "sent s1 = sent s" using silentD [OF quiet_approval(1) ch] .
  show ?thesis
  proof (cases r)
    case (Inl e)
    with new ch keep show ?thesis by (simp add: approveVault_def andThen_def)
  next
    case (Inr c)
    show ?thesis
    proof (cases "ac_allowance c < ac_amount c")
      case False
      then have "approveVault x userId vaultId dto s = ap_skip x userId dto c s1"
        using ch Inr by (simp add: approveVault_def andThen_def)
      with new keep quiet_approval(2) [of x userId dto c] show ?thesis by (simp add: silent_def)
    next
      case True
      then have "approveVault x userId vaultId dto s = ap_request x userId dto c s1"
        using ch Inr by (simp add: approveVault_def andThen_def)
      with new keep sendsOnlyD [OF ap_request_sends [of x c userId dto], of q s1] ch Inr True show ?thesis by auto
    qed
  qed
qed

section \<open>The invariants\<close>

text \<open>An approval that is open, or closed with the tables in order.\<close>

abbreviation approving :: "(uuid \<Rightarrow> int) \<Rightarrow> uuid set \<Rightarrow> int \<Rightarrow> transaction_record \<Rightarrow> bool \<Rightarrow> world \<Rightarrow> bool" where
  "approving sk S n t sub \<equiv> working sk S (tr_transactionId t) APPROVAL n None (\<lambda>_. True) sub"

abbreviation approvalEnd :: "(uuid \<Rightarrow> int) \<Rightarrow> uuid set \<Rightarrow> int \<Rightarrow> transaction_record \<Rightarrow> world \<Rightarrow> bool" where
  "approvalEnd sk S n t s \<equiv> base sk S s \<and> knownTx (tr_transactionId t) APPROVAL n s"

lemma ap_create_triple:
  assumes "bigIntOf (ad_amount dto) = Some n" "0 \<le> n"
  shows "triple (base sk S) (tx_createTransaction (ap_transactionInput userId dto c extra))
           (\<lambda>t. approving sk S n t False) (\<lambda>_. base sk S)"
proof -
  let ?in = "ap_transactionInput userId dto c extra"
  have "triple (\<lambda>s. base sk S s \<and> (\<forall>q. ct_positionId ?in = Some q \<longrightarrow>
             (\<exists>p. find (\<lambda>p. p_id p = q) (positions s) = Some p \<and> True)))
           (tx_createTransaction ?in)
           (\<lambda>r. working sk S (tr_transactionId r) (ct_type ?in) n (ct_positionId ?in) (\<lambda>_. True) False) (\<lambda>_. base sk S)"
    by (rule book_create) (use assms in \<open>simp_all add: ap_transactionInput_def metadataGood_def\<close>)
  then show ?thesis by (rule triple_conseq) (simp_all add: ap_transactionInput_def)
qed

lemma ap_fail_triple:
  "triple (\<lambda>s. approving sk S n t False s \<or> approvalEnd sk S n t s) (ap_fail c t e) (\<lambda>_. base sk S) (\<lambda>_. base sk S)"
  unfolding ap_fail_def
proof (rule triple_andThen [where R = "\<lambda>_. base sk S"])
  show "triple (\<lambda>s. approving sk S n t False s \<or> approvalEnd sk S n t s) (tx_markFailed (tr_transactionId t) m)
      (\<lambda>_. base sk S) (\<lambda>_. base sk S)" for m
  proof -
    have "base sk S (snd (tx_markFailed (tr_transactionId t) m s))"
      if "approving sk S n t False s \<or> approvalEnd sk S n t s" for s
      using that
    proof
      assume "approving sk S n t False s"
      then show ?thesis by (auto simp: working_def tx_markFailed_def isOpen_def intro!: approval_row_close)
    next
      assume "approvalEnd sk S n t s"
      then show ?thesis by (auto simp: tx_markFailed_def isOpen_def intro!: approval_close)
    qed
    then show ?thesis by (auto simp: triple_def split: prod.splits sum.splits) (metis snd_conv)+
  qed
  show "triple (base sk S) (throw e) (\<lambda>_. base sk S) (\<lambda>_. base sk S)" by (simp add: triple_def)
qed

lemma ap_confirm_row_triple:
  "triple (approving sk S n t False) (tx_markConfirmed (tr_transactionId t) b m) (\<lambda>_. base sk S) (\<lambda>_. base sk S)"
proof -
  have "base sk S (snd (tx_markConfirmed (tr_transactionId t) b m s))" if "approving sk S n t False s" for s
    using that by (auto simp: working_def tx_markConfirmed_def isOpen_def intro!: approval_row_close)
  then show ?thesis by (auto simp: triple_def split: prod.splits sum.splits) (metis snd_conv)+
qed

lemma ap_submit_triple:
  "triple (approving sk S n t False) (ap_submit x c t)
     (\<lambda>(submitted, receipt) s. approving sk S n t True s \<and> tr_transactionId submitted = tr_transactionId t)
     (\<lambda>_. approving sk S n t False)"
  unfolding ap_submit_def
proof (intro triple_andThen)
  let ?w = "approving sk S n t"
  show "triple (?w False) (lift r) (\<lambda>_. ?w False) (\<lambda>_. ?w False)" for r :: "string res"
    by (intro triple_preserves pres)
  show "triple (?w False) (privy_sendTransaction x i) (\<lambda>_. ?w False) (\<lambda>_. ?w False)" for i
    by (intro triple_preserves privy.writes_outside) simp
  show "triple (?w False) (tx_markSubmitted (tr_transactionId t) (b_hash b) (Some (ap_submittedMetadata c b)))
      (\<lambda>r s. ?w True s \<and> tr_transactionId r = tr_transactionId t) (\<lambda>_. ?w False)" for b
    by (rule book_markSubmitted) (simp add: metadataGood_def)
  let ?sub = "\<lambda>r s. ?w True s \<and> tr_transactionId r = tr_transactionId t"
  have out: "ignoresOutside (?sub r)" for r by (cases "tr_transactionId r = tr_transactionId t") (simp_all add: ignoresOutside_def [of "\<lambda>_. False"])
  show "triple (?sub r) (bc_waitForTransactionReceipt x (pv_chainId (ac_vault c)) h) (\<lambda>_. ?sub r) (\<lambda>_. ?w False)" for r h
    by (rule triple_frame [OF preserves_bc(4) [OF out]]) (auto intro: working_weaken)
  show "triple (?sub r) (ret (r, receipt))
      (\<lambda>(submitted, receipt) s. ?w True s \<and> tr_transactionId submitted = tr_transactionId t) (\<lambda>_. ?w False)" for r receipt
    by (simp add: triple_def)
qed

lemma ap_finalRecord_triple:
  assumes id: "tr_transactionId submitted = tr_transactionId t"
  shows "triple (approving sk S n t True) (ap_finalRecord c submitted receipt) (\<lambda>_. approvalEnd sk S n t) E"
proof -
  let ?K = "knownTx (tr_transactionId t) APPROVAL n"
  have conf: "triple (approving sk S n t True) (tx_confirmSubmitted (tr_transactionId t) b m)
      (\<lambda>_. approvalEnd sk S n t) E'" for b m E'
    by (rule triple_conseq [OF triple_and [OF book_confirmSubmitted [where pid = 0 and E = "\<lambda>_ _. False"] pres_confirmSubmitted(2) [of "tr_transactionId t" APPROVAL n]]])
       (auto intro: working_known dest: lagging_zero)
  have rev: "triple (approving sk S n t True) (tx_markReverted (tr_transactionId t) b m) (\<lambda>_. approvalEnd sk S n t) E" for b m
    by (rule triple_conseq [OF triple_and [OF book_marks_base(2) [where E = "\<lambda>_ _. False"] known_tx(2) [of "tr_transactionId t" APPROVAL n]]])
       (auto intro: working_known)
  show ?thesis unfolding ap_finalRecord_def id
  proof (rule triple_if)
    show "triple (approving sk S n t True) (andThen (tx_confirmSubmitted (tr_transactionId t) (rc_blockNumber receipt)
        (Some (ap_receiptMetadata c receipt))) (\<lambda>(applied, transaction). ret transaction)) (\<lambda>_. approvalEnd sk S n t) E"
      by (rule triple_andThen [OF conf]) (auto simp: triple_def)
  qed (rule rev)
qed

lemma ap_settle_triple:
  assumes id: "tr_transactionId submitted = tr_transactionId t"
  shows "triple (approving sk S n t True) (ap_settle x u dto c submitted receipt) (\<lambda>_. base sk S) (\<lambda>_. approvalEnd sk S n t)"
  unfolding ap_settle_def
proof (intro triple_andThen)
  show "triple (approving sk S n t True) (ap_finalRecord c submitted receipt) (\<lambda>_. approvalEnd sk S n t) (\<lambda>_. approvalEnd sk S n t)"
    by (rule ap_finalRecord_triple [OF id])
  have out: "ignoresOutside (approvalEnd sk S n t)"
    using ignoresOutside_base(1) [of sk S] ignoresOutside_invs(4) [of "tr_transactionId t" APPROVAL n]
    by (simp add: ignoresOutside_def)
  show "triple (approvalEnd sk S n t) (ap_readAllowance x (ac_vault c) (ac_wallet c)) (\<lambda>_. approvalEnd sk S n t) (\<lambda>_. approvalEnd sk S n t)"
    unfolding ap_readAllowance_def by (intro triple_preserves pres out)
  show "triple (approvalEnd sk S n t) (whenE b (auditLog x a)) (\<lambda>_. approvalEnd sk S n t) (\<lambda>_. approvalEnd sk S n t)" for a b
    by (intro triple_preserves pres out)
  show "triple (approvalEnd sk S n t) (ret r) (\<lambda>_. base sk S) (\<lambda>_. approvalEnd sk S n t)" for r
    by (simp add: triple_def)
qed

lemma ap_attempt_triple:
  "triple (approving sk S n t False) (ap_attempt x u dto c t) (\<lambda>_. base sk S) (\<lambda>_. base sk S)"
  unfolding ap_attempt_def
proof (rule triple_catching [OF _ ap_fail_triple])
  let ?E = "\<lambda>_ s. approving sk S n t False s \<or> approvalEnd sk S n t s"
  let ?R = "\<lambda>(submitted, receipt) s. approving sk S n t True s \<and> tr_transactionId submitted = tr_transactionId t"
  have settle: "triple (?R r) ((\<lambda>(submitted, receipt). ap_settle x u dto c submitted receipt) r) (\<lambda>_. base sk S) ?E" for r
  proof (cases r)
    case (Pair submitted receipt)
    have "triple (approving sk S n t True) (ap_settle x u dto c submitted receipt) (\<lambda>_. base sk S) ?E"
      if "tr_transactionId submitted = tr_transactionId t"
      by (rule triple_conseq [OF ap_settle_triple [OF that]]) auto
    then show ?thesis using Pair by (auto simp: triple_def)
  qed
  show "triple (approving sk S n t False) (andThen (ap_submit x c t) (\<lambda>(submitted, receipt). ap_settle x u dto c submitted receipt))
     (\<lambda>_. base sk S) ?E"
    by (rule triple_andThen [where R = ?R, OF triple_conseq [OF ap_submit_triple [where S = S and n = n]] settle]) auto
qed

text \<open>Whichever way an approval ends, it keeps the invariants and the ledger and leaves nothing open.\<close>

lemma approveVault_keeps:
  assumes n: "bigIntOf (ad_amount dto) = Some n" "0 \<le> n"
  shows "triple (base sk S) (approveVault x userId vaultId dto) (\<lambda>_. base sk S) (\<lambda>_. base sk S)"
  unfolding approveVault_def
proof (rule triple_andThen [where R = "\<lambda>_. base sk S"])
  show "triple (base sk S) (ap_checks x userId vaultId dto) (\<lambda>_. base sk S) (\<lambda>_. base sk S)"
    by (intro triple_preserves preserves_ap_checks) simp
  fix c
  have skip: "triple (base sk S) (ap_skip x userId dto c) (\<lambda>_. base sk S) (\<lambda>_. base sk S)"
    unfolding ap_skip_def
    by (rule triple_andThen [OF ap_create_triple [OF n]], rule triple_andThen [OF ap_confirm_row_triple],
        rule triple_andThen [OF triple_auditLog [OF ignoresOutside_base(1)]]) (simp add: triple_def)
  have request: "triple (base sk S) (ap_request x userId dto c) (\<lambda>_. base sk S) (\<lambda>_. base sk S)"
    unfolding ap_request_def
    by (rule triple_andThen [OF ap_create_triple [OF n]],
        rule triple_andThen [OF triple_auditLog [OF ignoresOutside_base(2)]], rule ap_attempt_triple)
  show "triple (base sk S) (if \<not> ac_allowance c < ac_amount c then ap_skip x userId dto c else ap_request x userId dto c)
      (\<lambda>_. base sk S) (\<lambda>_. base sk S)"
    using skip request by simp
qed

end
