(* ===== verification/Frames.thy ===== *)
theory Frames
  imports Deposit Withdraw Approval Reconcile
begin

text \<open>
  What the handlers and the reconciliation job do to a predicate that speaks of neither the
  position nor the transaction table: nothing, save that a handler may create or refresh the
  vault's row (\<open>earnFrame_handlers\<close>).  So an invariant of the users, the wallets, the idempotency
  keys or the vaults goes through them.
\<close>

definition earnFrame :: "(world \<Rightarrow> bool) \<Rightarrow> bool" where
  "earnFrame I \<longleftrightarrow> ignoresOutside I \<and> ignoresRedis I
     \<and> (\<forall>s ps. I s \<longrightarrow> I (s\<lparr>positions := ps\<rparr>)) \<and> (\<forall>s ts. I s \<longrightarrow> I (s\<lparr>transactions := ts\<rparr>))
     \<and> (\<forall>s n. nextId s \<le> n \<longrightarrow> I s \<longrightarrow> I (s\<lparr>nextId := n\<rparr>))"

named_theorems frame "operations of the earn components preserve an earn frame"

lemma earnFrameD [frame]: "earnFrame I \<Longrightarrow> ignoresOutside I" "earnFrame I \<Longrightarrow> ignoresRedis I"
  by (simp_all add: earnFrame_def)

lemma frame_updates [frame]:
  assumes "earnFrame I"
  shows "preserves I (positionUpdate j f)" "preserves I (transactionUpdate j g)"
  using assms
  by (auto simp: preserves_def positionUpdate_def transactionUpdate_def tableUpdate_def put_defs Let_def earnFrame_def
      split: option.splits sum.splits)

lemma frame_creates [frame]:
  assumes I: "earnFrame I"
  shows "preserves I (posRepo_create ci)" "preserves I (txRepo_create ti)"
proof -
  have p: "I (s\<lparr>positions := ps, nextId := Suc (nextId s)\<rparr>)" if "I s" for s ps
  proof -
    have "I (s\<lparr>positions := ps\<rparr>)" using I that by (simp add: earnFrame_def)
    moreover have "nextId (s\<lparr>positions := ps\<rparr>) \<le> Suc (nextId s)" by simp
    ultimately show ?thesis using I unfolding earnFrame_def by blast
  qed
  have t: "I (s\<lparr>transactions := ts, nextId := Suc (nextId s)\<rparr>)" if "I s" for s ts
  proof -
    have "I (s\<lparr>transactions := ts\<rparr>)" using I that by (simp add: earnFrame_def)
    moreover have "nextId (s\<lparr>transactions := ts\<rparr>) \<le> Suc (nextId s)" by simp
    ultimately show ?thesis using I unfolding earnFrame_def by blast
  qed
  show "preserves I (posRepo_create ci)" "preserves I (txRepo_create ti)"
    by (auto simp: preserves_def posRepo_create_def txRepo_create_def Let_def p t split: sum.split)
qed

lemma frame_positions [frame]:
  assumes "earnFrame I"
  shows "preserves I (pos_markFailed j)" "preserves I (pos_markActive j)" "preserves I (pos_markWithdrawing j)"
    "preserves I (pos_createPending u v)" "preserves I (pos_activate j d)" "preserves I (pos_addDeposit j d)"
    "preserves I (pos_subtractWithdraw j w)"
  unfolding pos_ops posRepo_activate_def posRepo_addDeposit_def posRepo_subtractWithdraw_def
    posRepo_findById_def posRepo_markWithdrawing_def posRepo_markActive_def posRepo_markFailed_def Let_def
  by (intro pres frame assms)+

lemma frame_transactions [frame]:
  assumes I: "earnFrame I"
  shows "preserves I (tx_markFailed j m)" "preserves I (tx_markReverted j b m)" "preserves I (tx_markConfirmed j b m)"
    "preserves I (tx_markSubmitted j h m)" "preserves I (tx_createTransaction ti)"
    "preserves I (tx_confirmSubmitted j b m)"
proof -
  have upd: "preserves I (txRepo_updateStatus j d)" for d
    unfolding txRepo_updateStatus_def by (intro frame I)
  show "preserves I (tx_markFailed j m)" "preserves I (tx_markReverted j b m)" "preserves I (tx_markConfirmed j b m)"
    "preserves I (tx_markSubmitted j h m)" unfolding tx_marks by (intro preserves_asTxRecord upd)+
  show "preserves I (tx_createTransaction ti)"
    unfolding tx_createTransaction_def by (intro preserves_asTxRecord frame I)
  have "preserves I (txRepo_confirmSubmitted j b m)"
  proof (rule preservesI)
    fix s assume "I s"
    obtain f where "snd (txRepo_confirmSubmitted j b m s) = snd (transactionUpdate j f s)"
      using confirmSubmitted_as_update by blast
    then show "I (snd (txRepo_confirmSubmitted j b m s))"
      using preservesD [OF frame_updates(2) [OF I] \<open>I s\<close>] by simp
  qed
  then show "preserves I (tx_confirmSubmitted j b m)" unfolding tx_confirmSubmitted_def by (intro pres)
qed

lemma frame_outside [frame]:
  assumes "earnFrame I"
  shows "preserves I (privy_sendTransaction x input)" "preserves I (aave_getVault x v c)"
    "preserves I (dep_checks x u vid dto)" "preserves I (wd_checks x u pid wdto)" "preserves I (ap_checks x u v' adto)"
  by (intro privy.writes_outside aave.reads_only preserves_dep_checks preserves_wd_checks preserves_ap_checks
      earnFrameD assms)+

lemma frame_deposit:
  assumes "earnFrame I" and "\<And>pv. preserves I (vaultRepo_findOrCreate pv)"
  shows "preserves I (depositVault x u v dto)"
  unfolding depositVault_def dep_open_def dep_assertNoDuplicateDeposit_def dep_openBody_def dep_requested_def
    dep_attempt_def dep_submit_def dep_settle_def dep_reverted_def dep_confirmed_def dep_confirmBody_def dep_fail_def
    Let_def
  by (intro pres frame assms)

lemma frame_withdraw:
  assumes "earnFrame I"
  shows "preserves I (withdrawPosition x u pid dto)"
  unfolding withdrawPosition_def wd_open_def wd_openBody_def wd_requested_def wd_attempt_def wd_submit_def wd_settle_def
    wd_reverted_def wd_confirmed_def wd_confirmBody_def wd_fail_def Let_def
  by (intro pres frame assms)

lemma frame_approve:
  assumes "earnFrame I" and "\<And>pv. preserves I (vaultRepo_findOrCreate pv)"
  shows "preserves I (approveVault x u v dto)"
  unfolding approveVault_def ap_skip_def ap_request_def ap_attempt_def ap_submit_def ap_settle_def ap_finalRecord_def
    ap_readAllowance_def ap_fail_def Let_def
  by (intro pres frame assms)

lemma frame_rec_one [frame]:
  assumes "earnFrame I"
  shows "preserves I (rec_reconcileTransaction x r)"
  unfolding rec_reconcileTransaction_def rec_handleConfirmedTransaction_def rec_bodies rec_logConfirmedAudit_def Let_def
  by (intro pres frame assms)

lemma frame_rec_loops [frame]:
  assumes "earnFrame I"
  shows "preserves I (rec_pendingLoop x summary rs)" "preserves I (rec_staleLoop summary rs')"
proof -
  show "preserves I (rec_pendingLoop x summary rs)"
    using assms by (induction rs arbitrary: summary) (auto simp: Let_def intro!: pres frame)
  show "preserves I (rec_staleLoop summary rs')"
    using assms by (induction rs' arbitrary: summary) (auto intro!: pres frame)
qed

lemma frame_reconcile:
  assumes "earnFrame I"
  shows "preserves I (reconcilePendingTransactions x jobId)"
  unfolding reconcilePendingTransactions_def rec_runReconciliation_def rec_reconcileStaleCreated_def
  by (intro pres frame assms)

section \<open>The tables that are framed\<close>

lemma earnFrame_accounts:
  "earnFrame (\<lambda>s. J (users s) (wallets s) (idempotencyKeys s))"
  by (simp add: earnFrame_def ignoresOutside_def ignoresRedis_def)

lemma earnFrame_vaultInv: "earnFrame vaultInv"
  by (auto simp: earnFrame_def ignoresOutside_def ignoresRedis_def vaultInv_def)

lemma findOrCreate_accounts:
  "preserves (\<lambda>s. J (users s) (wallets s) (idempotencyKeys s)) (vaultRepo_findOrCreate pv)"
  by (auto simp: preserves_def vaultRepo_findOrCreate_def vaultUpdate_def tableUpdate_def put_defs Let_def
      split: option.split sum.split)

end
