(* ===== verification/Controllers.thy ===== *)
theory Controllers
  imports Idempotency Frames
begin

text \<open>
  The three mutating routes of \<^verbatim>\<open>src/earn/controllers\<close>: the guard, the idempotency interceptor,
  the validation of the body (the pipe \<^verbatim>\<open>src/main.ts\<close> installs, with the decorators of the DTO
  classes) and the handler, in the order the framework runs them, with the response body as the
  JSON the interceptor stores.  The text of a \<open>uuid\<close> is the number's decimal text.

  The facts: the handlers leave the idempotency table alone, so each of them is an
  \<open>idempotent_handler\<close> and the interceptor's guarantees hold for the routes; whatever the request
  holds, a route keeps the books (\<open>routes_keep_base\<close>), since only validated bodies reach a handler.
\<close>

section \<open>Validation of a body\<close>

text \<open>
  The pipe converts a property to the type its DTO declares before it validates it (implicit
  conversion): \<open>String(value)\<close> and \<open>Boolean(value)\<close>, element by element in an array; \<open>null\<close>
  stays.  A number of the body is one whose text is its decimal digits.
\<close>

fun toStringProp :: "json \<Rightarrow> json" where
  "toStringProp JNull = JNull"
| "toStringProp (JArr vs) = JArr (map toStringProp vs)"
| "toStringProp v = JStr (jsString v)"

fun truthy :: "json \<Rightarrow> bool" where
  "truthy JNull = False"
| "truthy (JBool b) = b"
| "truthy (JNum n) = (n \<noteq> 0)"
| "truthy (JStr s) = (s \<noteq> [])"
| "truthy (JArr _) = True"
| "truthy (JObj _) = True"

fun toBooleanProp :: "json \<Rightarrow> json" where
  "toBooleanProp JNull = JNull"
| "toBooleanProp (JArr vs) = JArr (map toBooleanProp vs)"
| "toBooleanProp v = JBool (truthy v)"

definition uuidOf :: "string \<Rightarrow> uuid option" where
  "uuidOf s =
     (case parseDigits 10 s of
        None \<Rightarrow> None
      | Some n \<Rightarrow> if showNat n = s then Some n else None)"

definition uuidProp :: "json option \<Rightarrow> uuid option" where
  "uuidProp v = (case v of Some (JStr s) \<Rightarrow> uuidOf s | _ \<Rightarrow> None)"

definition amountProp :: "json option \<Rightarrow> string option" where
  "amountProp v = (case v of Some (JStr s) \<Rightarrow> if isPositiveBigIntString (JStr s) then Some s else None | _ \<Rightarrow> None)"

definition stringProp :: "json option \<Rightarrow> string option" where
  "stringProp v = (case v of Some (JStr s) \<Rightarrow> Some s | _ \<Rightarrow> None)"

text \<open>The exception of the pipe, with the messages of the failed checks.\<close>

definition invalidBody :: "string list \<Rightarrow> exn" where
  "invalidBody messages =
     HttpException 400 (RespObject \<lparr>pl_message = Some (MsgMany messages), pl_error = Some ''Bad Request'',
       pl_code = None, pl_details = None\<rparr>)"

text \<open>A body that is missing or no object has no properties.\<close>

definition bodyProps :: "json option \<Rightarrow> (string \<times> json) list" where
  "bodyProps b = (case b of Some (JObj kvs) \<Rightarrow> kvs | _ \<Rightarrow> [])"

text \<open>\<open>forbidNonWhitelisted\<close>.\<close>

definition strangers :: "string list \<Rightarrow> (string \<times> json) list \<Rightarrow> string list" where
  "strangers known kvs =
     map (\<lambda>k. ''property '' @ k @ '' should not exist'') (filter (\<lambda>k. k \<notin> set known) (map fst kvs))"

definition complaint :: "bool \<Rightarrow> string \<Rightarrow> string list" where
  "complaint ok message = (if ok then [] else [message])"

definition parseDepositDto :: "json option \<Rightarrow> deposit_dto res" where
  "parseDepositDto body =
     (let kvs = bodyProps body;
          walletId = uuidProp (map_option toStringProp (map_of kvs ''walletId''));
          amount = amountProp (map_option toStringProp (map_of kvs ''amount''));
          messages = strangers [''walletId'', ''amount''] kvs
            @ complaint (walletId \<noteq> None) ''walletId must be a UUID''
            @ complaint (amount \<noteq> None) ''amount must be a positive integer string''
      in case (walletId, amount) of
           (Some w, Some a) \<Rightarrow> if messages = [] then Inr \<lparr>dd_walletId = w, dd_amount = a\<rparr> else Inl (invalidBody messages)
         | _ \<Rightarrow> Inl (invalidBody messages))"

definition parseApproveDto :: "json option \<Rightarrow> approve_dto res" where
  "parseApproveDto body =
     (let kvs = bodyProps body;
          walletId = uuidProp (map_option toStringProp (map_of kvs ''walletId''));
          amount = amountProp (map_option toStringProp (map_of kvs ''amount''));
          messages = strangers [''walletId'', ''amount''] kvs
            @ complaint (walletId \<noteq> None) ''walletId must be a UUID''
            @ complaint (amount \<noteq> None) ''amount must be a positive integer string''
      in case (walletId, amount) of
           (Some w, Some a) \<Rightarrow> if messages = [] then Inr \<lparr>ad_walletId = w, ad_amount = a\<rparr> else Inl (invalidBody messages)
         | _ \<Rightarrow> Inl (invalidBody messages))"

text \<open>\<open>amount\<close> is checked unless \<open>fullWithdraw\<close> is truthy, \<open>fullWithdraw\<close> unless it is missing or \<open>null\<close>.\<close>

definition parseWithdrawDto :: "json option \<Rightarrow> withdraw_dto res" where
  "parseWithdrawDto body =
     (let kvs = bodyProps body;
          walletId = uuidProp (map_option toStringProp (map_of kvs ''walletId''));
          amount = map_option toStringProp (map_of kvs ''amount'');
          full = map_option toBooleanProp (map_of kvs ''fullWithdraw'');
          isFull = (case full of None \<Rightarrow> False | Some f \<Rightarrow> truthy f);
          messages = strangers [''walletId'', ''amount'', ''fullWithdraw''] kvs
            @ complaint (walletId \<noteq> None) ''walletId must be a UUID''
            @ complaint (isFull \<or> amountProp amount \<noteq> None) ''amount must be a positive integer string''
            @ complaint (case full of Some (JArr _) \<Rightarrow> False | _ \<Rightarrow> True) ''fullWithdraw must be a boolean value''
      in case walletId of
           None \<Rightarrow> Inl (invalidBody messages)
         | Some w \<Rightarrow>
             if messages = []
             then Inr \<lparr>wdd_walletId = w, wdd_amount = stringProp amount,
                       wdd_fullWithdraw = (case full of Some (JBool b) \<Rightarrow> Some b | _ \<Rightarrow> None)\<rparr>
             else Inl (invalidBody messages))"

section \<open>Responses\<close>

fun positionStatusName :: "position_status \<Rightarrow> string" where
  "positionStatusName P_ACTIVE = ''ACTIVE''"
| "positionStatusName P_CLOSED = ''CLOSED''"
| "positionStatusName P_PENDING = ''PENDING''"
| "positionStatusName P_WITHDRAWING = ''WITHDRAWING''"
| "positionStatusName P_FAILED = ''FAILED''"

fun transactionStatusName :: "transaction_status \<Rightarrow> string" where
  "transactionStatusName T_CREATED = ''CREATED''"
| "transactionStatusName T_SUBMITTED = ''SUBMITTED''"
| "transactionStatusName T_CONFIRMED = ''CONFIRMED''"
| "transactionStatusName T_FAILED = ''FAILED''"
| "transactionStatusName T_REVERTED = ''REVERTED''"

definition linkFields :: "string option \<Rightarrow> string option \<Rightarrow> string option \<Rightarrow> (string \<times> json) list" where
  "linkFields txHash blockNumber link =
     optField ''txHash'' (map_option JStr txHash) @ optField ''blockNumber'' (map_option JStr blockNumber)
     @ optField ''explorerUrl'' (map_option JStr link)"

definition depositJson :: "deposit_response \<Rightarrow> json" where
  "depositJson r =
     JObj ([(''vaultId'', JStr (dr_vaultId r)), (''chainId'', JNum (dr_chainId r)),
            (''walletId'', JStr (showNat (dr_walletId r))), (''amount'', JStr (dr_amount r)),
            (''walletBalance'', JStr (dr_walletBalance r)), (''allowance'', JStr (dr_allowance r)),
            (''positionId'', JStr (showNat (dr_positionId r))),
            (''positionStatus'', JStr (positionStatusName (dr_positionStatus r))),
            (''depositedAmount'', JStr (dr_depositedAmount r)), (''shares'', JStr (dr_shares r)),
            (''transactionId'', JStr (showNat (dr_transactionId r))),
            (''status'', JStr (transactionStatusName (dr_status r)))]
       @ linkFields (dr_txHash r) (dr_blockNumber r) (dr_explorerUrl r))"

definition approveJson :: "approve_response \<Rightarrow> json" where
  "approveJson r =
     JObj ([(''vaultId'', JStr (ar_vaultId r)), (''chainId'', JNum (ar_chainId r)),
            (''walletId'', JStr (showNat (ar_walletId r))), (''amount'', JStr (ar_amount r)),
            (''allowance'', JStr (ar_allowance r)), (''requiresApproval'', JBool (ar_requiresApproval r)),
            (''status'', JStr (transactionStatusName (ar_status r))),
            (''transactionId'', JStr (showNat (ar_transactionId r)))]
       @ linkFields (ar_txHash r) (ar_blockNumber r) (ar_explorerUrl r))"

definition withdrawJson :: "withdraw_response \<Rightarrow> json" where
  "withdrawJson r =
     JObj ([(''positionId'', JStr (showNat (wr_positionId r))), (''vaultId'', JStr (wr_vaultId r)),
            (''chainId'', JNum (wr_chainId r)), (''walletId'', JStr (showNat (wr_walletId r))),
            (''amount'', JStr (wr_amount r)), (''fullWithdraw'', JBool (wr_fullWithdraw r)),
            (''sharesBurned'', JStr (wr_sharesBurned r)),
            (''positionStatus'', JStr (positionStatusName (wr_positionStatus r))),
            (''remainingAmount'', JStr (wr_remainingAmount r)), (''remainingShares'', JStr (wr_remainingShares r)),
            (''transactionId'', JStr (showNat (wr_transactionId r))),
            (''status'', JStr (transactionStatusName (wr_status r)))]
       @ linkFields (wr_txHash r) (wr_blockNumber r) (wr_explorerUrl r))"

section \<open>Routes\<close>

definition paramOf :: "string \<Rightarrow> http_request \<Rightarrow> string" where
  "paramOf name request = (case map_of (h_params request) name of Some v \<Rightarrow> v | None \<Rightarrow> [])"

definition depositHandler :: "env \<Rightarrow> uuid \<Rightarrow> http_request \<Rightarrow> json io" where
  "depositHandler x userId request =
     andThen (lift (parseDepositDto (h_body request))) (\<lambda>dto.
     andThen (depositVault x userId (paramOf ''vaultId'' request) dto) (\<lambda>r. ret (depositJson r)))"

definition approveHandler :: "env \<Rightarrow> uuid \<Rightarrow> http_request \<Rightarrow> json io" where
  "approveHandler x userId request =
     andThen (lift (parseApproveDto (h_body request))) (\<lambda>dto.
     andThen (approveVault x userId (paramOf ''vaultId'' request) dto) (\<lambda>r. ret (approveJson r)))"

text \<open>\<open>ParseUUIDPipe\<close> on the position's id.\<close>

definition withdrawHandler :: "env \<Rightarrow> uuid \<Rightarrow> http_request \<Rightarrow> json io" where
  "withdrawHandler x userId request =
     (case uuidOf (paramOf ''positionId'' request) of
        None \<Rightarrow> throw (badRequest ''Validation failed (uuid is expected)'')
      | Some positionId \<Rightarrow>
          andThen (lift (parseWithdrawDto (h_body request))) (\<lambda>dto.
          andThen (withdrawPosition x userId positionId dto) (\<lambda>r. ret (withdrawJson r))))"

text \<open>The guard puts the user of the token on the request; without one it refuses.\<close>

definition guarded :: "http_request \<Rightarrow> (uuid \<Rightarrow> http_response io) \<Rightarrow> http_response io" where
  "guarded request route =
     (case h_userId request of None \<Rightarrow> throw (unauthorized ''Unauthorized'') | Some userId \<Rightarrow> route userId)"

definition postDeposit :: "env \<Rightarrow> http_request \<Rightarrow> http_response io" where
  "postDeposit x request =
     guarded request (\<lambda>userId. intercept x (Some OpDeposit) 201 request (depositHandler x userId request))"

definition postApprove :: "env \<Rightarrow> http_request \<Rightarrow> http_response io" where
  "postApprove x request =
     guarded request (\<lambda>userId. intercept x (Some OpApproval) 201 request (approveHandler x userId request))"

definition postWithdraw :: "env \<Rightarrow> http_request \<Rightarrow> http_response io" where
  "postWithdraw x request =
     guarded request (\<lambda>userId. intercept x (Some OpWithdrawal) 201 request (withdrawHandler x userId request))"

section \<open>The handlers under the interceptor\<close>

lemma frame_routes:
  assumes "earnFrame I" and "\<And>pv. preserves I (vaultRepo_findOrCreate pv)"
  shows "preserves I (depositHandler x u q)" "preserves I (withdrawHandler x u q)" "preserves I (approveHandler x u q)"
  unfolding depositHandler_def withdrawHandler_def approveHandler_def
  by (intro pres frame_deposit frame_withdraw frame_approve assms)+

lemma frame_keys: "earnFrame (\<lambda>s. J (idempotencyKeys s))" "preserves (\<lambda>s. J (idempotencyKeys s)) (vaultRepo_findOrCreate pv)"
  using earnFrame_accounts [of "\<lambda>u w. J"] findOrCreate_accounts [of "\<lambda>u w. J" pv] by simp_all

lemma preserves_keys: "(\<And>J. preserves (\<lambda>s. J (idempotencyKeys s)) m) \<Longrightarrow> idempotencyKeys (snd (m s)) = idempotencyKeys s"
proof -
  assume "\<And>J. preserves (\<lambda>s. J (idempotencyKeys s)) m"
  from preservesD [OF this [of "\<lambda>k. k = idempotencyKeys s"], of s] show ?thesis by simp
qed

lemma json_bodies:
  "depositJson dr \<noteq> JNull \<and> wfJson (depositJson dr)" "withdrawJson wr \<noteq> JNull \<and> wfJson (withdrawJson wr)"
  "approveJson ar \<noteq> JNull \<and> wfJson (approveJson ar)"
  by (simp_all add: depositJson_def withdrawJson_def approveJson_def linkFields_def optField_def split: option.split)

lemma handler_bodies:
  "depositHandler x u q s = (Inr body, s') \<Longrightarrow> body \<noteq> JNull \<and> wfJson body"
  "withdrawHandler x u q s = (Inr body, s') \<Longrightarrow> body \<noteq> JNull \<and> wfJson body"
  "approveHandler x u q s = (Inr body, s') \<Longrightarrow> body \<noteq> JNull \<and> wfJson body"
  by (auto simp: depositHandler_def withdrawHandler_def approveHandler_def json_bodies
      elim!: andThen_InrE split: option.splits)

interpretation depositRoute: idempotent_handler "depositHandler x u q" for x u q
  by unfold_locales (intro preserves_keys frame_routes(1) frame_keys, erule handler_bodies(1))

interpretation withdrawRoute: idempotent_handler "withdrawHandler x u q" for x u q
  by unfold_locales (intro preserves_keys frame_routes(2) frame_keys, erule handler_bodies(2))

interpretation approveRoute: idempotent_handler "approveHandler x u q" for x u q
  by unfold_locales (intro preserves_keys frame_routes(3) frame_keys, erule handler_bodies(3))

section \<open>What passes validation\<close>

lemma uuidOf_show [simp]: "uuidOf (showNat n) = Some n"
  by (simp add: uuidOf_def)

lemma amountProp_Some: "amountProp v = Some a \<Longrightarrow> isPositiveBigIntString (JStr a)"
  by (auto simp: amountProp_def split: option.splits json.splits if_splits)

lemma complaint_Nil [simp]: "complaint b m = [] \<longleftrightarrow> b"
  by (simp add: complaint_def)

lemma parsed_amounts:
  "parseDepositDto body = Inr d \<Longrightarrow> isPositiveBigIntString (JStr (dd_amount d))"
  "parseApproveDto body = Inr a \<Longrightarrow> isPositiveBigIntString (JStr (ad_amount a))"
  by (auto simp: parseDepositDto_def parseApproveDto_def Let_def dest!: amountProp_Some split: option.splits if_splits)

lemma amountProp_stringProp: "amountProp v = Some a \<Longrightarrow> stringProp v = Some a"
  by (auto simp: amountProp_def stringProp_def split: option.splits json.splits if_splits)

lemma truthy_boolean: "truthy (toBooleanProp v) \<Longrightarrow> (case toBooleanProp v of JArr _ \<Rightarrow> False | _ \<Rightarrow> True) \<Longrightarrow> toBooleanProp v = JBool True"
  by (cases v) auto

lemma parsed_withdraw:
  assumes "parseWithdrawDto body = Inr w"
  shows "validWithdraw w"
proof -
  let ?kvs = "bodyProps body"
  let ?amount = "map_option toStringProp (map_of ?kvs ''amount'')"
  let ?full = "map_option toBooleanProp (map_of ?kvs ''fullWithdraw'')"
  from assms have amount: "wdd_amount w = stringProp ?amount"
    and full: "wdd_fullWithdraw w = (case ?full of Some (JBool b) \<Rightarrow> Some b | _ \<Rightarrow> None)"
    and ok: "(case ?full of None \<Rightarrow> False | Some f \<Rightarrow> truthy f) \<or> amountProp ?amount \<noteq> None"
      "(case ?full of Some (JArr _) \<Rightarrow> False | _ \<Rightarrow> True)"
    by (auto simp: parseWithdrawDto_def Let_def split: option.splits if_splits)
  show ?thesis
  proof (cases "amountProp ?amount")
    case None
    with ok obtain f where f: "map_of ?kvs ''fullWithdraw'' = Some f" "truthy (toBooleanProp f)"
      by (auto split: option.splits)
    with ok(2) have "toBooleanProp f = JBool True" by (intro truthy_boolean) simp_all
    with full f show ?thesis by (simp add: validWithdraw_def)
  next
    case (Some a)
    with amount amountProp_stringProp [OF Some] amountProp_Some [OF Some] show ?thesis
      by (simp add: validWithdraw_def)
  qed
qed

lemma positive_digits:
  "isPositiveBigIntString (JStr a) \<Longrightarrow> a \<noteq> [] \<and> list_all isDigit a \<and> (\<exists>n > 0. bigIntOf a = Some n)"
  by (auto simp: isPositiveBigIntString_def allDigits_def split: if_splits option.splits)

lemma strangers_none: "strangers known kvs = [] \<longleftrightarrow> fst ` set kvs \<subseteq> set known"
  by (auto simp: strangers_def filter_empty_conv)

lemma parsed_names:
  "parseDepositDto body = Inr d \<Longrightarrow> fst ` set (bodyProps body) \<subseteq> set [''walletId'', ''amount'']"
  "parseApproveDto body = Inr a \<Longrightarrow> fst ` set (bodyProps body) \<subseteq> set [''walletId'', ''amount'']"
  "parseWithdrawDto body = Inr w \<Longrightarrow> fst ` set (bodyProps body) \<subseteq> set [''walletId'', ''amount'', ''fullWithdraw'']"
  unfolding strangers_none [symmetric] parseDepositDto_def parseApproveDto_def parseWithdrawDto_def Let_def
  by (simp_all split: option.splits if_splits)

lemma parsed_values:
  "parseDepositDto body = Inr d \<Longrightarrow> uuidProp (map_option toStringProp (map_of (bodyProps body) ''walletId'')) = Some (dd_walletId d)
     \<and> map_option toStringProp (map_of (bodyProps body) ''amount'') = Some (JStr (dd_amount d))"
  "parseApproveDto body = Inr a \<Longrightarrow> uuidProp (map_option toStringProp (map_of (bodyProps body) ''walletId'')) = Some (ad_walletId a)
     \<and> map_option toStringProp (map_of (bodyProps body) ''amount'') = Some (JStr (ad_amount a))"
  "parseWithdrawDto body = Inr w \<Longrightarrow> uuidProp (map_option toStringProp (map_of (bodyProps body) ''walletId'')) = Some (wdd_walletId w)"
  by (auto simp: parseDepositDto_def parseApproveDto_def parseWithdrawDto_def Let_def amountProp_def
      split: option.splits if_splits json.splits)

section \<open>The routes keep the books\<close>

text \<open>A predicate that does not read the idempotency table.\<close>

definition keyFrame :: "(world \<Rightarrow> bool) \<Rightarrow> bool" where
  "keyFrame I \<longleftrightarrow> (\<forall>s ks. I s \<longrightarrow> I (s\<lparr>idempotencyKeys := ks\<rparr>))
     \<and> (\<forall>s n. nextId s \<le> n \<longrightarrow> I s \<longrightarrow> I (s\<lparr>nextId := n\<rparr>))"

text \<open>The interceptor writes the table by three operations of its repository.\<close>

lemma preserves_acquire:
  assumes create: "\<And>ci. preserves I (idemRepo_create ci)"
  shows "preserves I (idem_acquire x input)"
  unfolding idem_acquire_def idem_acquireNew_def idemRepo_findByKeyAndPath_def idem_computeExpiryDate_def
  by (intro pres create)

lemma preserves_intercept:
  assumes create: "\<And>ci. preserves I (idemRepo_create ci)" and delete: "\<And>i. preserves I (idemRepo_deleteById i)"
    and save: "\<And>i body st. preserves I (idemRepo_saveResponse x i body st)" and h: "preserves I handler"
  shows "preserves I (intercept x op st request handler)"
proof -
  have complete: "preserves I (idem_complete x i st body)" for i st body
    unfolding idem_complete_def by (intro pres delete save)
  have fail: "preserves I (idem_handleFailure x i e)" for i e
    unfolding idem_handleFailure_def by (cases e; simp add: complete split: response.split)
  have run: "preserves I (idem_runHandler x st' i handler)" for st' i
    unfolding idem_runHandler_def by (intro pres h fail complete)
  show ?thesis unfolding intercept_def by (intro pres h run preserves_acquire create)
qed

lemma keyFrame_repo:
  assumes I: "keyFrame I"
  shows "preserves I (idemRepo_create ci)" "preserves I (idemRepo_deleteById i)" "preserves I (idemRepo_saveResponse x i body st)"
proof -
  have c: "I (s\<lparr>idempotencyKeys := ks, nextId := Suc (nextId s)\<rparr>)" if "I s" for s ks
  proof -
    have "I (s\<lparr>idempotencyKeys := ks\<rparr>)" using I that by (simp add: keyFrame_def)
    moreover have "nextId (s\<lparr>idempotencyKeys := ks\<rparr>) \<le> Suc (nextId s)" by simp
    ultimately show ?thesis using I unfolding keyFrame_def by blast
  qed
  show "preserves I (idemRepo_create ci)"
    by (auto simp: preserves_def idemRepo_create_def Let_def c)
  show "preserves I (idemRepo_deleteById i)" "preserves I (idemRepo_saveResponse x i body st)"
    using I by (auto simp: preserves_def idemRepo_deleteById_def idemRepo_saveResponse_def idempotencyUpdate_def
        tableUpdate_def put_defs keyFrame_def Let_def split: option.split)
qed

lemma keyFrame_base [simp]: "keyFrame (base sk S)"
  by (auto simp: keyFrame_def intro: base_frame)

lemma handlers_keep_base:
  "preserves (base sk S) (depositHandler x u q)" "preserves (base sk S) (approveHandler x u q)"
  "preserves (base sk S) (withdrawHandler x u q)"
proof -
  have d: "preserves (base sk S) (depositVault x u v dto)" if ok: "parseDepositDto body = Inr dto" for v dto body
  proof -
    from positive_amount [OF parsed_amounts(1) [OF ok]] obtain n where "bigIntOf (dd_amount dto) = Some n" "0 \<le> n" by fastforce
    then show ?thesis by (intro preserves_triple [OF depositVault_keeps])
  qed
  show "preserves (base sk S) (depositHandler x u q)" unfolding depositHandler_def
    by (rule preserves_andThen_ret) (auto intro!: pres intro: d)
  have a: "preserves (base sk S) (approveVault x u v dto)" if ok: "parseApproveDto body = Inr dto" for v dto body
  proof -
    from positive_amount [OF parsed_amounts(2) [OF ok]] obtain n where "bigIntOf (ad_amount dto) = Some n" "0 \<le> n" by fastforce
    then show ?thesis by (intro preserves_triple [OF approveVault_keeps])
  qed
  show "preserves (base sk S) (approveHandler x u q)" unfolding approveHandler_def
    by (rule preserves_andThen_ret) (auto intro!: pres intro: a)
  have w: "preserves (base sk S) (andThen (lift (parseWithdrawDto (h_body q))) (\<lambda>dto.
          andThen (withdrawPosition x u pid dto) (\<lambda>r. ret (withdrawJson r))))" for pid
    by (rule preserves_andThen_ret) (auto intro!: pres preserves_triple [OF withdrawPosition_keeps] parsed_withdraw)
  show "preserves (base sk S) (withdrawHandler x u q)" unfolding withdrawHandler_def
    by (intro pres w)
qed

lemma routes_keep_base:
  "preserves (base sk S) (postDeposit x q)" "preserves (base sk S) (postApprove x q)" "preserves (base sk S) (postWithdraw x q)"
  unfolding postDeposit_def postApprove_def postWithdraw_def guarded_def
  by (intro pres preserves_intercept keyFrame_repo keyFrame_base handlers_keep_base)+

end
