(* ===== verification/Accounts.thy ===== *)
theory Accounts
  imports Frames
begin

text \<open>
  \<^verbatim>\<open>src/auth\<close> and \<^verbatim>\<open>src/users\<close>: registration and login with an email and a password, the profile,
  the payload of the access token, the two guards and the current-user decorator.  bcrypt, the JWT
  library and the Privy token verifier are the functions of \<open>auth_lib\<close>; a hash draws a salt, so it
  takes the number of the call, and a token is checked at a time.

  The facts: emails are stored trimmed and in lower case and are unique; whoever registered can log
  in with the same password under any spelling of the email, and the token carries their id; a
  failed login tells nothing but that it failed; only registration writes, and it adds one user.
\<close>

section \<open>The services\<close>

record auth_lib =
  ab_hash :: "nat \<Rightarrow> string \<Rightarrow> string"
  ab_compare :: "string \<Rightarrow> string \<Rightarrow> bool"
  ab_sign :: "nat \<Rightarrow> string \<times> string \<Rightarrow> string"
  ab_verify :: "nat \<Rightarrow> string option \<Rightarrow> (string \<times> string) option"
  ab_privyVerify :: "nat \<Rightarrow> string \<Rightarrow> string res"

record credentials_dto =
  cr_email :: string
  cr_password :: string

record user_profile =
  up_id :: uuid
  up_email :: "string option"
  up_createdAt :: nat
  up_updatedAt :: nat

record auth_response =
  au_accessToken :: string
  au_user :: user_profile

definition normalizeEmail :: "string \<Rightarrow> string" where
  "normalizeEmail email = toLowerCase (trim email)"

definition publicUser :: "user \<Rightarrow> user_profile" where
  "publicUser u = \<lparr>up_id = u_id u, up_email = u_email u, up_createdAt = u_createdAt u, up_updatedAt = u_updatedAt u\<rparr>"

text \<open>The payload \<open>{ sub, email }\<close>; the library adds the time.\<close>

definition signToken :: "auth_lib \<Rightarrow> user_profile \<Rightarrow> string io" where
  "signToken a u =
     gets (\<lambda>s. ab_sign a (now s) (showNat (up_id u), case up_email u of Some e \<Rightarrow> e | None \<Rightarrow> []))"

definition buildAuthResponse :: "auth_lib \<Rightarrow> user_profile \<Rightarrow> auth_response io" where
  "buildAuthResponse a u = andThen (signToken a u) (\<lambda>token. ret \<lparr>au_accessToken = token, au_user = u\<rparr>)"

definition userByEmail :: "string \<Rightarrow> world \<Rightarrow> user option" where
  "userByEmail email s = find (\<lambda>u. u_email u = Some email) (users s)"

text \<open>The insert, against the unique email column.\<close>

definition insertUser :: "string \<Rightarrow> string \<Rightarrow> user io" where
  "insertUser email passwordHash s =
     (if userByEmail email s \<noteq> None then (Inl uniqueViolation, s)
      else let u = \<lparr>u_id = nextId s, u_privyUserId = None, u_email = Some email, u_passwordHash = Some passwordHash,
                    u_createdAt = now s, u_updatedAt = now s\<rparr>
           in (Inr u, s\<lparr>users := users s @ [u], nextId := Suc (nextId s)\<rparr>))"

definition register :: "env \<Rightarrow> auth_lib \<Rightarrow> credentials_dto \<Rightarrow> auth_response io" where
  "register x a dto =
     (let normalizedEmail = normalizeEmail (cr_email dto)
      in andThen (gets (userByEmail normalizedEmail)) (\<lambda>existingUser.
         andThen (require (existingUser = None) (conflict ''Email is already registered'')) (\<lambda>_.
         andThen (extCall (\<lambda>n. Inr (ab_hash a n (cr_password dto)))) (\<lambda>passwordHash.
         andThen (insertUser normalizedEmail passwordHash) (\<lambda>user.
         andThen (auditLog x \<lparr>al_userId = Some (u_id user), al_action = USER_REGISTERED, al_entityType = ''user'',
                    al_entityId = u_id user,
                    al_metadata = Some [(''email'', case u_email user of Some e \<Rightarrow> JStr e | None \<Rightarrow> JNull)]\<rparr>) (\<lambda>_.
           buildAuthResponse a (publicUser user)))))))"

definition badCredentials :: exn where
  "badCredentials = unauthorized ''Invalid email or password''"

definition login :: "env \<Rightarrow> auth_lib \<Rightarrow> credentials_dto \<Rightarrow> auth_response io" where
  "login x a dto =
     (let normalizedEmail = normalizeEmail (cr_email dto)
      in andThen (gets (userByEmail normalizedEmail)) (\<lambda>found.
         (case found of
            None \<Rightarrow> throw badCredentials
          | Some user \<Rightarrow>
              (case u_passwordHash user of
                 None \<Rightarrow> throw badCredentials
               | Some h \<Rightarrow>
                   if h = [] then throw badCredentials
                   else andThen (require (ab_compare a (cr_password dto) h) badCredentials) (\<lambda>_.
                        andThen (gets (\<lambda>s. find (\<lambda>u. u_id u = u_id user) (users s))) (\<lambda>again.
                        (case again of
                           None \<Rightarrow> throw recordNotFound
                         | Some u \<Rightarrow>
                             andThen (auditLog x \<lparr>al_userId = Some (u_id u), al_action = USER_LOGIN,
                                        al_entityType = ''user'', al_entityId = u_id u, al_metadata = None\<rparr>) (\<lambda>_.
                               buildAuthResponse a (publicUser u)))))))))"

definition getProfile :: "uuid \<Rightarrow> user_profile io" where
  "getProfile userId =
     andThen (gets (\<lambda>s. find (\<lambda>u. u_id u = userId) (users s))) (\<lambda>found.
     (case found of None \<Rightarrow> throw (unauthorized ''User not found'') | Some u \<Rightarrow> ret (publicUser u)))"

definition getMe :: "uuid \<Rightarrow> user_profile io" where
  "getMe = getProfile"

section \<open>Guards\<close>

text \<open>\<open>JwtStrategy.validate\<close>.\<close>

definition validatePayload :: "string \<times> string \<Rightarrow> (string \<times> string) res" where
  "validatePayload payload =
     (case payload of (sub, email) \<Rightarrow>
        if sub = [] \<or> email = [] then Inl (unauthorized ''Invalid token payload'') else Inr (sub, email))"

text \<open>\<open>JwtAuthGuard\<close>: no header, or a token the library refuses, is \<open>Unauthorized\<close>.\<close>

definition jwtGuard :: "auth_lib \<Rightarrow> string option \<Rightarrow> (string \<times> string) io" where
  "jwtGuard a authorization =
     andThen (gets (\<lambda>s. ab_verify a (now s) authorization)) (\<lambda>payload.
     (case payload of None \<Rightarrow> throw (unauthorized ''Unauthorized'') | Some p \<Rightarrow> lift (validatePayload p)))"

definition privyGuard :: "auth_lib \<Rightarrow> string option \<Rightarrow> string io" where
  "privyGuard a authorization =
     (case authorization of
        None \<Rightarrow> throw (unauthorized ''Missing or invalid authorization header'')
      | Some header \<Rightarrow>
          if \<not> startsWith header ''Bearer '' then throw (unauthorized ''Missing or invalid authorization header'')
          else let token = trim (drop 7 header)
               in if token = [] then throw (unauthorized ''Missing bearer token'')
                  else catching (extCall (\<lambda>n. ab_privyVerify a n token))
                         (\<lambda>e. case e of
                                Foreign f \<Rightarrow> if fe_name f = ''InvalidAuthTokenError''
                                             then throw (unauthorized ''Invalid or expired access token'') else throw e
                              | _ \<Rightarrow> throw e))"

definition currentUser :: "'u option \<Rightarrow> 'u res" where
  "currentUser requestUser =
     (case requestUser of None \<Rightarrow> Inl (unauthorized ''Authentication required'') | Some u \<Rightarrow> Inr u)"

section \<open>Emails\<close>

lemma lower_space: "isSpace (lowerChar c) = isSpace c"
  by (auto simp: isSpace_def lowerChar_def)

lemma lower_twice [simp]: "lowerChar (lowerChar c) = lowerChar c"
  by (auto simp: lowerChar_def)

lemma dropWhile_map_space: "dropWhile isSpace (map lowerChar s) = map lowerChar (dropWhile isSpace s)"
  by (induction s) (simp_all add: lower_space)

lemma trim_lower: "trim (toLowerCase s) = toLowerCase (trim s)"
  by (simp add: trim_def toLowerCase_def dropWhile_map_space rev_map)

lemma dropWhile_twice [simp]: "dropWhile P (dropWhile P s) = dropWhile P s"
  by (induction s) auto

lemma dropWhile_rev_dropWhile:
  "dropWhile P (rev (dropWhile P (rev (dropWhile P s)))) = rev (dropWhile P (rev (dropWhile P s)))"
proof (cases "dropWhile P (rev (dropWhile P s))")
  case (Cons b bs)
  let ?d = "dropWhile P s"
  obtain pre where pre: "rev ?d = pre @ (b # bs)" using Cons dropWhile_eq_drop by (metis append_take_drop_id)
  then have d: "?d = rev bs @ [b] @ rev pre" by (metis rev_append rev_rev_ident append.assoc rev.simps(2))
  have "\<not> P (hd ?d)" using d by (intro hd_dropWhile) auto
  with d have "\<not> P (hd (rev bs @ [b]))" by (cases "rev bs") auto
  then show ?thesis using Cons by (cases "rev bs") auto
next
  case Nil
  then show ?thesis by (simp only: rev.simps dropWhile.simps)
qed

lemma trim_twice [simp]: "trim (trim s) = trim s"
  by (simp add: trim_def dropWhile_rev_dropWhile)

lemma normalize_twice [simp]: "normalizeEmail (normalizeEmail e) = normalizeEmail e"
  by (simp add: normalizeEmail_def trim_lower) (simp add: toLowerCase_def)

section \<open>The user table\<close>

definition userInv :: "world \<Rightarrow> bool" where
  "userInv s \<longleftrightarrow> distinct (map u_id (users s)) \<and> (\<forall>u \<in> set (users s). u_id u < nextId s)
     \<and> distinct (map the (filter (\<lambda>e. e \<noteq> None) (map u_email (users s))))
     \<and> (\<forall>u \<in> set (users s). \<forall>e. u_email u = Some e \<longrightarrow> normalizeEmail e = e)"

lemma ignoresOutside_userInv [simp]: "ignoresOutside userInv"
  by (simp add: ignoresOutside_def userInv_def)

lemma insertUser_userInv:
  assumes "userInv s" and "normalizeEmail email = email"
  shows "userInv (snd (insertUser email h s))"
  using assms
  by (auto simp: insertUser_def userInv_def Let_def userByEmail_def find_None_all less_Suc_eq image_iff)

lemma register_userInv: "preserves userInv (register x a dto)"
proof -
  have ins: "preserves userInv (insertUser (normalizeEmail (cr_email dto)) h)" for h
    by (rule preservesI) (rule insertUser_userInv, simp_all)
  show ?thesis unfolding register_def buildAuthResponse_def signToken_def Let_def
    by (intro pres ins ignoresOutside_userInv)
qed

lemma preserves_login: "ignoresOutside I \<Longrightarrow> preserves I (login x a dto)"
  unfolding login_def buildAuthResponse_def signToken_def Let_def by (intro pres)

lemma register_taken:
  "userByEmail (normalizeEmail (cr_email dto)) s \<noteq> None \<Longrightarrow>
   register x a dto s = (Inl (conflict ''Email is already registered''), s)"
  by (auto simp: register_def Let_def andThen_def)

lemma auditLog_run: "\<exists>s'. auditLog x input s = (Inr (), s') \<and> users s' = users s \<and> now s' = now s"
  by (simp add: auditLog_def eff_simps extCall_def)

text \<open>A registration that succeeds adds the user it answers with, with a hash of the password.\<close>

lemma register_adds:
  assumes "register x a dto s = (Inr r, s')"
  shows "\<exists>u n. users s' = users s @ [u] \<and> u_email u = Some (normalizeEmail (cr_email dto))
     \<and> u_passwordHash u = Some (ab_hash a n (cr_password dto)) \<and> au_user r = publicUser u
     \<and> au_accessToken r = ab_sign a (now s') (showNat (u_id u), normalizeEmail (cr_email dto))
     \<and> u_id u = nextId s \<and> now s' = now s \<and> userByEmail (normalizeEmail (cr_email dto)) s = None"
proof -
  from assms obtain u s1 s2 where none: "userByEmail (normalizeEmail (cr_email dto)) s = None"
    and ins: "insertUser (normalizeEmail (cr_email dto)) (ab_hash a (calls s) (cr_password dto)) (s\<lparr>calls := Suc (calls s)\<rparr>) = (Inr u, s1)"
    and log: "auditLog x \<lparr>al_userId = Some (u_id u), al_action = USER_REGISTERED, al_entityType = ''user'',
                    al_entityId = u_id u,
                    al_metadata = Some [(''email'', case u_email u of Some e \<Rightarrow> JStr e | None \<Rightarrow> JNull)]\<rparr> s1 = (Inr (), s2)"
    and b: "buildAuthResponse a (publicUser u) s2 = (Inr r, s')"
    unfolding register_def Let_def by (elim andThen_InrE) (auto simp: extCall_def)
  have u: "u_email u = Some (normalizeEmail (cr_email dto))" "u_passwordHash u = Some (ab_hash a (calls s) (cr_password dto))"
    "u_id u = nextId s" "users s1 = users s @ [u]" "now s1 = now s"
    using ins by (auto simp: insertUser_def Let_def split: if_splits)
  have "users s2 = users s1" "now s2 = now s1"
    using log auditLog_run [of x "\<lparr>al_userId = Some (u_id u), al_action = USER_REGISTERED, al_entityType = ''user'',
        al_entityId = u_id u, al_metadata = Some [(''email'', case u_email u of Some e \<Rightarrow> JStr e | None \<Rightarrow> JNull)]\<rparr>" s1] by auto
  with b u none show ?thesis
    by (auto simp: buildAuthResponse_def signToken_def publicUser_def)
qed

text \<open>What a login answers, by the row its email finds.\<close>

lemma login_success:
  assumes "userByEmail (normalizeEmail (cr_email dto)) s = Some u" and "u_passwordHash u = Some h" and "h \<noteq> []"
    and "ab_compare a (cr_password dto) h" and "find (\<lambda>v. u_id v = u_id u) (users s) = Some u"
  shows "\<exists>r s'. login x a dto s = (Inr r, s') \<and> au_user r = publicUser u \<and> users s' = users s \<and> now s' = now s
     \<and> au_accessToken r = ab_sign a (now s) (showNat (u_id u), normalizeEmail (cr_email dto))"
proof -
  have e: "u_email u = Some (normalizeEmail (cr_email dto))"
    using assms(1) by (auto simp: userByEmail_def dest: find_Some_iff_first)
  obtain s1 where log: "auditLog x \<lparr>al_userId = Some (u_id u), al_action = USER_LOGIN, al_entityType = ''user'',
      al_entityId = u_id u, al_metadata = None\<rparr> s = (Inr (), s1)" "users s1 = users s" "now s1 = now s"
    using auditLog_run by blast
  show ?thesis using assms e log
    by (simp add: login_def Let_def andThen_def buildAuthResponse_def signToken_def publicUser_def)
qed

lemma login_fails:
  assumes "fst (login x a dto s) = Inl e" and "userInv s"
  shows "e = badCredentials \<and> snd (login x a dto s) = s"
proof -
  have own: "find (\<lambda>v. u_id v = u_id u) (users s) = Some u" if "userByEmail em s = Some u" for em u
    using that assms(2) find_distinct_key [of u_id "users s" u]
    by (auto simp: userByEmail_def userInv_def dest: find_Some_iff_first)
  show ?thesis
  proof (cases "userByEmail (normalizeEmail (cr_email dto)) s")
    case None
    with assms show ?thesis by (simp add: login_def Let_def)
  next
    case (Some u)
    show ?thesis
    proof (cases "u_passwordHash u")
      case None
      with Some assms(1) show ?thesis by (simp add: login_def Let_def)
    next
      case (Some h)
      note row = \<open>userByEmail (normalizeEmail (cr_email dto)) s = Some u\<close>
      show ?thesis
      proof (cases "h \<noteq> [] \<and> ab_compare a (cr_password dto) h")
        case True
        with login_success [OF row Some _ _ own [OF row], of a x] assms(1) show ?thesis by auto
      next
        case False
        then have "login x a dto s = (Inl badCredentials, s)"
          using row Some by (auto simp: login_def Let_def andThen_def)
        with assms(1) show ?thesis by simp
      qed
    qed
  qed
qed

text \<open>Register, then log in, under any spelling of the email.\<close>

lemma register_then_login:
  assumes inv: "userInv s" and r: "register x a dto s = (Inr r, s1)"
    and same: "normalizeEmail (cr_email dto') = normalizeEmail (cr_email dto)" "cr_password dto' = cr_password dto"
    and bcrypt: "\<And>n p. ab_compare a p (ab_hash a n p)" "\<And>n p. ab_hash a n p \<noteq> []"
  shows "\<exists>r' s2. login x a dto' s1 = (Inr r', s2) \<and> au_user r' = au_user r
     \<and> au_accessToken r' = ab_sign a (now s2) (showNat (up_id (au_user r')), normalizeEmail (cr_email dto))"
proof -
  from register_adds [OF r] obtain u n where u: "users s1 = users s @ [u]" "u_email u = Some (normalizeEmail (cr_email dto))"
    "u_passwordHash u = Some (ab_hash a n (cr_password dto))" "au_user r = publicUser u" "u_id u = nextId s"
    "userByEmail (normalizeEmail (cr_email dto)) s = None" by blast
  have f: "userByEmail (normalizeEmail (cr_email dto')) s1 = Some u"
    unfolding userByEmail_def same u(1)
    by (rule find_append_fresh [where k = u_email]) (use u in \<open>auto simp: userByEmail_def find_None_all\<close>)
  have "\<forall>v \<in> set (users s). u_id v \<noteq> nextId s" using inv by (auto simp: userInv_def)
  then have i: "find (\<lambda>v. u_id v = u_id u) (users s1) = Some u" unfolding u(1) u(5)
    by (rule find_append_fresh) (rule u(5))
  from login_success [OF f u(3) bcrypt(2) _ i, of a x] same bcrypt(1) u(4) show ?thesis by (auto simp: publicUser_def)
qed

lemma jwtGuard_login:
  assumes jwt: "\<And>t p. ab_verify a t (Some (''Bearer '' @ ab_sign a t p)) = Some p"
    and "token = ab_sign a (now s) (showNat i, email)" and "email \<noteq> []"
  shows "jwtGuard a (Some (''Bearer '' @ token)) s = (Inr (showNat i, email), s)"
  using assms by (simp add: jwtGuard_def validatePayload_def)

end
