(* ===== verification/Wallets.thy ===== *)
theory Wallets
  imports Sending Frames
begin

text \<open>
  \<^verbatim>\<open>src/wallets/wallets.service.ts\<close>: creating a wallet with the provider and in the table,
  listing and reading wallets with their live balances, the check that a wallet can be signed for,
  and the test-token faucet.  \<open>dto.chainId\<close> and the configured chain are the integers the
  validation of the request and of the environment lets through.

  The facts: a user has at most one primary wallet and an address occurs once per chain, whatever
  the provider answers; a wallet is only shown to its owner; a failed balance lookup is no error;
  the faucet sends one kind of request, for the owner's own wallet on the test chain.
\<close>

section \<open>The service\<close>

record create_wallet_dto =
  cw_isPrimary :: "bool option"
  cw_chainId :: "int option"

record wallet_response =
  wl_walletId :: uuid
  wl_privyWalletId :: string
  wl_walletAddress :: string
  wl_chainId :: int
  wl_walletType :: wallet_type
  wl_isPrimary :: bool
  wl_createdAt :: nat
  wl_updatedAt :: nat
  wl_balances :: "wallet_balance list option"
  wl_balance :: "wallet_balance option"

record mint_response =
  mi_walletId :: uuid
  mi_walletAddress :: string
  mi_chainId :: int
  mi_assetAddress :: string
  mi_amount :: string
  mi_txHash :: string

definition faucetAddress :: string where
  "faucetAddress = ''0xD9145b5F45Ad4519c7ACcD6E0A4A82e83bB8A6Dc''"

definition testUsdcAddress :: string where
  "testUsdcAddress = ''0xba50Cd2A20f6DA35D788639E581bca8d0B5d4D5f''"

definition faucetMintAmount :: int where
  "faucetMintAmount = 1000000"

definition toPublicWallet :: "wallet \<Rightarrow> wallet_response" where
  "toPublicWallet w =
     \<lparr>wl_walletId = w_id w, wl_privyWalletId = w_providerId w, wl_walletAddress = w_address w,
      wl_chainId = w_chainId w, wl_walletType = w_walletType w, wl_isPrimary = w_isPrimary w,
      wl_createdAt = w_createdAt w, wl_updatedAt = w_updatedAt w, wl_balances = None, wl_balance = None\<rparr>"

definition findEthBalance :: "wallet_balance list \<Rightarrow> wallet_balance option" where
  "findEthBalance balances = find (\<lambda>entry. wb_symbol entry = ''ETH'') balances"

definition attachBalances :: "env \<Rightarrow> wallet \<Rightarrow> wallet_response io" where
  "attachBalances x w =
     catching
       (andThen (privy_getBalances x (w_providerId w) (w_chainId w)) (\<lambda>balances.
          ret ((toPublicWallet w)\<lparr>wl_balances := Some balances, wl_balance := findEthBalance balances\<rparr>)))
       (\<lambda>_. ret (toPublicWallet w))"

definition countUserWallets :: "uuid \<Rightarrow> nat io" where
  "countUserWallets userId = gets (\<lambda>s. length (filter (\<lambda>w. w_userId w = userId) (wallets s)))"

text \<open>\<open>updateMany\<close>: every matching row, with its \<open>updatedAt\<close>.\<close>

definition clearPrimaryWallet :: "uuid \<Rightarrow> unit io" where
  "clearPrimaryWallet userId =
     modify (\<lambda>s. s\<lparr>wallets := updWhere (\<lambda>w. w_userId w = userId \<and> w_isPrimary w)
       (\<lambda>w. w\<lparr>w_isPrimary := False, w_updatedAt := now s\<rparr>) (wallets s)\<rparr>)"

text \<open>The insert, against \<open>@@unique([address, chainId])\<close>.\<close>

definition insertWallet :: "uuid \<Rightarrow> provider_wallet \<Rightarrow> bool \<Rightarrow> wallet io" where
  "insertWallet userId providerWallet isPrimary s =
     (if \<exists>w \<in> set (wallets s). w_address w = vw_address providerWallet \<and> w_chainId w = vw_chainId providerWallet
      then (Inl uniqueViolation, s)
      else let w = \<lparr>w_id = nextId s, w_userId = userId, w_address = vw_address providerWallet,
                    w_chainId = vw_chainId providerWallet, w_walletType = EMBEDDED,
                    w_providerId = vw_providerWalletId providerWallet, w_providerType = PRIVY,
                    w_isPrimary = isPrimary, w_createdAt = now s, w_updatedAt = now s\<rparr>
           in (Inr w, s\<lparr>wallets := wallets s @ [w], nextId := Suc (nextId s)\<rparr>))"

definition noChain :: exn where
  "noChain = PlainError ''Chain id is not a number''"

definition createWallet :: "env \<Rightarrow> uuid \<Rightarrow> create_wallet_dto \<Rightarrow> wallet_response io" where
  "createWallet x userId dto =
     andThen (lift (bc_getBlockchainConfig x)) (\<lambda>blockchain.
     andThen (lift (case orElse (map_option Some (cw_chainId dto)) (bc_chainId blockchain) of
                      None \<Rightarrow> Inl noChain | Some c \<Rightarrow> Inr c)) (\<lambda>chainId.
     andThen (case cw_isPrimary dto of
                Some b \<Rightarrow> ret b
              | None \<Rightarrow> andThen (countUserWallets userId) (\<lambda>n. ret (n = 0))) (\<lambda>isPrimary.
     andThen (whenE isPrimary (clearPrimaryWallet userId)) (\<lambda>_.
     andThen (privy_ensurePrivyUserId x userId) (\<lambda>privyUserId.
     andThen (privy_createWallet x userId chainId (Some privyUserId)) (\<lambda>providerWallet.
     andThen (insertWallet userId providerWallet isPrimary) (\<lambda>wallet.
     andThen (auditLog x \<lparr>al_userId = Some userId, al_action = WALLET_CREATED, al_entityType = ''wallet'',
                al_entityId = w_id wallet,
                al_metadata = Some [(''address'', JStr (w_address wallet)), (''chainId'', JNum (w_chainId wallet)),
                  (''providerType'', JStr ''PRIVY'')]\<rparr>) (\<lambda>_.
       ret (toPublicWallet wallet)))))))))"

text \<open>\<open>orderBy: [{ isPrimary: 'desc' }, { createdAt: 'asc' }]\<close>.\<close>

definition walletsOf :: "uuid \<Rightarrow> world \<Rightarrow> wallet list" where
  "walletsOf userId s =
     (let ws = sort_key w_createdAt (filter (\<lambda>w. w_userId w = userId) (wallets s))
      in filter w_isPrimary ws @ filter (\<lambda>w. \<not> w_isPrimary w) ws)"

definition listWallets :: "env \<Rightarrow> uuid \<Rightarrow> wallet_response list io" where
  "listWallets x userId = andThen (gets (walletsOf userId)) (mapAll (attachBalances x))"

definition getWallet :: "env \<Rightarrow> uuid \<Rightarrow> uuid \<Rightarrow> wallet_response io" where
  "getWallet x userId walletId = andThen (findOwnedWallet userId walletId) (attachBalances x)"

definition enableServerSigning :: "env \<Rightarrow> uuid \<Rightarrow> uuid \<Rightarrow> wallet_response io" where
  "enableServerSigning x userId walletId =
     andThen (findOwnedWallet userId walletId) (\<lambda>w.
     andThen (privy_ensureWalletServerSigner x (w_providerId w)) (\<lambda>_.
       attachBalances x w))"

text \<open>\<open>faucetEnabled\<close>: whether \<open>process.env.FAUCET_ENABLED\<close> is \<open>true\<close>.\<close>

definition assertFaucetEnabled :: "env \<Rightarrow> bool \<Rightarrow> unit res" where
  "assertFaucetEnabled x faucetEnabled =
     (let nodeEnv' = (case c_app (e_config x) of Some a \<Rightarrow> nodeEnv a | None \<Rightarrow> ''development'')
      in if \<not> faucetEnabled \<and> nodeEnv' \<notin> {''local'', ''development'', ''test''}
         then Inl (forbidden ''Testnet faucet is disabled. Set FAUCET_ENABLED=true or run in local/dev.'')
         else Inr ())"

definition mintInput :: "wallet \<Rightarrow> string \<Rightarrow> send_transaction_input" where
  "mintInput w d =
     \<lparr>s_providerWalletId = w_providerId w, s_chainId = w_chainId w, s_to = faucetAddress, s_value = None,
      s_data = Some d\<rparr>"

definition mintAaveTestUsdc :: "env \<Rightarrow> bool \<Rightarrow> uuid \<Rightarrow> uuid \<Rightarrow> mint_response io" where
  "mintAaveTestUsdc x faucetEnabled userId walletId =
     andThen (lift (assertFaucetEnabled x faucetEnabled)) (\<lambda>_.
     andThen (findOwnedWallet userId walletId) (\<lambda>w.
     andThen (require (w_chainId w = 84532)
                (badRequest ''Aave test USDC faucet is only available on Base Sepolia (chainId 84532)'')) (\<lambda>_.
     andThen (lift (e_getAddress x (w_address w))) (\<lambda>recipient.
     andThen (lift (e_encode x (Mint testUsdcAddress recipient faucetMintAmount))) (\<lambda>d.
     andThen (privy_sendTransaction x (mintInput w d)) (\<lambda>broadcast.
       ret \<lparr>mi_walletId = w_id w, mi_walletAddress = w_address w, mi_chainId = w_chainId w,
            mi_assetAddress = testUsdcAddress, mi_amount = showInt faucetMintAmount,
            mi_txHash = b_hash broadcast\<rparr>))))))"

section \<open>The wallet table\<close>

definition primaries :: "uuid \<Rightarrow> world \<Rightarrow> wallet list" where
  "primaries userId s = filter (\<lambda>w. w_userId w = userId \<and> w_isPrimary w) (wallets s)"

text \<open>\<open>one\<close>: whether a user has at most one primary wallet, too.\<close>

definition walletsInv :: "bool \<Rightarrow> world \<Rightarrow> bool" where
  "walletsInv one s \<longleftrightarrow> distinct (map w_id (wallets s)) \<and> (\<forall>w \<in> set (wallets s). w_id w < nextId s)
     \<and> distinct (map (\<lambda>w. (w_address w, w_chainId w)) (wallets s))
     \<and> (one \<longrightarrow> (\<forall>u. length (primaries u s) \<le> 1))"

lemma primaries_append:
  "primaries u (s\<lparr>wallets := wallets s @ [w], nextId := n\<rparr>)
   = primaries u s @ (if w_userId w = u \<and> w_isPrimary w then [w] else [])"
  by (simp add: primaries_def)

lemma cleared_fields:
  "map w_id (updWhere p (\<lambda>w. w\<lparr>w_isPrimary := False, w_updatedAt := t\<rparr>) ws) = map w_id ws"
  "map (\<lambda>w. (w_address w, w_chainId w)) (updWhere p (\<lambda>w. w\<lparr>w_isPrimary := False, w_updatedAt := t\<rparr>) ws)
     = map (\<lambda>w. (w_address w, w_chainId w)) ws"
  by (rule map_updWhere; simp)+

lemma cleared_none: "primaries u (snd (clearPrimaryWallet u s)) = []"
proof -
  have "filter (\<lambda>w. w_userId w = u \<and> w_isPrimary w)
      (updWhere (\<lambda>w. w_userId w = u \<and> w_isPrimary w) (\<lambda>w. w\<lparr>w_isPrimary := False, w_updatedAt := t\<rparr>) ws) = []" for t ws
    by (induction ws) auto
  then show ?thesis by (simp add: primaries_def clearPrimaryWallet_def)
qed

lemma cleared_others: "v \<noteq> u \<Longrightarrow> primaries v (snd (clearPrimaryWallet u s)) = primaries v s"
proof -
  assume "v \<noteq> u"
  then have "filter (\<lambda>w. w_userId w = v \<and> w_isPrimary w)
        (updWhere (\<lambda>w. w_userId w = u \<and> w_isPrimary w) (\<lambda>w. w\<lparr>w_isPrimary := False, w_updatedAt := t\<rparr>) ws)
      = filter (\<lambda>w. w_userId w = v \<and> w_isPrimary w) ws" for t ws
    by (induction ws) auto
  then show ?thesis by (simp add: primaries_def clearPrimaryWallet_def)
qed

lemma cleared_walletInv: "walletsInv one s \<Longrightarrow> walletsInv one (snd (clearPrimaryWallet u s))"
proof -
  assume inv: "walletsInv one s"
  have "length (primaries v (snd (clearPrimaryWallet u s))) \<le> 1" if one for v
    using inv that cleared_none [of u s] cleared_others [of v u s] by (cases "v = u") (auto simp: walletsInv_def)
  with inv show ?thesis
    by (auto simp: walletsInv_def clearPrimaryWallet_def cleared_fields in_updWhere)
qed

lemma insert_walletInv:
  assumes inv: "walletsInv one s" and p: "one \<Longrightarrow> isPrimary \<Longrightarrow> primaries u s = []"
  shows "walletsInv one (snd (insertWallet u pw isPrimary s))"
proof (cases "\<exists>w \<in> set (wallets s). w_address w = vw_address pw \<and> w_chainId w = vw_chainId pw")
  case True
  with inv show ?thesis by (simp add: insertWallet_def)
next
  case False
  with inv p show ?thesis
    by (auto simp: insertWallet_def Let_def walletsInv_def primaries_append less_Suc_eq image_iff)
qed

text \<open>Steps between the two that touch neither the wallets nor their numbering.\<close>

definition walletFrame :: "(world \<Rightarrow> bool) \<Rightarrow> bool" where
  "walletFrame I \<longleftrightarrow> ignoresOutside I \<and> (\<forall>s us. I (s\<lparr>users := us\<rparr>) = I s)"

lemma preserves_setPrivyUserId: "walletFrame I \<Longrightarrow> preserves I (setPrivyUserId u p)"
  by (simp add: preserves_def setPrivyUserId_def walletFrame_def split: option.split)

lemma preserves_ensurePrivyUserId:
  assumes "walletFrame I"
  shows "preserves I (privy_ensurePrivyUserId x u)"
proof -
  have "ignoresOutside I" using assms by (simp add: walletFrame_def)
  then show ?thesis unfolding privy_ensurePrivyUserId_def privy_findExistingPrivyUser_def
    by (intro pres preserves_setPrivyUserId assms)
qed

lemma preserves_privyCreate: "ignoresOutside I \<Longrightarrow> preserves I (privy_createWallet x u c p)"
  unfolding privy_createWallet_def by (intro pres)

definition readyFor :: "bool \<Rightarrow> uuid \<Rightarrow> bool \<Rightarrow> world \<Rightarrow> bool" where
  "readyFor one u p s \<longleftrightarrow> walletsInv one s \<and> (one \<and> p \<longrightarrow> primaries u s = [])"

lemma walletFrame_ready [simp]: "walletFrame (readyFor one u p)" "ignoresOutside (readyFor one u p)" "ignoresOutside (walletsInv one)"
  by (simp_all add: walletFrame_def ignoresOutside_def walletsInv_def primaries_def readyFor_def)

lemma walletFrame_walletsInv: "walletFrame (walletsInv one)"
  by (simp add: walletFrame_def ignoresOutside_def walletsInv_def primaries_def)

lemma walletFrame_triple:
  "preserves I m \<Longrightarrow> (\<And>s. I s \<Longrightarrow> J s) \<Longrightarrow> triple I m (\<lambda>_. I) (\<lambda>_. J)"
  by (rule tripleI) (auto dest: preserves_run)

lemma clear_triple:
  "triple (walletsInv one) (whenE p (clearPrimaryWallet u)) (\<lambda>_. readyFor one u p) (\<lambda>_. walletsInv one)"
proof (rule tripleI)
  fix s y s' assume inv: "walletsInv one s" and run: "whenE p (clearPrimaryWallet u) s = (Inr y, s')"
  show "readyFor one u p s'"
  proof (cases p)
    case True
    with run have "s' = snd (clearPrimaryWallet u s)" by simp
    with True inv cleared_walletInv cleared_none show ?thesis by (simp add: readyFor_def)
  next
    case False
    with inv run show ?thesis by (simp add: readyFor_def)
  qed
next
  fix s e s' assume "whenE p (clearPrimaryWallet u) s = (Inl e, s')"
  then show "walletsInv one s'" by (cases p) (simp_all add: clearPrimaryWallet_def)
qed

lemma insert_triple:
  "triple (readyFor one u p) (insertWallet u pw p) (\<lambda>_. walletsInv one) (\<lambda>_. walletsInv one)"
proof -
  have "readyFor one u p s \<Longrightarrow> insertWallet u pw p s = (r, s') \<Longrightarrow> walletsInv one s'" for s r s'
    using insert_walletInv [of one s p u pw] by (auto simp: readyFor_def)
  then show ?thesis by (auto intro: tripleI)
qed

lemma createWallet_triple: "triple (walletsInv one) (createWallet x u dto) (\<lambda>_. walletsInv one) (\<lambda>_. walletsInv one)"
proof -
  have step: "triple (walletsInv one) (andThen (whenE p (clearPrimaryWallet u)) (\<lambda>_.
     andThen (privy_ensurePrivyUserId x u) (\<lambda>privyUserId.
     andThen (privy_createWallet x u chainId (Some privyUserId)) (\<lambda>providerWallet.
     andThen (insertWallet u providerWallet p) (\<lambda>wallet.
     andThen (auditLog x (a wallet)) (\<lambda>_. ret (toPublicWallet wallet))))))) (\<lambda>_. walletsInv one) (\<lambda>_. walletsInv one)"
    for p chainId a
    by (intro triple_andThen [OF clear_triple] triple_andThen [OF insert_triple]
        triple_andThen [OF walletFrame_triple [OF preserves_ensurePrivyUserId]]
        triple_andThen [OF walletFrame_triple [OF preserves_privyCreate]] triple_preserves pres walletFrame_ready)
       (simp_all add: readyFor_def)
  show ?thesis unfolding createWallet_def countUserWallets_def
    by (intro triple_andThen [OF triple_preserves] pres step)
qed

section \<open>Ownership and failures\<close>

text \<open>Without an owner there is no answer, and an answer is about the wallet asked for.\<close>

lemma findOwned_same: "findOwnedWallet u i s = (r, s') \<Longrightarrow> s' = s"
  by (auto simp: findOwnedWallet_def split: option.splits)

lemma attachBalances_shows:
  "\<exists>r s'. attachBalances x w s = (Inr r, s') \<and> wl_walletId r = w_id w \<and> wl_walletAddress r = w_address w
     \<and> wl_privyWalletId r = w_providerId w"
proof -
  obtain b s1 where "privy_getBalances x (w_providerId w) (w_chainId w) s = (b, s1)" by force
  then show ?thesis
    by (cases b) (simp_all add: attachBalances_def catching_def andThen_def toPublicWallet_def)
qed

lemma getWallet_owned:
  assumes "getWallet x u i s = (Inr r, s')"
  shows "\<exists>w \<in> set (wallets s). w_id w = i \<and> w_userId w = u \<and> wl_walletId r = i \<and> wl_walletAddress r = w_address w"
proof -
  from assms obtain w s1 where w: "findOwnedWallet u i s = (Inr w, s1)" and a: "attachBalances x w s1 = (Inr r, s')"
    unfolding getWallet_def by (rule andThen_InrE)
  have "s1 = s" using w by (rule findOwned_same)
  moreover have "w \<in> set (wallets s)" "w_id w = i" "w_userId w = u"
    using w by (auto simp: findOwnedWallet_def split: option.splits dest: find_Some_iff_first)
  ultimately show ?thesis using a attachBalances_shows [of x w s1] by auto
qed

lemma getWallet_foreign:
  "(\<And>w. w \<in> set (wallets s) \<Longrightarrow> w_id w = i \<Longrightarrow> w_userId w \<noteq> u) \<Longrightarrow>
   getWallet x u i s = (Inl (notFound ''Wallet not found''), s)"
proof -
  assume "\<And>w. w \<in> set (wallets s) \<Longrightarrow> w_id w = i \<Longrightarrow> w_userId w \<noteq> u"
  then have "find (\<lambda>w. w_id w = i \<and> w_userId w = u) (wallets s) = None" by (auto simp: find_None_all)
  then show ?thesis by (simp add: getWallet_def findOwnedWallet_def andThen_def)
qed

text \<open>
  The primary flag is cleared before the provider is asked, in a write of its own: when the
  provider fails the user is left without a primary wallet.
\<close>

lemma createWallet_drops_primary:
  assumes b: "bc_getBlockchainConfig x = Inr b" and p: "cw_isPrimary dto = Some True" and c: "cw_chainId dto = Some c"
    and fails: "privy_ensurePrivyUserId x u (snd (clearPrimaryWallet u s)) = (Inl e, s')"
  shows "createWallet x u dto s = (Inl e, s') \<and> primaries u s' = []"
proof -
  obtain t where cl: "clearPrimaryWallet u s = (Inr (), t)" by (simp add: clearPrimaryWallet_def)
  have "walletFrame (\<lambda>t. primaries u t = [])" by (simp add: walletFrame_def ignoresOutside_def primaries_def)
  from preserves_run [OF preserves_ensurePrivyUserId [OF this] fails cleared_none]
  show ?thesis using b p c fails
    by (simp add: createWallet_def orElse_def andThen_def cl)
qed

section \<open>The faucet\<close>

text \<open>A request of the faucet comes from a wallet of the table that is the caller's.\<close>

lemma mint_sends:
  assumes "q \<in> set (sent (snd (mintAaveTestUsdc x faucetEnabled u i s)))" and "q \<notin> set (sent s)"
  shows "assertFaucetEnabled x faucetEnabled = Inr () \<and>
    (\<exists>w \<in> set (wallets s). w_id w = i \<and> w_userId w = u \<and> w_chainId w = 84532 \<and>
      (\<exists>r d. e_getAddress x (w_address w) = Inr r \<and> e_encode x (Mint testUsdcAddress r faucetMintAmount) = Inr d
         \<and> asksFor (mintInput w d) q))"
proof -
  from assms obtain w r d where gate: "assertFaucetEnabled x faucetEnabled = Inr ()"
    and w: "find (\<lambda>w. w_id w = i \<and> w_userId w = u) (wallets s) = Some w" and c: "w_chainId w = 84532"
    and r: "e_getAddress x (w_address w) = Inr r" and d: "e_encode x (Mint testUsdcAddress r faucetMintAmount) = Inr d"
    and q: "q \<in> set (sent (snd (privy_sendTransaction x (mintInput w d) s)))"
    by (auto simp: mintAaveTestUsdc_def findOwnedWallet_def andThen_def require_def
        split: prod.splits sum.splits option.splits if_splits)
  from q assms(2) have "asksFor (mintInput w d) q" by (rule privy.asked_only)
  with gate w c r d show ?thesis by (auto dest: find_Some_iff_first)
qed

end
