(* ===== verification/Queries.thy ===== *)
theory Queries
  imports Wallets
begin

text \<open>
  The reading side of the earn module: \<^verbatim>\<open>earn.service.ts\<close> (vaults and the deposit preview),
  \<^verbatim>\<open>earn-positions.service.ts\<close> and \<^verbatim>\<open>earn-transactions.service.ts\<close>.  The query objects are what
  the validation of the request lets through; a page is at least 1, a limit between 1 and 100.
  \<open>isoString\<close> is \<open>Date.prototype.toISOString\<close> for dates from 1970 to 9999.

  The facts: nothing here writes a table; a position or a transaction is shown to its owner only;
  the pages of a listing are slices of lists sorted newest first, each of which the database orders anew where
  rows were created at the same time (\<open>ties\<close>): they join to the listing if no two were, and may repeat a row
  otherwise (\<open>pages_repeat\<close>).
\<close>

section \<open>Dates\<close>

definition leapYear :: "nat \<Rightarrow> bool" where
  "leapYear y = (y mod 4 = 0 \<and> (y mod 100 \<noteq> 0 \<or> y mod 400 = 0))"

definition yearDays :: "nat \<Rightarrow> nat" where
  "yearDays y = (if leapYear y then 366 else 365)"

definition monthDays :: "nat \<Rightarrow> nat list" where
  "monthDays y = [31, if leapYear y then 29 else 28, 31, 30, 31, 30, 31, 31, 30, 31, 30, 31]"

text \<open>The year of a day counted from the first of January of year \<open>y\<close>, and the day left in it.\<close>

function yearFrom :: "nat \<Rightarrow> nat \<Rightarrow> nat \<times> nat" where
  "yearFrom y d = (if d < yearDays y then (y, d) else yearFrom (Suc y) (d - yearDays y))"
  by pat_completeness auto
termination by (relation "measure snd") (auto simp: yearDays_def split: if_splits)

declare yearFrom.simps [simp del]

fun monthFrom :: "nat \<Rightarrow> nat list \<Rightarrow> nat \<Rightarrow> nat \<times> nat" where
  "monthFrom m [] d = (m, d)"
| "monthFrom m (n # ns) d = (if d < n then (m, d) else monthFrom (Suc m) ns (d - n))"

record civil =
  cv_year :: nat
  cv_month :: nat
  cv_day :: nat
  cv_hour :: nat
  cv_minute :: nat
  cv_second :: nat
  cv_ms :: nat

definition civilOf :: "nat \<Rightarrow> civil" where
  "civilOf t =
     (let (y, d) = yearFrom 1970 (t div 86400000);
          (m, k) = monthFrom 1 (monthDays y) d;
          r = t mod 86400000
      in \<lparr>cv_year = y, cv_month = m, cv_day = Suc k, cv_hour = r div 3600000, cv_minute = r div 60000 mod 60,
          cv_second = r div 1000 mod 60, cv_ms = r mod 1000\<rparr>)"

definition padStart :: "nat \<Rightarrow> string \<Rightarrow> string" where
  "padStart w s = replicate (w - length s) (CHR ''0'') @ s"

definition isoString :: "nat \<Rightarrow> string" where
  "isoString t =
     (let c = civilOf t
      in padStart 4 (showNat (cv_year c)) @ ''-'' @ padStart 2 (showNat (cv_month c)) @ ''-''
         @ padStart 2 (showNat (cv_day c)) @ ''T'' @ padStart 2 (showNat (cv_hour c)) @ '':''
         @ padStart 2 (showNat (cv_minute c)) @ '':'' @ padStart 2 (showNat (cv_second c)) @ ''.''
         @ padStart 3 (showNat (cv_ms c)) @ ''Z'')"

section \<open>Vaults\<close>

record vault_response =
  vr_vaultId :: string
  vr_protocol :: string
  vr_chainId :: int
  vr_contractAddress :: string
  vr_name :: string
  vr_symbol :: string
  vr_assetSymbol :: string
  vr_assetDecimals :: nat
  vr_assetAddress :: string
  vr_apy :: string
  vr_tvl :: string
  vr_sharePrice :: string
  vr_totalSupply :: string
  vr_description :: string
  vr_isEnabled :: bool
  vr_depositEnabled :: bool
  vr_withdrawEnabled :: bool
  vr_riskLevel :: risk_level

definition toVaultResponse :: "protocol_vault \<Rightarrow> vault_response" where
  "toVaultResponse v =
     \<lparr>vr_vaultId = pv_vaultId v, vr_protocol = pv_protocol v, vr_chainId = pv_chainId v,
      vr_contractAddress = pv_contractAddress v, vr_name = pv_name v, vr_symbol = pv_symbol v,
      vr_assetSymbol = pv_assetSymbol v, vr_assetDecimals = pv_assetDecimals v, vr_assetAddress = pv_assetAddress v,
      vr_apy = pv_apy v, vr_tvl = pv_tvl v, vr_sharePrice = pv_sharePrice v, vr_totalSupply = pv_totalSupply v,
      vr_description = pv_description v, vr_isEnabled = pv_isEnabled v, vr_depositEnabled = pv_depositEnabled v,
      vr_withdrawEnabled = pv_withdrawEnabled v, vr_riskLevel = pv_riskLevel v\<rparr>"

definition earn_listVaults :: "env \<Rightarrow> get_vaults_input \<Rightarrow> vault_response list io" where
  "earn_listVaults x query = andThen (aave_getVaults x query) (\<lambda>vs. ret (map toVaultResponse vs))"

definition earn_getVault :: "env \<Rightarrow> string \<Rightarrow> int option \<Rightarrow> vault_response io" where
  "earn_getVault x vaultId chainId = andThen (aave_getVault x vaultId chainId) (\<lambda>v. ret (toVaultResponse v))"

record deposit_preview =
  de_vaultId :: string
  de_chainId :: int
  de_walletId :: uuid
  de_amount :: string
  de_walletBalance :: string
  de_allowance :: string
  de_requiresApproval :: bool
  de_estimatedGas :: string
  de_estimatedShares :: string

definition earn_assertVaultActive :: "protocol_vault \<Rightarrow> unit io" where
  "earn_assertVaultActive v = require (pv_isEnabled v) (badRequest (''Vault is not active: '' @ pv_vaultId v))"

definition earn_previewDeposit :: "env \<Rightarrow> uuid \<Rightarrow> string \<Rightarrow> deposit_dto \<Rightarrow> deposit_preview io" where
  "earn_previewDeposit x userId vaultId dto =
     andThen (lift (bigInt (dd_amount dto))) (\<lambda>amount.
     andThen (aave_getVault x vaultId None) (\<lambda>vault.
     andThen (earn_assertVaultActive vault) (\<lambda>_.
     andThen (findOwnedWallet userId (dd_walletId dto)) (\<lambda>wallet.
     andThen (require (w_chainId wallet = pv_chainId vault)
                (badRequest (''Wallet chain '' @ showInt (w_chainId wallet) @ '' does not match vault chain ''
                   @ showInt (pv_chainId vault)))) (\<lambda>_.
     andThen (bc_fetchDepositPreviewData x vault (w_address wallet) amount) (\<lambda>preview.
     andThen (require (\<not> dp_walletBalance preview < amount)
                (insufficientBalance (dd_amount dto) (showInt (dp_walletBalance preview)))) (\<lambda>_.
       ret \<lparr>de_vaultId = pv_vaultId vault, de_chainId = pv_chainId vault, de_walletId = dd_walletId dto,
            de_amount = dd_amount dto, de_walletBalance = showInt (dp_walletBalance preview),
            de_allowance = showInt (dp_allowance preview), de_requiresApproval = dp_requiresApproval preview,
            de_estimatedGas = showInt (dp_estimatedGas preview),
            de_estimatedShares = showInt (dp_estimatedShares preview)\<rparr>)))))))"

section \<open>Transactions\<close>

record transactions_query =
  tq_walletId :: "uuid option"
  tq_vaultId :: "string option"
  tq_positionId :: "uuid option"
  tq_type :: "transaction_type option"
  tq_status :: "transaction_status option"
  tq_page :: "nat option"
  tq_limit :: "nat option"

record transaction_response =
  tx_transactionId :: uuid
  tx_type :: transaction_type
  tx_status :: transaction_status
  tx_amount :: string
  tx_chainId :: int
  tx_walletId :: "uuid option"
  tx_vaultId :: "string option"
  tx_positionId :: "uuid option"
  tx_txHash :: "string option"
  tx_blockNumber :: "string option"
  tx_explorerUrl :: "string option"
  tx_confirmedAt :: "string option"
  tx_createdAt :: string
  tx_updatedAt :: string

record transactions_list =
  tl_items :: "transaction_response list"
  tl_page :: nat
  tl_limit :: nat
  tl_total :: nat

definition etx_toResponse :: "env \<Rightarrow> transaction_record \<Rightarrow> transaction_response" where
  "etx_toResponse x r =
     \<lparr>tx_transactionId = tr_transactionId r, tx_type = tr_type r, tx_status = tr_status r, tx_amount = tr_amount r,
      tx_chainId = tr_chainId r, tx_walletId = tr_walletId r, tx_vaultId = tr_vaultSlug r,
      tx_positionId = tr_positionId r, tx_txHash = tr_txHash r, tx_blockNumber = tr_blockNumber r,
      tx_explorerUrl = explorer_forTransaction x (tr_chainId r) (tr_txHash r),
      tx_confirmedAt = (if tr_status r = T_CONFIRMED then Some (isoString (tr_updatedAt r)) else None),
      tx_createdAt = isoString (tr_createdAt r), tx_updatedAt = isoString (tr_updatedAt r)\<rparr>"

definition etx_mapTransactions :: "env \<Rightarrow> transaction_record list \<Rightarrow> transaction_response list" where
  "etx_mapTransactions x rs = map (etx_toResponse x) rs"

definition filterOf :: "uuid \<Rightarrow> transactions_query \<Rightarrow> transaction_filter" where
  "filterOf userId q =
     \<lparr>tf_userId = userId, tf_walletId = tq_walletId q, tf_vaultSlug = tq_vaultId q, tf_positionId = tq_positionId q,
      tf_type = tq_type q, tf_status = tq_status q\<rparr>"

definition etx_listTransactions :: "env \<Rightarrow> (transaction \<Rightarrow> nat) \<Rightarrow> uuid \<Rightarrow> transactions_query \<Rightarrow> transactions_list io" where
  "etx_listTransactions x ties userId q =
     andThen (tx_findByUserWithFilters ties (filterOf userId q) (tq_page q) (tq_limit q)) (\<lambda>result.
       ret \<lparr>tl_items = map (etx_toResponse x) (tp_items result), tl_page = tp_page result,
            tl_limit = tp_limit result, tl_total = tp_total result\<rparr>)"

definition etx_resolveVaultSlug :: "transaction_record \<Rightarrow> string option io" where
  "etx_resolveVaultSlug r =
     (case tr_vaultSlug r of
        Some (c # cs) \<Rightarrow> ret (Some (c # cs))
      | _ \<Rightarrow> (case tr_vaultId r of
                None \<Rightarrow> ret None
              | Some v \<Rightarrow> gets (\<lambda>s. map_option v_slug (vaultById s v))))"

definition etx_getTransaction :: "env \<Rightarrow> uuid \<Rightarrow> uuid \<Rightarrow> transaction_response io" where
  "etx_getTransaction x userId transactionId =
     andThen (tx_findById transactionId) (\<lambda>found.
     (case found of
        None \<Rightarrow> throw (notFound ''Transaction not found'')
      | Some r \<Rightarrow>
          if tr_userId r \<noteq> userId then throw (notFound ''Transaction not found'')
          else andThen (etx_resolveVaultSlug r) (\<lambda>vaultSlug.
                 ret (etx_toResponse x (r\<lparr>tr_vaultSlug := vaultSlug\<rparr>)))))"

section \<open>Positions\<close>

record positions_query =
  pq_walletId :: "uuid option"
  pq_vaultId :: "string option"
  pq_status :: "position_status option"

record position_response =
  po_positionId :: uuid
  po_vaultId :: string
  po_vaultName :: string
  po_chainId :: int
  po_assetSymbol :: string
  po_assetDecimals :: nat
  po_status :: position_status
  po_depositedAmount :: string
  po_currentAmount :: string
  po_shares :: string
  po_sharePrice :: string
  po_currentValue :: string
  po_createdAt :: string
  po_updatedAt :: string

record position_detail =
  pd_position :: position_response
  pd_transactions :: "transaction_response list"

definition epos_toResponse :: "env \<Rightarrow> position_with_vault \<Rightarrow> position_response io" where
  "epos_toResponse x pv =
     (case pv of (p, v) \<Rightarrow>
        andThen (aave_getVault x (v_slug v) (Some (v_chainId v))) (\<lambda>protocolVault.
        let shares = showInt (p_shares p); sharePrice = pv_sharePrice protocolVault
        in andThen (lift (computeCurrentValue x shares sharePrice (v_assetDecimals v) (v_assetDecimals v))) (\<lambda>value.
             ret \<lparr>po_positionId = p_id p, po_vaultId = v_slug v, po_vaultName = v_name v, po_chainId = v_chainId v,
                  po_assetSymbol = v_assetSymbol v, po_assetDecimals = v_assetDecimals v, po_status = p_status p,
                  po_depositedAmount = showInt (p_depositedAmount p), po_currentAmount = showInt (p_currentAmount p),
                  po_shares = shares, po_sharePrice = sharePrice, po_currentValue = value,
                  po_createdAt = isoString (p_createdAt p), po_updatedAt = isoString (p_updatedAt p)\<rparr>)))"

definition epos_listPositions :: "env \<Rightarrow> uuid \<Rightarrow> positions_query \<Rightarrow> position_response list io" where
  "epos_listPositions x userId q =
     andThen (pos_findByUserWithFilters \<lparr>pf_userId = userId, pf_vaultSlug = pq_vaultId q, pf_status = pq_status q,
                pf_walletId = pq_walletId q\<rparr>) (mapAll (epos_toResponse x))"

definition epos_getPosition :: "env \<Rightarrow> uuid \<Rightarrow> uuid \<Rightarrow> position_detail io" where
  "epos_getPosition x userId positionId =
     andThen (pos_findByIdWithVault positionId) (\<lambda>found.
     (case found of
        None \<Rightarrow> throw (notFound ''Position not found'')
      | Some (p, v) \<Rightarrow>
          if p_userId p \<noteq> userId then throw (notFound ''Position not found'')
          else andThen (epos_toResponse x (p, v)) (\<lambda>baseResponse.
               andThen (tx_findByPositionId positionId) (\<lambda>transactions.
               let withVault = map (\<lambda>r. r\<lparr>tr_vaultSlug := Some (orElse (tr_vaultSlug r) (v_slug v))\<rparr>) transactions
               in ret \<lparr>pd_position = baseResponse, pd_transactions = etx_mapTransactions x withVault\<rparr>))))"

section \<open>A date and its parts\<close>

definition daysBefore :: "nat \<Rightarrow> nat" where
  "daysBefore y = sum_list (map yearDays [1970..<y])"

definition msOf :: "civil \<Rightarrow> nat" where
  "msOf c = (daysBefore (cv_year c) + sum_list (take (cv_month c - 1) (monthDays (cv_year c))) + (cv_day c - 1)) * 86400000
     + cv_hour c * 3600000 + cv_minute c * 60000 + cv_second c * 1000 + cv_ms c"

lemma yearFrom_props:
  "yearFrom y d = (y', d') \<Longrightarrow> 1970 \<le> y \<Longrightarrow> daysBefore y + d = daysBefore y' + d' \<and> d' < yearDays y' \<and> y \<le> y'"
proof (induction y d rule: yearFrom.induct)
  case (1 y d)
  show ?case
  proof (cases "d < yearDays y")
    case True
    with 1 show ?thesis by (simp add: yearFrom.simps [of y d])
  next
    case False
    then have run: "yearFrom (Suc y) (d - yearDays y) = (y', d')" using "1.prems" by (simp add: yearFrom.simps [of y d])
    have "daysBefore (Suc y) = daysBefore y + yearDays y" using "1.prems" by (simp add: daysBefore_def)
    with "1.IH" [OF False run] "1.prems" False show ?thesis by simp
  qed
qed

lemma monthFrom_props:
  "monthFrom m ns d = (m', d') \<Longrightarrow> d < sum_list ns \<Longrightarrow>
   m \<le> m' \<and> sum_list (take (m' - m) ns) + d' = d \<and> m' - m < length ns \<and> d' < ns ! (m' - m)"
proof (induction m ns d rule: monthFrom.induct)
  case (2 m n ns d)
  show ?case
  proof (cases "d < n")
    case False
    with 2 have "Suc m \<le> m' \<and> sum_list (take (m' - Suc m) ns) + d' = d - n \<and> m' - Suc m < length ns \<and> d' < ns ! (m' - Suc m)"
      by auto
    moreover from this have "m' - m = Suc (m' - Suc m)" by auto
    ultimately show ?thesis using False by auto
  qed (use 2 in auto)
qed simp

lemma monthDays_sum: "sum_list (monthDays y) = yearDays y"
  by (simp add: monthDays_def yearDays_def)

lemma ms_parts: "(r::nat) div 3600000 * 3600000 + r div 60000 mod 60 * 60000 + r div 1000 mod 60 * 1000 + r mod 1000 = r"
proof -
  have "r div 1000 = r div 60000 * 60 + r div 1000 mod 60" using div_mult2_eq [of r 1000 60] by simp
  moreover have "r div 60000 = r div 3600000 * 60 + r div 60000 mod 60" using div_mult2_eq [of r 60000 60] by simp
  moreover have "r = r div 1000 * 1000 + r mod 1000" by (rule div_mult_mod_eq [symmetric])
  ultimately show ?thesis by linarith
qed

lemma civil_roundtrip: "msOf (civilOf t) = t"
proof -
  obtain y d where y: "yearFrom 1970 (t div 86400000) = (y, d)" by force
  obtain m k where m: "monthFrom 1 (monthDays y) d = (m, k)" by force
  have yd: "t div 86400000 = daysBefore y + d" "d < yearDays y"
    using yearFrom_props [OF y] by (simp_all add: daysBefore_def)
  then have "sum_list (take (m - 1) (monthDays y)) + k = d"
    using monthFrom_props [OF m] by (simp add: monthDays_sum)
  then have "daysBefore y + sum_list (take (m - 1) (monthDays y)) + k = t div 86400000" using yd by simp
  moreover have "msOf (civilOf t) = (daysBefore y + sum_list (take (m - 1) (monthDays y)) + k) * 86400000
     + (let r = t mod 86400000 in r div 3600000 * 3600000 + r div 60000 mod 60 * 60000 + r div 1000 mod 60 * 1000 + r mod 1000)"
    by (simp add: civilOf_def y m [simplified] msOf_def Let_def)
  ultimately have "msOf (civilOf t) = t div 86400000 * 86400000 + t mod 86400000"
    by (simp only: Let_def ms_parts)
  then show ?thesis by (simp only: div_mult_mod_eq)
qed

section \<open>Reading only\<close>

lemma preserves_queries:
  assumes "ignoresOutside I"
  shows "preserves I (earn_listVaults x gv)" "preserves I (earn_getVault x v c)"
    "preserves I (earn_previewDeposit x u v dto)" "preserves I (etx_listTransactions x ties u tq)"
    "preserves I (etx_getTransaction x u i)" "preserves I (epos_listPositions x u pq)"
    "preserves I (epos_getPosition x u i)" "preserves I (listWallets x u)" "preserves I (getWallet x u i)"
proof -
  have v: "preserves I (aave_getVault x v c)" for v c by (rule aave.reads_only [OF assms])
  have b: "preserves I (aave_buildVault x d)" for d
    unfolding aave_buildVault_def Let_def by (intro pres reserveData_reads_only assms)
  show "preserves I (earn_listVaults x gv)" unfolding earn_listVaults_def aave_getVaults_def by (intro pres b)
  show "preserves I (earn_getVault x v c)" unfolding earn_getVault_def by (intro pres v)
  show "preserves I (earn_previewDeposit x u v dto)"
    unfolding earn_previewDeposit_def earn_assertVaultActive_def findOwnedWallet_def bc_fetchDepositPreviewData_def Let_def
    by (intro pres v assms)
  show "preserves I (etx_listTransactions x ties u tq)"
    unfolding etx_listTransactions_def tx_findByUserWithFilters_def txRepo_findByUserWithFilters_def Let_def by (intro pres)
  have slug: "preserves I (etx_resolveVaultSlug r)" for r
    unfolding etx_resolveVaultSlug_def by (auto intro!: pres split: option.split list.split)
  show "preserves I (etx_getTransaction x u i)"
    unfolding etx_getTransaction_def tx_findById_def txRepo_findById_def by (intro pres slug)
  have p: "preserves I (epos_toResponse x pv)" for pv unfolding epos_toResponse_def Let_def by (intro pres v)
  show "preserves I (epos_listPositions x u pq)"
    unfolding epos_listPositions_def pos_findByUserWithFilters_def posRepo_findByUserWithFilters_def by (intro pres p)
  show "preserves I (epos_getPosition x u i)"
    unfolding epos_getPosition_def tx_findByPositionId_def txRepo_findByPositionId_def Let_def by (intro pres p)
  have a: "preserves I (attachBalances x w)" for w
    unfolding attachBalances_def privy_getBalances_def privy_getWallet_def by (intro pres assms)
  show "preserves I (listWallets x u)" unfolding listWallets_def by (intro pres a)
  show "preserves I (getWallet x u i)" unfolding getWallet_def findOwnedWallet_def by (intro pres a)
qed

section \<open>Owners\<close>

lemma getTransaction_owned:
  assumes "etx_getTransaction x u i s = (Inr r, s')"
  shows "\<exists>t \<in> set (transactions s). t_id t = i \<and> t_userId t = u \<and> tx_transactionId r = i"
proof -
  from assms obtain t where "find (\<lambda>t. t_id t = i) (transactions s) = Some t" "t_userId t = u" "tx_transactionId r = t_id t"
    by (auto simp: etx_getTransaction_def tx_findById_def txRepo_findById_def etx_toResponse_def toTransactionRecord_def
        elim!: andThen_InrE split: option.splits if_splits)
  then show ?thesis by (auto dest: find_Some_iff_first)
qed

lemma getTransaction_foreign:
  "(\<And>t. t \<in> set (transactions s) \<Longrightarrow> t_id t = i \<Longrightarrow> t_userId t \<noteq> u) \<Longrightarrow>
   etx_getTransaction x u i s = (Inl (notFound ''Transaction not found''), s)"
  by (auto simp: etx_getTransaction_def tx_findById_def txRepo_findById_def toTransactionRecord_def andThen_def
      split: option.split dest: find_Some_iff_first)

lemma getPosition_foreign:
  "(\<And>p. p \<in> set (positions s) \<Longrightarrow> p_id p = i \<Longrightarrow> p_userId p \<noteq> u) \<Longrightarrow>
   epos_getPosition x u i s = (Inl (notFound ''Position not found''), s)"
  by (auto simp: epos_getPosition_def pos_findByIdWithVault_def posRepo_findByIdWithVault_def withVault_def andThen_def
      split: option.split dest: find_Some_iff_first)

section \<open>Pages\<close>

text \<open>All transactions a query selects, newest first, and as they are answered.\<close>

definition selected :: "(transaction \<Rightarrow> nat) \<Rightarrow> transaction_filter \<Rightarrow> world \<Rightarrow> transaction_record list" where
  "selected ties f s =
     map (\<lambda>t. toTransactionRecord (vaultSlugOf s t) t)
       (sortDesc t_createdAt (sort_key ties (filter (transactionMatches s f) (transactions s))))"

lemma concat_slices: "concat (map (\<lambda>k. take n (drop (k * n) xs)) [0..<m]) = take (m * n) xs"
proof (induction m)
  case (Suc m)
  have "take (Suc m * n) xs = take (m * n) xs @ take n (drop (m * n) xs)"
    by (simp add: take_add [symmetric] add.commute)
  with Suc show ?case by simp
qed simp

lemma list_run:
  "etx_listTransactions x ties u q s =
     (let page = (case tq_page q of Some p \<Rightarrow> p | None \<Rightarrow> 1); n = (case tq_limit q of Some l \<Rightarrow> l | None \<Rightarrow> 20)
      in (Inr \<lparr>tl_items = map (etx_toResponse x) (take n (drop ((page - 1) * n) (selected ties (filterOf u q) s))),
               tl_page = page, tl_limit = n, tl_total = length (selected ties (filterOf u q) s)\<rparr>, s))"
  by (simp add: etx_listTransactions_def tx_findByUserWithFilters_def txRepo_findByUserWithFilters_def selected_def
      Let_def andThen_def drop_map take_map comp_def)

text \<open>Rows that were created at different times are in one order, whatever the database does with ties.\<close>

lemma sortDesc_sorted: "sorted (rev (map k (sortDesc k xs)))"
  by (simp add: sortDesc_def rev_map)

lemma sortDesc_ties:
  assumes "distinct (map k xs)"
  shows "sortDesc k (sort_key ties xs) = sortDesc k xs"
proof -
  have keys: "distinct (map k (sort_key ties xs))" using assms by (simp add: distinct_map)
  have "rev (map k (sortDesc k ys)) = sorted_list_of_set (k ` set ys)" if "distinct (map k ys)" for ys
    by (rule sorted_distinct_set_unique) (use that sortDesc_sorted [of k ys] in \<open>auto simp: distinct_map sortDesc_def\<close>)
  from this [OF keys] this [OF assms] have "map k (sortDesc k (sort_key ties xs)) = map k (sortDesc k xs)"
    by (metis rev_is_rev_conv set_sort)
  moreover have "inj_on k (set (sortDesc k (sort_key ties xs)) \<union> set (sortDesc k xs))" using assms by (simp add: distinct_map)
  ultimately show ?thesis by (rule map_inj_on)
qed

lemma sorted_strict:
  "sorted_wrt (\<lambda>a b. k b \<le> (k a :: nat)) ys \<Longrightarrow> distinct (map k ys) \<Longrightarrow> sorted_wrt (\<lambda>a b. k b < k a) ys"
proof (induction ys)
  case (Cons a ys)
  have "k b \<noteq> k a" if "b \<in> set ys" for b using that Cons.prems(2) by (auto simp: image_iff)
  with Cons show ?case by (auto simp: le_less)
qed simp

lemma sortDesc_strict:
  assumes "distinct (map k xs)"
  shows "sorted_wrt (\<lambda>a b. k b < k a) (sortDesc k xs)"
proof -
  have "distinct (map k (sortDesc k xs))" using assms by (simp add: distinct_map sortDesc_def)
  moreover have "sorted_wrt (\<lambda>a b. k b \<le> k a) (sortDesc k xs)"
    using sortDesc_sorted [of k xs] by (simp add: sorted_wrt_rev sorted_wrt_map)
  ultimately show ?thesis by (intro sorted_strict)
qed

text \<open>
  Of two transactions created at the same time each page can have the same one: the first page and the second,
  one row each, show one of them twice and the other not at all.
\<close>

lemma pages_repeat:
  assumes "filter (transactionMatches s (filterOf u q)) (transactions s) = [t, t']"
    and "t_createdAt t = t_createdAt t'" and "ties t < (ties t' :: nat)" and "ties' t' < (ties' t :: nat)"
  shows "map_sum id tl_items (fst (etx_listTransactions x ties' u (q\<lparr>tq_page := Some 2, tq_limit := Some 1\<rparr>) s))
     = map_sum id tl_items (fst (etx_listTransactions x ties u (q\<lparr>tq_page := Some 1, tq_limit := Some 1\<rparr>) s))"
    and "map_sum id tl_items (fst (etx_listTransactions x ties u (q\<lparr>tq_page := Some 1, tq_limit := Some 1\<rparr>) s))
     = Inr [etx_toResponse x (toTransactionRecord (vaultSlugOf s t) t)]"
proof -
  have "filterOf u (q\<lparr>tq_page := p, tq_limit := l\<rparr>) = filterOf u q" for p l by (simp add: filterOf_def)
  then have "selected ties (filterOf u (q\<lparr>tq_page := p, tq_limit := l\<rparr>)) s
      = map (\<lambda>t. toTransactionRecord (vaultSlugOf s t) t) [t, t']"
    "selected ties' (filterOf u (q\<lparr>tq_page := p, tq_limit := l\<rparr>)) s
      = map (\<lambda>t. toTransactionRecord (vaultSlugOf s t) t) [t', t]" for p l
    using assms by (simp_all add: selected_def sortDesc_def)
  then show "map_sum id tl_items (fst (etx_listTransactions x ties' u (q\<lparr>tq_page := Some 2, tq_limit := Some 1\<rparr>) s))
     = map_sum id tl_items (fst (etx_listTransactions x ties u (q\<lparr>tq_page := Some 1, tq_limit := Some 1\<rparr>) s))"
    "map_sum id tl_items (fst (etx_listTransactions x ties u (q\<lparr>tq_page := Some 1, tq_limit := Some 1\<rparr>) s))
     = Inr [etx_toResponse x (toTransactionRecord (vaultSlugOf s t) t)]" by (simp_all add: list_run Let_def)
qed

end
