(* ===== verification/Catalog.thy ===== *)
theory Catalog
  imports Blockchain
begin

text \<open>
  The services that only read the configuration or probe a dependency: \<^verbatim>\<open>src/chains\<close>,
  \<^verbatim>\<open>src/assets\<close>, \<^verbatim>\<open>src/system\<close>, \<^verbatim>\<open>src/health\<close> with \<open>withTimeout\<close>, the two provider factories, the
  queue's connection options and the scheduler's job, and the start-up checks of the Redis and
  Privy clients.

  A promise is the time after which it settles, if ever, and how (\<open>promise\<close>).  The facts: a
  listing shows the enabled entries that match and no others; a probe under \<open>withTimeout\<close> answers
  in time whatever it waits for; readiness is refused exactly when a dependency is down, and the
  filter then hides which.
\<close>

section \<open>Chains and assets\<close>

record chain_response =
  cs_slug :: string
  cs_name :: string
  cs_chainId :: int
  cs_isTestnet :: bool
  cs_isEnabled :: bool
  cs_rpcUrl :: string
  cs_explorerUrl :: string
  cs_nativeCurrency :: native_currency

definition chainResponse :: "chain_definition \<Rightarrow> chain_response" where
  "chainResponse c =
     \<lparr>cs_slug = ch_slug c, cs_name = ch_name c, cs_chainId = ch_chainId c, cs_isTestnet = isTestnet c,
      cs_isEnabled = ch_isEnabled c, cs_rpcUrl = ch_rpcUrl c, cs_explorerUrl = explorerUrl c,
      cs_nativeCurrency = nativeCurrency c\<rparr>"

definition getConfiguredChains :: "env \<Rightarrow> chain_definition list res" where
  "getConfiguredChains x =
     (case c_chains (e_config x) of
        None \<Rightarrow> Inl (PlainError ''Chains configuration failed to load'') | Some cs \<Rightarrow> Inr cs)"

definition chains_findAll :: "env \<Rightarrow> int option \<Rightarrow> chain_response list res" where
  "chains_findAll x chainId =
     (case getConfiguredChains x of
        Inl e \<Rightarrow> Inl e
      | Inr cs \<Rightarrow>
          (let enabled = filter ch_isEnabled cs
           in Inr (case chainId of
                     None \<Rightarrow> map chainResponse enabled
                   | Some i \<Rightarrow> map chainResponse (filter (\<lambda>c. ch_chainId c = i) enabled))))"

record asset_response =
  at_symbol :: string
  at_name :: string
  at_chainId :: int
  at_contractAddress :: string
  at_decimals :: nat
  at_isEnabled :: bool

definition assetResponse :: "asset_definition \<Rightarrow> asset_response" where
  "assetResponse a =
     \<lparr>at_symbol = as_symbol a, at_name = as_name a, at_chainId = as_chainId a,
      at_contractAddress = as_contractAddress a, at_decimals = as_decimals a, at_isEnabled = as_isEnabled a\<rparr>"

definition getConfiguredAssets :: "env \<Rightarrow> asset_definition list res" where
  "getConfiguredAssets x =
     (case c_assets (e_config x) of
        None \<Rightarrow> Inl (PlainError ''Assets configuration failed to load'') | Some as \<Rightarrow> Inr as)"

definition assets_findAll :: "env \<Rightarrow> int option \<Rightarrow> string option \<Rightarrow> asset_response list res" where
  "assets_findAll x chainId symbol' =
     (case getConfiguredAssets x of
        Inl e \<Rightarrow> Inl e
      | Inr as \<Rightarrow>
          (let enabled = filter as_isEnabled as;
               onChain = (case chainId of None \<Rightarrow> enabled | Some i \<Rightarrow> filter (\<lambda>a. as_chainId a = i) enabled);
               named = (case symbol' of
                          None \<Rightarrow> onChain
                        | Some q \<Rightarrow> filter (\<lambda>a. as_symbol a = toUpperCase (trim q)) onChain)
           in Inr (map assetResponse named)))"

section \<open>System\<close>

record environment_response =
  en_environment :: string
  en_chain :: string
  en_chainId :: "int option"
  en_mainnetEnabled :: bool
  en_allowMainnetTransactions :: bool

definition getEnvironment :: "env \<Rightarrow> environment_response res" where
  "getEnvironment x =
     (case (c_app (e_config x), c_blockchain (e_config x)) of
        (Some app, Some blockchain) \<Rightarrow>
          Inr \<lparr>en_environment = appEnv app, en_chain = bc_chain blockchain, en_chainId = bc_chainId blockchain,
               en_mainnetEnabled = mainnetEnabled blockchain,
               en_allowMainnetTransactions = allowMainnetTransactions blockchain\<rparr>
      | _ \<Rightarrow> Inl (PlainError ''Application configuration is not loaded''))"

section \<open>Promises and time limits\<close>

text \<open>\<open>None\<close>: it never settles.\<close>

type_synonym 'a promise = "(nat \<times> 'a res) option"

text \<open>\<open>Promise.race\<close> with the timer: of two that settle at once the operation is taken to win.\<close>

definition withTimeout :: "'a promise \<Rightarrow> nat \<Rightarrow> string \<Rightarrow> nat \<times> 'a res" where
  "withTimeout operation timeoutMs label =
     (case operation of
        Some (t, r) \<Rightarrow> if t \<le> timeoutMs then (t, r)
                       else (timeoutMs, Inl (PlainError (label @ '' timed out after '' @ showNat timeoutMs @ ''ms'')))
      | None \<Rightarrow> (timeoutMs, Inl (PlainError (label @ '' timed out after '' @ showNat timeoutMs @ ''ms''))))"

section \<open>Health\<close>

text \<open>What the probes meet: the database, the answer to \<open>PING\<close>, the node, the JWKS address.\<close>

record probes =
  pb_database :: bool
  pb_ping :: "string res"
  pb_blockNumber :: "int promise"
  pb_jwks :: "bool promise"

datatype up_down = Up | Down

definition upDown :: "bool \<Rightarrow> up_down" where
  "upDown b = (if b then Up else Down)"

definition checkRedis :: "probes \<Rightarrow> bool" where
  "checkRedis p = (case pb_ping p of Inl e \<Rightarrow> False | Inr pong \<Rightarrow> pong = ''PONG'')"

text \<open>The chain of the probe is looked up inside the limited operation.\<close>

definition isRpcHealthy :: "env \<Rightarrow> probes \<Rightarrow> nat \<Rightarrow> int option \<Rightarrow> bool res" where
  "isRpcHealthy x p timeoutMs chainId =
     (case (case chainId of
              Some c \<Rightarrow> Inr (Some c)
            | None \<Rightarrow> (case bc_getBlockchainConfig x of Inl e \<Rightarrow> Inl e | Inr b \<Rightarrow> Inr (bc_chainId b))) of
        Inl e \<Rightarrow> Inl e
      | Inr target \<Rightarrow>
          Inr (case snd (withTimeout
                     (case target of
                        None \<Rightarrow> Some (0, Inl (PlainError ''Unsupported chainId: NaN''))
                      | Some c \<Rightarrow> (case bc_getChainDefinition x c of
                                     Inl e \<Rightarrow> Some (0, Inl e) | Inr _ \<Rightarrow> pb_blockNumber p))
                     timeoutMs ''RPC health check'') of
                 Inl e \<Rightarrow> False | Inr _ \<Rightarrow> True))"

text \<open>\<open>PrivyService.isHealthy\<close>: \<open>pb_jwks\<close> settles with whether the response was ok.\<close>

definition privy_isHealthy :: "privy_config \<Rightarrow> probes \<Rightarrow> nat \<Rightarrow> bool" where
  "privy_isHealthy c p timeoutMs =
     (case snd (withTimeout (pb_jwks p) timeoutMs ''Privy health check'') of
        Inl e \<Rightarrow> False
      | Inr responseOk \<Rightarrow> responseOk \<and> appId c \<noteq> [] \<and> appSecret c \<noteq> [])"

record ready_response =
  re_status :: string
  re_database :: up_down
  re_redis :: up_down

text \<open>The exception carries the response, which has no \<open>message\<close>, \<open>error\<close> or \<open>code\<close>.\<close>

definition notReady :: exn where
  "notReady = HttpException 503 (RespObject \<lparr>pl_message = None, pl_error = None, pl_code = None, pl_details = None\<rparr>)"

definition getReadiness :: "probes \<Rightarrow> ready_response res" where
  "getReadiness p =
     (let databaseUp = pb_database p; redisUp = checkRedis p; allUp = (databaseUp \<and> redisUp)
      in if \<not> allUp then Inl notReady
         else Inr \<lparr>re_status = ''ok'', re_database = upDown databaseUp, re_redis = upDown redisUp\<rparr>)"

record health_details =
  hd_database :: up_down
  hd_redis :: up_down
  hd_rpc :: up_down
  hd_privy :: up_down

text \<open>\<open>NaN\<close> is not nullish; a timer takes it, and what is below one, as one.\<close>

definition getDependencyTimeoutMs :: "env \<Rightarrow> nat" where
  "getDependencyTimeoutMs x =
     (case c_security (e_config x) of
        None \<Rightarrow> 5000
      | Some s \<Rightarrow> (case dependencyCheckTimeoutMs s of None \<Rightarrow> 1 | Some t \<Rightarrow> nat (max 1 t)))"

definition getDetails :: "env \<Rightarrow> privy_config \<Rightarrow> probes \<Rightarrow> health_details res" where
  "getDetails x c p =
     (let timeoutMs = getDependencyTimeoutMs x
      in case isRpcHealthy x p timeoutMs None of
           Inl e \<Rightarrow> Inl e
         | Inr rpc \<Rightarrow>
             Inr \<lparr>hd_database = upDown (pb_database p), hd_redis = upDown (checkRedis p), hd_rpc = upDown rpc,
                  hd_privy = upDown (privy_isHealthy c p timeoutMs)\<rparr>)"

section \<open>Start-up\<close>

definition redis_onModuleInit :: "env \<Rightarrow> (string \<times> string) res" where
  "redis_onModuleInit x =
     (case c_redis (e_config x) of
        None \<Rightarrow> Inl (PlainError ''Redis configuration failed to load'')
      | Some r \<Rightarrow> if restUrl r = [] \<or> restToken r = [] then Inl (PlainError ''Redis configuration failed to load'')
                  else Inr (restUrl r, restToken r))"

definition privy_onModuleInit :: "env \<Rightarrow> privy_config res" where
  "privy_onModuleInit x =
     (case c_privy (e_config x) of
        None \<Rightarrow> Inl (PlainError ''Privy configuration failed to load'')
      | Some c \<Rightarrow> if appId c = [] \<or> appSecret c = [] \<or> jwksUrl c = []
                  then Inl (PlainError ''Privy configuration failed to load'') else Inr c)"

definition queue_getRedisConfig :: "env \<Rightarrow> redis_config res" where
  "queue_getRedisConfig x =
     (case c_redis (e_config x) of
        None \<Rightarrow> Inl (PlainError ''Redis URL configuration failed to load'')
      | Some r \<Rightarrow> if redisUrl r = [] then Inl (PlainError ''Redis URL configuration failed to load'') else Inr r)"

definition isQueueEnabled :: "env \<Rightarrow> bool res" where
  "isQueueEnabled x = (case queue_getRedisConfig x of Inl e \<Rightarrow> Inl e | Inr r \<Rightarrow> Inr (queueEnabled r))"

text \<open>A factory knows one provider.\<close>

definition walletProviderFor :: "string option \<Rightarrow> string res" where
  "walletProviderFor configured =
     (let provider = (case configured of Some p \<Rightarrow> p | None \<Rightarrow> ''privy'')
      in if provider \<noteq> ''privy''
         then Inl (PlainError (''Unsupported wallet provider \"'' @ provider @ ''\". Only \"privy\" is supported.''))
         else Inr provider)"

definition earnProviderFor :: "string option \<Rightarrow> string res" where
  "earnProviderFor configured =
     (let provider = (case configured of Some p \<Rightarrow> p | None \<Rightarrow> ''aave'')
      in if provider \<noteq> ''aave''
         then Inl (PlainError (''Unsupported earn protocol provider \"'' @ provider @ ''\". Only \"aave\" is supported.''))
         else Inr provider)"

text \<open>The repeated job the scheduler adds, when the queue is enabled.\<close>

record repeat_job =
  rj_name :: string
  rj_jobId :: string
  rj_every :: nat
  rj_attempts :: nat
  rj_backoffDelay :: nat

definition reconciliationIntervalMs :: nat where
  "reconciliationIntervalMs = 30000"

definition schedulerJob :: "env \<Rightarrow> repeat_job option res" where
  "schedulerJob x =
     (case isQueueEnabled x of
        Inl e \<Rightarrow> Inl e
      | Inr enabled \<Rightarrow>
          Inr (if \<not> enabled then None
               else Some \<lparr>rj_name = ''TransactionReconciliationJob'', rj_jobId = ''transaction-reconciliation-repeatable'',
                          rj_every = reconciliationIntervalMs, rj_attempts = 3, rj_backoffDelay = 2000\<rparr>))"

section \<open>Facts\<close>

text \<open>The listed assets are the enabled ones that match, in the order of the configuration.\<close>

lemma assets_listed:
  assumes "c_assets (e_config x) = Some as"
  shows "assets_findAll x chainId symbol' = Inr (map assetResponse (filter (\<lambda>a. as_isEnabled a
      \<and> (\<forall>i. chainId = Some i \<longrightarrow> as_chainId a = i)
      \<and> (\<forall>q. symbol' = Some q \<longrightarrow> as_symbol a = toUpperCase (trim q))) as))"
  using assms
  by (auto simp: assets_findAll_def getConfiguredAssets_def Let_def conj_ac split: option.split intro!: filter_cong)

lemma chains_listed:
  assumes "c_chains (e_config x) = Some cs"
  shows "chains_findAll x chainId = Inr (map chainResponse (filter (\<lambda>c. ch_isEnabled c
      \<and> (\<forall>i. chainId = Some i \<longrightarrow> ch_chainId c = i)) cs))"
  using assms
  by (auto simp: chains_findAll_def getConfiguredChains_def Let_def conj_ac split: option.split)

lemma withTimeout_in_time: "fst (withTimeout p ms label) \<le> ms"
  by (auto simp: withTimeout_def split: option.split)

lemma withTimeout_settled: "t \<le> ms \<Longrightarrow> withTimeout (Some (t, r)) ms label = (t, r)"
  by (simp add: withTimeout_def)

lemma withTimeout_late:
  "(\<forall>t r. p = Some (t, r) \<longrightarrow> ms < t) \<Longrightarrow>
   withTimeout p ms label = (ms, Inl (PlainError (label @ '' timed out after '' @ showNat ms @ ''ms'')))"
  by (cases p) (auto simp: withTimeout_def)

lemma readiness_iff:
  "(\<exists>r. getReadiness p = Inr r) \<longleftrightarrow> pb_database p \<and> pb_ping p = Inr ''PONG''"
  by (cases "pb_ping p") (auto simp: getReadiness_def checkRedis_def Let_def)

text \<open>The client of a service that is not ready is told of an internal error.\<close>

lemma not_ready_hidden:
  "getReadiness p = Inl e \<Longrightarrow>
   er_statusCode (snd (exceptionFilter sn now' url rid e)) = 503
   \<and> er_message (snd (exceptionFilter sn now' url rid e)) = MsgOne ''Internal server error''"
  by (auto simp: getReadiness_def notReady_def exceptionFilter_def exnStatus_def Let_def split: if_splits)

end
