(* ===== verification/System.thy ===== *)
theory System
  imports Controllers Accounts Queries Catalog
begin

text \<open>
  The whole back end as a step relation on the world: one step is one request served to its end
  (the mutating routes with their guard and interceptor, the wallet and account operations, the
  reads), one run of the reconciliation worker, the passing of time, or a mutation whose process
  dies on the way.  A mutation dies after its transaction was opened, after the wallet provider was
  asked, or after the hash was stored; what the database holds then is what the code had committed.
  In \<open>reachable\<close> the awaits of a creation of a wallet may be steps of their own (\<open>create\<close>), so that
  creations overlap each other and the rest; the parameter \<open>overlapping\<close> says whether they do.

  The facts: every reachable state satisfies the invariants of all tables (\<open>reachable_inv\<close>), and if
  creations do not overlap, a user has at most one primary wallet; while
  neither a process dies nor anything is left open, every position holds its confirmed deposits
  minus its confirmed withdrawals (\<open>served_books\<close>); the handlers, dying or not, never change by how
  much a position differs from that account, so only the worker can (\<open>died_books\<close>).
\<close>

section \<open>The invariants of all tables\<close>

definition sound :: "world \<Rightarrow> bool" where
  "sound s \<longleftrightarrow> dbInv s \<and> refsBelow s"

text \<open>\<open>one\<close>: whether it is among the invariants that a user has at most one primary wallet.\<close>

definition sideInvs :: "bool \<Rightarrow> world \<Rightarrow> bool" where
  "sideInvs one s \<longleftrightarrow> vaultInv s \<and> idemInv s \<and> walletsInv one s \<and> userInv s"

definition tablesInvs :: "bool \<Rightarrow> world \<Rightarrow> bool" where
  "tablesInvs one s \<longleftrightarrow> sound s \<and> sideInvs one s"

abbreviation sideInv :: "world \<Rightarrow> bool" where
  "sideInv \<equiv> sideInvs True"

abbreviation tablesInv :: "world \<Rightarrow> bool" where
  "tablesInv \<equiv> tablesInvs True"

lemma sound_skewed: "sound s \<longleftrightarrow> (\<exists>sk. base sk UNIV s)"
proof
  assume s: "sound s"
  let ?sk = "\<lambda>i. case find (\<lambda>p. p_id p = i) (positions s) of Some p \<Rightarrow> p_shares p - balanceOf s i | None \<Rightarrow> 0"
  have "distinct (map p_id (positions s))" using s by (simp add: sound_def dbInv_def posInv_def)
  then have "?sk (p_id p) = p_shares p - balanceOf s (p_id p)" if "p \<in> set (positions s)" for p
    using find_distinct_key [of p_id "positions s" p] that by simp
  moreover have "?sk i = 0" if "nextId s \<le> i" for i
  proof -
    have "find (\<lambda>p. p_id p = i) (positions s) = None"
      using s that by (fastforce simp: sound_def dbInv_def posInv_def find_None_iff)
    then show ?thesis by simp
  qed
  ultimately have "base ?sk UNIV s" using s by (simp add: sound_def base_def ledger_def openIn_def)
  then show "\<exists>sk. base sk UNIV s" by (rule exI [where P = "\<lambda>sk. base sk UNIV s"])
qed (auto simp: sound_def base_def)

lemma preserves_sound: "(\<And>sk. preserves (base sk UNIV) m) \<Longrightarrow> preserves sound m"
  by (rule preservesI) (meson preservesD sound_skewed)

lemma ignoresOutside_inv [simp]: "ignoresOutside sound" "ignoresOutside (sideInvs one)" "ignoresOutside (tablesInvs one)"
  by (simp_all add: ignoresOutside_def sound_def sideInvs_def tablesInvs_def dbInv_def posInv_def txInv_def refsBelow_def
      vaultInv_def idemInv_def walletsInv_def primaries_def userInv_def)

lemma preserves_tablesInv: "preserves sound m \<Longrightarrow> preserves (sideInvs one) m \<Longrightarrow> preserves (tablesInvs one) m"
  by (auto simp: preserves_def tablesInvs_def)

section \<open>What the earn operations do to the other tables\<close>

lemma earnFrame_sideInv: "earnFrame (sideInvs one)"
  by (auto simp: earnFrame_def ignoresOutside_def ignoresRedis_def sideInvs_def vaultInv_def idemInv_def walletsInv_def
      primaries_def userInv_def)

lemma findOrCreate_sideInv: "preserves (sideInvs one) (vaultRepo_findOrCreate pv)"
proof (rule preservesI)
  fix s assume s: "sideInvs one s"
  let ?s = "snd (vaultRepo_findOrCreate pv s)"
  have "users ?s = users s \<and> wallets ?s = wallets s \<and> idempotencyKeys ?s = idempotencyKeys s"
    using preservesD [OF findOrCreate_accounts [of "\<lambda>u w k. u = users s \<and> w = wallets s \<and> k = idempotencyKeys s"], of s pv]
    by simp
  moreover have "i < nextId ?s" if "i < nextId s" for i 
    by (rule less_le_trans [OF that findOrCreate_fields(3)])
  ultimately show "sideInvs one ?s"
    using s preservesD [OF findOrCreate_vaultInv, of s pv]
    by (simp add: sideInvs_def idemInv_def walletsInv_def primaries_def userInv_def)
qed

lemma sideInv_keys:
  "preserves (sideInvs one) (idemRepo_create ci)" "preserves (sideInvs one) (idemRepo_deleteById i)"
  "preserves (sideInvs one) (idemRepo_saveResponse x i body st)"
  by (auto simp: preserves_def idemRepo_create_def idemRepo_deleteById_def idemRepo_saveResponse_def idempotencyUpdate_def
      tableUpdate_def put_defs sideInvs_def idemInv_def vaultInv_def walletsInv_def primaries_def userInv_def in_updWhere Let_def
      split: option.splits dest!: find_Some_iff_first)

lemma handlers_keep_sideInv:
  "preserves (sideInvs one) (depositHandler x u q)" "preserves (sideInvs one) (withdrawHandler x u q)"
  "preserves (sideInvs one) (approveHandler x u q)"
  by (rule frame_routes [OF earnFrame_sideInv findOrCreate_sideInv])+

section \<open>What the account and wallet operations do to the earn tables\<close>

definition booksFrame :: "(world \<Rightarrow> bool) \<Rightarrow> bool" where
  "booksFrame I \<longleftrightarrow> ignoresOutside I \<and> (\<forall>s us. I s \<longrightarrow> I (s\<lparr>users := us\<rparr>)) \<and> (\<forall>s ws. I s \<longrightarrow> I (s\<lparr>wallets := ws\<rparr>))
     \<and> (\<forall>s n. nextId s \<le> n \<longrightarrow> I s \<longrightarrow> I (s\<lparr>nextId := n\<rparr>))"

lemma booksFrame_tables: "booksFrame (base sk S)" "booksFrame vaultInv" "booksFrame idemInv"
  by (auto simp: booksFrame_def ignoresOutside_def vaultInv_def idemInv_def intro: base_frame)

lemma booksFrame_inserts:
  assumes I: "booksFrame I"
  shows "preserves I (insertWallet u pw p)" "preserves I (insertUser e h)" "preserves I (clearPrimaryWallet u)"
    "preserves I (setPrivyUserId u pid)"
proof -
  have w: "I (s\<lparr>wallets := ws, nextId := Suc (nextId s)\<rparr>)" and u: "I (s\<lparr>users := us, nextId := Suc (nextId s)\<rparr>)"
    if "I s" for s ws us
  proof -
    have "I (s\<lparr>wallets := ws\<rparr>)" "I (s\<lparr>users := us\<rparr>)" using I that by (simp_all add: booksFrame_def)
    moreover have "nextId (s\<lparr>wallets := ws\<rparr>) \<le> Suc (nextId s)" "nextId (s\<lparr>users := us\<rparr>) \<le> Suc (nextId s)" by simp_all
    ultimately show "I (s\<lparr>wallets := ws, nextId := Suc (nextId s)\<rparr>)" "I (s\<lparr>users := us, nextId := Suc (nextId s)\<rparr>)"
      using I unfolding booksFrame_def by blast+
  qed
  show "preserves I (insertWallet u pw p)" "preserves I (insertUser e h)" "preserves I (clearPrimaryWallet u)"
    "preserves I (setPrivyUserId u pid)"
    using I by (auto simp: preserves_def insertWallet_def insertUser_def clearPrimaryWallet_def setPrivyUserId_def
        booksFrame_def Let_def w u split: option.split)
qed

lemma booksFrame_ops:
  assumes I: "booksFrame I"
  shows "preserves I (createWallet x u dto)" "preserves I (register x a cdto)"
proof -
  have out: "ignoresOutside I" using I by (simp add: booksFrame_def)
  show "preserves I (createWallet x u dto)"
    unfolding createWallet_def countUserWallets_def privy_ensurePrivyUserId_def privy_findExistingPrivyUser_def
      privy_createWallet_def
    by (intro pres booksFrame_inserts out I)
  show "preserves I (register x a cdto)"
    unfolding register_def buildAuthResponse_def signToken_def Let_def by (intro pres booksFrame_inserts out I)
qed

text \<open>The users keep their keys when the provider's user id is stored.\<close>

lemma setPrivyUserId_userInv: "preserves userInv (setPrivyUserId u p)"
proof (rule preservesI)
  fix s assume inv: "userInv s"
  let ?f = "\<lambda>q. q\<lparr>u_privyUserId := Some p, u_updatedAt := now s\<rparr>"
  have "map u_id (updWhere (\<lambda>q. u_id q = u) ?f us) = map u_id us \<and> map u_email (updWhere (\<lambda>q. u_id q = u) ?f us) = map u_email us" for us :: "user list"
    by (induction us) auto
  then show "userInv (snd (setPrivyUserId u p s))"
    using inv by (auto simp: setPrivyUserId_def userInv_def in_updWhere split: option.split if_splits)
qed

lemma createWallet_userInv: "preserves userInv (createWallet x u dto)"
proof -
  have "preserves userInv (insertWallet v pw p)" "preserves userInv (clearPrimaryWallet v)" for v pw p
    by (auto simp: preserves_def insertWallet_def clearPrimaryWallet_def userInv_def Let_def less_Suc_eq)
  then show ?thesis
    unfolding createWallet_def countUserWallets_def privy_ensurePrivyUserId_def privy_findExistingPrivyUser_def
      privy_createWallet_def
    by (intro pres setPrivyUserId_userInv ignoresOutside_userInv)
qed

lemma register_walletInv: "preserves (walletsInv one) (register x a dto)"
proof -
  have "preserves (walletsInv one) (insertUser e h)" for e h
    by (auto simp: preserves_def insertUser_def walletsInv_def primaries_def Let_def less_Suc_eq)
  then show ?thesis
    unfolding register_def buildAuthResponse_def signToken_def Let_def by (intro pres walletFrame_ready)
qed

lemma account_ops_keep:
  "preserves (tablesInvs one) (createWallet x u dto)" "preserves (tablesInvs one) (register x a cdto)"
proof -
  note b = booksFrame_ops(1) [OF booksFrame_tables(1)] booksFrame_ops(2) [OF booksFrame_tables(1)]
  have side: "preserves (sideInvs one) (createWallet x u dto)" "preserves (sideInvs one) (register x a cdto)"
    using booksFrame_ops [OF booksFrame_tables(2)] booksFrame_ops [OF booksFrame_tables(3)]
      preserves_triple [OF createWallet_triple] createWallet_userInv register_walletInv register_userInv
    by (simp_all add: preserves_def sideInvs_def)
  show "preserves (tablesInvs one) (createWallet x u dto)" "preserves (tablesInvs one) (register x a cdto)"
    by (intro preserves_tablesInv preserves_sound b side)+
qed

section \<open>The worker\<close>

lemma refsBelow_transactionUpdate:
  assumes "\<And>t t'. f t = Inr t' \<Longrightarrow> t_positionId t' = t_positionId t"
  shows "preserves refsBelow (transactionUpdate i f)"
proof (rule preservesI)
  fix s assume r: "refsBelow s"
  let ?Q = "\<lambda>t. \<forall>pid. t_positionId t = Some pid \<longrightarrow> pid < nextId s"
  have "?Q t" if "t \<in> set (transactions (snd (transactionUpdate i f s)))" for t
    using that unfolding transactionUpdate_def
  proof (rule transactionTable.update_all_rows [where Q = ?Q, rotated 2])
    show "?Q r" if "r \<in> set (transactions s)" for r using assms(1) r that by (simp add: refsBelow_def)
    show "?Q (touchTransaction (now s) r')" if "?Q r" "f r = Inr r'" for r r' using assms that by simp
  qed
  then show "refsBelow (snd (transactionUpdate i f s))" by (simp add: refsBelow_def)
qed

lemma refsBelow_tx:
  "preserves refsBelow (tx_markFailed j m)" "preserves refsBelow (tx_markReverted j b m)"
  "preserves refsBelow (tx_confirmSubmitted j b m)"
proof -
  have upd: "preserves refsBelow (txRepo_updateStatus j d)" for d
    unfolding txRepo_updateStatus_def by (rule refsBelow_transactionUpdate) (auto simp: applyStatus_def)
  show "preserves refsBelow (tx_markFailed j m)" "preserves refsBelow (tx_markReverted j b m)"
    unfolding tx_marks by (intro preserves_asTxRecord upd)+
  have "preserves refsBelow (txRepo_confirmSubmitted j b m)"
  proof (rule preservesI)
    fix s assume r: "refsBelow s"
    let ?d = "\<lparr>su_status = T_CONFIRMED, su_txHash = None, su_blockNumber = Some b, su_metadata = m\<rparr>"
    have "snd (txRepo_confirmSubmitted j b m s) = snd (txRepo_updateStatus j ?d s) \<or> snd (txRepo_confirmSubmitted j b m s) = s"
      by (auto simp: txRepo_confirmSubmitted_def txRepo_updateStatus_def Let_def split: option.splits prod.splits sum.splits)
    then show "refsBelow (snd (txRepo_confirmSubmitted j b m s))" using preservesD [OF upd r] r by metis
  qed
  then show "preserves refsBelow (tx_confirmSubmitted j b m)" unfolding tx_confirmSubmitted_def by (intro pres)
qed

lemma refsBelow_pos:
  "preserves refsBelow (pos_markFailed j)" "preserves refsBelow (pos_markActive j)" "preserves refsBelow (pos_activate j d)"
  "preserves refsBelow (pos_subtractWithdraw j w)"
proof -
  have I: "refsBelow s' = refsBelow s" if "transactions s' = transactions s" "nextId s' = nextId s" for s s'
    using that by (simp add: refsBelow_def)
  show "preserves refsBelow (pos_markFailed j)" "preserves refsBelow (pos_markActive j)" "preserves refsBelow (pos_activate j d)"
    "preserves refsBelow (pos_subtractWithdraw j w)"
    unfolding pos_ops by (intro preserves_asRecord preservesI, subst I, simp_all)+
qed

lemma reconcile_sound: "preserves sound (reconcilePendingTransactions x jobId)"
proof -
  note refs = refsBelow_tx refsBelow_pos
  have out: "ignoresOutside refsBelow" "ignoresRedis refsBelow"
    by (simp_all add: ignoresOutside_def ignoresRedis_def refsBelow_def)
  have one: "preserves refsBelow (rec_reconcileTransaction x r)" for r
    unfolding rec_reconcileTransaction_def rec_handleConfirmedTransaction_def rec_bodies rec_logConfirmedAudit_def Let_def
    by (intro pres refs out)
  have loop: "preserves refsBelow (rec_pendingLoop x summary rs)" for summary rs
    by (induction rs arbitrary: summary) (auto simp: Let_def intro!: pres one)
  have stale: "preserves refsBelow (rec_staleLoop summary rs)" for summary rs
    by (induction rs arbitrary: summary) (auto intro!: pres refs)
  have "preserves refsBelow (reconcilePendingTransactions x jobId)"
    unfolding reconcilePendingTransactions_def rec_runReconciliation_def rec_reconcileStaleCreated_def
    by (intro pres loop stale out)
  with reconcile_keeps_dbInv [of x jobId] show ?thesis by (simp add: preserves_def sound_def)
qed

lemma job_keeps: "preserves (tablesInvs one) (processJob x name jobId)"
proof -
  have "preserves (tablesInvs one) (reconcilePendingTransactions x j)" for j
    by (intro preserves_tablesInv reconcile_sound frame_reconcile earnFrame_sideInv)
  then show ?thesis unfolding processJob_def by (intro pres)
qed

section \<open>The mutating routes\<close>

lemma routes_keep:
  "preserves (tablesInvs one) (postDeposit x q)" "preserves (tablesInvs one) (postApprove x q)" "preserves (tablesInvs one) (postWithdraw x q)"
proof -
  have side: "preserves (sideInvs one) (intercept x op st q handler)" if "preserves (sideInvs one) handler" for op st handler
    by (rule preserves_intercept [OF sideInv_keys that])
  have "preserves (sideInvs one) (postDeposit x q)" "preserves (sideInvs one) (postApprove x q)" "preserves (sideInvs one) (postWithdraw x q)"
    unfolding postDeposit_def postApprove_def postWithdraw_def guarded_def
    by (intro pres side handlers_keep_sideInv)+
  then show "preserves (tablesInvs one) (postDeposit x q)" "preserves (tablesInvs one) (postApprove x q)" "preserves (tablesInvs one) (postWithdraw x q)"
    by (auto intro!: preserves_tablesInv preserves_sound routes_keep_base)
qed

section \<open>A mutation whose process dies\<close>

text \<open>
  What a mutation has done when it dies: its transaction is in the database (\<open>Opened\<close>), the wallet
  provider was asked (\<open>Asked\<close>), the hash was stored and the receipt is awaited (\<open>Submitted\<close>).  The key of
  the request was acquired before.
\<close>

datatype death = Opened | Asked | Submitted

definition dieAt ::
    "death \<Rightarrow> env \<Rightarrow> audit_log_input \<Rightarrow> string res \<Rightarrow> (string \<Rightarrow> send_transaction_input) \<Rightarrow> 'a io \<Rightarrow> unit io" where
  "dieAt d x requested callData input submit =
     (case d of
        Opened \<Rightarrow> ret ()
      | Asked \<Rightarrow>
          andThen (auditLog x requested) (\<lambda>_.
          andThen (lift callData) (\<lambda>data. andThen (privy_sendTransaction x (input data)) (\<lambda>_. ret ())))
      | Submitted \<Rightarrow> andThen (auditLog x requested) (\<lambda>_. andThen submit (\<lambda>_. ret ())))"

definition depositUntil :: "death \<Rightarrow> audit_log_input \<Rightarrow> env \<Rightarrow> uuid \<Rightarrow> string \<Rightarrow> deposit_dto \<Rightarrow> unit io" where
  "depositUntil d l x userId vaultId dto =
     andThen (assertDepositAllowed x userId) (\<lambda>_.
     andThen (dep_checks x userId vaultId dto) (\<lambda>c.
     andThen (dep_open userId dto c) (\<lambda>(dbVault, position, transaction, isNewPosition).
       dieAt d x l (bc_encodeVaultDeposit x (dc_vault c) (dc_amount c) (w_address (dc_wallet c))) (dep_sendInput c)
         (dep_submit x c transaction))))"

definition withdrawUntil :: "death \<Rightarrow> audit_log_input \<Rightarrow> env \<Rightarrow> uuid \<Rightarrow> uuid \<Rightarrow> withdraw_dto \<Rightarrow> unit io" where
  "withdrawUntil d l x userId positionId dto =
     andThen (assertWithdrawAllowed x userId) (\<lambda>_.
     andThen (wd_checks x userId positionId dto) (\<lambda>c.
     andThen (wd_open userId c) (\<lambda>transaction.
       dieAt d x l
         (bc_encodeVaultWithdraw x (wc_vault c) (wc_amountBn c) (w_address (wc_wallet c)) (wc_fullWithdraw c))
         (wd_sendInput c) (wd_submit x c transaction))))"

definition approveUntil :: "death \<Rightarrow> audit_log_input \<Rightarrow> env \<Rightarrow> uuid \<Rightarrow> string \<Rightarrow> approve_dto \<Rightarrow> unit io" where
  "approveUntil d l x userId vaultId dto =
     andThen (ap_checks x userId vaultId dto) (\<lambda>c.
       whenE (ac_allowance c < ac_amount c)
         (andThen (tx_createTransaction (ap_transactionInput userId dto c
                    [(''allowanceBefore'', JStr (showInt (ac_allowance c)))])) (\<lambda>transaction.
            dieAt d x l (bc_encodeErc20Approve x (pv_contractAddress (ac_vault c)) (ac_amount c)) (ap_sendInput c)
              (ap_submit x c transaction))))"

text \<open>A mutation that dies while it works on its transaction leaves the books with that transaction open.\<close>

lemma working_UNIV: "working sk UNIV i ty n pid K sub s \<Longrightarrow> base sk UNIV s"
  using working_base [of sk UNIV] by simp

lemma dieAt_keeps:
  assumes submit: "triple (working sk UNIV i ty n pid K False) submit Q (\<lambda>_. working sk UNIV i ty n pid K sub)"
    and Q: "\<And>r s. Q r s \<Longrightarrow> base sk UNIV s"
  shows "triple (working sk UNIV i ty n pid K False) (dieAt d x l callData input submit) (\<lambda>_. base sk UNIV) (\<lambda>_. base sk UNIV)"
proof -
  let ?w = "working sk UNIV i ty n pid K False"
  have "triple ?w (ret ()) (\<lambda>_. base sk UNIV) (\<lambda>_. base sk UNIV)" by (auto simp: triple_def intro: working_UNIV)
  moreover have "triple ?w (andThen (lift callData) (\<lambda>d. andThen (privy_sendTransaction x (input d)) (\<lambda>_. ret ())))
      (\<lambda>_. base sk UNIV) (\<lambda>_. base sk UNIV)"
    by (rule triple_frame [where I = ?w]) (auto intro!: pres privy.writes_outside intro: working_UNIV)
  moreover have "triple ?w (andThen submit (\<lambda>_. ret ())) (\<lambda>_. base sk UNIV) (\<lambda>_. base sk UNIV)"
  proof (rule triple_andThen [where R = "\<lambda>_. base sk UNIV"])
    show "triple ?w submit (\<lambda>_. base sk UNIV) (\<lambda>_. base sk UNIV)"
      using submit by (rule triple_conseq) (auto intro: Q working_UNIV)
  qed (rule triple_ret)
  ultimately show ?thesis unfolding dieAt_def
    by (cases d) (simp_all add: triple_andThen [OF triple_auditLog [OF ignoresOutside_base(2)]])
qed

lemma depositUntil_keeps:
  assumes "parseDepositDto body = Inr dto"
  shows "preserves (base sk UNIV) (depositUntil d l x u v dto)"
proof -
  from positive_amount [OF parsed_amounts(1) [OF assms]] obtain n where n: "bigIntOf (dd_amount dto) = Some n" "0 \<le> n" by fastforce
  show ?thesis unfolding depositUntil_def
    by (intro preserves_triple deposit_prefix [OF n] dieAt_keeps [OF dep_submit_triple]) (auto intro: working_UNIV)
qed

lemma withdrawUntil_keeps:
  assumes "parseWithdrawDto body = Inr dto"
  shows "preserves (base sk UNIV) (withdrawUntil d l x u i dto)"
  unfolding withdrawUntil_def
  by (intro preserves_triple withdraw_prefix [OF parsed_withdraw [OF assms]] dieAt_keeps [OF wd_submit_triple])
     (auto intro: working_UNIV)

lemma approveUntil_keeps:
  assumes "parseApproveDto body = Inr dto"
  shows "preserves (base sk UNIV) (approveUntil d l x u v dto)"
proof -
  from positive_amount [OF parsed_amounts(2) [OF assms]] obtain n where n: "bigIntOf (ad_amount dto) = Some n" "0 \<le> n" by fastforce
  have step: "preserves (base sk UNIV) (andThen (tx_createTransaction (ap_transactionInput u dto c k)) (\<lambda>t.
      dieAt d x l callData input (ap_submit x c t)))" for c k callData input
    by (intro preserves_triple triple_andThen [OF ap_create_triple [OF n]] dieAt_keeps [OF ap_submit_triple])
       (auto intro: working_UNIV)
  show ?thesis unfolding approveUntil_def
    by (intro preserves_andThen [OF preserves_ap_checks] preserves_whenE step) simp
qed

lemma dies_frame:
  assumes I: "earnFrame I" and new: "\<And>pv. preserves I (vaultRepo_findOrCreate pv)"
  shows "preserves I (depositUntil d l x u v dto)" "preserves I (withdrawUntil d l x u i wdto)"
    "preserves I (approveUntil d l x u v adto)"
proof -
  note f = frame I new
  have at: "preserves I (dieAt d x l callData input submit)" if "preserves I submit"
    for callData input and submit :: "'a io"
    unfolding dieAt_def by (cases d) (auto intro!: pres f that)
  have "preserves I (dep_submit x c t)" "preserves I (wd_submit x c' t)" "preserves I (ap_submit x c'' t)"
    for c c' c'' t unfolding dep_submit_def wd_submit_def ap_submit_def by (intro pres f)+
  note sub = this
  show "preserves I (depositUntil d l x u v dto)"
    unfolding depositUntil_def dep_open_def dep_assertNoDuplicateDeposit_def dep_openBody_def by (intro pres f at sub)
  show "preserves I (withdrawUntil d l x u i wdto)"
    unfolding withdrawUntil_def wd_open_def wd_openBody_def by (intro pres f at sub)
  show "preserves I (approveUntil d l x u v adto)"
    unfolding approveUntil_def by (intro pres f at sub)
qed

lemmas dies_sideInv = dies_frame [OF earnFrame_sideInv findOrCreate_sideInv]

section \<open>Steps\<close>

text \<open>A request served to its end, and the passing of time.\<close>

inductive serve :: "env \<Rightarrow> auth_lib \<Rightarrow> world \<Rightarrow> world \<Rightarrow> bool" for x a where
  deposit: "serve x a s (snd (postDeposit x q s))"
| approve: "serve x a s (snd (postApprove x q s))"
| withdraw: "serve x a s (snd (postWithdraw x q s))"
| wallet: "serve x a s (snd (createWallet x u dto s))"
| signing: "serve x a s (snd (enableServerSigning x u i s))"
| faucet: "serve x a s (snd (mintAaveTestUsdc x enabled u i s))"
| register: "serve x a s (snd (register x a cdto s))"
| login: "serve x a s (snd (login x a cdto s))"
| vaults: "serve x a s (snd (earn_listVaults x gv s))"
| vault: "serve x a s (snd (earn_getVault x v c s))"
| preview: "serve x a s (snd (earn_previewDeposit x u v ddto s))"
| txs: "serve x a s (snd (etx_listTransactions x ties u tq s))"
| tx: "serve x a s (snd (etx_getTransaction x u i s))"
| held: "serve x a s (snd (epos_listPositions x u pq s))"
| holding: "serve x a s (snd (epos_getPosition x u i s))"
| purse: "serve x a s (snd (listWallets x u s))"
| card: "serve x a s (snd (getWallet x u i s))"
| time: "serve x a s (s\<lparr>now := now s + d\<rparr>)"

text \<open>A mutation that dies: its key is acquired and its body valid.\<close>

inductive die :: "env \<Rightarrow> world \<Rightarrow> world \<Rightarrow> bool" for x where
  deposit: "idem_acquire x input s = (Inr (None, k), s') \<Longrightarrow> parseDepositDto body = Inr dto \<Longrightarrow>
    die x s (snd (depositUntil d l x u v dto s'))"
| approve: "idem_acquire x input s = (Inr (None, k), s') \<Longrightarrow> parseApproveDto body = Inr dto \<Longrightarrow>
    die x s (snd (approveUntil d l x u v dto s'))"
| withdraw: "idem_acquire x input s = (Inr (None, k), s') \<Longrightarrow> parseWithdrawDto body = Inr dto \<Longrightarrow>
    die x s (snd (withdrawUntil d l x u i dto s'))"

inductive work :: "env \<Rightarrow> world \<Rightarrow> world \<Rightarrow> bool" for x where
  job: "work x s (snd (processJob x name jobId s))"

inductive_cases serveE: "serve x a s t"
inductive_cases dieE: "die x s t"
inductive_simps work_iff: "work x s t"

text \<open>
  The awaits of a creation of a wallet, one by one: what creations for any users do to the tables when they
  overlap each other and other requests, or stop on the way.
\<close>

inductive create :: "env \<Rightarrow> world \<Rightarrow> world \<Rightarrow> bool" for x where
  count: "create x s (snd (countUserWallets u s))"
| clear: "create x s (snd (clearPrimaryWallet u s))"
| account: "create x s (snd (privy_ensurePrivyUserId x u s))"
| linked: "create x s (snd (setPrivyUserId u p s))"
| provider: "create x s (snd (privy_createWallet x u c p' s))"
| inserted: "create x s (snd (insertWallet u pw one s))"
| audited: "create x s (snd (auditLog x entry s))"

inductive_cases createE: "create x s t"

text \<open>\<open>overlapping\<close>: whether creations of wallets may overlap; otherwise each is served whole.\<close>

inductive reachable :: "env \<Rightarrow> auth_lib \<Rightarrow> bool \<Rightarrow> world \<Rightarrow> bool" for x a overlapping where
  start: "reachable x a overlapping (emptyWorld\<lparr>now := n\<rparr>)"
| serve: "reachable x a overlapping s \<Longrightarrow> serve x a s t \<Longrightarrow> reachable x a overlapping t"
| die: "reachable x a overlapping s \<Longrightarrow> die x s t \<Longrightarrow> reachable x a overlapping t"
| work: "reachable x a overlapping s \<Longrightarrow> work x s t \<Longrightarrow> reachable x a overlapping t"
| create: "reachable x a overlapping s \<Longrightarrow> overlapping \<Longrightarrow> create x s t \<Longrightarrow> reachable x a overlapping t"

section \<open>Every step keeps the invariants\<close>

lemma reads_keep:
  assumes "ignoresOutside I"
  shows "preserves I (enableServerSigning x u i)" "preserves I (mintAaveTestUsdc x enabled u i)" "preserves I (login x a cdto)"
proof -
  show "preserves I (enableServerSigning x u i)"
    unfolding enableServerSigning_def findOwnedWallet_def attachBalances_def privy_getBalances_def privy_getWallet_def
      privy_ensureWalletServerSigner_def privy_assertWalletServerSignable_def
    by (intro pres assms)
  show "preserves I (mintAaveTestUsdc x enabled u i)"
    unfolding mintAaveTestUsdc_def findOwnedWallet_def by (intro pres privy.writes_outside assms)
  show "preserves I (login x a cdto)" by (rule preserves_login [OF assms])
qed

lemma serve_ops:
  assumes out: "ignoresOutside I"
    and ops: "\<And>q. preserves I (postDeposit x q)" "\<And>q. preserves I (postApprove x q)" "\<And>q. preserves I (postWithdraw x q)"
      "\<And>u dto. preserves I (createWallet x u dto)" "\<And>cdto. preserves I (register x a cdto)"
    and step: "serve x a s t" "I s"
  shows "I t"
  using step(1)
proof (cases rule: serve.cases)
  case (time d)
  then show ?thesis using out step(2) by (simp add: ignoresOutside_def)
qed (use step(2) in \<open>auto intro: preservesD [rotated] ops reads_keep [OF out] preserves_queries [OF out]\<close>)

lemma serve_inv: "serve x a s t \<Longrightarrow> tablesInvs one s \<Longrightarrow> tablesInvs one t"
  by (rule serve_ops [of "tablesInvs one"]) (simp_all add: routes_keep account_ops_keep)

lemma serve_base: "serve x a s t \<Longrightarrow> base sk S s \<Longrightarrow> base sk S t"
  by (rule serve_ops [of "base sk S"]) (simp_all add: routes_keep_base booksFrame_ops booksFrame_tables)

lemma die_keeps:
  assumes out: "\<And>ci. preserves I (idemRepo_create ci)"
    and ops: "\<And>body dto d l u v. parseDepositDto body = Inr dto \<Longrightarrow> preserves I (depositUntil d l x u v dto)"
      "\<And>body dto d l u v. parseApproveDto body = Inr dto \<Longrightarrow> preserves I (approveUntil d l x u v dto)"
      "\<And>body dto d l u i. parseWithdrawDto body = Inr dto \<Longrightarrow> preserves I (withdrawUntil d l x u i dto)"
    and step: "die x s t" "I s"
  shows "I t"
proof -
  note acq = preserves_run [OF preserves_acquire [OF out] _ step(2)]
  from step(1) show ?thesis
    by (cases rule: die.cases) (auto dest: acq intro: preservesD [rotated] ops)
qed

lemma key_keeps: "preserves (tablesInvs one) (idemRepo_create ci)"
  by (intro preserves_tablesInv preserves_sound sideInv_keys keyFrame_repo keyFrame_base)

lemma die_inv: "die x s t \<Longrightarrow> tablesInvs one s \<Longrightarrow> tablesInvs one t"
  by (rule die_keeps [of "tablesInvs one"])
     (auto intro!: key_keeps preserves_tablesInv preserves_sound dies_sideInv
       intro: depositUntil_keeps approveUntil_keeps withdrawUntil_keeps)

lemma die_base: "die x s t \<Longrightarrow> base sk UNIV s \<Longrightarrow> base sk UNIV t"
  by (rule die_keeps [of "base sk UNIV"])
     (auto intro!: keyFrame_repo intro: depositUntil_keeps approveUntil_keeps withdrawUntil_keeps)

lemma work_inv: "work x s t \<Longrightarrow> tablesInvs one s \<Longrightarrow> tablesInvs one t"
  by (auto simp: work_iff intro: preservesD [OF job_keeps])

lemma start_inv: "tablesInvs one (emptyWorld\<lparr>now := n\<rparr>)"
  by (simp add: tablesInvs_def sound_def sideInvs_def emptyWorld_def dbInv_def posInv_def txInv_def refsBelow_def
      vaultInv_def idemInv_def walletsInv_def primaries_def userInv_def)

lemma start_base: "base (\<lambda>_. 0) S (emptyWorld\<lparr>now := n\<rparr>)"
  by (simp add: base_def ledger_def openIn_def emptyWorld_def dbInv_def posInv_def txInv_def refsBelow_def)

lemma create_inv: "create x s t \<Longrightarrow> tablesInvs False s \<Longrightarrow> tablesInvs False t"
proof -
  have keep: "preserves (tablesInvs False) m"
    if books: "\<And>I. booksFrame I \<Longrightarrow> preserves I m" and u: "preserves userInv m" and w: "preserves (walletsInv False) m" for m :: "'a io"
  proof -
    have "preserves (sideInvs False) m"
      using books [OF booksFrame_tables(2)] books [OF booksFrame_tables(3)] u w by (simp add: preserves_def sideInvs_def)
    then show ?thesis by (rule preserves_tablesInv [OF preserves_sound [OF books [OF booksFrame_tables(1)]]])
  qed
  have out: "preserves (tablesInvs False) m" if "\<And>I. ignoresOutside I \<Longrightarrow> preserves I m" for m :: "'a io"
    by (rule that) simp
  have user: "preserves userInv (insertWallet v pw p)" "preserves userInv (clearPrimaryWallet v)" for v pw p
    by (auto simp: preserves_def insertWallet_def clearPrimaryWallet_def userInv_def Let_def less_Suc_eq)
  have wal: "preserves (walletsInv False) (insertWallet v pw p)" "preserves (walletsInv False) (clearPrimaryWallet v)"
    "preserves (walletsInv False) (setPrivyUserId v pid)" for v pw p pid
    using insert_walletInv [of False _ p v pw] cleared_walletInv [of False _ v]
    by (auto simp: preserves_def intro: preservesD [OF preserves_setPrivyUserId [OF walletFrame_walletsInv]])
  have link: "preserves (tablesInvs False) (setPrivyUserId v pid)" for v pid
    by (rule keep) (simp_all add: booksFrame_inserts setPrivyUserId_userInv wal)
  show "create x s t \<Longrightarrow> tablesInvs False s \<Longrightarrow> tablesInvs False t"
  proof (erule createE)
    fix u assume t: "t = snd (privy_ensurePrivyUserId x u s)" and inv: "tablesInvs False s"
    have "preserves (tablesInvs False) (privy_ensurePrivyUserId x u)"
      unfolding privy_ensurePrivyUserId_def privy_findExistingPrivyUser_def by (intro pres link ignoresOutside_inv)
    then show "tablesInvs False t" using t inv by (auto dest: preservesD)
  next
    fix u assume "t = snd (clearPrimaryWallet u s)" "tablesInvs False s"
    then show "tablesInvs False t"
      using preservesD [OF keep [of "clearPrimaryWallet u", OF booksFrame_inserts(3) user(2) wal(2)]] by simp
  next
    fix u pw one assume "t = snd (insertWallet u pw one s)" "tablesInvs False s"
    then show "tablesInvs False t"
      using preservesD [OF keep [of "insertWallet u pw one", OF booksFrame_inserts(1) user(1) wal(1)]] by simp
  next
    fix u p assume "t = snd (setPrivyUserId u p s)" "tablesInvs False s"
    then show "tablesInvs False t" using preservesD [OF link] by simp
  next
    fix u c p' assume "t = snd (privy_createWallet x u c p' s)" "tablesInvs False s"
    then show "tablesInvs False t" using preservesD [OF out [OF preserves_privyCreate]] by simp
  next
    fix entry assume "t = snd (auditLog x entry s)" "tablesInvs False s"
    then show "tablesInvs False t" using preservesD [OF out [OF preserves_auditLog]] by simp
  qed (simp add: countUserWallets_def)
qed

text \<open>The primary wallets are counted only where no two creations overlap.\<close>

lemma reachable_inv: "reachable x a overlapping s \<Longrightarrow> tablesInvs (\<not> overlapping) s"
  by (induction rule: reachable.induct) (auto intro: start_inv serve_inv die_inv work_inv create_inv)

section \<open>The worker without work\<close>

lemma idle_reads:
  assumes "openIn {} s"
  shows "tx_findPendingReconciliation n s = (Inr [], s)" "tx_findStaleCreated k n s = (Inr [], s)"
proof -
  have "filter (\<lambda>t. t_status t = T_SUBMITTED \<and> t_txHash t \<noteq> None) (transactions s) = []"
    "filter (\<lambda>t. t_status t = T_CREATED \<and> t_txHash t = None \<and> t_createdAt t < k) (transactions s) = []"
    using assms by (auto simp: openIn_def isOpen_def filter_empty_conv)
  then show "tx_findPendingReconciliation n s = (Inr [], s)" "tx_findStaleCreated k n s = (Inr [], s)"
    by (simp_all add: tx_findPendingReconciliation_def txRepo_findPendingReconciliation_def tx_findStaleCreated_def
        txRepo_findStaleCreated_def)
qed

lemma idle_run: "openIn {} s \<Longrightarrow> rec_runReconciliation x s = (Inr emptySummary, s)"
  by (simp add: rec_runReconciliation_def rec_reconcileStaleCreated_def andThen_def idle_reads)

lemma work_idle:
  assumes "work x s t" and "base sk {} s"
  shows "base sk {} t"
proof -
  have red: "ignoresRedis (base sk {})" by simp
  have "preserves (base sk {}) (rec_runReconciliation x)"
    by (rule preservesI) (simp add: idle_run base_def)
  then have "preserves (base sk {}) (processJob x name jobId)" for name jobId
    unfolding processJob_def reconcilePendingTransactions_def by (intro pres red)
  with assms show ?thesis by (auto simp: work_iff intro: preservesD)
qed

end
