(* ===== verification/Isolation.thy ===== *)
theory Isolation
  imports Controllers
begin

text \<open>
  Users do not interfere: a deposit, withdrawal or approval of one user, however it ends, leaves the
  position and transaction rows of every other user as they are (\<open>routes_apart\<close>), and every transaction
  that was there before as it was, of whomever (\<open>apart_others\<close>).

  \<open>apart F h u P T\<close> is what the handlers keep on the way: the rows of the others are \<open>F\<close>, those of
  the history \<open>h\<close> are as they were, the
  positions with an id in \<open>P\<close> and the transactions with an id in \<open>T\<close> are the user's, and ids are
  fresh from the counter.  Every write of a handler is to an id in \<open>P\<close> or \<open>T\<close>, or creates a row of
  the user.
\<close>

definition othersOf :: "uuid \<Rightarrow> world \<Rightarrow> position list \<times> transaction list" where
  "othersOf u s = (filter (\<lambda>p. p_userId p \<noteq> u) (positions s), filter (\<lambda>t. t_userId t \<noteq> u) (transactions s))"

definition idsBelow :: "world \<Rightarrow> bool" where
  "idsBelow s \<longleftrightarrow> distinct (map p_id (positions s)) \<and> (\<forall>p \<in> set (positions s). p_id p < nextId s)
     \<and> (\<forall>t \<in> set (transactions s). t_id t < nextId s)"

text \<open>The transactions with an id in a set of old ones are as given.\<close>

definition history :: "uuid set \<times> transaction list \<Rightarrow> world \<Rightarrow> bool" where
  "history h s \<longleftrightarrow> filter (\<lambda>t. t_id t \<in> fst h) (transactions s) = snd h \<and> (\<forall>i \<in> fst h. i < nextId s)"

definition apart ::
    "position list \<times> transaction list \<Rightarrow> uuid set \<times> transaction list \<Rightarrow> uuid \<Rightarrow> uuid set \<Rightarrow> uuid set \<Rightarrow> world \<Rightarrow> bool" where
  "apart F h u P T s \<longleftrightarrow> othersOf u s = F \<and> idsBelow s \<and> history h s \<and> T \<inter> fst h = {}
     \<and> (\<forall>p \<in> set (positions s). p_id p \<in> P \<longrightarrow> p_userId p = u)
     \<and> (\<forall>t \<in> set (transactions s). t_id t \<in> T \<longrightarrow> t_userId t = u)"

named_theorems apart "operations on a user's own rows keep the others apart"

lemma history_frame:
  "history h s \<Longrightarrow> transactions s' = transactions s \<Longrightarrow> nextId s \<le> nextId s' \<Longrightarrow> history h s'"
  by (auto simp: history_def intro: less_le_trans)

lemma history_new:
  "history h s \<Longrightarrow> transactions s' = transactions s @ [t] \<Longrightarrow> t_id t = nextId s \<Longrightarrow> nextId s \<le> nextId s' \<Longrightarrow> history h s'"
  by (auto simp: history_def intro: less_le_trans)

lemma history_fresh: "history h s \<Longrightarrow> nextId s \<notin> fst h"
  by (auto simp: history_def)

lemma apart_start: "dbInv s \<Longrightarrow> history h s \<Longrightarrow> apart (othersOf u s) h u {} {} s"
  by (auto simp: apart_def idsBelow_def dbInv_def posInv_def txInv_def)

lemma apart_less: "apart F h u P T s \<Longrightarrow> P' \<subseteq> P \<Longrightarrow> T' \<subseteq> T \<Longrightarrow> apart F h u P' T' s"
  by (auto simp: apart_def)

lemma ignoresOutside_apart [simp]: "ignoresOutside (apart F h u P T)" "ignoresRedis (apart F h u P T)"
  by (simp_all add: ignoresOutside_def ignoresRedis_def apart_def othersOf_def idsBelow_def history_def)

section \<open>Row updates\<close>

context table
begin

text \<open>An update of rows a filter drops, to rows it drops, is not seen through the filter.\<close>

lemma update_filter:
  assumes "\<And>r. r \<in> set (get s) \<Longrightarrow> key r = i \<Longrightarrow> \<not> Q r" and "\<And>r r'. f r = Inr r' \<Longrightarrow> \<not> Q r \<Longrightarrow> \<not> Q (touch (now s) r')"
  shows "filter Q (get (snd (tableUpdate get put key touch i f s))) = filter Q (get s)"
proof (cases "tableUpdate get put key touch i f s")
  case (Pair res s')
  show ?thesis
  proof (cases res)
    case (Inl e)
    with Pair show ?thesis using update_Inl_state by fastforce
  next
    case (Inr r'')
    with Pair obtain r r' where hit: "find (\<lambda>r. key r = i) (get s) = Some r" and f: "f r = Inr r'"
      and r'': "r'' = touch (now s) r'" and s': "s' = put (updWhere (\<lambda>q. key q = i) (\<lambda>_. r'') (get s)) s"
      by (auto elim: update_InrE)
    from hit have "r \<in> set (get s)" "key r = i" by (auto dest: find_Some_iff_first)
    then have "\<not> Q r''" using assms f r'' by auto
    moreover have "filter Q (updWhere (\<lambda>q. key q = i) (\<lambda>_. r'') rs) = filter Q rs" if "\<And>r. r \<in> set rs \<Longrightarrow> key r = i \<Longrightarrow> \<not> Q r" for rs
      using that \<open>\<not> Q r''\<close> by (induction rs) auto
    ultimately show ?thesis using Pair s' assms(1) by (simp add: get_put)
  qed
qed

end

lemma history_transactionUpdate:
  assumes "i \<notin> fst h" and "\<And>t t'. f t = Inr t' \<Longrightarrow> t_id t' = t_id t"
  shows "preserves (history h) (transactionUpdate i f)"
proof (rule preservesI)
  fix s assume h: "history h s"
  have "filter (\<lambda>t. t_id t \<in> fst h) (transactions (snd (transactionUpdate i f s))) = filter (\<lambda>t. t_id t \<in> fst h) (transactions s)"
    unfolding transactionUpdate_def
    by (rule transactionTable.update_filter) (use assms in \<open>auto simp: touchTransaction_def\<close>)
  with h show "history h (snd (transactionUpdate i f s))" by (simp add: history_def)
qed

lemma apart_positionUpdate:
  assumes i: "i \<in> P" and keys: "keepsKeys f"
  shows "preserves (apart F h u P T) (positionUpdate i f)"
proof (rule preservesI)
  fix s assume a: "apart F h u P T s"
  let ?s = "snd (positionUpdate i f s)"
  have f: "p_id p' = p_id p \<and> p_userId p' = p_userId p" if "f p = Inr p'" for p p' using keys that by (simp add: keepsKeys_def)
  have own: "p_userId p = u" if "p \<in> set (positions s)" "p_id p = i" for p using a i that by (auto simp: apart_def)
  have d: "distinct (map p_id (positions s))" using a by (simp add: apart_def idsBelow_def)
  have ids: "map (\<lambda>p. (p_id p, p_userId p)) (positions ?s) = map (\<lambda>p. (p_id p, p_userId p)) (positions s)"
    unfolding positionUpdate_def by (rule positionTable.update_map [OF _ d]) (use f in auto)
  then have pid: "map p_id (positions ?s) = map p_id (positions s)" by (metis (no_types, lifting) fst_conv list.map_comp map_eq_conv comp_apply)
  have "filter (\<lambda>p. p_userId p \<noteq> u) (positions ?s) = filter (\<lambda>p. p_userId p \<noteq> u) (positions s)"
    unfolding positionUpdate_def by (rule positionTable.update_filter) (use f own in auto)
  then have "othersOf u ?s = F" using a by (simp add: apart_def othersOf_def)
  moreover have "idsBelow ?s"
  proof -
    have "p_id p < nextId s" if "p \<in> set (positions ?s)" for p
    proof -
      have "p_id p \<in> set (map p_id (positions ?s))" using that by simp
      then show ?thesis unfolding pid using a by (auto simp: apart_def idsBelow_def)
    qed
    then show ?thesis using a pid d by (simp add: apart_def idsBelow_def)
  qed
  moreover have "p_userId p = u" if "p \<in> set (positions ?s)" "p_id p \<in> P" for p
  proof -
    have "(p_id p, p_userId p) \<in> set (map (\<lambda>p. (p_id p, p_userId p)) (positions ?s))" using that(1) by simp
    then show ?thesis unfolding ids using a that(2) by (auto simp: apart_def)
  qed
  moreover have "history h ?s" using a by (auto simp: apart_def intro: history_frame)
  ultimately show "apart F h u P T ?s" using a by (simp add: apart_def)
qed

lemma apart_transactionUpdate:
  assumes i: "i \<in> T" and keys: "\<And>t t'. f t = Inr t' \<Longrightarrow> t_id t' = t_id t \<and> t_userId t' = t_userId t"
  shows "preserves (apart F h u P T) (transactionUpdate i f)"
proof (rule preservesI)
  fix s assume a: "apart F h u P T s"
  let ?s = "snd (transactionUpdate i f s)"
  have own: "t_userId t = u" if "t \<in> set (transactions s)" "t_id t = i" for t using a i that by (auto simp: apart_def)
  have "filter (\<lambda>t. t_userId t \<noteq> u) (transactions ?s) = filter (\<lambda>t. t_userId t \<noteq> u) (transactions s)"
    unfolding transactionUpdate_def
    by (rule transactionTable.update_filter) (use keys own in \<open>auto simp: touchTransaction_def\<close>)
  then have "othersOf u ?s = F" using a by (simp add: apart_def othersOf_def)
  moreover have "t_id t < nextId s \<and> (t_id t \<in> T \<longrightarrow> t_userId t = u)" if "t \<in> set (transactions ?s)" for t
    using that unfolding transactionUpdate_def
  proof (rule transactionTable.update_all_rows [where Q = "\<lambda>t. t_id t < nextId s \<and> (t_id t \<in> T \<longrightarrow> t_userId t = u)", rotated 2])
    show "t_id r < nextId s \<and> (t_id r \<in> T \<longrightarrow> t_userId r = u)" if "r \<in> set (transactions s)" for r
      using a that by (auto simp: apart_def idsBelow_def)
    show "t_id (touchTransaction (now s) r') < nextId s \<and> (t_id (touchTransaction (now s) r') \<in> T \<longrightarrow> t_userId (touchTransaction (now s) r') = u)"
      if "t_id r < nextId s \<and> (t_id r \<in> T \<longrightarrow> t_userId r = u)" "f r = Inr r'" for r r'
      using that keys [OF that(2)] by (simp add: touchTransaction_def)
  qed
  moreover have "history h ?s"
    by (rule preservesD [OF history_transactionUpdate]) (use a i keys in \<open>auto simp: apart_def\<close>)
  ultimately show "apart F h u P T ?s" using a by (simp add: apart_def idsBelow_def)
qed

lemma apart_positions [apart]:
  assumes "j \<in> P"
  shows "preserves (apart F h u P T) (pos_markFailed j)" "preserves (apart F h u P T) (pos_markActive j)"
    "preserves (apart F h u P T) (pos_markWithdrawing j)" "preserves (apart F h u P T) (pos_activate j d)"
    "preserves (apart F h u P T) (pos_addDeposit j d)" "preserves (apart F h u P T) (pos_subtractWithdraw j w)"
  unfolding pos_ops posRepo_activate_def posRepo_addDeposit_def posRepo_subtractWithdraw_def
    posRepo_findById_def posRepo_markWithdrawing_def posRepo_markActive_def posRepo_markFailed_def Let_def
  by (intro pres apart_positionUpdate keepsKeys_ops assms)+

lemma preserves_confirmSubmitted:
  assumes "\<And>d. preserves I (txRepo_updateStatus j d)"
  shows "preserves I (txRepo_confirmSubmitted j b m)"
proof (rule preservesI)
  fix s assume a: "I s"
  let ?d = "\<lparr>su_status = T_CONFIRMED, su_txHash = None, su_blockNumber = Some b, su_metadata = m\<rparr>"
  have "snd (txRepo_confirmSubmitted j b m s) = snd (txRepo_updateStatus j ?d s) \<or> snd (txRepo_confirmSubmitted j b m s) = s"
    by (auto simp: txRepo_confirmSubmitted_def txRepo_updateStatus_def Let_def split: option.splits prod.splits sum.splits)
  then show "I (snd (txRepo_confirmSubmitted j b m s))" using preservesD [OF assms a] a by metis
qed

lemma apart_transactions [apart]:
  assumes "j \<in> T"
  shows "preserves (apart F h u P T) (tx_markFailed j m)" "preserves (apart F h u P T) (tx_markReverted j b m)"
    "preserves (apart F h u P T) (tx_markConfirmed j b m)" "preserves (apart F h u P T) (tx_markSubmitted j hash m)"
    "preserves (apart F h u P T) (tx_confirmSubmitted j b m)"
proof -
  have upd: "preserves (apart F h u P T) (txRepo_updateStatus j d)" for d
    unfolding txRepo_updateStatus_def by (rule apart_transactionUpdate [OF assms]) (auto simp: applyStatus_def)
  show "preserves (apart F h u P T) (tx_markFailed j m)" "preserves (apart F h u P T) (tx_markReverted j b m)"
    "preserves (apart F h u P T) (tx_markConfirmed j b m)" "preserves (apart F h u P T) (tx_markSubmitted j hash m)"
    unfolding tx_marks by (intro preserves_asTxRecord upd)+
  show "preserves (apart F h u P T) (tx_confirmSubmitted j b m)" unfolding tx_confirmSubmitted_def
    by (intro pres preserves_confirmSubmitted upd)
qed

section \<open>New rows\<close>

lemma createPending_row:
  "pos_createPending u v s = (Inr r, s') \<Longrightarrow>
   \<exists>p. positions s' = positions s @ [p] \<and> transactions s' = transactions s \<and> nextId s' = Suc (nextId s)
     \<and> p_id p = nextId s \<and> p_userId p = u \<and> pr_positionId r = nextId s \<and> p_shares p = 0"
  by (auto simp: pos_createPending_def posRepo_create_def asRecord_def Let_def toPositionRecord_def elim!: andThen_InrE split: if_splits)

lemma createTransaction_row:
  "tx_createTransaction input s = (Inr r, s') \<Longrightarrow>
   \<exists>t. transactions s' = transactions s @ [t] \<and> positions s' = positions s \<and> nextId s' = Suc (nextId s)
     \<and> t_id t = nextId s \<and> t_userId t = ct_userId input \<and> tr_transactionId r = nextId s"
  by (auto simp: tx_createTransaction_def txRepo_create_def asTxRecord_def newTransaction_def Let_def toTransactionRecord_def
      elim!: andThen_InrE split: sum.splits)

lemma apart_createPending:
  assumes "pos_createPending u v s = (Inr r, s')" and a: "apart F h u P T s"
  shows "apart F h u (insert (pr_positionId r) P) T s'"
proof -
  from createPending_row [OF assms(1)] obtain p where p: "positions s' = positions s @ [p]" "transactions s' = transactions s"
    "nextId s' = Suc (nextId s)" "p_id p = nextId s" "p_userId p = u" "pr_positionId r = nextId s" by blast
  have below: "idsBelow s" using a by (simp add: apart_def)
  have "idsBelow s'" unfolding idsBelow_def p(1-3) using below p(4) by (auto simp: idsBelow_def less_SucI)
  moreover have "othersOf u s' = F" using a p(1,2,5) by (simp add: apart_def othersOf_def)
  moreover have "p_userId q = u" if "q \<in> set (positions s')" "p_id q \<in> insert (pr_positionId r) P" for q
  proof (cases "q \<in> set (positions s)")
    case True
    then have "p_id q \<noteq> nextId s" "p_id q \<in> P \<longrightarrow> p_userId q = u" using a below by (auto simp: apart_def idsBelow_def)
    with that(2) p(6) show ?thesis by simp
  next
    case False
    with that(1) p(1) have "q = p" by simp
    with p(5) show ?thesis by simp
  qed
  moreover have "history h s'" using a p(2,3) by (auto simp: apart_def intro: history_frame)
  ultimately show ?thesis using a by (simp add: apart_def p(2))
qed

lemma apart_createTransaction:
  assumes "tx_createTransaction input s = (Inr r, s')" and "ct_userId input = u" and a: "apart F h u P T s"
  shows "apart F h u P (insert (tr_transactionId r) T) s'"
proof -
  from createTransaction_row [OF assms(1)] obtain t where t: "transactions s' = transactions s @ [t]" "positions s' = positions s"
    "nextId s' = Suc (nextId s)" "t_id t = nextId s" "t_userId t = u" "tr_transactionId r = nextId s" using assms(2) by blast
  have below: "idsBelow s" using a by (simp add: apart_def)
  have "idsBelow s'" unfolding idsBelow_def t(1-3) using below t(4) by (auto simp: idsBelow_def less_SucI)
  moreover have "othersOf u s' = F" using a t(1,2,5) by (simp add: apart_def othersOf_def)
  moreover have "t_userId q = u" if "q \<in> set (transactions s')" "t_id q \<in> insert (tr_transactionId r) T" for q
  proof (cases "q \<in> set (transactions s)")
    case True
    then have "t_id q \<noteq> nextId s" "t_id q \<in> T \<longrightarrow> t_userId q = u" using a below by (auto simp: apart_def idsBelow_def)
    with that(2) t(6) show ?thesis by simp
  next
    case False
    with that(1) t(1) have "q = t" by simp
    with t(5) show ?thesis by simp
  qed
  moreover have "history h s'" "insert (tr_transactionId r) T \<inter> fst h = {}"
    using a t(1,3,4,6) history_fresh [of h s] by (auto simp: apart_def intro: history_new)
  ultimately show ?thesis using a by (simp add: apart_def t(2))
qed

lemma create_refused:
  "tx_createTransaction input s = (Inl e, s') \<Longrightarrow> s' = s" "pos_createPending u v s = (Inl e, s') \<Longrightarrow> s' = s"
  by (auto simp: tx_createTransaction_def txRepo_create_def asTxRecord_def pos_createPending_def posRepo_create_def asRecord_def
      andThen_def Let_def split: sum.splits if_splits prod.splits)

lemma apart_create: "ct_userId input = u \<Longrightarrow> preserves (apart F h u P T) (tx_createTransaction input)"
proof (rule preservesI)
  fix s assume u: "ct_userId input = u" and a: "apart F h u P T s"
  obtain r s' where run: "tx_createTransaction input s = (r, s')" by force
  show "apart F h u P T (snd (tx_createTransaction input s))"
    using run create_refused(1) [of input s] apart_createTransaction [of input s _ s', OF _ u a] a
    by (cases r) (auto elim: apart_less)
qed

lemma submitted_id: "tx_markSubmitted i h m s = (Inr r, s') \<Longrightarrow> tr_transactionId r = i"
  unfolding tx_markSubmitted_def asTxRecord_def txRepo_updateStatus_def transactionUpdate_def
  by (elim andThen_InrE, elim transactionTable.update_InrE)
     (auto simp: applyStatus_def toTransactionRecord_def touchTransaction_def dest: find_Some_iff_first)

section \<open>The deposit\<close>

lemma dep_submit_id: "dep_submit x c t s = (Inr (sub, rc), s') \<Longrightarrow> tr_transactionId sub = tr_transactionId t"
  unfolding dep_submit_def by (elim andThen_InrE) (auto dest: submitted_id)

lemma dep_submit_apart: "tr_transactionId t \<in> T \<Longrightarrow> preserves (apart F h u P T) (dep_submit x c t)"
  unfolding dep_submit_def by (intro pres apart_transactions privy.writes_outside ignoresOutside_apart)

lemma dep_attempt_apart:
  assumes p: "pr_positionId p \<in> P" and t: "tr_transactionId t \<in> T"
  shows "preserves (apart F h u P T) (dep_attempt x u' dto c v p t isNew)"
proof -
  note a = apart_positions [OF p] apart_transactions [OF t] ignoresOutside_apart
  have fail: "preserves (apart F h u P T) (dep_fail p isNew t e)" for e unfolding dep_fail_def by (intro pres a)
  have settle: "preserves (apart F h u P T) (dep_settle x u' dto c v p isNew sub rc)" if "tr_transactionId sub = tr_transactionId t" for sub rc
    unfolding dep_settle_def dep_reverted_def dep_confirmed_def dep_confirmBody_def that by (intro pres a)
  show ?thesis unfolding dep_attempt_def
    by (intro preserves_catching fail preserves_andThen_ret [OF dep_submit_apart [OF t]]) (auto dest!: dep_submit_id intro: settle)
qed

lemma dep_openBody_apart:
  assumes "dep_openBody u v dto c s = (Inr (p, t, isNew), s')" and a: "apart F h u {} {} s"
  shows "apart F h u {pr_positionId p} {tr_transactionId t} s'"
proof -
  from dep_openBody_run [OF assms(1)] obtain s1 where
    cases: "isNew \<and> pos_createPending u v s = (Inr p, s1)
       \<or> \<not> isNew \<and> s1 = s \<and> (\<exists>q \<in> set (positions s). p = toPositionRecord q \<and> p_userId q = u)"
    and create: "tx_createTransaction (dep_transactionInput u v dto c (pr_positionId p)) s1 = (Inr t, s')" by blast
  have "apart F h u {pr_positionId p} {} s1"
    using cases
  proof
    assume "isNew \<and> pos_createPending u v s = (Inr p, s1)"
    then have "pos_createPending u v s = (Inr p, s1)" by simp
    from apart_createPending [OF this a] show ?thesis .
  next
    assume "\<not> isNew \<and> s1 = s \<and> (\<exists>q \<in> set (positions s). p = toPositionRecord q \<and> p_userId q = u)"
    then obtain q where q: "s1 = s" "q \<in> set (positions s)" "p = toPositionRecord q" "p_userId q = u" by blast
    have "p_userId r = u" if "r \<in> set (positions s)" "p_id r = p_id q" for r
      using distinct_key_eq [of p_id "positions s" r q] a that q by (auto simp: apart_def idsBelow_def)
    with a q show ?thesis by (auto simp: apart_def toPositionRecord_def)
  qed
  from apart_createTransaction [OF create _ this] show ?thesis by (simp add: dep_transactionInput_def)
qed

lemma findOrCreate_apart: "preserves (apart F h u P T) (vaultRepo_findOrCreate pv)"
proof (rule preservesI)
  fix s assume a: "apart F h u P T s"
  have "i < nextId (snd (vaultRepo_findOrCreate pv s))" if "i < nextId s" for i
    by (rule less_le_trans [OF that findOrCreate_fields(3)])
  then show "apart F h u P T (snd (vaultRepo_findOrCreate pv s))"
    using a history_frame [OF _ _ findOrCreate_fields(3), of h s] by (simp add: apart_def othersOf_def idsBelow_def)
qed

text \<open>The deposit up to its transaction, and on with a step that writes to the rows it opened.\<close>

lemma deposit_prefix_apart:
  assumes next_step: "\<And>c v p t isNew. preserves (apart F h u {pr_positionId p} {tr_transactionId t}) (k c (v, p, t, isNew))"
  shows "preserves (apart F h u {} {})
     (andThen (assertDepositAllowed x u) (\<lambda>_. andThen (dep_checks x u i dto) (\<lambda>c. andThen (dep_open u dto c) (k c))))"
proof -
  let ?A = "apart F h u {} {}"
  have limit: "preserves ?A (assertDepositAllowed x u)" "preserves ?A (dep_checks x u i dto)"
    by (intro pres preserves_dep_checks ignoresOutside_apart)+
  have step: "triple ?A (dep_open u dto c) (\<lambda>(v, p, t, isNew). apart F h u {pr_positionId p} {tr_transactionId t}) (\<lambda>_. ?A)" for c
    unfolding dep_open_def
  proof (intro triple_andThen)
    show "triple ?A (vaultRepo_findOrCreate (dc_vault c)) (\<lambda>_. ?A) (\<lambda>_. ?A)"
      by (intro triple_preserves findOrCreate_apart)
    show "triple ?A (dep_assertNoDuplicateDeposit u (v_id w) (pv_vaultId (dc_vault c))) (\<lambda>_. ?A) (\<lambda>_. ?A)" for w
      unfolding dep_assertNoDuplicateDeposit_def by (intro triple_preserves pres)
    show "triple ?A (atomically (dep_openBody u (v_id w) dto c)) (\<lambda>(p, t, isNew). apart F h u {pr_positionId p} {tr_transactionId t}) (\<lambda>_. ?A)" for w
      by (rule triple_atomically [OF tripleI]) (auto dest: dep_openBody_apart)
    show "triple ((\<lambda>(p, t, isNew). apart F h u {pr_positionId p} {tr_transactionId t}) r)
       ((\<lambda>(position, transaction, isNewPosition). ret (w, position, transaction, isNewPosition)) r)
       (\<lambda>(v, p, t, isNew). apart F h u {pr_positionId p} {tr_transactionId t}) (\<lambda>_. ?A)" for w r
      by (cases r) (simp add: triple_def)
  qed
  have "preserves ?A (andThen (dep_open u dto c) (k c))" for c
  proof (rule preserves_triple, rule triple_andThen [OF step])
    fix r show "triple ((\<lambda>(v, p, t, isNew). apart F h u {pr_positionId p} {tr_transactionId t}) r) (k c r) (\<lambda>_. ?A) (\<lambda>_. ?A)"
      by (cases r, simp, rule triple_conseq [OF triple_preserves [OF next_step]]) (auto elim: apart_less)
  qed
  then show ?thesis by (intro preserves_andThen [OF limit(1)] preserves_andThen [OF limit(2)])
qed

lemma depositVault_apart: "preserves (apart F h u {} {}) (depositVault x u v dto)"
  unfolding depositVault_def dep_requested_def
  by (rule deposit_prefix_apart) (simp, intro pres dep_attempt_apart ignoresOutside_apart, simp_all)

section \<open>The withdrawal\<close>

lemma wd_submit_id: "wd_submit x c t s = (Inr (sub, rc), s') \<Longrightarrow> tr_transactionId sub = tr_transactionId t"
  unfolding wd_submit_def by (elim andThen_InrE) (auto dest: submitted_id)

lemma wd_submit_apart: "tr_transactionId t \<in> T \<Longrightarrow> preserves (apart F h u P T) (wd_submit x c t)"
  unfolding wd_submit_def by (intro pres apart_transactions privy.writes_outside ignoresOutside_apart)

lemma wd_attempt_apart:
  assumes p: "p_id (wc_position c) \<in> P" and t: "tr_transactionId t \<in> T"
  shows "preserves (apart F h u P T) (wd_attempt x u' dto c t)"
proof -
  note a = apart_positions [OF p] apart_transactions [OF t] ignoresOutside_apart
  have fail: "preserves (apart F h u P T) (wd_fail c t e)" for e unfolding wd_fail_def by (intro pres a)
  have settle: "preserves (apart F h u P T) (wd_settle x u' dto c sub rc)" if "tr_transactionId sub = tr_transactionId t" for sub rc
    unfolding wd_settle_def wd_reverted_def wd_confirmed_def wd_confirmBody_def that by (intro pres a)
  show ?thesis unfolding wd_attempt_def
    by (intro preserves_catching fail preserves_andThen_ret [OF wd_submit_apart [OF t]]) (auto dest!: wd_submit_id intro: settle)
qed

lemma wd_open_apart:
  assumes p: "p_id (wc_position c) \<in> P"
  shows "triple (apart F h u P {}) (wd_open u c) (\<lambda>t. apart F h u P {tr_transactionId t}) (\<lambda>_. apart F h u P {})"
proof -
  let ?A = "apart F h u P {}"
  note a = apart_positions [OF p]
  have create: "triple ?A (tx_createTransaction (wd_transactionInput u c)) (\<lambda>t. apart F h u P {tr_transactionId t}) (\<lambda>_. ?A)"
    by (rule tripleI) (auto dest: apart_createTransaction create_refused(1) simp: wd_transactionInput_def)
  have body: "triple ?A (wd_openBody u c) (\<lambda>t. apart F h u P {tr_transactionId t}) (\<lambda>_. ?A)"
    unfolding wd_openBody_def Let_def
    by (intro triple_andThen [where R = "\<lambda>_. ?A"] create triple_preserves pres a)
  have "triple ?A (atomically (wd_openBody u c)) (\<lambda>t. apart F h u P {tr_transactionId t}) (\<lambda>_. ?A)"
    by (rule triple_atomically [OF triple_conseq [OF body]]) auto
  then show ?thesis unfolding wd_open_def
    by (intro triple_andThen [where R = "\<lambda>_. ?A"] triple_preserves pres)
qed

lemma withdraw_prefix_apart:
  assumes next_step: "\<And>c t. p_id (wc_position c) = i \<Longrightarrow> preserves (apart F h u {i} {tr_transactionId t}) (k c t)"
  shows "preserves (apart F h u {} {})
     (andThen (assertWithdrawAllowed x u) (\<lambda>_. andThen (wd_checks x u i dto) (\<lambda>c. andThen (wd_open u c) (k c))))"
proof -
  let ?A = "apart F h u {} {}"
  have own: "apart F h u {i} {} s' \<and> p_id (wc_position c) = i"
    if "wd_checks x u i dto s = (Inr c, s')" "?A s" for c s s'
  proof -
    note f = wd_checks_passed(1,2) [OF that(1)]
    have c: "wc_position c \<in> set (positions s)" "p_id (wc_position c) = i" using f(1) by (auto dest: find_Some_iff_first)
    have d: "distinct (map p_id (positions s))" using \<open>?A s\<close> by (simp add: apart_def idsBelow_def)
    have "p_userId p = u" if "p \<in> set (positions s)" "p_id p = i" for p
      using distinct_key_eq [OF d that(1) c(1)] c(2) f(2) that(2) by simp
    with \<open>?A s\<close> have "apart F h u {i} {} s" by (simp add: apart_def)
    then show ?thesis using preserves_run [OF preserves_wd_checks [OF ignoresOutside_apart(1)] that(1)] c(2) by blast
  qed
  have run: "triple (apart F h u {i} {}) (andThen (wd_open u c) (k c)) (\<lambda>_. ?A) (\<lambda>_. ?A)" if c: "p_id (wc_position c) = i" for c
  proof (rule triple_andThen)
    show "triple (apart F h u {i} {}) (wd_open u c) (\<lambda>t. apart F h u {i} {tr_transactionId t}) (\<lambda>_. ?A)"
      by (rule triple_conseq [OF wd_open_apart [where P = "{i}"]]) (auto simp: c elim: apart_less)
    show "triple (apart F h u {i} {tr_transactionId t}) (k c t) (\<lambda>_. ?A) (\<lambda>_. ?A)" for t
      by (rule triple_conseq [OF triple_preserves [OF next_step [OF c]]]) (auto elim: apart_less)
  qed
  have "triple ?A (andThen (wd_checks x u i dto) (\<lambda>c. andThen (wd_open u c) (k c))) (\<lambda>_. ?A) (\<lambda>_. ?A)"
  proof (rule triple_andThen)
    show "triple ?A (wd_checks x u i dto) (\<lambda>c s. apart F h u {i} {} s \<and> p_id (wc_position c) = i) (\<lambda>_. ?A)"
      by (rule tripleI) (use own preserves_run [OF preserves_wd_checks [OF ignoresOutside_apart(1)]] in blast)+
    show "triple (\<lambda>s. apart F h u {i} {} s \<and> p_id (wc_position c) = i) (andThen (wd_open u c) (k c)) (\<lambda>_. ?A) (\<lambda>_. ?A)" for c
      by (cases "p_id (wc_position c) = i") (use run in \<open>auto simp: triple_def\<close>)
  qed
  then show ?thesis by (intro preserves_andThen [OF preserves_rateLimit(2)] preserves_triple) simp_all
qed

lemma withdrawPosition_apart: "preserves (apart F h u {} {}) (withdrawPosition x u i dto)"
  unfolding withdrawPosition_def wd_requested_def
  by (rule withdraw_prefix_apart) (intro pres wd_attempt_apart ignoresOutside_apart, simp_all)

section \<open>The approval\<close>

lemma ap_submit_id: "ap_submit x c t s = (Inr (sub, rc), s') \<Longrightarrow> tr_transactionId sub = tr_transactionId t"
  unfolding ap_submit_def by (elim andThen_InrE) (auto dest: submitted_id)

lemma ap_submit_apart: "tr_transactionId t \<in> T \<Longrightarrow> preserves (apart F h u P T) (ap_submit x c t)"
  unfolding ap_submit_def by (intro pres apart_transactions privy.writes_outside ignoresOutside_apart)

lemma ap_attempt_apart:
  assumes t: "tr_transactionId t \<in> T"
  shows "preserves (apart F h u P T) (ap_attempt x u' dto c t)"
proof -
  note a = apart_transactions [OF t] ignoresOutside_apart
  have fail: "preserves (apart F h u P T) (ap_fail c t e)" for e unfolding ap_fail_def by (intro pres a)
  have settle: "preserves (apart F h u P T) (ap_settle x u' dto c sub rc)" if "tr_transactionId sub = tr_transactionId t" for sub rc
    unfolding ap_settle_def ap_finalRecord_def ap_readAllowance_def that by (intro pres a)
  show ?thesis unfolding ap_attempt_def
    by (intro preserves_catching fail preserves_andThen_ret [OF ap_submit_apart [OF t]]) (auto dest!: ap_submit_id intro: settle)
qed

lemma approve_create_apart:
  assumes next_step: "\<And>t. preserves (apart F h u {} {tr_transactionId t}) (k t)"
  shows "preserves (apart F h u {} {}) (andThen (tx_createTransaction (ap_transactionInput u dto c m)) k)"
proof -
  have create: "triple (apart F h u {} {}) (tx_createTransaction (ap_transactionInput u dto c m))
      (\<lambda>t. apart F h u {} {tr_transactionId t}) (\<lambda>_. apart F h u {} {})"
    by (rule tripleI) (auto dest: apart_createTransaction create_refused(1) simp: ap_transactionInput_def)
  show ?thesis
    by (rule preserves_triple, rule triple_andThen [OF create], rule triple_conseq [OF triple_preserves [OF next_step]])
       (auto elim: apart_less)
qed

lemma approveVault_apart: "preserves (apart F h u {} {}) (approveVault x u v dto)"
  unfolding approveVault_def ap_skip_def ap_request_def
  by (intro pres preserves_ap_checks approve_create_apart ap_attempt_apart apart_transactions ignoresOutside_apart) simp_all

section \<open>The routes\<close>

lemma keyFrame_apart: "keyFrame (apart F h u P T)"
  by (auto simp: keyFrame_def apart_def othersOf_def idsBelow_def intro: history_frame dest: less_le_trans)

lemma routes_apart:
  assumes "h_userId q = Some u"
  shows "preserves (apart F h u {} {}) (postDeposit x q)" "preserves (apart F h u {} {}) (postWithdraw x q)"
    "preserves (apart F h u {} {}) (postApprove x q)"
  unfolding postDeposit_def postWithdraw_def postApprove_def guarded_def assms option.case depositHandler_def
    withdrawHandler_def approveHandler_def
  by (intro pres preserves_intercept keyFrame_repo keyFrame_apart depositVault_apart withdrawPosition_apart approveVault_apart)+

text \<open>So the rows of the others are as they were, and so is every transaction that was there before.\<close>

lemma apart_others:
  assumes "\<And>F h. preserves (apart F h u {} {}) m" and "dbInv s"
  shows "othersOf u (snd (m s)) = othersOf u s" and "history h s \<Longrightarrow> history h (snd (m s))"
proof -
  have "apart (othersOf u s) h u {} {} (snd (m s))" if "history h s" for h
    by (rule preservesD [OF assms(1)], rule apart_start, rule assms(2), rule that)
  from this [of "({}, [])"] this [of h]
  show "othersOf u (snd (m s)) = othersOf u s" "history h s \<Longrightarrow> history h (snd (m s))"
    by (simp_all add: apart_def history_def)
qed

end
