(* ===== verification/History.thy ===== *)
theory History
  imports System Isolation
begin

text \<open>
  What has been written stays written.  A request, served or dying, adds transactions and never touches one
  that was there before (\<open>serve_history\<close>, \<open>die_history\<close>); a run of the worker touches only open ones
  (\<open>work_history\<close>).  So the record of a transaction that is confirmed, reverted or failed is final
  (\<open>step_keeps_closed\<close>): no later step changes its status, its hash, its amount or anything else.
\<close>

section \<open>Requests\<close>

definition recorded :: "uuid set \<times> transaction list \<Rightarrow> world \<Rightarrow> bool" where
  "recorded h s \<longleftrightarrow> tablesInv s \<and> history h s"

lemma history_frames:
  "ignoresOutside (history h)" "ignoresRedis (history h)" "keyFrame (history h)" "booksFrame (history h)"
  by (auto simp: ignoresOutside_def ignoresRedis_def keyFrame_def booksFrame_def history_def intro: less_le_trans)

lemma preserves_recorded: "preserves tablesInv m \<Longrightarrow> preserves (history h) m \<Longrightarrow> preserves (recorded h) m"
  by (auto simp: preserves_def recorded_def)

lemma ignoresOutside_recorded [simp]: "ignoresOutside (recorded h)"
  using ignoresOutside_inv(3) history_frames(1) unfolding ignoresOutside_def recorded_def by metis

text \<open>A run that keeps the user's rows apart keeps the history.\<close>

lemma apart_recorded:
  assumes "\<And>F h. preserves (apart F h u {} {}) m" and "preserves tablesInv m"
  shows "preserves (recorded h) m"
proof (rule preservesI)
  fix s assume s: "recorded h s"
  then have "dbInv s" "history h s" by (simp_all add: recorded_def tablesInvs_def sound_def)
  from apart_others(2) [OF assms(1) this] preservesD [OF assms(2)] s show "recorded h (snd (m s))" by (simp add: recorded_def)
qed

lemma routes_recorded:
  "preserves (recorded h) (postDeposit x q)" "preserves (recorded h) (postApprove x q)" "preserves (recorded h) (postWithdraw x q)"
proof -
  have none: "preserves (recorded h) (guarded q route)" if "h_userId q = None" for route
    by (simp add: guarded_def that pres)
  show "preserves (recorded h) (postDeposit x q)" "preserves (recorded h) (postApprove x q)" "preserves (recorded h) (postWithdraw x q)"
    by (cases "h_userId q"; simp add: none postDeposit_def postApprove_def postWithdraw_def;
        fold postDeposit_def postApprove_def postWithdraw_def; intro apart_recorded routes_apart routes_keep; assumption)+
qed

lemma serve_history:
  assumes "serve x a s t" and "recorded h s"
  shows "recorded h t"
  by (rule serve_ops [where I = "recorded h" and x = x and a = a, OF _ _ _ _ _ _ assms])
     (intro preserves_recorded routes_recorded account_ops_keep booksFrame_ops history_frames ignoresOutside_recorded)+

section \<open>Requests that die\<close>

lemma dieAt_apart:
  assumes "preserves (apart F h u P T) submit"
  shows "preserves (apart F h u P T) (dieAt d x l callData input submit)"
  unfolding dieAt_def by (cases d) (auto intro!: pres privy.writes_outside assms)

lemma dies_apart:
  "preserves (apart F h u {} {}) (depositUntil d l x u v dto)" "preserves (apart F h u {} {}) (withdrawUntil d l x u i wdto)"
  "preserves (apart F h u {} {}) (approveUntil d l x u v adto)"
proof -
  show "preserves (apart F h u {} {}) (depositUntil d l x u v dto)"
    unfolding depositUntil_def by (rule deposit_prefix_apart) (simp add: dieAt_apart dep_submit_apart)
  show "preserves (apart F h u {} {}) (withdrawUntil d l x u i wdto)"
    unfolding withdrawUntil_def by (rule withdraw_prefix_apart) (simp add: dieAt_apart wd_submit_apart)
  show "preserves (apart F h u {} {}) (approveUntil d l x u v adto)"
    unfolding approveUntil_def
    by (intro pres preserves_ap_checks approve_create_apart dieAt_apart ap_submit_apart ignoresOutside_apart) simp
qed

lemma die_history:
  assumes "die x s t" and "recorded h s"
  shows "recorded h t"
proof (rule die_keeps [where I = "recorded h" and x = x, OF _ _ _ _ assms])
  show "preserves (recorded h) (idemRepo_create ci)" for ci
    by (intro preserves_recorded key_keeps keyFrame_repo history_frames)
  note keep = preserves_tablesInv [OF preserves_sound dies_sideInv(1)] preserves_tablesInv [OF preserves_sound dies_sideInv(2)]
    preserves_tablesInv [OF preserves_sound dies_sideInv(3)]
  show "preserves (recorded h) (depositUntil d l x u v dto)" if "parseDepositDto body = Inr dto" for body dto d l u v
    by (intro apart_recorded [OF dies_apart(1)] keep(1) depositUntil_keeps [OF that])
  show "preserves (recorded h) (approveUntil d l x u v dto)" if "parseApproveDto body = Inr dto" for body dto d l u v
    by (intro apart_recorded [OF dies_apart(3)] keep(3) approveUntil_keeps [OF that])
  show "preserves (recorded h) (withdrawUntil d l x u i dto)" if "parseWithdrawDto body = Inr dto" for body dto d l u i
    by (intro apart_recorded [OF dies_apart(2)] keep(2) withdrawUntil_keeps [OF that])
qed

section \<open>The worker\<close>

text \<open>Of the operations on a transaction, those that write to a row outside the history.\<close>

lemma history_tx:
  assumes "i \<notin> fst h"
  shows "preserves (history h) (tx_markFailed i m)" "preserves (history h) (tx_markReverted i b m)"
    "preserves (history h) (tx_confirmSubmitted i b m)"
proof -
  have upd: "preserves (history h) (txRepo_updateStatus i d)" for d
    unfolding txRepo_updateStatus_def by (rule history_transactionUpdate [OF assms]) (auto simp: applyStatus_def)
  show "preserves (history h) (tx_markFailed i m)" "preserves (history h) (tx_markReverted i b m)"
    unfolding tx_marks by (intro preserves_asTxRecord upd)+
  show "preserves (history h) (tx_confirmSubmitted i b m)"
    unfolding tx_confirmSubmitted_def by (intro pres preserves_confirmSubmitted upd)
qed

lemma history_pos:
  "preserves (history h) (pos_markFailed j)" "preserves (history h) (pos_markActive j)" "preserves (history h) (pos_activate j d)"
  "preserves (history h) (pos_subtractWithdraw j w)"
  unfolding pos_ops by (intro preserves_asRecord preservesI; erule history_frame; simp)+

definition openRecord :: "uuid set \<times> transaction list \<Rightarrow> transaction_record \<Rightarrow> bool" where
  "openRecord h r \<longleftrightarrow> tr_transactionId r \<notin> fst h"

lemma reconcileTransaction_history: "openRecord h r \<Longrightarrow> preserves (history h) (rec_reconcileTransaction x r)"
  unfolding rec_reconcileTransaction_def rec_handleConfirmedTransaction_def rec_bodies rec_logConfirmedAudit_def Let_def openRecord_def
  by (intro pres history_tx history_pos history_frames)

lemma pendingLoop_history:
  "list_all (openRecord h) rs \<Longrightarrow> preserves (history h) (rec_pendingLoop x summary rs)"
  by (induction rs arbitrary: summary) (auto simp: Let_def intro!: pres reconcileTransaction_history)

lemma staleLoop_history:
  "list_all (openRecord h) rs \<Longrightarrow> preserves (history h) (rec_staleLoop summary rs)"
  by (induction rs arbitrary: summary) (auto simp: openRecord_def intro!: pres history_tx history_pos)

text \<open>What the worker fetches is open, so not in a history of closed transactions.\<close>

lemma fetched_open:
  assumes "history h s" and "\<forall>t \<in> set (snd h). \<not> isOpen (t_status t)"
  shows "tx_findPendingReconciliation n s = (Inr rs, s') \<Longrightarrow> list_all (openRecord h) rs"
    and "tx_findStaleCreated k n s = (Inr rs, s') \<Longrightarrow> list_all (openRecord h) rs"
proof -
  have "t_id t \<notin> fst h" if "t \<in> set (transactions s)" "isOpen (t_status t)" for t
  proof
    assume "t_id t \<in> fst h"
    then have "t \<in> set (filter (\<lambda>t. t_id t \<in> fst h) (transactions s))" using that by simp
    with assms that(2) show False by (simp only: history_def)
  qed
  then show "tx_findPendingReconciliation n s = (Inr rs, s') \<Longrightarrow> list_all (openRecord h) rs"
    "tx_findStaleCreated k n s = (Inr rs, s') \<Longrightarrow> list_all (openRecord h) rs"
    by (auto simp: tx_findPendingReconciliation_def txRepo_findPendingReconciliation_def tx_findStaleCreated_def
        txRepo_findStaleCreated_def openRecord_def toTransactionRecord_def isOpen_def list_all_iff dest!: in_set_takeD)
qed

lemma work_history:
  assumes "work x s t" and "history h s" and closed: "\<forall>t \<in> set (snd h). \<not> isOpen (t_status t)"
  shows "history h t"
proof -
  have pending: "preserves (history h) (andThen (tx_findPendingReconciliation 100) (rec_pendingLoop x summary))" for summary
    by (rule preserves_andThen_ret) (auto intro!: pres_reads pendingLoop_history dest: fetched_open(1) [OF _ closed])
  have stale: "preserves (history h) (andThen (tx_findStaleCreated k 50) (rec_staleLoop summary))" for k summary
    by (rule preserves_andThen_ret) (auto intro!: pres_reads staleLoop_history dest: fetched_open(2) [OF _ closed])
  have "preserves (history h) (processJob x name jobId)" for name jobId
    unfolding processJob_def reconcilePendingTransactions_def rec_runReconciliation_def rec_reconcileStaleCreated_def
    by (intro pres pending stale history_frames)
  with assms show ?thesis by (auto simp: work_iff intro: preservesD)
qed

section \<open>Every step\<close>

definition closedTransactions :: "world \<Rightarrow> transaction list" where
  "closedTransactions s = filter (\<lambda>t. \<not> isOpen (t_status t)) (transactions s)"

lemma closed_history:
  assumes "tablesInv s"
  shows "history (t_id ` set (closedTransactions s), closedTransactions s) s"
proof -
  have d: "distinct (map t_id (transactions s))" "\<forall>t \<in> set (transactions s). t_id t < nextId s"
    using assms by (simp_all add: tablesInvs_def sound_def dbInv_def txInv_def)
  have "t_id t \<in> t_id ` set (closedTransactions s) \<longleftrightarrow> \<not> isOpen (t_status t)" if "t \<in> set (transactions s)" for t
    using distinct_key_eq [OF d(1) that] that by (auto simp: closedTransactions_def)
  with d(2) show ?thesis by (auto simp: history_def closedTransactions_def cong: filter_cong)
qed

lemma step_keeps_closed:
  assumes "serve x a s s' \<or> die x s s' \<or> work x s s'" and "tablesInv s" and "t \<in> set (closedTransactions s)"
  shows "t \<in> set (closedTransactions s')"
proof -
  let ?h = "(t_id ` set (closedTransactions s), closedTransactions s)"
  have rec: "recorded ?h s" using assms(2) closed_history by (simp only: recorded_def)
  have closed: "\<forall>t \<in> set (snd ?h). \<not> isOpen (t_status t)" by (simp add: closedTransactions_def)
  from assms(1) have "history ?h s'"
  proof (elim disjE)
    assume "serve x a s s'" from serve_history [OF this rec] show ?thesis by (simp only: recorded_def)
  next
    assume "die x s s'" from die_history [OF this rec] show ?thesis by (simp only: recorded_def)
  next
    assume "work x s s'" from work_history [OF this _ closed] rec show ?thesis by (simp only: recorded_def)
  qed
  then have "set (closedTransactions s) \<subseteq> set (transactions s')"
    by (simp only: history_def fst_conv snd_conv) (metis filter_is_subset)
  with assms(3) show ?thesis by (auto simp: closedTransactions_def)
qed

section \<open>The keys\<close>

text \<open>The table of keys grows: a row that is there at the end of a request is there, as it was, ever after.\<close>

definition keysFrom :: "idempotency_key list \<Rightarrow> world \<Rightarrow> bool" where
  "keysFrom K s \<longleftrightarrow> idemInv s \<and> (\<exists>ks. idempotencyKeys s = K @ ks)"

lemma keysFrom_frames:
  "earnFrame (keysFrom K)" "booksFrame (keysFrom K)" "ignoresOutside (keysFrom K)" "preserves (keysFrom K) (vaultRepo_findOrCreate pv)"
  "preserves (keysFrom K) (idemRepo_create ci)"
proof -
  show "earnFrame (keysFrom K)" "booksFrame (keysFrom K)" "ignoresOutside (keysFrom K)"
    by (auto simp: earnFrame_def booksFrame_def ignoresOutside_def ignoresRedis_def keysFrom_def idemInv_def)
  show "preserves (keysFrom K) (idemRepo_create ci)"
    by (auto simp: preserves_def keysFrom_def idemInv_def idemRepo_create_def Let_def less_Suc_eq)
  show "preserves (keysFrom K) (vaultRepo_findOrCreate pv)"
  proof (rule preservesI)
    fix s assume s: "keysFrom K s"
    have "idempotencyKeys (snd (vaultRepo_findOrCreate pv s)) = idempotencyKeys s"
      using preservesD [OF frame_keys(2) [of "\<lambda>k. k = idempotencyKeys s"], of s pv] by simp
    moreover have "nextId s \<le> nextId (snd (vaultRepo_findOrCreate pv s))" by (rule findOrCreate_fields(3))
    ultimately show "keysFrom K (snd (vaultRepo_findOrCreate pv s))" using s unfolding keysFrom_def idemInv_def
      by (metis order_less_le_trans)
  qed
qed

lemma idemInv_repo:
  "preserves idemInv (idemRepo_create ci)" "preserves idemInv (idemRepo_deleteById i)"
  "preserves idemInv (idemRepo_saveResponse x i body st)"
  by (auto simp: preserves_def idemRepo_create_def idemRepo_deleteById_def idemRepo_saveResponse_def idempotencyUpdate_def
      tableUpdate_def put_defs idemInv_def in_updWhere Let_def less_Suc_eq split: option.splits dest!: find_Some_iff_first)

lemma keysFrom_routes:
  "preserves (keysFrom K) (postDeposit x q)" "preserves (keysFrom K) (postApprove x q)" "preserves (keysFrom K) (postWithdraw x q)"
proof -
  have nil: "keysFrom [] = idemInv" by (rule ext) (simp add: keysFrom_def)
  note handlers = frame_routes [OF keysFrom_frames(1,4) [of "[]"], unfolded nil]
  have route: "preserves (keysFrom K) (intercept x (Some op) st q handler)"
    if "preserves idemInv handler" and grows: "\<And>s. idemInv s \<Longrightarrow>
      \<exists>ks. idempotencyKeys (snd (intercept x (Some op) st q handler s)) = idempotencyKeys s @ ks" for op st handler
  proof (rule preservesI)
    fix s assume s: "keysFrom K s"
    then have inv: "idemInv s" by (simp add: keysFrom_def)
    have "idemInv (snd (intercept x (Some op) st q handler s))"
      by (rule preservesD [OF preserves_intercept [OF idemInv_repo that(1)] inv])
    with s grows [OF inv] show "keysFrom K (snd (intercept x (Some op) st q handler s))" by (auto simp: keysFrom_def)
  qed
  show "preserves (keysFrom K) (postDeposit x q)" unfolding postDeposit_def guarded_def
    by (intro pres route handlers depositRoute.intercept_grows)
  show "preserves (keysFrom K) (postApprove x q)" unfolding postApprove_def guarded_def
    by (intro pres route handlers approveRoute.intercept_grows)
  show "preserves (keysFrom K) (postWithdraw x q)" unfolding postWithdraw_def guarded_def
    by (intro pres route handlers withdrawRoute.intercept_grows)
qed

lemma step_keysFrom:
  assumes "serve x a s t \<or> die x s t \<or> work x s t" and "keysFrom K s"
  shows "keysFrom K t"
proof -
  have "preserves (keysFrom K) (reconcilePendingTransactions x j)" for j by (rule frame_reconcile [OF keysFrom_frames(1)])
  then have job: "preserves (keysFrom K) (processJob x name jobId)" for name jobId unfolding processJob_def by (intro pres)
  from assms(1) show ?thesis
  proof (elim disjE)
    assume "serve x a s t"
    from serve_ops [OF keysFrom_frames(3) keysFrom_routes booksFrame_ops [OF keysFrom_frames(2)] this assms(2)] show ?thesis .
  next
    assume "die x s t"
    from die_keeps [of "keysFrom K", OF keysFrom_frames(5) dies_frame(1) [OF keysFrom_frames(1,4)]
        dies_frame(3) [OF keysFrom_frames(1,4)] dies_frame(2) [OF keysFrom_frames(1,4)] this assms(2)] show ?thesis .
  next
    assume "work x s t"
    with assms(2) show ?thesis by (auto simp: work_iff intro: preservesD [OF job])
  qed
qed

lemma keys_ever_after:
  assumes "idemInv s" and "(\<lambda>s t. serve x a s t \<or> die x s t \<or> work x s t)\<^sup>*\<^sup>* s t" and "rowFor key path s = Some r"
  shows "rowFor key path t = Some r"
proof -
  from assms(2) have "keysFrom (idempotencyKeys s) t"
  proof (induction rule: rtranclp_induct)
    case base
    from assms(1) show ?case by (simp add: keysFrom_def)
  qed (rule step_keysFrom)
  then show ?thesis using assms(3) by (auto simp: keysFrom_def rowFor_def intro: find_append_old)
qed

text \<open>An answer under a key is, from then on, what every request under that key with that payload gets.\<close>

lemma answered_ever_after:
  assumes jsonb: "\<And>v. wfJson v \<Longrightarrow> sameJson (e_jsonb x v) v" and inv: "idemInv s" and k: "keyed x q key"
    and run: "postDeposit x q s = (Inr (st, body), s')"
  shows "\<exists>body'. sameJson body' body \<and> (\<forall>s'' q' u'. (\<lambda>s t. serve x a s t \<or> die x s t \<or> work x s t)\<^sup>*\<^sup>* s' s'' \<and> keyed x q' key
     \<and> requestHashOf x q' = requestHashOf x q \<and> h_userId q' = Some u' \<longrightarrow> postDeposit x q' s'' = (Inr (st, body'), s''))"
proof -
  obtain u where "h_userId q = Some u" using run by (auto simp: postDeposit_def guarded_def split: option.splits)
  with run have "intercept x (Some OpDeposit) 201 q (depositHandler x u q) s = (Inr (st, body), s')"
    by (simp add: postDeposit_def guarded_def)
  moreover have "shouldPersistResponse 201" by (simp add: shouldPersistResponse_def)
  ultimately obtain r body' where r: "rowFor key (requestPathOf OpDeposit) s' = Some r" "i_requestHash r = requestHashOf x q"
    "i_responseData r = Some body'" "i_statusCode r = Some st" "body' \<noteq> JNull" "sameJson body' body"
    using depositRoute.answered_row [OF jsonb inv _ k] by blast
  have inv': "idemInv s'"
    using preservesD [OF keysFrom_routes(1) [of "[]" x q], of s] inv run by (simp add: keysFrom_def)
  show ?thesis
  proof (intro exI conjI allI impI)
    show "sameJson body' body" by (rule r)
    fix s'' q' u'
    assume later: "(\<lambda>s t. serve x a s t \<or> die x s t \<or> work x s t)\<^sup>*\<^sup>* s' s'' \<and> keyed x q' key
       \<and> requestHashOf x q' = requestHashOf x q \<and> h_userId q' = Some u'"
    then have "rowFor key (requestPathOf OpDeposit) s'' = Some r" using keys_ever_after [OF inv' _ r(1)] by blast
    with later r show "postDeposit x q' s'' = (Inr (st, body'), s'')"
      using intercept_replay [of x q' key OpDeposit s'' r body' st 201 "depositHandler x u' q'"]
      by (simp add: postDeposit_def guarded_def)
  qed
qed

end
