(* ===== verification/Holdings.thy ===== *)
theory Holdings
  imports Deposit Withdraw
begin

text \<open>
  What a position holds, as the abstract account the handlers refine.  A request has one of three
  effects on the accounts: none, a credit of one of them, or a debit of one of them
  (\<open>depositEffect\<close>, \<open>withdrawEffect\<close>, read off the answer), and the accounts after the request are
  the ones before with that effect posted (\<open>deposit_posts\<close>, \<open>withdraw_posts\<close>): a confirmed deposit
  credits the amount asked for, a confirmed withdrawal debits it, a full withdrawal empties the
  account, and every other end, whatever rows it wrote on the way, leaves all accounts as they were.
\<close>

section \<open>Accounts\<close>

type_synonym accounts = "uuid \<Rightarrow> int"

datatype effect = Unchanged | Credit uuid int | Debit uuid int

fun post :: "effect \<Rightarrow> accounts \<Rightarrow> accounts" where
  "post Unchanged h = h"
| "post (Credit i n) h = h(i := h i + n)"
| "post (Debit i n) h = h(i := h i - n)"

definition holdings :: "world \<Rightarrow> accounts" where
  "holdings s = (\<lambda>i. case find (\<lambda>p. p_id p = i) (positions s) of Some p \<Rightarrow> p_shares p | None \<Rightarrow> 0)"

definition askedAmount :: "withdraw_dto \<Rightarrow> int \<Rightarrow> int" where
  "askedAmount dto held =
     (if wdd_fullWithdraw dto = Some True then held
      else (case wdd_amount dto of Some a \<Rightarrow> (case bigIntOf a of Some n \<Rightarrow> n | None \<Rightarrow> 0) | None \<Rightarrow> 0))"

definition depositEffect :: "int \<Rightarrow> deposit_response res \<Rightarrow> effect" where
  "depositEffect n r =
     (case r of Inl _ \<Rightarrow> Unchanged
      | Inr d \<Rightarrow> if dr_status d = T_CONFIRMED then Credit (dr_positionId d) n else Unchanged)"

definition withdrawEffect :: "withdraw_dto \<Rightarrow> accounts \<Rightarrow> withdraw_response res \<Rightarrow> effect" where
  "withdrawEffect dto h r =
     (case r of Inl _ \<Rightarrow> Unchanged
      | Inr w \<Rightarrow> if wr_status w = T_CONFIRMED then Debit (wr_positionId w) (askedAmount dto (h (wr_positionId w))) else Unchanged)"

section \<open>Writes that move no shares\<close>

named_theorems still "operations that leave the holdings as they are"

lemma holdings_frame: "positions s' = positions s \<Longrightarrow> holdings s' = holdings s"
  by (simp add: holdings_def)

lemma still_frame: "(\<And>s. positions (snd (m s)) = positions s) \<Longrightarrow> preserves (\<lambda>s. holdings s = h) m"
  by (simp add: preserves_def holdings_def)

lemma ignoresOutside_holdings [simp]: "ignoresOutside (\<lambda>s. holdings s = h)" "ignoresRedis (\<lambda>s. holdings s = h)"
  by (simp_all add: ignoresOutside_def ignoresRedis_def holdings_def)

lemma ignoresOutside_conj:
  "ignoresOutside I \<Longrightarrow> ignoresOutside J \<Longrightarrow> ignoresOutside (\<lambda>s. I s \<and> J s)"
  "ignoresRedis I \<Longrightarrow> ignoresRedis J \<Longrightarrow> ignoresRedis (\<lambda>s. I s \<and> J s)"
  by (simp_all add: ignoresOutside_def ignoresRedis_def)

lemma holdings_update:
  assumes "positionUpdate i f s = (Inr p', s')" and "\<And>p p'. f p = Inr p' \<Longrightarrow> p_id p' = p_id p"
  shows "holdings s' = (holdings s)(i := p_shares p')"
proof
  fix j
  note look = positionTable.update_lookup [OF assms(1) [unfolded positionUpdate_def], of j]
  show "holdings s' j = ((holdings s)(i := p_shares p')) j" using look assms(2) by (simp add: holdings_def)
qed

lemma holdings_found: "find (\<lambda>p. p_id p = i) (positions s) = Some p \<Longrightarrow> holdings s i = p_shares p"
  by (simp add: holdings_def)

lemma still_setStatus: "preserves (\<lambda>s. holdings s = h) (positionUpdate i (setStatus st))"
proof (rule preservesI)
  fix s assume h: "holdings s = h"
  obtain r s' where run: "positionUpdate i (setStatus st) s = (r, s')" by force
  show "holdings (snd (positionUpdate i (setStatus st) s)) = h"
  proof (cases r)
    case (Inl e)
    with run h update_Inl_same show ?thesis by fastforce
  next
    case (Inr p')
    from run [unfolded positionUpdate_def Inr] obtain p q where
      p: "find (\<lambda>p. p_id p = i) (positions s) = Some p" "setStatus st p = Inr q" "p' = touchPosition (now s) q"
      by (rule positionTable.update_InrE)
    then have same: "p_shares p' = p_shares p" by (auto simp: setStatus_def)
    have "holdings s' = (holdings s)(i := p_shares p')"
      by (rule holdings_update) (use run Inr in \<open>auto simp: setStatus_def\<close>)
    with run h same holdings_found [OF p(1)] show ?thesis by (simp add: fun_upd_idem)
  qed
qed

lemma still_positions [still]:
  "preserves (\<lambda>s. holdings s = h) (pos_markFailed j)" "preserves (\<lambda>s. holdings s = h) (pos_markActive j)"
  "preserves (\<lambda>s. holdings s = h) (pos_markWithdrawing j)" "preserves (\<lambda>s. holdings s = h) (pos_createPending u v)"
proof -
  show "preserves (\<lambda>s. holdings s = h) (pos_markFailed j)" "preserves (\<lambda>s. holdings s = h) (pos_markActive j)"
    "preserves (\<lambda>s. holdings s = h) (pos_markWithdrawing j)"
    unfolding pos_ops posRepo_markWithdrawing_def posRepo_markActive_def posRepo_markFailed_def
    by (intro preserves_asRecord still_setStatus)+
  have "find (\<lambda>p. p_id p = i) (ps @ [q]) = (case find (\<lambda>p. p_id p = i) ps of Some p \<Rightarrow> Some p | None \<Rightarrow> if p_id q = i then Some q else None)"
    for i and ps :: "position list" and q by (induction ps) auto
  then have "preserves (\<lambda>s. holdings s = h) (posRepo_create ci)" for ci
    by (auto simp: preserves_def posRepo_create_def Let_def holdings_def fun_eq_iff split: option.splits)
  then show "preserves (\<lambda>s. holdings s = h) (pos_createPending u v)"
    unfolding pos_createPending_def by (intro preserves_asRecord)
qed

lemma still_transactions [still]:
  "preserves (\<lambda>s. holdings s = h) (tx_markFailed j m)" "preserves (\<lambda>s. holdings s = h) (tx_markReverted j b m)"
  "preserves (\<lambda>s. holdings s = h) (tx_markSubmitted j x m)" "preserves (\<lambda>s. holdings s = h) (tx_createTransaction ti)"
  unfolding tx_marks tx_createTransaction_def txRepo_updateStatus_def
  by (intro preserves_asTxRecord still_frame; simp add: txRepo_create_def Let_def split: sum.split)+

lemma still_findOrCreate [still]: "preserves (\<lambda>s. holdings s = h) (vaultRepo_findOrCreate pv)"
  by (rule still_frame) simp

section \<open>The deposit\<close>

lemma still_deposit:
  "preserves (\<lambda>s. holdings s = h) (dep_open u dto c)" "preserves (\<lambda>s. holdings s = h) (dep_submit x c t)"
  "preserves (\<lambda>s. holdings s = h) (dep_reverted x u dto c v p isNew sub rc)" "preserves (\<lambda>s. holdings s = h) (dep_fail p isNew t e)"
  unfolding dep_open_def dep_assertNoDuplicateDeposit_def dep_openBody_def dep_submit_def dep_reverted_def dep_fail_def
  by (intro pres still privy.writes_outside ignoresOutside_holdings)+

text \<open>What the guarded confirmation of a handler answers.\<close>

lemma handler_confirms:
  assumes w: "working sk S i ty n (Some pid) K True s" and run: "tx_confirmSubmitted i b m s = (Inr (applied, conf), s1)"
  shows "applied \<and> positions s1 = positions s \<and> tr_status conf = T_CONFIRMED \<and> lagging sk S pid (signed ty n) s1
     \<and> (\<exists>p. find (\<lambda>p. p_id p = pid) (positions s1) = Some p \<and> p_id p = pid \<and> goodPosition p \<and> K (p_shares p))"
proof -
  from confirm_run [OF w, of pid b m] obtain t' s' where r: "txRepo_confirmSubmitted i b m s = (Inr (True, t'), s')"
    "positions s' = positions s" "lagging sk S pid (signed ty n) s'" "t_status t' = T_CONFIRMED" by auto
  from run r(1) have eq: "applied" "s1 = s'" "conf = toTransactionRecord None t'" by (simp_all add: tx_confirmSubmitted_def eff_simps)
  obtain p where p: "find (\<lambda>p. p_id p = pid) (positions s1) = Some p" "K (p_shares p)" using w r(2) eq by (auto simp: working_def)
  moreover have "goodPosition p" "p_id p = pid"
    using p(1) r(3) eq by (auto simp: lagging_def dbInv_def posInv_def dest: find_Some_iff_first)
  ultimately show ?thesis using eq r by (simp add: toTransactionRecord_def)
qed

text \<open>The confirmation adds the amount to the position.\<close>

lemma dep_confirmBody_credits:
  assumes n: "bigIntOf (dd_amount dto) = Some n" "0 \<le> n" and c: "dc_estimatedShares c = n"
    and w: "opened sk S DEPOSIT n p t isNew True s" and id: "tr_transactionId submitted = tr_transactionId t"
    and run: "dep_confirmBody dto c p isNew submitted receipt s = (Inr (confirmed, q), s')"
  shows "holdings s' = post (Credit (pr_positionId p) n) (holdings s) \<and> tr_status confirmed = T_CONFIRMED \<and> pr_positionId q = pr_positionId p"
proof -
  let ?pid = "pr_positionId p"
  obtain applied conf s1 where conf: "tx_confirmSubmitted (tr_transactionId t) (rc_blockNumber receipt)
       (Some [(''gasUsed'', JStr (showInt (rc_gasUsed receipt))), (''estimatedShares'', JStr (showInt (dc_estimatedShares c)))]) s
       = (Inr (applied, conf), s1)"
    using run id unfolding dep_confirmBody_def by (auto elim!: andThen_InrE)
  from handler_confirms [OF w conf] obtain r where same: "positions s1 = positions s" "applied" and st: "tr_status conf = T_CONFIRMED"
    and r: "find (\<lambda>r. p_id r = ?pid) (positions s1) = Some r" "isNew \<longrightarrow> p_shares r = 0" and good: "goodPosition r" "p_id r = ?pid"
    by auto
  let ?f = "if isNew then setAmounts P_ACTIVE (dd_amount dto) (dd_amount dto) (showInt n)
     else incAmounts (dd_amount dto) (dd_amount dto) (showInt n)"
  have "asRecord (positionUpdate ?pid ?f) s1 = (Inr q, s') \<and> confirmed = conf"
    using run conf same(2) id c
    by (cases isNew) (auto simp: dep_confirmBody_def andThen_Inr pos_activate_def posRepo_activate_def pos_addDeposit_def
        posRepo_addDeposit_def dep_amounts_def elim!: andThen_InrE)
  then obtain p' where up: "positionUpdate ?pid ?f s1 = (Inr p', s')" and q: "q = toPositionRecord p'" "confirmed = conf"
    by (auto simp: asRecord_def elim!: andThen_InrE)
  from up r obtain r' where "?f r = Inr r'" "p' = touchPosition (now s1) r'"
    unfolding positionUpdate_def by (auto elim!: positionTable.update_InrE simp del: if_split_asm)
  then have p': "p_shares p' = p_shares r + n" "p_id p' = ?pid"
    using n r(2) good by (auto simp: setAmounts_same incAmounts_same split: if_splits)
  have "holdings s' = (holdings s1)(?pid := p_shares p')"
    by (rule holdings_update [OF up]) (use keepsKeys_ops in \<open>auto simp: keepsKeys_def split: if_splits\<close>)
  moreover have "holdings s1 = holdings s" by (rule holdings_frame [OF same(1)])
  ultimately show ?thesis using p' q st holdings_found [OF r(1)] by (simp add: toPositionRecord_def)
qed

lemma reverted_status: "tx_markReverted i b m s = (Inr r, s') \<Longrightarrow> tr_status r = T_REVERTED"
  unfolding tx_markReverted_def asTxRecord_def txRepo_updateStatus_def transactionUpdate_def
  by (elim andThen_InrE, elim transactionTable.update_InrE)
     (auto simp: applyStatus_def toTransactionRecord_def touchTransaction_def)

lemma reverted_answer: "dep_reverted x u dto c v p isNew sub rc s = (Inr r, s') \<Longrightarrow> dr_status r \<noteq> T_CONFIRMED"
  unfolding dep_reverted_def by (elim andThen_InrE) (auto dest: reverted_status simp: dep_toResponse_def)

lemma dep_settle_posts:
  assumes n: "bigIntOf (dd_amount dto) = Some n" "0 \<le> n" and c: "dc_estimatedShares c = n"
    and id: "tr_transactionId submitted = tr_transactionId t"
  shows "triple (\<lambda>s. opened sk S DEPOSIT n p t isNew True s \<and> holdings s = h) (dep_settle x u dto c v p isNew submitted receipt)
     (\<lambda>r s. holdings s = post (depositEffect n (Inr r)) h) (\<lambda>_ s. holdings s = h)"
proof (cases "rc_status receipt = Success")
  case False
  then show ?thesis unfolding dep_settle_def
    by (intro tripleI) (auto simp: depositEffect_def dest: reverted_answer intro: preserves_run [OF still_deposit(3)])
next
  case True
  have body: "triple (\<lambda>s. opened sk S DEPOSIT n p t isNew True s \<and> holdings s = h)
      (atomically (dep_confirmBody dto c p isNew submitted receipt))
      (\<lambda>(confirmed, q) s. holdings s = post (Credit (pr_positionId p) n) h \<and> tr_status confirmed = T_CONFIRMED
         \<and> pr_positionId q = pr_positionId p) (\<lambda>_ s. holdings s = h)"
    by (rule triple_atomically [OF tripleI]) (use dep_confirmBody_credits [OF n c _ id] in auto)
  have rest: "triple (\<lambda>s. holdings s = h') (andThen (auditLog x a) (\<lambda>_. ret r)) (\<lambda>r' s. holdings s = h' \<and> r' = r) E"
    for a r h' and E :: "exn \<Rightarrow> world \<Rightarrow> bool"
    by (rule triple_andThen [OF triple_auditLog]) (simp_all add: triple_def)
  have "triple (\<lambda>s. opened sk S DEPOSIT n p t isNew True s \<and> holdings s = h) (dep_confirmed x u dto c p isNew submitted receipt)
     (\<lambda>r s. holdings s = post (depositEffect n (Inr r)) h) (\<lambda>_ s. holdings s = h)"
    unfolding dep_confirmed_def
  proof (rule triple_andThen [OF body])
    fix r
    show "triple ((\<lambda>(confirmed, q) s. holdings s = post (Credit (pr_positionId p) n) h \<and> tr_status confirmed = T_CONFIRMED
         \<and> pr_positionId q = pr_positionId p) r)
      ((\<lambda>(confirmed, updatedPosition).
        andThen (auditLog x \<lparr>al_userId = Some u, al_action = DEPOSIT_CONFIRMED, al_entityType = ''transaction'',
                al_entityId = tr_transactionId confirmed,
                al_metadata = Some [(''vaultId'', JStr (pv_vaultId (dc_vault c))),
                  (''txHash'', case tr_txHash confirmed of Some h \<Rightarrow> JStr h | None \<Rightarrow> JNull),
                  (''positionId'', JStr (showNat (pr_positionId updatedPosition)))]\<rparr>) (\<lambda>_.
        ret (dep_toResponse x dto c updatedPosition confirmed (pr_shares updatedPosition)))) r)
      (\<lambda>r s. holdings s = post (depositEffect n (Inr r)) h) (\<lambda>_ s. holdings s = h)"
    proof (cases "tr_status (fst r) = T_CONFIRMED \<and> pr_positionId (snd r) = pr_positionId p")
      case True
      then show ?thesis
        by (cases r, simp, intro triple_conseq [OF rest [of "post (Credit (pr_positionId p) n) h"]])
           (auto simp: depositEffect_def dep_toResponse_def)
    qed (cases r, auto simp: triple_def)
  qed
  with True show ?thesis by (simp add: dep_settle_def)
qed

lemma dep_attempt_posts:
  assumes n: "bigIntOf (dd_amount dto) = Some n" "0 \<le> n" and c: "dc_estimatedShares c = n"
  shows "triple (\<lambda>s. opened sk S DEPOSIT n p t isNew False s \<and> holdings s = h) (dep_attempt x u dto c v p t isNew)
     (\<lambda>r s. holdings s = post (depositEffect n (Inr r)) h) (\<lambda>_ s. holdings s = h)"
  unfolding dep_attempt_def
proof (rule triple_catching [where E' = "\<lambda>_ s. holdings s = h"])
  show "triple (\<lambda>s. opened sk S DEPOSIT n p t isNew False s \<and> holdings s = h)
     (andThen (dep_submit x c t) (\<lambda>(submitted, receipt). dep_settle x u dto c v p isNew submitted receipt))
     (\<lambda>r s. holdings s = post (depositEffect n (Inr r)) h) (\<lambda>_ s. holdings s = h)"
  proof (rule triple_andThen)
    show "triple (\<lambda>s. opened sk S DEPOSIT n p t isNew False s \<and> holdings s = h) (dep_submit x c t)
        (\<lambda>(submitted, receipt) s. (opened sk S DEPOSIT n p t isNew True s \<and> tr_transactionId submitted = tr_transactionId t)
          \<and> holdings s = h) (\<lambda>_ s. holdings s = h)"
      by (rule triple_conseq [OF triple_and [OF dep_submit_triple [OF c] still_deposit(2)]]) auto
    fix r
    show "triple ((\<lambda>(submitted, receipt) s. (opened sk S DEPOSIT n p t isNew True s \<and> tr_transactionId submitted = tr_transactionId t)
        \<and> holdings s = h) r)
      ((\<lambda>(submitted, receipt). dep_settle x u dto c v p isNew submitted receipt) r)
      (\<lambda>r s. holdings s = post (depositEffect n (Inr r)) h) (\<lambda>_ s. holdings s = h)"
      using dep_settle_posts [OF n c, of "fst r" t sk S p isNew h x u v "snd r"] by (cases r) (auto simp: triple_def)
  qed
  show "triple (\<lambda>s. holdings s = h) (dep_fail p isNew t e) (\<lambda>r s. holdings s = post (depositEffect n (Inr r)) h) (\<lambda>_ s. holdings s = h)" for e
    by (rule tripleI) (auto simp: dep_fail_def intro: preserves_run [OF still_deposit(4)] elim!: andThen_InrE)
qed

text \<open>The accounts after a deposit, whichever way it ends.\<close>

lemma deposit_posts:
  assumes n: "bigIntOf (dd_amount dto) = Some n" "0 \<le> n" and b: "base sk S s"
  shows "holdings (snd (depositVault x u vaultId dto s)) = post (depositEffect n (fst (depositVault x u vaultId dto s))) (holdings s)"
proof -
  let ?h = "holdings s"
  let ?P = "\<lambda>s. base sk S s \<and> holdings s = ?h"
  have P: "ignoresOutside ?P" "ignoresRedis ?P"
    by (intro ignoresOutside_conj ignoresOutside_base ignoresOutside_holdings; simp)+
  have "triple ?P (depositVault x u vaultId dto) (\<lambda>r s. holdings s = post (depositEffect n (Inr r)) ?h) (\<lambda>_ s. holdings s = ?h)"
    unfolding depositVault_def
  proof (rule triple_andThen [where R = "\<lambda>_. ?P"])
    show "triple ?P (assertDepositAllowed x u) (\<lambda>_. ?P) (\<lambda>_ s. holdings s = ?h)"
      by (rule triple_frame [OF preserves_rateLimit(1) [OF P(2)]]) auto
    show "triple ?P (andThen (dep_checks x u vaultId dto) (\<lambda>c.
       andThen (dep_open u dto c) (\<lambda>(dbVault, position, transaction, isNewPosition).
       andThen (dep_requested x u dto c position transaction) (\<lambda>_.
         dep_attempt x u dto c dbVault position transaction isNewPosition))))
       (\<lambda>r s. holdings s = post (depositEffect n (Inr r)) ?h) (\<lambda>_ s. holdings s = ?h)"
    proof (rule triple_andThen [where R = "\<lambda>c s. ?P s \<and> dc_estimatedShares c = n"])
      show "triple ?P (dep_checks x u vaultId dto) (\<lambda>c s. ?P s \<and> dc_estimatedShares c = n) (\<lambda>_ s. holdings s = ?h)"
      proof (rule tripleI)
        fix t r t' assume t: "?P t"
        note keep = preserves_run [OF preserves_dep_checks [OF P(1)] _ t]
        show "?P t' \<and> dc_estimatedShares c = n" if run: "dep_checks x u vaultId dto t = (Inr c, t')" for c
          using keep [OF run] dep_checks_passed(1,2) [OF run] n(1) by simp
        show "holdings t' = ?h" if run: "dep_checks x u vaultId dto t = (Inl e, t')" for e using keep [OF run] by simp
      qed
      fix c
      show "triple (\<lambda>s. ?P s \<and> dc_estimatedShares c = n) (andThen (dep_open u dto c) (\<lambda>(dbVault, position, transaction, isNewPosition).
         andThen (dep_requested x u dto c position transaction) (\<lambda>_.
           dep_attempt x u dto c dbVault position transaction isNewPosition)))
         (\<lambda>r s. holdings s = post (depositEffect n (Inr r)) ?h) (\<lambda>_ s. holdings s = ?h)"
      proof (cases "dc_estimatedShares c = n")
        case True
        show ?thesis
        proof (rule triple_andThen)
          show "triple (\<lambda>s. ?P s \<and> dc_estimatedShares c = n) (dep_open u dto c)
              (\<lambda>(v, p, t, isNew) s. opened sk S DEPOSIT n p t isNew False s \<and> holdings s = ?h) (\<lambda>_ s. holdings s = ?h)"
            by (rule triple_conseq [OF triple_and [OF dep_open_triple [OF n True, of sk S u] still_deposit(1)]]) auto
          fix r
          show "triple ((\<lambda>(v, p, t, isNew) s. opened sk S DEPOSIT n p t isNew False s \<and> holdings s = ?h) r)
            ((\<lambda>(dbVault, position, transaction, isNewPosition). andThen (dep_requested x u dto c position transaction) (\<lambda>_.
               dep_attempt x u dto c dbVault position transaction isNewPosition)) r)
            (\<lambda>r s. holdings s = post (depositEffect n (Inr r)) ?h) (\<lambda>_ s. holdings s = ?h)"
          proof (cases r)
            case (fields v p t isNew)
            have "ignoresOutside (\<lambda>s. opened sk S DEPOSIT n p t isNew False s \<and> holdings s = ?h)"
              by (intro ignoresOutside_conj ignoresOutside_base ignoresOutside_holdings)
            then show ?thesis unfolding fields prod.case dep_requested_def
              by (intro triple_andThen [OF triple_auditLog] dep_attempt_posts [OF n True])
          qed
        qed
      qed (simp add: triple_def)
    qed
  qed
  with b show ?thesis
    by (cases "depositVault x u vaultId dto s"; cases "fst (depositVault x u vaultId dto s)")
       (auto simp: depositEffect_def dest: triple_Inr triple_Inl)
qed

section \<open>The withdrawal\<close>

lemma still_withdraw:
  "preserves (\<lambda>s. holdings s = h) (wd_open u c)" "preserves (\<lambda>s. holdings s = h) (wd_submit x c t)"
  "preserves (\<lambda>s. holdings s = h) (wd_reverted x dto c sub rc)" "preserves (\<lambda>s. holdings s = h) (wd_fail c t e)"
  unfolding wd_open_def wd_openBody_def wd_submit_def wd_reverted_def wd_fail_def Let_def
  by (intro pres still privy.writes_outside ignoresOutside_holdings)+

lemma wd_confirmBody_debits:
  assumes n: "bigIntOf (wc_withdrawAmount c) = Some n" "0 \<le> n" and sh: "wc_sharesToBurn c = n"
    and w: "withdrawing sk S n c t True s" and id: "tr_transactionId submitted = tr_transactionId t"
    and run: "wd_confirmBody c submitted receipt s = (Inr (confirmed, q), s')"
  shows "holdings s' = post (Debit (p_id (wc_position c)) n) (holdings s) \<and> tr_status confirmed = T_CONFIRMED"
proof -
  let ?pid = "p_id (wc_position c)"
  let ?d = "\<lparr>wp_withdrawnAmount = wc_withdrawAmount c, wp_shares = showInt (wc_sharesToBurn c)\<rparr>"
  obtain applied conf s1 where conf: "tx_confirmSubmitted (tr_transactionId t) (rc_blockNumber receipt)
       (Some [(''gasUsed'', JStr (showInt (rc_gasUsed receipt))), (''sharesBurned'', JStr (showInt (wc_sharesToBurn c))),
          (''fullWithdraw'', JBool (wc_fullWithdraw c))]) s = (Inr (applied, conf), s1)"
    using run id unfolding wd_confirmBody_def by (auto elim!: andThen_InrE)
  from handler_confirms [OF w conf] obtain r where same: "positions s1 = positions s" "applied" and st: "tr_status conf = T_CONFIRMED"
    and r: "find (\<lambda>r. p_id r = ?pid) (positions s1) = Some r" "n \<le> p_shares r" and inv: "posInv s1"
    by (auto simp: lagging_def dbInv_def)
  have "pos_subtractWithdraw ?pid ?d s1 = (Inr q, s') \<and> confirmed = conf"
    using run conf same(2) id by (auto simp: wd_confirmBody_def andThen_Inr elim!: andThen_InrE)
  then obtain p' where sub: "posRepo_subtractWithdraw ?pid ?d s1 = (Inr p', s')" and q: "confirmed = conf"
    by (auto simp: pos_subtractWithdraw_def asRecord_def elim!: andThen_InrE)
  have d: "bigIntOf (wp_withdrawnAmount ?d) = Some n" "bigIntOf (wp_shares ?d) = Some n" using n sh by simp_all
  let ?f = "\<lambda>_. Inr (r\<lparr>p_status := (if p_shares r \<le> n then P_CLOSED else P_ACTIVE),
      p_depositedAmount := max 0 (p_shares r - n), p_currentAmount := max 0 (p_shares r - n), p_shares := max 0 (p_shares r - n)\<rparr>)"
  have id': "p_id r = ?pid" using r(1) by (auto dest: find_Some_iff_first)
  have rows: "positions s' = updWhere (\<lambda>q. p_id q = ?pid) (\<lambda>_. p') (positions s1)" "p_shares p' = p_shares r - n" "p_id p' = ?pid"
    using subtractWithdraw_run [OF inv r(1) d n(2)] sub r(2) id' by (auto simp: Let_def)
  have look: "find (\<lambda>q. p_id q = j) (updWhere (\<lambda>q. p_id q = ?pid) (\<lambda>_. p') ps)
      = (if j = ?pid then map_option (\<lambda>_. p') (find (\<lambda>q. p_id q = j) ps) else find (\<lambda>q. p_id q = j) ps)" for j ps
    using rows(3) by (induction ps) auto
  have "holdings s' j = post (Debit ?pid n) (holdings s1) j" for j
    using r(1) rows(2) by (cases "j = ?pid") (simp_all add: holdings_def rows(1) look)
  then have "holdings s' = post (Debit ?pid n) (holdings s1)" by (rule ext)
  with holdings_frame [OF same(1)] st q show ?thesis by simp
qed

lemma wd_reverted_answer: "wd_reverted x dto c sub rc s = (Inr r, s') \<Longrightarrow> wr_status r \<noteq> T_CONFIRMED"
  unfolding wd_reverted_def by (elim andThen_InrE) (auto dest: reverted_status simp: wd_toResponse_def Let_def)

text \<open>The amount of the context is the amount the body asks for, of what the position holds.\<close>

definition agreed :: "withdraw_dto \<Rightarrow> withdraw_context \<Rightarrow> accounts \<Rightarrow> int \<Rightarrow> bool" where
  "agreed dto c h n \<longleftrightarrow> bigIntOf (wc_withdrawAmount c) = Some n \<and> 0 \<le> n \<and> wc_sharesToBurn c = n
     \<and> askedAmount dto (h (p_id (wc_position c))) = n"

lemma wd_settle_posts:
  assumes a: "agreed dto c h n" and id: "tr_transactionId submitted = tr_transactionId t"
  shows "triple (\<lambda>s. withdrawing sk S n c t True s \<and> holdings s = h) (wd_settle x u dto c submitted receipt)
     (\<lambda>r s. holdings s = post (withdrawEffect dto h (Inr r)) h) (\<lambda>_ s. holdings s = h)"
proof (cases "rc_status receipt = Success")
  case False
  then show ?thesis unfolding wd_settle_def
    by (intro tripleI) (auto simp: withdrawEffect_def dest: wd_reverted_answer intro: preserves_run [OF still_withdraw(3)])
next
  case True
  let ?h = "post (Debit (p_id (wc_position c)) n) h"
  have body: "triple (\<lambda>s. withdrawing sk S n c t True s \<and> holdings s = h) (atomically (wd_confirmBody c submitted receipt))
      (\<lambda>(confirmed, q) s. holdings s = ?h \<and> tr_status confirmed = T_CONFIRMED) (\<lambda>_ s. holdings s = h)"
    by (rule triple_atomically [OF tripleI]) (use wd_confirmBody_debits [OF _ _ _ _ id] a in \<open>auto simp: agreed_def\<close>)
  have rest: "triple (\<lambda>s. holdings s = ?h) (andThen (auditLog x l) (\<lambda>_. ret r)) (\<lambda>r' s. holdings s = ?h \<and> r' = r) E"
    for l r and E :: "exn \<Rightarrow> world \<Rightarrow> bool"
    by (rule triple_andThen [OF triple_auditLog]) (simp_all add: triple_def)
  have "triple (\<lambda>s. withdrawing sk S n c t True s \<and> holdings s = h) (wd_confirmed x u dto c submitted receipt)
     (\<lambda>r s. holdings s = post (withdrawEffect dto h (Inr r)) h) (\<lambda>_ s. holdings s = h)"
    unfolding wd_confirmed_def
  proof (rule triple_andThen [OF body])
    fix r
    show "triple ((\<lambda>(confirmed, q) s. holdings s = ?h \<and> tr_status confirmed = T_CONFIRMED) r)
      ((\<lambda>(confirmed, updatedPosition).
     andThen (auditLog x \<lparr>al_userId = Some u, al_action = WITHDRAW_CONFIRMED, al_entityType = ''transaction'',
                al_entityId = tr_transactionId confirmed,
                al_metadata = Some [(''positionId'', JStr (showNat (p_id (wc_position c)))),
                  (''txHash'', case tr_txHash confirmed of Some h \<Rightarrow> JStr h | None \<Rightarrow> JNull),
                  (''fullWithdraw'', JBool (wc_fullWithdraw c))]\<rparr>) (\<lambda>_.
       ret (wd_toResponse x dto c confirmed (Some updatedPosition)))) r)
      (\<lambda>r s. holdings s = post (withdrawEffect dto h (Inr r)) h) (\<lambda>_ s. holdings s = h)"
    proof (cases "tr_status (fst r) = T_CONFIRMED")
      case True
      then show ?thesis
        by (cases r, simp only: prod.case, intro triple_conseq [OF rest])
           (use a in \<open>auto simp: withdrawEffect_def wd_toResponse_def Let_def agreed_def\<close>)
    qed (cases r, auto simp: triple_def)
  qed
  with True show ?thesis by (simp add: wd_settle_def)
qed

lemma wd_attempt_posts:
  assumes a: "agreed dto c h n"
  shows "triple (\<lambda>s. withdrawing sk S n c t False s \<and> holdings s = h) (wd_attempt x u dto c t)
     (\<lambda>r s. holdings s = post (withdrawEffect dto h (Inr r)) h) (\<lambda>_ s. holdings s = h)"
  unfolding wd_attempt_def
proof (rule triple_catching [where E' = "\<lambda>_ s. holdings s = h"])
  have n: "wc_sharesToBurn c = n" using a by (simp add: agreed_def)
  show "triple (\<lambda>s. withdrawing sk S n c t False s \<and> holdings s = h)
     (andThen (wd_submit x c t) (\<lambda>(submitted, receipt). wd_settle x u dto c submitted receipt))
     (\<lambda>r s. holdings s = post (withdrawEffect dto h (Inr r)) h) (\<lambda>_ s. holdings s = h)"
  proof (rule triple_andThen)
    show "triple (\<lambda>s. withdrawing sk S n c t False s \<and> holdings s = h) (wd_submit x c t)
        (\<lambda>(submitted, receipt) s. (withdrawing sk S n c t True s \<and> tr_transactionId submitted = tr_transactionId t)
          \<and> holdings s = h) (\<lambda>_ s. holdings s = h)"
      by (rule triple_conseq [OF triple_and [OF wd_submit_triple [OF n] still_withdraw(2)]]) auto
    fix r
    show "triple ((\<lambda>(submitted, receipt) s. (withdrawing sk S n c t True s \<and> tr_transactionId submitted = tr_transactionId t)
        \<and> holdings s = h) r)
      ((\<lambda>(submitted, receipt). wd_settle x u dto c submitted receipt) r)
      (\<lambda>r s. holdings s = post (withdrawEffect dto h (Inr r)) h) (\<lambda>_ s. holdings s = h)"
      using wd_settle_posts [OF a, of "fst r" t sk S x u "snd r"] by (cases r) (auto simp: triple_def)
  qed
  show "triple (\<lambda>s. holdings s = h) (wd_fail c t e) (\<lambda>r s. holdings s = post (withdrawEffect dto h (Inr r)) h) (\<lambda>_ s. holdings s = h)" for e
    by (rule tripleI) (auto simp: wd_fail_def intro: preserves_run [OF still_withdraw(4)] elim!: andThen_InrE)
qed

lemma wd_checks_agreed:
  assumes valid: "validWithdraw dto" and b: "base sk S s" and run: "wd_checks x u i dto s = (Inr c, s')"
  shows "agreed dto c (holdings s) (wc_amountBn c)"
proof -
  note f = wd_checks_passed [OF run]
  have cov: "coveredBy c (wc_amountBn c) s'" using wd_checks_covered [OF valid b run] by simp
  have id: "p_id (wc_position c) = i" using f(1) by (auto dest: find_Some_iff_first)
  have held: "holdings s i = p_shares (wc_position c)" by (rule holdings_found [OF f(1)])
  have good: "p_currentAmount (wc_position c) = p_shares (wc_position c)"
    using b f(1) by (auto simp: base_def dbInv_def posInv_def goodPosition_def dest: find_Some_iff_first)
  have full: "wc_fullWithdraw c \<longleftrightarrow> wdd_fullWithdraw dto = Some True" using run
    unfolding wd_checks_def Let_def by (elim andThen_InrE) (auto split: prod.splits elim!: andThen_InrE)
  have "askedAmount dto (holdings s i) = wc_amountBn c"
  proof (cases "wc_fullWithdraw c")
    case True
    with full f(9) good held show ?thesis by (simp add: askedAmount_def)
  next
    case False
    with full f(10) f(4) show ?thesis by (simp add: askedAmount_def)
  qed
  with cov id show ?thesis by (simp add: agreed_def coveredBy_def)
qed

lemma withdraw_posts:
  assumes valid: "validWithdraw dto" and b: "base sk S s"
  shows "holdings (snd (withdrawPosition x u i dto s))
       = post (withdrawEffect dto (holdings s) (fst (withdrawPosition x u i dto s))) (holdings s)"
proof -
  let ?h = "holdings s"
  let ?P = "\<lambda>s. base sk S s \<and> holdings s = ?h"
  have P: "ignoresOutside ?P" "ignoresRedis ?P"
    by (intro ignoresOutside_conj ignoresOutside_base ignoresOutside_holdings; simp)+
  let ?Q = "\<lambda>r s. holdings s = post (withdrawEffect dto ?h (Inr r)) ?h"
  have "triple ?P (withdrawPosition x u i dto) ?Q (\<lambda>_ s. holdings s = ?h)"
    unfolding withdrawPosition_def
  proof (rule triple_andThen [where R = "\<lambda>_. ?P"])
    show "triple ?P (assertWithdrawAllowed x u) (\<lambda>_. ?P) (\<lambda>_ s. holdings s = ?h)"
      by (rule triple_frame [OF preserves_rateLimit(2) [OF P(2)]]) auto
    let ?R = "\<lambda>c s. (base sk S s \<and> coveredBy c (wc_amountBn c) s) \<and> holdings s = ?h \<and> agreed dto c ?h (wc_amountBn c)"
    show "triple ?P (andThen (wd_checks x u i dto) (\<lambda>c. andThen (wd_open u c) (\<lambda>transaction.
       andThen (wd_requested x u c transaction) (\<lambda>_. wd_attempt x u dto c transaction)))) ?Q (\<lambda>_ s. holdings s = ?h)"
    proof (rule triple_andThen [where R = ?R])
      show "triple ?P (wd_checks x u i dto) ?R (\<lambda>_ s. holdings s = ?h)"
      proof (rule tripleI)
        fix t r t' assume t: "?P t"
        note keep = preserves_run [OF preserves_wd_checks [OF P(1)] _ t]
        show "?R c t'" if run: "wd_checks x u i dto t = (Inr c, t')" for c
          using keep [OF run] wd_checks_agreed [OF valid _ run] wd_checks_covered [OF valid _ run] t by auto
        show "holdings t' = ?h" if run: "wd_checks x u i dto t = (Inl e, t')" for e using keep [OF run] by simp
      qed
      fix c
      show "triple (?R c) (andThen (wd_open u c) (\<lambda>transaction.
         andThen (wd_requested x u c transaction) (\<lambda>_. wd_attempt x u dto c transaction))) ?Q (\<lambda>_ s. holdings s = ?h)"
      proof (cases "agreed dto c ?h (wc_amountBn c)")
        case True
        show ?thesis
        proof (rule triple_andThen)
          show "triple (?R c) (wd_open u c) (\<lambda>t s. withdrawing sk S (wc_amountBn c) c t False s \<and> holdings s = ?h) (\<lambda>_ s. holdings s = ?h)"
            by (rule triple_conseq [OF triple_and [OF wd_open_triple still_withdraw(1)]]) auto
          fix t
          have "ignoresOutside (\<lambda>s. withdrawing sk S (wc_amountBn c) c t False s \<and> holdings s = ?h)"
            by (intro ignoresOutside_conj ignoresOutside_base ignoresOutside_holdings)
          then show "triple (\<lambda>s. withdrawing sk S (wc_amountBn c) c t False s \<and> holdings s = ?h)
             (andThen (wd_requested x u c t) (\<lambda>_. wd_attempt x u dto c t)) ?Q (\<lambda>_ s. holdings s = ?h)"
            unfolding wd_requested_def by (intro triple_andThen [OF triple_auditLog] wd_attempt_posts [OF True])
        qed
      qed (simp add: triple_def)
    qed
  qed
  with b show ?thesis
    by (cases "withdrawPosition x u i dto s"; cases "fst (withdrawPosition x u i dto s)")
       (auto simp: withdrawEffect_def dest: triple_Inr triple_Inl)
qed

end
