(* ===== verification/Demo.thy ===== *)
theory Demo
  imports Deposit Withdraw Approval Canonical
begin

text \<open>
  A concrete deployment to run the model on: a configuration with one chain, one asset and one
  vault, services that answer with fixed values, a user 0 with one wallet and an empty database.
  The evaluation unfolds the definitions and lets the simplifier run the handlers; the congruence
  rules make it evaluate a program from the front, one step at a time.
\<close>

section \<open>The deployment\<close>

definition demoConfig :: config where
  "demoConfig = \<lparr>c_app = None,
     c_security = Some \<lparr>rateLimitTtlMs = Some 60000, rateLimitMax = Some 100, maxDepositsPerMinute = Some 5,
        maxWithdrawalsPerMinute = Some 5, dependencyCheckTimeoutMs = Some 3000\<rparr>,
     c_blockchain = Some \<lparr>bc_chain = ''base'', bc_chainId = Some 84532, mainnetEnabled = False,
        allowMainnetTransactions = False, bc_rpcUrl = ''http'', alchemyApiKey = ''''\<rparr>,
     c_redis = None,
     c_privy = Some \<lparr>appId = ''a'', appSecret = ''s'', jwksUrl = ''j'', authorizationPrivateKey = Some ''k'',
        walletSignerKeyQuorumId = Some ''q''\<rparr>,
     c_chains = Some [\<lparr>ch_slug = ''base'', ch_name = ''Base'', ch_chainId = 84532, isTestnet = True, ch_isEnabled = True,
        ch_rpcUrl = ''http'', explorerUrl = ''e'', nativeCurrency = \<lparr>nc_name = ''E'', nc_symbol = ''E'', nc_decimals = 18\<rparr>\<rparr>],
     c_assets = Some [\<lparr>as_symbol = ''U'', as_name = ''U'', as_chainId = 84532, as_contractAddress = ''c'',
        as_decimals = 6, as_isEnabled = True\<rparr>],
     c_aave = Some \<lparr>apiUrl = '''', aaveVaults = [\<lparr>av_vaultId = ''v'', av_chainId = 84532, poolAddress = ''p'',
        aTokenAddress = ''t'', av_assetSymbol = ''U'', av_assetAddress = ''c'', av_isEnabled = True, av_riskLevel = None,
        av_depositEnabled = None, av_withdrawEnabled = None\<rparr>]\<rparr>,
     c_idempotency = Some \<lparr>ttlHours = 24, headerName = ''idempotency-key''\<rparr>\<rparr>"

definition demoEnv :: "receipt_status \<Rightarrow> env" where
  "demoEnv st = \<lparr>e_config = demoConfig,
     e_getBalance = (\<lambda>_ _ _. Inr 1000), e_balanceOf = (\<lambda>_ _ _ _. Inr 1000), e_allowance = (\<lambda>_ _ _ _ _. Inr 100),
     e_reserveData = (\<lambda>_ _ _ _. Inr (0, 0)), e_totalSupply = (\<lambda>_ _ _. Inr 0), e_symbol = (\<lambda>_ _ _. Inr ''aU''),
     e_estimateGas = (\<lambda>_ _ _ _ _. Inr 0), e_waitReceipt = (\<lambda>_ _ _. Inr \<lparr>rc_status = st, rc_blockNumber = 7, rc_gasUsed = 9\<rparr>),
     e_getReceipt = (\<lambda>_ _ _. Inr \<lparr>rc_status = st, rc_blockNumber = 7, rc_gasUsed = 9\<rparr>),
     e_encode = (\<lambda>_. Inr ''d''), e_formatUnits = (\<lambda>_ _. ''1''), e_parseUnits = (\<lambda>_ _. 0),
     e_privyGetWallet = (\<lambda>_ _. Inr \<lparr>pw_id = ''w'', pw_address = ''a'', pw_ownerId = Some ''q'', pw_additionalSigners = []\<rparr>),
     e_privySend = (\<lambda>_ _. Inr \<lparr>b_hash = ''h'', b_transactionId = None\<rparr>),
     e_privySign = (\<lambda>_ _. Inr (''s'', ''rlp'')),
     e_privyCreateWallet = (\<lambda>_ _. Inr \<lparr>pw_id = ''w'', pw_address = ''a'', pw_ownerId = Some ''q'', pw_additionalSigners = []\<rparr>),
     e_privyBalance = (\<lambda>_ _ _ _. Inr []), e_privyUserByCustomAuth = (\<lambda>_ _. Inr ''u''),
     e_privyUserByEmail = (\<lambda>_ _. Inr ''u''), e_privyCreateUser = (\<lambda>_ _ _. Inr ''u''),
     e_sha256 = (\<lambda>s. s), e_getAddress = (\<lambda>s. Inr s), e_jsonb = sortValue, e_auditUp = (\<lambda>_. True), e_redisUp = (\<lambda>_. True)\<rparr>"

definition demoWallet :: wallet where
  "demoWallet = \<lparr>w_id = 1, w_userId = 0, w_address = ''a'', w_chainId = 84532, w_walletType = EMBEDDED,
     w_providerId = ''w'', w_providerType = PRIVY, w_isPrimary = True, w_createdAt = 0, w_updatedAt = 0\<rparr>"

definition demoWorld :: world where
  "demoWorld = emptyWorld\<lparr>wallets := [demoWallet], nextId := 2\<rparr>"

definition demoDeposit :: deposit_dto where
  "demoDeposit = \<lparr>dd_walletId = 1, dd_amount = ''25''\<rparr>"

section \<open>Running a handler\<close>

lemma andThen_lazy: "andThen m f = andThen m f" by (rule refl)

lemma catching_lazy: "catching m f = catching m f" by (rule refl)

lemma atomically_lazy: "atomically m = atomically m" by (rule refl)

lemma whenE_lazy: "b = b' \<Longrightarrow> whenE b m = whenE b' m" by simp

lemma let_lazy: "a = b \<Longrightarrow> Let a f = Let b f" by simp

lemmas lazy = andThen_lazy catching_lazy atomically_lazy whenE_lazy let_lazy
  sum.case_cong_weak option.case_cong_weak prod.case_cong_weak

lemma withRetry_run: "withRetry op = retryFrom 1 (Suc (Suc (Suc 0))) op"
  by (simp add: withRetry_def defaultMaxAttempts_def numeral_3_eq_3)

lemma digitChar_simps:
  "digitChar 0 = CHR ''0''" "digitChar (Suc 0) = CHR ''1''" "digitChar 1 = CHR ''1''" "digitChar 2 = CHR ''2''"
  "digitChar 3 = CHR ''3''" "digitChar 4 = CHR ''4''" "digitChar 5 = CHR ''5''" "digitChar 6 = CHR ''6''"
  "digitChar 7 = CHR ''7''" "digitChar 8 = CHR ''8''" "digitChar 9 = CHR ''9''"
  by (simp_all add: digitChar_def char_of_def bit_Suc bit_0)

lemmas run_defs =
  sortDesc_def finallyDo_def require_def andThen_def catching_def atomically_def extCall_def optField_def
  code_def isSpace_def isDigit_def trim_def upperChar_def lowerChar_def toUpperCase_def toLowerCase_def
  startsWith_def digitChar_simps showInt_def digitOf_def parseDigits_def bigIntOf_def allDigits_def
  isPositiveBigIntString_def apiException_def getCode_def httpError_def badRequest_def unauthorized_def
  forbidden_def notFound_def conflict_def badRequestCode_def depositInProgress_def insufficientBalance_def
  insufficientAllowance_def withdrawInProgress_def insufficientPositionBalance_def positionNotActive_def
  idempotencyKeyRequired_def idempotencyConflict_def idempotencyInProgress_def
  isRetryableIdempotencyError_def errorMessage_def exnStatus_def exceptionFilter_def requestIdOf_def
  extCall_def sleep_def decimalBound_def decimalFits_def recordNotFound_def uniqueViolation_def
  valueOutOfRange_def decimalOf_def freshId_def auditLog_def tableUpdate_def putPositions_def
  putTransactions_def putVaults_def putIdempotencyKeys_def touchPosition_def touchTransaction_def
  touchVault_def positionUpdate_def transactionUpdate_def vaultUpdate_def idempotencyUpdate_def
  posRepo_findByUserAndVault_def posRepo_findById_def vaultById_def withVault_def
  posRepo_findByIdWithVault_def positionMatches_def posRepo_findByUserWithFilters_def
  posRepo_findByUserIdWithVaults_def posRepo_create_def setStatus_def decimals3_def setAmounts_def
  incAmounts_def posRepo_activate_def posRepo_close_def posRepo_markWithdrawing_def posRepo_markActive_def
  posRepo_markFailed_def posRepo_addDeposit_def bigInt_def posRepo_subtractWithdraw_def toPositionRecord_def
  asRecord_def pos_findByUserAndVault_def pos_findById_def pos_findByIdWithVault_def
  pos_findByUserIdWithVaults_def pos_findByUserWithFilters_def pos_createPending_def pos_activate_def
  pos_addDeposit_def pos_close_def pos_markWithdrawing_def pos_markActive_def pos_markFailed_def
  pos_subtractWithdraw_def newTransaction_def txRepo_create_def isOpen_def findFirstDesc_def
  txRepo_findOpenDeposit_def txRepo_findOpenWithdraw_def applyStatus_def txRepo_updateStatus_def
  txRepo_confirmSubmitted_def txRepo_findById_def txRepo_findPendingReconciliation_def
  txRepo_findStaleCreated_def txRepo_findByPositionId_def vaultSlugOf_def transactionMatches_def
  txRepo_findByUserWithFilters_def toTransactionRecord_def asTxRecord_def tx_hasOpenDeposit_def
  tx_hasOpenWithdraw_def tx_createTransaction_def tx_markSubmitted_def tx_markConfirmed_def
  tx_confirmSubmitted_def tx_markFailed_def tx_markReverted_def tx_findPendingReconciliation_def
  tx_findStaleCreated_def tx_findById_def tx_findByPositionId_def tx_findByUserWithFilters_def
  metadataString_def sharesField_def redisDown_def redisLive_def redisCommand_def redisIncr_def
  redisExpire_def redisSetNxEx_def redisGet_def redisDel_def rateLimitKey_def rateLimitExceeded_def
  assertAllowed_def getSecurityConfig_def assertDepositAllowed_def assertWithdrawAllowed_def lockKey_def
  lockTtlSeconds_def lockAcquire_def lockRelease_def lockIsMine_def lockDelete_def ray_def viem_getChainDefinition_def fixed4_def
  viem_formatSupplyApy_def viem_readTokenSymbol_def viem_readReserveData_def viem_previewDeposit_def
  viem_previewWithdraw_def viem_readATokenBalance_def aave_resolveAssetDecimals_def aave_getConfig_def
  aave_vaultSelected_def aave_getEnabledVaultDefinitions_def aave_findVaultDefinition_def
  aave_requireVaultDefinition_def orElse_def aave_buildVault_def aave_getVault_def aave_getVaults_def
  aave_preview_def aave_previewDeposit_def aave_previewWithdraw_def computeCurrentValue_def
  defaultMaxAttempts_def defaultBaseDelayMs_def statusField_def nameField_def isRetryablePrivyError_def
  isPrivyLikeError_def badGateway_def mapPrivyError_def resolveCaip2Chain_def privyChains_def
  resolvePrivyChain_def hexChar_def showHexInt_def toHexQuantity_def getAuthorizationContext_def
  getWalletSignerKeyQuorumId_def privy_execute_def signingNotConfigured_def notSignable_def
  privy_assertWalletServerSignable_def privy_ensureWalletServerSigner_def transactionParams_def
  sendRequest_def privy_sendOnce_def privy_sendTransaction_def deriveTransactionHash_def
  privy_prepareTransactionSigning_def privy_getWallet_def balanceEntry_def privy_getBalances_def
  privy_getBalance_def isIdChar_def toExternalId_def privy_createWallet_def privy_findExistingPrivyUser_def
  setPrivyUserId_def privy_ensurePrivyUserId_def maxUint256_def bc_getBlockchainConfig_def
  bc_getChainDefinition_def mainnetDisabled_def bc_assertMainnetTransactionsAllowed_def viaClient_def
  bc_readErc20Allowance_def bc_readAssetBalance_def bc_previewDepositShares_def bc_previewWithdrawShares_def
  bc_readVaultShareBalance_def bc_encodeVaultDeposit_def bc_encodeVaultWithdraw_def
  bc_encodeErc20Approve_def bc_waitForTransactionReceipt_def bc_getTransactionReceipt_def
  bc_getTransactionReceiptWithRetry_def bc_fetchDepositPreviewData_def findOwnedWallet_def newVault_def
  refreshVault_def vaultRepo_findOrCreate_def buildExplorerUrl_def explorer_forTransaction_def
  val_getChainDefinition_def val_assertWalletBelongsToUser_def val_assertChainMatchesEnvironment_def
  val_assertVaultBelongsToChain_def val_assertRpcBelongsToChain_def val_assertWalletChainMatchesVault_def
  val_assertVaultActive_def val_assertDepositEnabled_def val_assertWithdrawEnabled_def
  val_assertSufficientBalance_def val_assertSufficientAllowance_def dep_checks_def
  dep_assertNoDuplicateDeposit_def dep_metadata_def dep_transactionInput_def dep_openBody_def dep_open_def
  dep_requested_def dep_sendInput_def dep_submittedMetadata_def dep_submit_def dep_toResponse_def
  dep_reverted_def dep_amounts_def dep_positionMissing_def dep_confirmBody_def dep_confirmed_def
  dep_settle_def dep_fail_def dep_attempt_def depositVault_def
  withRetry_run showNat.simps showHexNat.simps Let_def

lemma demoEnv_sel: 
 "e_config (demoEnv st) = demoConfig" "e_auditUp (demoEnv st) n" "e_redisUp (demoEnv st) n"
 "e_privySend (demoEnv st) n q = Inr \<lparr>b_hash = ''h'', b_transactionId = None\<rparr>"
 "e_waitReceipt (demoEnv st) n c h = Inr \<lparr>rc_status = st, rc_blockNumber = 7, rc_gasUsed = 9\<rparr>"
 "e_getReceipt (demoEnv st) n c h = Inr \<lparr>rc_status = st, rc_blockNumber = 7, rc_gasUsed = 9\<rparr>"
 "e_encode (demoEnv st) d = Inr ''d''"  "e_formatUnits (demoEnv st) i k = ''1''"
 "e_balanceOf (demoEnv st) n c h a = Inr 1000" "e_allowance (demoEnv st) n c h a b = Inr 100"
 "e_reserveData (demoEnv st) n c h a = Inr (0,0)" "e_totalSupply (demoEnv st) n c h = Inr 0" "e_symbol (demoEnv st) n c h = Inr ''aU''"
 "e_privyGetWallet (demoEnv st) n h = Inr \<lparr>pw_id = ''w'', pw_address = ''a'', pw_ownerId = Some ''q'', pw_additionalSigners = []\<rparr>"
  by (simp_all add: demoEnv_def)
lemma demoConfig_sel: 
 "c_security demoConfig = Some \<lparr>rateLimitTtlMs = Some 60000, rateLimitMax = Some 100, maxDepositsPerMinute = Some 5,
        maxWithdrawalsPerMinute = Some 5, dependencyCheckTimeoutMs = Some 3000\<rparr>"
  by (simp_all add: demoConfig_def)

lemmas demo_run = run_defs demoEnv_sel demoConfig_sel demoWorld_def emptyWorld_def demoDeposit_def
  demoConfig_def demoWallet_def

section \<open>A first deposit, confirmed\<close>

lemma demo_deposit:
  "(case depositVault (demoEnv Success) 0 ''v'' demoDeposit demoWorld of (r, s) \<Rightarrow>
     (isl r, map (\<lambda>p. (p_status p, p_shares p)) (positions s),
      map (\<lambda>t. (t_status t, t_amount t)) (transactions s), length (sent s)))
   = (False, [(P_ACTIVE, 25)], [(T_CONFIRMED, 25)], 1)"
  by (simp add: demo_run cong: lazy)

section \<open>A position to withdraw from, and what a job finds\<close>

definition demoVault :: vault where
  "demoVault = \<lparr>v_id = 2, v_slug = ''v'', v_name = ''U'', v_chainId = 84532, v_contractAddress = ''p'',
     v_assetSymbol = ''U'', v_assetDecimals = 6, v_apy = ''0'', v_isActive = True, v_createdAt = 0, v_updatedAt = 0\<rparr>"

definition demoPosition :: "position_status \<Rightarrow> int \<Rightarrow> position" where
  "demoPosition st n = \<lparr>p_id = 3, p_userId = 0, p_vaultId = 2, p_status = st, p_depositedAmount = n,
     p_currentAmount = n, p_shares = n, p_createdAt = 0, p_updatedAt = 0\<rparr>"

definition demoTx :: "uuid \<Rightarrow> transaction_type \<Rightarrow> transaction_status \<Rightarrow> int \<Rightarrow> transaction" where
  "demoTx i ty st n = \<lparr>t_id = i, t_userId = 0, t_walletId = Some 1, t_vaultId = Some 2, t_positionId = Some 3,
     t_type = ty, t_status = st, t_amount = n, t_txHash = Some ''h'', t_chainId = 84532, t_blockNumber = None,
     t_metadata = Some [(''estimatedShares'', JStr (showInt n)), (''sharesBurned'', JStr (showInt n))],
     t_createdAt = 0, t_updatedAt = 0\<rparr>"

definition demoBooks :: "position list \<Rightarrow> transaction list \<Rightarrow> world" where
  "demoBooks ps ts = emptyWorld\<lparr>wallets := [demoWallet], vaults := [demoVault], positions := ps,
     transactions := ts, nextId := 9\<rparr>"

definition demoHeld :: world where
  "demoHeld = demoBooks [demoPosition P_ACTIVE 25] [demoTx 4 DEPOSIT T_CONFIRMED 25]"

definition demoWithdraw :: withdraw_dto where
  "demoWithdraw = \<lparr>wdd_walletId = 1, wdd_amount = Some ''10'', wdd_fullWithdraw = None\<rparr>"

definition demoApprove :: approve_dto where
  "demoApprove = \<lparr>ad_walletId = 1, ad_amount = ''500''\<rparr>"

lemmas demo_tables = demoHeld_def demoBooks_def demoVault_def demoPosition_def demoTx_def

lemmas demo_withdraw_run = demo_run demo_tables demoWithdraw_def
  wd_resolveWithdrawAmount_def wd_position_def wd_checks_def wd_metadata_def wd_transactionInput_def
  wd_openBody_def wd_open_def wd_requested_def wd_sendInput_def wd_submittedMetadata_def wd_submit_def
  wd_toResponse_def wd_reverted_def wd_positionMissing_def wd_confirmBody_def wd_confirmed_def wd_settle_def
  wd_fail_def wd_attempt_def withdrawPosition_def hasPosition_def

lemmas demo_approve_run = demo_run demo_tables demoApprove_def
  ap_readAllowance_def ap_checks_def ap_toResponse_def ap_transactionInput_def ap_skip_def ap_sendInput_def
  ap_submittedMetadata_def ap_submit_def ap_receiptMetadata_def ap_finalRecord_def ap_settle_def ap_fail_def
  ap_attempt_def ap_request_def approveVault_def

lemma demo_withdraw:
  "(case withdrawPosition (demoEnv Success) 0 3 demoWithdraw demoHeld of (r, s) \<Rightarrow>
     (isl r, map (\<lambda>p. (p_status p, p_shares p)) (positions s),
      map (\<lambda>t. (t_type t, t_status t, t_amount t)) (transactions s), length (sent s)))
   = (False, [(P_ACTIVE, 15)], [(DEPOSIT, T_CONFIRMED, 25), (WITHDRAW, T_CONFIRMED, 10)], 1)"
  by (simp add: demo_withdraw_run cong: lazy)

lemma demo_approve:
  "(case approveVault (demoEnv Success) 0 ''v'' demoApprove demoWorld of (r, s) \<Rightarrow>
     (isl r, map (\<lambda>t. (t_type t, t_status t, t_amount t)) (transactions s), length (sent s)))
   = (False, [(APPROVAL, T_CONFIRMED, 500)], 1)"
  by (simp add: demo_approve_run cong: lazy)

lemma demo_base: "base (\<lambda>_. 0) {} demoWorld"
  by (simp add: base_def dbInv_def posInv_def txInv_def ledger_def openIn_def refsBelow_def demoWorld_def emptyWorld_def)

lemma demo_held_base: "base (\<lambda>_. 0) {} demoHeld"
  by (simp add: base_def dbInv_def posInv_def txInv_def ledger_def openIn_def refsBelow_def demo_tables emptyWorld_def
      goodPosition_def goodTransaction_def balanceOf_def delta_def decimalFits_def decimalBound_def isOpen_def)

end
