(* ===== verification/Startup.thy ===== *)
theory Startup
  imports Privy Catalog Reconcile
begin

text \<open>
  What happens before the first request: the schema of the environment (\<^verbatim>\<open>config/config.validation.ts\<close>), the
  remaining loaders, the options \<^verbatim>\<open>main.ts\<close> and \<^verbatim>\<open>app.module.ts\<close> give the framework, the worker's start, the
  provider object that the factory hands out, and the level at which a request is logged.

  The schema is a table of rules; what the validator library takes as a URI, a number or a boolean is a
  parameter (\<open>joi_lib\<close>).  The facts: an environment the schema accepts has every required variable, a secret
  of 32 characters and known names where names are fixed, and lets the start-up checks of the clients and the
  factories pass (\<open>accepted_starts\<close>).
\<close>

section \<open>The schema of the environment\<close>

datatype joi_check =
    AnyText
  | OneOf "string list"
  | TextOfLength nat
  | UriText "string list"
  | PortNumber
  | PositiveInteger
  | Flag

record env_rule =
  er_name :: string
  er_check :: joi_check
  er_required :: bool

text \<open>The values the library reads: \<open>jl_uri\<close> takes the schemes it is restricted to, none for any.\<close>

record joi_lib =
  jl_uri :: "string list \<Rightarrow> string \<Rightarrow> bool"
  jl_integer :: "string \<Rightarrow> int option"
  jl_flag :: "string \<Rightarrow> bool option"

definition required :: "string \<Rightarrow> joi_check \<Rightarrow> env_rule" where
  "required k c = \<lparr>er_name = k, er_check = c, er_required = True\<rparr>"

definition defaulted :: "string \<Rightarrow> joi_check \<Rightarrow> env_rule" where
  "defaulted k c = \<lparr>er_name = k, er_check = c, er_required = False\<rparr>"

text \<open>In the order of the file; a default is repeated by the loader that reads the variable.\<close>

definition validationSchema :: "env_rule list" where
  "validationSchema =
     [defaulted ''NODE_ENV'' (OneOf [''development'', ''production'', ''test'']),
      defaulted ''APP_ENV'' (OneOf [''local'', ''develop'', ''production'']),
      defaulted ''PORT'' PortNumber,
      defaulted ''API_PREFIX'' AnyText,
      defaulted ''CORS_ORIGINS'' AnyText,
      defaulted ''RATE_LIMIT_TTL_MS'' PositiveInteger,
      defaulted ''RATE_LIMIT_MAX'' PositiveInteger,
      defaulted ''MAX_DEPOSITS_PER_MINUTE'' PositiveInteger,
      defaulted ''MAX_WITHDRAWALS_PER_MINUTE'' PositiveInteger,
      defaulted ''DEPENDENCY_CHECK_TIMEOUT_MS'' PositiveInteger,
      defaulted ''LOG_LEVEL'' (OneOf [''error'', ''warn'', ''info'', ''debug'', ''verbose'']),
      required ''DATABASE_URL'' (UriText [''postgresql'', ''postgres'']),
      required ''CHAIN'' AnyText,
      required ''CHAIN_ID'' PositiveInteger,
      defaulted ''MAINNET_ENABLED'' Flag,
      defaulted ''ALLOW_MAINNET_TRANSACTIONS'' Flag,
      required ''ALCHEMY_API_KEY'' AnyText,
      required ''RPC_URL'' (UriText []),
      required ''UPSTASH_REDIS_REST_URL'' (UriText []),
      required ''UPSTASH_REDIS_REST_TOKEN'' AnyText,
      required ''REDIS_URL'' (UriText [''redis'', ''rediss'']),
      defaulted ''QUEUE_ENABLED'' Flag,
      required ''PRIVY_APP_ID'' AnyText,
      required ''PRIVY_APP_SECRET'' AnyText,
      required ''PRIVY_JWKS_URL'' (UriText []),
      defaulted ''PRIVY_AUTHORIZATION_PRIVATE_KEY'' AnyText,
      defaulted ''PRIVY_WALLET_SIGNER_KEY_QUORUM_ID'' AnyText,
      required ''JWT_SECRET'' (TextOfLength 32),
      defaulted ''JWT_EXPIRES_IN'' AnyText,
      defaulted ''WALLET_PROVIDER'' (OneOf [''privy'']),
      required ''CHAINS_CONFIG'' AnyText,
      required ''ASSETS_CONFIG'' AnyText,
      defaulted ''EARN_PROTOCOL_PROVIDER'' (OneOf [''aave'']),
      defaulted ''AAVE_API_URL'' (UriText []),
      required ''AAVE_VAULTS_CONFIG'' AnyText,
      defaulted ''IDEMPOTENCY_TTL_HOURS'' PositiveInteger,
      defaulted ''IDEMPOTENCY_HEADER_NAME'' AnyText]"

text \<open>A text may not be empty, whatever else is asked of it.\<close>

fun checkHolds :: "joi_lib \<Rightarrow> joi_check \<Rightarrow> string \<Rightarrow> bool" where
  "checkHolds j AnyText s = (s \<noteq> [])"
| "checkHolds j (OneOf vs) s = (s \<in> set vs)"
| "checkHolds j (TextOfLength n) s = (s \<noteq> [] \<and> n \<le> length s)"
| "checkHolds j (UriText schemes) s = (s \<noteq> [] \<and> jl_uri j schemes s)"
| "checkHolds j PortNumber s = (case jl_integer j s of None \<Rightarrow> False | Some n \<Rightarrow> 0 \<le> n \<and> n \<le> 65535)"
| "checkHolds j PositiveInteger s = (case jl_integer j s of None \<Rightarrow> False | Some n \<Rightarrow> 0 < n)"
| "checkHolds j Flag s = (jl_flag j s \<noteq> None)"

definition ruleHolds :: "joi_lib \<Rightarrow> environment \<Rightarrow> env_rule \<Rightarrow> bool" where
  "ruleHolds j vars r =
     (case vars (er_name r) of None \<Rightarrow> \<not> er_required r | Some s \<Rightarrow> checkHolds j (er_check r) s)"

text \<open>With \<open>abortEarly: false\<close> all offending variables are named, with \<open>allowUnknown\<close> others are ignored.\<close>

definition validateEnv :: "joi_lib \<Rightarrow> environment \<Rightarrow> string list" where
  "validateEnv j vars = map er_name (filter (\<lambda>r. \<not> ruleHolds j vars r) validationSchema)"

section \<open>The other loaders\<close>

record jwt_config =
  jw_secret :: string
  jw_expiresIn :: string

definition jwtConfig :: "environment \<Rightarrow> jwt_config" where
  "jwtConfig vars = \<lparr>jw_secret = envOr vars ''JWT_SECRET'' [], jw_expiresIn = envOr vars ''JWT_EXPIRES_IN'' ''7d''\<rparr>"

definition databaseConfig :: "environment \<Rightarrow> string" where
  "databaseConfig vars = envOr vars ''DATABASE_URL'' []"

definition walletConfig :: "environment \<Rightarrow> string" where
  "walletConfig vars = envOr vars ''WALLET_PROVIDER'' ''privy''"

section \<open>main.ts and app.module.ts\<close>

datatype cors_origin = AnyOrigin | Origins "string list"

record bootstrap_options =
  bo_contentSecurityPolicy :: bool
  bo_origin :: cors_origin
  bo_globalPrefix :: string
  bo_port :: "int option"

definition bootstrapOptions :: "app_config option \<Rightarrow> bootstrap_options res" where
  "bootstrapOptions loaded =
     (case loaded of
        None \<Rightarrow> Inl (PlainError ''Application configuration failed to load'')
      | Some a \<Rightarrow>
          Inr \<lparr>bo_contentSecurityPolicy = (nodeEnv a = ''production''),
               bo_origin = (if ''*'' \<in> set (corsOrigins a) then AnyOrigin else Origins (corsOrigins a)),
               bo_globalPrefix = apiPrefix a, bo_port = port a\<rparr>)"

text \<open>The window and the limit of the throttler, in which \<open>NaN\<close> (\<open>None\<close>) is not replaced.\<close>

definition throttlerOptions :: "security_config option \<Rightarrow> int option \<times> int option" where
  "throttlerOptions loaded =
     (case loaded of None \<Rightarrow> (Some 60000, Some 100) | Some s \<Rightarrow> (rateLimitTtlMs s, rateLimitMax s))"

section \<open>Logging of a request\<close>

datatype http_level = HttpError | HttpWarn | HttpLog

record http_log =
  hl_requestId :: string
  hl_method :: string
  hl_path :: string
  hl_statusCode :: nat
  hl_durationMs :: nat
  hl_userAgent :: string

text \<open>Written when the response has finished, at time \<open>t\<close>, of a request that came at \<open>startTime\<close>.\<close>

definition structuredLog ::
    "string \<Rightarrow> string \<Rightarrow> string \<Rightarrow> string option \<Rightarrow> nat \<Rightarrow> nat \<Rightarrow> nat \<Rightarrow> http_level \<times> http_log" where
  "structuredLog requestId httpMethod path userAgent startTime statusCode t =
     (if statusCode \<ge> 500 then HttpError else if statusCode \<ge> 400 then HttpWarn else HttpLog,
      \<lparr>hl_requestId = requestId, hl_method = httpMethod, hl_path = path, hl_statusCode = statusCode,
       hl_durationMs = t - startTime, hl_userAgent = (case userAgent of Some u \<Rightarrow> u | None \<Rightarrow> [])\<rparr>)"

text \<open>The log levels of the database client.\<close>

definition prismaLog :: "app_config option \<Rightarrow> string list" where
  "prismaLog loaded =
     (if (case loaded of Some a \<Rightarrow> logLevel a = ''debug'' | None \<Rightarrow> False) then [''query'', ''warn'', ''error'']
      else [''warn'', ''error''])"

section \<open>The worker's start\<close>

record worker_options =
  wo_queue :: string
  wo_url :: string
  wo_concurrency :: nat
  wo_backoff :: "nat \<Rightarrow> nat"

definition getConnectionOptions :: "env \<Rightarrow> string res" where
  "getConnectionOptions x = (case queue_getRedisConfig x of Inl e \<Rightarrow> Inl e | Inr r \<Rightarrow> Inr (redisUrl r))"

definition worker_onModuleInit :: "env \<Rightarrow> worker_options option res" where
  "worker_onModuleInit x =
     (case isQueueEnabled x of
        Inl e \<Rightarrow> Inl e
      | Inr enabled \<Rightarrow>
          if \<not> enabled then Inr None
          else (case getConnectionOptions x of
                  Inl e \<Rightarrow> Inl e
                | Inr url \<Rightarrow> Inr (Some \<lparr>wo_queue = ''transaction-reconciliation'', wo_url = url, wo_concurrency = 1,
                                     wo_backoff = backoffStrategy\<rparr>)))"

section \<open>The provider object\<close>

text \<open>The interface \<open>WalletProvider\<close>, and the class the factory makes of the Privy service.\<close>

record wallet_provider_ops =
  wp_providerType :: string
  wp_ensurePrivyUserId :: "uuid \<Rightarrow> string io"
  wp_createWallet :: "uuid \<Rightarrow> int \<Rightarrow> string option \<Rightarrow> provider_wallet io"
  wp_getWallet :: "string \<Rightarrow> provider_wallet io"
  wp_getBalance :: "string \<Rightarrow> int \<Rightarrow> wallet_balance io"
  wp_getBalances :: "string \<Rightarrow> int \<Rightarrow> wallet_balance list io"
  wp_ensureWalletServerSigner :: "string \<Rightarrow> unit io"
  wp_signTransaction :: "send_transaction_input \<Rightarrow> signed_transaction io"
  wp_sendTransaction :: "send_transaction_input \<Rightarrow> broadcast io"

definition privyWalletProvider :: "env \<Rightarrow> wallet_provider_ops" where
  "privyWalletProvider x =
     \<lparr>wp_providerType = ''privy'', wp_ensurePrivyUserId = privy_ensurePrivyUserId x,
      wp_createWallet = privy_createWallet x, wp_getWallet = (\<lambda>i. privy_getWallet x i 0),
      wp_getBalance = privy_getBalance x, wp_getBalances = privy_getBalances x,
      wp_ensureWalletServerSigner = privy_ensureWalletServerSigner x,
      wp_signTransaction = privy_prepareTransactionSigning x, wp_sendTransaction = privy_sendTransaction x\<rparr>"

definition createProvider :: "env \<Rightarrow> string option \<Rightarrow> wallet_provider_ops res" where
  "createProvider x configured =
     (case walletProviderFor configured of Inl e \<Rightarrow> Inl e | Inr _ \<Rightarrow> Inr (privyWalletProvider x))"

section \<open>An accepted environment\<close>

lemma accepted_rule:
  assumes "validateEnv j vars = []" and "r \<in> set validationSchema"
  shows "ruleHolds j vars r"
  using assms by (auto simp: validateEnv_def filter_empty_conv)

lemma accepted_required:
  assumes "validateEnv j vars = []" and "required k c \<in> set validationSchema"
  shows "\<exists>s. vars k = Some s \<and> checkHolds j c s"
  using accepted_rule [OF assms] by (auto simp: ruleHolds_def required_def split: option.splits)

lemma accepted_defaulted:
  assumes "validateEnv j vars = []" and "defaulted k (OneOf vs) \<in> set validationSchema" and "d \<in> set vs"
  shows "envOr vars k d \<in> set vs"
  using accepted_rule [OF assms(1,2)] assms(3) by (auto simp: ruleHolds_def defaulted_def envOr_def split: option.splits)

lemma schema_rules:
  "required ''JWT_SECRET'' (TextOfLength 32) \<in> set validationSchema"
  "required ''UPSTASH_REDIS_REST_URL'' (UriText []) \<in> set validationSchema"
  "required ''UPSTASH_REDIS_REST_TOKEN'' AnyText \<in> set validationSchema"
  "required ''REDIS_URL'' (UriText [''redis'', ''rediss'']) \<in> set validationSchema"
  "required ''PRIVY_APP_ID'' AnyText \<in> set validationSchema"
  "required ''PRIVY_APP_SECRET'' AnyText \<in> set validationSchema"
  "required ''PRIVY_JWKS_URL'' (UriText []) \<in> set validationSchema"
  "defaulted ''NODE_ENV'' (OneOf [''development'', ''production'', ''test'']) \<in> set validationSchema"
  "defaulted ''APP_ENV'' (OneOf [''local'', ''develop'', ''production'']) \<in> set validationSchema"
  "defaulted ''WALLET_PROVIDER'' (OneOf [''privy'']) \<in> set validationSchema"
  "defaulted ''EARN_PROTOCOL_PROVIDER'' (OneOf [''aave'']) \<in> set validationSchema"
  by (simp_all add: validationSchema_def)

lemma accepted_starts:
  assumes ok: "validateEnv j vars = []"
    and "c_redis (e_config x) = Some (redisConfig vars)" and "c_privy (e_config x) = Some (privyConfig vars)"
  shows "redis_onModuleInit x = Inr (restUrl (redisConfig vars), restToken (redisConfig vars))"
    and "privy_onModuleInit x = Inr (privyConfig vars)"
    and "\<exists>w. worker_onModuleInit x = Inr w"
    and "createProvider x (Some (walletConfig vars)) = Inr (privyWalletProvider x)"
    and "protocolsConfig vars = Inr ''aave''"
    and "32 \<le> length (jw_secret (jwtConfig vars))"
    and "nodeEnv (appConfig vars) \<in> {''development'', ''production'', ''test''}"
    and "appEnv (appConfig vars) \<in> {''local'', ''develop'', ''production''}"
proof -
  note req = accepted_required [OF ok]
  obtain u t r where redis: "vars ''UPSTASH_REDIS_REST_URL'' = Some u" "u \<noteq> []" "vars ''UPSTASH_REDIS_REST_TOKEN'' = Some t" "t \<noteq> []"
    "vars ''REDIS_URL'' = Some r" "r \<noteq> []"
    using req [OF schema_rules(2)] req [OF schema_rules(3)] req [OF schema_rules(4)] by auto
  obtain i p w where privy: "vars ''PRIVY_APP_ID'' = Some i" "i \<noteq> []" "vars ''PRIVY_APP_SECRET'' = Some p" "p \<noteq> []"
    "vars ''PRIVY_JWKS_URL'' = Some w" "w \<noteq> []"
    using req [OF schema_rules(5)] req [OF schema_rules(6)] req [OF schema_rules(7)] by auto
  show "redis_onModuleInit x = Inr (restUrl (redisConfig vars), restToken (redisConfig vars))"
    using assms(2) redis by (simp add: redis_onModuleInit_def redisConfig_def envOr_def)
  show "privy_onModuleInit x = Inr (privyConfig vars)"
    using assms(3) privy by (simp add: privy_onModuleInit_def privyConfig_def envOr_def)
  show "\<exists>w. worker_onModuleInit x = Inr w"
    using assms(2) redis
    by (simp add: worker_onModuleInit_def isQueueEnabled_def getConnectionOptions_def queue_getRedisConfig_def redisConfig_def envOr_def)
  show "createProvider x (Some (walletConfig vars)) = Inr (privyWalletProvider x)"
    using accepted_defaulted [OF ok schema_rules(10), of "''privy''"]
    by (simp add: createProvider_def walletProviderFor_def walletConfig_def)
  show "protocolsConfig vars = Inr ''aave''"
    using accepted_defaulted [OF ok schema_rules(11), of "''aave''"] by (simp add: protocolsConfig_def)
  show "32 \<le> length (jw_secret (jwtConfig vars))"
    using req [OF schema_rules(1)] by (auto simp: jwtConfig_def envOr_def)
  show "nodeEnv (appConfig vars) \<in> {''development'', ''production'', ''test''}"
    using accepted_defaulted [OF ok schema_rules(8), of "''development''"] by (simp add: appConfig_def)
  show "appEnv (appConfig vars) \<in> {''local'', ''develop'', ''production''}"
    using accepted_defaulted [OF ok schema_rules(9), of "''local''"] by (simp add: appConfig_def)
qed

end
