(* ===== verification/Frontend.thy ===== *)
theory Frontend
  imports Controllers Catalog Queries
begin

text \<open>
  The parts of \<^verbatim>\<open>frontend/src\<close> that compute: \<^verbatim>\<open>utils/format.ts\<close> (amounts), \<^verbatim>\<open>utils/chain.ts\<close> and the
  API client \<^verbatim>\<open>api/client.ts\<close>, with the requests it builds and how it reads an answer.  Formatting
  that goes through floating point (APY, TVL) or the browser's locale (dates) is not modelled.

  The facts: showing an amount and parsing it back gives the amount rounded down to the digits
  shown, so never more than there is and exactly it when all digits are shown; the bodies the
  client builds pass the server's validation and mean what was asked for.
\<close>

section \<open>Amounts\<close>

text \<open>\<open>BigInt\<close> division and remainder, which round to zero.\<close>

definition bigDiv :: "int \<Rightarrow> int \<Rightarrow> int" where
  "bigDiv a b = sgn a * sgn b * (\<bar>a\<bar> div \<bar>b\<bar>)"

definition bigRem :: "int \<Rightarrow> int \<Rightarrow> int" where
  "bigRem a b = a - b * bigDiv a b"

definition stripZeros :: "string \<Rightarrow> string" where
  "stripZeros s = rev (dropWhile (\<lambda>c. c = CHR ''0'') (rev s))"

definition formatAmount :: "string \<Rightarrow> nat \<Rightarrow> nat \<Rightarrow> string res" where
  "formatAmount baseUnits decimals maxFractionDigits =
     (case bigInt baseUnits of
        Inl e \<Rightarrow> Inl e
      | Inr amount \<Rightarrow>
          (let divisor = 10 ^ decimals;
               whole = bigDiv amount divisor;
               fraction = bigRem amount divisor;
               fractionStr = stripZeros (take maxFractionDigits (padStart decimals (showInt fraction)))
           in Inr (if fractionStr \<noteq> [] then showInt whole @ ''.'' @ fractionStr else showInt whole)))"

definition padEnd :: "nat \<Rightarrow> string \<Rightarrow> string" where
  "padEnd w s = s @ replicate (w - length s) (CHR ''0'')"

text \<open>\<open>/^\d+(\.\d+)?$/\<close>.\<close>

definition decimalText :: "string \<Rightarrow> bool" where
  "decimalText s =
     (case splitOn (CHR ''.'') s of
        [w] \<Rightarrow> allDigits w
      | [w, f] \<Rightarrow> allDigits w \<and> allDigits f
      | _ \<Rightarrow> False)"

definition parseAmount :: "string \<Rightarrow> nat \<Rightarrow> string res" where
  "parseAmount input decimals =
     (let trimmed = trim input
      in if trimmed = [] \<or> \<not> decimalText trimmed then Inl (PlainError ''Enter a valid amount'')
         else (let parts = splitOn (CHR ''.'') trimmed;
                   whole = hd parts;
                   fraction = (case tl parts of [] \<Rightarrow> [] | f # _ \<Rightarrow> f);
                   paddedFraction = take decimals (padEnd decimals fraction)
               in case (bigInt whole, if paddedFraction = [] then Inr 0 else bigInt paddedFraction) of
                    (Inr w, Inr f) \<Rightarrow> Inr (showInt (w * 10 ^ decimals + f))
                  | (Inl e, _) \<Rightarrow> Inl e
                  | (_, Inl e) \<Rightarrow> Inl e))"

section \<open>Chains\<close>

record client_chain =
  cc_slug :: string
  cc_name :: string
  cc_chainId :: int
  cc_isTestnet :: bool
  cc_isEnabled :: bool
  cc_rpcUrl :: string
  cc_explorerUrl :: string
  cc_nativeCurrency :: native_currency

text \<open>\<open>walletChains\<close>: the chains of the wallets, in order; \<open>environmentChain\<close>: the server's chain, if known.\<close>

definition resolveCreateChainId :: "client_chain list \<Rightarrow> int list \<Rightarrow> int option \<Rightarrow> int" where
  "resolveCreateChainId chains' walletChains environmentChain =
     (let enabled = filter cc_isEnabled chains'
      in case enabled of
           [] \<Rightarrow> (case environmentChain of Some c \<Rightarrow> c | None \<Rightarrow> 84532)
         | first # _ \<Rightarrow>
             (case walletChains of
                [] \<Rightarrow> cc_chainId first
              | w # _ \<Rightarrow> (case find (\<lambda>c. cc_chainId c = w) enabled of
                            Some m \<Rightarrow> cc_chainId m
                          | None \<Rightarrow> cc_chainId first)))"

definition chainLabel :: "client_chain list \<Rightarrow> int \<Rightarrow> string" where
  "chainLabel chains' chainId =
     (case find (\<lambda>c. cc_chainId c = chainId) chains' of Some c \<Rightarrow> cc_name c | None \<Rightarrow> ''Chain '' @ showInt chainId)"

section \<open>The API client\<close>

record api_call =
  ac_path :: string
  ac_method :: string
  ac_body :: "json option"
  ac_idempotencyKey :: "string option"
  ac_timeoutMs :: nat

definition getCall :: "string \<Rightarrow> api_call" where
  "getCall path = \<lparr>ac_path = path, ac_method = ''GET'', ac_body = None, ac_idempotencyKey = None, ac_timeoutMs = 60000\<rparr>"

definition postCall :: "string \<Rightarrow> json option \<Rightarrow> string option \<Rightarrow> api_call" where
  "postCall path body key =
     \<lparr>ac_path = path, ac_method = ''POST'', ac_body = body, ac_idempotencyKey = key, ac_timeoutMs = 60000\<rparr>"

definition api_register :: "string \<Rightarrow> string \<Rightarrow> api_call" where
  "api_register email password =
     postCall ''/auth/register'' (Some (JObj [(''email'', JStr email), (''password'', JStr password)])) None"

definition api_login :: "string \<Rightarrow> string \<Rightarrow> api_call" where
  "api_login email password =
     postCall ''/auth/login'' (Some (JObj [(''email'', JStr email), (''password'', JStr password)])) None"

definition api_getMe :: api_call where
  "api_getMe = getCall ''/users/me''"

definition api_getEnvironment :: api_call where
  "api_getEnvironment = getCall ''/system/environment''"

definition api_getWallets :: api_call where
  "api_getWallets = getCall ''/wallets''"

definition api_getWallet :: "string \<Rightarrow> api_call" where
  "api_getWallet walletId = getCall (''/wallets/'' @ walletId)"

definition api_createWallet :: "int \<Rightarrow> api_call" where
  "api_createWallet chainId =
     (postCall ''/wallets'' (Some (JObj [(''chainId'', JNum chainId), (''isPrimary'', JBool True)])) None)
       \<lparr>ac_timeoutMs := 120000\<rparr>"

definition api_enableServerSigning :: "string \<Rightarrow> api_call" where
  "api_enableServerSigning walletId = postCall (''/wallets/'' @ walletId @ ''/enable-server-signing'') None None"

definition api_getChains :: api_call where
  "api_getChains = getCall ''/chains''"

definition api_faucetUsdc :: "string \<Rightarrow> api_call" where
  "api_faucetUsdc walletId = postCall (''/wallets/'' @ walletId @ ''/faucet/aave-usdc'') None None"

text \<open>A chain id of 0 is falsy and not sent.\<close>

definition api_getVaults :: "int option \<Rightarrow> api_call" where
  "api_getVaults chainId =
     getCall (''/earn/vaults'' @ (case chainId of None \<Rightarrow> [] | Some c \<Rightarrow> if c = 0 then [] else ''?chainId='' @ showInt c))"

definition api_getVault :: "string \<Rightarrow> api_call" where
  "api_getVault vaultId = getCall (''/earn/vaults/'' @ vaultId)"

definition amountBody :: "string \<Rightarrow> string \<Rightarrow> json" where
  "amountBody walletId amount = JObj [(''walletId'', JStr walletId), (''amount'', JStr amount)]"

definition api_previewDeposit :: "string \<Rightarrow> string \<Rightarrow> string \<Rightarrow> api_call" where
  "api_previewDeposit vaultId walletId amount =
     postCall (''/earn/vaults/'' @ vaultId @ ''/deposit/preview'') (Some (amountBody walletId amount)) None"

definition api_approve :: "string \<Rightarrow> string \<Rightarrow> string \<Rightarrow> string \<Rightarrow> api_call" where
  "api_approve vaultId walletId amount key =
     postCall (''/earn/vaults/'' @ vaultId @ ''/approve'') (Some (amountBody walletId amount)) (Some key)"

definition api_deposit :: "string \<Rightarrow> string \<Rightarrow> string \<Rightarrow> string \<Rightarrow> api_call" where
  "api_deposit vaultId walletId amount key =
     postCall (''/earn/vaults/'' @ vaultId @ ''/deposit'') (Some (amountBody walletId amount)) (Some key)"

definition api_getPositions :: api_call where
  "api_getPositions = getCall ''/earn/positions''"

text \<open>\<open>JSON.stringify\<close> leaves out the options that are undefined.\<close>

definition api_withdraw :: "string \<Rightarrow> string \<Rightarrow> string option \<Rightarrow> bool option \<Rightarrow> string \<Rightarrow> api_call" where
  "api_withdraw positionId walletId amount fullWithdraw key =
     postCall (''/earn/positions/'' @ positionId @ ''/withdraw'')
       (Some (JObj ([(''walletId'', JStr walletId)] @ optField ''amount'' (map_option JStr amount)
          @ optField ''fullWithdraw'' (map_option JBool fullWithdraw)))) (Some key)"

definition api_getTransactions :: "nat \<Rightarrow> nat \<Rightarrow> api_call" where
  "api_getTransactions page lim = getCall (''/earn/transactions?page='' @ showNat page @ ''&limit='' @ showNat lim)"

definition api_getTransaction :: "string \<Rightarrow> api_call" where
  "api_getTransaction transactionId = getCall (''/earn/transactions/'' @ transactionId)"

text \<open>The headers of a request: an empty token or key is falsy.\<close>

definition headersOf :: "string option \<Rightarrow> api_call \<Rightarrow> (string \<times> string) list" where
  "headersOf accessToken c =
     [(''Content-Type'', ''application/json'')]
     @ (case accessToken of Some t \<Rightarrow> if t = [] then [] else [(''Authorization'', ''Bearer '' @ t)] | None \<Rightarrow> [])
     @ (case ac_idempotencyKey c of Some k \<Rightarrow> if k = [] then [] else [(''idempotency-key'', k)] | None \<Rightarrow> [])"

text \<open>What \<open>fetch\<close> may give: an answer (its body, if it is JSON), the time limit, a network error, another error.\<close>

datatype fetch_result =
    Answered nat "json option"
  | TimedOut
  | NetworkError
  | OtherError exn

definition answerOk :: "nat \<Rightarrow> bool" where
  "answerOk status = (200 \<le> status \<and> status < 300)"

text \<open>The error text of an answer; an array of messages becomes their text joined by commas.\<close>

definition failureText :: "nat \<Rightarrow> json option \<Rightarrow> string" where
  "failureText status body =
     (if body = Some JNull then ''Cannot read properties of null (reading 'message')''
      else case (case body of Some (JObj kvs) \<Rightarrow> map_of kvs ''message'' | _ \<Rightarrow> None) of
        Some JNull \<Rightarrow> ''Request failed ('' @ showNat status @ '')''
      | Some m \<Rightarrow> jsString m
      | None \<Rightarrow> ''Request failed ('' @ showNat status @ '')'')"

text \<open>\<open>request\<close>: 204 answers \<open>undefined\<close>; an answer that is not JSON is a syntax error.\<close>

definition request :: "string \<Rightarrow> fetch_result \<Rightarrow> json option res" where
  "request apiBase result =
     (case result of
        TimedOut \<Rightarrow> Inl (PlainError ''Request timed out. Wallet creation can take a minute - wait and retry.'')
      | NetworkError \<Rightarrow>
          Inl (PlainError (''Cannot reach API ('' @ apiBase @ ''). Network error or server timeout - try again.''))
      | OtherError e \<Rightarrow> Inl e
      | Answered status body \<Rightarrow>
          if \<not> answerOk status then Inl (PlainError (failureText status body))
          else if status = 204 then Inr None
          else (case body of Some b \<Rightarrow> Inr (Some b) | None \<Rightarrow> Inl (PlainError ''Unexpected end of JSON input'')))"

section \<open>Digits\<close>

fun digs :: "nat \<Rightarrow> nat \<Rightarrow> string" where
  "digs 0 n = []"
| "digs (Suc k) n = digs k (n div 10) @ [digitChar (n mod 10)]"

lemma length_digs [simp]: "length (digs k n) = k"
  by (induction k arbitrary: n) auto

lemma digitChar_zero [simp]: "digitChar 0 = CHR ''0''"
  by (simp add: digitChar_def char_of_def bit_Suc bit_0)

lemma digs_zero: "digs k 0 = replicate k (CHR ''0'')"
  by (induction k) (auto simp: replicate_append_same)

lemma padStart_digs: "n < 10 ^ Suc k \<Longrightarrow> padStart (Suc k) (showNat n) = digs (Suc k) n"
proof (induction k arbitrary: n)
  case 0
  then show ?case by (simp add: padStart_def showNat.simps [of n])
next
  case (Suc k)
  show ?case
  proof (cases "n < 10")
    case True
    have "padStart (Suc (Suc k)) [digitChar n] = replicate (Suc k) (CHR ''0'') @ [digitChar n]" by (simp add: padStart_def)
    moreover have "digs (Suc k) 0 = replicate (Suc k) (CHR ''0'')" by (rule digs_zero)
    ultimately show ?thesis using True by (simp add: showNat.simps [of n])
  next
    case False
    have "n div 10 < 10 ^ Suc k" using Suc.prems by simp
    from Suc.IH [OF this] False show ?thesis
      by (simp add: showNat.simps [of n] padStart_def)
  qed
qed

lemma take_digs: "j \<le> k \<Longrightarrow> take j (digs k n) = digs j (n div 10 ^ (k - j))"
proof (induction k arbitrary: n j)
  case (Suc k)
  show ?case
  proof (cases "j = Suc k")
    case False
    with Suc.prems have j: "j \<le> k" by simp
    then have "n div 10 div 10 ^ (k - j) = n div 10 ^ (Suc k - j)" by (simp add: div_mult2_eq [symmetric] Suc_diff_le)
    with Suc.IH [OF j, of "n div 10"] j show ?thesis by simp
  qed simp
qed simp

lemma parse_digs: "parseRadix 10 a (digs k n) = Some (a * 10 ^ k + n mod 10 ^ k)"
proof (induction k arbitrary: a n)
  case (Suc k)
  have "n mod 10 ^ Suc k = n div 10 mod 10 ^ k * 10 + n mod 10" by (simp add: mod_mult2_eq)
  with Suc show ?case by (simp add: parseRadix_append algebra_simps)
qed simp

lemma parse_zeros: "parseRadix 10 a (replicate k (CHR ''0'')) = Some (a * 10 ^ k)"
  using parse_digs [of a k 0] by (simp add: digs_zero)

lemma digits_zeros: "list_all isDigit (replicate k (CHR ''0''))"
  by (auto simp: list_all_iff isDigit_def code_def)

lemma digs_digits: "list_all isDigit (digs k n)"
  by (induction k arbitrary: n) auto

lemma takeWhile_replicate: "takeWhile (\<lambda>c. c = x) s = replicate (length (takeWhile (\<lambda>c. c = x) s)) x"
  by (induction s) auto

lemma stripZeros_split: "\<exists>j. s = stripZeros s @ replicate j (CHR ''0'')"
proof -
  let ?z = "\<lambda>c. c = CHR ''0''"
  have "rev s = takeWhile ?z (rev s) @ dropWhile ?z (rev s)" by simp
  then have "s = stripZeros s @ rev (takeWhile ?z (rev s))"
    unfolding stripZeros_def by (metis rev_append rev_rev_ident)
  also have "rev (takeWhile ?z (rev s)) = replicate (length (takeWhile ?z (rev s))) (CHR ''0'')"
    by (subst takeWhile_replicate) simp
  finally show ?thesis ..
qed

lemma splitOn_whole: "x \<notin> set a \<Longrightarrow> splitOn x a = [a]"
  by (induction a) auto

lemma splitOn_parts: "x \<notin> set a \<Longrightarrow> x \<notin> set b \<Longrightarrow> splitOn x (a @ x # b) = [a, b]"
  by (induction a) (auto simp: splitOn_whole)

lemma digits_no_dot: "list_all isDigit s \<Longrightarrow> CHR ''.'' \<notin> set s"
  by (auto simp: list_all_iff)

section \<open>Showing an amount and reading it back\<close>

lemma bigInt_digits: "allDigits s \<Longrightarrow> parseRadix 10 0 s = Some n \<Longrightarrow> bigInt s = Inr (int n)"
  by (simp add: bigInt_def bigIntOf_digits parseDigits_def allDigits_def)

lemma bigDiv_nat: "bigDiv (int a) (int b) = int (a div b)"
  by (cases "a = 0"; cases "b = 0") (simp_all add: bigDiv_def zdiv_int)

lemma bigRem_nat: "bigRem (int a) (int b) = int (a mod b)"
  by (simp add: bigRem_def bigDiv_nat) (metis add_diff_cancel_left' mult_div_mod_eq of_nat_add of_nat_mult)

lemma showInt_nat: "showInt (int n) = showNat n"
  by (simp add: showInt_def)

text \<open>The digits after the point: the first \<open>k\<close> of the remainder's, without the zeros at their end.\<close>

definition shownFraction :: "nat \<Rightarrow> nat \<Rightarrow> nat \<Rightarrow> string" where
  "shownFraction d m n = stripZeros (take m (padStart d (showNat (n mod 10 ^ d))))"

lemma formatAmount_nat:
  "formatAmount (showNat n) d m =
     Inr (if shownFraction d m n = [] then showNat (n div 10 ^ d)
          else showNat (n div 10 ^ d) @ ''.'' @ shownFraction d m n)"
proof -
  have "bigInt (showNat n) = Inr (int n)" by (rule bigInt_digits) (simp_all add: allDigits_showNat parseRadix_showNat)
  moreover have "bigDiv (int n) (10 ^ d) = int (n div 10 ^ d)" using bigDiv_nat [of n "10 ^ d"] by simp
  moreover have "bigRem (int n) (10 ^ d) = int (n mod 10 ^ d)" using bigRem_nat [of n "10 ^ d"] by simp
  ultimately show ?thesis by (simp add: formatAmount_def shownFraction_def showInt_nat Let_def bigInt_def)
qed

lemma shownFraction_split:
  assumes "0 < d"
  shows "\<exists>j. digs (min m d) (n mod 10 ^ d div 10 ^ (d - min m d)) = shownFraction d m n @ replicate j (CHR ''0'')"
proof -
  obtain e where d: "d = Suc e" using assms by (cases d) auto
  have "padStart d (showNat (n mod 10 ^ d)) = digs d (n mod 10 ^ d)" unfolding d by (rule padStart_digs) simp
  moreover have "take m (digs d x) = take (min m d) (digs d x)" for x by (simp add: min_def)
  ultimately have "shownFraction d m n = stripZeros (digs (min m d) (n mod 10 ^ d div 10 ^ (d - min m d)))"
    by (simp add: shownFraction_def take_digs)
  then show ?thesis using stripZeros_split by metis
qed

lemma shownFraction_none: "shownFraction 0 m n = []"
  by (cases m) (simp_all add: shownFraction_def padStart_def stripZeros_def showNat.simps [of 0])

lemma trim_number:
  assumes "list_all isDigit a" and "a \<noteq> []" and "list_all isDigit b" and "b \<noteq> []"
  shows "trim (a @ ''.'' @ b) = a @ ''.'' @ b"
  using assms by (intro trim_id) (auto simp: digit_not_space list_all_hd list_all_last)

text \<open>What the text \<open>w.F\<close> means in units of \<open>10^-d\<close>, when \<open>F\<close> filled with zeros reads as \<open>v\<close>.\<close>

lemma parse_whole: "parseAmount (showNat w) d = Inr (showInt (int (w * 10 ^ d)))"
proof -
  have *: "bigInt (showNat n) = Inr (int n)" for n by (rule bigInt_digits) (simp_all add: allDigits_showNat parseRadix_showNat)
  have "splitOn (CHR ''.'') (showNat w) = [showNat w]" by (rule splitOn_whole [OF digits_no_dot [OF showNat_digits]])
  moreover have "bigInt (replicate (Suc n) (CHR ''0'')) = Inr 0" for n
    using bigInt_digits [of "digs (Suc n) 0" 0] parse_zeros [of 0 "Suc n"] digs_digits [of "Suc n" 0]
    unfolding digs_zero [of "Suc n"] by (simp add: allDigits_def)
  ultimately show ?thesis
    by (cases d) (simp_all add: parseAmount_def bigInt_def bigIntOf_digits parseDigits_showNat trim_digits [OF showNat_digits] decimalText_def allDigits_showNat padEnd_def Let_def)
qed

lemma parse_parts:
  assumes F: "list_all isDigit F" "F \<noteq> []" and len: "length F \<le> d"
    and v: "parseRadix 10 0 (F @ replicate (d - length F) (CHR ''0'')) = Some v"
  shows "parseAmount (showNat w @ ''.'' @ F) d = Inr (showInt (int (w * 10 ^ d + v)))"
proof -
  let ?s = "showNat w @ ''.'' @ F" and ?p = "F @ replicate (d - length F) (CHR ''0'')"
  have "splitOn (CHR ''.'') ?s = [showNat w, F]" using splitOn_parts [of "CHR ''.''" "showNat w" F] F(1)
    by (simp add: digits_no_dot showNat_digits)
  moreover have "trim ?s = ?s" using F by (intro trim_number) (simp_all add: showNat_digits)
  moreover have "take d (padEnd d F) = ?p" using len by (simp add: padEnd_def)
  moreover have "bigIntOf (showNat w) = Some (int w)" by (simp add: bigIntOf_digits allDigits_showNat)
  moreover have "bigIntOf ?p = Some (int v)"
    using F v by (simp add: bigIntOf_digits allDigits_def parseDigits_def digits_zeros)
  ultimately show ?thesis using F by (simp add: parseAmount_def decimalText_def allDigits_def showNat_digits bigInt_def Let_def)
qed

lemma div_pow_parts:
  assumes "k \<le> d"
  shows "n div 10 ^ d * 10 ^ d + n mod 10 ^ d div 10 ^ (d - k) * 10 ^ (d - k) = n div 10 ^ (d - k) * (10 ^ (d - k) :: nat)"
proof -
  have p: "10 ^ d = 10 ^ k * (10 ^ (d - k) :: nat)" using assms by (simp add: power_add [symmetric])
  have "n div 10 ^ (d - k) = (n div 10 ^ d * 10 ^ k * 10 ^ (d - k) + n mod 10 ^ d) div 10 ^ (d - k)"
    by (metis div_mult_mod_eq mult.assoc p)
  also have "\<dots> = n div 10 ^ d * 10 ^ k + n mod 10 ^ d div 10 ^ (d - k)" by (simp add: div_mult_self3)
  finally show ?thesis using p by (simp add: algebra_simps)
qed

lemma parse_format:
  assumes "formatAmount (showNat n) d m = Inr s"
  shows "parseAmount s d = Inr (showInt (int (n div 10 ^ (d - min m d) * 10 ^ (d - min m d))))"
proof (cases "0 < d")
  case False
  with assms parse_whole [of "n div 10 ^ d" d] show ?thesis by (auto simp: formatAmount_nat shownFraction_none)
next
  case True
  let ?k = "min m d" and ?F = "shownFraction d m n"
  let ?q = "n mod 10 ^ d div 10 ^ (d - ?k)"
  obtain j where j: "digs ?k ?q = ?F @ replicate j (CHR ''0'')" using shownFraction_split [OF True] by metis
  then have len: "length ?F + j = ?k" by (metis length_append length_digs length_replicate)
  have q: "?q < 10 ^ ?k"
    by (rule less_mult_imp_div_less) (simp add: power_add [symmetric])
  have "?F @ replicate (d - length ?F) (CHR ''0'') = digs ?k ?q @ replicate (d - ?k) (CHR ''0'')"
    using len by (simp add: j replicate_add [symmetric])
  then have v: "parseRadix 10 0 (?F @ replicate (d - length ?F) (CHR ''0'')) = Some (?q * 10 ^ (d - ?k))"
    using q by (simp add: parseRadix_append parse_digs parse_zeros)
  have total: "n div 10 ^ d * 10 ^ d + ?q * 10 ^ (d - ?k) = n div 10 ^ (d - ?k) * 10 ^ (d - ?k)"
    by (rule div_pow_parts) simp
  show ?thesis
  proof (cases "?F = []")
    case True
    with v have "?q * 10 ^ (d - ?k) = 0" by (simp add: parse_zeros)
    with total have "n div 10 ^ (d - ?k) * 10 ^ (d - ?k) = n div 10 ^ d * 10 ^ d" by simp
    with True assms parse_whole [of "n div 10 ^ d" d] show ?thesis by (auto simp: formatAmount_nat)
  next
    case False
    have "list_all isDigit ?F" using digs_digits [of ?k ?q] unfolding j by simp
    from parse_parts [OF this False _ v, of "n div 10 ^ d"] len total False assms
    show ?thesis by (auto simp: formatAmount_nat)
  qed
qed

section \<open>The client's bodies are what the server's validation accepts\<close>

lemma uuidOf_showNat [simp]: "uuidOf (showNat w) = Some w"
  by (simp add: uuidOf_def)

lemma client_deposit_body:
  assumes "0 < n"
  shows "parseDepositDto (ac_body (api_deposit v (showNat w) (showInt n) k))
           = Inr \<lparr>dd_walletId = w, dd_amount = showInt n\<rparr>"
  using positive_amount_complete [OF assms]
  by (simp add: parseDepositDto_def api_deposit_def postCall_def amountBody_def bodyProps_def uuidProp_def amountProp_def
      strangers_def complaint_def)

lemma client_approve_body:
  assumes "0 < n"
  shows "parseApproveDto (ac_body (api_approve v (showNat w) (showInt n) k))
           = Inr \<lparr>ad_walletId = w, ad_amount = showInt n\<rparr>"
  using positive_amount_complete [OF assms]
  by (simp add: parseApproveDto_def api_approve_def postCall_def amountBody_def bodyProps_def uuidProp_def amountProp_def
      strangers_def complaint_def)

lemma client_withdraw_body:
  assumes "0 < n"
  shows "parseWithdrawDto (ac_body (api_withdraw p (showNat w) (Some (showInt n)) None k))
           = Inr \<lparr>wdd_walletId = w, wdd_amount = Some (showInt n), wdd_fullWithdraw = None\<rparr>"
  using positive_amount_complete [OF assms]
  by (simp add: parseWithdrawDto_def api_withdraw_def postCall_def bodyProps_def uuidProp_def amountProp_def
      strangers_def complaint_def optField_def stringProp_def)

lemma client_withdraw_all_body:
  "parseWithdrawDto (ac_body (api_withdraw p (showNat w) None (Some True) k))
     = Inr \<lparr>wdd_walletId = w, wdd_amount = None, wdd_fullWithdraw = Some True\<rparr>"
  by (simp add: parseWithdrawDto_def api_withdraw_def postCall_def bodyProps_def uuidProp_def
      strangers_def complaint_def optField_def stringProp_def)

lemmas client_bodies = client_deposit_body client_approve_body client_withdraw_body client_withdraw_all_body

end
