(* ===== verification/Views.thy ===== *)
theory Views
  imports Frontend
begin

text \<open>
  The state of the web client outside the deposit and withdrawal dialogs: the hook \<^verbatim>\<open>hooks/useAsync.ts\<close>,
  the contexts \<^verbatim>\<open>context/AuthContext.tsx\<close> and \<^verbatim>\<open>context/WalletContext.tsx\<close>, and what the pages compute of
  their data.  A component's state is a record, what the browser or the network may do to it an
  event, and its reachable states an inductive predicate; an answer of the server may be anything.

  The facts: what \<open>useAsync\<close> shows when it is not loading is the outcome of the latest run, never of
  one that was superseded; a user is shown as signed in, and a page of the application is shown, only
  with a token that was handed out for that user; creating a wallet next to a primary one leaves two of them primary in the client's
  list, and a refresh that overtakes it loses the new one.
\<close>

section \<open>useAsync\<close>

text \<open>
  The runs of the effect are numbered.  Each has its own \<open>cancelled\<close>, which the clean-up sets, so at
  most one run is not cancelled: \<open>av_live\<close>.  \<open>av_settled\<close> and \<open>av_finished\<close> say whose \<open>then\<close> or \<open>catch\<close>,
  and whose \<open>finally\<close>, has run.
\<close>

record 'd async_view =
  av_data :: "'d option"
  av_loading :: bool
  av_error :: "string option"
  av_runs :: nat
  av_live :: "nat option"
  av_settled :: "nat list"
  av_finished :: "nat list"

definition async_init :: "'d async_view" where
  "async_init = \<lparr>av_data = None, av_loading = True, av_error = None, av_runs = 0, av_live = None,
     av_settled = [], av_finished = []\<rparr>"

definition async_effect :: "'d async_view \<Rightarrow> 'd async_view" where
  "async_effect v = v\<lparr>av_loading := True, av_error := None, av_live := Some (av_runs v), av_runs := Suc (av_runs v)\<rparr>"

definition async_cleanup :: "'d async_view \<Rightarrow> 'd async_view" where
  "async_cleanup v = v\<lparr>av_live := None\<rparr>"

definition async_settle :: "nat \<Rightarrow> 'd res \<Rightarrow> 'd async_view \<Rightarrow> 'd async_view" where
  "async_settle k outcome v =
     (let v' = v\<lparr>av_settled := k # av_settled v\<rparr>
      in if av_live v \<noteq> Some k then v'
         else (case outcome of
                 Inr d \<Rightarrow> v'\<lparr>av_data := Some d\<rparr>
               | Inl e \<Rightarrow> v'\<lparr>av_error := Some (errorMessage e)\<rparr>))"

definition async_finish :: "nat \<Rightarrow> 'd async_view \<Rightarrow> 'd async_view" where
  "async_finish k v =
     (let v' = v\<lparr>av_finished := k # av_finished v\<rparr>
      in if av_live v \<noteq> Some k then v' else v'\<lparr>av_loading := False\<rparr>)"

text \<open>\<open>outcome k\<close> is what the fetch of run \<open>k\<close> comes to.  A run starts when the one before was cleaned up.\<close>

inductive fetching :: "(nat \<Rightarrow> 'd res) \<Rightarrow> 'd async_view \<Rightarrow> bool" for outcome where
  start: "fetching outcome async_init"
| effect: "fetching outcome v \<Longrightarrow> fetching outcome (async_effect (async_cleanup v))"
| unmount: "fetching outcome v \<Longrightarrow> fetching outcome (async_cleanup v)"
| settle: "fetching outcome v \<Longrightarrow> k < av_runs v \<Longrightarrow> k \<notin> set (av_settled v) \<Longrightarrow> fetching outcome (async_settle k (outcome k) v)"
| finish: "fetching outcome v \<Longrightarrow> k \<in> set (av_settled v) \<Longrightarrow> k \<notin> set (av_finished v) \<Longrightarrow> fetching outcome (async_finish k v)"

lemmas async_defs = async_init_def async_effect_def async_cleanup_def async_settle_def async_finish_def

text \<open>What is shown of a run's outcome.\<close>

definition displays :: "'d res \<Rightarrow> 'd async_view \<Rightarrow> bool" where
  "displays outcome v =
     (case outcome of
        Inr d \<Rightarrow> av_data v = Some d \<and> av_error v = None
      | Inl e \<Rightarrow> av_error v = Some (errorMessage e))"

lemma fetching_inv:
  "fetching outcome v \<Longrightarrow>
     (\<forall>k \<in> set (av_settled v). k < av_runs v) \<and> set (av_finished v) \<subseteq> set (av_settled v)
     \<and> (\<forall>k. av_live v = Some k \<longrightarrow> Suc k = av_runs v
           \<and> (k \<notin> set (av_settled v) \<longrightarrow> av_error v = None)
           \<and> (k \<in> set (av_settled v) \<longrightarrow> displays (outcome k) v)
           \<and> (\<not> av_loading v \<longrightarrow> k \<in> set (av_settled v)))"
proof (induction rule: fetching.induct)
  case (effect v)
  then show ?case by (auto simp: async_effect_def async_cleanup_def)
next
  case (settle v k)
  then show ?case by (cases "outcome k") (auto simp: async_settle_def displays_def Let_def split: sum.splits)
next
  case (finish v k)
  then show ?case by (cases "outcome k") (auto simp: async_finish_def displays_def Let_def split: sum.splits)
qed (auto simp: async_init_def async_cleanup_def displays_def split: sum.splits)

section \<open>AuthContext\<close>

text \<open>
  \<open>ax_token\<close> is the token of \<^verbatim>\<open>api/client.ts\<close> with its copy in the local storage; \<open>checking\<close>: the request
  for the profile at the start is under way.
\<close>

record ('u, 'w) auth_view =
  ax_token :: "'w option"
  ax_user :: "'u option"
  ax_loading :: bool
  ax_checking :: bool

definition auth_mount :: "'w option \<Rightarrow> ('u, 'w) auth_view" where
  "auth_mount stored = \<lparr>ax_token = stored, ax_user = None, ax_loading = (stored \<noteq> None), ax_checking = (stored \<noteq> None)\<rparr>"

definition auth_meAnswered :: "'u res \<Rightarrow> ('u, 'w) auth_view \<Rightarrow> ('u, 'w) auth_view" where
  "auth_meAnswered answer v =
     (case answer of
        Inr u \<Rightarrow> v\<lparr>ax_user := Some u, ax_loading := False, ax_checking := False\<rparr>
      | Inl _ \<Rightarrow> v\<lparr>ax_token := None, ax_user := None, ax_loading := False, ax_checking := False\<rparr>)"

text \<open>\<open>login\<close> and \<open>register\<close>, once answered; an error is thrown to the form and changes nothing here.\<close>

definition auth_signedIn :: "('w \<times> 'u) res \<Rightarrow> ('u, 'w) auth_view \<Rightarrow> ('u, 'w) auth_view" where
  "auth_signedIn answer v =
     (case answer of Inl _ \<Rightarrow> v | Inr (t, u) \<Rightarrow> v\<lparr>ax_token := Some t, ax_user := Some u\<rparr>)"

definition auth_logout :: "('u, 'w) auth_view \<Rightarrow> ('u, 'w) auth_view" where
  "auth_logout v = v\<lparr>ax_token := None, ax_user := None\<rparr>"

datatype route_view = LoaderView | RedirectTo string | ChildrenView | FormView

text \<open>\<open>ProtectedRoute\<close> of \<^verbatim>\<open>App.tsx\<close> and the first lines of \<open>LoginPage\<close>.\<close>

definition protectedRoute :: "('u, 'w) auth_view \<Rightarrow> route_view" where
  "protectedRoute v =
     (if ax_loading v then LoaderView else if ax_user v = None then RedirectTo ''/login'' else ChildrenView)"

definition loginPage :: "('u, 'w) auth_view \<Rightarrow> route_view" where
  "loginPage v =
     (if ax_loading v then LoaderView else if ax_user v \<noteq> None then RedirectTo ''/'' else FormView)"

text \<open>
  The routes of \<open>AppShell\<close>, by the segments of the path: all but the login page are inside the protected
  route; another path is redirected to the start.
\<close>

datatype page = LoginForm | Dashboard | WalletsPage | VaultsPage "string option" | PortfolioPage | ActivityPage

definition pageOf :: "string list \<Rightarrow> page option" where
  "pageOf segments =
     (case segments of
        [] \<Rightarrow> Some Dashboard
      | [p] \<Rightarrow>
          if p = ''login'' then Some LoginForm
          else if p = ''wallets'' then Some WalletsPage
          else if p = ''vaults'' then Some (VaultsPage None)
          else if p = ''portfolio'' then Some PortfolioPage
          else if p = ''activity'' then Some ActivityPage
          else None
      | [p, vaultId] \<Rightarrow> if p = ''vaults'' then Some (VaultsPage (Some vaultId)) else None
      | _ \<Rightarrow> None)"

definition appShell :: "string list \<Rightarrow> ('u, 'w) auth_view \<Rightarrow> route_view" where
  "appShell segments v =
     (case pageOf segments of
        None \<Rightarrow> RedirectTo ''/''
      | Some LoginForm \<Rightarrow> loginPage v
      | Some _ \<Rightarrow> protectedRoute v)"

text \<open>
  The reachable states: \<open>issued t u\<close> says that the server names \<open>u\<close> as the user of the token \<open>t\<close>.  The
  form that signs in is there only on the login page, the button that signs out only behind the
  protected route.
\<close>

inductive signedIn :: "('w \<Rightarrow> 'u \<Rightarrow> bool) \<Rightarrow> ('u, 'w) auth_view \<Rightarrow> bool" for issued where
  mount: "signedIn issued (auth_mount stored)"
| known: "signedIn issued v \<Longrightarrow> ax_checking v \<Longrightarrow> ax_token v = Some t \<Longrightarrow> issued t u \<Longrightarrow> signedIn issued (auth_meAnswered (Inr u) v)"
| refused: "signedIn issued v \<Longrightarrow> ax_checking v \<Longrightarrow> signedIn issued (auth_meAnswered (Inl e) v)"
| enter: "signedIn issued v \<Longrightarrow> loginPage v = FormView \<Longrightarrow> issued t u \<Longrightarrow> signedIn issued (auth_signedIn (Inr (t, u)) v)"
| stay: "signedIn issued v \<Longrightarrow> signedIn issued (auth_signedIn (Inl e) v)"
| leave: "signedIn issued v \<Longrightarrow> protectedRoute v = ChildrenView \<Longrightarrow> signedIn issued (auth_logout v)"

lemma signedIn_inv:
  "signedIn issued v \<Longrightarrow>
     (ax_checking v \<longrightarrow> ax_loading v \<and> ax_user v = None) \<and> (\<forall>u. ax_user v = Some u \<longrightarrow> (\<exists>t. ax_token v = Some t \<and> issued t u))
     \<and> (\<not> ax_checking v \<longrightarrow> ax_user v = None \<longrightarrow> ax_token v = None)"
  by (induction rule: signedIn.induct)
     (auto simp: auth_mount_def auth_meAnswered_def auth_signedIn_def auth_logout_def loginPage_def protectedRoute_def
        split: if_splits)

text \<open>So a page of the application is shown only to a user with a token of that user.\<close>

lemma shown_to_user:
  assumes "signedIn issued v" and "appShell segments v = ChildrenView"
  shows "\<exists>t u. ax_user v = Some u \<and> ax_token v = Some t \<and> issued t u"
proof -
  from assms(2) have "\<exists>u. ax_user v = Some u"
    by (auto simp: appShell_def protectedRoute_def loginPage_def split: option.splits page.splits if_splits)
  with signedIn_inv [OF assms(1)] show ?thesis by blast
qed

section \<open>WalletContext\<close>

record client_balance =
  cb_address :: string
  cb_chainId :: int
  cb_balance :: string
  cb_symbol :: string
  cb_decimals :: nat

record client_wallet =
  cl_walletId :: string
  cl_privyWalletId :: string
  cl_walletAddress :: string
  cl_chainId :: int
  cl_walletType :: string
  cl_isPrimary :: bool
  cl_createdAt :: string
  cl_updatedAt :: string
  cl_balance :: "client_balance option"
  cl_balances :: "client_balance list option"

record client_environment =
  ce_environment :: string
  ce_chain :: string
  ce_chainId :: int
  ce_mainnetEnabled :: bool
  ce_allowMainnetTransactions :: bool

record wallet_view =
  wv_wallets :: "client_wallet list"
  wv_chains :: "client_chain list"
  wv_environment :: "client_environment option"
  wv_loading :: bool
  wv_error :: "string option"
  wv_creating :: bool
  wv_pendingWalletId :: "string option"

definition wallet_init :: wallet_view where
  "wallet_init = \<lparr>wv_wallets = [], wv_chains = [], wv_environment = None, wv_loading = True, wv_error = None,
     wv_creating = False, wv_pendingWalletId = None\<rparr>"

text \<open>\<open>refresh\<close> for a user, with what the three requests came to; each that failed keeps what was there.\<close>

definition wallet_refresh ::
    "client_wallet list res \<Rightarrow> client_chain list res \<Rightarrow> client_environment res \<Rightarrow> wallet_view \<Rightarrow> wallet_view" where
  "wallet_refresh r0 r1 r2 v =
     v\<lparr>wv_wallets := (case r0 of Inr ws \<Rightarrow> ws | Inl _ \<Rightarrow> wv_wallets v),
       wv_chains := (case r1 of Inr cs \<Rightarrow> cs | Inl _ \<Rightarrow> wv_chains v),
       wv_environment := (case r2 of Inr e \<Rightarrow> Some e | Inl _ \<Rightarrow> wv_environment v),
       wv_error := (case (r0, r1, r2) of (Inl e, Inl _, Inl _) \<Rightarrow> Some (errorMessage e) | _ \<Rightarrow> None)\<rparr>"

text \<open>The effect on the user: without one the list is emptied, with one a refresh starts; its end.\<close>

definition wallet_userChanged :: "bool \<Rightarrow> wallet_view \<Rightarrow> wallet_view" where
  "wallet_userChanged signedInUser v =
     (if \<not> signedInUser then v\<lparr>wv_wallets := [], wv_loading := False\<rparr> else v\<lparr>wv_loading := True\<rparr>)"

definition wallet_refreshed :: "wallet_view \<Rightarrow> wallet_view" where
  "wallet_refreshed v = v\<lparr>wv_loading := False\<rparr>"

definition wallet_createChainId :: "wallet_view \<Rightarrow> int" where
  "wallet_createChainId v =
     resolveCreateChainId (wv_chains v) (map cl_chainId (wv_wallets v)) (map_option ce_chainId (wv_environment v))"

definition wallet_createChainName :: "wallet_view \<Rightarrow> string" where
  "wallet_createChainName v = chainLabel (wv_chains v) (wallet_createChainId v)"

definition placeholder :: "nat \<Rightarrow> wallet_view \<Rightarrow> client_wallet" where
  "placeholder t v =
     \<lparr>cl_walletId = ''pending-'' @ showNat t, cl_privyWalletId = ''...'',
      cl_walletAddress = ''0x0000000000000000000000000000000000000000'', cl_chainId = wallet_createChainId v,
      cl_walletType = ''EMBEDDED'', cl_isPrimary = (wv_wallets v = []), cl_createdAt = isoString t,
      cl_updatedAt = isoString t, cl_balance = None, cl_balances = None\<rparr>"

text \<open>\<open>createWallet\<close> at time \<open>t\<close> up to the request, which it makes; then one of its two ends.\<close>

definition wallet_createStart :: "nat \<Rightarrow> wallet_view \<Rightarrow> wallet_view \<times> api_call" where
  "wallet_createStart t v =
     (v\<lparr>wv_creating := True, wv_error := None, wv_wallets := wv_wallets v @ [placeholder t v],
        wv_pendingWalletId := Some (cl_walletId (placeholder t v))\<rparr>,
      api_createWallet (wallet_createChainId v))"

definition wallet_createAnswered :: "string \<Rightarrow> client_wallet res \<Rightarrow> wallet_view \<Rightarrow> wallet_view" where
  "wallet_createAnswered pendingId answer v =
     (case answer of
        Inr w \<Rightarrow> v\<lparr>wv_wallets := map (\<lambda>q. if cl_walletId q = pendingId then w else q) (wv_wallets v),
                    wv_pendingWalletId := None, wv_creating := False\<rparr>
      | Inl e \<Rightarrow> v\<lparr>wv_wallets := filter (\<lambda>q. cl_walletId q \<noteq> pendingId) (wv_wallets v),
                    wv_pendingWalletId := None, wv_error := Some (errorMessage e), wv_creating := False\<rparr>)"

text \<open>\<open>faucetUsdc\<close> and \<open>verifySigning\<close>: the request, then a refresh if it did not fail.\<close>

definition wallet_faucetUsdc :: "string \<Rightarrow> wallet_view \<Rightarrow> wallet_view \<times> api_call" where
  "wallet_faucetUsdc walletId v = (v\<lparr>wv_error := None\<rparr>, api_faucetUsdc walletId)"

definition wallet_verifySigning :: "string \<Rightarrow> wallet_view \<Rightarrow> wallet_view \<times> api_call" where
  "wallet_verifySigning walletId v = (v\<lparr>wv_error := None\<rparr>, api_enableServerSigning walletId)"

definition wallet_explorerUrl :: "wallet_view \<Rightarrow> int \<Rightarrow> string \<Rightarrow> string option" where
  "wallet_explorerUrl v chainId address =
     map_option (\<lambda>c. cc_explorerUrl c @ ''/address/'' @ address) (find (\<lambda>c. cc_chainId c = chainId) (wv_chains v))"

definition primaryWallet :: "wallet_view \<Rightarrow> client_wallet option" where
  "primaryWallet v =
     (case find cl_isPrimary (wv_wallets v) of
        Some w \<Rightarrow> Some w
      | None \<Rightarrow> (case wv_wallets v of [] \<Rightarrow> None | w # _ \<Rightarrow> Some w))"

lemmas wallet_view_defs =
  wallet_refresh_def wallet_createStart_def wallet_createAnswered_def placeholder_def primaryWallet_def

lemma find_append: "find P (xs @ ys) = (case find P xs of Some x \<Rightarrow> Some x | None \<Rightarrow> find P ys)"
  by (induction xs) auto

lemma map_pending: "pendingId \<notin> cl_walletId ` set ws \<Longrightarrow> map (\<lambda>q. if cl_walletId q = pendingId then w else q) ws = ws"
  by (induction ws) auto

lemma filter_pending: "pendingId \<notin> cl_walletId ` set ws \<Longrightarrow> filter (\<lambda>q. cl_walletId q \<noteq> pendingId) ws = ws"
  by (induction ws) auto

text \<open>A creation that nothing overtakes: the new wallet at the end, or the list as it was.\<close>

lemma create_alone:
  assumes "''pending-'' @ showNat t \<notin> cl_walletId ` set (wv_wallets v)" and "wallet_createStart t v = (v', c)"
  shows "wv_wallets (wallet_createAnswered (''pending-'' @ showNat t) (Inr w) v') = wv_wallets v @ [w]"
    and "wv_wallets (wallet_createAnswered (''pending-'' @ showNat t) (Inl e) v') = wv_wallets v"
  using assms map_pending [OF assms(1)] filter_pending [OF assms(1)]
  by (auto simp: wallet_createStart_def wallet_createAnswered_def placeholder_def)

text \<open>The server makes the new wallet the only primary one; the client goes on with the old one.\<close>

lemma create_keeps_old_primary:
  assumes "''pending-'' @ showNat t \<notin> cl_walletId ` set (wv_wallets v)" and "wallet_createStart t v = (v', c)"
    and "find cl_isPrimary (wv_wallets v) = Some old"
  shows "primaryWallet (wallet_createAnswered (''pending-'' @ showNat t) (Inr w) v') = Some old"
  unfolding primaryWallet_def create_alone(1) [OF assms(1,2)] by (simp add: find_append assms(3))

text \<open>A refresh that was answered before the wallet existed, and comes in before the creation's answer.\<close>

lemma refresh_loses_created:
  assumes "wallet_createStart t v = (v', c)" and "''pending-'' @ showNat t \<notin> cl_walletId ` set ws"
  shows "wv_wallets (wallet_createAnswered (''pending-'' @ showNat t) (Inr w) (wallet_refresh (Inr ws) r1 r2 v')) = ws"
  using map_pending [OF assms(2)] by (simp add: wallet_refresh_def wallet_createAnswered_def)

section \<open>Pages\<close>

record client_metadata =
  cm_description :: "string option"
  cm_image :: "string option"
  cm_curator :: "string option"

record client_vault =
  cv_vaultId :: string
  cv_protocol :: string
  cv_chainId :: int
  cv_contractAddress :: string
  cv_name :: string
  cv_symbol :: string
  cv_assetSymbol :: string
  cv_assetDecimals :: nat
  cv_assetAddress :: string
  cv_apy :: string
  cv_tvl :: string
  cv_sharePrice :: string
  cv_totalSupply :: string
  cv_metadata :: client_metadata
  cv_isEnabled :: bool
  cv_depositEnabled :: bool
  cv_withdrawEnabled :: bool
  cv_riskLevel :: risk_level

record client_position =
  cp_positionId :: string
  cp_vaultId :: string
  cp_vaultName :: string
  cp_chainId :: int
  cp_assetSymbol :: string
  cp_assetDecimals :: nat
  cp_status :: string
  cp_depositedAmount :: string
  cp_currentAmount :: string
  cp_shares :: string
  cp_sharePrice :: string
  cp_currentValue :: string
  cp_createdAt :: string
  cp_updatedAt :: string

definition isTestnetView :: "client_environment option \<Rightarrow> bool" where
  "isTestnetView env = (case env of Some e \<Rightarrow> \<not> ce_allowMainnetTransactions e | None \<Rightarrow> True)"

definition dashboardData ::
    "client_vault list \<Rightarrow> client_position list \<Rightarrow> client_vault list \<times> client_position list" where
  "dashboardData vaultList posList = (take 3 (filter cv_isEnabled vaultList), filter (\<lambda>p. cp_status p = ''ACTIVE'') posList)"

definition vaultsData :: "string option \<Rightarrow> client_vault list \<Rightarrow> client_vault list \<times> client_vault option" where
  "vaultsData vaultId vaultList =
     (let enabled = filter cv_isEnabled vaultList
      in (enabled, case vaultId of
                     None \<Rightarrow> None
                   | Some i \<Rightarrow> if i = [] then None else find (\<lambda>v. cv_vaultId v = i) enabled))"

definition portfolioActive :: "client_position list \<Rightarrow> client_position list" where
  "portfolioActive positions' = filter (\<lambda>p. cp_status p \<noteq> ''CLOSED'') positions'"

fun totalValue :: "int \<Rightarrow> client_position list \<Rightarrow> int res" where
  "totalValue acc [] = Inr acc"
| "totalValue acc (p # ps) =
     (case bigInt (cp_currentValue p) of Inl e \<Rightarrow> Inl e | Inr n \<Rightarrow> totalValue (acc + n) ps)"

text \<open>The total as the two pages show it: the decimals and the symbol of the first position.\<close>

definition shownTotal :: "client_position list \<Rightarrow> string res" where
  "shownTotal ps =
     (case totalValue 0 ps of
        Inl e \<Rightarrow> Inl e
      | Inr t \<Rightarrow>
          (case formatAmount (showInt t) (case ps of [] \<Rightarrow> 6 | p # _ \<Rightarrow> cp_assetDecimals p) 4 of
             Inl e \<Rightarrow> Inl e
           | Inr s \<Rightarrow> Inr (s @ '' '' @ (case ps of [] \<Rightarrow> ''USDC'' | p # _ \<Rightarrow> cp_assetSymbol p))))"

definition canWithdraw :: "client_position \<Rightarrow> bool res" where
  "canWithdraw p =
     (if cp_status p \<noteq> ''ACTIVE'' then Inr False
      else (case bigInt (cp_currentValue p) of Inl e \<Rightarrow> Inl e | Inr n \<Rightarrow> Inr (n > 0)))"

text \<open>Which of the explorer link, the faucet and the signing check a wallet's card offers.\<close>

definition walletActions :: "wallet_view \<Rightarrow> client_wallet \<Rightarrow> bool \<Rightarrow> bool \<times> bool \<times> bool" where
  "walletActions v w isPending =
     ((case wallet_explorerUrl v (cl_chainId w) (cl_walletAddress w) of None \<Rightarrow> False | Some u \<Rightarrow> u \<noteq> []) \<and> \<not> isPending,
      isTestnetView (wv_environment v) \<and> \<not> isPending, \<not> isPending)"

text \<open>
  The balances on a wallet's card, by symbol; while the wallet is being created, and without any, a dash.
  In a summary two digits are shown.
\<close>

fun shownBalances :: "bool \<Rightarrow> nat \<Rightarrow> client_balance list \<Rightarrow> (string \<times> string) list res" where
  "shownBalances isPending digits [] = Inr []"
| "shownBalances isPending digits (b # bs) =
     (case (if isPending then Inr ''-'' else formatAmount (cb_balance b) (cb_decimals b) digits) of
        Inl e \<Rightarrow> Inl e
      | Inr t \<Rightarrow>
          (case shownBalances isPending digits bs of Inl e \<Rightarrow> Inl e | Inr ts \<Rightarrow> Inr ((cb_symbol b, t) # ts)))"

definition cardBalances :: "bool \<Rightarrow> client_wallet \<Rightarrow> (string \<times> string) list res" where
  "cardBalances isPending w =
     (case cl_balances w of None \<Rightarrow> Inr [(''ETH'', ''-''), (''USDC'', ''-'')] | Some bs \<Rightarrow> shownBalances isPending 4 bs)"

definition cardChain :: "wallet_view \<Rightarrow> client_wallet \<Rightarrow> string" where
  "cardChain v w =
     (case find (\<lambda>c. cc_chainId c = cl_chainId w) (wv_chains v) of
        Some c \<Rightarrow> cc_name c
      | None \<Rightarrow> ''Chain '' @ showInt (cl_chainId w))"

definition summaryBalances :: "client_wallet \<Rightarrow> (string \<times> string) list res" where
  "summaryBalances w = (case cl_balances w of None \<Rightarrow> Inr [] | Some bs \<Rightarrow> shownBalances False 2 bs)"

definition truncateAddress :: "string \<Rightarrow> string" where
  "truncateAddress address =
     (if length address \<le> 12 then address else take 6 address @ ''...'' @ drop (length address - 4) address)"

text \<open>The card's own state, and its two handlers around the operations of the context.\<close>

record card_view =
  cd_fauceting :: bool
  cd_verifying :: bool
  cd_copied :: bool
  cd_actionError :: "string option"

definition card_handleFaucet :: "client_wallet \<Rightarrow> wallet_view \<Rightarrow> card_view \<Rightarrow> card_view \<times> wallet_view \<times> api_call" where
  "card_handleFaucet w v d = (d\<lparr>cd_fauceting := True, cd_actionError := None\<rparr>, wallet_faucetUsdc (cl_walletId w) v)"

definition card_faucetEnded :: "unit res \<Rightarrow> card_view \<Rightarrow> card_view" where
  "card_faucetEnded ended d =
     (case ended of
        Inr _ \<Rightarrow> d\<lparr>cd_fauceting := False\<rparr>
      | Inl e \<Rightarrow> d\<lparr>cd_actionError := Some (errorMessage e), cd_fauceting := False\<rparr>)"

definition card_handleVerify :: "client_wallet \<Rightarrow> wallet_view \<Rightarrow> card_view \<Rightarrow> card_view \<times> wallet_view \<times> api_call" where
  "card_handleVerify w v d = (d\<lparr>cd_verifying := True, cd_actionError := None\<rparr>, wallet_verifySigning (cl_walletId w) v)"

definition card_verifyEnded :: "unit res \<Rightarrow> card_view \<Rightarrow> card_view" where
  "card_verifyEnded ended d =
     (case ended of
        Inr _ \<Rightarrow> d\<lparr>cd_verifying := False\<rparr>
      | Inl e \<Rightarrow> d\<lparr>cd_actionError := Some (errorMessage e), cd_verifying := False\<rparr>)"

text \<open>The wallets page: the cards, with the one under creation, and whether its button may be pressed.\<close>

definition walletCards :: "wallet_view \<Rightarrow> (client_wallet \<times> bool) list" where
  "walletCards v = map (\<lambda>w. (w, Some (cl_walletId w) = wv_pendingWalletId v)) (wv_wallets v)"

text \<open>A row of the activity page: its amount, always in the decimals and the symbol of USDC.\<close>

definition activityCall :: api_call where
  "activityCall = api_getTransactions 1 50"

definition rowAmount :: "string \<Rightarrow> string res" where
  "rowAmount amount =
     (case formatAmount amount 6 4 of Inl e \<Rightarrow> Inl e | Inr s \<Rightarrow> Inr (s @ '' '' @ ''USDC''))"

text \<open>Which dialog the vault page offers for the vault of its path.\<close>

datatype vault_panel = VaultList | NeedsWallet | DepositPanel client_vault client_wallet

definition vaultPanel :: "client_vault option \<Rightarrow> client_wallet option \<Rightarrow> vault_panel" where
  "vaultPanel selected' wallet =
     (case selected' of
        None \<Rightarrow> VaultList
      | Some v \<Rightarrow> (case wallet of None \<Rightarrow> NeedsWallet | Some w \<Rightarrow> DepositPanel v w))"

end
