(* ===== verification/Routes.thy ===== *)
theory Routes
  imports Controllers Wallets Accounts Queries Catalog
begin

text \<open>
  The routes of the controllers under \<^verbatim>\<open>src\<close> besides the three mutating ones of \<open>Controllers\<close>: the
  guard on the token, the validation of path parameters, query strings and bodies by the global pipe
  with the decorators of the DTO classes, and the call of the service.  An answer is its status and
  the value the framework serialises.  Two libraries appear as parameters: \<open>auth_lib\<close> (tokens,
  hashes) and the test \<open>isEmail\<close> of the validator package.

  The facts: a route with a guard does nothing without a valid token; what the pipe lets through has
  its numbers in range, so a page of a listing never has more than a hundred entries.
\<close>

section \<open>Numbers in text\<close>

text \<open>
  \<open>Number(s)\<close>: \<open>Decimal m e\<close> is \<open>m / 10 ^ e\<close>.  The rounding of a double beyond \<open>2 ^ 53\<close> and its
  overflow to infinity are left out.
\<close>

datatype js_number = NotANumber | Infinite bool | Decimal int nat

definition decimalParts :: "string \<Rightarrow> (nat \<times> nat) option" where
  "decimalParts s =
     (case splitOn (CHR ''.'') s of
        [w] \<Rightarrow> if allDigits w then map_option (\<lambda>n. (n, 0)) (parseRadix 10 0 w) else None
      | [w, f] \<Rightarrow>
          if list_all isDigit (w @ f) \<and> w @ f \<noteq> []
          then map_option (\<lambda>n. (n, length f)) (parseRadix 10 0 (w @ f)) else None
      | _ \<Rightarrow> None)"

definition exponentOf :: "string \<Rightarrow> int option" where
  "exponentOf s =
     (case s of
        [] \<Rightarrow> Some 0
      | _ # t \<Rightarrow>
          if t \<noteq> [] \<and> hd t = CHR ''-'' \<and> allDigits (tl t) then map_option (\<lambda>n. - int n) (parseRadix 10 0 (tl t))
          else if t \<noteq> [] \<and> hd t = CHR ''+'' \<and> allDigits (tl t) then map_option int (parseRadix 10 0 (tl t))
          else if allDigits t then map_option int (parseRadix 10 0 t) else None)"

definition numberOf :: "string \<Rightarrow> js_number" where
  "numberOf s =
     (let trimmed = trim s;
          negative = (trimmed \<noteq> [] \<and> hd trimmed = CHR ''-'');
          body = (if trimmed \<noteq> [] \<and> hd trimmed \<in> {CHR ''-'', CHR ''+''} then tl trimmed else trimmed);
          isE = (\<lambda>c. c \<in> {CHR ''e'', CHR ''E''})
      in case bigIntOf trimmed of
           Some n \<Rightarrow> Decimal n 0
         | None \<Rightarrow>
             if body = ''Infinity'' then Infinite (\<not> negative)
             else (case (decimalParts (takeWhile (\<lambda>c. \<not> isE c) body), exponentOf (dropWhile (\<lambda>c. \<not> isE c) body)) of
                     (Some (m, e), Some x) \<Rightarrow>
                       (let v = (if negative then - int m else int m)
                        in if int e \<le> x then Decimal (v * 10 ^ nat (x - int e)) 0 else Decimal v (nat (int e - x)))
                   | _ \<Rightarrow> NotANumber))"

text \<open>\<open>@Type(() => Number)\<close>; an array is converted element by element and is no number.\<close>

definition numberProp :: "json \<Rightarrow> js_number" where
  "numberProp v =
     (case v of
        JNum n \<Rightarrow> Decimal n 0
      | JStr s \<Rightarrow> numberOf s
      | JBool b \<Rightarrow> Decimal (if b then 1 else 0) 0
      | _ \<Rightarrow> NotANumber)"

fun isInteger :: "js_number \<Rightarrow> bool" where
  "isInteger (Decimal m e) = (10 ^ e dvd m)"
| "isInteger _ = False"

fun integerOf :: "js_number \<Rightarrow> int" where
  "integerOf (Decimal m e) = m div 10 ^ e"
| "integerOf _ = 0"

fun minHolds :: "int \<Rightarrow> js_number \<Rightarrow> bool" where
  "minHolds k (Decimal m e) = (k * 10 ^ e \<le> m)"
| "minHolds k (Infinite positive) = positive"
| "minHolds k NotANumber = False"

fun maxHolds :: "int \<Rightarrow> js_number \<Rightarrow> bool" where
  "maxHolds k (Decimal m e) = (m \<le> k * 10 ^ e)"
| "maxHolds k (Infinite positive) = (\<not> positive)"
| "maxHolds k NotANumber = False"

fun isPositive :: "js_number \<Rightarrow> bool" where
  "isPositive (Decimal m e) = (0 < m)"
| "isPositive (Infinite positive) = positive"
| "isPositive NotANumber = False"

section \<open>Optional properties\<close>

text \<open>\<open>@IsOptional()\<close>: a property that is missing or \<open>null\<close> is not checked.\<close>

definition optional :: "string \<Rightarrow> (string \<times> json) list \<Rightarrow> (json \<Rightarrow> string list + 'a) \<Rightarrow> 'a option \<times> string list" where
  "optional name kvs read =
     (case map_of kvs name of
        None \<Rightarrow> (None, [])
      | Some JNull \<Rightarrow> (None, [])
      | Some v \<Rightarrow> (case read v of Inl messages \<Rightarrow> (None, messages) | Inr a \<Rightarrow> (Some a, [])))"

text \<open>The checks of a property run from its last decorator to its first.\<close>

definition readBounded :: "string \<Rightarrow> int \<Rightarrow> int option \<Rightarrow> json \<Rightarrow> string list + nat" where
  "readBounded name lo hi v =
     (let n = numberProp v;
          messages = (case hi of
                        None \<Rightarrow> []
                      | Some h \<Rightarrow> complaint (maxHolds h n) (name @ '' must not be greater than '' @ showInt h))
            @ complaint (minHolds lo n) (name @ '' must not be less than '' @ showInt lo)
            @ complaint (isInteger n) (name @ '' must be an integer number'')
      in if messages = [] then Inr (nat (integerOf n)) else Inl messages)"

definition readPositive :: "string \<Rightarrow> json \<Rightarrow> string list + int" where
  "readPositive name v =
     (let n = numberProp v;
          messages = complaint (isPositive n) (name @ '' must be a positive number'')
            @ complaint (isInteger n) (name @ '' must be an integer number'')
      in if messages = [] then Inr (integerOf n) else Inl messages)"

definition readUuid :: "string \<Rightarrow> json \<Rightarrow> string list + uuid" where
  "readUuid name v =
     (case uuidProp (Some (toStringProp v)) of None \<Rightarrow> Inl [name @ '' must be a UUID''] | Some u \<Rightarrow> Inr u)"

definition readString :: "string \<Rightarrow> json \<Rightarrow> string list + string" where
  "readString name v =
     (case toStringProp v of JStr s \<Rightarrow> Inr s | _ \<Rightarrow> Inl [name @ '' must be a string''])"

fun joinWith :: "string \<Rightarrow> string list \<Rightarrow> string" where
  "joinWith d [] = []"
| "joinWith d [s] = s"
| "joinWith d (s # ss) = s @ d @ joinWith d ss"

definition readEnum :: "string \<Rightarrow> (string \<times> 'a) list \<Rightarrow> json \<Rightarrow> string list + 'a" where
  "readEnum name values v =
     (case (case toStringProp v of JStr s \<Rightarrow> map_of values s | _ \<Rightarrow> None) of
        Some a \<Rightarrow> Inr a
      | None \<Rightarrow> Inl [name @ '' must be one of the following values: '' @ joinWith '', '' (map fst values)])"

definition readBoolean :: "string \<Rightarrow> json \<Rightarrow> string list + bool" where
  "readBoolean name v =
     (case toBooleanProp v of JBool b \<Rightarrow> Inr b | _ \<Rightarrow> Inl [name @ '' must be a boolean value''])"

text \<open>A property without a check takes an array too, which the database client refuses.\<close>

definition readUnchecked :: "json \<Rightarrow> string list + json" where
  "readUnchecked v = Inr (toStringProp v)"

definition clientValidationError :: exn where
  "clientValidationError = PlainError ''Argument slug: Invalid value provided. Expected StringFilter or String.''"

definition slugOf :: "json option \<Rightarrow> string option res" where
  "slugOf v =
     (case v of None \<Rightarrow> Inr None | Some (JStr s) \<Rightarrow> Inr (Some s) | Some _ \<Rightarrow> Inl clientValidationError)"

section \<open>DTO classes\<close>

definition transactionTypes :: "(string \<times> transaction_type) list" where
  "transactionTypes = [(''APPROVAL'', APPROVAL), (''DEPOSIT'', DEPOSIT), (''WITHDRAW'', WITHDRAW),
     (''YIELD_CLAIM'', YIELD_CLAIM), (''REBALANCE'', REBALANCE)]"

definition transactionStatuses :: "(string \<times> transaction_status) list" where
  "transactionStatuses = map (\<lambda>t. (transactionStatusName t, t)) [T_CREATED, T_SUBMITTED, T_CONFIRMED, T_FAILED, T_REVERTED]"

definition positionStatuses :: "(string \<times> position_status) list" where
  "positionStatuses = map (\<lambda>p. (positionStatusName p, p)) [P_ACTIVE, P_CLOSED, P_PENDING, P_WITHDRAWING, P_FAILED]"

definition parseTransactionsQuery :: "(string \<times> json) list \<Rightarrow> transactions_query res" where
  "parseTransactionsQuery kvs =
     (let (walletId, m1) = optional ''walletId'' kvs (readUuid ''walletId'');
          (vaultId, _) = optional ''vaultId'' kvs readUnchecked;
          (positionId, m2) = optional ''positionId'' kvs (readUuid ''positionId'');
          (ty, m3) = optional ''type'' kvs (readEnum ''type'' transactionTypes);
          (st, m4) = optional ''status'' kvs (readEnum ''status'' transactionStatuses);
          (page, m5) = optional ''page'' kvs (readBounded ''page'' 1 None);
          (lim, m6) = optional ''limit'' kvs (readBounded ''limit'' 1 (Some 100));
          messages = strangers [''walletId'', ''vaultId'', ''positionId'', ''type'', ''status'', ''page'', ''limit''] kvs
            @ m1 @ m2 @ m3 @ m4 @ m5 @ m6
      in if messages \<noteq> [] then Inl (invalidBody messages)
         else (case slugOf vaultId of
                 Inl e \<Rightarrow> Inl e
               | Inr slug \<Rightarrow> Inr \<lparr>tq_walletId = walletId, tq_vaultId = slug, tq_positionId = positionId, tq_type = ty,
                     tq_status = st, tq_page = Some (orElse page 1), tq_limit = Some (orElse lim 20)\<rparr>))"

definition parsePositionsQuery :: "(string \<times> json) list \<Rightarrow> positions_query res" where
  "parsePositionsQuery kvs =
     (let (walletId, m1) = optional ''walletId'' kvs (readUuid ''walletId'');
          (vaultId, _) = optional ''vaultId'' kvs readUnchecked;
          (st, m2) = optional ''status'' kvs (readEnum ''status'' positionStatuses);
          messages = strangers [''walletId'', ''vaultId'', ''status''] kvs @ m1 @ m2
      in if messages \<noteq> [] then Inl (invalidBody messages)
         else (case slugOf vaultId of
                 Inl e \<Rightarrow> Inl e
               | Inr slug \<Rightarrow> Inr \<lparr>pq_walletId = walletId, pq_vaultId = slug, pq_status = st\<rparr>))"

definition parseVaultsQuery :: "(string \<times> json) list \<Rightarrow> get_vaults_input res" where
  "parseVaultsQuery kvs =
     (let (chainId, m1) = optional ''chainId'' kvs (readPositive ''chainId'');
          (assetSymbol, m2) = optional ''assetSymbol'' kvs (readString ''assetSymbol'');
          (protocol, m3) = optional ''protocol'' kvs (readEnum ''protocol'' [(''aave'', ''aave'')]);
          messages = strangers [''chainId'', ''assetSymbol'', ''protocol''] kvs @ m1 @ m2 @ m3
      in if messages \<noteq> [] then Inl (invalidBody messages)
         else Inr \<lparr>gv_chainId = chainId, gv_assetSymbol = assetSymbol, gv_protocol = protocol\<rparr>)"

definition parseChainsQuery :: "(string \<times> json) list \<Rightarrow> int option res" where
  "parseChainsQuery kvs =
     (let (chainId, m1) = optional ''chainId'' kvs (readPositive ''chainId''); messages = strangers [''chainId''] kvs @ m1
      in if messages \<noteq> [] then Inl (invalidBody messages) else Inr chainId)"

definition parseAssetsQuery :: "(string \<times> json) list \<Rightarrow> (int option \<times> string option) res" where
  "parseAssetsQuery kvs =
     (let (chainId, m1) = optional ''chainId'' kvs (readPositive ''chainId'');
          (asset, m2) = optional ''symbol'' kvs (readString ''symbol'');
          messages = strangers [''chainId'', ''symbol''] kvs @ m1 @ m2
      in if messages \<noteq> [] then Inl (invalidBody messages) else Inr (chainId, asset))"

definition parseCreateWalletDto :: "json option \<Rightarrow> create_wallet_dto res" where
  "parseCreateWalletDto body =
     (let kvs = bodyProps body;
          (isPrimary, m1) = optional ''isPrimary'' kvs (readBoolean ''isPrimary'');
          (chainId, m2) = optional ''chainId'' kvs (readPositive ''chainId'');
          messages = strangers [''isPrimary'', ''chainId''] kvs @ m1 @ m2
      in if messages \<noteq> [] then Inl (invalidBody messages)
         else Inr \<lparr>cw_isPrimary = isPrimary, cw_chainId = chainId\<rparr>)"

text \<open>\<open>RegisterDto\<close> and \<open>LoginDto\<close>, which are the same; neither property is optional.\<close>

definition parseCredentials :: "(string \<Rightarrow> bool) \<Rightarrow> json option \<Rightarrow> credentials_dto res" where
  "parseCredentials isEmail body =
     (let kvs = bodyProps body;
          email = stringProp (map_option toStringProp (map_of kvs ''email''));
          password = stringProp (map_option toStringProp (map_of kvs ''password''));
          messages = strangers [''email'', ''password''] kvs
            @ complaint (case email of None \<Rightarrow> False | Some e \<Rightarrow> isEmail e) ''email must be an email''
            @ complaint (case password of None \<Rightarrow> False | Some p \<Rightarrow> 8 \<le> length p)
                ''password must be longer than or equal to 8 characters''
            @ complaint (password \<noteq> None) ''password must be a string''
      in case (email, password) of
           (Some e, Some p) \<Rightarrow> if messages = [] then Inr \<lparr>cr_email = e, cr_password = p\<rparr> else Inl (invalidBody messages)
         | _ \<Rightarrow> Inl (invalidBody messages))"

section \<open>Controllers\<close>

text \<open>
  \<open>@UseGuards(JwtAuthGuard)\<close> and \<open>@CurrentUser()\<close>.  The tokens the service signs carry the printed id of a
  user; with any other subject the first query fails on the text of the id.
\<close>

definition authenticated :: "auth_lib \<Rightarrow> http_request \<Rightarrow> (uuid \<Rightarrow> 'a io) \<Rightarrow> 'a io" where
  "authenticated a request route =
     andThen (jwtGuard a (h_header request ''authorization'')) (\<lambda>(sub, email).
     (case uuidOf sub of
        None \<Rightarrow> throw (PlainError ''Inconsistent column data: Error creating UUID'')
      | Some userId \<Rightarrow> route userId))"

definition uuidParam :: "string \<Rightarrow> http_request \<Rightarrow> (uuid \<Rightarrow> 'a io) \<Rightarrow> 'a io" where
  "uuidParam name request route =
     (case uuidOf (paramOf name request) of
        None \<Rightarrow> throw (badRequest ''Validation failed (uuid is expected)'')
      | Some i \<Rightarrow> route i)"

definition answer :: "nat \<Rightarrow> 'a io \<Rightarrow> (nat \<times> 'a) io" where
  "answer status m = andThen m (\<lambda>r. ret (status, r))"

definition auth_register :: "env \<Rightarrow> auth_lib \<Rightarrow> (string \<Rightarrow> bool) \<Rightarrow> http_request \<Rightarrow> (nat \<times> auth_response) io" where
  "auth_register x a isEmail request =
     andThen (lift (parseCredentials isEmail (h_body request))) (\<lambda>dto. answer 201 (register x a dto))"

definition auth_login :: "env \<Rightarrow> auth_lib \<Rightarrow> (string \<Rightarrow> bool) \<Rightarrow> http_request \<Rightarrow> (nat \<times> auth_response) io" where
  "auth_login x a isEmail request =
     andThen (lift (parseCredentials isEmail (h_body request))) (\<lambda>dto. answer 200 (login x a dto))"

definition users_getMe :: "auth_lib \<Rightarrow> http_request \<Rightarrow> (nat \<times> user_profile) io" where
  "users_getMe a request = authenticated a request (\<lambda>userId. answer 200 (getMe userId))"

definition wallets_createWallet :: "env \<Rightarrow> auth_lib \<Rightarrow> http_request \<Rightarrow> (nat \<times> wallet_response) io" where
  "wallets_createWallet x a request =
     authenticated a request (\<lambda>userId.
     andThen (lift (parseCreateWalletDto (h_body request))) (\<lambda>dto. answer 201 (createWallet x userId dto)))"

definition wallets_listWallets :: "env \<Rightarrow> auth_lib \<Rightarrow> http_request \<Rightarrow> (nat \<times> wallet_response list) io" where
  "wallets_listWallets x a request = authenticated a request (\<lambda>userId. answer 200 (listWallets x userId))"

definition wallets_getWallet :: "env \<Rightarrow> auth_lib \<Rightarrow> http_request \<Rightarrow> (nat \<times> wallet_response) io" where
  "wallets_getWallet x a request =
     authenticated a request (\<lambda>userId. uuidParam ''walletId'' request (\<lambda>walletId. answer 200 (getWallet x userId walletId)))"

definition wallets_enableServerSigning :: "env \<Rightarrow> auth_lib \<Rightarrow> http_request \<Rightarrow> (nat \<times> wallet_response) io" where
  "wallets_enableServerSigning x a request =
     authenticated a request (\<lambda>userId.
     uuidParam ''walletId'' request (\<lambda>walletId. answer 201 (enableServerSigning x userId walletId)))"

definition wallets_mintAaveTestUsdc :: "env \<Rightarrow> auth_lib \<Rightarrow> bool \<Rightarrow> http_request \<Rightarrow> (nat \<times> mint_response) io" where
  "wallets_mintAaveTestUsdc x a faucetEnabled request =
     authenticated a request (\<lambda>userId.
     uuidParam ''walletId'' request (\<lambda>walletId. answer 201 (mintAaveTestUsdc x faucetEnabled userId walletId)))"

definition vaults_listVaults :: "env \<Rightarrow> http_request \<Rightarrow> (nat \<times> vault_response list) io" where
  "vaults_listVaults x request =
     andThen (lift (parseVaultsQuery (h_query request))) (\<lambda>query. answer 200 (earn_listVaults x query))"

definition vaults_getVault :: "env \<Rightarrow> http_request \<Rightarrow> (nat \<times> vault_response) io" where
  "vaults_getVault x request =
     andThen (lift (parseVaultsQuery (h_query request))) (\<lambda>query.
       answer 200 (earn_getVault x (paramOf ''vaultId'' request) (gv_chainId query)))"

definition vaults_previewDeposit :: "env \<Rightarrow> auth_lib \<Rightarrow> http_request \<Rightarrow> (nat \<times> deposit_preview) io" where
  "vaults_previewDeposit x a request =
     authenticated a request (\<lambda>userId.
     andThen (lift (parseDepositDto (h_body request))) (\<lambda>dto.
       answer 201 (earn_previewDeposit x userId (paramOf ''vaultId'' request) dto)))"

definition positions_listPositions :: "env \<Rightarrow> auth_lib \<Rightarrow> http_request \<Rightarrow> (nat \<times> position_response list) io" where
  "positions_listPositions x a request =
     authenticated a request (\<lambda>userId.
     andThen (lift (parsePositionsQuery (h_query request))) (\<lambda>query. answer 200 (epos_listPositions x userId query)))"

definition positions_getPosition :: "env \<Rightarrow> auth_lib \<Rightarrow> http_request \<Rightarrow> (nat \<times> position_detail) io" where
  "positions_getPosition x a request =
     authenticated a request (\<lambda>userId.
     uuidParam ''positionId'' request (\<lambda>positionId. answer 200 (epos_getPosition x userId positionId)))"

definition transactions_listTransactions ::
    "env \<Rightarrow> auth_lib \<Rightarrow> (transaction \<Rightarrow> nat) \<Rightarrow> http_request \<Rightarrow> (nat \<times> transactions_list) io" where
  "transactions_listTransactions x a ties request =
     authenticated a request (\<lambda>userId.
     andThen (lift (parseTransactionsQuery (h_query request))) (\<lambda>query. answer 200 (etx_listTransactions x ties userId query)))"

definition transactions_getTransaction :: "env \<Rightarrow> auth_lib \<Rightarrow> http_request \<Rightarrow> (nat \<times> transaction_response) io" where
  "transactions_getTransaction x a request =
     authenticated a request (\<lambda>userId.
     uuidParam ''transactionId'' request (\<lambda>transactionId. answer 200 (etx_getTransaction x userId transactionId)))"

definition chainsController_findAll :: "env \<Rightarrow> http_request \<Rightarrow> (nat \<times> chain_response list) io" where
  "chainsController_findAll x request =
     andThen (lift (parseChainsQuery (h_query request))) (\<lambda>chainId. answer 200 (lift (chains_findAll x chainId)))"

definition assetsController_findAll :: "env \<Rightarrow> http_request \<Rightarrow> (nat \<times> asset_response list) io" where
  "assetsController_findAll x request =
     andThen (lift (parseAssetsQuery (h_query request))) (\<lambda>(chainId, asset).
       answer 200 (lift (assets_findAll x chainId asset)))"

definition system_getEnvironment :: "env \<Rightarrow> (nat \<times> environment_response) io" where
  "system_getEnvironment x = answer 200 (lift (getEnvironment x))"

definition getHealth :: string where
  "getHealth = ''ok''"

definition healthController_getHealth :: "(nat \<times> string) io" where
  "healthController_getHealth = answer 200 (ret getHealth)"

definition healthController_getReadiness :: "probes \<Rightarrow> (nat \<times> ready_response) io" where
  "healthController_getReadiness p = answer 200 (lift (getReadiness p))"

definition healthController_getDetails :: "env \<Rightarrow> privy_config \<Rightarrow> probes \<Rightarrow> (nat \<times> health_details) io" where
  "healthController_getDetails x c p = answer 200 (lift (getDetails x c p))"

section \<open>Facts\<close>

lemma authenticated_refuses:
  "jwtGuard a (h_header request ''authorization'') s = (Inl e, s') \<Longrightarrow> authenticated a request route s = (Inl e, s)"
  by (auto simp: authenticated_def jwtGuard_def andThen_def gets_def lift_def throw_def split: option.splits sum.splits)

lemma answer_Inr: "answer st m s = (Inr (c, r), s') \<longleftrightarrow> c = st \<and> m s = (Inr r, s')"
  by (auto simp: answer_def andThen_def ret_def split: prod.splits sum.splits)

text \<open>The routes behind the guard, by what they answer.\<close>

lemmas guarded_routes =
  users_getMe_def wallets_createWallet_def wallets_listWallets_def wallets_getWallet_def wallets_enableServerSigning_def
  wallets_mintAaveTestUsdc_def vaults_previewDeposit_def positions_listPositions_def positions_getPosition_def
  transactions_listTransactions_def transactions_getTransaction_def

lemma readBounded_Inr:
  "readBounded name lo hi v = Inr n \<Longrightarrow> 0 \<le> lo \<Longrightarrow> lo \<le> int n \<and> (\<forall>h. hi = Some h \<longrightarrow> int n \<le> h)"
proof -
  assume read: "readBounded name lo hi v = Inr n" and lo: "0 \<le> lo"
  then have ok: "minHolds lo (numberProp v)" "isInteger (numberProp v)" "n = nat (integerOf (numberProp v))"
    "\<forall>h. hi = Some h \<longrightarrow> maxHolds h (numberProp v)"
    by (auto simp: readBounded_def Let_def complaint_def split: if_splits option.splits)
  from ok(1,2) obtain m e where d: "numberProp v = Decimal m e" "10 ^ e dvd m" "lo * 10 ^ e \<le> m"
    by (cases "numberProp v") auto
  then obtain k where m: "m = 10 ^ e * k" by (auto elim: dvdE)
  with d(3) have k: "lo \<le> k" by (simp add: mult.commute)
  from ok(4) d(1) m have "\<forall>h. hi = Some h \<longrightarrow> k \<le> h" by (auto simp: mult.commute)
  with k lo ok(3) d(1) m show ?thesis by auto
qed

lemma optional_Some: "optional name kvs read = (Some a, ms) \<Longrightarrow> \<exists>v. map_of kvs name = Some v \<and> read v = Inr a"
  by (auto simp: optional_def split: option.splits json.splits sum.splits)

text \<open>What the pipe lets through of a listing's query.\<close>

lemma parsed_page:
  assumes "parseTransactionsQuery kvs = Inr q"
  shows "\<exists>p n. tq_page q = Some p \<and> tq_limit q = Some n \<and> 1 \<le> p \<and> 1 \<le> n \<and> n \<le> 100"
proof -
  obtain page m5 where p: "optional ''page'' kvs (readBounded ''page'' 1 None) = (page, m5)" by force
  obtain lim m6 where l: "optional ''limit'' kvs (readBounded ''limit'' 1 (Some 100)) = (lim, m6)" by force
  from assms have q: "tq_page q = Some (orElse page 1)" "tq_limit q = Some (orElse lim 20)"
    by (auto simp: parseTransactionsQuery_def Let_def p l split: prod.splits if_splits sum.splits)
  have "1 \<le> orElse page 1"
    using p by (cases page) (auto simp: orElse_def dest!: optional_Some readBounded_Inr)
  moreover have "1 \<le> orElse lim 20 \<and> orElse lim 20 \<le> 100"
    using l by (cases lim) (auto simp: orElse_def dest!: optional_Some readBounded_Inr)
  ultimately show ?thesis using q by blast
qed

text \<open>A guarded route that answers ran for the user of the token.\<close>

lemma authenticated_InrE:
  assumes "authenticated a request route s = (Inr r, s')"
  obtains sub em u where "jwtGuard a (h_header request ''authorization'') s = (Inr (sub, em), s)" "uuidOf sub = Some u"
    "route u s = (Inr r, s')"
  using assms
  by (auto simp: authenticated_def jwtGuard_def andThen_def gets_def lift_def throw_def
      split: option.splits sum.splits)

lemma selected_owned:
  "r \<in> set (selected ties (filterOf u q) s) \<Longrightarrow> \<exists>t \<in> set (transactions s). t_userId t = u \<and> tr_transactionId r = t_id t"
  by (auto simp: selected_def transactionMatches_def filterOf_def toTransactionRecord_def)

lemma listing_route:
  assumes "transactions_listTransactions x a ties request s = (Inr (st, l), s')"
  obtains sub em u where "jwtGuard a (h_header request ''authorization'') s = (Inr (sub, em), s)" "uuidOf sub = Some u"
    "s' = s" "length (tl_items l) \<le> tl_limit l" "tl_limit l \<le> 100" "1 \<le> tl_page l"
    "\<And>i. i \<in> set (tl_items l) \<Longrightarrow> \<exists>t \<in> set (transactions s). t_userId t = u \<and> tx_transactionId i = t_id t"
proof -
  from assms obtain sub em u where g: "jwtGuard a (h_header request ''authorization'') s = (Inr (sub, em), s)"
    "uuidOf sub = Some u" and run: "andThen (lift (parseTransactionsQuery (h_query request)))
       (\<lambda>query. answer 200 (etx_listTransactions x ties u query)) s = (Inr (st, l), s')"
    unfolding transactions_listTransactions_def by (rule authenticated_InrE)
  from run obtain q where q: "parseTransactionsQuery (h_query request) = Inr q"
    and l: "etx_listTransactions x ties u q s = (Inr l, s')"
    by (auto simp: andThen_def lift_def answer_Inr split: sum.splits)
  from parsed_page [OF q] obtain p n where pn: "tq_page q = Some p" "tq_limit q = Some n" "1 \<le> p" "n \<le> 100" by blast
  from l pn have eq: "s' = s" "l = \<lparr>tl_items = map (etx_toResponse x) (take n (drop ((p - 1) * n) (selected ties (filterOf u q) s))),
      tl_page = p, tl_limit = n, tl_total = length (selected ties (filterOf u q) s)\<rparr>"
    by (auto simp: list_run Let_def)
  show thesis
  proof (rule that [OF g eq(1)])
    fix i assume "i \<in> set (tl_items l)"
    then obtain r where "r \<in> set (selected ties (filterOf u q) s)" "i = etx_toResponse x r"
      unfolding eq(2) by (auto dest!: in_set_takeD in_set_dropD)
    with selected_owned show "\<exists>t \<in> set (transactions s). t_userId t = u \<and> tx_transactionId i = t_id t"
      by (fastforce simp: etx_toResponse_def)
  qed (use pn in \<open>simp_all add: eq(2)\<close>)
qed

end
