(* ===== verification/Flows.thy ===== *)
theory Flows
  imports Views Routes
begin

text \<open>
  The dialogs of the web client that move money: \<^verbatim>\<open>components/DepositFlow.tsx\<close> and
  \<^verbatim>\<open>components/WithdrawModal.tsx\<close>.  A handler runs to its request, and on from the answer; in between
  the dialog is loading and its buttons are disabled.  \<open>df_sent\<close> records the requests made,
  \<open>df_keys\<close> how many idempotency keys were drawn; \<open>keyOf\<close> is \<open>crypto.randomUUID\<close>, by draw.

  The facts connect the two sides: in every reachable state of the deposit dialog, an approval or a
  deposit was sent only for an amount the server had previewed for a wallet that was primary then, and
  the server's validation reads it as that amount and, unless the primary wallet was swapped since, as
  that wallet (\<open>deposit_after_swap\<close> is the other case); no two carry the same idempotency key; a deposit
  that the server said needs an approval is sent after one.
\<close>

section \<open>Depositing\<close>

datatype flow_step = AmountStep | ApproveStep | DepositStep | DoneStep

datatype awaiting = Idle | Previewing string | Approving | Depositing

record deposit_flow =
  df_amountInput :: string
  df_step :: flow_step
  df_loading :: bool
  df_error :: "string option"
  df_explorerUrl :: "string option"
  df_requiresApproval :: bool
  df_baseAmount :: string
  df_awaiting :: awaiting
  df_sent :: "api_call list"
  df_keys :: nat

record mutation_response =
  mr_status :: string
  mr_transactionId :: "string option"
  mr_txHash :: "string option"
  mr_explorerUrl :: "string option"
  mr_positionId :: "string option"
  mr_positionStatus :: "string option"

definition flow_init :: deposit_flow where
  "flow_init = \<lparr>df_amountInput = [], df_step = AmountStep, df_loading = False, df_error = None, df_explorerUrl = None,
     df_requiresApproval = False, df_baseAmount = [], df_awaiting = Idle, df_sent = [], df_keys = 0\<rparr>"

definition flow_typed :: "string \<Rightarrow> deposit_flow \<Rightarrow> deposit_flow" where
  "flow_typed s f = f\<lparr>df_amountInput := s\<rparr>"

text \<open>The \<open>catch\<close> and the \<open>finally\<close> of the three handlers.\<close>

definition flow_failed :: "exn \<Rightarrow> deposit_flow \<Rightarrow> deposit_flow" where
  "flow_failed e f = f\<lparr>df_error := Some (errorMessage e), df_loading := False, df_awaiting := Idle\<rparr>"

definition flow_handlePreview :: "client_vault \<Rightarrow> client_wallet \<Rightarrow> deposit_flow \<Rightarrow> deposit_flow" where
  "flow_handlePreview vault w f =
     (let f' = f\<lparr>df_error := None, df_loading := True\<rparr>
      in case parseAmount (df_amountInput f) (cv_assetDecimals vault) of
           Inl e \<Rightarrow> flow_failed e f'
         | Inr amount \<Rightarrow>
             f'\<lparr>df_awaiting := Previewing amount,
                df_sent := df_sent f @ [api_previewDeposit (cv_vaultId vault) (cl_walletId w) amount]\<rparr>)"

definition flow_previewed :: "bool \<Rightarrow> string \<Rightarrow> deposit_flow \<Rightarrow> deposit_flow" where
  "flow_previewed requiresApproval amount f =
     f\<lparr>df_baseAmount := amount, df_requiresApproval := requiresApproval,
       df_step := (if requiresApproval then ApproveStep else DepositStep), df_loading := False, df_awaiting := Idle\<rparr>"

definition flow_handleApprove :: "(nat \<Rightarrow> string) \<Rightarrow> client_vault \<Rightarrow> client_wallet \<Rightarrow> deposit_flow \<Rightarrow> deposit_flow" where
  "flow_handleApprove keyOf vault w f =
     f\<lparr>df_error := None, df_loading := True, df_awaiting := Approving, df_keys := Suc (df_keys f),
       df_sent := df_sent f @ [api_approve (cv_vaultId vault) (cl_walletId w) (df_baseAmount f) (keyOf (df_keys f))]\<rparr>"

text \<open>An empty explorer link is falsy.\<close>

definition linkOr :: "mutation_response \<Rightarrow> string option \<Rightarrow> string option" where
  "linkOr r old = (case mr_explorerUrl r of Some (c # cs) \<Rightarrow> Some (c # cs) | _ \<Rightarrow> old)"

definition flow_approved :: "mutation_response \<Rightarrow> deposit_flow \<Rightarrow> deposit_flow" where
  "flow_approved r f =
     f\<lparr>df_explorerUrl := linkOr r (df_explorerUrl f), df_step := DepositStep, df_loading := False, df_awaiting := Idle\<rparr>"

definition flow_handleDeposit :: "(nat \<Rightarrow> string) \<Rightarrow> client_vault \<Rightarrow> client_wallet \<Rightarrow> deposit_flow \<Rightarrow> deposit_flow" where
  "flow_handleDeposit keyOf vault w f =
     f\<lparr>df_error := None, df_loading := True, df_awaiting := Depositing, df_keys := Suc (df_keys f),
       df_sent := df_sent f @ [api_deposit (cv_vaultId vault) (cl_walletId w) (df_baseAmount f) (keyOf (df_keys f))]\<rparr>"

definition flow_deposited :: "mutation_response \<Rightarrow> deposit_flow \<Rightarrow> deposit_flow" where
  "flow_deposited r f =
     f\<lparr>df_explorerUrl := linkOr r (df_explorerUrl f), df_step := DoneStep, df_loading := False, df_awaiting := Idle\<rparr>"

text \<open>
  The buttons are there in their step only and disabled while loading.  \<open>previews c b\<close>: the server may answer
  the preview \<open>c\<close> with \<open>b\<close> for whether an approval is required.  The wallet is the primary wallet of the context at
  the time: a refresh can swap it (\<open>swapped\<close>) for another one of \<open>W\<close>, and each handler uses the one it finds.  The vault
  stays, since the page takes the dialog away while it fetches one.
\<close>

inductive flowing ::
    "(api_call \<Rightarrow> bool \<Rightarrow> bool) \<Rightarrow> (nat \<Rightarrow> string) \<Rightarrow> client_vault \<Rightarrow> client_wallet set \<Rightarrow> client_wallet \<Rightarrow> deposit_flow \<Rightarrow> bool"
  for previews keyOf vault W where
  start: "w \<in> W \<Longrightarrow> flowing previews keyOf vault W w flow_init"
| swapped: "flowing previews keyOf vault W w f \<Longrightarrow> w' \<in> W \<Longrightarrow> flowing previews keyOf vault W w' f"
| typed: "flowing previews keyOf vault W w f \<Longrightarrow> df_step f = AmountStep \<Longrightarrow> flowing previews keyOf vault W w (flow_typed s f)"
| preview: "flowing previews keyOf vault W w f \<Longrightarrow> df_step f = AmountStep \<Longrightarrow> \<not> df_loading f \<Longrightarrow>
    flowing previews keyOf vault W w (flow_handlePreview vault w f)"
| previewed: "flowing previews keyOf vault W w f \<Longrightarrow> df_awaiting f = Previewing amount \<Longrightarrow> previews (last (df_sent f)) b \<Longrightarrow>
    flowing previews keyOf vault W w (flow_previewed b amount f)"
| approve: "flowing previews keyOf vault W w f \<Longrightarrow> df_step f = ApproveStep \<Longrightarrow> \<not> df_loading f \<Longrightarrow>
    flowing previews keyOf vault W w (flow_handleApprove keyOf vault w f)"
| approved: "flowing previews keyOf vault W w f \<Longrightarrow> df_awaiting f = Approving \<Longrightarrow> flowing previews keyOf vault W w (flow_approved r f)"
| deposit: "flowing previews keyOf vault W w f \<Longrightarrow> df_step f = DepositStep \<Longrightarrow> \<not> df_loading f \<Longrightarrow>
    flowing previews keyOf vault W w (flow_handleDeposit keyOf vault w f)"
| deposited: "flowing previews keyOf vault W w f \<Longrightarrow> df_awaiting f = Depositing \<Longrightarrow> flowing previews keyOf vault W w (flow_deposited r f)"
| failed: "flowing previews keyOf vault W w f \<Longrightarrow> df_awaiting f \<noteq> Idle \<Longrightarrow> flowing previews keyOf vault W w (flow_failed e f)"

lemmas flow_defs = flow_init_def flow_typed_def flow_failed_def flow_handlePreview_def flow_previewed_def
  flow_handleApprove_def flow_approved_def flow_handleDeposit_def flow_deposited_def

section \<open>What the server makes of it\<close>

text \<open>What the server may answer to a preview: what its route answers to that body in some state.\<close>

definition serverPreviews :: "api_call \<Rightarrow> bool \<Rightarrow> bool" where
  "serverPreviews c requiresApproval \<longleftrightarrow>
     (\<exists>x a request s r s'. h_body request = ac_body c \<and> vaults_previewDeposit x a request s = (Inr (201, r), s')
        \<and> de_requiresApproval r = requiresApproval)"

lemma previews_parse:
  assumes "serverPreviews c b"
  shows "\<exists>d. parseDepositDto (ac_body c) = Inr d"
proof -
  from assms obtain x a request s r s' where "h_body request = ac_body c"
    and "vaults_previewDeposit x a request s = (Inr (201, r), s')" by (auto simp: serverPreviews_def)
  then show ?thesis
    unfolding vaults_previewDeposit_def
    by (elim authenticated_InrE) (auto simp: andThen_def lift_def split: sum.splits)
qed

text \<open>The three requests have the same body, and the two classes that read it are the same.\<close>

lemma call_bodies:
  "ac_body (api_previewDeposit v w a) = Some (amountBody w a)" "ac_body (api_approve v w a k) = Some (amountBody w a)"
  "ac_body (api_deposit v w a k) = Some (amountBody w a)"
  "ac_idempotencyKey (api_previewDeposit v w a) = None" "ac_idempotencyKey (api_approve v w a k) = Some k"
  "ac_idempotencyKey (api_deposit v w a k) = Some k"
  by (simp_all add: api_previewDeposit_def api_approve_def api_deposit_def postCall_def)

lemma same_reading:
  "parseDepositDto body = Inr d \<Longrightarrow> parseApproveDto body = Inr \<lparr>ad_walletId = dd_walletId d, ad_amount = dd_amount d\<rparr>"
  by (auto simp: parseDepositDto_def parseApproveDto_def Let_def split: option.splits if_splits)

lemma amount_reading:
  "parseDepositDto (Some (amountBody w a)) = Inr d \<Longrightarrow> uuidOf w = Some (dd_walletId d) \<and> dd_amount d = a"
  by (auto simp: parseDepositDto_def amountBody_def bodyProps_def uuidProp_def amountProp_def Let_def
      split: option.splits if_splits)

section \<open>The dialog's invariant\<close>

text \<open>The mutating requests among those sent, and the preview that must come before each.\<close>

definition mutations :: "api_call list \<Rightarrow> api_call list" where
  "mutations cs = filter (\<lambda>c. ac_idempotencyKey c \<noteq> None) cs"

definition accepted :: "client_vault \<Rightarrow> client_wallet set \<Rightarrow> string \<Rightarrow> api_call list \<Rightarrow> bool" where
  "accepted vault W a cs \<longleftrightarrow> (\<exists>w \<in> W. api_previewDeposit (cv_vaultId vault) (cl_walletId w) a \<in> set cs
     \<and> (\<exists>d. parseDepositDto (Some (amountBody (cl_walletId w) a)) = Inr d))"

definition backed :: "client_vault \<Rightarrow> client_wallet set \<Rightarrow> api_call list \<Rightarrow> api_call \<Rightarrow> bool" where
  "backed vault W cs c \<longleftrightarrow> (\<exists>w \<in> W. \<exists>a k. accepted vault W a cs
     \<and> c \<in> {api_approve (cv_vaultId vault) (cl_walletId w) a k, api_deposit (cv_vaultId vault) (cl_walletId w) a k})"

definition orderly :: "client_vault \<Rightarrow> client_wallet set \<Rightarrow> api_call list \<Rightarrow> bool" where
  "orderly vault W cs \<longleftrightarrow> (\<forall>before c after. cs = before @ c # after \<longrightarrow> ac_idempotencyKey c \<noteq> None \<longrightarrow> backed vault W before c)"

lemma orderly_Nil [simp]: "orderly vault W []"
  by (simp add: orderly_def)

lemma orderly_snoc:
  "orderly vault W cs \<Longrightarrow> (ac_idempotencyKey c \<noteq> None \<Longrightarrow> backed vault W cs c) \<Longrightarrow> orderly vault W (cs @ [c])"
proof -
  assume cs: "orderly vault W cs" and c: "ac_idempotencyKey c \<noteq> None \<Longrightarrow> backed vault W cs c"
  show ?thesis unfolding orderly_def
  proof (intro allI impI)
    fix before d after assume eq: "cs @ [c] = before @ d # after" and key: "ac_idempotencyKey d \<noteq> None"
    show "backed vault W before d"
    proof (cases after rule: rev_cases)
      case Nil
      with eq c key show ?thesis by simp
    next
      case (snoc after' d')
      with eq cs key show ?thesis by (auto simp: orderly_def)
    qed
  qed
qed

lemma mutations_simps [simp]:
  "mutations [] = []" "mutations (xs @ ys) = mutations xs @ mutations ys"
  "mutations [c] = (if ac_idempotencyKey c \<noteq> None then [c] else [])"
  by (simp_all add: mutations_def)

lemma accepted_snoc: "accepted vault W a cs \<Longrightarrow> accepted vault W a (cs @ ds)"
  by (auto simp: accepted_def)

text \<open>As long as the wallet is the previewed one, the server reads the request as that amount and wallet.\<close>

lemma orderly_backed:
  assumes "orderly vault W cs" and "cs = before @ c # after" and "ac_idempotencyKey c = Some k"
  shows "\<exists>seen w a d. seen \<in> W \<and> w \<in> W
     \<and> c \<in> {api_approve (cv_vaultId vault) (cl_walletId w) a k, api_deposit (cv_vaultId vault) (cl_walletId w) a k}
     \<and> api_previewDeposit (cv_vaultId vault) (cl_walletId seen) a \<in> set before
     \<and> parseDepositDto (Some (amountBody (cl_walletId seen) a)) = Inr d
     \<and> dd_amount d = a \<and> uuidOf (cl_walletId seen) = Some (dd_walletId d)
     \<and> (w = seen \<longrightarrow> parseDepositDto (ac_body c) = Inr d
          \<and> parseApproveDto (ac_body c) = Inr \<lparr>ad_walletId = dd_walletId d, ad_amount = dd_amount d\<rparr>)"
proof -
  have "backed vault W before c" using assms unfolding orderly_def by (metis option.distinct(1))
  then obtain a k' w where acc: "accepted vault W a before" and w: "w \<in> W"
    and c: "c \<in> {api_approve (cv_vaultId vault) (cl_walletId w) a k', api_deposit (cv_vaultId vault) (cl_walletId w) a k'}"
    unfolding backed_def by blast
  from acc obtain d seen where s: "seen \<in> W" and p: "api_previewDeposit (cv_vaultId vault) (cl_walletId seen) a \<in> set before"
    and d: "parseDepositDto (Some (amountBody (cl_walletId seen) a)) = Inr d" unfolding accepted_def by blast
  have "ac_body c = Some (amountBody (cl_walletId w) a)" "k' = k" using c assms(3) by (auto simp: call_bodies)
  with c p d s w same_reading [OF d] amount_reading [OF d] show ?thesis
    by (intro exI [of _ seen] exI [of _ w] exI [of _ a] exI [of _ d]) simp
qed

definition flow_inv :: "(nat \<Rightarrow> string) \<Rightarrow> client_vault \<Rightarrow> client_wallet set \<Rightarrow> deposit_flow \<Rightarrow> bool" where
  "flow_inv keyOf vault W f \<longleftrightarrow>
     orderly vault W (df_sent f)
     \<and> map ac_idempotencyKey (mutations (df_sent f)) = map (\<lambda>k. Some (keyOf k)) [0..<df_keys f]
     \<and> (df_step f \<in> {ApproveStep, DepositStep} \<longrightarrow> accepted vault W (df_baseAmount f) (df_sent f))
     \<and> (df_step f = DepositStep \<and> df_requiresApproval f \<longrightarrow>
          (\<exists>w \<in> W. \<exists>k. api_approve (cv_vaultId vault) (cl_walletId w) (df_baseAmount f) k \<in> set (df_sent f)))
     \<and> (df_loading f \<longleftrightarrow> df_awaiting f \<noteq> Idle)
     \<and> (\<forall>a. df_awaiting f = Previewing a \<longrightarrow> df_step f = AmountStep
          \<and> df_sent f \<noteq> [] \<and> (\<exists>w \<in> W. last (df_sent f) = api_previewDeposit (cv_vaultId vault) (cl_walletId w) a))
     \<and> (df_awaiting f = Approving \<longrightarrow> df_step f = ApproveStep
          \<and> (\<exists>w \<in> W. \<exists>k. api_approve (cv_vaultId vault) (cl_walletId w) (df_baseAmount f) k \<in> set (df_sent f)))
     \<and> (df_awaiting f = Depositing \<longrightarrow> df_step f = DepositStep)"

lemma flowing_live: "flowing previews keyOf vault W w f \<Longrightarrow> w \<in> W"
  by (induction rule: flowing.induct)

text \<open>What the dialog relies on: a preview is answered only to a body that the server can read.\<close>

locale preview_server =
  fixes previews :: "api_call \<Rightarrow> bool \<Rightarrow> bool"
  assumes readable: "previews c b \<Longrightarrow> \<exists>d. parseDepositDto (ac_body c) = Inr d"
begin

lemma flowing_inv: "flowing previews keyOf vault W w f \<Longrightarrow> flow_inv keyOf vault W f"
proof (induction rule: flowing.induct)
  case (start w)
  show ?case by (simp add: flow_inv_def flow_init_def)
next
  case (swapped w f w')
  then show ?case by simp
next
  case (typed w f s)
  then show ?case by (simp add: flow_inv_def flow_typed_def)
next
  case (preview w f)
  note live = flowing_live [OF preview.hyps(1)]
  show ?case
  proof (cases "parseAmount (df_amountInput f) (cv_assetDecimals vault)")
    case (Inl e)
    with preview show ?thesis by (simp add: flow_inv_def flow_handlePreview_def flow_failed_def)
  next
    case (Inr a)
    with preview live show ?thesis by (auto simp: flow_inv_def flow_handlePreview_def call_bodies intro: orderly_snoc)
  qed
next
  case (previewed w f a b)
  then obtain seen where seen: "seen \<in> W" "df_sent f \<noteq> []"
    "last (df_sent f) = api_previewDeposit (cv_vaultId vault) (cl_walletId seen) a" by (auto simp: flow_inv_def)
  then have "api_previewDeposit (cv_vaultId vault) (cl_walletId seen) a \<in> set (df_sent f)" by (metis last_in_set)
  with readable [OF previewed.hyps(3)] seen have "accepted vault W a (df_sent f)"
    by (auto simp: accepted_def call_bodies)
  with previewed show ?case by (auto simp: flow_inv_def flow_previewed_def)
next
  case (approve w f)
  note live = flowing_live [OF approve.hyps(1)]
  with approve have "backed vault W (df_sent f) (api_approve (cv_vaultId vault) (cl_walletId w) (df_baseAmount f) (keyOf (df_keys f)))"
    by (auto simp: flow_inv_def backed_def)
  with approve live show ?case
    by (auto simp: flow_inv_def flow_handleApprove_def call_bodies accepted_snoc intro: orderly_snoc)
next
  case (deposit w f)
  with flowing_live [OF deposit.hyps(1)]
  have "backed vault W (df_sent f) (api_deposit (cv_vaultId vault) (cl_walletId w) (df_baseAmount f) (keyOf (df_keys f)))"
    by (auto simp: flow_inv_def backed_def)
  with deposit show ?case
    by (auto simp: flow_inv_def flow_handleDeposit_def call_bodies accepted_snoc intro: orderly_snoc)
next
  case (approved w f r)
  then show ?case by (auto simp: flow_inv_def flow_approved_def)
next
  case (deposited w f r)
  then show ?case by (auto simp: flow_inv_def flow_deposited_def)
next
  case (failed w f e)
  then show ?case by (auto simp: flow_inv_def flow_failed_def)
qed

text \<open>In every reachable state, all that was sent is backed by a preview, each request with a key of its own.\<close>

lemma sent_backed: "flowing previews keyOf vault W w f \<Longrightarrow> orderly vault W (df_sent f)"
  using flowing_inv by (auto simp: flow_inv_def)

lemma keys_distinct: "flowing previews keyOf vault W w f \<Longrightarrow> inj keyOf \<Longrightarrow> distinct (map ac_idempotencyKey (mutations (df_sent f)))"
  using flowing_inv [of keyOf vault W w f] by (auto simp: flow_inv_def distinct_map inj_on_def inj_def)

lemma approval_before:
  "flowing previews keyOf vault W w f \<Longrightarrow> df_step f = DepositStep \<Longrightarrow> df_requiresApproval f \<Longrightarrow>
     \<exists>w \<in> W. \<exists>k. api_approve (cv_vaultId vault) (cl_walletId w) (df_baseAmount f) k \<in> set (df_sent f)"
  using flowing_inv by (auto simp: flow_inv_def)

end

text \<open>
  The preview is of the wallet that was primary when it was asked for, the deposit of the one that is primary now: after
  a swap in between, a wallet that was never previewed is deposited from.
\<close>

lemma deposit_after_swap:
  assumes "flowing previews keyOf vault W w f" and "df_step f = DepositStep" and "\<not> df_loading f" and "w' \<in> W"
  shows "\<exists>f'. flowing previews keyOf vault W w' f'
     \<and> df_sent f' = df_sent f @ [api_deposit (cv_vaultId vault) (cl_walletId w') (df_baseAmount f) (keyOf (df_keys f))]"
  using flowing.deposit [OF flowing.swapped [OF assms(1,4)] assms(2,3)]
  by (auto simp: flow_handleDeposit_def)

interpretation server: preview_server serverPreviews
  by unfold_locales (rule previews_parse)

text \<open>A deposit that was answered is shown as done, whatever its status.\<close>

lemma done_whatever: "df_step (flow_deposited (r\<lparr>mr_status := st\<rparr>) f) = DoneStep"
  by (simp add: flow_deposited_def)

section \<open>Withdrawing\<close>

record withdraw_modal =
  wm_loading :: bool
  wm_error :: "string option"
  wm_explorerUrl :: "string option"
  wm_done :: bool
  wm_sent :: "api_call list"
  wm_keys :: nat

definition modal_init :: withdraw_modal where
  "modal_init = \<lparr>wm_loading = False, wm_error = None, wm_explorerUrl = None, wm_done = False, wm_sent = [], wm_keys = 0\<rparr>"

definition modal_handleFullWithdraw ::
    "(nat \<Rightarrow> string) \<Rightarrow> client_position \<Rightarrow> client_wallet \<Rightarrow> withdraw_modal \<Rightarrow> withdraw_modal" where
  "modal_handleFullWithdraw keyOf p w m =
     m\<lparr>wm_error := None, wm_loading := True, wm_keys := Suc (wm_keys m),
       wm_sent := wm_sent m @ [api_withdraw (cp_positionId p) (cl_walletId w) None (Some True) (keyOf (wm_keys m))]\<rparr>"

definition modal_answered :: "mutation_response res \<Rightarrow> withdraw_modal \<Rightarrow> withdraw_modal" where
  "modal_answered reply m =
     (case reply of
        Inr r \<Rightarrow> m\<lparr>wm_explorerUrl := linkOr r (wm_explorerUrl m), wm_done := True, wm_loading := False\<rparr>
      | Inl e \<Rightarrow> m\<lparr>wm_error := Some (errorMessage e), wm_loading := False\<rparr>)"

text \<open>The button is there until the withdrawal is done.\<close>

inductive withdrawing :: "(nat \<Rightarrow> string) \<Rightarrow> client_position \<Rightarrow> client_wallet \<Rightarrow> withdraw_modal \<Rightarrow> bool" for keyOf p w where
  start: "withdrawing keyOf p w modal_init"
| click: "withdrawing keyOf p w m \<Longrightarrow> \<not> wm_done m \<Longrightarrow> \<not> wm_loading m \<Longrightarrow>
    withdrawing keyOf p w (modal_handleFullWithdraw keyOf p w m)"
| answered: "withdrawing keyOf p w m \<Longrightarrow> wm_loading m \<Longrightarrow> withdrawing keyOf p w (modal_answered ans m)"

lemma withdrawing_sent:
  "withdrawing keyOf p w m \<Longrightarrow>
     wm_sent m = map (\<lambda>k. api_withdraw (cp_positionId p) (cl_walletId w) None (Some True) (keyOf k)) [0..<wm_keys m]"
  by (induction rule: withdrawing.induct)
     (auto simp: modal_init_def modal_handleFullWithdraw_def modal_answered_def split: sum.splits)

text \<open>So the server reads each of them as a withdrawal of everything from that wallet.\<close>

lemma withdrawing_reads:
  assumes "withdrawing keyOf p w m" and "c \<in> set (wm_sent m)" and "cl_walletId w = showNat i"
  shows "parseWithdrawDto (ac_body c) = Inr \<lparr>wdd_walletId = i, wdd_amount = None, wdd_fullWithdraw = Some True\<rparr>"
  using withdrawing_sent [OF assms(1)] assms(2,3) client_withdraw_all_body by auto

text \<open>
  The portfolio page: the position whose dialog is open, always with the primary wallet of the list.  The page
  closes the dialog once a withdrawal was answered.
\<close>

definition portfolioDialog :: "client_position option \<Rightarrow> client_wallet option \<Rightarrow> (client_position \<times> client_wallet) option" where
  "portfolioDialog withdrawTarget wallet =
     (case (withdrawTarget, wallet) of (Some p, Some w) \<Rightarrow> Some (p, w) | _ \<Rightarrow> None)"

section \<open>Signing in\<close>

datatype login_mode = LoginMode | RegisterMode

record login_form =
  lf_mode :: login_mode
  lf_email :: string
  lf_password :: string
  lf_error :: "string option"
  lf_submitting :: bool

definition form_init :: login_form where
  "form_init = \<lparr>lf_mode = LoginMode, lf_email = [], lf_password = [], lf_error = None, lf_submitting = False\<rparr>"

definition form_toggle :: "login_form \<Rightarrow> login_form" where
  "form_toggle f = f\<lparr>lf_mode := (if lf_mode f = LoginMode then RegisterMode else LoginMode)\<rparr>"

definition form_handleSubmit :: "login_form \<Rightarrow> login_form \<times> api_call" where
  "form_handleSubmit f =
     (f\<lparr>lf_error := None, lf_submitting := True\<rparr>,
      if lf_mode f = LoginMode then api_login (lf_email f) (lf_password f) else api_register (lf_email f) (lf_password f))"

definition form_answered :: "unit res \<Rightarrow> login_form \<Rightarrow> login_form" where
  "form_answered reply f =
     (case reply of
        Inr _ \<Rightarrow> f\<lparr>lf_submitting := False\<rparr>
      | Inl e \<Rightarrow> f\<lparr>lf_error := Some (errorMessage e), lf_submitting := False\<rparr>)"

text \<open>A form that satisfies its \<open>minLength\<close> and an email the server takes is read as it was typed.\<close>

lemma form_read:
  assumes "isEmail (lf_email f)" and "8 \<le> length (lf_password f)"
  shows "parseCredentials isEmail (ac_body (snd (form_handleSubmit f)))
       = Inr \<lparr>cr_email = lf_email f, cr_password = lf_password f\<rparr>"
  using assms
  by (simp add: form_handleSubmit_def api_login_def api_register_def postCall_def parseCredentials_def bodyProps_def
      stringProp_def strangers_def complaint_def Let_def)

section \<open>Listing\<close>

text \<open>
  The query string of a path, without percent-decoding: for text that has no \<open>%\<close> and no \<open>+\<close>.  Of a key
  given once.
\<close>

definition searchOf :: "string \<Rightarrow> (string \<times> json) list" where
  "searchOf path =
     (case splitOn (CHR ''?'') path of
        [_, search] \<Rightarrow>
          map (\<lambda>part. case splitOn (CHR ''='') part of k # v # _ \<Rightarrow> (k, JStr v) | k # _ \<Rightarrow> (k, JStr []) | [] \<Rightarrow> ([], JStr []))
            (splitOn (CHR ''&'') search)
      | _ \<Rightarrow> [])"

lemma splitOn_free: "x \<notin> set a \<Longrightarrow> splitOn x (a @ x # b) = a # splitOn x b"
  by (induction a) (auto split: list.splits)

lemma showNat_free: "\<not> isDigit x \<Longrightarrow> x \<notin> set (showNat n)"
  using showNat_digits by (auto simp: list_all_iff)

lemma not_digits_url: "\<not> isDigit (CHR ''?'')" "\<not> isDigit (CHR ''='')" "\<not> isDigit (CHR ''&'')"
  by (simp_all add: isDigit_def code_def)

lemma search_listing:
  "searchOf (ac_path (api_getTransactions page lim)) = [(''page'', JStr (showNat page)), (''limit'', JStr (showNat lim))]"
proof -
  note free = showNat_free [OF not_digits_url(1)] showNat_free [OF not_digits_url(2)] showNat_free [OF not_digits_url(3)]
  have "splitOn (CHR ''?'') (ac_path (api_getTransactions page lim))
      = [''/earn/transactions'', ''page='' @ showNat page @ CHR ''&'' # (''limit='' @ showNat lim)]"
    using splitOn_parts [of "CHR ''?''" "''/earn/transactions''" "''page='' @ showNat page @ CHR ''&'' # (''limit='' @ showNat lim)"] free
    by (simp add: api_getTransactions_def getCall_def)
  moreover have "splitOn (CHR ''&'') (''page='' @ showNat page @ CHR ''&'' # (''limit='' @ showNat lim))
      = [''page='' @ showNat page, ''limit='' @ showNat lim]"
    using splitOn_parts [of "CHR ''&''" "''page='' @ showNat page" "''limit='' @ showNat lim"] free by simp
  moreover have "splitOn (CHR ''='') (''page='' @ showNat page) = [''page'', showNat page]"
    using splitOn_parts [of "CHR ''=''" "''page''" "showNat page"] free by simp
  moreover have "splitOn (CHR ''='') (''limit='' @ showNat lim) = [''limit'', showNat lim]"
    using splitOn_parts [of "CHR ''=''" "''limit''" "showNat lim"] free by simp
  ultimately show ?thesis by (simp add: searchOf_def)
qed

lemma numberOf_showNat: "numberOf (showNat n) = Decimal (int n) 0"
proof -
  have "trim (showNat n) = showNat n" by (rule trim_digits) (rule showNat_digits)
  moreover have "bigIntOf (showNat n) = Some (int n)" using bigint_show [of "int n"] by (simp add: showInt_nat del: bigint_show)
  ultimately show ?thesis by (simp add: numberOf_def Let_def)
qed

text \<open>The page the client asks for is the page the server reads.\<close>

lemma client_listing_read:
  assumes "1 \<le> page" and "1 \<le> lim" and "lim \<le> 100"
  shows "parseTransactionsQuery (searchOf (ac_path (api_getTransactions page lim)))
       = Inr \<lparr>tq_walletId = None, tq_vaultId = None, tq_positionId = None, tq_type = None, tq_status = None,
              tq_page = Some page, tq_limit = Some lim\<rparr>"
  using assms
  by (simp add: search_listing parseTransactionsQuery_def optional_def readBounded_def numberProp_def numberOf_showNat
      complaint_def strangers_def slugOf_def orElse_def Let_def)

end
