(* ===== verification/Markup.thy ===== *)
theory Markup
  imports Flows
begin

text \<open>
  What the components of the web client render.  A component is a function of its props and state to
  \<open>'a markup\<close>: the children that its JSX stands for, or the error that was thrown while rendering (\<open>BigInt\<close> of
  a text that is no number; there is no error boundary, so it takes the whole page down).  An element has its
  tag, its attributes, the handlers of its events and its children; \<open>'a\<close> is what a handler does.
  Components of the router (\<open>Link\<close>, \<open>NavLink\<close>, \<open>Navigate\<close>) stay as elements of that name.  Characters beyond
  ASCII are \<open>sign\<close>s.

  \<open>offers\<close> collects what the user can do on a page: the handlers of the elements that are not disabled, where a
  form can be submitted when its submit button can be pressed.  \<open>everywhere\<close> is a property of all elements of a
  tree, with the rules \<open>everyE_\<close> for the combinators.
\<close>

section \<open>Trees\<close>

datatype sign = Middot | Ellipsis | EmDash | TimesSign | LeftArrow | Diamond

type_synonym attrs = "(string \<times> string) list"

datatype 'a node =
    Text string
  | Sign sign
  | El string attrs "(string \<times> 'a) list" "'a node list"

type_synonym 'a markup = "'a node list res"

text \<open>What JSX is made of: \<open>whenM\<close> is \<open>b && \<dots>\<close>, \<open>truthyM\<close> the same of a text that may be missing or empty.\<close>

fun seqM :: "'a markup list \<Rightarrow> 'a markup" where
  "seqM [] = Inr []"
| "seqM (m # ms) = (case m of Inl e \<Rightarrow> Inl e | Inr ns \<Rightarrow> map_sum id ((@) ns) (seqM ms))"

definition el :: "string \<Rightarrow> attrs \<Rightarrow> (string \<times> 'a) list \<Rightarrow> 'a markup list \<Rightarrow> 'a markup" where
  "el tag as hs ms = map_sum id (\<lambda>ns. [El tag as hs ns]) (seqM ms)"

definition lit :: "string \<Rightarrow> 'a markup" where
  "lit s = Inr [Text s]"

definition mark :: "sign \<Rightarrow> 'a markup" where
  "mark x = Inr [Sign x]"

definition shownM :: "string res \<Rightarrow> 'a markup" where
  "shownM r = map_sum id (\<lambda>s. [Text s]) r"

definition whenM :: "bool \<Rightarrow> 'a markup \<Rightarrow> 'a markup" where
  "whenM b m = (if b then m else Inr [])"

definition truthyM :: "string option \<Rightarrow> (string \<Rightarrow> 'a markup) \<Rightarrow> 'a markup" where
  "truthyM s f = (case s of Some (c # cs) \<Rightarrow> f (c # cs) | _ \<Rightarrow> Inr [])"

definition someM :: "'b option \<Rightarrow> ('b \<Rightarrow> 'a markup) \<Rightarrow> 'a markup" where
  "someM x f = (case x of Some y \<Rightarrow> f y | None \<Rightarrow> Inr [])"

definition eachM :: "'b list \<Rightarrow> ('b \<Rightarrow> 'a markup) \<Rightarrow> 'a markup" where
  "eachM xs f = seqM (map f xs)"

text \<open>A value computed before the markup.\<close>

definition withM :: "'b res \<Rightarrow> ('b \<Rightarrow> 'a markup) \<Rightarrow> 'a markup" where
  "withM r f = (case r of Inl e \<Rightarrow> Inl e | Inr x \<Rightarrow> f x)"

definition cls :: "string \<Rightarrow> string \<times> string" where
  "cls c = (''className'', c)"

definition flag :: "string \<Rightarrow> bool \<Rightarrow> attrs" where
  "flag name b = (if b then [(name, '''')] else [])"

definition button :: "string \<Rightarrow> string \<Rightarrow> bool \<Rightarrow> (string \<times> 'a) list \<Rightarrow> 'a markup list \<Rightarrow> 'a markup" where
  "button kind c disabled hs ms = el ''button'' ([(''type'', kind), cls c] @ flag ''disabled'' disabled) hs ms"

text \<open>A link that opens another site.\<close>

definition newTab :: "string \<Rightarrow> string \<Rightarrow> 'a markup list \<Rightarrow> 'a markup" where
  "newTab url c ms = el ''a'' [(''href'', url), (''target'', ''_blank''), (''rel'', ''noopener noreferrer''), cls c] [] ms"

section \<open>All elements of a tree\<close>

fun everywhere :: "(string \<Rightarrow> attrs \<Rightarrow> bool) \<Rightarrow> 'a node \<Rightarrow> bool" where
  "everywhere P (El tag as hs ns) \<longleftrightarrow> P tag as \<and> list_all (everywhere P) ns"
| "everywhere P _ \<longleftrightarrow> True"

definition everyE :: "(string \<Rightarrow> attrs \<Rightarrow> bool) \<Rightarrow> 'a markup \<Rightarrow> bool" where
  "everyE P m \<longleftrightarrow> (\<forall>ns. m = Inr ns \<longrightarrow> list_all (everywhere P) ns)"

lemma everyE_seqM: "list_all (everyE P) ms \<Longrightarrow> everyE P (seqM ms)"
proof (induction ms)
  case (Cons m ms)
  then show ?case by (cases m; cases "seqM ms") (auto simp: everyE_def)
qed (simp add: everyE_def)

lemma everyE_el: "P tag as \<Longrightarrow> list_all (everyE P) ms \<Longrightarrow> everyE P (el tag as hs ms)"
  using everyE_seqM [of P ms] by (cases "seqM ms") (auto simp: everyE_def el_def)

lemma everyE_simps [simp]:
  "everyE P (lit s)" "everyE P (mark x)" "everyE P (Inr [])" "everyE P (Inl e)"
  by (simp_all add: everyE_def lit_def mark_def)

lemma everyE_shown [simp]: "everyE P (shownM r)"
  by (cases r) (simp_all add: everyE_def shownM_def)

lemma everyE_whenM: "(b \<Longrightarrow> everyE P m) \<Longrightarrow> everyE P (whenM b m)"
  by (simp add: whenM_def)

lemma everyE_truthyM: "(\<And>s. everyE P (f s)) \<Longrightarrow> everyE P (truthyM x f)"
  by (simp add: truthyM_def split: option.split list.split)

lemma everyE_someM: "(\<And>y. x = Some y \<Longrightarrow> everyE P (f y)) \<Longrightarrow> everyE P (someM x f)"
  by (simp add: someM_def split: option.split)

lemma everyE_eachM: "(\<And>y. y \<in> set xs \<Longrightarrow> everyE P (f y)) \<Longrightarrow> everyE P (eachM xs f)"
  by (simp add: eachM_def everyE_seqM list_all_iff)

lemma everyE_withM: "(\<And>y. everyE P (f y)) \<Longrightarrow> everyE P (withM r f)"
  by (simp add: withM_def split: sum.split)

lemma everyE_if: "(b \<Longrightarrow> everyE P m) \<Longrightarrow> (\<not> b \<Longrightarrow> everyE P m') \<Longrightarrow> everyE P (if b then m else m')"
  by simp

lemmas everyE_rules = everyE_seqM everyE_el everyE_whenM everyE_truthyM everyE_someM everyE_eachM everyE_withM everyE_if

section \<open>What a page offers\<close>

definition attrOf :: "string \<Rightarrow> attrs \<Rightarrow> string option" where
  "attrOf name as = map_of as name"

fun submittable :: "'a node \<Rightarrow> bool" where
  "submittable (El tag as hs ns) \<longleftrightarrow>
     tag = ''button'' \<and> attrOf ''type'' as = Some ''submit'' \<and> attrOf ''disabled'' as = None \<or> list_ex submittable ns"
| "submittable _ \<longleftrightarrow> False"

fun offersOf :: "'a node \<Rightarrow> 'a list" where
  "offersOf (El tag as hs ns) =
     (if attrOf ''disabled'' as \<noteq> None \<or> tag = ''form'' \<and> \<not> list_ex submittable ns then [] else map snd hs)
     @ concat (map offersOf ns)"
| "offersOf _ = []"

definition offers :: "'a markup \<Rightarrow> 'a list" where
  "offers m = (case m of Inl e \<Rightarrow> [] | Inr ns \<Rightarrow> concat (map offersOf ns))"

definition renders :: "'a markup \<Rightarrow> bool" where
  "renders m \<longleftrightarrow> (\<exists>ns. m = Inr ns)"

lemma renders_seqM [simp]: "renders (seqM ms) \<longleftrightarrow> list_all renders ms"
proof (induction ms)
  case (Cons m ms)
  then show ?case by (cases m; cases "seqM ms") (auto simp: renders_def)
qed (simp add: renders_def)

lemma renders_el [simp]: "renders (el tag as hs ms) \<longleftrightarrow> list_all renders ms"
  using renders_seqM [of ms] by (cases "seqM ms") (auto simp: renders_def el_def)

lemma renders_simps [simp]:
  "renders (lit s)" "renders (mark x)" "renders (Inr ns)" "\<not> renders (Inl e)"
  "renders (whenM b m) \<longleftrightarrow> (b \<longrightarrow> renders m)"
  by (auto simp: whenM_def lit_def mark_def renders_def)

lemma renders_eachM [simp]: "renders (eachM xs f) \<longleftrightarrow> (\<forall>x \<in> set xs. renders (f x))"
  by (simp add: eachM_def list_all_iff)

lemma renders_shown [simp]: "renders (shownM r) \<longleftrightarrow> (\<exists>s. r = Inr s)"
  by (cases r) (simp_all add: renders_def shownM_def)

lemma renders_opt [simp]:
  "renders (someM x f) \<longleftrightarrow> (\<forall>y. x = Some y \<longrightarrow> renders (f y))"
  "renders (withM r g) \<longleftrightarrow> (\<exists>y. r = Inr y \<and> renders (g y))"
  by (auto simp: someM_def withM_def split: option.split sum.split)

lemma renders_truthy: "(\<And>s. renders (f s)) \<Longrightarrow> renders (truthyM x f)"
  by (simp add: truthyM_def split: option.split list.split)

lemma offers_Nil [simp]: "offers (Inr []) = []" "offers (Inl e) = []" "offers (lit s) = []" "offers (mark x) = []"
  by (simp_all add: offers_def lit_def mark_def)

lemma offers_shown [simp]: "offers (shownM r) = []"
  by (cases r) (simp_all add: offers_def shownM_def)

lemma offers_seqM: "renders (seqM ms) \<Longrightarrow> offers (seqM ms) = concat (map offers ms)"
proof (induction ms)
  case (Cons m ms)
  then show ?case by (cases m; cases "seqM ms") (auto simp: offers_def renders_def)
qed simp

lemma offers_el:
  assumes "list_all renders ms" and "tag \<noteq> ''form''"
  shows "offers (el tag as hs ms) = (if attrOf ''disabled'' as = None then map snd hs else []) @ concat (map offers ms)"
proof -
  have "renders (seqM ms)" using assms(1) by simp
  with offers_seqM [OF this] assms(2) show ?thesis by (auto simp: el_def offers_def renders_def)
qed

definition submits :: "'a markup \<Rightarrow> bool" where
  "submits m \<longleftrightarrow> (\<exists>ns. m = Inr ns \<and> list_ex submittable ns)"

lemma submits_Nil [simp]: "\<not> submits (Inr [])" "\<not> submits (lit s)" "\<not> submits (mark x)" "\<not> submits (shownM r)"
  by (auto simp: submits_def lit_def mark_def shownM_def map_sum_def split: sum.splits)

lemma submits_seqM: "list_all renders ms \<Longrightarrow> submits (seqM ms) \<longleftrightarrow> list_ex submits ms"
proof (induction ms)
  case (Cons m ms)
  then have "renders m" "renders (seqM ms)" by simp_all
  then obtain ns ks where "m = Inr ns" "seqM ms = Inr ks" by (auto simp: renders_def)
  with Cons show ?case by (auto simp: submits_def)
qed simp

lemma submits_el:
  assumes "list_all renders ms"
  shows "submits (el tag as hs ms) \<longleftrightarrow>
    tag = ''button'' \<and> attrOf ''type'' as = Some ''submit'' \<and> attrOf ''disabled'' as = None \<or> list_ex submits ms"
proof -
  from assms have "renders (seqM ms)" by simp
  with submits_seqM [OF assms] show ?thesis by (auto simp: el_def submits_def renders_def)
qed

lemma offers_form:
  assumes "list_all renders ms" and "attrOf ''disabled'' as = None"
  shows "offers (el ''form'' as hs ms) = (if list_ex submits ms then map snd hs else []) @ concat (map offers ms)"
proof -
  have r: "renders (seqM ms)" using assms(1) by simp
  with offers_seqM [OF r] submits_seqM [OF assms(1)] assms(2) show ?thesis
    by (auto simp: el_def offers_def renders_def submits_def)
qed

declare seqM.simps [simp del]

end
