(* ===== verification/Components.thy ===== *)
theory Components
  imports Markup
begin

text \<open>
  The components of \<^verbatim>\<open>frontend/src/components\<close> as markup: the loaders, the banner, the frame of the application, the
  cards, the row of a transaction and the two dialogs.  Numbers that JavaScript handles as floating point, and
  dates in the locale of the browser, come from a record \<open>js_lib\<close> of the functions the code calls.

  The facts: what a dialog or a card offers in each of its states, and when it renders at all.
\<close>

section \<open>What the user may do\<close>

datatype client_action =
    SignOut
  | RetryLoad
  | CopyAddress string
  | AskFaucet string
  | AskVerify string
  | AskWallet
  | OpenWithdraw client_position
  | CloseDialog
  | KeepDialog
  | WithdrawAll
  | TypeAmount
  | AskPreview
  | AskApprove
  | AskDeposit
  | TypeEmail
  | TypePassword
  | SubmitForm
  | ToggleForm

type_synonym view = "client_action markup"

section \<open>Loaders and the banner\<close>

definition spinner :: "string \<Rightarrow> string \<Rightarrow> view" where
  "spinner sz className =
     el ''span'' [cls (''spinner spinner-'' @ sz @ '' '' @ className), (''role'', ''status''), (''aria-label'', ''Loading'')] [] []"

definition smallSpinner :: view where
  "smallSpinner = spinner ''sm'' []"

definition pageLoader :: "string \<Rightarrow> view" where
  "pageLoader label =
     el ''div'' [cls ''page-loader''] []
       [spinner ''md'' [],
        el ''span'' [cls ''muted''] [] [lit label, mark Ellipsis]]"

text \<open>A number is in pixels.\<close>

datatype extent = Px nat | Css string

definition extentText :: "extent \<Rightarrow> string" where
  "extentText x = (case x of Px n \<Rightarrow> showNat n @ ''px'' | Css s \<Rightarrow> s)"

definition style :: "string \<Rightarrow> extent option \<Rightarrow> attrs" where
  "style name x = (case x of Some e \<Rightarrow> [(''style.'' @ name, extentText e)] | None \<Rightarrow> [])"

definition skeleton :: "string \<Rightarrow> extent option \<Rightarrow> extent option \<Rightarrow> view" where
  "skeleton className width height =
     el ''div'' ([cls (''skeleton '' @ className)] @ style ''width'' width @ style ''height'' height @ flag ''aria-hidden'' True) [] []"

definition cardSkeleton :: view where
  "cardSkeleton =
     el ''div'' [cls ''card skeleton-card''] []
       [skeleton [] (Some (Css ''40%'')) (Some (Px 14)),
        skeleton [] (Some (Css ''60%'')) (Some (Px 12)),
        el ''div'' [cls ''skeleton-row''] []
          [skeleton [] (Some (Px 80)) (Some (Px 28)),
           skeleton [] (Some (Px 80)) (Some (Px 28))]]"

definition walletSkeleton :: view where
  "walletSkeleton =
     el ''div'' [cls ''card skeleton-card''] []
       [skeleton [] (Some (Css ''30%'')) (Some (Px 12)),
        skeleton [] (Some (Css ''85%'')) (Some (Px 18)),
        el ''div'' [cls ''skeleton-row''] []
          [skeleton [] (Some (Px 100)) (Some (Px 36)),
           skeleton [] (Some (Px 100)) (Some (Px 36))],
        skeleton [] (Some (Px 140)) (Some (Px 36))]"

definition pageSkeleton :: "nat \<Rightarrow> view" where
  "pageSkeleton k = el ''div'' [cls ''skeleton-grid''] [] [eachM [0..<k] (\<lambda>_. cardSkeleton)]"

definition errorBanner :: "string \<Rightarrow> client_action option \<Rightarrow> view" where
  "errorBanner message onRetry =
     el ''div'' [cls ''error-banner'', (''role'', ''alert'')] []
       [el ''span'' [] [] [lit message],
        someM onRetry (\<lambda>retry. button ''button'' ''btn btn-ghost btn-sm'' False [(''onClick'', retry)] [lit ''Retry''])]"

section \<open>The frame of the application\<close>

record client_user =
  cu_id :: string
  cu_email :: "string option"
  cu_createdAt :: string
  cu_updatedAt :: string

definition navLink :: "string \<Rightarrow> attrs \<Rightarrow> view list \<Rightarrow> view" where
  "navLink target as ms = el ''NavLink'' ((''to'', target) # as) [] ms"

definition layout ::
    "string option \<Rightarrow> bool \<Rightarrow> client_user option \<Rightarrow> client_wallet option \<Rightarrow> view \<Rightarrow> view" where
  "layout env_name testnet user primary outlet =
     el ''div'' [cls ''app''] []
       [whenM testnet
          (el ''div'' [cls ''banner banner-testnet''] []
             [lit ''Testnet '', mark Middot, lit '' '', lit (orElse env_name ''development''), lit '' '', mark Middot,
              lit '' test funds only'']),
        el ''header'' [cls ''header''] []
          [el ''div'' [cls ''header-inner''] []
             [navLink ''/'' [cls ''logo''] [lit ''Earn''],
              el ''nav'' [cls ''nav''] []
                [navLink ''/'' (flag ''end'' True) [lit ''Dashboard''],
                 navLink ''/wallets'' [] [lit ''Wallets''],
                 navLink ''/vaults'' [] [lit ''Vaults''],
                 navLink ''/portfolio'' [] [lit ''Portfolio''],
                 navLink ''/activity'' [] [lit ''Activity'']],
              el ''div'' [cls ''header-actions''] []
                [someM primary (\<lambda>w.
                   navLink ''/wallets'' [cls ''header-wallet muted''] [lit (truncateAddress (cl_walletAddress w))]),
                 el ''span'' [cls ''user-email''] [] [someM (Option.bind user cu_email) lit],
                 button ''button'' ''btn btn-ghost'' False [(''onClick'', SignOut)] [lit ''Sign out'']]]],
        el ''main'' [cls ''main''] [] [outlet]]"

section \<open>Numbers and dates of the browser\<close>

text \<open>
  \<open>parseFloat\<close>, \<open>Number.isNaN\<close>, the arithmetic and comparison of doubles, \<open>toFixed(2)\<close>, and
  \<open>new Date(iso).toLocaleString\<close>; a double is a value of type \<open>'d\<close>.
\<close>

record 'd js_lib =
  js_parseFloat :: "string \<Rightarrow> 'd"
  js_isNaN :: "'d \<Rightarrow> bool"
  js_times :: "'d \<Rightarrow> nat \<Rightarrow> 'd"
  js_over :: "'d \<Rightarrow> nat \<Rightarrow> 'd"
  js_atLeast :: "'d \<Rightarrow> nat \<Rightarrow> bool"
  js_toFixed2 :: "'d \<Rightarrow> string"
  js_localeDate :: "string \<Rightarrow> string"

definition formatApy :: "'d js_lib \<Rightarrow> string \<Rightarrow> string" where
  "formatApy L apy =
     (let num = js_parseFloat L apy
      in if js_isNaN L num then apy else js_toFixed2 L (js_times L num 100) @ ''%'')"

definition formatTvl :: "'d js_lib \<Rightarrow> string \<Rightarrow> nat \<Rightarrow> string res" where
  "formatTvl L baseUnits decimals =
     (case formatAmount baseUnits decimals 2 of
        Inl e \<Rightarrow> Inl e
      | Inr amount \<Rightarrow>
          let num = js_parseFloat L amount
          in Inr (if js_atLeast L num 1000000 then js_toFixed2 L (js_over L num 1000000) @ ''M''
                  else if js_atLeast L num 1000 then js_toFixed2 L (js_over L num 1000) @ ''K''
                  else amount))"

definition formatDate :: "'d js_lib \<Rightarrow> string \<Rightarrow> string" where
  "formatDate L date = js_localeDate L date"

section \<open>Cards\<close>

definition riskName :: "risk_level \<Rightarrow> string" where
  "riskName r = (case r of Low \<Rightarrow> ''low'' | Medium \<Rightarrow> ''medium'' | High \<Rightarrow> ''high'')"

definition vaultCard :: "'d js_lib \<Rightarrow> client_vault \<Rightarrow> view" where
  "vaultCard L vault =
     el ''div'' [cls ''card vault-card''] []
       [el ''div'' [cls ''vault-card-top''] []
          [el ''div'' [] []
             [el ''h3'' [] [] [lit (cv_name vault)],
              el ''p'' [cls ''muted''] [] [lit (cv_assetSymbol vault), lit '' '', mark Middot, lit '' '', lit (cv_protocol vault)]],
           el ''span'' [cls (''badge badge-'' @ riskName (cv_riskLevel vault))] [] [lit (riskName (cv_riskLevel vault))]],
        el ''div'' [cls ''vault-stats''] []
          [el ''div'' [] []
             [el ''span'' [cls ''stat-label''] [] [lit ''APY''],
              el ''span'' [cls ''stat-value stat-apy''] [] [lit (formatApy L (cv_apy vault))]],
           el ''div'' [] []
             [el ''span'' [cls ''stat-label''] [] [lit ''TVL''],
              el ''span'' [cls ''stat-value''] []
                [shownM (formatTvl L (cv_tvl vault) (cv_assetDecimals vault)), lit '' '', lit (cv_assetSymbol vault)]]]]"

definition positionCard :: "client_position \<Rightarrow> view" where
  "positionCard p =
     withM (canWithdraw p) (\<lambda>may.
     el ''div'' [cls ''card position-card''] []
       [el ''div'' [cls ''position-card-top''] []
          [el ''div'' [] []
             [el ''h3'' [] [] [lit (cp_vaultName p)],
              el ''p'' [cls ''muted''] [] [lit (cp_assetSymbol p)]],
           el ''span'' [cls (''status status-'' @ toLowerCase (cp_status p))] [] [lit (cp_status p)]],
        el ''div'' [cls ''position-value''] []
          [el ''span'' [cls ''stat-label''] [] [lit ''Current value''],
           el ''span'' [cls ''stat-value''] []
             [shownM (formatAmount (cp_currentValue p) (cp_assetDecimals p) 6), lit '' '', lit (cp_assetSymbol p)]],
        el ''div'' [cls ''position-meta muted''] []
          [lit ''Deposited '', shownM (formatAmount (cp_depositedAmount p) (cp_assetDecimals p) 4), lit '' '', mark Middot,
           lit '' Share price '', lit (cp_sharePrice p)],
        whenM may
          (button ''button'' ''btn btn-secondary'' False [(''onClick'', OpenWithdraw p)] [lit ''Withdraw''])])"

record client_transaction =
  ct_transactionId :: string
  ct_type :: string
  ct_status :: string
  ct_amount :: string
  ct_chainId :: int
  ct_walletId :: "string option"
  ct_vaultId :: "string option"
  ct_positionId :: "string option"
  ct_txHash :: "string option"
  ct_blockNumber :: "string option"
  ct_explorerUrl :: "string option"
  ct_confirmedAt :: "string option"
  ct_createdAt :: string
  ct_updatedAt :: string

definition transactionRow :: "'d js_lib \<Rightarrow> nat \<Rightarrow> string \<Rightarrow> client_transaction \<Rightarrow> view" where
  "transactionRow L assetDecimals assetSymbol t =
     el ''div'' [cls ''tx-row''] []
       [el ''div'' [cls ''tx-row-main''] []
          [el ''span'' [cls (''tx-type tx-type-'' @ toLowerCase (ct_type t))] [] [lit (ct_type t)],
           el ''span'' [cls ''tx-amount''] []
             [shownM (formatAmount (ct_amount t) assetDecimals 4), lit '' '', lit assetSymbol]],
        el ''div'' [cls ''tx-row-meta''] []
          [el ''span'' [cls (''status status-'' @ toLowerCase (ct_status t))] [] [lit (ct_status t)],
           el ''span'' [cls ''muted''] [] [lit (formatDate L (ct_createdAt t))],
           truthyM (ct_explorerUrl t) (\<lambda>url. newTab url ''link'' [lit ''Explorer''])]]"

text \<open>
  The card of a wallet.  \<open>cd_copied\<close> is set for two seconds once the clipboard has the address.
\<close>

definition card_copied :: "bool \<Rightarrow> card_view \<Rightarrow> card_view" where
  "card_copied b d = d\<lparr>cd_copied := b\<rparr>"

definition balanceItem :: "string \<Rightarrow> string \<Rightarrow> view \<Rightarrow> view" where
  "balanceItem c symbol value =
     el ''div'' [cls ''balance-item''] []
       [el ''span'' [cls ''stat-label''] [] [lit symbol], el ''span'' [cls c] [] [value]]"

definition busyButton :: "string \<Rightarrow> string \<Rightarrow> bool \<Rightarrow> (string \<times> client_action) list \<Rightarrow> string \<Rightarrow> view \<Rightarrow> view" where
  "busyButton kind c busy hs during label =
     button kind c busy hs
       [whenM busy smallSpinner, if busy then seqM [lit during, mark Ellipsis] else label]"

definition walletBalances :: "bool \<Rightarrow> client_wallet \<Rightarrow> view" where
  "walletBalances isPending w =
     (case cl_balances w of
        Some bs \<Rightarrow> eachM bs (\<lambda>b. balanceItem ''stat-value'' (cb_symbol b)
                     (if isPending then mark EmDash else shownM (formatAmount (cb_balance b) (cb_decimals b) 4)))
      | None \<Rightarrow> seqM [balanceItem ''stat-value muted'' ''ETH'' (mark EmDash),
                      balanceItem ''stat-value muted'' ''USDC'' (mark EmDash)])"

definition walletCard :: "wallet_view \<Rightarrow> card_view \<Rightarrow> bool \<Rightarrow> client_wallet \<Rightarrow> view" where
  "walletCard v d isPending w =
     el ''div'' [cls (''card wallet-card '' @ (if isPending then ''card-pending'' else ''''))] []
       [el ''div'' [cls ''wallet-card-inner''] []
          [el ''div'' [cls ''wallet-card-accent''] []
             [el ''div'' (cls ''wallet-card-icon'' # flag ''aria-hidden'' True) [] [mark Diamond],
              el ''div'' [cls ''wallet-card-header''] []
                [el ''span'' [cls ''wallet-card-type''] [] [lit ''Embedded wallet''],
                 el ''div'' [cls ''wallet-address-row''] []
                   [el ''code'' [cls ''wallet-address''] [] [lit (cl_walletAddress w)],
                    button ''button'' ''btn btn-ghost btn-sm'' isPending [(''onClick'', CopyAddress (cl_walletAddress w))]
                      [lit (if cd_copied d then ''Copied'' else ''Copy'')]]],
              whenM (cl_isPrimary w) (el ''span'' [cls ''badge badge-low''] [] [lit ''Primary''])],
           el ''div'' [cls ''wallet-chain-pill''] []
             [lit (cardChain v w),
              whenM isPending (seqM [lit '' '', mark Middot, lit '' Creating'', mark Ellipsis])],
           el ''div'' [cls ''wallet-balances''] []
             [walletBalances isPending w]],
        el ''div'' [cls ''wallet-actions''] []
          [whenM (\<not> isPending)
             (truthyM (wallet_explorerUrl v (cl_chainId w) (cl_walletAddress w)) (\<lambda>explorer.
                newTab explorer ''btn btn-secondary btn-sm'' [lit ''Explorer''])),
           whenM (isTestnetView (wv_environment v) \<and> \<not> isPending)
             (busyButton ''button'' ''btn btn-secondary btn-sm'' (cd_fauceting d) [(''onClick'', AskFaucet (cl_walletId w))]
                ''Minting'' (lit ''Get test USDC'')),
           whenM (\<not> isPending)
             (busyButton ''button'' ''btn btn-ghost btn-sm'' (cd_verifying d) [(''onClick'', AskVerify (cl_walletId w))]
                ''Verifying'' (lit ''Verify signing''))],
        truthyM (cd_actionError d) (\<lambda>message. el ''p'' [cls ''error''] [] [lit message])]"

section \<open>The dialogs\<close>

definition stepIndex :: "flow_step \<Rightarrow> nat" where
  "stepIndex st = (case st of AmountStep \<Rightarrow> 0 | ApproveStep \<Rightarrow> 1 | DepositStep \<Rightarrow> 2 | DoneStep \<Rightarrow> 3)"

text \<open>The labels of the indicator, each with whether its dot is active: by its index among the labels that are shown.\<close>

definition stepDots :: "deposit_flow \<Rightarrow> (string \<times> bool) list" where
  "stepDots f =
     (let labels = [''Amount''] @ (if df_requiresApproval f then [''Approve''] else []) @ [''Deposit'', ''Done'']
      in map (\<lambda>i. (labels ! i, i \<le> stepIndex (df_step f))) [0..<length labels])"

definition depositAmount :: "client_vault \<Rightarrow> deposit_flow \<Rightarrow> view" where
  "depositAmount vault f =
     el ''p'' [cls ''muted''] []
       [shownM (formatAmount (df_baseAmount f) (cv_assetDecimals vault) 4), lit '' '', lit (cv_assetSymbol vault)]"

definition usdcBalance :: "client_wallet \<Rightarrow> client_balance option" where
  "usdcBalance w = Option.bind (cl_balances w) (find (\<lambda>b. cb_symbol b = ''USDC''))"

definition stepIndicator :: "deposit_flow \<Rightarrow> view" where
  "stepIndicator f =
     el ''div'' [cls ''step-indicator''] []
       [eachM (stepDots f) (\<lambda>(label, active).
          el ''span'' [cls (''step-dot '' @ (if active then ''step-dot-active'' else []))] [] [lit label])]"

definition balanceLine :: "client_wallet \<Rightarrow> view" where
  "balanceLine w =
     someM (usdcBalance w) (\<lambda>b.
       el ''p'' [cls ''muted''] []
         [lit ''Balance:'', lit '' '', shownM (formatAmount (cb_balance b) (cb_decimals b) 4), lit '' '', lit (cb_symbol b)])"

definition depositFlow :: "client_vault \<Rightarrow> client_wallet \<Rightarrow> deposit_flow \<Rightarrow> view" where
  "depositFlow vault w f =
     el ''div'' [cls ''deposit-flow''] []
       [stepIndicator f,
        whenM (df_step f = AmountStep)
          (el ''form'' [cls ''form''] [(''onSubmit'', AskPreview)]
             [el ''label'' [cls ''label''] []
                [lit ''Amount ('', lit (cv_assetSymbol vault), lit '')'',
                 el ''input'' ([(''type'', ''text''), (''inputMode'', ''decimal''), (''placeholder'', ''0.00''),
                               (''value'', df_amountInput f), cls ''input''] @ flag ''autoFocus'' True)
                   [(''onChange'', TypeAmount)] []],
              balanceLine w,
              busyButton ''submit'' ''btn btn-primary'' (df_loading f) [] ''Checking'' (lit ''Continue'')]),
        whenM (df_step f = ApproveStep)
          (el ''div'' [cls ''step-panel''] []
             [el ''p'' [] [] [lit ''Approve '', lit (cv_assetSymbol vault), lit '' spending for this vault.''],
              depositAmount vault f,
              busyButton ''button'' ''btn btn-primary'' (df_loading f) [(''onClick'', AskApprove)] ''Approving'' (lit ''Approve'')]),
        whenM (df_step f = DepositStep)
          (el ''div'' [cls ''step-panel''] []
             [el ''p'' [] [] [lit (if df_requiresApproval f then ''Approval complete. Confirm deposit.'' else ''Confirm your deposit.'')],
              depositAmount vault f,
              busyButton ''button'' ''btn btn-primary'' (df_loading f) [(''onClick'', AskDeposit)] ''Depositing'' (lit ''Deposit'')]),
        whenM (df_step f = DoneStep)
          (el ''div'' [cls ''step-panel success-panel''] []
             [el ''p'' [] [] [lit ''Deposit submitted successfully.''],
              truthyM (df_explorerUrl f) (\<lambda>url. newTab url ''link'' [lit ''View on explorer''])]),
        truthyM (df_error f) (\<lambda>message. el ''p'' [cls ''error''] [] [lit message])]"

definition withdrawModal :: "client_position \<Rightarrow> withdraw_modal \<Rightarrow> view" where
  "withdrawModal p m =
     el ''div'' [cls ''modal-overlay''] [(''onClick'', CloseDialog)]
       [el ''div'' [cls ''modal modal-withdraw''] [(''onClick'', KeepDialog)]
          [el ''div'' [cls ''modal-withdraw-header''] []
             [el ''h2'' [] [] [lit ''Withdraw''],
              button ''button'' ''btn btn-ghost'' False [(''onClick'', CloseDialog)] [mark TimesSign]],
           el ''div'' [cls ''modal-withdraw-body''] []
             [if \<not> wm_done m
              then seqM
                [el ''p'' [cls ''modal-withdraw-desc''] []
                   [lit ''Withdraw all from '', el ''strong'' [] [] [lit (cp_vaultName p)]],
                 el ''div'' [cls ''modal-withdraw-amount''] []
                   [el ''p'' [cls ''stat-value''] [] [shownM (formatAmount (cp_currentValue p) (cp_assetDecimals p) 6)],
                    el ''span'' [cls ''stat-label''] [] [lit (cp_assetSymbol p)]],
                 busyButton ''button'' ''btn btn-primary'' (wm_loading m) [(''onClick'', WithdrawAll)] ''Withdrawing''
                   (lit ''Withdraw all''),
                 truthyM (wm_error m) (\<lambda>message. el ''p'' [cls ''error''] [] [lit message])]
              else el ''div'' [cls ''success-panel''] []
                [el ''p'' [] [] [lit ''Withdrawal submitted.''],
                 truthyM (wm_explorerUrl m) (\<lambda>url. newTab url ''link'' [lit ''View on explorer''])]]]]"

section \<open>What is offered\<close>

lemmas view_parts = busyButton_def button_def smallSpinner_def spinner_def newTab_def depositAmount_def balanceItem_def

lemma attrOf_simps [simp]:
  "attrOf n [] = None" "attrOf n ((m, v) # as) = (if m = n then Some v else attrOf n as)"
  "attrOf n (flag m b @ as) = (if b \<and> m = n then Some '''' else attrOf n as)" "attrOf n (flag m b) = (if b \<and> m = n then Some '''' else None)"
  "attrOf n (cls c # as) = (if n = ''className'' then Some c else attrOf n as)"
  by (auto simp: attrOf_def flag_def cls_def)

lemma offers_whenM [simp]: "offers (whenM b m) = (if b then offers m else [])"
  by (simp add: whenM_def)

lemma offers_truthy: "(\<And>s. offers (f s) = []) \<Longrightarrow> offers (truthyM x f) = []"
  by (simp add: truthyM_def split: option.split list.split)

lemma offers_someM: "(\<And>s. offers (f s) = []) \<Longrightarrow> offers (someM x f) = []"
  by (simp add: someM_def split: option.split)

lemma offers_eachM: "renders (eachM xs f) \<Longrightarrow> (\<And>x. x \<in> set xs \<Longrightarrow> offers (f x) = []) \<Longrightarrow> offers (eachM xs f) = []"
  using offers_seqM [of "map f xs"] by (simp add: eachM_def list_all_iff)

lemma submits_rules [simp]:
  "submits (whenM b m) \<longleftrightarrow> b \<and> submits m"
  by (simp add: whenM_def)

lemma submits_someM: "(\<And>s. \<not> submits (f s)) \<Longrightarrow> \<not> submits (someM x f)"
  by (simp add: someM_def split: option.split)

text \<open>The parts of the views: when they render and what they offer.\<close>

lemma busy_button [simp]:
  "renders (busyButton kind c busy hs during (lit label))"
  "offers (busyButton kind c busy hs during (lit label)) = (if busy then [] else map snd hs)"
  "submits (busyButton kind c busy hs during (lit label)) \<longleftrightarrow> kind = ''submit'' \<and> \<not> busy"
  by (simp_all add: view_parts offers_el submits_el submits_seqM offers_seqM)

lemma plain_button [simp]:
  "renders (button kind c disabled hs [lit label])" "renders (button kind c disabled hs [mark x])"
  "offers (button kind c disabled hs [lit label]) = (if disabled then [] else map snd hs)"
  "offers (button kind c disabled hs [mark x]) = (if disabled then [] else map snd hs)"
  by (simp_all add: button_def offers_el)

lemma error_line [simp]:
  "\<not> submits (truthyM e (\<lambda>message. el ''p'' [cls c] [] [lit message]))"
  "renders (truthyM e (\<lambda>message. el ''p'' [cls c] [] [lit message]))"
  "offers (truthyM e (\<lambda>message. el ''p'' [cls c] [] [lit message])) = []"
  by (simp_all add: renders_truthy offers_truthy offers_el submits_el) (simp add: truthyM_def submits_el split: option.split list.split)

lemma outside_link [simp]:
  "renders (truthyM e (\<lambda>url. newTab url c [lit label]))" "offers (truthyM e (\<lambda>url. newTab url c [lit label])) = []"
  by (simp_all add: renders_truthy offers_truthy offers_el newTab_def)

lemma step_indicator [simp]: "renders (stepIndicator f)" "offers (stepIndicator f) = []"
proof -
  have "renders (eachM (stepDots f) (\<lambda>(label, active). el ''span'' [cls (''step-dot '' @ (if active then ''step-dot-active'' else []))] [] [lit label] :: view))"
    by (auto split: prod.split)
  then show "renders (stepIndicator f)" "offers (stepIndicator f) = []"
    unfolding stepIndicator_def by (simp_all add: offers_el) (rule offers_eachM; auto simp: offers_el split: prod.split)
qed

lemma balance_line [simp]:
  "renders (balanceLine w) \<longleftrightarrow> (\<forall>b. usdcBalance w = Some b \<longrightarrow> (\<exists>s. formatAmount (cb_balance b) (cb_decimals b) 4 = Inr s))"
  "offers (balanceLine w) = []" "\<not> submits (balanceLine w)"
proof -
  show "renders (balanceLine w) \<longleftrightarrow> (\<forall>b. usdcBalance w = Some b \<longrightarrow> (\<exists>s. formatAmount (cb_balance b) (cb_decimals b) 4 = Inr s))"
    by (simp add: balanceLine_def)
  have "offers (el tag as [] [lit a, lit b, shownM r, lit c, lit d] :: view) = [] \<and> \<not> submits (el tag as [] [lit a, lit b, shownM r, lit c, lit d] :: view)"
    if "tag = ''p''" for tag as a b c d r
    using that by (cases r) (simp_all add: el_def shownM_def lit_def offers_def submits_def seqM.simps)
  then show "offers (balanceLine w) = []" "\<not> submits (balanceLine w)"
    unfolding balanceLine_def by (intro offers_someM submits_someM; simp)+
qed

lemma deposit_amount [simp]:
  "renders (depositAmount vault f) \<longleftrightarrow> (\<exists>s. formatAmount (df_baseAmount f) (cv_assetDecimals vault) 4 = Inr s)"
  "renders (depositAmount vault f) \<Longrightarrow> offers (depositAmount vault f) = []"
  by (simp_all add: depositAmount_def offers_el)

lemma renders_depositFlow:
  "renders (depositFlow vault w f) \<longleftrightarrow>
     (case df_step f of
        AmountStep \<Rightarrow> \<forall>b. usdcBalance w = Some b \<longrightarrow> (\<exists>s. formatAmount (cb_balance b) (cb_decimals b) 4 = Inr s)
      | DoneStep \<Rightarrow> True
      | _ \<Rightarrow> \<exists>s. formatAmount (df_baseAmount f) (cv_assetDecimals vault) 4 = Inr s)"
  by (cases "df_step f") (simp_all add: depositFlow_def)

lemma offers_depositFlow:
  assumes "renders (depositFlow vault w f)"
  shows "offers (depositFlow vault w f) =
    (case df_step f of
       AmountStep \<Rightarrow> (if df_loading f then [] else [AskPreview]) @ [TypeAmount]
     | ApproveStep \<Rightarrow> if df_loading f then [] else [AskApprove]
     | DepositStep \<Rightarrow> if df_loading f then [] else [AskDeposit]
     | DoneStep \<Rightarrow> [])"
  using assms
  by (cases "df_step f") (simp_all add: depositFlow_def offers_el offers_form submits_el)

lemma offers_withdrawModal:
  assumes "renders (withdrawModal p m)"
  shows "offers (withdrawModal p m) =
    [CloseDialog, KeepDialog, CloseDialog] @ (if wm_done m \<or> wm_loading m then [] else [WithdrawAll])"
  using assms by (cases "wm_done m") (simp_all add: withdrawModal_def offers_el offers_seqM)

lemma renders_withdrawModal:
  "renders (withdrawModal p m) \<longleftrightarrow> wm_done m \<or> (\<exists>s. formatAmount (cp_currentValue p) (cp_assetDecimals p) 6 = Inr s)"
  by (cases "wm_done m") (simp_all add: withdrawModal_def)

text \<open>
  The dots are counted among the labels that are shown, the step among all four: without an approval the
  indicator is ahead by one, and shows \<open>Done\<close> before the deposit was confirmed.
\<close>

lemma dots_ahead:
  "df_step f = DepositStep \<Longrightarrow> \<not> df_requiresApproval f \<Longrightarrow> stepDots f = [(''Amount'', True), (''Deposit'', True), (''Done'', True)]"
  by (simp add: stepDots_def stepIndex_def upt_rec)

text \<open>What a wallet's card offers, against \<open>walletActions\<close>.\<close>

lemma offers_walletCard:
  assumes "renders (walletCard v d isPending w)"
  shows "set (offers (walletCard v d isPending w)) =
    (if isPending then {} else {CopyAddress (cl_walletAddress w)}
       \<union> (if fst (snd (walletActions v w isPending)) \<and> \<not> cd_fauceting d then {AskFaucet (cl_walletId w)} else {})
       \<union> (if snd (snd (walletActions v w isPending)) \<and> \<not> cd_verifying d then {AskVerify (cl_walletId w)} else {}))"
proof -
  have balances: "offers (walletBalances b w) = []" if "renders (walletBalances b w)" for b
    using that unfolding walletBalances_def
    by (cases "cl_balances w") (auto simp: balanceItem_def offers_seqM offers_el intro!: offers_eachM)
  show ?thesis
    using assms
    by (cases isPending) (simp_all add: walletCard_def offers_el balances walletActions_def offers_seqM insert_commute)
qed

end
