(* ===== verification/Pages.thy ===== *)
theory Pages
  imports Components
begin

text \<open>
  The pages of \<^verbatim>\<open>frontend/src/pages\<close> as markup, and the whole client, \<^verbatim>\<open>App.tsx\<close>: the routes over the pages, each behind
  its loader until its code has come in.
\<close>

section \<open>Pages\<close>

definition pageHeader :: "string \<Rightarrow> view list \<Rightarrow> view" where
  "pageHeader title rest = el ''header'' [cls ''page-header''] [] (el ''h1'' [] [] [lit title] # rest)"

definition linkTo :: "string \<Rightarrow> string \<Rightarrow> view list \<Rightarrow> view" where
  "linkTo target c ms = el ''Link'' [(''to'', target), cls c] [] ms"

definition navigateTo :: "string \<Rightarrow> view" where
  "navigateTo target = el ''Navigate'' ((''to'', target) # flag ''replace'' True) [] []"

definition pageError :: "'d async_view \<Rightarrow> view" where
  "pageError v = truthyM (av_error v) (\<lambda>message. errorBanner message (Some RetryLoad))"

definition vaultLinks :: "'d js_lib \<Rightarrow> client_vault list \<Rightarrow> view" where
  "vaultLinks L vs =
     el ''div'' [cls ''vault-grid''] []
       [eachM vs (\<lambda>v. linkTo (''/vaults/'' @ cv_vaultId v) ''vault-link'' [vaultCard L v])]"

definition sectionHeader :: "string \<Rightarrow> string \<Rightarrow> string \<Rightarrow> view" where
  "sectionHeader title target label =
     el ''div'' [cls ''section-header''] [] [el ''h2'' [] [] [lit title], linkTo target ''link'' [lit label]]"

definition walletSummary :: "client_wallet \<Rightarrow> view" where
  "walletSummary w =
     linkTo ''/wallets'' ''card wallet-summary vault-link''
       [el ''span'' [cls ''stat-label''] [] [lit ''Primary wallet''],
        el ''span'' [cls ''wallet-address-sm''] [] [lit (truncateAddress (cl_walletAddress w))],
        el ''div'' [cls ''wallet-balances-inline''] []
          [someM (cl_balances w) (\<lambda>bs. eachM bs (\<lambda>b.
             el ''span'' [cls ''muted''] []
               [shownM (formatAmount (cb_balance b) (cb_decimals b) 2), lit '' '', lit (cb_symbol b)]))]]"

definition dashboardWallet :: "bool \<Rightarrow> wallet_view \<Rightarrow> view" where
  "dashboardWallet busy v =
     el ''section'' [cls ''section''] []
       [sectionHeader ''Wallet'' ''/wallets'' ''Manage'',
        if \<not> busy \<and> primaryWallet v = None
        then el ''div'' [cls ''card empty-card''] []
          [el ''p'' [] [] [lit ''No wallet yet.''], linkTo ''/wallets'' ''btn btn-primary'' [lit ''Create wallet'']]
        else if busy
        then el ''div'' [cls ''card wallet-summary skeleton-card''] []
          [el ''div'' (cls ''skeleton'' # style ''height'' (Some (Px 14)) @ style ''width'' (Some (Css ''40%''))) [] [],
           el ''div'' (cls ''skeleton'' # style ''height'' (Some (Px 20)) @ style ''width'' (Some (Css ''60%''))
                       @ style ''marginTop'' (Some (Px 8))) [] []]
        else someM (primaryWallet v) walletSummary]"

definition dashboardPortfolio :: "bool \<Rightarrow> client_position list \<Rightarrow> view" where
  "dashboardPortfolio busy held =
     el ''section'' [cls ''section''] []
       [sectionHeader ''Portfolio'' ''/portfolio'' ''View all'',
        if busy
        then el ''div'' [cls ''card skeleton-card''] []
          [el ''div'' (cls ''skeleton'' # style ''height'' (Some (Px 12)) @ style ''width'' (Some (Px 80))) [] [],
           el ''div'' (cls ''skeleton'' # style ''height'' (Some (Px 28)) @ style ''width'' (Some (Px 140))
                       @ style ''marginTop'' (Some (Px 8))) [] []]
        else if held = [] then el ''p'' [cls ''muted''] [] [lit ''No active positions.'']
        else el ''div'' [cls ''summary-card card''] []
          [el ''span'' [cls ''stat-label''] [] [lit ''Total value''],
           el ''span'' [cls ''stat-value stat-large''] [] [shownM (shownTotal held)],
           el ''span'' [cls ''muted''] [] [lit (showNat (length held)), lit '' position(s)'']]]"

definition dashboardVaults :: "'d js_lib \<Rightarrow> bool \<Rightarrow> client_vault list \<Rightarrow> view" where
  "dashboardVaults L busy shelf =
     el ''section'' [cls ''section''] []
       [sectionHeader ''Vaults'' ''/vaults'' ''View all'', if busy then pageSkeleton 2 else vaultLinks L shelf]"

definition dashboardPage ::
    "'d js_lib \<Rightarrow> wallet_view \<Rightarrow> (client_vault list \<times> client_position list) async_view \<Rightarrow> view" where
  "dashboardPage L v a =
     (let held = (case av_data a of Some (vs, ps) \<Rightarrow> ps | None \<Rightarrow> []);
          shelf = (case av_data a of Some (vs, ps) \<Rightarrow> vs | None \<Rightarrow> []);
          busy = (av_loading a \<or> wv_loading v)
      in withM (totalValue 0 held) (\<lambda>_.
           el ''div'' [cls ''page''] []
             [pageHeader ''Dashboard'' [el ''p'' [cls ''muted''] [] [lit ''Overview of your wallet, positions, and vaults.'']],
              pageError a,
              dashboardWallet busy v,
              dashboardPortfolio busy held,
              dashboardVaults L busy shelf]))"

definition createButton :: "string \<Rightarrow> wallet_view \<Rightarrow> view \<Rightarrow> view" where
  "createButton c v label = busyButton ''button'' c (wv_creating v) [(''onClick'', AskWallet)] ''Creating'' label"

definition walletsPage :: "wallet_view \<Rightarrow> (string \<Rightarrow> card_view) \<Rightarrow> view" where
  "walletsPage v cards =
     el ''div'' [cls ''page''] []
       [el ''header'' [cls ''page-header page-header-row''] []
          [el ''div'' [] []
             [el ''h1'' [] [] [lit ''Wallets''],
              el ''p'' [cls ''muted''] []
                [lit ''Privy embedded wallets '', mark Middot, lit '' new wallets created on'', lit '' '',
                 el ''strong'' [] [] [lit (wallet_createChainName v)], lit '' (chain '', lit (showInt (wallet_createChainId v)), lit '')'']],
           createButton ''btn btn-primary'' v (lit ''Create wallet'')],
        whenM (wv_creating v)
          (el ''p'' [cls ''info-banner''] []
             [lit ''Creating wallet via Privy '', mark EmDash, lit '' this can take up to 60 seconds. Please wait'', mark Ellipsis]),
        truthyM (wv_error v) (\<lambda>message. errorBanner message (Some RetryLoad)),
        if wv_loading v then el ''div'' [cls ''wallet-list''] [] [walletSkeleton]
        else if wv_wallets v = []
        then el ''div'' [cls ''card empty-card''] []
          [el ''p'' [] [] [lit ''No wallets yet. Create one to deposit and earn yield.''],
           whenM (\<not> isTestnetView (wv_environment v))
             (el ''p'' [cls ''muted''] []
                [lit ''Mainnet mode '', mark EmDash, lit '' fund with real ETH (gas) and USDC after creating.'']),
           createButton ''btn btn-primary'' v (lit (''Create wallet on '' @ wallet_createChainName v))]
        else el ''div'' [cls ''wallet-list''] []
          [eachM (walletCards v) (\<lambda>(w, isPending). walletCard v (cards (cl_walletId w)) isPending w)]]"

definition vaultsPage ::
    "'d js_lib \<Rightarrow> wallet_view \<Rightarrow> (client_vault list \<times> client_vault option) async_view \<Rightarrow> deposit_flow \<Rightarrow> view" where
  "vaultsPage L v a f =
     (let shelf = (case av_data a of Some (vs, x) \<Rightarrow> vs | None \<Rightarrow> []);
          chosen = (case av_data a of Some (vs, x) \<Rightarrow> x | None \<Rightarrow> None)
      in if av_loading a then el ''div'' [cls ''page''] [] [pageHeader ''Vaults'' [], pageSkeleton 3]
         else case chosen of
           Some vault \<Rightarrow>
             el ''div'' [cls ''page''] []
               [linkTo ''/vaults'' ''back-btn link'' [mark LeftArrow, lit '' Vaults''],
                pageHeader (cv_name vault)
                  [el ''p'' [cls ''muted''] []
                     [lit (cv_assetSymbol vault), lit '' '', mark Middot, lit '' '', lit (formatApy L (cv_apy vault)), lit '' APY '',
                      mark Middot, lit '' TVL'', lit '' '', shownM (formatTvl L (cv_tvl vault) (cv_assetDecimals vault)), lit '' '',
                      lit (cv_assetSymbol vault)]],
                (case vaultPanel (Some vault) (primaryWallet v) of
                   DepositPanel q w \<Rightarrow>
                     el ''div'' [cls ''card''] [] [el ''h2'' [cls ''section-title''] [] [lit ''Deposit''], depositFlow q w f]
                 | _ \<Rightarrow>
                     el ''div'' [cls ''card empty-card''] []
                       [el ''p'' [] [] [lit ''Create a wallet before depositing.''],
                        linkTo ''/wallets'' ''btn btn-primary'' [lit ''Go to Wallets'']])]
         | None \<Rightarrow>
             el ''div'' [cls ''page''] []
               [pageHeader ''Vaults'' [el ''p'' [cls ''muted''] [] [lit ''Supply assets to Aave V3 and earn yield.'']],
                pageError a,
                vaultLinks L shelf])"

definition portfolioPage ::
    "wallet_view \<Rightarrow> client_position list async_view \<Rightarrow> client_position option \<Rightarrow> withdraw_modal \<Rightarrow> view" where
  "portfolioPage v a withdrawTarget m =
     (let held = portfolioActive (case av_data a of Some ps \<Rightarrow> ps | None \<Rightarrow> [])
      in withM (totalValue 0 held) (\<lambda>_.
      if av_loading a then el ''div'' [cls ''page''] [] [pageHeader ''Portfolio'' [], pageSkeleton 2]
      else el ''div'' [cls ''page''] []
        [pageHeader ''Portfolio''
           [whenM (held \<noteq> []) (el ''p'' [cls ''stat-value stat-large''] [] [shownM (shownTotal held)])],
         pageError a,
         if held = []
         then el ''div'' [cls ''card empty-card''] []
           [el ''p'' [cls ''muted''] [] [lit ''No positions yet.''], linkTo ''/vaults'' ''btn btn-primary'' [lit ''Browse vaults'']]
         else el ''div'' [cls ''position-grid''] [] [eachM held positionCard],
         someM (portfolioDialog withdrawTarget (primaryWallet v)) (\<lambda>(p, w). withdrawModal p m)]))"

definition activityPage :: "'d js_lib \<Rightarrow> client_transaction list async_view \<Rightarrow> view" where
  "activityPage L a =
     (let rows = (case av_data a of Some ts \<Rightarrow> ts | None \<Rightarrow> [])
      in el ''div'' [cls ''page''] []
        [pageHeader ''Activity'' [el ''p'' [cls ''muted''] [] [lit ''Your on-chain transactions.'']],
         pageError a,
         if av_loading a
         then el ''div'' [cls ''tx-list''] []
           [eachM [0..<5] (\<lambda>_. el ''div'' [cls ''tx-row skeleton-card''] []
              [skeleton [] (Some (Css ''30%'')) (Some (Px 14)), skeleton [] (Some (Css ''50%'')) (Some (Px 12))])]
         else if rows = [] then el ''p'' [cls ''muted''] [] [lit ''No transactions yet.'']
         else el ''div'' [cls ''tx-list''] [] [eachM rows (transactionRow L 6 ''USDC'')]])"

definition credential :: "string \<Rightarrow> attrs \<Rightarrow> client_action \<Rightarrow> view" where
  "credential label as a = el ''label'' [cls ''label''] [] [lit label, el ''input'' as [(''onChange'', a)] []]"

definition loginForm :: "login_form \<Rightarrow> view" where
  "loginForm f =
     el ''div'' [cls ''auth-page''] []
       [el ''div'' [cls ''auth-card''] []
          [el ''h1'' [] [] [lit ''Earn''],
           el ''p'' [cls ''muted''] [] [lit ''Deposit stablecoins. Earn yield on Aave.''],
           el ''form'' [cls ''form''] [(''onSubmit'', SubmitForm)]
             [credential ''Email''
                ([(''type'', ''email''), (''value'', lf_email f), cls ''input''] @ flag ''required'' True @ [(''autoComplete'', ''email'')])
                TypeEmail,
              credential ''Password''
                ([(''type'', ''password''), (''value'', lf_password f), cls ''input''] @ flag ''required'' True @ [(''minLength'', ''8''),
                  (''autoComplete'', if lf_mode f = LoginMode then ''current-password'' else ''new-password'')])
                TypePassword,
              truthyM (lf_error f) (\<lambda>message. el ''p'' [cls ''error''] [] [lit message]),
              busyButton ''submit'' ''btn btn-primary'' (lf_submitting f) [] ''Please wait''
                (lit (if lf_mode f = LoginMode then ''Sign in'' else ''Create account''))],
           button ''button'' ''btn btn-ghost auth-toggle'' False [(''onClick'', ToggleForm)]
             [lit (if lf_mode f = LoginMode then ''Need an account? Register'' else ''Already have an account? Sign in'')]]]"

definition loginView :: "(client_user, 'w) auth_view \<Rightarrow> login_form \<Rightarrow> view" where
  "loginView v f =
     (case loginPage v of
        LoaderView \<Rightarrow> pageLoader ''Loading''
      | RedirectTo target \<Rightarrow> navigateTo target
      | _ \<Rightarrow> loginForm f)"

section \<open>The client\<close>

record ('d, 'w) client =
  cx_lib :: "'d js_lib"
  cx_auth :: "(client_user, 'w) auth_view"
  cx_env :: "client_environment option"
  cx_wallets :: wallet_view
  cx_cards :: "string \<Rightarrow> card_view"
  cx_dashboard :: "(client_vault list \<times> client_position list) async_view"
  cx_vaults :: "(client_vault list \<times> client_vault option) async_view"
  cx_flow :: deposit_flow
  cx_positions :: "client_position list async_view"
  cx_target :: "client_position option"
  cx_modal :: withdraw_modal
  cx_activity :: "client_transaction list async_view"
  cx_form :: login_form
  cx_loaded :: "page \<Rightarrow> bool"

definition suspense :: "bool \<Rightarrow> view \<Rightarrow> view" where
  "suspense loaded m = (if loaded then m else pageLoader ''Loading'')"

definition pageView :: "('d, 'w) client \<Rightarrow> page \<Rightarrow> view" where
  "pageView c p =
     suspense (cx_loaded c (case p of VaultsPage _ \<Rightarrow> VaultsPage None | _ \<Rightarrow> p))
       (case p of
          LoginForm \<Rightarrow> loginView (cx_auth c) (cx_form c)
        | Dashboard \<Rightarrow> dashboardPage (cx_lib c) (cx_wallets c) (cx_dashboard c)
        | WalletsPage \<Rightarrow> walletsPage (cx_wallets c) (cx_cards c)
        | VaultsPage _ \<Rightarrow> vaultsPage (cx_lib c) (cx_wallets c) (cx_vaults c) (cx_flow c)
        | PortfolioPage \<Rightarrow> portfolioPage (cx_wallets c) (cx_positions c) (cx_target c) (cx_modal c)
        | ActivityPage \<Rightarrow> activityPage (cx_lib c) (cx_activity c))"

definition protectedView :: "(client_user, 'w) auth_view \<Rightarrow> view \<Rightarrow> view" where
  "protectedView v children =
     (case protectedRoute v of
        LoaderView \<Rightarrow> pageLoader ''Authenticating''
      | RedirectTo target \<Rightarrow> navigateTo target
      | _ \<Rightarrow> children)"

definition appView :: "('d, 'w) client \<Rightarrow> string list \<Rightarrow> view" where
  "appView c segments =
     (case pageOf segments of
        None \<Rightarrow> navigateTo ''/''
      | Some LoginForm \<Rightarrow> pageView c LoginForm
      | Some p \<Rightarrow>
          protectedView (cx_auth c)
            (layout (map_option ce_environment (cx_env c)) (isTestnetView (cx_env c)) (ax_user (cx_auth c))
               (primaryWallet (cx_wallets c)) (pageView c p)))"

section \<open>Links\<close>

text \<open>
  A link of the client leads to one of its pages, a link that opens another site in a new tab does not hand it
  this one (\<open>noopener noreferrer\<close>), and no button submits a form by accident.
\<close>

definition segmentsOf :: "string \<Rightarrow> string list" where
  "segmentsOf path = filter (\<lambda>s. s \<noteq> []) (splitOn (CHR ''/'') path)"

definition leadsTo :: "string \<Rightarrow> bool" where
  "leadsTo path \<longleftrightarrow> pageOf (segmentsOf path) \<noteq> None"

definition wellLinked :: "string \<Rightarrow> attrs \<Rightarrow> bool" where
  "wellLinked tag as \<longleftrightarrow>
     (tag \<in> {''Link'', ''NavLink'', ''Navigate''} \<longrightarrow> (\<exists>t. attrOf ''to'' as = Some t \<and> leadsTo t))
     \<and> (attrOf ''target'' as \<noteq> None \<longrightarrow> attrOf ''rel'' as = Some ''noopener noreferrer'')
     \<and> (tag = ''button'' \<longrightarrow> attrOf ''type'' as \<in> {Some ''button'', Some ''submit''})"

lemma attrOf_append: "attrOf n (as @ bs) = (case attrOf n as of Some v \<Rightarrow> Some v | None \<Rightarrow> attrOf n bs)"
  by (simp add: attrOf_def map_add_def split: option.split)

lemma attrOf_style: "hd n \<noteq> CHR ''s'' \<Longrightarrow> attrOf n (style m x @ as) = attrOf n as" "hd n \<noteq> CHR ''s'' \<Longrightarrow> attrOf n (style m x) = None"
  by (auto simp: style_def attrOf_def split: option.split)

lemma segments:
  "segmentsOf ''/'' = []" "segmentsOf ''/login'' = [''login'']" "segmentsOf ''/wallets'' = [''wallets'']"
  "segmentsOf ''/vaults'' = [''vaults'']" "segmentsOf ''/portfolio'' = [''portfolio'']" "segmentsOf ''/activity'' = [''activity'']"
  by code_simp+

lemma vault_segments:
  assumes "CHR ''/'' \<notin> set i"
  shows "leadsTo (''/vaults/'' @ i)"
proof -
  have "splitOn (CHR ''/'') (''/vaults/'' @ i) = [[], ''vaults'', i]"
    using splitOn_free [of "CHR ''/''" "''vaults''" i] splitOn_whole [OF assms] splitOn_free [of "CHR ''/''" "[]"] by simp
  then show ?thesis by (simp add: segmentsOf_def pageOf_def leadsTo_def)
qed

lemmas vault_leads = vault_segments [simplified]

lemmas linked_defs = wellLinked_def attrOf_style attrOf_append segments pageOf_def

text \<open>The rules for what links, presses and navigates; all other elements are well linked by their tag.\<close>

lemma linked_el:
  "tag \<notin> {''Link'', ''NavLink'', ''Navigate'', ''button''} \<Longrightarrow> attrOf ''target'' as = None \<Longrightarrow>
   list_all (everyE wellLinked) ms \<Longrightarrow> everyE wellLinked (el tag as hs ms)"
  by (rule everyE_el) (simp_all add: wellLinked_def)

lemma linked_button: "kind \<in> {''button'', ''submit''} \<Longrightarrow> list_all (everyE wellLinked) ms \<Longrightarrow> everyE wellLinked (button kind c d hs ms)"
  unfolding button_def by (rule everyE_el) (auto simp: linked_defs)

lemma linked_newTab: "list_all (everyE wellLinked) ms \<Longrightarrow> everyE wellLinked (newTab url c ms)"
  unfolding newTab_def by (rule everyE_el) (simp_all add: linked_defs)

lemma linked_to: "leadsTo t \<Longrightarrow> list_all (everyE wellLinked) ms \<Longrightarrow> everyE wellLinked (linkTo t c ms)"
  unfolding linkTo_def by (rule everyE_el) (simp_all add: wellLinked_def)

lemma linked_nav:
  "leadsTo t \<Longrightarrow> attrOf ''target'' as = None \<Longrightarrow> list_all (everyE wellLinked) ms \<Longrightarrow> everyE wellLinked (navLink t as ms)"
  unfolding navLink_def by (rule everyE_el) (simp_all add: wellLinked_def)

lemma linked_navigate: "leadsTo t \<Longrightarrow> everyE wellLinked (navigateTo t)"
  unfolding navigateTo_def by (rule everyE_el) (simp_all add: wellLinked_def)

lemmas linked_rules = linked_el linked_button linked_newTab linked_to linked_nav linked_navigate
  everyE_seqM everyE_whenM everyE_truthyM everyE_someM everyE_eachM everyE_withM everyE_if

lemma linked_small:
  "everyE wellLinked (spinner a b)" "everyE wellLinked (skeleton c p q)"
  by (auto simp: spinner_def skeleton_def attrOf_style attrOf_append intro!: linked_rules)

lemma linked_loaders:
  "everyE wellLinked smallSpinner" "everyE wellLinked (pageLoader l)" "everyE wellLinked cardSkeleton"
  "everyE wellLinked walletSkeleton" "everyE wellLinked (pageSkeleton k)" "everyE wellLinked (errorBanner e r)"
  by (auto simp: smallSpinner_def pageLoader_def cardSkeleton_def walletSkeleton_def pageSkeleton_def errorBanner_def
      linked_small intro!: linked_rules)

lemma linked_busy:
  "kind \<in> {''button'', ''submit''} \<Longrightarrow> everyE wellLinked label \<Longrightarrow> everyE wellLinked (busyButton kind c b hs during label)"
  by (auto simp: busyButton_def linked_loaders intro!: linked_rules)

lemma linked_cards:
  "everyE wellLinked (vaultCard L v)" "everyE wellLinked (positionCard p)" "everyE wellLinked (transactionRow L d s t)"
  by (auto simp: vaultCard_def positionCard_def transactionRow_def intro!: linked_rules)

lemma linked_walletCard: "everyE wellLinked (walletCard v d b w)"
  by (auto simp: walletCard_def walletBalances_def balanceItem_def intro!: linked_rules linked_busy split: option.split)

lemma linked_depositFlow: "everyE wellLinked (depositFlow q w f)"
  by (auto simp: depositFlow_def stepIndicator_def balanceLine_def depositAmount_def attrOf_append
      intro!: linked_rules linked_busy split: prod.split)

lemma linked_modal: "everyE wellLinked (withdrawModal p m)"
  by (auto simp: withdrawModal_def intro!: linked_rules linked_busy)

lemma known_pages [simp]:
  "leadsTo ''/''" "leadsTo ''/login''" "leadsTo ''/wallets''" "leadsTo ''/vaults''" "leadsTo ''/portfolio''" "leadsTo ''/activity''"
  by (simp_all add: segments pageOf_def leadsTo_def)

lemma linked_frame: "everyE wellLinked outlet \<Longrightarrow> everyE wellLinked (layout e t u w outlet)"
  by (auto simp: layout_def attrOf_append intro!: linked_rules)

lemma linked_header: "list_all (everyE wellLinked) ms \<Longrightarrow> everyE wellLinked (pageHeader title ms)"
  by (auto simp: pageHeader_def intro!: linked_rules)

lemma linked_error: "everyE wellLinked (pageError v)"
  by (auto simp: pageError_def linked_loaders intro!: linked_rules)

lemma linked_section: "leadsTo t \<Longrightarrow> everyE wellLinked (sectionHeader title t label)"
  by (auto simp: sectionHeader_def intro!: linked_rules)

lemma linked_vaults:
  "\<forall>v \<in> set vs. CHR ''/'' \<notin> set (cv_vaultId v) \<Longrightarrow> everyE wellLinked (vaultLinks L vs)"
  unfolding vaultLinks_def by (auto intro!: linked_rules linked_cards vault_leads)

definition plainIds :: "('d, 'w) client \<Rightarrow> bool" where
  "plainIds c \<longleftrightarrow>
     (\<forall>vs x. av_data (cx_dashboard c) = Some (vs, x) \<longrightarrow> (\<forall>v \<in> set vs. CHR ''/'' \<notin> set (cv_vaultId v)))
     \<and> (\<forall>vs x. av_data (cx_vaults c) = Some (vs, x) \<longrightarrow> (\<forall>v \<in> set vs. CHR ''/'' \<notin> set (cv_vaultId v)))"

lemma linked_walletSummary: "everyE wellLinked (walletSummary w)"
  unfolding walletSummary_def by (auto intro!: linked_rules)

lemma linked_dashboard: "plainIds c \<Longrightarrow> everyE wellLinked (dashboardPage L v (cx_dashboard c))"
proof -
  assume plain: "plainIds c"
  have "everyE wellLinked (dashboardWallet busy v)" for busy
    unfolding dashboardWallet_def
    by (auto simp: attrOf_style attrOf_append linked_walletSummary intro!: linked_rules linked_section)
  moreover have "everyE wellLinked (dashboardPortfolio busy held)" for busy held
    unfolding dashboardPortfolio_def by (auto simp: attrOf_style attrOf_append intro!: linked_rules linked_section)
  moreover have "everyE wellLinked (dashboardVaults L busy shelf)"
    if "\<forall>v \<in> set shelf. CHR ''/'' \<notin> set (cv_vaultId v)" for busy shelf
    unfolding dashboardVaults_def using that by (auto simp: linked_loaders intro!: linked_rules linked_section linked_vaults)
  ultimately show ?thesis
    using plain unfolding dashboardPage_def Let_def plainIds_def
    by (cases "av_data (cx_dashboard c)") (auto simp: linked_error intro!: linked_rules linked_header)
qed

lemma linked_wallets: "everyE wellLinked (walletsPage v cards)"
  unfolding walletsPage_def createButton_def
  by (auto simp: linked_loaders intro!: linked_rules linked_busy linked_walletCard split: prod.split)

lemma linked_vaultsPage: "plainIds c \<Longrightarrow> everyE wellLinked (vaultsPage L v (cx_vaults c) f)"
  unfolding vaultsPage_def Let_def plainIds_def
  by (auto simp: linked_loaders linked_error linked_depositFlow
      intro!: linked_rules linked_header linked_vaults split: option.split vault_panel.split)

lemma linked_portfolio: "everyE wellLinked (portfolioPage v a t m)"
  unfolding portfolioPage_def Let_def
  by (auto simp: linked_loaders linked_error linked_cards linked_modal intro!: linked_rules linked_header split: prod.split)

lemma linked_activity: "everyE wellLinked (activityPage L a)"
  unfolding activityPage_def Let_def
  by (auto simp: linked_small linked_error linked_cards intro!: linked_rules linked_header)

lemma linked_login: "everyE wellLinked (loginView v f)"
  unfolding loginView_def loginPage_def loginForm_def credential_def
  by (auto simp: linked_loaders attrOf_append intro!: linked_rules linked_busy)

lemma linked_page: "plainIds c \<Longrightarrow> everyE wellLinked (pageView c p)"
  unfolding pageView_def suspense_def
  by (auto simp: linked_loaders linked_login linked_dashboard linked_wallets linked_vaultsPage linked_portfolio linked_activity
      split: page.split)

theorem client_linked: "plainIds c \<Longrightarrow> everyE wellLinked (appView c segments)"
  unfolding appView_def protectedView_def protectedRoute_def
  by (auto simp: linked_loaders linked_page intro!: linked_navigate linked_frame split: option.split page.split)

section \<open>What is offered to whom\<close>

text \<open>The login page and the loaders offer no more than the form.\<close>

lemma offers_loaders [simp]:
  "offers (pageLoader l) = []" "offers (navigateTo t) = []" "renders (pageLoader l)" "renders (navigateTo t)"
  by (simp_all add: pageLoader_def navigateTo_def offers_el spinner_def)

lemma credential_parts [simp]:
  "renders (credential l as a)" "\<not> submits (credential l as a)"
  "attrOf ''disabled'' as = None \<Longrightarrow> offers (credential l as a) = [a]"
  by (simp_all add: credential_def offers_el submits_el)

lemma offers_loginForm:
  "renders (loginForm f)"
  "offers (loginForm f) = (if lf_submitting f then [] else [SubmitForm]) @ [TypeEmail, TypePassword, ToggleForm]"
  by (simp_all add: loginForm_def offers_el offers_form submits_el attrOf_append)

lemma offers_login: "set (offers (loginView v f)) \<subseteq> {SubmitForm, TypeEmail, TypePassword, ToggleForm}"
  by (auto simp: loginView_def offers_loginForm split: route_view.split)

text \<open>So whoever is offered anything else is signed in, with a token of theirs.\<close>

theorem offered_to_user:
  assumes "signedIn issued (cx_auth c)" and "a \<in> set (offers (appView c segments))"
    and "a \<notin> {SubmitForm, TypeEmail, TypePassword, ToggleForm}"
  shows "\<exists>t u. ax_user (cx_auth c) = Some u \<and> ax_token (cx_auth c) = Some t \<and> issued t u"
proof -
  have login: "offers (pageView c LoginForm) = offers (suspense (cx_loaded c LoginForm) (loginView (cx_auth c) (cx_form c)))"
    by (simp add: pageView_def)
  have "appShell segments (cx_auth c) = ChildrenView"
    using assms(2,3) offers_login [of "cx_auth c" "cx_form c"]
    by (auto simp: appView_def appShell_def protectedView_def protectedRoute_def login suspense_def
        split: option.splits page.splits if_splits)
  then show ?thesis by (rule shown_to_user [OF assms(1)])
qed

lemma offers_layout:
  assumes "renders outlet"
  shows "offers (layout e t u w outlet) = SignOut # offers outlet"
proof -
  have link: "offers (navLink a as ms) = []" if "list_all renders ms" "concat (map offers ms) = []" for a as and ms :: "view list"
    using that by (simp add: navLink_def offers_el)
  have nav: "renders (navLink a as [lit l])" for a as l by (simp add: navLink_def)
  show ?thesis
    using assms
    by (cases t; cases w; cases "Option.bind u cu_email")
       (simp_all add: layout_def offers_el link nav someM_def)
qed

end
