(* ===== verification/Clicks.thy ===== *)
theory Clicks
  imports Pages
begin

text \<open>
  The client as it is used.  \<open>clicking\<close> is the deposit dialog driven by what it renders: the user does what the
  markup offers, the server answers, a refresh swaps the wallet.  It is the machine \<open>flowing\<close> of \<open>Flows\<close>, whose conditions were read off the code
  by hand, as long as the balances of the wallets it may show are numbers; so what is shown there holds of the rendered dialog.
\<close>

section \<open>The deposit dialog, by its markup\<close>

definition performs ::
    "(nat \<Rightarrow> string) \<Rightarrow> client_vault \<Rightarrow> client_wallet \<Rightarrow> client_action \<Rightarrow> deposit_flow \<Rightarrow> deposit_flow \<Rightarrow> bool" where
  "performs keyOf vault w a f f' =
     (case a of
        TypeAmount \<Rightarrow> \<exists>s. f' = flow_typed s f
      | AskPreview \<Rightarrow> f' = flow_handlePreview vault w f
      | AskApprove \<Rightarrow> f' = flow_handleApprove keyOf vault w f
      | AskDeposit \<Rightarrow> f' = flow_handleDeposit keyOf vault w f
      | _ \<Rightarrow> False)"

inductive clicking ::
    "(api_call \<Rightarrow> bool \<Rightarrow> bool) \<Rightarrow> (nat \<Rightarrow> string) \<Rightarrow> client_vault \<Rightarrow> client_wallet set \<Rightarrow> client_wallet \<Rightarrow> deposit_flow \<Rightarrow> bool"
  for previews keyOf vault W where
  start: "w \<in> W \<Longrightarrow> clicking previews keyOf vault W w flow_init"
| swapped: "clicking previews keyOf vault W w f \<Longrightarrow> w' \<in> W \<Longrightarrow> clicking previews keyOf vault W w' f"
| act: "clicking previews keyOf vault W w f \<Longrightarrow> a \<in> set (offers (depositFlow vault w f)) \<Longrightarrow> performs keyOf vault w a f f' \<Longrightarrow>
    clicking previews keyOf vault W w f'"
| previewed: "clicking previews keyOf vault W w f \<Longrightarrow> df_awaiting f = Previewing amount \<Longrightarrow> previews (last (df_sent f)) b \<Longrightarrow>
    clicking previews keyOf vault W w (flow_previewed b amount f)"
| approved: "clicking previews keyOf vault W w f \<Longrightarrow> df_awaiting f = Approving \<Longrightarrow> clicking previews keyOf vault W w (flow_approved r f)"
| deposited: "clicking previews keyOf vault W w f \<Longrightarrow> df_awaiting f = Depositing \<Longrightarrow> clicking previews keyOf vault W w (flow_deposited r f)"
| failed: "clicking previews keyOf vault W w f \<Longrightarrow> df_awaiting f \<noteq> Idle \<Longrightarrow> clicking previews keyOf vault W w (flow_failed e f)"

text \<open>A dialog that does not render offers nothing.\<close>

lemma offers_renders: "a \<in> set (offers m) \<Longrightarrow> renders m"
  by (cases m) (simp_all add: offers_def)

lemma clicking_flowing: "clicking previews keyOf vault W w f \<Longrightarrow> flowing previews keyOf vault W w f"
proof (induction rule: clicking.induct)
  case (act w f a f')
  from offers_depositFlow [OF offers_renders [OF act.hyps(2)]] act.hyps(2,3) act.IH show ?case
    by (cases "df_step f") (auto simp: performs_def intro: flowing.intros split: if_splits)
qed (auto intro: flowing.intros)

text \<open>The amounts a dialog holds were written by \<open>parseAmount\<close>, so they are numbers.\<close>

definition numeric :: "string \<Rightarrow> bool" where
  "numeric s \<longleftrightarrow> (\<exists>n. bigInt s = Inr n)"

lemma numeric_show [simp]: "numeric (showInt n)"
  by (simp add: numeric_def bigInt_def)

lemma format_readable: "numeric s \<longleftrightarrow> (\<exists>t. formatAmount s d k = Inr t)"
  by (cases "bigInt s") (simp_all only: numeric_def formatAmount_def Let_def sum.case, blast+)

lemma parse_readable: "parseAmount s d = Inr a \<Longrightarrow> numeric a"
  by (auto simp: parseAmount_def Let_def split: if_splits sum.splits)

lemma flowing_readable:
  "flowing previews keyOf vault W w f \<Longrightarrow>
     (\<forall>a. df_awaiting f = Previewing a \<longrightarrow> numeric a) \<and> (df_step f \<in> {ApproveStep, DepositStep} \<or> df_awaiting f = Approving \<longrightarrow> numeric (df_baseAmount f))"
proof (induction rule: flowing.induct)
  case (preview w f)
  then show ?case by (auto simp: flow_handlePreview_def flow_failed_def Let_def dest: parse_readable split: sum.splits)
qed (auto simp: flow_defs)

definition readableWallet :: "client_wallet \<Rightarrow> bool" where
  "readableWallet w \<longleftrightarrow> (\<forall>bs. cl_balances w = Some bs \<longrightarrow> (\<forall>b \<in> set bs. numeric (cb_balance b)))"

lemma usdc_readable: "readableWallet w \<Longrightarrow> usdcBalance w = Some b \<Longrightarrow> numeric (cb_balance b)"
  by (auto simp: readableWallet_def usdcBalance_def find_Some_iff bind_eq_Some_conv)

lemma flowing_renders:
  assumes "flowing previews keyOf vault W w f" and "readableWallet w"
  shows "renders (depositFlow vault w f)"
  using flowing_readable [OF assms(1)] usdc_readable [OF assms(2)]
  by (cases "df_step f") (simp_all add: renders_depositFlow flip: format_readable)

lemma flowing_clicking:
  assumes "flowing previews keyOf vault W w f" and "\<forall>w \<in> W. readableWallet w"
  shows "clicking previews keyOf vault W w f"
  using assms(1)
proof (induction rule: flowing.induct)
  case (typed w f s)
  from offers_depositFlow [OF flowing_renders [OF typed.hyps(1) bspec [OF assms(2) flowing_live [OF typed.hyps(1)]]]] typed.hyps
  have "TypeAmount \<in> set (offers (depositFlow vault w f))" by simp
  then show ?case by (rule clicking.act [OF typed.IH]) (auto simp: performs_def)
next
  case (preview w f)
  from offers_depositFlow [OF flowing_renders [OF preview.hyps(1) bspec [OF assms(2) flowing_live [OF preview.hyps(1)]]]] preview.hyps
  have "AskPreview \<in> set (offers (depositFlow vault w f))" by simp
  then show ?case by (rule clicking.act [OF preview.IH]) (auto simp: performs_def)
next
  case (approve w f)
  from offers_depositFlow [OF flowing_renders [OF approve.hyps(1) bspec [OF assms(2) flowing_live [OF approve.hyps(1)]]]] approve.hyps
  have "AskApprove \<in> set (offers (depositFlow vault w f))" by simp
  then show ?case by (rule clicking.act [OF approve.IH]) (auto simp: performs_def)
next
  case (deposit w f)
  from offers_depositFlow [OF flowing_renders [OF deposit.hyps(1) bspec [OF assms(2) flowing_live [OF deposit.hyps(1)]]]] deposit.hyps
  have "AskDeposit \<in> set (offers (depositFlow vault w f))" by simp
  then show ?case by (rule clicking.act [OF deposit.IH]) (auto simp: performs_def)
qed (auto intro: clicking.intros)

theorem clicks_are_flows:
  "\<forall>w \<in> W. readableWallet w \<Longrightarrow> clicking previews keyOf vault W w f \<longleftrightarrow> flowing previews keyOf vault W w f"
  using clicking_flowing flowing_clicking by blast

end
