(* ===== verification/Rendering.thy ===== *)
theory Rendering
  imports Clicks
begin

text \<open>
  The client on the server's answers.  Each list that the client holds came out of a handler of the back end, in
  some state of it and for some environment; the types of \<^verbatim>\<open>frontend/src/api/types.ts\<close> name the fields of the
  answers.  A client that is fed by the server renders on every path: no \<open>BigInt\<close> is ever applied to
  a text that is no number, whatever is stored, whatever the chain answers and whatever the user does.  Of the
  balances of the wallets this is assumed, since the server passes on what the wallet provider wrote.
\<close>

section \<open>What an operation may answer\<close>

definition answers :: "('a \<Rightarrow> bool) \<Rightarrow> 'a io \<Rightarrow> bool" where
  "answers P m \<longleftrightarrow> (\<forall>s x s'. m s = (Inr x, s') \<longrightarrow> P x)"

lemma answersD: "answers P m \<Longrightarrow> m s = (Inr x, s') \<Longrightarrow> P x"
  unfolding answers_def by blast

lemma answers_ret: "P x \<Longrightarrow> answers P (ret x)"
  by (simp add: answers_def ret_def)

lemma answers_bind: "(\<And>y. answers P (f y)) \<Longrightarrow> answers P (andThen m f)"
  unfolding answers_def by (meson andThen_InrE)

lemma answers_after:
  assumes "answers Q m" and "\<And>y. Q y \<Longrightarrow> answers P (f y)"
  shows "answers P (andThen m f)"
  unfolding answers_def
proof (intro allI impI)
  fix s x s' assume "andThen m f s = (Inr x, s')"
  then obtain y s1 where "m s = (Inr y, s1)" "f y s1 = (Inr x, s')" by (rule andThen_InrE)
  with assms show "P x" by (meson answersD)
qed

lemma answers_lift: "(\<And>x. r = Inr x \<Longrightarrow> P x) \<Longrightarrow> answers P (lift r)"
  by (simp add: answers_def lift_def)

lemma answers_mapAll:
  assumes "\<And>x. answers P (f x)"
  shows "answers (list_all P) (mapAll f xs)"
proof (induction xs)
  case Nil
  show ?case unfolding mapAll.simps by (rule answers_ret) simp
next
  case (Cons x xs)
  show ?case unfolding mapAll.simps
    by (rule answers_after [OF assms], rule answers_after [OF Cons.IH], rule answers_ret) simp
qed

section \<open>The answers as the client reads them\<close>

definition clientVault :: "vault_response \<Rightarrow> client_vault" where
  "clientVault v =
     \<lparr>cv_vaultId = vr_vaultId v, cv_protocol = vr_protocol v, cv_chainId = vr_chainId v,
      cv_contractAddress = vr_contractAddress v, cv_name = vr_name v, cv_symbol = vr_symbol v,
      cv_assetSymbol = vr_assetSymbol v, cv_assetDecimals = vr_assetDecimals v, cv_assetAddress = vr_assetAddress v,
      cv_apy = vr_apy v, cv_tvl = vr_tvl v, cv_sharePrice = vr_sharePrice v, cv_totalSupply = vr_totalSupply v,
      cv_metadata = \<lparr>cm_description = Some (vr_description v), cm_image = None, cm_curator = None\<rparr>,
      cv_isEnabled = vr_isEnabled v, cv_depositEnabled = vr_depositEnabled v, cv_withdrawEnabled = vr_withdrawEnabled v,
      cv_riskLevel = vr_riskLevel v\<rparr>"

definition clientPosition :: "position_response \<Rightarrow> client_position" where
  "clientPosition p =
     \<lparr>cp_positionId = showNat (po_positionId p), cp_vaultId = po_vaultId p, cp_vaultName = po_vaultName p,
      cp_chainId = po_chainId p, cp_assetSymbol = po_assetSymbol p, cp_assetDecimals = po_assetDecimals p,
      cp_status = positionStatusName (po_status p), cp_depositedAmount = po_depositedAmount p,
      cp_currentAmount = po_currentAmount p, cp_shares = po_shares p, cp_sharePrice = po_sharePrice p,
      cp_currentValue = po_currentValue p, cp_createdAt = po_createdAt p, cp_updatedAt = po_updatedAt p\<rparr>"

definition clientTransaction :: "transaction_response \<Rightarrow> client_transaction" where
  "clientTransaction t =
     \<lparr>ct_transactionId = showNat (tx_transactionId t), ct_type = typeName (tx_type t),
      ct_status = transactionStatusName (tx_status t), ct_amount = tx_amount t, ct_chainId = tx_chainId t,
      ct_walletId = map_option showNat (tx_walletId t), ct_vaultId = tx_vaultId t,
      ct_positionId = map_option showNat (tx_positionId t), ct_txHash = tx_txHash t, ct_blockNumber = tx_blockNumber t,
      ct_explorerUrl = tx_explorerUrl t, ct_confirmedAt = tx_confirmedAt t, ct_createdAt = tx_createdAt t,
      ct_updatedAt = tx_updatedAt t\<rparr>"

definition servedVaults :: "client_vault list \<Rightarrow> bool" where
  "servedVaults vs \<longleftrightarrow> (\<exists>x q s rs s'. earn_listVaults x q s = (Inr rs, s') \<and> vs = map clientVault rs)"

definition servedPositions :: "client_position list \<Rightarrow> bool" where
  "servedPositions ps \<longleftrightarrow> (\<exists>x u q s rs s'. epos_listPositions x u q s = (Inr rs, s') \<and> ps = map clientPosition rs)"

definition servedTransactions :: "client_transaction list \<Rightarrow> bool" where
  "servedTransactions ts \<longleftrightarrow> (\<exists>x ties u q s l s'. etx_listTransactions x ties u q s = (Inr l, s') \<and> ts = map clientTransaction (tl_items l))"

lemma vaults_readable:
  assumes "servedVaults vs"
  shows "\<forall>v \<in> set vs. numeric (cv_tvl v)"
proof -
  have reserve: "answers (\<lambda>d. numeric (rd_tvl d)) (viem_readReserveData x c p a t sy)" for x c p a t sy
    unfolding viem_readReserveData_def case_prod_unfold by (intro answers_bind answers_ret) simp
  have "answers (\<lambda>v. numeric (pv_tvl v)) (aave_buildVault x d)" for x d
    unfolding aave_buildVault_def by (rule answers_bind, rule answers_after [OF reserve], rule answers_ret) simp
  then have "answers (list_all (\<lambda>v. numeric (pv_tvl v))) (aave_getVaults x q)" for x q
    unfolding aave_getVaults_def by (auto intro!: answers_bind answers_mapAll answers_ret)
  then have "answers (list_all (\<lambda>v. numeric (vr_tvl v))) (earn_listVaults x q)" for x q
    unfolding earn_listVaults_def by (rule answers_after) (auto intro!: answers_ret simp: list_all_iff toVaultResponse_def)
  with assms show ?thesis by (fastforce simp: servedVaults_def clientVault_def list_all_iff dest: answersD)
qed

lemma positions_readable:
  assumes "servedPositions ps"
  shows "\<forall>p \<in> set ps. numeric (cp_currentValue p) \<and> numeric (cp_depositedAmount p)"
proof -
  have "numeric ''0''" using numeric_show [of 0] by (simp add: showInt_def showNat.simps)
  then have val: "numeric v" if "computeCurrentValue x sh pr ad sd = Inr v" for x sh pr ad sd v
    using that by (auto simp: computeCurrentValue_def split: if_splits option.splits)
  have "answers (\<lambda>r. numeric (po_currentValue r) \<and> numeric (po_depositedAmount r)) (epos_toResponse x pv)" for x pv
    unfolding epos_toResponse_def Let_def case_prod_unfold
    by (rule answers_bind, rule answers_after, rule answers_lift, rule val, assumption, rule answers_ret) simp
  then have "answers (list_all (\<lambda>r. numeric (po_currentValue r) \<and> numeric (po_depositedAmount r))) (epos_listPositions x u q)" for x u q
    unfolding epos_listPositions_def by (intro answers_bind answers_mapAll)
  with assms show ?thesis by (fastforce simp: servedPositions_def clientPosition_def list_all_iff dest: answersD)
qed

lemma transactions_readable:
  assumes "servedTransactions ts"
  shows "\<forall>t \<in> set ts. numeric (ct_amount t)"
proof -
  have "answers (\<lambda>p. \<forall>r \<in> set (tp_items p). numeric (tr_amount r)) (tx_findByUserWithFilters ties i p l)" for ties i p l
    unfolding tx_findByUserWithFilters_def Let_def case_prod_unfold
    by (intro answers_bind answers_ret) (auto simp: toTransactionRecord_def)
  then have "answers (\<lambda>l. \<forall>r \<in> set (tl_items l). numeric (tx_amount r)) (etx_listTransactions x ties u q)" for x ties u q
    unfolding etx_listTransactions_def by (rule answers_after) (auto intro!: answers_ret simp: etx_toResponse_def)
  with assms show ?thesis by (fastforce simp: servedTransactions_def clientTransaction_def dest: answersD)
qed

section \<open>Pages render\<close>

lemma formatted: "numeric s \<Longrightarrow> \<exists>t. formatAmount s d k = Inr t"
  by (simp flip: format_readable)

lemma tvl_formatted: "numeric s \<Longrightarrow> \<exists>t. formatTvl L s d = Inr t"
  using formatted [of s d 2] by (auto simp: formatTvl_def Let_def)

lemma renders_vaultCard: "numeric (cv_tvl v) \<Longrightarrow> renders (vaultCard L v)"
  by (simp add: vaultCard_def tvl_formatted)

definition readablePosition :: "client_position \<Rightarrow> bool" where
  "readablePosition p \<longleftrightarrow> numeric (cp_currentValue p) \<and> numeric (cp_depositedAmount p)"

lemma renders_positionCard: "readablePosition p \<Longrightarrow> renders (positionCard p)"
proof -
  assume p: "readablePosition p"
  then obtain n where n: "bigInt (cp_currentValue p) = Inr n" by (auto simp: readablePosition_def numeric_def)
  have "\<exists>b. canWithdraw p = Inr b" unfolding canWithdraw_def n sum.case by (auto intro: exI [of _ False])
  with p show ?thesis by (auto simp: positionCard_def formatted readablePosition_def)
qed

lemma total_readable: "\<forall>p \<in> set ps. readablePosition p \<Longrightarrow> \<exists>t. totalValue acc ps = Inr t"
proof (induction ps arbitrary: acc)
  case (Cons p ps)
  then obtain n where n: "bigInt (cp_currentValue p) = Inr n" by (auto simp: readablePosition_def numeric_def)
  show ?case using Cons unfolding totalValue.simps n sum.case by simp
qed simp

lemma shown_total: "\<forall>p \<in> set ps. readablePosition p \<Longrightarrow> \<exists>t. shownTotal ps = Inr t"
proof -
  assume "\<forall>p \<in> set ps. readablePosition p"
  then obtain t where t: "totalValue 0 ps = Inr t" using total_readable by blast
  obtain u where "formatAmount (showInt t) (case ps of [] \<Rightarrow> 6 | p # _ \<Rightarrow> cp_assetDecimals p) 4 = Inr u"
    using formatted [OF numeric_show] by blast
  with t show ?thesis by (simp add: shownTotal_def)
qed

lemma renders_small [simp]:
  "renders smallSpinner" "renders (skeleton c p q)" "renders cardSkeleton" "renders walletSkeleton" "renders (pageSkeleton k)"
  "renders (errorBanner e r)" "renders (pageError v)" "renders (sectionHeader t l m)"
  by (simp_all add: smallSpinner_def spinner_def skeleton_def cardSkeleton_def walletSkeleton_def pageSkeleton_def
      errorBanner_def pageError_def sectionHeader_def linkTo_def renders_truthy)

lemma renders_header [simp]: "renders (pageHeader t ms) \<longleftrightarrow> list_all renders ms"
  by (simp add: pageHeader_def)

lemma renders_link [simp]: "renders (linkTo t c ms) \<longleftrightarrow> list_all renders ms" "renders (navLink t as ms) \<longleftrightarrow> list_all renders ms"
  by (simp_all add: linkTo_def navLink_def)

lemma renders_outside [simp]: "renders (truthyM x (\<lambda>url. newTab url c [lit l]))"
  by simp

lemma renders_banner [simp]: "renders (truthyM e (\<lambda>message. errorBanner message r))"
  by (simp add: renders_truthy)

lemma renders_walletCard: "readableWallet w \<Longrightarrow> renders (walletCard v d b w)"
  by (cases "cl_balances w")
     (auto simp: walletCard_def walletBalances_def balanceItem_def readableWallet_def formatted)

lemma renders_layout: "renders outlet \<Longrightarrow> renders (layout e t u w outlet)"
  by (simp add: layout_def)

lemma primary_member: "primaryWallet v = Some w \<Longrightarrow> w \<in> set (wv_wallets v)"
  by (auto simp: primaryWallet_def find_Some_iff split: option.splits list.splits)

lemma renders_vaultLinks: "\<forall>v \<in> set vs. numeric (cv_tvl v) \<Longrightarrow> renders (vaultLinks L vs)"
  by (simp add: vaultLinks_def renders_vaultCard)

lemma renders_walletSummary: "readableWallet w \<Longrightarrow> renders (walletSummary w)"
  by (auto simp: walletSummary_def readableWallet_def formatted)

lemma renders_dashboard:
  assumes "\<And>vs ps. av_data a = Some (vs, ps) \<Longrightarrow> (\<forall>v \<in> set vs. numeric (cv_tvl v)) \<and> (\<forall>p \<in> set ps. readablePosition p)"
    and "\<forall>w \<in> set (wv_wallets v). readableWallet w"
  shows "renders (dashboardPage L v a)"
proof -
  have wallet: "renders (dashboardWallet busy v)" for busy
    using assms(2) primary_member by (auto simp: dashboardWallet_def renders_walletSummary)
  have portfolio: "renders (dashboardPortfolio busy ps)" if "\<forall>p \<in> set ps. readablePosition p" for busy ps
    using shown_total [OF that] by (auto simp: dashboardPortfolio_def)
  have shelf: "renders (dashboardVaults L busy vs)" if "\<forall>v \<in> set vs. numeric (cv_tvl v)" for busy vs
    using that by (simp add: dashboardVaults_def renders_vaultLinks)
  show ?thesis
    using assms(1) wallet portfolio shelf total_readable
    by (cases "av_data a") (auto simp: dashboardPage_def Let_def)
qed

lemma renders_walletsPage: "\<forall>w \<in> set (wv_wallets v). readableWallet w \<Longrightarrow> renders (walletsPage v cards)"
  by (auto simp: walletsPage_def createButton_def walletCards_def renders_walletCard)

lemma renders_vaultsPage:
  assumes "\<And>vs x. av_data a = Some (vs, x) \<Longrightarrow> (\<forall>v \<in> set vs. numeric (cv_tvl v))"
    and "\<And>vs q. av_data a = Some (vs, Some q) \<Longrightarrow> numeric (cv_tvl q) \<and> (\<forall>w. primaryWallet v = Some w \<longrightarrow> renders (depositFlow q w f))"
  shows "renders (vaultsPage L v a f)"
proof (cases "av_data a")
  case None
  then show ?thesis by (simp add: vaultsPage_def Let_def renders_vaultLinks)
next
  case (Some d)
  obtain vs x where d: "d = (vs, x)" by (cases d)
  show ?thesis
    using assms(1) [OF Some [unfolded d]] assms(2) [of vs] Some d
    by (cases x; cases "primaryWallet v") (auto simp: vaultsPage_def Let_def vaultPanel_def renders_vaultLinks tvl_formatted)
qed

lemma renders_portfolio:
  assumes "\<And>ps. av_data a = Some ps \<Longrightarrow> \<forall>p \<in> set ps. readablePosition p" and "\<And>p. t = Some p \<Longrightarrow> readablePosition p"
  shows "renders (portfolioPage v a t m)"
proof -
  have held: "\<forall>p \<in> set (portfolioActive (case av_data a of Some ps \<Rightarrow> ps | None \<Rightarrow> [])). readablePosition p"
    using assms(1) by (cases "av_data a") (auto simp: portfolioActive_def)
  show ?thesis
    using shown_total [OF held] total_readable [OF held, of 0] held assms(2)
    by (auto simp: portfolioPage_def Let_def renders_positionCard portfolioDialog_def renders_withdrawModal readablePosition_def
        formatted split: option.splits)
qed

lemma renders_activity:
  "(\<And>ts. av_data a = Some ts \<Longrightarrow> \<forall>t \<in> set ts. numeric (ct_amount t)) \<Longrightarrow> renders (activityPage L a)"
  by (cases "av_data a") (auto simp: activityPage_def Let_def transactionRow_def formatted)

lemma renders_login: "renders (loginView v f)"
  by (auto simp: loginView_def offers_loginForm split: route_view.split)

section \<open>A client fed by the server\<close>

definition fed :: "('d, 'w) client \<Rightarrow> bool" where
  "fed c \<longleftrightarrow>
     (\<forall>d. av_data (cx_dashboard c) = Some d \<longrightarrow>
        (\<exists>vs ps. servedVaults vs \<and> servedPositions ps \<and> d = dashboardData vs ps))
     \<and> (\<forall>d. av_data (cx_vaults c) = Some d \<longrightarrow> (\<exists>vs i. servedVaults vs \<and> d = vaultsData i vs))
     \<and> (\<forall>ps. av_data (cx_positions c) = Some ps \<longrightarrow> servedPositions ps)
     \<and> (\<forall>p. cx_target c = Some p \<longrightarrow> (\<exists>ps. servedPositions ps \<and> p \<in> set ps))
     \<and> (\<forall>ts. av_data (cx_activity c) = Some ts \<longrightarrow> servedTransactions ts)
     \<and> (\<forall>vs q w. av_data (cx_vaults c) = Some (vs, Some q) \<longrightarrow> primaryWallet (cx_wallets c) = Some w \<longrightarrow>
          (\<exists>keyOf W. flowing serverPreviews keyOf q W w (cx_flow c)))"

theorem fed_client_renders:
  assumes "fed c" and "\<forall>w \<in> set (wv_wallets (cx_wallets c)). readableWallet w"
  shows "renders (appView c segments)"
proof -
  have positions: "\<forall>p \<in> set ps. readablePosition p" if "servedPositions ps" for ps
    using positions_readable [OF that] by (simp add: readablePosition_def)
  have dashboard: "renders (dashboardPage (cx_lib c) (cx_wallets c) (cx_dashboard c))"
    using assms vaults_readable positions
    by (intro renders_dashboard) (fastforce simp: fed_def dashboardData_def dest: in_set_takeD)+
  have vaults: "renders (vaultsPage (cx_lib c) (cx_wallets c) (cx_vaults c) (cx_flow c))"
  proof (rule renders_vaultsPage)
    fix vs x assume "av_data (cx_vaults c) = Some (vs, x)"
    with assms(1) obtain ws i where ws: "servedVaults ws" and d: "(vs, x) = vaultsData i ws" unfolding fed_def by metis
    from vaults_readable [OF ws] d show "\<forall>v \<in> set vs. numeric (cv_tvl v)" by (auto simp: vaultsData_def Let_def)
  next
    fix vs q assume a: "av_data (cx_vaults c) = Some (vs, Some q)"
    with assms(1) obtain ws i where ws: "servedVaults ws" and d: "(vs, Some q) = vaultsData i ws" unfolding fed_def by metis
    from d [symmetric] obtain j where "find (\<lambda>v. cv_vaultId v = j) (filter cv_isEnabled ws) = Some q"
      by (auto simp: vaultsData_def Let_def split: option.splits if_splits)
    then have "q \<in> set (filter cv_isEnabled ws)" by (auto simp only: find_Some_iff nth_mem)
    then have "q \<in> set ws" by simp
    moreover have "renders (depositFlow q w (cx_flow c))" if "primaryWallet (cx_wallets c) = Some w" for w
      using assms a that primary_member [OF that] flowing_renders unfolding fed_def by blast
    ultimately show "numeric (cv_tvl q) \<and> (\<forall>w. primaryWallet (cx_wallets c) = Some w \<longrightarrow> renders (depositFlow q w (cx_flow c)))"
      using vaults_readable [OF ws] by blast
  qed
  have portfolio: "renders (portfolioPage (cx_wallets c) (cx_positions c) (cx_target c) (cx_modal c))"
    using assms(1) positions by (intro renders_portfolio) (auto simp: fed_def)
  have activity: "renders (activityPage (cx_lib c) (cx_activity c))"
    using assms(1) transactions_readable by (intro renders_activity) (auto simp: fed_def)
  have "renders (pageView c p)" for p
    using dashboard vaults portfolio activity renders_walletsPage [OF assms(2)]
    by (auto simp: pageView_def suspense_def renders_login split: page.split)
  then show ?thesis
    by (auto simp: appView_def protectedView_def renders_layout split: option.split page.split route_view.split)
qed

end
