(* ===== verification/Sessions.thy ===== *)
theory Sessions
  imports Pages
begin

text \<open>
  The access token.  \<^verbatim>\<open>api/client.ts\<close> keeps it in a variable of the page and a copy in the local storage, which
  all tabs of the browser share; \<open>AuthContext\<close> (\<open>Views\<close>) sees the variable.  Here are the two places, and the
  tabs of one browser, each with its own variable and its own \<open>AuthContext\<close>, over one local storage.

  Whatever the tabs do, each shows the user of the token that it sends; but signing out in one does not sign out
  the others, and a tab whose token is refused takes away the copy of a tab that has signed in meanwhile.
\<close>

section \<open>The token and its copy\<close>

record token_store =
  ts_accessToken :: "string option"
  ts_localStorage :: "string option"

text \<open>An empty token is falsy, so it is not stored.\<close>

definition setAccessToken :: "string option \<Rightarrow> token_store \<Rightarrow> token_store" where
  "setAccessToken token st =
     st\<lparr>ts_accessToken := token,
        ts_localStorage := (case token of Some (c # cs) \<Rightarrow> Some (c # cs) | _ \<Rightarrow> None)\<rparr>"

definition getAccessToken :: "token_store \<Rightarrow> string option" where
  "getAccessToken st = ts_accessToken st"

definition loadToken :: "string option \<Rightarrow> token_store" where
  "loadToken stored = \<lparr>ts_accessToken = stored, ts_localStorage = stored\<rparr>"

text \<open>What was set is what the next page finds, unless it is empty.\<close>

lemma token_survives_reload:
  "token \<noteq> Some [] \<Longrightarrow> loadToken (ts_localStorage (setAccessToken token st)) = setAccessToken token st"
  by (cases st) (auto simp: loadToken_def setAccessToken_def split: option.split list.split)

section \<open>The tabs of a browser\<close>

record browser =
  br_stored :: "string option"
  br_tabs :: "(client_user, string) auth_view list"

text \<open>The store that a tab works on, and a tab with a new state that leaves the token alone or sets it.\<close>

definition storeOf :: "browser \<Rightarrow> (client_user, string) auth_view \<Rightarrow> token_store" where
  "storeOf b v = \<lparr>ts_accessToken = ax_token v, ts_localStorage = br_stored b\<rparr>"

definition keepToken :: "nat \<Rightarrow> (client_user, string) auth_view \<Rightarrow> browser \<Rightarrow> browser" where
  "keepToken i v b = b\<lparr>br_tabs := (br_tabs b)[i := v]\<rparr>"

definition writeToken :: "nat \<Rightarrow> (client_user, string) auth_view \<Rightarrow> browser \<Rightarrow> browser" where
  "writeToken i v b =
     b\<lparr>br_tabs := (br_tabs b)[i := v],
       br_stored := ts_localStorage (setAccessToken (ax_token v) (storeOf b (br_tabs b ! i)))\<rparr>"

inductive browsing :: "(string \<Rightarrow> client_user \<Rightarrow> bool) \<Rightarrow> browser \<Rightarrow> bool" for issued where
  start: "stored \<noteq> Some [] \<Longrightarrow> browsing issued \<lparr>br_stored = stored, br_tabs = []\<rparr>"
| opened: "browsing issued b \<Longrightarrow> browsing issued (b\<lparr>br_tabs := br_tabs b @ [auth_mount (br_stored b)]\<rparr>)"
| reloaded: "browsing issued b \<Longrightarrow> i < length (br_tabs b) \<Longrightarrow> browsing issued (keepToken i (auth_mount (br_stored b)) b)"
| known: "browsing issued b \<Longrightarrow> i < length (br_tabs b) \<Longrightarrow> v = br_tabs b ! i \<Longrightarrow> ax_checking v \<Longrightarrow> ax_token v = Some t \<Longrightarrow>
    issued t u \<Longrightarrow> browsing issued (keepToken i (auth_meAnswered (Inr u) v) b)"
| refused: "browsing issued b \<Longrightarrow> i < length (br_tabs b) \<Longrightarrow> v = br_tabs b ! i \<Longrightarrow> ax_checking v \<Longrightarrow>
    browsing issued (writeToken i (auth_meAnswered (Inl e) v) b)"
| enter: "browsing issued b \<Longrightarrow> i < length (br_tabs b) \<Longrightarrow> v = br_tabs b ! i \<Longrightarrow> loginPage v = FormView \<Longrightarrow> issued t u \<Longrightarrow>
    browsing issued (writeToken i (auth_signedIn (Inr (t, u)) v) b)"
| stay: "browsing issued b \<Longrightarrow> i < length (br_tabs b) \<Longrightarrow> v = br_tabs b ! i \<Longrightarrow>
    browsing issued (keepToken i (auth_signedIn (Inl e) v) b)"
| leave: "browsing issued b \<Longrightarrow> i < length (br_tabs b) \<Longrightarrow> v = br_tabs b ! i \<Longrightarrow> protectedRoute v = ChildrenView \<Longrightarrow>
    browsing issued (writeToken i (auth_logout v) b)"

lemma tabs_of [simp]:
  "br_tabs (keepToken i v b) = (br_tabs b)[i := v]" "br_tabs (writeToken i v b) = (br_tabs b)[i := v]"
  "br_stored (keepToken i v b) = br_stored b"
  by (simp_all add: keepToken_def writeToken_def)

lemma stored_by [simp]:
  "br_stored (writeToken i v b) = (case ax_token v of Some (c # cs) \<Rightarrow> Some (c # cs) | _ \<Rightarrow> None)"
  by (simp add: writeToken_def setAccessToken_def)

text \<open>Each tab is in a state that its own \<open>AuthContext\<close> reaches.\<close>

lemma tabs_signed: "browsing issued b \<Longrightarrow> v \<in> set (br_tabs b) \<Longrightarrow> signedIn issued v"
proof (induction arbitrary: v rule: browsing.induct)
  case (known b i v' t u)
  then show ?case by (auto dest!: set_update_subset_insert [THEN subsetD] intro: signedIn.known)
qed (auto dest!: set_update_subset_insert [THEN subsetD] intro: signedIn.intros)

lemma stored_nonempty: "browsing issued b \<Longrightarrow> br_stored b \<noteq> Some []"
  by (induction rule: browsing.induct) (auto split: option.split list.split)

text \<open>The requests of a tab carry a token of the user it shows.\<close>

lemma sends_as_shown:
  assumes "browsing issued b" and "v \<in> set (br_tabs b)" and "\<And>t u. issued t u \<Longrightarrow> t \<noteq> []" and "ax_user v = Some u"
  shows "\<exists>t. issued t u \<and> (''Authorization'', ''Bearer '' @ t) \<in> set (headersOf (ax_token v) c)"
  using signedIn_inv [OF tabs_signed [OF assms(1,2)]] assms(3,4) by (fastforce simp: headersOf_def)

text \<open>After signing out, every page that is opened or reloaded is at the form, until someone signs in.\<close>

lemma left_for_new_pages:
  "loginPage (auth_mount (br_stored (writeToken i (auth_logout v) b)) :: (client_user, string) auth_view) = FormView"
  by (simp add: auth_logout_def auth_mount_def loginPage_def)

text \<open>The other tabs go on with what they have.\<close>

lemma others_stay: "j \<noteq> i \<Longrightarrow> j < length (br_tabs b) \<Longrightarrow> br_tabs (writeToken i v b) ! j = br_tabs b ! j"
  by simp

text \<open>
  The late refusal: a tab opened with an old token asks for its profile, another signs in, and the first is told that its
  token is no good.  The copy of the new token is gone, and the second tab is signed out when it is reloaded.
\<close>

lemma refusal_takes_new_token:
  fixes old :: string
  assumes "issued t u" and "t \<noteq> []" and "old \<noteq> []"
  shows "\<exists>b. browsing issued b \<and> ax_user (br_tabs b ! 1) = Some u \<and> ax_token (br_tabs b ! 1) = Some t \<and> br_stored b = None"
proof -
  let ?a = "auth_mount (Some old) :: (client_user, string) auth_view"
  let ?b0 = "\<lparr>br_stored = Some old, br_tabs = [?a, ?a]\<rparr>"
  let ?out = "auth_meAnswered (Inl (PlainError [])) ?a"
  let ?in = "auth_signedIn (Inr (t, u)) ?out"
  have "browsing issued ?b0"
    using browsing.opened [OF browsing.opened [OF browsing.start [where stored = "Some old" and issued = issued]]] assms(3) by simp
  from browsing.refused [OF this, of 1 ?a] have "browsing issued (writeToken 1 ?out ?b0)"
    by (simp add: auth_mount_def)
  from browsing.enter [OF this, of 1 ?out t u] assms have "browsing issued (writeToken 1 ?in (writeToken 1 ?out ?b0))"
    by (simp add: auth_mount_def auth_meAnswered_def loginPage_def)
  from browsing.refused [OF this, of 0 ?a "PlainError []"]
  have "browsing issued (writeToken 0 ?out (writeToken 1 ?in (writeToken 1 ?out ?b0)))"
    by (simp add: auth_mount_def)
  then show ?thesis
    by (intro exI conjI, assumption) (simp_all add: auth_signedIn_def auth_meAnswered_def auth_mount_def)
qed

end
