(* ===== verification/Scripts.thy ===== *)
theory Scripts
  imports Controllers
begin

text \<open>
  The two command line scripts under \<^verbatim>\<open>scripts\<close>: \<^verbatim>\<open>prisma-env.mjs\<close>, which guards the migrations, and
  \<^verbatim>\<open>run-testnet-earn-flow.mjs\<close>, which drives the API through a deposit and a withdrawal.  Reading
  the environment file, running Prisma and the answers of the server are parameters; what is logged
  is left out.

  The facts: on the production environment the guard runs no \<open>migrate dev\<close>, and \<open>migrate deploy\<close> and
  \<open>migrate reset\<close> only with their permission variable (which a line of the file may set); a
  variable of the process wins over the file.  The flow makes at most twelve requests, and when it
  says that it is complete, the server had answered the deposit and the withdrawal as confirmed.
\<close>

section \<open>Environment files\<close>

text \<open>\<open>process.env[key] ??= value\<close>, line by line; both scripts read the file this way.\<close>

definition loadLine :: "string \<Rightarrow> environment \<Rightarrow> environment" where
  "loadLine line vars =
     (let trimmed = trim line; key = trim (takeWhile (\<lambda>c. c \<noteq> CHR ''='') trimmed);
          val = trim (drop 1 (dropWhile (\<lambda>c. c \<noteq> CHR ''='') trimmed))
      in if trimmed = [] \<or> startsWith trimmed ''#'' then vars
         else if CHR ''='' \<notin> set trimmed then vars
         else (case vars key of Some _ \<Rightarrow> vars | None \<Rightarrow> vars(key \<mapsto> val)))"

definition loadContent :: "string \<Rightarrow> environment \<Rightarrow> environment" where
  "loadContent content vars = fold loadLine (splitOn (CHR 0x0A) content) vars"

lemma loadLine_keeps: "vars k = Some v \<Longrightarrow> loadLine line vars k = Some v"
  by (auto simp: loadLine_def Let_def split: option.splits)

lemma loadContent_keeps: "vars k = Some v \<Longrightarrow> loadContent content vars k = Some v"
proof -
  have "vars k = Some v \<Longrightarrow> fold loadLine ls vars k = Some v" for ls
    by (induction ls arbitrary: vars) (auto intro: loadLine_keeps)
  then show "vars k = Some v \<Longrightarrow> loadContent content vars k = Some v" by (simp add: loadContent_def)
qed

section \<open>prisma-env.mjs\<close>

datatype prisma_run = Refused string | RunsPrisma "string list" environment

definition truthyVar :: "environment \<Rightarrow> string \<Rightarrow> bool" where
  "truthyVar vars k = (case vars k of Some v \<Rightarrow> v \<noteq> [] | None \<Rightarrow> False)"

definition validEnvs :: "string list" where
  "validEnvs = [''local'', ''develop'', ''production'']"

definition allowedDevEnvs :: "string list" where
  "allowedDevEnvs = [''local'', ''develop'']"

text \<open>\<open>file\<close>: the content of a file, if it exists.\<close>

definition prisma_loadEnvFile ::
    "(string \<Rightarrow> string option) \<Rightarrow> string \<Rightarrow> string option \<Rightarrow> environment \<Rightarrow> string + environment" where
  "prisma_loadEnvFile file appEnv' command vars =
     (if appEnv' \<notin> set validEnvs
      then Inl (''Invalid APP_ENV \"'' @ appEnv' @ ''\". Use local, develop, or production.'')
      else case (case file (''.env.'' @ appEnv') of
                   Some content \<Rightarrow> Inr (loadContent content vars)
                 | None \<Rightarrow>
                     if \<not> truthyVar vars ''DATABASE_URL''
                     then Inl (''Environment file not found: .env.'' @ appEnv'
                            @ '', and DATABASE_URL is not set in the process environment.'')
                     else Inr vars) of
             Inl m \<Rightarrow> Inl m
           | Inr vars' \<Rightarrow>
               if \<not> truthyVar vars' ''DATABASE_URL'' \<and> command \<noteq> Some ''generate''
               then Inl (''DATABASE_URL is missing for APP_ENV='' @ appEnv') else Inr vars')"

definition assertMigrationSafety :: "string \<Rightarrow> string option \<Rightarrow> environment \<Rightarrow> string + unit" where
  "assertMigrationSafety appEnv' command vars =
     (if command = Some ''migrate:dev'' \<and> appEnv' = ''production''
      then Inl ''Blocked: \"migrate dev\" cannot run against production. Use \"db:deploy:production\" instead.''
      else if command = Some ''migrate:dev'' \<and> appEnv' \<notin> set allowedDevEnvs
      then Inl (''Blocked: \"migrate dev\" is only allowed for APP_ENV=local or APP_ENV=develop (current: '' @ appEnv' @ '').'')
      else if command = Some ''migrate:reset'' \<and> appEnv' \<notin> set validEnvs
      then Inl (''Blocked: \"migrate reset\" is only allowed for APP_ENV=local, develop, or production (current: '' @ appEnv' @ '').'')
      else if command = Some ''migrate:reset'' \<and> appEnv' = ''production'' \<and> vars ''ALLOW_PRODUCTION_DB_RESET'' \<noteq> Some ''true''
      then Inl (''Blocked: production migrate reset requires ALLOW_PRODUCTION_DB_RESET=true.'' @ [CHR 0x0A]
             @ ''Set this explicitly in your shell before running db:reset:production.'')
      else if command = Some ''migrate:deploy'' \<and> appEnv' = ''production'' \<and> vars ''ALLOW_PRODUCTION_MIGRATION'' \<noteq> Some ''true''
      then Inl (''Blocked: production migrate deploy requires ALLOW_PRODUCTION_MIGRATION=true.'' @ [CHR 0x0A]
             @ ''Set this explicitly in Railway production variables before deploying schema changes.'')
      else Inr ())"

definition buildPrismaArgs :: "string option \<Rightarrow> string list \<Rightarrow> string + string list" where
  "buildPrismaArgs command extraArgs =
     (if command = Some ''generate'' then Inr (''generate'' # extraArgs)
      else if command = Some ''migrate:dev'' then Inr (''migrate'' # ''dev'' # extraArgs)
      else if command = Some ''migrate:deploy'' then Inr (''migrate'' # ''deploy'' # extraArgs)
      else if command = Some ''migrate:status'' then Inr (''migrate'' # ''status'' # extraArgs)
      else if command = Some ''migrate:resolve'' then Inr (''migrate'' # ''resolve'' # extraArgs)
      else if command = Some ''migrate:reset'' then Inr (''migrate'' # ''reset'' # ''--force'' # extraArgs)
      else if command = Some ''studio'' then Inr (''studio'' # extraArgs)
      else Inl (''Unknown command \"'' @ (case command of Some c \<Rightarrow> c | None \<Rightarrow> ''undefined'')
             @ ''\". Supported: generate, migrate:dev, migrate:deploy, migrate:status, migrate:resolve, migrate:reset, studio''))"

definition prismaEnv :: "(string \<Rightarrow> string option) \<Rightarrow> environment \<Rightarrow> string list \<Rightarrow> prisma_run" where
  "prismaEnv file vars argv =
     (let appEnv' = envOr vars ''APP_ENV'' ''local'';
          command = (case argv of [] \<Rightarrow> None | c # _ \<Rightarrow> Some c);
          extraArgs = drop 1 argv
      in case prisma_loadEnvFile file appEnv' command vars of
           Inl m \<Rightarrow> Refused m
         | Inr vars' \<Rightarrow>
             (case assertMigrationSafety appEnv' command vars' of
                Inl m \<Rightarrow> Refused m
              | Inr _ \<Rightarrow>
                  (case buildPrismaArgs command extraArgs of
                     Inl m \<Rightarrow> Refused m
                   | Inr prismaArgs \<Rightarrow> RunsPrisma prismaArgs vars')))"

text \<open>\<open>process.exit(result.status ?? 1)\<close>.\<close>

definition exitCode :: "int option \<Rightarrow> int" where
  "exitCode status = (case status of Some n \<Rightarrow> n | None \<Rightarrow> 1)"

lemma production_guard:
  assumes "prismaEnv file vars argv = RunsPrisma args vars'" and "envOr vars ''APP_ENV'' ''local'' = ''production''"
  shows "take 2 args \<noteq> [''migrate'', ''dev'']"
    and "take 2 args = [''migrate'', ''reset''] \<Longrightarrow> vars' ''ALLOW_PRODUCTION_DB_RESET'' = Some ''true''"
    and "take 2 args = [''migrate'', ''deploy''] \<Longrightarrow> vars' ''ALLOW_PRODUCTION_MIGRATION'' = Some ''true''"
  using assms
  by (auto simp: prismaEnv_def assertMigrationSafety_def buildPrismaArgs_def Let_def split: sum.splits if_splits list.splits)

lemma process_wins:
  assumes "prismaEnv file vars argv = RunsPrisma args vars'" and "vars k = Some v"
  shows "vars' k = Some v"
  using assms
  by (auto simp: prismaEnv_def prisma_loadEnvFile_def Let_def intro: loadContent_keeps split: sum.splits if_splits option.splits)

text \<open>So an explicit \<open>false\<close> of the shell cannot be overruled by the file, but a missing permission can be given by it.\<close>

lemma reset_refused:
  assumes "vars ''APP_ENV'' = Some ''production''" and "vars ''ALLOW_PRODUCTION_DB_RESET'' = Some v" and "v \<noteq> ''true''"
  shows "\<exists>m. prismaEnv file vars (''migrate:reset'' # extra) = Refused m"
proof (cases "prismaEnv file vars (''migrate:reset'' # extra)")
  case (RunsPrisma args vars')
  then have "take 2 args = [''migrate'', ''reset'']"
    by (auto simp: prismaEnv_def buildPrismaArgs_def Let_def split: sum.splits)
  with production_guard(2) [OF RunsPrisma] process_wins [OF RunsPrisma assms(2)] assms show ?thesis by (simp add: envOr_def)
qed simp

text \<open>Here a line of the file lets the reset of the production database through.\<close>

lemma reset_by_file:
  "prismaEnv [''.env.production'' \<mapsto> ''ALLOW_PRODUCTION_DB_RESET=true''] [''APP_ENV'' \<mapsto> ''production'', ''DATABASE_URL'' \<mapsto> ''x'']
      [''migrate:reset'']
   = RunsPrisma [''migrate'', ''reset'', ''--force''] [''APP_ENV'' \<mapsto> ''production'', ''DATABASE_URL'' \<mapsto> ''x'',
       ''ALLOW_PRODUCTION_DB_RESET'' \<mapsto> ''true'']"
  by (simp add: prismaEnv_def prisma_loadEnvFile_def assertMigrationSafety_def buildPrismaArgs_def envOr_def validEnvs_def
      truthyVar_def loadContent_def loadLine_def startsWith_def trim_def isSpace_def code_def Let_def)

section \<open>run-testnet-earn-flow.mjs\<close>

text \<open>\<open>Exited\<close>: \<open>fail\<close> ended the process, which no \<open>catch\<close> sees; \<open>Thrown\<close>: an error with the status of the answer.\<close>

datatype script_exn = Thrown "nat option" string | Exited string string

record script_call =
  sc_method :: string
  sc_path :: string
  sc_token :: "string option"
  sc_key :: "nat option"
  sc_body :: "json option"

record script_state =
  ss_sent :: "script_call list"
  ss_keys :: nat

type_synonym 'a script = "(script_state, script_exn, 'a) eff"

text \<open>The answer to the n-th request: its status and payload, or none when the server is not reached.\<close>

type_synonym script_server = "nat \<Rightarrow> script_call \<Rightarrow> (nat \<times> json) option"

definition propOf :: "string \<Rightarrow> json \<Rightarrow> json option script" where
  "propOf k v = (if v = JNull then throw (Thrown None (''Cannot read properties of null (reading '' @ k @ '')'')) else ret (jfield k v))"

definition textOf :: "json option \<Rightarrow> string" where
  "textOf v = (case v of None \<Rightarrow> ''undefined'' | Some j \<Rightarrow> jsString j)"

definition bigIntValue :: "json option \<Rightarrow> int script" where
  "bigIntValue v =
     (case v of
        Some (JNum n) \<Rightarrow> ret n
      | Some (JBool b) \<Rightarrow> ret (if b then 1 else 0)
      | Some (JStr s) \<Rightarrow> (case bigIntOf s of Some n \<Rightarrow> ret n | None \<Rightarrow> throw (Thrown None (''Cannot convert '' @ s @ '' to a BigInt'')))
      | _ \<Rightarrow> throw (Thrown None ''Cannot convert to a BigInt''))"

definition elements :: "json \<Rightarrow> json list script" where
  "elements v = (case v of JArr vs \<Rightarrow> ret vs | _ \<Rightarrow> throw (Thrown None ''find is not a function''))"

definition script_ok :: "nat \<Rightarrow> bool" where
  "script_ok status = (200 \<le> status \<and> status < 300)"

definition apiRequest :: "script_server \<Rightarrow> script_call \<Rightarrow> json script" where
  "apiRequest server c s =
     (let s' = s\<lparr>ss_sent := ss_sent s @ [c]\<rparr>
      in case server (length (ss_sent s)) c of
           None \<Rightarrow> (Inl (Thrown None ''fetch failed''), s')
         | Some (status, payload) \<Rightarrow>
             if script_ok status then (Inr payload, s')
             else (Inl (Thrown (Some status) (''HTTP '' @ showNat status @ '' '' @ sc_method c @ '' '' @ sc_path c)), s'))"

definition script_get :: "string \<Rightarrow> string option \<Rightarrow> script_call" where
  "script_get path token = \<lparr>sc_method = ''GET'', sc_path = path, sc_token = token, sc_key = None, sc_body = None\<rparr>"

definition script_post :: "string \<Rightarrow> string option \<Rightarrow> json \<Rightarrow> script_call" where
  "script_post path token body =
     \<lparr>sc_method = ''POST'', sc_path = path, sc_token = token, sc_key = None, sc_body = Some body\<rparr>"

text \<open>\<open>idempotencyHeaders\<close>: a new key with every request.\<close>

definition keyedRequest :: "script_server \<Rightarrow> script_call \<Rightarrow> json script" where
  "keyedRequest server c =
     andThen (gets ss_keys) (\<lambda>k.
     andThen (modify (\<lambda>s. s\<lparr>ss_keys := Suc k\<rparr>)) (\<lambda>_. apiRequest server (c\<lparr>sc_key := Some k\<rparr>)))"

text \<open>\<open>loadEnvFile\<close> of this script, which goes on without a file.\<close>

definition script_loadEnvFile :: "(string \<Rightarrow> string option) \<Rightarrow> environment \<Rightarrow> environment" where
  "script_loadEnvFile file vars =
     (case file (''.env.'' @ envOr vars ''APP_ENV'' ''local'') of None \<Rightarrow> vars | Some content \<Rightarrow> loadContent content vars)"

record script_config =
  sf_baseUrl :: string
  sf_email :: string
  sf_password :: string
  sf_register :: bool
  sf_vaultId :: string
  sf_chainId :: "int option"
  sf_depositAmount :: string
  sf_skipWithdraw :: bool

text \<open>
  \<open>config()\<close>, with one slash at the end of the base URL cut off.  A chain id that is no integer text is taken
  as NaN.  The requests below have their path under the base URL: \<open>script_server\<close> is the server found there.
\<close>

definition scriptConfig :: "environment \<Rightarrow> nat \<Rightarrow> script_config" where
  "scriptConfig vars time =
     \<lparr>sf_baseUrl = (let url = envOr vars ''INTEGRATION_BASE_URL'' ''http://localhost:3000/api/v1''
                     in if url \<noteq> [] \<and> last url = CHR ''/'' then butlast url else url),
      sf_email = envOr vars ''INTEGRATION_EMAIL'' (''earn-integration-'' @ showNat time @ ''@test.local''),
      sf_password = envOr vars ''INTEGRATION_PASSWORD'' ''IntegrationTestPass-32chars-min!!'',
      sf_register = (vars ''INTEGRATION_REGISTER'' = Some ''true''),
      sf_vaultId = envOr vars ''INTEGRATION_VAULT_ID'' ''aave-base-sepolia-usdc'',
      sf_chainId = bigIntOf (envOr vars ''INTEGRATION_CHAIN_ID'' ''84532''),
      sf_depositAmount = envOr vars ''INTEGRATION_DEPOSIT_AMOUNT'' ''100000'',
      sf_skipWithdraw = (vars ''INTEGRATION_SKIP_WITHDRAW'' = Some ''true'')\<rparr>"

text \<open>\<open>try { m } catch { fail(step, message) }\<close>.\<close>

definition orFail :: "string \<Rightarrow> string \<Rightarrow> 'a script \<Rightarrow> 'a script" where
  "orFail step msg m =
     catching m (\<lambda>e. case e of Thrown _ _ \<Rightarrow> throw (Exited step msg) | Exited st ms \<Rightarrow> throw (Exited st ms))"

definition credentialsBody :: "script_config \<Rightarrow> json" where
  "credentialsBody cfg = JObj [(''email'', JStr (sf_email cfg)), (''password'', JStr (sf_password cfg))]"

definition script_register :: "script_server \<Rightarrow> script_config \<Rightarrow> string script" where
  "script_register server cfg =
     andThen (apiRequest server (script_post ''/auth/register'' None (credentialsBody cfg))) (\<lambda>result.
     andThen (propOf ''accessToken'' result) (\<lambda>t. ret (textOf t)))"

definition ensureAuth :: "script_server \<Rightarrow> script_config \<Rightarrow> string script" where
  "ensureAuth server cfg =
     (if sf_register cfg then script_register server cfg
      else catching
             (andThen (apiRequest server (script_post ''/auth/login'' None (credentialsBody cfg))) (\<lambda>result.
              andThen (propOf ''accessToken'' result) (\<lambda>t. ret (textOf t))))
             (\<lambda>e. case e of
                    Thrown (Some st) m \<Rightarrow> if st = 401 then script_register server cfg else throw e
                  | _ \<Rightarrow> throw e))"

definition chainJson :: "script_config \<Rightarrow> json" where
  "chainJson cfg = (case sf_chainId cfg of Some c \<Rightarrow> JNum c | None \<Rightarrow> JNull)"

text \<open>\<open>find\<close> with a test that reads a property: a \<open>null\<close> before the hit throws.\<close>

fun findBy :: "string \<Rightarrow> json option \<Rightarrow> json list \<Rightarrow> json option script" where
  "findBy k v [] = ret None"
| "findBy k v (e # es) =
     andThen (propOf k e) (\<lambda>w. if w = v \<and> v \<noteq> None then ret (Some e) else findBy k v es)"

definition ensureWallet :: "script_server \<Rightarrow> script_config \<Rightarrow> string \<Rightarrow> json script" where
  "ensureWallet server cfg token =
     andThen (apiRequest server (script_get ''/wallets'' (Some token))) (\<lambda>answered.
     andThen (elements answered) (\<lambda>ws.
     andThen (findBy ''chainId'' (map_option JNum (sf_chainId cfg)) ws) (\<lambda>existing.
     (case existing of
        Some w \<Rightarrow> ret w
      | None \<Rightarrow>
          andThen (apiRequest server (script_post ''/wallets'' (Some token)
                     (JObj [(''chainId'', chainJson cfg), (''isPrimary'', JBool True)]))) (\<lambda>created.
          andThen (propOf ''walletId'' created) (\<lambda>_. ret created))))))"

definition script_amountBody :: "script_config \<Rightarrow> json option \<Rightarrow> json" where
  "script_amountBody cfg walletId = JObj (optField ''walletId'' walletId @ [(''amount'', JStr (sf_depositAmount cfg))])"

definition script_preview :: "script_server \<Rightarrow> script_config \<Rightarrow> string \<Rightarrow> json option \<Rightarrow> json script" where
  "script_preview server cfg token walletId =
     orFail ''preview'' ''Deposit preview failed''
       (andThen (apiRequest server (script_post (''/earn/vaults/'' @ sf_vaultId cfg @ ''/deposit/preview'') (Some token)
                   (script_amountBody cfg walletId))) (\<lambda>preview.
        andThen (propOf ''walletBalance'' preview) (\<lambda>balance.
        andThen (bigIntValue balance) (\<lambda>have.
        andThen (bigIntValue (Some (JStr (sf_depositAmount cfg)))) (\<lambda>need.
        andThen (require (\<not> have < need) (Exited ''preview''
           (''Insufficient USDC. Need '' @ sf_depositAmount cfg @ '' base units, have '' @ textOf balance
              @ ''. Fund the wallet with Aave USDC on Base Sepolia (0xba50Cd2A20f6DA35D788639E581bca8d0B5d4D5f).''))) (\<lambda>_. ret preview))))))"

definition script_approve :: "script_server \<Rightarrow> script_config \<Rightarrow> string \<Rightarrow> json option \<Rightarrow> unit script" where
  "script_approve server cfg token walletId =
     orFail ''approve'' ''Approval failed''
       (andThen (keyedRequest server (script_post (''/earn/vaults/'' @ sf_vaultId cfg @ ''/approve'') (Some token)
                   (script_amountBody cfg walletId))) (\<lambda>approved.
        andThen (propOf ''status'' approved) (\<lambda>_. ret ())))"

text \<open>A mutation that must be answered as confirmed.\<close>

definition script_confirmed :: "script_server \<Rightarrow> string \<Rightarrow> string \<Rightarrow> script_call \<Rightarrow> json script" where
  "script_confirmed server step msg c =
     orFail step msg
       (andThen (keyedRequest server c) (\<lambda>result.
        andThen (propOf ''status'' result) (\<lambda>status.
        andThen (require (status = Some (JStr ''CONFIRMED''))
                   (Exited step (''Expected CONFIRMED '' @ step @ '', got '' @ textOf status))) (\<lambda>_. ret result))))"

definition depositCall :: "script_config \<Rightarrow> string \<Rightarrow> json option \<Rightarrow> script_call" where
  "depositCall cfg token walletId =
     script_post (''/earn/vaults/'' @ sf_vaultId cfg @ ''/deposit'') (Some token) (script_amountBody cfg walletId)"

definition withdrawCall :: "string \<Rightarrow> json option \<Rightarrow> string \<Rightarrow> script_call" where
  "withdrawCall token walletId positionId =
     script_post (''/earn/positions/'' @ positionId @ ''/withdraw'') (Some token)
       (JObj (optField ''walletId'' walletId @ [(''fullWithdraw'', JBool True)]))"

definition script_vaults :: "script_server \<Rightarrow> script_config \<Rightarrow> unit script" where
  "script_vaults server cfg =
     andThen (orFail ''vaults'' ''Failed to list vaults''
       (andThen (apiRequest server (script_get (''/earn/vaults?chainId=''
                   @ (case sf_chainId cfg of Some c \<Rightarrow> showInt c | None \<Rightarrow> ''NaN'') @ ''&protocol=aave&assetSymbol=USDC'') None)) (\<lambda>answered.
        andThen (elements answered) (\<lambda>vs. andThen (mapAll (propOf ''vaultId'') vs) (\<lambda>_. ret vs))))) (\<lambda>vs.
     andThen (findBy ''vaultId'' (Some (JStr (sf_vaultId cfg))) vs) (\<lambda>vault.
       require (vault \<noteq> None) (Exited ''vaults'' (''Vault not found: '' @ sf_vaultId cfg))))"

definition script_read :: "script_server \<Rightarrow> string \<Rightarrow> string \<Rightarrow> string \<Rightarrow> string \<Rightarrow> string \<Rightarrow> unit script" where
  "script_read server step msg path token field =
     orFail step msg (andThen (apiRequest server (script_get path (Some token))) (\<lambda>r. andThen (propOf field r) (\<lambda>_. ret ())))"

definition script_main :: "script_server \<Rightarrow> script_config \<Rightarrow> unit script" where
  "script_main server cfg =
     andThen (orFail ''health'' ''API is not reachable or not ready. Start the server with: npm run start:dev''
                (apiRequest server (script_get ''/health/ready'' None))) (\<lambda>_.
     andThen (orFail ''auth'' ''Authentication failed'' (ensureAuth server cfg)) (\<lambda>token.
     andThen (orFail ''wallet'' ''Wallet creation failed (check Privy credentials and server logs)''
                (ensureWallet server cfg token)) (\<lambda>w.
     andThen (script_vaults server cfg) (\<lambda>_.
     let walletId = jfield ''walletId'' w in
     andThen (script_preview server cfg token walletId) (\<lambda>preview.
     andThen (whenE (case jfield ''requiresApproval'' preview of Some v \<Rightarrow> truthy v | None \<Rightarrow> False)
                (script_approve server cfg token walletId)) (\<lambda>_.
     andThen (script_confirmed server ''deposit'' ''Deposit failed'' (depositCall cfg token walletId)) (\<lambda>deposit.
     let positionId = textOf (jfield ''positionId'' deposit) in
     andThen (script_read server ''position'' ''Failed to fetch position detail'' (''/earn/positions/'' @ positionId) token ''positionId'') (\<lambda>_.
     andThen (script_read server ''transactions'' ''Failed to list transactions'' ''/earn/transactions?limit=10'' token ''total'') (\<lambda>_.
     if sf_skipWithdraw cfg then ret ()
     else andThen (script_confirmed server ''withdraw'' ''Withdraw failed'' (withdrawCall token walletId positionId)) (\<lambda>_. ret ()))))))))))"

text \<open>The whole script, from the variables of the process and the files, with the last \<open>catch\<close>.\<close>

definition script_run :: "(string \<Rightarrow> string option) \<Rightarrow> environment \<Rightarrow> nat \<Rightarrow> script_server \<Rightarrow> unit script" where
  "script_run file vars time server =
     catching (script_main server (scriptConfig (script_loadEnvFile file vars) time))
       (\<lambda>e. case e of Thrown _ m \<Rightarrow> throw (Exited ''fatal'' m) | Exited st m \<Rightarrow> throw (Exited st m))"

section \<open>What the flow asks for\<close>

text \<open>\<open>m\<close> adds at most \<open>n\<close> requests to those made so far.\<close>

definition asks :: "nat \<Rightarrow> 'a script \<Rightarrow> bool" where
  "asks n m \<longleftrightarrow> (\<forall>s. \<exists>qs. ss_sent (snd (m s)) = ss_sent s @ qs \<and> length qs \<le> n)"

named_theorems asks_intros "bounds on the requests a step of the script makes"

lemma asks_le: "asks n m \<Longrightarrow> n \<le> k \<Longrightarrow> asks k m"
  unfolding asks_def by (meson le_trans)

lemma asks_none [asks_intros]:
  "asks 0 (ret u)" "asks 0 (throw e)" "asks 0 (gets f)" "asks 0 (require b e)" "asks 0 (propOf k v)" "asks 0 (elements v)"
  "asks 0 (bigIntValue w)" "asks 0 (modify (\<lambda>s. s\<lparr>ss_keys := n\<rparr>))"
  by (auto simp: asks_def require_def propOf_def elements_def bigIntValue_def split: json.split option.split)

lemma asks_request [asks_intros]: "asks (Suc 0) (apiRequest server c)"
  by (auto simp: asks_def apiRequest_def Let_def split: option.split)

lemma asks_andThen:
  assumes "asks a m" and "\<And>v. asks b (f v)"
  shows "asks (a + b) (andThen m f)"
  unfolding asks_def
proof
  fix s
  obtain r s1 where m: "m s = (r, s1)" by force
  obtain qs where qs: "ss_sent s1 = ss_sent s @ qs" "length qs \<le> a" using assms(1) m unfolding asks_def by (metis snd_conv)
  show "\<exists>qs. ss_sent (snd (andThen m f s)) = ss_sent s @ qs \<and> length qs \<le> a + b"
  proof (cases r)
    case (Inl e)
    with m qs show ?thesis by (intro exI [of _ qs]) (simp add: andThen_def)
  next
    case (Inr v)
    from assms(2) [of v] obtain ps where "ss_sent (snd (f v s1)) = ss_sent s1 @ ps" "length ps \<le> b" unfolding asks_def by blast
    with Inr m qs show ?thesis by (intro exI [of _ "qs @ ps"]) (simp add: andThen_def)
  qed
qed

lemma asks_catching:
  assumes "asks a m" and "\<And>e. asks b (h e)"
  shows "asks (a + b) (catching m h)"
proof -
  have "catching m h = (\<lambda>s. case m s of (Inl e, s') \<Rightarrow> h e s' | (Inr v, s') \<Rightarrow> (Inr v, s'))"
    by (rule ext) (simp add: catching_def)
  moreover have "\<exists>qs. ss_sent (snd (catching m h s)) = ss_sent s @ qs \<and> length qs \<le> a + b" for s
  proof -
    obtain r s1 where m: "m s = (r, s1)" by force
    obtain qs where qs: "ss_sent s1 = ss_sent s @ qs" "length qs \<le> a" using assms(1) m unfolding asks_def by (metis snd_conv)
    show ?thesis
    proof (cases r)
      case (Inr v)
      with m qs show ?thesis by (intro exI [of _ qs]) (simp add: catching_def)
    next
      case (Inl e)
      from assms(2) [of e] obtain ps where "ss_sent (snd (h e s1)) = ss_sent s1 @ ps" "length ps \<le> b" unfolding asks_def by blast
      with Inl m qs show ?thesis by (intro exI [of _ "qs @ ps"]) (simp add: catching_def)
    qed
  qed
  ultimately show ?thesis by (simp add: asks_def)
qed

lemma asks_orFail [asks_intros]: "asks n m \<Longrightarrow> asks n (orFail step msg m)"
  unfolding orFail_def by (rule asks_catching [where b = 0, simplified]) (auto intro: asks_none split: script_exn.split)

lemma asks_findBy [asks_intros]: "asks 0 (findBy k v es)"
proof (induction es)
  case Nil
  show ?case unfolding findBy.simps mapAll.simps by (rule asks_none)
next
  case (Cons e es)
  have "asks (0 + 0) (andThen (propOf k e) (\<lambda>w. if w = v \<and> v \<noteq> None then ret (Some e) else findBy k v es))"
    by (rule asks_andThen, rule asks_none) (insert Cons, auto intro: asks_none)
  then show ?case by simp
qed

lemma asks_mapProp [asks_intros]: "asks 0 (mapAll (propOf k) es)"
proof (induction es)
  case Nil
  show ?case unfolding findBy.simps mapAll.simps by (rule asks_none)
next
  case (Cons e es)
  have "asks (0 + (0 + 0)) (andThen (propOf k e) (\<lambda>y. andThen (mapAll (propOf k) es) (\<lambda>ys. ret (y # ys))))"
    by (intro asks_andThen asks_none Cons)
  then show ?case by simp
qed

lemma asks_keyed [asks_intros]: "asks (Suc 0) (keyedRequest server c)"
proof -
  have "asks (0 + (0 + Suc 0)) (keyedRequest server c)" unfolding keyedRequest_def
    by (intro asks_andThen asks_none asks_request)
  then show ?thesis by simp
qed

lemma asks_register [asks_intros]: "asks (Suc 0) (script_register server cfg)"
proof -
  have "asks (Suc 0 + (0 + 0)) (script_register server cfg)" unfolding script_register_def
    by (intro asks_andThen asks_none asks_request)
  then show ?thesis by simp
qed

lemma asks_auth: "asks 2 (ensureAuth server cfg)"
proof (cases "sf_register cfg")
  case True
  then show ?thesis using asks_le [OF asks_register, of 2] by (simp add: ensureAuth_def)
next
  case False
  have "asks ((Suc 0 + (0 + 0)) + Suc 0) (ensureAuth server cfg)"
    unfolding ensureAuth_def if_not_P [OF False]
    by (intro asks_catching asks_andThen asks_none asks_request)
       (auto intro: asks_register asks_le [OF asks_none(2)] split: script_exn.split option.split)
  then show ?thesis by (simp add: numeral_2_eq_2)
qed

lemma asks_wallet: "asks 2 (ensureWallet server cfg token)"
proof -
  have "asks (Suc 0 + (0 + (0 + (Suc 0 + (0 + 0))))) (ensureWallet server cfg token)"
    unfolding ensureWallet_def
    by (intro asks_andThen asks_none asks_request asks_findBy)
       (auto intro!: asks_andThen [of "Suc 0" _ "0 + 0", simplified] asks_andThen [of 0 _ 0, simplified] intro: asks_none asks_request
          asks_le [OF asks_none(1)] split: option.split)
  then show ?thesis by (simp add: numeral_2_eq_2)
qed

lemma asks_vaults: "asks (Suc 0) (script_vaults server cfg)"
proof -
  have "asks ((Suc 0 + (0 + (0 + 0))) + (0 + 0)) (script_vaults server cfg)"
    unfolding script_vaults_def by (intro asks_andThen asks_orFail asks_none asks_request asks_findBy asks_mapProp)
  then show ?thesis by simp
qed

lemma asks_preview: "asks (Suc 0) (script_preview server cfg token i)"
proof -
  have "asks (Suc 0 + (0 + (0 + (0 + (0 + 0))))) (script_preview server cfg token i)"
    unfolding script_preview_def by (intro asks_andThen asks_orFail asks_none asks_request)
  then show ?thesis by simp
qed

lemma asks_approve: "asks (Suc 0) (script_approve server cfg token i)"
proof -
  have "asks (Suc 0 + (0 + 0)) (script_approve server cfg token i)"
    unfolding script_approve_def by (intro asks_andThen asks_orFail asks_none asks_keyed)
  then show ?thesis by simp
qed

lemma asks_confirmed: "asks (Suc 0) (script_confirmed server step msg c)"
proof -
  have "asks (Suc 0 + (0 + (0 + 0))) (script_confirmed server step msg c)"
    unfolding script_confirmed_def by (intro asks_andThen asks_orFail asks_none asks_keyed)
  then show ?thesis by simp
qed

lemma asks_read: "asks (Suc 0) (script_read server step msg path token field)"
proof -
  have "asks (Suc 0 + (0 + 0)) (script_read server step msg path token field)"
    unfolding script_read_def by (intro asks_andThen asks_orFail asks_none asks_request)
  then show ?thesis by simp
qed

lemma asks_whenE: "asks n m \<Longrightarrow> asks n (whenE b m)"
  unfolding whenE_def by (cases b) (simp_all only: if_True if_False asks_le [OF asks_none(1)] zero_le)

lemma asks_main: "asks 12 (script_main server cfg)"
proof -
  have last: "asks (Suc 0) (if sf_skipWithdraw cfg then ret () else andThen (script_confirmed server st m c) (\<lambda>_. ret ()))" for st m c
    using asks_andThen [OF asks_confirmed [of server st m c] asks_none(1)]
    by (cases "sf_skipWithdraw cfg") (simp_all only: if_True if_False asks_le [OF asks_none(1)] zero_le add_0_right)
  have "asks (Suc 0 + (2 + (2 + (Suc 0 + (Suc 0 + (Suc 0 + (Suc 0 + (Suc 0 + (Suc 0 + Suc 0))))))))) (script_main server cfg)"
    unfolding script_main_def Let_def
    by (intro asks_andThen asks_orFail asks_request asks_auth asks_wallet asks_vaults asks_preview asks_whenE asks_approve
        asks_confirmed asks_read last)
  then show ?thesis by (rule asks_le) simp
qed

section \<open>What a completed flow means\<close>

text \<open>The n-th request was \<open>c\<close> under some key, and was answered with \<open>r\<close>, which says that it is confirmed.\<close>

definition confirmedAt :: "script_server \<Rightarrow> script_call list \<Rightarrow> nat \<Rightarrow> script_call \<Rightarrow> json \<Rightarrow> bool" where
  "confirmedAt server cs n c r \<longleftrightarrow> n < length cs \<and> (\<exists>k st. cs ! n = c\<lparr>sc_key := Some k\<rparr> \<and> server n (cs ! n) = Some (st, r)
     \<and> script_ok st \<and> jfield ''status'' r = Some (JStr ''CONFIRMED''))"

lemma key_update_eq [simp]: "c\<lparr>sc_key := a\<rparr> = c\<lparr>sc_key := b\<rparr> \<longleftrightarrow> a = b"
  by (metis script_call.select_convs(4) script_call.surjective script_call.update_convs(4))

lemma confirmedAt_append: "confirmedAt server cs n c r \<Longrightarrow> confirmedAt server (cs @ ds) n c r"
  by (auto simp: confirmedAt_def nth_append)

lemma confirmed_run:
  assumes "script_confirmed server step msg c s = (Inr r, s')"
  shows "confirmedAt server (ss_sent s') (length (ss_sent s)) c r"
proof -
  from assms have "andThen (keyedRequest server c) (\<lambda>result.
        andThen (propOf ''status'' result) (\<lambda>status.
        andThen (require (status = Some (JStr ''CONFIRMED''))
                   (Exited step (''Expected CONFIRMED '' @ step @ '', got '' @ textOf status))) (\<lambda>_. ret result))) s = (Inr r, s')"
    by (auto simp: script_confirmed_def orFail_def catching_def split: prod.splits sum.splits script_exn.splits)
  then obtain s1 where k: "keyedRequest server c s = (Inr r, s1)" "s' = s1" "jfield ''status'' r = Some (JStr ''CONFIRMED'')"
    by (elim andThen_InrE) (auto simp: propOf_def split: if_splits)
  then show ?thesis
    by (auto simp: keyedRequest_def andThen_def apiRequest_def confirmedAt_def Let_def
        split: option.splits if_splits)
qed

lemma asks_grows: "asks n m \<Longrightarrow> m s = (r, s') \<Longrightarrow> \<exists>qs. ss_sent s' = ss_sent s @ qs"
  unfolding asks_def by (metis snd_conv)

lemma main_done:
  assumes "script_main server cfg s = (Inr (), s')"
  shows "\<exists>token i n r. confirmedAt server (ss_sent s') n (depositCall cfg token i) r
     \<and> (sf_skipWithdraw cfg \<or> (\<exists>n' r'. n < n' \<and> confirmedAt server (ss_sent s') n'
           (withdrawCall token i (textOf (jfield ''positionId'' r))) r'))"
proof -
  from assms obtain token i s1 r s2 s3 s4
    where d: "script_confirmed server ''deposit'' ''Deposit failed'' (depositCall cfg token i) s1 = (Inr r, s2)"
    and r1: "script_read server ''position'' ''Failed to fetch position detail''
          (''/earn/positions/'' @ textOf (jfield ''positionId'' r)) token ''positionId'' s2 = (Inr (), s3)"
    and r2: "script_read server ''transactions'' ''Failed to list transactions'' ''/earn/transactions?limit=10'' token ''total'' s3 = (Inr (), s4)"
    and w: "(if sf_skipWithdraw cfg then ret ()
        else andThen (script_confirmed server ''withdraw'' ''Withdraw failed'' (withdrawCall token i (textOf (jfield ''positionId'' r)))) (\<lambda>_. ret ())) s4
      = (Inr (), s')"
    unfolding script_main_def Let_def by (elim andThen_InrE) (rule that, simp_all)
  from asks_grows [OF asks_read r1] asks_grows [OF asks_read r2] obtain qs where q: "ss_sent s4 = ss_sent s2 @ qs" by auto
  note dep = confirmed_run [OF d]
  show ?thesis
  proof (cases "sf_skipWithdraw cfg")
    case True
    with w q dep show ?thesis by (auto intro!: exI confirmedAt_append)
  next
    case False
    with w obtain r' where w': "script_confirmed server ''withdraw'' ''Withdraw failed''
        (withdrawCall token i (textOf (jfield ''positionId'' r))) s4 = (Inr r', s')"
      by (auto elim!: andThen_InrE)
    from asks_grows [OF asks_confirmed w'] obtain ps where p: "ss_sent s' = ss_sent s4 @ ps" by auto
    have "length (ss_sent s1) < length (ss_sent s4)" using dep q by (simp add: confirmedAt_def)
    moreover have "confirmedAt server (ss_sent s') (length (ss_sent s1)) (depositCall cfg token i) r"
      unfolding p q by (simp add: confirmedAt_append dep)
    ultimately show ?thesis using confirmed_run [OF w'] by blast
  qed
qed

end
