(* ===== verification/Scenarios.thy ===== *)
theory Scenarios
  imports Settling History Holdings Demo Startup Rendering Sessions Scripts
begin

text \<open>
  Concrete requests over the demo world of \<open>Demo\<close>, evaluated: the same deposit posted twice under
  one idempotency key, an approval whose last read fails, a deposit that
  is confirmed by the worker and then failed by its request, a registration and the login after it,
  the deposit dialog of the client up to its deposit, and a client that holds what the server answers.  They are the inputs at which the
  properties of the routes and the accounts are shown to apply.
\<close>

section \<open>A deposit posted twice\<close>

definition demoRequest :: http_request where
  "demoRequest = \<lparr>h_method = ''POST'', h_routePath = None, h_path = ''/d'', h_params = [(''vaultId'', ''v'')], h_query = [],
     h_body = Some (JObj [(''walletId'', JStr ''1''), (''amount'', JStr ''25'')]),
     h_header = (\<lambda>n. if n = ''idempotency-key'' then Some ''k'' else None), h_userId = Some 0\<rparr>"

lemma demo_request:
  "h_userId demoRequest = Some 0" "h_body demoRequest = Some (JObj [(''walletId'', JStr ''1''), (''amount'', JStr ''25'')])"
  "h_params demoRequest = [(''vaultId'', ''v'')]" "keyed (demoEnv st) demoRequest ''k''"
  by (simp_all add: demoRequest_def keyed_def demoEnv_sel demoConfig_def readIdempotencyKey_def trim_def isSpace_def code_def)

lemma demo_parsed: "parseDepositDto (h_body demoRequest) = Inr demoDeposit"
proof -
  have "uuidOf ''1'' = Some 1" "isPositiveBigIntString (JStr ''25'')" by code_simp+
  then show ?thesis
    by (simp add: demo_request parseDepositDto_def bodyProps_def uuidProp_def amountProp_def strangers_def demoDeposit_def)
qed

definition demoPosted :: world where
  "demoPosted = withRow (freshRow (demoEnv Success) (acquireInputOf (demoEnv Success) OpDeposit demoRequest ''k'') demoWorld) demoWorld"

lemma demo_posted_deposit:
  "(case depositVault (demoEnv Success) 0 ''v'' demoDeposit demoPosted of (r, s) \<Rightarrow>
     (isl r, map p_shares (positions s), length (sent s), map i_id (idempotencyKeys s))) = (False, [25], 1, [2])"
  by (simp add: demoPosted_def withRow_def freshRow_def demo_run cong: lazy)

lemma demo_post:
  "\<exists>body s. postDeposit (demoEnv Success) demoRequest demoWorld = (Inr (201, body), s)
     \<and> map p_shares (positions s) = [25] \<and> length (sent s) = 1"
proof -
  have none: "rowFor ''k'' (requestPathOf OpDeposit) demoWorld = None" by (simp add: rowFor_def demoWorld_def emptyWorld_def)
  have nid: "nextId demoWorld = 2" by (simp add: demoWorld_def)
  obtain r t where run: "depositVault (demoEnv Success) 0 ''v'' demoDeposit demoPosted = (Inr r, t)"
    and t: "map p_shares (positions t) = [25]" "length (sent t) = 1" "map i_id (idempotencyKeys t) = [2]"
    using demo_posted_deposit by (cases "fst (depositVault (demoEnv Success) 0 ''v'' demoDeposit demoPosted)") (auto split: prod.splits)
  then have "depositHandler (demoEnv Success) 0 demoRequest demoPosted = (Inr (depositJson r), t)"
    by (simp add: depositHandler_def demo_parsed paramOf_def demo_request(3) andThen_Inr)
  moreover obtain k where k: "idempotencyKeys t = [k]" "i_id k = 2" using t(3) by auto
  ultimately show ?thesis
    using intercept_first [OF demo_request(4) [of Success] none, of 201 "depositHandler (demoEnv Success) 0 demoRequest"] t
    by (simp add: postDeposit_def guarded_def demo_request(1) demoPosted_def nid idem_runHandler_def andThen_def catching_def
        idem_complete_def shouldPersistResponse_def idemRepo_saveResponse_def idempotencyUpdate_def tableUpdate_def put_defs Let_def)
qed

section \<open>A deposit that dies after it was sent\<close>

definition demoLog :: audit_log_input where
  "demoLog = \<lparr>al_userId = None, al_action = DEPOSIT_REQUESTED, al_entityType = ''transaction'', al_entityId = 4,
     al_metadata = None\<rparr>"

definition demoDead :: world where
  "demoDead = snd (depositUntil Asked demoLog (demoEnv Success) 0 ''v'' demoDeposit demoPosted)"

lemma demo_dead_state:
  "map (\<lambda>p. (p_status p, p_shares p)) (positions demoDead) = [(P_PENDING, 0)]"
  "map t_status (transactions demoDead) = [T_CREATED]" "length (sent demoDead) = 1"
  by (simp_all add: demoDead_def depositUntil_def dieAt_def demoLog_def demoPosted_def withRow_def freshRow_def demo_run cong: lazy)

lemma demo_dies: "die (demoEnv Success) demoWorld demoDead"
proof -
  let ?in = "acquireInputOf (demoEnv Success) OpDeposit demoRequest ''k''"
  have "idem_acquire (demoEnv Success) ?in demoWorld = (Inr (None, 2), demoPosted)"
    using acquire_miss [of "demoEnv Success" _ ?in demoWorld]
    by (simp add: demoEnv_sel demoConfig_def rowFor_def demoWorld_def emptyWorld_def demoPosted_def)
  from die.deposit [OF this demo_parsed] show ?thesis by (simp add: demoDead_def)
qed

section \<open>An approval whose last read fails\<close>

text \<open>
  The approval is mined, and the allowance cannot be read afterwards: the row was confirmed and is now failed,
  and the request fails.
\<close>

definition unreadableAfter :: "nat \<Rightarrow> env" where
  "unreadableAfter k = (demoEnv Success)\<lparr>e_allowance := (\<lambda>n _ _ _ _. if n < k then Inr 100 else Inl (PlainError ''rpc''))\<rparr>"

lemma approval_overwritten:
  "(case approveVault (unreadableAfter 4) 0 ''v'' demoApprove demoWorld of (r, s) \<Rightarrow>
     (isl r, map (\<lambda>t. (t_type t, t_status t, t_amount t, t_blockNumber t)) (transactions s), length (sent s)))
   = (True, [(APPROVAL, T_FAILED, 500, Some 7)], 1)"
  by (simp add: unreadableAfter_def demo_approve_run cong: lazy)

section \<open>A wait that ends after the worker\<close>

text \<open>
  The request of a first deposit has stored the hash and waits for the receipt; the worker finds the
  transaction mined and confirms it; then the wait times out and the request runs its \<open>catch\<close> block, which
  looks at no status: the deposit is failed although the position holds it.
\<close>

definition waitTimesOut :: env where
  "waitTimesOut = (demoEnv Success)\<lparr>e_waitReceipt := (\<lambda>_ _ _. Inl (PlainError ''timeout''))\<rparr>"

definition demoWaiting :: world where
  "demoWaiting = snd (depositUntil Submitted demoLog waitTimesOut 0 ''v'' demoDeposit demoWorld)"

lemma demo_waiting:
  "map (\<lambda>p. (p_id p, p_status p, p_shares p)) (positions demoWaiting) = [(3, P_PENDING, 0)]"
  "map (\<lambda>t. (t_id t, t_status t)) (transactions demoWaiting) = [(4, T_SUBMITTED)]"
  by (simp_all add: demoWaiting_def waitTimesOut_def depositUntil_def dieAt_def demoLog_def demo_run cong: lazy)

definition demoReconciled :: world where
  "demoReconciled = snd (rec_runReconciliation (demoEnv Success) demoWaiting)"

lemmas demo_worker_run = rec_runReconciliation_def rec_reconcileStaleCreated_def rec_reconcileTransaction_def
  rec_handleConfirmedTransaction_def rec_bodies rec_logConfirmedAudit_def confirmedAction_def readEstimatedShares_def
  readMetadataString_def staleCreatedMinutes_def countOutcome_def emptySummary_def

lemma late_failure:
  assumes "pr_positionId pr = 3" and "tr_transactionId tr = 4"
  shows "(case dep_fail pr True tr e demoReconciled of (_, s) \<Rightarrow>
      (map (\<lambda>p. (p_status p, p_shares p)) (positions demoReconciled), map t_status (transactions demoReconciled),
       map (\<lambda>p. (p_status p, p_shares p)) (positions s), map t_status (transactions s)))
   = ([(P_ACTIVE, 25)], [T_CONFIRMED], [(P_FAILED, 25)], [T_FAILED])"
proof -
  have three: "receiptRetry x c h k 3 = receiptRetry x c h k (Suc (Suc (Suc 0)))" for x c h k
    by (simp add: numeral_3_eq_3)
  show ?thesis using assms
  by (simp add: three demoReconciled_def demoWaiting_def waitTimesOut_def depositUntil_def dieAt_def demoLog_def demo_worker_run
      dep_fail_def demo_run cong: lazy)
qed

section \<open>An account\<close>

text \<open>Library functions that satisfy what is relied upon: a hash that compares, a token that verifies.\<close>

definition demoAuth :: auth_lib where
  "demoAuth = \<lparr>ab_hash = (\<lambda>_ p. CHR ''#'' # p), ab_compare = (\<lambda>p h. h = CHR ''#'' # p),
     ab_sign = (\<lambda>_ (sub, email). replicate (length sub) (CHR ''#'') @ CHR '' '' # sub @ email),
     ab_verify = (\<lambda>_ h. map_option (\<lambda>h. let token = drop 7 h; n = length (takeWhile (\<lambda>c. c = CHR ''#'') token)
                    in (take n (drop (Suc n) token), drop (Suc n + n) token)) h),
     ab_privyVerify = (\<lambda>_ t. Inr t)\<rparr>"

lemma takeWhile_replicate_stop: "y \<noteq> x \<Longrightarrow> takeWhile (\<lambda>c. c = x) (replicate n x @ y # z) = replicate n x"
  by (induction n) auto

lemma demo_auth:
  "ab_compare demoAuth p (ab_hash demoAuth n p)" "ab_hash demoAuth n p \<noteq> []"
  by (simp_all add: demoAuth_def)

lemma demo_token: "ab_verify demoAuth t (Some (''Bearer '' @ ab_sign demoAuth t q)) = Some q"
  by (cases q) (simp add: demoAuth_def Let_def takeWhile_replicate_stop eval_nat_numeral)

definition demoCredentials :: credentials_dto where
  "demoCredentials = \<lparr>cr_email = '' A@b.c'', cr_password = ''secret''\<rparr>"

lemma demo_email: "normalizeEmail '' A@b.c'' = ''a@b.c''"
  by code_simp

lemma demo_register:
  "\<exists>r s. register (demoEnv Success) demoAuth demoCredentials emptyWorld = (Inr r, s) \<and> map u_email (users s) = [Some ''a@b.c'']"
  by (simp add: register_def Let_def andThen_def insertUser_def userByEmail_def demoCredentials_def demo_email emptyWorld_def
      demoAuth_def auditLog_def eff_simps extCall_def buildAuthResponse_def signToken_def publicUser_def)

section \<open>What a worker finds\<close>

definition demoPending :: world where
  "demoPending = demoBooks [demoPosition P_PENDING 0] [demoTx 5 DEPOSIT T_SUBMITTED 25]"

definition demoTopUp :: world where
  "demoTopUp = demoBooks [demoPosition P_ACTIVE 10] [demoTx 4 DEPOSIT T_CONFIRMED 10, demoTx 5 DEPOSIT T_SUBMITTED 25]"

definition demoLeaving :: "position_status \<Rightarrow> world" where
  "demoLeaving st = demoBooks [demoPosition st 25] [demoTx 4 DEPOSIT T_CONFIRMED 25, demoTx 5 WITHDRAW T_SUBMITTED 10]"

lemmas demo_worker_worlds = demoPending_def demoTopUp_def demoLeaving_def

lemma demo_worker_base:
  "base (\<lambda>_. 0) (insert 5 {}) demoPending" "base (\<lambda>_. 0) (insert 5 {}) demoTopUp" "base (\<lambda>_. 0) (insert 5 {}) (demoLeaving st)"
  by (simp_all add: demo_worker_worlds base_def dbInv_def posInv_def txInv_def ledger_def openIn_def refsBelow_def demo_tables
      emptyWorld_def goodPosition_def goodTransaction_def balanceOf_def delta_def decimalFits_def decimalBound_def isOpen_def
      metadataGood_def metadataString_def)

lemma demo_readable: "readable (demoEnv st) (demoTx i ty T_SUBMITTED n)"
  by (simp add: readable_def demoTx_def bc_getChainDefinition_def demoEnv_def demoConfig_def)

section \<open>A deposit in the client\<close>

definition demoShelf :: client_vault where
  "demoShelf = \<lparr>cv_vaultId = ''v'', cv_protocol = ''aave'', cv_chainId = 84532, cv_contractAddress = ''p'', cv_name = ''U'',
     cv_symbol = ''aU'', cv_assetSymbol = ''U'', cv_assetDecimals = 6, cv_assetAddress = ''u'', cv_apy = ''0'', cv_tvl = ''0'',
     cv_sharePrice = ''1'', cv_totalSupply = ''0'', cv_metadata = \<lparr>cm_description = None, cm_image = None, cm_curator = None\<rparr>,
     cv_isEnabled = True, cv_depositEnabled = True, cv_withdrawEnabled = True, cv_riskLevel = Low\<rparr>"

definition demoPurse :: client_wallet where
  "demoPurse = \<lparr>cl_walletId = ''1'', cl_privyWalletId = ''w'', cl_walletAddress = ''a'', cl_chainId = 84532,
     cl_walletType = ''EMBEDDED'', cl_isPrimary = True, cl_createdAt = [], cl_updatedAt = [], cl_balance = None, cl_balances = None\<rparr>"

definition demoPreviewRequest :: http_request where
  "demoPreviewRequest = \<lparr>h_method = ''POST'', h_routePath = None, h_path = ''/p'', h_params = [(''vaultId'', ''v'')], h_query = [],
     h_body = Some (amountBody ''1'' ''25''),
     h_header = (\<lambda>n. if n = ''authorization'' then Some (''Bearer '' @ ab_sign demoAuth 0 (''0'', ''e'')) else None), h_userId = None\<rparr>"

lemma demo_preview:
  "(case earn_previewDeposit (demoEnv Success) 0 ''v'' demoDeposit demoWorld of (r, s) \<Rightarrow>
     map_sum (\<lambda>_. ()) de_requiresApproval r) = Inr False"
proof -
  have "e_estimateGas (demoEnv Success) n c f t d = Inr 0" for n c f t d by (simp add: demoEnv_def)
  then show ?thesis by (simp add: earn_previewDeposit_def earn_assertVaultActive_def demo_run cong: lazy)
qed

lemma demo_previews: "serverPreviews (api_previewDeposit ''v'' ''1'' ''25'') False"
proof -
  obtain r s where run: "earn_previewDeposit (demoEnv Success) 0 ''v'' demoDeposit demoWorld = (Inr r, s)" "\<not> de_requiresApproval r"
    using demo_preview by (auto split: prod.splits simp: map_sum_def split: sum.splits)
  have guard: "jwtGuard demoAuth (h_header demoPreviewRequest ''authorization'') demoWorld = (Inr (''0'', ''e''), demoWorld)"
    using demo_token [of 0 "(''0'', ''e'')"]
    by (simp add: jwtGuard_def andThen_def gets_def demoPreviewRequest_def validatePayload_def lift_def demoWorld_def emptyWorld_def)
  have "uuidOf ''0'' = Some 0" by code_simp
  moreover have "parseDepositDto (h_body demoPreviewRequest) = Inr demoDeposit"
    using demo_parsed by (simp add: demoPreviewRequest_def amountBody_def demo_request)
  ultimately have "vaults_previewDeposit (demoEnv Success) demoAuth demoPreviewRequest demoWorld = (Inr (201, r), s)"
    using run(1) guard
    by (simp add: vaults_previewDeposit_def authenticated_def andThen_def lift_def answer_def paramOf_def
        demoPreviewRequest_def ret_def)
  then show ?thesis
    unfolding serverPreviews_def using run(2)
    by (intro exI [of _ "demoEnv Success"] exI [of _ demoAuth] exI [of _ demoPreviewRequest] exI [of _ demoWorld] exI [of _ r]
        exI [of _ s]) (simp add: call_bodies demoPreviewRequest_def)
qed

lemma keys_differ: "inj showNat"
  by (rule injI) (simp add: showNat_inj)

text \<open>The amount is typed, previewed and deposited.\<close>

definition demoFlow :: deposit_flow where
  "demoFlow = flow_handleDeposit showNat demoShelf demoPurse
     (flow_previewed False ''25'' (flow_handlePreview demoShelf demoPurse (flow_typed ''0.000025'' flow_init)))"

lemma demo_typed: "parseAmount ''0.000025'' 6 = Inr ''25''"
  by code_simp

lemma demo_flow_sent:
  "df_sent demoFlow = [api_previewDeposit ''v'' ''1'' ''25'', api_deposit ''v'' ''1'' ''25'' (showNat 0)]"
  by (simp add: demoFlow_def flow_defs demo_typed demoShelf_def demoPurse_def)

lemma demo_flowing: "flowing serverPreviews showNat demoShelf {demoPurse} demoPurse demoFlow"
proof -
  let ?f = "flow_handlePreview demoShelf demoPurse (flow_typed ''0.000025'' flow_init)"
  have "flowing serverPreviews showNat demoShelf {demoPurse} demoPurse ?f"
    by (intro flowing.preview flowing.typed flowing.start) (simp_all add: flow_defs)
  moreover have "df_awaiting ?f = Previewing ''25''" by (simp add: flow_defs demo_typed demoShelf_def)
  ultimately have "flowing serverPreviews showNat demoShelf {demoPurse} demoPurse (flow_previewed False ''25'' ?f)"
    by (rule flowing.previewed) (simp add: flow_defs demo_typed demoShelf_def demoPurse_def demo_previews)
  then show ?thesis unfolding demoFlow_def
    by (rule flowing.deposit) (simp_all add: flow_previewed_def)
qed

section \<open>A client on the server's answers\<close>

text \<open>
  A user who is signed in, with what the handlers of the back end answer in the world that holds a position: they look at
  the one vault, whose deposit dialog is open.
\<close>

definition answered :: "'a list io \<Rightarrow> 'a list" where
  "answered m = (case fst (m demoHeld) of Inr xs \<Rightarrow> xs | Inl _ \<Rightarrow> [])"

definition demoVaultList :: "vault_response list io" where
  "demoVaultList = earn_listVaults (demoEnv Success) \<lparr>gv_chainId = None, gv_assetSymbol = None, gv_protocol = None\<rparr>"

definition demoPositionList :: "position_response list io" where
  "demoPositionList = epos_listPositions (demoEnv Success) 0 \<lparr>pq_walletId = None, pq_vaultId = None, pq_status = None\<rparr>"

definition demoUser :: client_user where
  "demoUser = \<lparr>cu_id = ''0'', cu_email = Some ''e'', cu_createdAt = [], cu_updatedAt = []\<rparr>"

definition demoLib :: "string js_lib" where
  "demoLib = \<lparr>js_parseFloat = (\<lambda>s. s), js_isNaN = (\<lambda>_. True), js_times = (\<lambda>s _. s), js_over = (\<lambda>s _. s), js_atLeast = (\<lambda>_ _. False),
     js_toFixed2 = (\<lambda>s. s), js_localeDate = (\<lambda>s. s)\<rparr>"

definition received :: "'d \<Rightarrow> 'd async_view" where
  "received d = \<lparr>av_data = Some d, av_loading = False, av_error = None, av_runs = 1, av_live = Some 0, av_settled = [0], av_finished = [0]\<rparr>"

definition demoClient :: "(string, string) client" where
  "demoClient =
     \<lparr>cx_lib = demoLib, cx_auth = auth_signedIn (Inr (''t'', demoUser)) (auth_mount None), cx_env = None,
      cx_wallets = wallet_init\<lparr>wv_wallets := [demoPurse], wv_loading := False\<rparr>,
      cx_cards = (\<lambda>_. \<lparr>cd_fauceting = False, cd_verifying = False, cd_copied = False, cd_actionError = None\<rparr>),
      cx_dashboard = received (dashboardData (map clientVault (answered demoVaultList)) (map clientPosition (answered demoPositionList))),
      cx_vaults = received (vaultsData (Some ''v'') (map clientVault (answered demoVaultList))), cx_flow = flow_init,
      cx_positions = received (map clientPosition (answered demoPositionList)), cx_target = None, cx_modal = modal_init,
      cx_activity = received [], cx_form = form_init, cx_loaded = (\<lambda>_. True)\<rparr>"

lemma demo_listed:
  "map_sum (\<lambda>_. ()) length (fst (demoVaultList demoHeld)) = Inr 1"
  "map_sum (\<lambda>_. ()) length (fst (demoPositionList demoHeld)) = Inr 1"
   apply (simp add: demoVaultList_def earn_listVaults_def demo_run demo_tables cong: lazy)
  apply (simp add: demoPositionList_def epos_listPositions_def epos_toResponse_def demo_run demo_tables cong: lazy)
  done

text \<open>Two transactions created at different times, and a query for all of them.\<close>

definition demoTwo :: world where
  "demoTwo = demoBooks [demoPosition P_ACTIVE 35] [demoTx 4 DEPOSIT T_CONFIRMED 25, demoTx 5 DEPOSIT T_CONFIRMED 10\<lparr>t_createdAt := 7\<rparr>]"

definition demoListing :: transactions_query where
  "demoListing = \<lparr>tq_walletId = None, tq_vaultId = None, tq_positionId = None, tq_type = None, tq_status = None,
     tq_page = None, tq_limit = None\<rparr>"

lemma demo_two:
  "filter (transactionMatches demoTwo (filterOf 0 demoListing)) (transactions demoTwo) = transactions demoTwo"
  "map t_createdAt (transactions demoTwo) = [0, 7]"
  by (simp_all add: demoTwo_def demo_tables demoListing_def filterOf_def transactionMatches_def)

lemma demo_fed: "fed demoClient"
proof -
  obtain vs s where "demoVaultList demoHeld = (Inr vs, s)"
    using demo_listed(1) by (cases "demoVaultList demoHeld"; cases "fst (demoVaultList demoHeld)") auto
  then have "servedVaults (map clientVault (answered demoVaultList))"
    unfolding servedVaults_def demoVaultList_def answered_def by fastforce
  moreover obtain ps s' where "demoPositionList demoHeld = (Inr ps, s')"
    using demo_listed(2) by (cases "demoPositionList demoHeld"; cases "fst (demoPositionList demoHeld)") auto
  then have "servedPositions (map clientPosition (answered demoPositionList))"
    unfolding servedPositions_def demoPositionList_def answered_def by fastforce
  moreover have "servedTransactions []"
    unfolding servedTransactions_def
    by (intro exI [of _ "demoEnv Success"] exI [of _ t_id] exI [of _ 0]
        exI [of _ "\<lparr>tq_walletId = None, tq_vaultId = None, tq_positionId = None, tq_type = None, tq_status = None, tq_page = None, tq_limit = None\<rparr>"]
        exI [of _ demoWorld]) (simp add: etx_listTransactions_def demo_run demoWorld_def emptyWorld_def cong: lazy)
  ultimately show ?thesis
    unfolding fed_def demoClient_def received_def by (auto intro: flowing.start)
qed

definition demoBrowser :: browser where
  "demoBrowser = writeToken 0 (cx_auth demoClient) \<lparr>br_stored = None, br_tabs = [auth_mount None]\<rparr>"

lemma demo_browsing: "browsing (\<lambda>t u. t = ''t'' \<and> u = demoUser) demoBrowser" "cx_auth demoClient \<in> set (br_tabs demoBrowser)"
proof -
  let ?issued = "\<lambda>t u. t = ''t'' \<and> u = demoUser"
  have "browsing ?issued \<lparr>br_stored = None, br_tabs = [auth_mount None]\<rparr>"
    using browsing.opened [OF browsing.start [of None ?issued]] by simp
  from browsing.enter [OF this, of 0 "auth_mount None" "''t''" demoUser] show "browsing ?issued demoBrowser"
    unfolding demoBrowser_def demoClient_def client.simps by (simp add: loginPage_def auth_mount_def)
qed (simp add: demoBrowser_def)

lemma demo_purse: "\<forall>w \<in> set (wv_wallets (cx_wallets demoClient)). readableWallet w"
  by (simp add: demoClient_def readableWallet_def demoPurse_def)

end
