(* ===== verification/Threads.thy ===== *)
theory Threads
  imports Prelude
begin

text \<open>
  Handlers that run at the same time.  The process is single-threaded: between two \<open>await\<close>s of a
  handler nothing else runs, and at an \<open>await\<close> anything else may.  A \<open>thread\<close> is a handler cut at
  its \<open>await\<close>s: \<open>Await k\<close> waits to be resumed, \<open>k\<close> does the awaited operation on the state of that
  moment and goes on to the next one.  \<open>runT\<close> resumes a thread until it is finished, with nothing in
  between; the lemmas \<open>runT_\<close> relate it to the effects of \<open>Prelude\<close>.

  A pool is a list of threads over one state.  \<open>pstep\<close> resumes any of them, lets a new one arrive or lets
  the environment move; a thread that is never resumed again is one whose process died.  The
  locale \<open>rely\<close> is the interface of the proofs about pools: an invariant \<open>I N\<close> of the state under
  knowledge \<open>N\<close> that only grows, new threads that are \<open>safe\<close> for it, an environment that keeps it.
\<close>

section \<open>Threads\<close>

datatype ('s, 'e, 'a) thread =
    Finished "'e + 'a"
  | Await "'s \<Rightarrow> ('s, 'e, 'a) thread \<times> 's"

primrec runT :: "('s, 'e, 'a) thread \<Rightarrow> ('s, 'e, 'a) eff" where
  "runT (Finished r) = (\<lambda>s. (r, s))"
| "runT (Await k) = (\<lambda>s. case map_prod runT id (k s) of (run, s') \<Rightarrow> run s')"

definition await :: "('s, 'e, 'a) eff \<Rightarrow> ('s, 'e, 'a) thread" where
  "await m = Await (\<lambda>s. map_prod Finished id (m s))"

definition finish :: "'a \<Rightarrow> ('s, 'e, 'a) thread" where
  "finish x = Finished (Inr x)"

definition throwT :: "'e \<Rightarrow> ('s, 'e, 'a) thread" where
  "throwT e = Finished (Inl e)"

definition requireT :: "bool \<Rightarrow> 'e \<Rightarrow> ('s, 'e, unit) thread" where
  "requireT b e = (if b then finish () else throwT e)"

primrec bindT :: "('s, 'e, 'a) thread \<Rightarrow> ('a \<Rightarrow> ('s, 'e, 'b) thread) \<Rightarrow> ('s, 'e, 'b) thread" where
  "bindT (Finished r) f = (case r of Inl e \<Rightarrow> Finished (Inl e) | Inr x \<Rightarrow> f x)"
| "bindT (Await k) f = Await (\<lambda>s. map_prod (\<lambda>t. bindT t f) id (k s))"

primrec catchT :: "('s, 'e, 'a) thread \<Rightarrow> ('e \<Rightarrow> ('s, 'e, 'a) thread) \<Rightarrow> ('s, 'e, 'a) thread" where
  "catchT (Finished r) h = (case r of Inl e \<Rightarrow> h e | Inr x \<Rightarrow> Finished (Inr x))"
| "catchT (Await k) h = Await (\<lambda>s. map_prod (\<lambda>t. catchT t h) id (k s))"

primrec finallyT :: "('s, 'e, 'a) thread \<Rightarrow> ('s, 'e, unit) thread \<Rightarrow> ('s, 'e, 'a) thread" where
  "finallyT (Finished r) f = bindT f (\<lambda>_. Finished r)"
| "finallyT (Await k) f = Await (\<lambda>s. map_prod (\<lambda>t. finallyT t f) id (k s))"

section \<open>A thread on its own\<close>

lemma runT_simps [simp]:
  "runT (await m) = m" "runT (finish x) = ret x" "runT (throwT e) = throw e" "runT (requireT b e) = require b e"
  by (auto simp: await_def finish_def throwT_def requireT_def fun_eq_iff map_prod_def split: prod.split)

lemma runT_Finished: "runT (Finished r) = lift r"
  by (simp add: fun_eq_iff)

text \<open>A thread does what its first step does and then what the rest does.\<close>

lemma runT_step: "k s = (t, s') \<Longrightarrow> runT (Await k) s = runT t s'"
  by simp

lemma runT_bindT [simp]: "runT (bindT t f) = andThen (runT t) (\<lambda>x. runT (f x))"
proof (induction t)
  case (Finished r)
  show ?case by (cases r) (simp_all add: fun_eq_iff andThen_def)
next
  case (Await k)
  have "runT (bindT (Await k) f) s = andThen (runT (Await k)) (\<lambda>x. runT (f x)) s" for s
  proof (cases "k s")
    case (Pair t s')
    then have "runT (bindT t f) = andThen (runT t) (\<lambda>x. runT (f x))"
      by (intro Await.IH [of "(t, s')"]) (auto intro: range_eqI [OF sym])
    with Pair show ?thesis by (simp add: andThen_def)
  qed
  then show ?case by blast
qed

lemma runT_catchT [simp]: "runT (catchT t h) = catching (runT t) (\<lambda>e. runT (h e))"
proof (induction t)
  case (Finished r)
  show ?case by (cases r) (simp_all add: fun_eq_iff catching_def)
next
  case (Await k)
  have "runT (catchT (Await k) h) s = catching (runT (Await k)) (\<lambda>e. runT (h e)) s" for s
  proof (cases "k s")
    case (Pair t s')
    then have "runT (catchT t h) = catching (runT t) (\<lambda>e. runT (h e))"
      by (intro Await.IH [of "(t, s')"]) (auto intro: range_eqI [OF sym])
    with Pair show ?thesis by (simp add: catching_def)
  qed
  then show ?case by blast
qed

lemma runT_finallyT [simp]: "runT (finallyT t f) = finallyDo (runT t) (runT f)"
proof (induction t)
  case (Finished r)
  show ?case by (auto simp add: fun_eq_iff finallyDo_def andThen_def split: prod.split sum.split)
next
  case (Await k)
  have "runT (finallyT (Await k) f) s = finallyDo (runT (Await k)) (runT f) s" for s
  proof (cases "k s")
    case (Pair t s')
    then have "runT (finallyT t f) = finallyDo (runT t) (runT f)"
      by (intro Await.IH [of "(t, s')"]) (auto intro: range_eqI [OF sym])
    with Pair show ?thesis by (simp add: finallyDo_def)
  qed
  then show ?case by blast
qed

section \<open>Pools of threads\<close>

inductive pstep ::
    "(('s, 'e, 'a) thread \<Rightarrow> bool) \<Rightarrow> ('s \<Rightarrow> 's \<Rightarrow> bool) \<Rightarrow>
     ('s, 'e, 'a) thread list \<times> 's \<Rightarrow> ('s, 'e, 'a) thread list \<times> 's \<Rightarrow> bool" for arrives moves where
  resume: "i < length ts \<Longrightarrow> ts ! i = Await k \<Longrightarrow> k s = (t, s') \<Longrightarrow> pstep arrives moves (ts, s) (ts[i := t], s')"
| arrive: "arrives t \<Longrightarrow> pstep arrives moves (ts, s) (ts @ [t], s)"
| move: "moves s s' \<Longrightarrow> pstep arrives moves (ts, s) (ts, s')"

inductive_cases pstepE: "pstep arrives moves (ts, s) c"

text \<open>A thread that is resumed again and again while the others wait; it gets to its end that way.\<close>

inductive tstep :: "('s, 'e, 'a) thread \<times> 's \<Rightarrow> ('s, 'e, 'a) thread \<times> 's \<Rightarrow> bool" where
  "k s = (t, s') \<Longrightarrow> tstep (Await k, s) (t, s')"

inductive_cases tstepE: "tstep (t, s) c"

lemma tsteps_runT: "runT t s = (r, s') \<Longrightarrow> tstep\<^sup>*\<^sup>* (t, s) (Finished r, s')"
proof (induction t arbitrary: s)
  case (Await k)
  obtain t s1 where k: "k s = (t, s1)" by force
  with Await.prems have "tstep\<^sup>*\<^sup>* (t, s1) (Finished r, s')"
    by (intro Await.IH [of "(t, s1)"]) (auto intro: range_eqI [OF sym])
  with tstep.intros [of k s t s1, OF k] show ?case by (rule converse_rtranclp_into_rtranclp)
qed simp

lemma tsteps_bindT: "tstep\<^sup>*\<^sup>* (t, s) (t', s') \<Longrightarrow> tstep\<^sup>*\<^sup>* (bindT t f, s) (bindT t' f, s')"
proof (induction "(t', s')" arbitrary: t' s' rule: rtranclp_induct)
  case (step y)
  obtain u v where y: "y = (u, v)" by (cases y)
  with step(2) have "tstep (bindT u f, v) (bindT t' f, s')" by (auto elim!: tstepE intro!: tstep.intros)
  with step(3) [OF y] y show ?case by (simp add: rtranclp.rtrancl_into_rtrancl)
qed simp

text \<open>The part of a thread that ends in \<open>x\<close> can be run by itself.\<close>

lemma tsteps_part: "runT t s = (Inr x, s') \<Longrightarrow> tstep\<^sup>*\<^sup>* (bindT t f, s) (f x, s')"
  using tsteps_bindT [OF tsteps_runT, of t s "Inr x" s' f] by simp

lemma tsteps_pool:
  assumes "tstep\<^sup>*\<^sup>* (t, s) (t', s')" and "i < length ts"
  shows "(pstep arrives moves)\<^sup>*\<^sup>* (ts[i := t], s) (ts[i := t'], s')"
  using assms(1)
proof (induction "(t', s')" arbitrary: t' s' rule: rtranclp_induct)
  case (step y)
  obtain u v where y: "y = (u, v)" by (cases y)
  with step(2) obtain k where "u = Await k" "k v = (t', s')" by (auto elim: tstepE)
  then have "pstep arrives moves (ts[i := u], v) (ts[i := u, i := t'], s')"
    using assms(2) by (intro pstep.resume [where k = k]) simp_all
  with step(3) [OF y] show ?case by (simp add: rtranclp.rtrancl_into_rtrancl)
qed simp

lemma pool_alone:
  "i < length ts \<Longrightarrow> ts ! i = t \<Longrightarrow> runT t s = (r, s') \<Longrightarrow>
   (pstep arrives moves)\<^sup>*\<^sup>* (ts, s) (ts[i := Finished r], s')"
  using tsteps_pool [OF tsteps_runT, of t s r s' i ts] by (metis list_update_id)

section \<open>Safety in a pool\<close>

text \<open>
  Whenever it is resumed, in whatever state and with however much known, the thread keeps the invariant and
  may add to what is known; \<open>Q\<close> is what is then known of its result.
\<close>

primrec safe :: "('k set \<Rightarrow> 's \<Rightarrow> bool) \<Rightarrow> ('a \<Rightarrow> 'k set \<Rightarrow> bool) \<Rightarrow> ('s, 'e, 'a) thread \<Rightarrow> 'k set \<Rightarrow> bool" where
  "safe I Q (Finished r) = (\<lambda>N. case r of Inl e \<Rightarrow> True | Inr x \<Rightarrow> Q x N)"
| "safe I Q (Await k) = (\<lambda>N. \<forall>M s. N \<subseteq> M \<longrightarrow> I M s \<longrightarrow>
     (\<exists>M'. M \<subseteq> M' \<and> I M' (snd (k s)) \<and> fst (map_prod (safe I Q) id (k s)) M'))"

abbreviation anyhow :: "'a \<Rightarrow> 'k set \<Rightarrow> bool" where
  "anyhow x N \<equiv> True"

lemma safe_more: "safe I anyhow t N \<Longrightarrow> N \<subseteq> M \<Longrightarrow> safe I anyhow t M"
  by (cases t) (auto split: sum.splits)

lemma safe_resume:
  assumes "safe I Q (Await k) N" and "N \<subseteq> M" and "I M s" and "k s = (t, s')"
  obtains M' where "M \<subseteq> M'" and "I M' s'" and "safe I Q t M'"
proof -
  from assms(1) have "\<And>M s. N \<subseteq> M \<Longrightarrow> I M s \<Longrightarrow>
     (\<exists>M'. M \<subseteq> M' \<and> I M' (snd (k s)) \<and> fst (map_prod (safe I Q) id (k s)) M')" by simp
  from this [OF assms(2,3)] assms(4) that show ?thesis by auto
qed

lemma safe_Await:
  assumes "\<And>M s t s'. N \<subseteq> M \<Longrightarrow> I M s \<Longrightarrow> k s = (t, s') \<Longrightarrow> \<exists>M'. M \<subseteq> M' \<and> I M' s' \<and> safe I Q t M'"
  shows "safe I Q (Await k) N"
proof -
  have "\<exists>M'. M \<subseteq> M' \<and> I M' (snd (k s)) \<and> fst (map_prod (safe I Q) id (k s)) M'" if "N \<subseteq> M" "I M s" for M s
    using assms [OF that, of "fst (k s)" "snd (k s)"] by simp
  then show ?thesis by simp
qed

lemma safe_bindT:
  assumes "safe I Q t N" and "\<And>x M. N \<subseteq> M \<Longrightarrow> Q x M \<Longrightarrow> safe I R (f x) M"
  shows "safe I R (bindT t f) N"
  using assms
proof (induction t arbitrary: N)
  case (Finished r)
  then show ?case by (cases r) auto
next
  case (Await k)
  show ?case unfolding bindT.simps
  proof (rule safe_Await)
    fix M s t' s' assume M: "N \<subseteq> M" "I M s" and "map_prod (\<lambda>t. bindT t f) id (k s) = (t', s')"
    then obtain t where k: "k s = (t, s')" and t': "t' = bindT t f" by (cases "k s") auto
    from safe_resume [OF Await.prems(1) M k] obtain M' where M': "M \<subseteq> M'" "I M' s'" "safe I Q t M'" .
    have "safe I R (bindT t f) M'"
      by (rule Await.IH [of "(t, s')"]) (use k M' M(1) Await.prems(2) in \<open>auto intro: range_eqI [OF sym]\<close>)
    with M' t' show "\<exists>M'. M \<subseteq> M' \<and> I M' s' \<and> safe I R t' M'" by blast
  qed
qed

lemma safe_catchT:
  assumes "safe I Q t N" and "\<And>e M. N \<subseteq> M \<Longrightarrow> safe I Q (h e) M"
  shows "safe I Q (catchT t h) N"
  using assms
proof (induction t arbitrary: N)
  case (Finished r)
  then show ?case by (cases r) auto
next
  case (Await k)
  show ?case unfolding catchT.simps
  proof (rule safe_Await)
    fix M s t' s' assume M: "N \<subseteq> M" "I M s" and "map_prod (\<lambda>t. catchT t h) id (k s) = (t', s')"
    then obtain t where k: "k s = (t, s')" and t': "t' = catchT t h" by (cases "k s") auto
    from safe_resume [OF Await.prems(1) M k] obtain M' where M': "M \<subseteq> M'" "I M' s'" "safe I Q t M'" .
    have "safe I Q (catchT t h) M'"
      by (rule Await.IH [of "(t, s')"]) (use k M' M(1) Await.prems(2) in \<open>auto intro: range_eqI [OF sym]\<close>)
    with M' t' show "\<exists>M'. M \<subseteq> M' \<and> I M' s' \<and> safe I Q t' M'" by blast
  qed
qed

lemma safe_finallyT:
  assumes "safe I anyhow t N" and "safe I anyhow f N"
  shows "safe I anyhow (finallyT t f) N"
  using assms
proof (induction t arbitrary: N)
  case (Finished r)
  then show ?case by (cases r) (auto intro!: safe_bindT [where Q = anyhow])
next
  case (Await k)
  show ?case unfolding finallyT.simps
  proof (rule safe_Await)
    fix M s t' s' assume M: "N \<subseteq> M" "I M s" and "map_prod (\<lambda>t. finallyT t f) id (k s) = (t', s')"
    then obtain t where k: "k s = (t, s')" and t': "t' = finallyT t f" by (cases "k s") auto
    from safe_resume [OF Await.prems(1) M k] obtain M' where M': "M \<subseteq> M'" "I M' s'" "safe I anyhow t M'" .
    have "safe I anyhow f M'" by (rule safe_more [OF Await.prems(2)]) (use M(1) M'(1) in blast)
    then have "safe I anyhow (finallyT t f) M'"
      by (intro Await.IH [of "(t, s')"]) (use k M'(3) in \<open>auto intro: range_eqI [OF sym]\<close>)
    with M' t' show "\<exists>M'. M \<subseteq> M' \<and> I M' s' \<and> safe I anyhow t' M'" by blast
  qed
qed

text \<open>One awaited operation, which keeps the invariant and may add to what is known.\<close>

lemma safe_await:
  fixes m :: "('s, 'e, 'a) eff"
  assumes "\<And>M s. N \<subseteq> M \<Longrightarrow> I M s \<Longrightarrow> \<exists>M'. M \<subseteq> M' \<and> I M' (snd (m s)) \<and> (\<forall>x. fst (m s) = Inr x \<longrightarrow> Q x M')"
  shows "safe I Q (await m) N"
  unfolding await_def
proof (rule safe_Await)
  fix M s s' and t :: "('s, 'e, 'a) thread"
  assume "N \<subseteq> M" "I M s" and "map_prod Finished id (m s) = (t, s')"
  with assms [of M s] show "\<exists>M'. M \<subseteq> M' \<and> I M' s' \<and> safe I Q t M'"
    by (cases "m s") (auto split: sum.split)
qed

lemma safe_keeps:
  assumes "\<And>M. N \<subseteq> M \<Longrightarrow> preserves (I M) m" and "\<And>M s x s'. N \<subseteq> M \<Longrightarrow> I M s \<Longrightarrow> m s = (Inr x, s') \<Longrightarrow> Q x M"
  shows "safe I Q (await m) N"
proof (rule safe_await)
  fix M s assume M: "N \<subseteq> M" "I M s"
  have "I M (snd (m s))" by (rule preservesD [OF assms(1) [OF M(1)] M(2)])
  moreover have "\<forall>x. fst (m s) = Inr x \<longrightarrow> Q x M" using assms(2) [OF M] by (metis prod.collapse)
  ultimately show "\<exists>M'. M \<subseteq> M' \<and> I M' (snd (m s)) \<and> (\<forall>x. fst (m s) = Inr x \<longrightarrow> Q x M')" by blast
qed

lemma safe_pure [simp]:
  "safe I Q (finish x) N = Q x N" "safe I Q' (throwT e) N" "safe I Q'' (requireT b e) N \<longleftrightarrow> (b \<longrightarrow> Q'' () N)"
  by (simp_all add: finish_def throwT_def requireT_def)

text \<open>The rules a thread's proof is built with: the run of each step is at hand in what follows it.\<close>

lemma safe_step:
  assumes "\<And>M. N \<subseteq> M \<Longrightarrow> preserves (I M) m"
    and "\<And>x M s s'. N \<subseteq> M \<Longrightarrow> I M s \<Longrightarrow> m s = (Inr x, s') \<Longrightarrow> safe I R (f x) M"
  shows "safe I R (bindT (await m) f) N"
  by (rule safe_bindT [where Q = "\<lambda>x M. N \<subseteq> M \<and> (\<exists>s s'. I M s \<and> m s = (Inr x, s'))"])
     (auto intro!: safe_keeps assms(1) intro: assms(2))

lemma safe_last: "(\<And>M. N \<subseteq> M \<Longrightarrow> preserves (I M) m) \<Longrightarrow> safe I anyhow (await m) N"
  by (rule safe_keeps) simp_all

lemma safe_require: "(b \<Longrightarrow> safe I R (f ()) N) \<Longrightarrow> safe I R (bindT (requireT b e) f) N"
  by (simp add: requireT_def finish_def throwT_def)

lemma safe_result: "(\<And>x. r = Inr x \<Longrightarrow> safe I R (f x) N) \<Longrightarrow> safe I R (bindT (Finished r) f) N"
  by (cases r) simp_all

locale rely =
  fixes I :: "'k set \<Rightarrow> 's \<Rightarrow> bool" and arrives :: "('s, 'e, 'a) thread \<Rightarrow> bool" and moves :: "'s \<Rightarrow> 's \<Rightarrow> bool"
  assumes arrivals: "arrives t \<Longrightarrow> safe I anyhow t {}"
    and environment: "moves s s' \<Longrightarrow> I N s \<Longrightarrow> I N s'"
begin

definition steady :: "('s, 'e, 'a) thread list \<times> 's \<Rightarrow> bool" where
  "steady c \<longleftrightarrow> (\<exists>N. I N (snd c) \<and> (\<forall>t \<in> set (fst c). safe I anyhow t N))"

lemma pstep_steady:
  assumes "pstep arrives moves c c'" and "steady c"
  shows "steady c'"
proof -
  from assms(2) obtain N where N: "I N (snd c)" "\<And>t. t \<in> set (fst c) \<Longrightarrow> safe I anyhow t N" by (auto simp: steady_def)
  from assms(1) show ?thesis
  proof cases
    case (resume i ts k s t s')
    then have "safe I anyhow (Await k) N" using N(2) by (metis fst_conv nth_mem)
    from safe_resume [OF this subset_refl _ resume(5)] N(1) resume(1) obtain M where
      M: "N \<subseteq> M" "I M s'" "safe I anyhow t M" by auto
    have "safe I anyhow u M" if "u \<in> set (ts[i := t])" for u
      using set_update_subset_insert [of ts i t] that M(3) safe_more [OF N(2) M(1)] resume(1) by auto
    with M(2) resume(2) show ?thesis by (auto simp: steady_def)
  next
    case (arrive t ts s)
    have "safe I anyhow t N" by (rule safe_more [OF arrivals [OF arrive(3)]]) simp
    with N arrive(1,2) show ?thesis by (auto simp: steady_def)
  next
    case (move s s' ts)
    with N environment [OF move(3)] show ?thesis unfolding steady_def by (metis fst_conv snd_conv)
  qed
qed

theorem pool_steady:
  assumes "(pstep arrives moves)\<^sup>*\<^sup>* c c'" and "steady c"
  shows "steady c'"
  using assms by (induction rule: rtranclp_induct) (auto intro: pstep_steady)

corollary pool_keeps:
  assumes "(pstep arrives moves)\<^sup>*\<^sup>* ([], s) (ts, s')" and "I {} s"
  shows "\<exists>N. I N s'"
  using pool_steady [OF assms(1)] assms(2) by (auto simp: steady_def)

end

end
