(* ===== verification/Interleave.thy ===== *)
theory Interleave
  imports Threads History
begin

text \<open>
  The mutating routes and the reconciliation job as threads: the bodies of \<open>Deposit\<close>, \<open>Withdraw\<close>,
  \<open>Approval\<close>, \<open>Idempotency\<close>, \<open>Controllers\<close> and \<open>Reconcile\<close>, cut at the \<open>await\<close>s of the source.  A call
  that touches no table (the rate limit, the catalogue, a chain read, the provider, the audit log, the lock) is
  one step whatever awaits it has inside, and so is a database transaction; the checks that
  await nothing are steps too, which changes nothing, since they touch no state.  \<open>run_\<close>: left alone,
  each thread is the handler it was cut from.
\<close>

section \<open>The service calls with two awaits\<close>

text \<open>\<open>confirmSubmitted\<close> outside a database transaction: the \<open>updateMany\<close>, then the row read back.\<close>

definition txRepo_updateSubmitted :: "uuid \<Rightarrow> int \<Rightarrow> metadata option \<Rightarrow> bool io" where
  "txRepo_updateSubmitted transactionId blockNumber metadata s =
     (case find (\<lambda>t. t_id t = transactionId) (transactions s) of
        None \<Rightarrow> (Inr False, s)
      | Some t \<Rightarrow>
          if t_status t = T_SUBMITTED
          then (Inr True, snd (txRepo_updateStatus transactionId \<lparr>su_status = T_CONFIRMED, su_txHash = None,
                  su_blockNumber = Some blockNumber, su_metadata = metadata\<rparr> s))
          else (Inr False, s))"

definition txRepo_findUniqueOrThrow :: "uuid \<Rightarrow> transaction io" where
  "txRepo_findUniqueOrThrow transactionId =
     andThen (txRepo_findById transactionId) (\<lambda>found.
     (case found of None \<Rightarrow> throw recordNotFound | Some t \<Rightarrow> ret t))"

definition tx_confirmSubmittedT :: "uuid \<Rightarrow> int \<Rightarrow> metadata option \<Rightarrow> (world, exn, bool \<times> transaction_record) thread" where
  "tx_confirmSubmittedT transactionId blockNumber metadata =
     bindT (await (txRepo_updateSubmitted transactionId blockNumber metadata)) (\<lambda>applied.
     bindT (await (txRepo_findUniqueOrThrow transactionId)) (\<lambda>t.
       finish (applied, toTransactionRecord None t)))"

section \<open>The deposit\<close>

definition dep_checksT :: "env \<Rightarrow> uuid \<Rightarrow> string \<Rightarrow> deposit_dto \<Rightarrow> (world, exn, deposit_context) thread" where
  "dep_checksT x userId vaultId dto =
     bindT (await (lift (bigInt (dd_amount dto)))) (\<lambda>amount.
     bindT (await (aave_getVault x vaultId None)) (\<lambda>vault.
     bindT (await (val_assertDepositEnabled vault)) (\<lambda>_.
     bindT (await (val_assertChainMatchesEnvironment x (pv_chainId vault))) (\<lambda>_.
     bindT (await (val_assertRpcBelongsToChain x (pv_chainId vault))) (\<lambda>_.
     bindT (await (val_assertVaultBelongsToChain vault (pv_chainId vault))) (\<lambda>_.
     bindT (await (val_assertWalletBelongsToUser userId (dd_walletId dto))) (\<lambda>wallet.
     bindT (await (val_assertWalletChainMatchesVault wallet vault)) (\<lambda>_.
     bindT (await (bc_readAssetBalance x (pv_chainId vault) (w_address wallet) (pv_assetAddress vault))) (\<lambda>walletBalance.
     bindT (await (if pv_assetAddress vault = ''native'' then ret amount
              else bc_readErc20Allowance x (pv_chainId vault) (w_address wallet) (pv_assetAddress vault)
                     (pv_contractAddress vault))) (\<lambda>allowance.
     bindT (await (bc_previewDepositShares vault amount)) (\<lambda>estimatedShares.
     bindT (requireT (\<not> walletBalance < amount) (insufficientBalance (dd_amount dto) (showInt walletBalance))) (\<lambda>_.
     bindT (requireT (\<not> allowance < amount) (insufficientAllowance (dd_amount dto) (showInt allowance))) (\<lambda>_.
     finish \<lparr>dc_amount = amount, dc_vault = vault, dc_wallet = wallet, dc_walletBalance = walletBalance,
          dc_allowance = allowance, dc_estimatedShares = estimatedShares\<rparr>)))))))))))))"

text \<open>The two reads of \<open>assertNoDuplicateDeposit\<close> are started together; here the position is read first.\<close>

definition dep_assertNoDuplicateDepositT :: "uuid \<Rightarrow> uuid \<Rightarrow> string \<Rightarrow> (world, exn, unit) thread" where
  "dep_assertNoDuplicateDepositT userId dbVaultId protocolVaultId =
     bindT (await (pos_findByUserAndVault userId dbVaultId)) (\<lambda>existingPosition.
     bindT (await (tx_hasOpenDeposit userId dbVaultId)) (\<lambda>hasOpenDeposit.
     bindT (requireT (map_option pr_status existingPosition \<noteq> Some P_PENDING) (depositInProgress protocolVaultId)) (\<lambda>_.
       requireT (\<not> hasOpenDeposit) (depositInProgress protocolVaultId))))"

definition dep_openT ::
    "uuid \<Rightarrow> deposit_dto \<Rightarrow> deposit_context \<Rightarrow> (world, exn, vault \<times> position_record \<times> transaction_record \<times> bool) thread" where
  "dep_openT userId dto c =
     bindT (await (vaultRepo_findOrCreate (dc_vault c))) (\<lambda>dbVault.
     bindT (dep_assertNoDuplicateDepositT userId (v_id dbVault) (pv_vaultId (dc_vault c))) (\<lambda>_.
     bindT (await (atomically (dep_openBody userId (v_id dbVault) dto c))) (\<lambda>(position, transaction, isNewPosition).
       finish (dbVault, position, transaction, isNewPosition))))"

definition dep_submitT :: "env \<Rightarrow> deposit_context \<Rightarrow> transaction_record \<Rightarrow> (world, exn, transaction_record \<times> receipt) thread" where
  "dep_submitT x c transaction =
     bindT (await (lift (bc_encodeVaultDeposit x (dc_vault c) (dc_amount c) (w_address (dc_wallet c))))) (\<lambda>depositData.
     bindT (await (privy_sendTransaction x (dep_sendInput c depositData))) (\<lambda>broadcast.
     bindT (await (tx_markSubmitted (tr_transactionId transaction) (b_hash broadcast)
                (Some (dep_submittedMetadata c broadcast)))) (\<lambda>submitted.
     bindT (await (bc_waitForTransactionReceipt x (pv_chainId (dc_vault c)) (b_hash broadcast))) (\<lambda>receipt.
       finish (submitted, receipt)))))"

text \<open>A write that is made only on one branch is awaited only there.\<close>

definition awaitWhen :: "bool \<Rightarrow> 'a io \<Rightarrow> (world, exn, unit) thread" where
  "awaitWhen b m = (if b then bindT (await m) (\<lambda>_. finish ()) else finish ())"

definition dep_revertedT ::
    "env \<Rightarrow> uuid \<Rightarrow> deposit_dto \<Rightarrow> deposit_context \<Rightarrow> vault \<Rightarrow> position_record \<Rightarrow> bool \<Rightarrow>
     transaction_record \<Rightarrow> receipt \<Rightarrow> (world, exn, deposit_response) thread" where
  "dep_revertedT x userId dto c dbVault position isNewPosition submitted receipt =
     bindT (awaitWhen isNewPosition (pos_markFailed (pr_positionId position))) (\<lambda>_.
     bindT (await (tx_markReverted (tr_transactionId submitted) (rc_blockNumber receipt)
                (Some [(''gasUsed'', JStr (showInt (rc_gasUsed receipt)))]))) (\<lambda>reverted.
     bindT (await (pos_findByUserAndVault userId (v_id dbVault))) (\<lambda>currentPosition.
       finish (dep_toResponse x dto c (orElse currentPosition position) reverted
              (case currentPosition of Some p \<Rightarrow> pr_shares p | None \<Rightarrow> ''0'')))))"

definition dep_confirmedT ::
    "env \<Rightarrow> uuid \<Rightarrow> deposit_dto \<Rightarrow> deposit_context \<Rightarrow> position_record \<Rightarrow> bool \<Rightarrow>
     transaction_record \<Rightarrow> receipt \<Rightarrow> (world, exn, deposit_response) thread" where
  "dep_confirmedT x userId dto c position isNewPosition submitted receipt =
     bindT (await (atomically (dep_confirmBody dto c position isNewPosition submitted receipt))) (\<lambda>(confirmed, updatedPosition).
     bindT (await (auditLog x \<lparr>al_userId = Some userId, al_action = DEPOSIT_CONFIRMED, al_entityType = ''transaction'',
                al_entityId = tr_transactionId confirmed,
                al_metadata = Some [(''vaultId'', JStr (pv_vaultId (dc_vault c))),
                  (''txHash'', case tr_txHash confirmed of Some h \<Rightarrow> JStr h | None \<Rightarrow> JNull),
                  (''positionId'', JStr (showNat (pr_positionId updatedPosition)))]\<rparr>)) (\<lambda>_.
       finish (dep_toResponse x dto c updatedPosition confirmed (pr_shares updatedPosition))))"

definition dep_failT :: "position_record \<Rightarrow> bool \<Rightarrow> transaction_record \<Rightarrow> exn \<Rightarrow> (world, exn, 'a) thread" where
  "dep_failT position isNewPosition transaction e =
     bindT (await (tx_markFailed (tr_transactionId transaction) (Some [(''error'', JStr (errorMessage e))]))) (\<lambda>_.
     bindT (awaitWhen isNewPosition (pos_markFailed (pr_positionId position))) (\<lambda>_.
       throwT e))"

definition dep_attemptT ::
    "env \<Rightarrow> uuid \<Rightarrow> deposit_dto \<Rightarrow> deposit_context \<Rightarrow> vault \<Rightarrow> position_record \<Rightarrow> transaction_record \<Rightarrow> bool \<Rightarrow>
     (world, exn, deposit_response) thread" where
  "dep_attemptT x userId dto c dbVault position transaction isNewPosition =
     catchT
       (bindT (dep_submitT x c transaction) (\<lambda>(submitted, receipt).
          if rc_status receipt \<noteq> Success
          then dep_revertedT x userId dto c dbVault position isNewPosition submitted receipt
          else dep_confirmedT x userId dto c position isNewPosition submitted receipt))
       (dep_failT position isNewPosition transaction)"

definition depositVaultT :: "env \<Rightarrow> uuid \<Rightarrow> string \<Rightarrow> deposit_dto \<Rightarrow> (world, exn, deposit_response) thread" where
  "depositVaultT x userId vaultId dto =
     bindT (await (assertDepositAllowed x userId)) (\<lambda>_.
     bindT (dep_checksT x userId vaultId dto) (\<lambda>c.
     bindT (dep_openT userId dto c) (\<lambda>(dbVault, position, transaction, isNewPosition).
     bindT (await (dep_requested x userId dto c position transaction)) (\<lambda>_.
       dep_attemptT x userId dto c dbVault position transaction isNewPosition))))"

section \<open>The withdrawal\<close>

text \<open>What is checked of the position that was read.\<close>

definition wd_checksOfT :: "env \<Rightarrow> uuid \<Rightarrow> withdraw_dto \<Rightarrow> position \<Rightarrow> vault \<Rightarrow> (world, exn, withdraw_context) thread" where
  "wd_checksOfT x userId dto position dbVault =
     bindT (await (aave_getVault x (v_slug dbVault) (Some (v_chainId dbVault)))) (\<lambda>vault.
     bindT (await (val_assertWithdrawEnabled vault)) (\<lambda>_.
     bindT (await (val_assertChainMatchesEnvironment x (pv_chainId vault))) (\<lambda>_.
     bindT (await (val_assertVaultBelongsToChain vault (pv_chainId vault))) (\<lambda>_.
     bindT (await (val_assertRpcBelongsToChain x (pv_chainId vault))) (\<lambda>_.
     bindT (await (val_assertWalletBelongsToUser userId (wdd_walletId dto))) (\<lambda>wallet.
     bindT (await (val_assertWalletChainMatchesVault wallet vault)) (\<lambda>_.
     let fullWithdraw = (wdd_fullWithdraw dto = Some True) in
     bindT (await (bc_readVaultShareBalance x vault (w_address wallet))) (\<lambda>onChainShares.
     let positionShares = p_shares position in
     bindT (await (lift (wd_resolveWithdrawAmount position dto fullWithdraw))) (\<lambda>withdrawAmount.
     bindT (await (lift (bigInt withdrawAmount))) (\<lambda>amountBn.
     let positionAmount = p_currentAmount position in
     bindT (requireT (\<not> amountBn > positionAmount)
                (insufficientPositionBalance withdrawAmount (showInt (p_currentAmount position)))) (\<lambda>_.
     bindT (await (if fullWithdraw then ret positionShares else bc_previewWithdrawShares vault amountBn)) (\<lambda>sharesToBurn.
     bindT (requireT (\<not> sharesToBurn > positionShares)
                (insufficientPositionBalance (showInt sharesToBurn) (showInt (p_shares position)))) (\<lambda>_.
     bindT (requireT (\<not> sharesToBurn > onChainShares)
                (insufficientPositionBalance (showInt sharesToBurn) (showInt onChainShares))) (\<lambda>_.
     finish \<lparr>wc_position = position, wc_dbVault = dbVault, wc_vault = vault, wc_wallet = wallet,
          wc_fullWithdraw = fullWithdraw, wc_withdrawAmount = withdrawAmount, wc_amountBn = amountBn,
          wc_sharesToBurn = sharesToBurn, wc_onChainShares = onChainShares\<rparr>))))))))))))))"

definition wd_checksT :: "env \<Rightarrow> uuid \<Rightarrow> uuid \<Rightarrow> withdraw_dto \<Rightarrow> (world, exn, withdraw_context) thread" where
  "wd_checksT x userId positionId dto =
     bindT (await (wd_position userId positionId)) (\<lambda>(position, dbVault). wd_checksOfT x userId dto position dbVault)"

definition wd_openT :: "uuid \<Rightarrow> withdraw_context \<Rightarrow> (world, exn, transaction_record) thread" where
  "wd_openT userId c =
     bindT (await (tx_hasOpenWithdraw (p_id (wc_position c)))) (\<lambda>hasOpenWithdraw.
     bindT (requireT (\<not> hasOpenWithdraw) (withdrawInProgress (showNat (p_id (wc_position c))))) (\<lambda>_.
       await (atomically (wd_openBody userId c))))"

definition wd_submitT :: "env \<Rightarrow> withdraw_context \<Rightarrow> transaction_record \<Rightarrow> (world, exn, transaction_record \<times> receipt) thread" where
  "wd_submitT x c transaction =
     bindT (await (lift (bc_encodeVaultWithdraw x (wc_vault c) (wc_amountBn c) (w_address (wc_wallet c)) (wc_fullWithdraw c)))) (\<lambda>withdrawData.
     bindT (await (privy_sendTransaction x (wd_sendInput c withdrawData))) (\<lambda>broadcast.
     bindT (await (tx_markSubmitted (tr_transactionId transaction) (b_hash broadcast)
                (Some (wd_submittedMetadata c broadcast)))) (\<lambda>submitted.
     bindT (await (bc_waitForTransactionReceipt x (pv_chainId (wc_vault c)) (b_hash broadcast))) (\<lambda>receipt.
       finish (submitted, receipt)))))"

definition wd_revertedT ::
    "env \<Rightarrow> withdraw_dto \<Rightarrow> withdraw_context \<Rightarrow> transaction_record \<Rightarrow> receipt \<Rightarrow> (world, exn, withdraw_response) thread" where
  "wd_revertedT x dto c submitted receipt =
     bindT (await (tx_markReverted (tr_transactionId submitted) (rc_blockNumber receipt)
                (Some [(''gasUsed'', JStr (showInt (rc_gasUsed receipt)))]))) (\<lambda>reverted.
     bindT (await (pos_markActive (p_id (wc_position c)))) (\<lambda>_.
       finish (wd_toResponse x dto c reverted None)))"

definition wd_confirmedT ::
    "env \<Rightarrow> uuid \<Rightarrow> withdraw_dto \<Rightarrow> withdraw_context \<Rightarrow> transaction_record \<Rightarrow> receipt \<Rightarrow> (world, exn, withdraw_response) thread" where
  "wd_confirmedT x userId dto c submitted receipt =
     bindT (await (atomically (wd_confirmBody c submitted receipt))) (\<lambda>(confirmed, updatedPosition).
     bindT (await (auditLog x \<lparr>al_userId = Some userId, al_action = WITHDRAW_CONFIRMED, al_entityType = ''transaction'',
                al_entityId = tr_transactionId confirmed,
                al_metadata = Some [(''positionId'', JStr (showNat (p_id (wc_position c)))),
                  (''txHash'', case tr_txHash confirmed of Some h \<Rightarrow> JStr h | None \<Rightarrow> JNull),
                  (''fullWithdraw'', JBool (wc_fullWithdraw c))]\<rparr>)) (\<lambda>_.
       finish (wd_toResponse x dto c confirmed (Some updatedPosition))))"

definition wd_failT :: "withdraw_context \<Rightarrow> transaction_record \<Rightarrow> exn \<Rightarrow> (world, exn, 'a) thread" where
  "wd_failT c transaction e =
     bindT (await (tx_markFailed (tr_transactionId transaction) (Some [(''error'', JStr (errorMessage e))]))) (\<lambda>_.
     bindT (await (pos_markActive (p_id (wc_position c)))) (\<lambda>_. throwT e))"

definition wd_attemptT ::
    "env \<Rightarrow> uuid \<Rightarrow> withdraw_dto \<Rightarrow> withdraw_context \<Rightarrow> transaction_record \<Rightarrow> (world, exn, withdraw_response) thread" where
  "wd_attemptT x userId dto c transaction =
     catchT
       (bindT (wd_submitT x c transaction) (\<lambda>(submitted, receipt).
          if rc_status receipt \<noteq> Success then wd_revertedT x dto c submitted receipt
          else wd_confirmedT x userId dto c submitted receipt))
       (wd_failT c transaction)"

definition withdrawPositionT :: "env \<Rightarrow> uuid \<Rightarrow> uuid \<Rightarrow> withdraw_dto \<Rightarrow> (world, exn, withdraw_response) thread" where
  "withdrawPositionT x userId positionId dto =
     bindT (await (assertWithdrawAllowed x userId)) (\<lambda>_.
     bindT (wd_checksT x userId positionId dto) (\<lambda>c.
     bindT (wd_openT userId c) (\<lambda>transaction.
     bindT (await (wd_requested x userId c transaction)) (\<lambda>_.
       wd_attemptT x userId dto c transaction))))"

section \<open>The approval\<close>

definition ap_checksT :: "env \<Rightarrow> uuid \<Rightarrow> string \<Rightarrow> approve_dto \<Rightarrow> (world, exn, approve_context) thread" where
  "ap_checksT x userId vaultId dto =
     bindT (await (lift (bigInt (ad_amount dto)))) (\<lambda>amount.
     bindT (await (aave_getVault x vaultId None)) (\<lambda>vault.
     bindT (await (val_assertDepositEnabled vault)) (\<lambda>_.
     bindT (await (val_assertChainMatchesEnvironment x (pv_chainId vault))) (\<lambda>_.
     bindT (await (val_assertRpcBelongsToChain x (pv_chainId vault))) (\<lambda>_.
     bindT (await (val_assertVaultBelongsToChain vault (pv_chainId vault))) (\<lambda>_.
     bindT (await (val_assertWalletBelongsToUser userId (ad_walletId dto))) (\<lambda>wallet.
     bindT (await (val_assertWalletChainMatchesVault wallet vault)) (\<lambda>_.
     bindT (requireT (pv_assetAddress vault \<noteq> ''native'')
                (badRequest ''Native assets do not require ERC-20 approval'')) (\<lambda>_.
     bindT (await (ap_readAllowance x vault wallet)) (\<lambda>allowance.
     finish \<lparr>ac_amount = amount, ac_vault = vault, ac_wallet = wallet, ac_allowance = allowance\<rparr>))))))))))"

definition ap_skipT :: "env \<Rightarrow> uuid \<Rightarrow> approve_dto \<Rightarrow> approve_context \<Rightarrow> (world, exn, approve_response) thread" where
  "ap_skipT x userId dto c =
     bindT (await (tx_createTransaction (ap_transactionInput userId dto c
                [(''skipped'', JBool True), (''reason'', JStr ''SUFFICIENT_ALLOWANCE'')]))) (\<lambda>transaction.
     bindT (await (tx_markConfirmed (tr_transactionId transaction) 0
                (Some [(''allowance'', JStr (showInt (ac_allowance c))), (''requiresApproval'', JBool False)]))) (\<lambda>confirmed.
     bindT (await (auditLog x \<lparr>al_userId = Some userId, al_action = APPROVAL_CONFIRMED, al_entityType = ''transaction'',
                al_entityId = tr_transactionId confirmed,
                al_metadata = Some [(''vaultId'', JStr (pv_vaultId (ac_vault c))), (''skipped'', JBool True)]\<rparr>)) (\<lambda>_.
       finish (ap_toResponse x dto (ac_vault c) (ac_allowance c) False confirmed))))"

definition ap_submitT :: "env \<Rightarrow> approve_context \<Rightarrow> transaction_record \<Rightarrow> (world, exn, transaction_record \<times> receipt) thread" where
  "ap_submitT x c transaction =
     bindT (await (lift (bc_encodeErc20Approve x (pv_contractAddress (ac_vault c)) (ac_amount c)))) (\<lambda>approveData.
     bindT (await (privy_sendTransaction x (ap_sendInput c approveData))) (\<lambda>broadcast.
     bindT (await (tx_markSubmitted (tr_transactionId transaction) (b_hash broadcast)
                (Some (ap_submittedMetadata c broadcast)))) (\<lambda>submitted.
     bindT (await (bc_waitForTransactionReceipt x (pv_chainId (ac_vault c)) (b_hash broadcast))) (\<lambda>receipt.
       finish (submitted, receipt)))))"

definition ap_finalRecordT :: "approve_context \<Rightarrow> transaction_record \<Rightarrow> receipt \<Rightarrow> (world, exn, transaction_record) thread" where
  "ap_finalRecordT c submitted receipt =
     (if rc_status receipt = Success
      then bindT (tx_confirmSubmittedT (tr_transactionId submitted) (rc_blockNumber receipt)
                    (Some (ap_receiptMetadata c receipt))) (\<lambda>(applied, transaction). finish transaction)
      else await (tx_markReverted (tr_transactionId submitted) (rc_blockNumber receipt) (Some (ap_receiptMetadata c receipt))))"

definition ap_settleT ::
    "env \<Rightarrow> uuid \<Rightarrow> approve_dto \<Rightarrow> approve_context \<Rightarrow> transaction_record \<Rightarrow> receipt \<Rightarrow> (world, exn, approve_response) thread" where
  "ap_settleT x userId dto c submitted receipt =
     bindT (ap_finalRecordT c submitted receipt) (\<lambda>finalRecord.
     bindT (await (ap_readAllowance x (ac_vault c) (ac_wallet c))) (\<lambda>updatedAllowance.
     bindT (await (whenE (tr_status finalRecord = T_CONFIRMED)
                (auditLog x \<lparr>al_userId = Some userId, al_action = APPROVAL_CONFIRMED, al_entityType = ''transaction'',
                   al_entityId = tr_transactionId finalRecord,
                   al_metadata = Some [(''vaultId'', JStr (pv_vaultId (ac_vault c))),
                     (''txHash'', case tr_txHash finalRecord of Some h \<Rightarrow> JStr h | None \<Rightarrow> JNull)]\<rparr>))) (\<lambda>_.
       finish (ap_toResponse x dto (ac_vault c) updatedAllowance (updatedAllowance < ac_amount c) finalRecord))))"

definition ap_failT :: "approve_context \<Rightarrow> transaction_record \<Rightarrow> exn \<Rightarrow> (world, exn, 'a) thread" where
  "ap_failT c transaction e =
     bindT (await (tx_markFailed (tr_transactionId transaction)
                (Some [(''error'', JStr (errorMessage e)), (''allowanceBefore'', JStr (showInt (ac_allowance c)))]))) (\<lambda>_.
       throwT e)"

definition ap_requestT :: "env \<Rightarrow> uuid \<Rightarrow> approve_dto \<Rightarrow> approve_context \<Rightarrow> (world, exn, approve_response) thread" where
  "ap_requestT x userId dto c =
     bindT (await (tx_createTransaction (ap_transactionInput userId dto c
                [(''allowanceBefore'', JStr (showInt (ac_allowance c)))]))) (\<lambda>transaction.
     bindT (await (auditLog x \<lparr>al_userId = Some userId, al_action = APPROVAL_REQUESTED, al_entityType = ''transaction'',
                al_entityId = tr_transactionId transaction,
                al_metadata = Some [(''vaultId'', JStr (pv_vaultId (ac_vault c))), (''amount'', JStr (ad_amount dto))]\<rparr>)) (\<lambda>_.
       catchT
         (bindT (ap_submitT x c transaction) (\<lambda>(submitted, receipt). ap_settleT x userId dto c submitted receipt))
         (ap_failT c transaction)))"

definition approveVaultT :: "env \<Rightarrow> uuid \<Rightarrow> string \<Rightarrow> approve_dto \<Rightarrow> (world, exn, approve_response) thread" where
  "approveVaultT x userId vaultId dto =
     bindT (ap_checksT x userId vaultId dto) (\<lambda>c.
       if \<not> ac_allowance c < ac_amount c then ap_skipT x userId dto c else ap_requestT x userId dto c)"

section \<open>The interceptor and the routes\<close>

definition idem_acquireT :: "env \<Rightarrow> acquire_input \<Rightarrow> (world, exn, http_response option \<times> uuid) thread" where
  "idem_acquireT x input =
     bindT (await (idemRepo_findByKeyAndPath (aq_key input) (aq_requestPath input))) (\<lambda>existing.
     (case existing of
        Some r \<Rightarrow> Finished (idem_resolveExistingRecord r (aq_requestHash input))
      | None \<Rightarrow>
          catchT
            (bindT (await (idem_computeExpiryDate x)) (\<lambda>expiresAt.
             bindT (await (idemRepo_create \<lparr>ci_key = aq_key input, ci_requestPath = aq_requestPath input,
                       ci_requestHash = aq_requestHash input, ci_userId = aq_userId input, ci_expiresAt = expiresAt\<rparr>))
               (\<lambda>created. finish (None, i_id created))))
            (\<lambda>e. if \<not> isRetryableIdempotencyError e then throwT e
                 else bindT (await (idemRepo_findByKeyAndPath (aq_key input) (aq_requestPath input))) (\<lambda>raced.
                      (case raced of
                         None \<Rightarrow> throwT e
                       | Some r \<Rightarrow> Finished (idem_resolveExistingRecord r (aq_requestHash input)))))))"

definition idem_runHandlerT :: "env \<Rightarrow> nat \<Rightarrow> uuid \<Rightarrow> (world, exn, json) thread \<Rightarrow> (world, exn, http_response) thread" where
  "idem_runHandlerT x routeStatus recordId handler =
     catchT
       (bindT handler (\<lambda>body.
        bindT (await (idem_complete x recordId (if routeStatus = 0 then 200 else routeStatus) body))
          (\<lambda>_. finish (routeStatus, body))))
       (\<lambda>e. bindT (await (idem_handleFailure x recordId e)) (\<lambda>_. throwT e))"

definition interceptT ::
    "env \<Rightarrow> idempotency_operation \<Rightarrow> nat \<Rightarrow> http_request \<Rightarrow> (world, exn, json) thread \<Rightarrow> (world, exn, http_response) thread" where
  "interceptT x operation routeStatus request handler =
     bindT (Finished (idem_getConfig x)) (\<lambda>c.
     (case readIdempotencyKey request (headerName c) of
        None \<Rightarrow> throwT (idempotencyKeyRequired (headerName c))
      | Some key \<Rightarrow>
          bindT (idem_acquireT x (acquireInputOf x operation request key)) (\<lambda>(replay, recordId).
          (case replay of
             Some response \<Rightarrow> finish response
           | None \<Rightarrow> idem_runHandlerT x routeStatus recordId handler))))"

definition guardedT :: "http_request \<Rightarrow> (uuid \<Rightarrow> (world, exn, http_response) thread) \<Rightarrow> (world, exn, http_response) thread" where
  "guardedT request route =
     (case h_userId request of None \<Rightarrow> throwT (unauthorized ''Unauthorized'') | Some userId \<Rightarrow> route userId)"

definition postDepositT :: "env \<Rightarrow> http_request \<Rightarrow> (world, exn, http_response) thread" where
  "postDepositT x request =
     guardedT request (\<lambda>userId. interceptT x OpDeposit 201 request
       (bindT (Finished (parseDepositDto (h_body request))) (\<lambda>dto.
        bindT (depositVaultT x userId (paramOf ''vaultId'' request) dto) (\<lambda>r. finish (depositJson r)))))"

definition postApproveT :: "env \<Rightarrow> http_request \<Rightarrow> (world, exn, http_response) thread" where
  "postApproveT x request =
     guardedT request (\<lambda>userId. interceptT x OpApproval 201 request
       (bindT (Finished (parseApproveDto (h_body request))) (\<lambda>dto.
        bindT (approveVaultT x userId (paramOf ''vaultId'' request) dto) (\<lambda>r. finish (approveJson r)))))"

definition postWithdrawT :: "env \<Rightarrow> http_request \<Rightarrow> (world, exn, http_response) thread" where
  "postWithdrawT x request =
     guardedT request (\<lambda>userId. interceptT x OpWithdrawal 201 request
       (case uuidOf (paramOf ''positionId'' request) of
          None \<Rightarrow> throwT (badRequest ''Validation failed (uuid is expected)'')
        | Some positionId \<Rightarrow>
            bindT (Finished (parseWithdrawDto (h_body request))) (\<lambda>dto.
            bindT (withdrawPositionT x userId positionId dto) (\<lambda>r. finish (withdrawJson r)))))"

section \<open>The worker\<close>

definition rec_handleConfirmedTransactionT :: "env \<Rightarrow> transaction_record \<Rightarrow> int \<Rightarrow> int \<Rightarrow> (world, exn, unit) thread" where
  "rec_handleConfirmedTransactionT x r blockNumber gasUsed =
     (if tr_type r = DEPOSIT then await (rec_confirmDepositTransaction r blockNumber gasUsed)
      else if tr_type r = WITHDRAW then await (rec_confirmWithdrawTransaction r blockNumber gasUsed)
      else bindT (tx_confirmSubmittedT (tr_transactionId r) blockNumber
                    (Some [(''gasUsed'', JStr (showInt gasUsed)), (''reconciled'', JBool True)])) (\<lambda>(applied, confirmed).
           if \<not> applied then finish ()
           else await (rec_logConfirmedAudit x r (tr_transactionId confirmed) (tr_txHash confirmed))))"

definition rec_reconcileTransactionT :: "env \<Rightarrow> transaction_record \<Rightarrow> (world, exn, reconciliation_outcome) thread" where
  "rec_reconcileTransactionT x r =
     (case tr_txHash r of
        None \<Rightarrow> finish OutPending
      | Some txHash \<Rightarrow>
          if txHash = [] then finish OutPending
          else bindT (await (bc_getTransactionReceiptWithRetry x (tr_chainId r) txHash)) (\<lambda>receipt.
               if rc_status receipt = Success
               then bindT (rec_handleConfirmedTransactionT x r (rc_blockNumber receipt) (rc_gasUsed receipt))
                      (\<lambda>_. finish OutConfirmed)
               else bindT (await (rec_handleRevertedTransaction r (rc_blockNumber receipt) (rc_gasUsed receipt)))
                      (\<lambda>_. finish OutReverted)))"

fun rec_staleLoopT :: "reconciliation_summary \<Rightarrow> transaction_record list \<Rightarrow> (world, exn, reconciliation_summary) thread" where
  "rec_staleLoopT summary [] = finish summary"
| "rec_staleLoopT summary (r # rs) =
     bindT (await (tx_markFailed (tr_transactionId r) (Some [(''reason'', JStr ''STALE_CREATED_TRANSACTION'')]))) (\<lambda>_.
     bindT (case tr_positionId r of
              None \<Rightarrow> finish ()
            | Some positionId \<Rightarrow>
                if tr_type r = DEPOSIT
                then bindT (await (pos_findById positionId)) (\<lambda>found.
                     (case found of
                        None \<Rightarrow> finish ()
                      | Some p \<Rightarrow> awaitWhen (pr_status p = P_PENDING) (pos_markFailed (pr_positionId p))))
                else finish ()) (\<lambda>_.
       rec_staleLoopT (summary\<lparr>rs_scanned := rs_scanned summary + 1, rs_failed := rs_failed summary + 1\<rparr>) rs))"

fun rec_pendingLoopT ::
    "env \<Rightarrow> reconciliation_summary \<Rightarrow> transaction_record list \<Rightarrow> (world, exn, reconciliation_summary) thread" where
  "rec_pendingLoopT x summary [] = finish summary"
| "rec_pendingLoopT x summary (r # rs) =
     (let scanned = summary\<lparr>rs_scanned := rs_scanned summary + 1\<rparr>
      in bindT (catchT (bindT (rec_reconcileTransactionT x r) (\<lambda>outcome. finish (countOutcome outcome scanned)))
                  (\<lambda>_. finish scanned)) (\<lambda>summary'.
         rec_pendingLoopT x summary' rs))"

definition rec_runReconciliationT :: "env \<Rightarrow> (world, exn, reconciliation_summary) thread" where
  "rec_runReconciliationT x =
     bindT (await (gets (\<lambda>s. now s - staleCreatedMinutes * 60000))) (\<lambda>olderThan.
     bindT (await (tx_findStaleCreated olderThan 50)) (\<lambda>stale.
     bindT (rec_staleLoopT emptySummary stale) (\<lambda>summary.
     bindT (await (tx_findPendingReconciliation 100)) (rec_pendingLoopT x summary))))"

definition reconcilePendingTransactionsT :: "env \<Rightarrow> string \<Rightarrow> (world, exn, reconciliation_summary) thread" where
  "reconcilePendingTransactionsT x jobId =
     bindT (await (lockAcquire x jobId)) (\<lambda>acquired.
       if \<not> acquired then finish emptySummary
       else finallyT (rec_runReconciliationT x)
              (bindT (await (lockIsMine x jobId)) (\<lambda>mine. awaitWhen mine (lockDelete x))))"

definition processJobT :: "env \<Rightarrow> string \<Rightarrow> string option \<Rightarrow> (world, exn, unit) thread" where
  "processJobT x jobName jobId =
     (if jobName = reconciliationJob
      then bindT (reconcilePendingTransactionsT x (case jobId of Some j \<Rightarrow> j | None \<Rightarrow> ''unknown'')) (\<lambda>_. finish ())
      else finish ())"

section \<open>Creating a wallet\<close>

definition createWalletT :: "env \<Rightarrow> uuid \<Rightarrow> create_wallet_dto \<Rightarrow> (world, exn, wallet_response) thread" where
  "createWalletT x userId dto =
     bindT (Finished (bc_getBlockchainConfig x)) (\<lambda>blockchain.
     bindT (Finished (case orElse (map_option Some (cw_chainId dto)) (bc_chainId blockchain) of
                        None \<Rightarrow> Inl noChain | Some c \<Rightarrow> Inr c)) (\<lambda>chainId.
     bindT (case cw_isPrimary dto of
              Some b \<Rightarrow> finish b
            | None \<Rightarrow> bindT (await (countUserWallets userId)) (\<lambda>n. finish (n = 0))) (\<lambda>isPrimary.
     bindT (awaitWhen isPrimary (clearPrimaryWallet userId)) (\<lambda>_.
     bindT (await (privy_ensurePrivyUserId x userId)) (\<lambda>privyUserId.
     bindT (await (privy_createWallet x userId chainId (Some privyUserId))) (\<lambda>providerWallet.
     bindT (await (insertWallet userId providerWallet isPrimary)) (\<lambda>wallet.
     bindT (await (auditLog x \<lparr>al_userId = Some userId, al_action = WALLET_CREATED, al_entityType = ''wallet'',
                al_entityId = w_id wallet,
                al_metadata = Some [(''address'', JStr (w_address wallet)), (''chainId'', JNum (w_chainId wallet)),
                  (''providerType'', JStr ''PRIVY'')]\<rparr>)) (\<lambda>_.
       finish (toPublicWallet wallet)))))))))"

section \<open>Left alone, a thread is its handler\<close>

lemma run_awaitWhen [simp]: "runT (awaitWhen b m) = whenE b (andThen m (\<lambda>_. ret ()))"
  by (simp add: awaitWhen_def)

lemma run_confirmSubmitted [simp]: "runT (tx_confirmSubmittedT i b m) = tx_confirmSubmitted i b m"
proof
  fix s
  let ?d = "\<lparr>su_status = T_CONFIRMED, su_txHash = None, su_blockNumber = Some b, su_metadata = m\<rparr>"
  show "runT (tx_confirmSubmittedT i b m) s = tx_confirmSubmitted i b m s"
  proof (cases "\<exists>t. find (\<lambda>t. t_id t = i) (transactions s) = Some t \<and> t_status t = T_SUBMITTED")
    case True
    then obtain t where hit: "find (\<lambda>t. t_id t = i) (transactions s) = Some t" and sub: "t_status t = T_SUBMITTED" by blast
    obtain t' where run: "txRepo_updateStatus i ?d s = (Inr t', s\<lparr>transactions := updWhere (\<lambda>q. t_id q = i) (\<lambda>_. t') (transactions s)\<rparr>)"
      and id: "t_id t' = i" using updateStatus_run [OF hit] by blast
    have "find (\<lambda>t. t_id t = i) (updWhere (\<lambda>q. t_id q = i) (\<lambda>_. t') ts) = map_option (\<lambda>_. t') (find (\<lambda>t. t_id t = i) ts)" for ts
      by (induction ts) (auto simp: id)
    with hit sub run show ?thesis
      by (simp add: tx_confirmSubmittedT_def tx_confirmSubmitted_def txRepo_confirmSubmitted_def txRepo_updateSubmitted_def
          txRepo_findUniqueOrThrow_def txRepo_findById_def txRepo_updateStatus_def andThen_def)
  next
    case False
    then show ?thesis
      by (cases "find (\<lambda>t. t_id t = i) (transactions s)")
         (auto simp: tx_confirmSubmittedT_def tx_confirmSubmitted_def txRepo_confirmSubmitted_def txRepo_updateSubmitted_def
          txRepo_findUniqueOrThrow_def txRepo_findById_def andThen_def)
  qed
qed

text \<open>The branches of a conditional, which the simplifier leaves alone by itself.\<close>

lemmas branches = if_distrib [of runT] option.case_distrib [of runT] prod.case_distrib [of runT] runT_Finished

lemma run_deposit:
  "runT (dep_checksT x u v dto) = dep_checks x u v dto" "runT (dep_openT u dto c) = dep_open u dto c"
  "runT (dep_submitT x c t) = dep_submit x c t" "runT (dep_failT p isNew t e) = dep_fail p isNew t e"
  "runT (dep_revertedT x u dto c dv p isNew t rc) = dep_reverted x u dto c dv p isNew t rc"
  "runT (dep_confirmedT x u dto c p isNew t rc) = dep_confirmed x u dto c p isNew t rc"
  by (simp_all add: dep_checksT_def dep_checks_def dep_openT_def dep_open_def dep_assertNoDuplicateDepositT_def
      dep_assertNoDuplicateDeposit_def dep_submitT_def dep_submit_def dep_failT_def dep_fail_def dep_revertedT_def
      dep_reverted_def dep_confirmedT_def dep_confirmed_def case_prod_unfold)

lemma run_depositVault: "runT (depositVaultT x u v dto) = depositVault x u v dto"
  by (simp add: depositVaultT_def depositVault_def dep_attemptT_def dep_attempt_def dep_settle_def run_deposit branches
      case_prod_unfold cong: if_cong)

lemma run_withdraw:
  "runT (wd_checksT x u i dto) = wd_checks x u i dto" "runT (wd_openT u c) = wd_open u c"
  "runT (wd_submitT x c t) = wd_submit x c t" "runT (wd_failT c t e) = wd_fail c t e"
  "runT (wd_revertedT x dto c t rc) = wd_reverted x dto c t rc"
  "runT (wd_confirmedT x u dto c t rc) = wd_confirmed x u dto c t rc"
  by (simp_all add: wd_checksT_def wd_checksOfT_def wd_checks_def wd_openT_def wd_open_def wd_submitT_def wd_submit_def wd_failT_def
      wd_fail_def wd_revertedT_def wd_reverted_def wd_confirmedT_def wd_confirmed_def case_prod_unfold Let_def)

lemma run_withdrawPosition: "runT (withdrawPositionT x u i dto) = withdrawPosition x u i dto"
  by (simp add: withdrawPositionT_def withdrawPosition_def wd_attemptT_def wd_attempt_def wd_settle_def run_withdraw branches
      case_prod_unfold cong: if_cong)

lemma run_approve:
  "runT (ap_checksT x u v dto) = ap_checks x u v dto" "runT (ap_skipT x u dto c) = ap_skip x u dto c"
  "runT (ap_submitT x c t) = ap_submit x c t" "runT (ap_failT c t e) = ap_fail c t e"
  "runT (ap_finalRecordT c t rc) = ap_finalRecord c t rc"
  by (simp_all add: ap_checksT_def ap_checks_def ap_skipT_def ap_skip_def ap_submitT_def ap_submit_def ap_failT_def
      ap_fail_def ap_finalRecordT_def ap_finalRecord_def case_prod_unfold)

lemma run_approveVault: "runT (approveVaultT x u v dto) = approveVault x u v dto"
  by (simp add: approveVaultT_def approveVault_def ap_requestT_def ap_request_def ap_attempt_def ap_settleT_def
      ap_settle_def run_approve branches case_prod_unfold cong: if_cong)

lemma run_intercept: "runT (interceptT x op st q handler) = intercept x (Some op) st q (runT handler)"
proof -
  have "runT (idem_acquireT x input) = idem_acquire x input" for input
    by (simp add: idem_acquireT_def idem_acquire_def idem_acquireNew_def branches del: bindT.simps runT.simps
        cong: if_cong option.case_cong)
  then show ?thesis
    by (simp add: interceptT_def intercept_def idem_runHandlerT_def idem_runHandler_def branches case_prod_unfold
        del: bindT.simps runT.simps cong: if_cong option.case_cong)
qed

lemma run_routes:
  "runT (postDepositT x q) = postDeposit x q" "runT (postApproveT x q) = postApprove x q" "runT (postWithdrawT x q) = postWithdraw x q"
  by (simp_all add: postDepositT_def postDeposit_def postApproveT_def postApprove_def postWithdrawT_def postWithdraw_def
      guardedT_def guarded_def depositHandler_def approveHandler_def withdrawHandler_def run_intercept run_depositVault
      run_approveVault run_withdrawPosition branches del: bindT.simps runT.simps cong: option.case_cong)

lemma run_staleLoop: "runT (rec_staleLoopT summary rs) = rec_staleLoop summary rs"
  by (induction rs arbitrary: summary) (simp_all add: branches whenE_def cong: if_cong option.case_cong)

lemma run_reconcileTransaction: "runT (rec_reconcileTransactionT x r) = rec_reconcileTransaction x r"
  by (simp add: rec_reconcileTransactionT_def rec_reconcileTransaction_def rec_handleConfirmedTransactionT_def
      rec_handleConfirmedTransaction_def branches case_prod_unfold cong: if_cong option.case_cong)

lemma run_pendingLoop: "runT (rec_pendingLoopT x summary rs) = rec_pendingLoop x summary rs"
  by (induction rs arbitrary: summary) (simp_all add: run_reconcileTransaction Let_def)

lemma andThen_unit: "andThen m ret = m"
  by (rule ext) (simp add: andThen_def split: prod.split sum.split)

lemma run_processJob: "runT (processJobT x name jobId) = processJob x name jobId"
  by (simp add: lockRelease_def andThen_unit processJobT_def processJob_def reconcilePendingTransactionsT_def reconcilePendingTransactions_def
      rec_runReconciliationT_def rec_runReconciliation_def rec_reconcileStaleCreated_def run_staleLoop run_pendingLoop
      branches andThen_assoc whenE_def cong: if_cong)

lemma run_createWallet: "runT (createWalletT x u dto) = createWallet x u dto"
proof -
  show ?thesis
    by (simp add: andThen_unit createWalletT_def createWallet_def branches del: bindT.simps runT.simps cong: option.case_cong)
qed

end
