(* ===== verification/Concurrent.thy ===== *)
theory Concurrent
  imports Interleave
begin

text \<open>
  Any number of mutating requests and runs of the worker at the same time, interleaved at their
  \<open>await\<close>s, with the other requests and the clock between them.  \<open>know h N\<close> is what every step keeps:
  the invariants of the tables, the transactions of the history \<open>h\<close>, and of the transactions in
  \<open>N\<close>, those the threads have opened, that their type and amount stay.  Each thread is \<open>safe\<close> for it: it writes to transactions
  it has opened itself, or, the worker, to ones it has found open.  With \<open>rely\<close> of \<open>Threads\<close> the pool
  keeps the invariants, and transactions that were closed when the first thread arrived are final.
\<close>

section \<open>What every step keeps\<close>

type_synonym knowledge = "uuid \<times> transaction_type \<times> int"

definition know :: "uuid set \<times> transaction list \<Rightarrow> knowledge set \<Rightarrow> world \<Rightarrow> bool" where
  "know h N s \<longleftrightarrow> recorded h s \<and> (\<forall>(i, ty, n) \<in> N. i \<notin> fst h \<and> i < nextId s \<and> knownTx i ty n s)"

lemma know_recorded: "know h N s \<Longrightarrow> recorded h s"
  by (simp add: know_def)

lemma know_sound: "know h N s \<Longrightarrow> sound s" "know h N s \<Longrightarrow> dbInv s" "know h N s \<Longrightarrow> history h s" "know h N s \<Longrightarrow> sideInv s"
  by (simp_all add: know_def recorded_def tablesInvs_def sound_def)

lemma ignoresOutside_know [simp]: "ignoresOutside (know h N)" "ignoresRedis (know h N)"
  by (simp_all add: ignoresOutside_def ignoresRedis_def know_def recorded_def history_def knownTx_def tablesInvs_def sound_def
      sideInvs_def dbInv_def posInv_def txInv_def refsBelow_def vaultInv_def idemInv_def walletsInv_def primaries_def userInv_def)

text \<open>A step that keeps the history of each transaction keeps what is known of it.\<close>

lemma known_by_history:
  assumes "\<And>h. history h s \<Longrightarrow> history h s'" and "i < nextId s" and "knownTx i ty n s"
  shows "i < nextId s' \<and> knownTx i ty n s'"
proof -
  let ?h = "({i}, filter (\<lambda>t. t_id t \<in> {i}) (transactions s))"
  have "history ?h s" using assms(2) by (simp add: history_def)
  from assms(1) [OF this] have h: "filter (\<lambda>t. t_id t = i) (transactions s') = filter (\<lambda>t. t_id t = i) (transactions s)" "i < nextId s'"
    by (simp_all add: history_def)
  have "t \<in> set (transactions s)" if "t \<in> set (transactions s')" "t_id t = i" for t
  proof -
    have "t \<in> set (filter (\<lambda>t. t_id t = i) (transactions s'))" using that by simp
    then show ?thesis unfolding h(1) by simp
  qed
  with assms(3) h(2) show ?thesis by (auto simp: knownTx_def)
qed

lemma know_by_history:
  assumes "know h N s" and "\<And>h. history h s \<Longrightarrow> history h s'" and "tablesInv s'"
  shows "know h N s'"
proof -
  have "i < nextId s' \<and> knownTx i ty n s'" if "(i, ty, n) \<in> N" for i ty n
    using known_by_history [OF assms(2)] assms(1) that by (auto simp: know_def)
  then show ?thesis using assms by (auto simp: know_def recorded_def)
qed

lemma preserves_know_by_history:
  assumes "\<And>h. preserves (history h) m" and "preserves tablesInv m"
  shows "preserves (know h N) m"
proof (rule preservesI)
  fix s assume k: "know h N s"
  have "tablesInv s" using know_recorded [OF k] by (simp add: recorded_def)
  with preservesD [OF assms(2)] preservesD [OF assms(1)] show "know h N (snd (m s))" by (intro know_by_history [OF k])
qed

text \<open>A step that writes to transactions: each of the parts is kept.\<close>

lemma preserves_know:
  assumes "preserves dbInv m" and "preserves refsBelow m" and "\<And>I. earnFrame I \<Longrightarrow> preserves I m" and "preserves (history h) m"
    and "\<And>i ty n. preserves (knownTx i ty n) m"
  shows "preserves (know h N) m"
proof (rule preservesI)
  fix s assume k: "know h N s"
  have "earnFrame (\<lambda>s. i < nextId s)" for i by (auto simp: earnFrame_def ignoresOutside_def ignoresRedis_def)
  then have "i < nextId (snd (m s))" if "i < nextId s" for i using preservesD [OF assms(3)] that by blast
  moreover have "sideInv (snd (m s))" using preservesD [OF assms(3) [OF earnFrame_sideInv]] know_sound(4) [OF k] .
  ultimately show "know h N (snd (m s))"
    using k assms(1,2,4,5) by (auto simp: know_def recorded_def tablesInvs_def sound_def preserves_def)
qed

section \<open>Operations on the tables\<close>

lemma refsBelow_more:
  "preserves refsBelow (tx_markSubmitted j hash m)" "preserves refsBelow (tx_markConfirmed j b m)"
  "preserves refsBelow (txRepo_updateStatus j d)" "preserves refsBelow (pos_addDeposit j a)"
  "preserves refsBelow (pos_markWithdrawing j)"
proof -
  have upd: "preserves refsBelow (txRepo_updateStatus j d)" for d
    unfolding txRepo_updateStatus_def by (rule refsBelow_transactionUpdate) (auto simp: applyStatus_def)
  show "preserves refsBelow (tx_markSubmitted j hash m)" "preserves refsBelow (tx_markConfirmed j b m)"
    "preserves refsBelow (txRepo_updateStatus j d)"
    unfolding tx_marks by (intro preserves_asTxRecord upd)+
  have I: "refsBelow s' = refsBelow s" if "transactions s' = transactions s" "nextId s' = nextId s" for s s'
    using that by (simp add: refsBelow_def)
  show "preserves refsBelow (pos_addDeposit j a)" "preserves refsBelow (pos_markWithdrawing j)"
    unfolding pos_ops by (intro preserves_asRecord preservesI, subst I, simp_all)+
qed

lemma history_more:
  "i \<notin> fst h \<Longrightarrow> preserves (history h) (txRepo_updateStatus i d)" "preserves (history h) (pos_addDeposit j a)"
proof -
  show "preserves (history h) (txRepo_updateStatus i d)" if "i \<notin> fst h"
    unfolding txRepo_updateStatus_def by (rule history_transactionUpdate [OF that]) (auto simp: applyStatus_def)
  show "preserves (history h) (pos_addDeposit j a)"
    unfolding pos_ops by (intro preserves_asRecord preservesI; erule history_frame; simp)
qed

lemma history_marks:
  "i \<notin> fst h \<Longrightarrow> preserves (history h) (tx_markSubmitted i hash m)" "i \<notin> fst h \<Longrightarrow> preserves (history h) (tx_markConfirmed i b m)"
  unfolding tx_marks by (intro preserves_asTxRecord history_more; assumption)+

lemmas sound_parts = refsBelow_tx refsBelow_pos refsBelow_more history_tx history_pos history_more history_marks

text \<open>Closing a transaction outside the history.\<close>

lemma know_close:
  assumes "i \<notin> fst h"
  shows "preserves (know h N) (tx_markFailed i m)" "preserves (know h N) (tx_markReverted i b m)"
    "preserves (know h N) (tx_markConfirmed i b m)" "preserves (know h N) (tx_confirmSubmitted i b m)"
  by (intro preserves_know pres frame sound_parts assms; assumption?)+

lemma know_updateSubmitted:
  assumes "i \<notin> fst h"
  shows "preserves (know h N) (txRepo_updateSubmitted i b m)"
proof (rule preservesI)
  fix s assume k: "know h N s"
  have "snd (txRepo_updateSubmitted i b m s) = s \<or> snd (txRepo_updateSubmitted i b m s) = snd (tx_markConfirmed i b m s)"
    by (auto simp: txRepo_updateSubmitted_def tx_markConfirmed_def split: option.split)
  with preservesD [OF know_close(3) [OF assms] k] k show "know h N (snd (txRepo_updateSubmitted i b m s))" by metis
qed

lemma know_positions:
  "preserves (know h N) (pos_markFailed j)" "preserves (know h N) (pos_markActive j)"
  by (intro preserves_know pres frame sound_parts; assumption?)+

lemma know_submit:
  assumes "(i, ty, n) \<in> N" and "metadataGood ty n (Some m)"
  shows "preserves (know h N) (tx_markSubmitted i hash (Some m))"
proof (rule preservesI)
  fix s assume k: "know h N s"
  then have i: "i \<notin> fst h" "knownTx i ty n s" using assms(1) by (auto simp: know_def)
  let ?I = "\<lambda>s. knownTx i ty n s \<and> know h N s"
  have "workInv i ty n s" using i(2) know_sound(2) [OF k] by (simp add: workInv_def)
  from preservesD [OF dbInv_markSubmitted [OF assms(2)] this] have db: "dbInv (snd (tx_markSubmitted i hash (Some m) s))"
    by (simp add: workInv_def)
  have "preserves (know h N) (\<lambda>t. if t = s then tx_markSubmitted i hash (Some m) s else (Inl recordNotFound, t))"
    by (rule preserves_know) (use db preservesD [OF refsBelow_more(1)] preservesD [OF frame_transactions(4)]
        preservesD [OF history_marks(1) [OF i(1)]] preservesD [OF known_tx(4)] in \<open>auto simp: preserves_def\<close>)
  from preservesD [OF this k] show "know h N (snd (tx_markSubmitted i hash (Some m) s))" by simp
qed

lemma know_findOrCreate: "preserves (know h N) (vaultRepo_findOrCreate pv)"
proof (rule preserves_know_by_history)
  show "preserves (history h) (vaultRepo_findOrCreate pv)" for h
    by (rule preservesI) (erule history_frame; rule findOrCreate_fields)
  show "preserves tablesInv (vaultRepo_findOrCreate pv)"
    by (intro preserves_tablesInv preserves_sound findOrCreate_sideInv preservesI; erule base_frame; rule findOrCreate_fields)
qed

lemma know_keys:
  "preserves (know h N) (idemRepo_create ci)" "preserves (know h N) (idem_complete x i st body)"
  "preserves (know h N) (idem_handleFailure x i e)"
proof -
  show create: "preserves (know h N) (idemRepo_create ci)"
    by (intro preserves_know_by_history key_keeps keyFrame_repo history_frames)
  have repo: "preserves (know h N) (idemRepo_deleteById i)" "preserves (know h N) (idemRepo_saveResponse x i body st)" for i body st
    by (intro preserves_know_by_history preserves_tablesInv preserves_sound sideInv_keys keyFrame_repo keyFrame_base history_frames)+
  show complete: "preserves (know h N) (idem_complete x i st body)" for i st body
    unfolding idem_complete_def by (intro pres repo)
  show "preserves (know h N) (idem_handleFailure x i e)"
    unfolding idem_handleFailure_def by (cases e; simp add: complete split: response.split)
qed

section \<open>Opening a transaction\<close>

text \<open>The new transaction is outside the history and becomes known.\<close>

lemma know_opened:
  assumes k: "know h N s" and w: "\<And>sk. base sk UNIV s \<Longrightarrow> working sk UNIV i ty n pid K False s'"
    and a: "\<And>h. history h s \<Longrightarrow> history h s' \<and> i \<notin> fst h" and side: "sideInv s'"
  shows "know h (insert (i, ty, n) N) s'"
proof -
  obtain sk where "base sk UNIV s" using know_sound(1) [OF k] sound_skewed by blast
  from w [OF this] have w': "working sk UNIV i ty n pid K False s'" .
  then have "base sk UNIV s'" by (auto simp: working_def)
  then have "sound s'" using sound_skewed by blast
  with side have "tablesInv s'" by (simp add: tablesInvs_def)
  then have "know h N s'" using a by (intro know_by_history [OF k]) blast+
  moreover have "i \<notin> fst h" using a [OF know_sound(3) [OF k]] by simp
  moreover have "i < nextId s'"
    using w' \<open>sound s'\<close> by (auto simp: working_def sound_def dbInv_def txInv_def dest: find_Some_iff_first)
  ultimately show ?thesis using working_known [OF w'] by (simp add: know_def)
qed

lemma created_history:
  "tx_createTransaction input s = (Inr r, s') \<Longrightarrow> history h s \<Longrightarrow> history h s' \<and> tr_transactionId r \<notin> fst h"
  using createTransaction_row [of input s r s'] history_fresh [of h s] by (fastforce intro: history_new)

text \<open>A step that opens a transaction of a type and amount, or throws and writes nothing.\<close>

lemma opens_safe:
  assumes opened: "\<And>s x s' sk. dbInv s \<Longrightarrow> base sk UNIV s \<Longrightarrow> m s = (Inr x, s') \<Longrightarrow> working sk UNIV (tid x) ty n (pid x) (K x) False s'"
    and hist: "\<And>s x s' h. m s = (Inr x, s') \<Longrightarrow> history h s \<Longrightarrow> history h s' \<and> tid x \<notin> fst h"
    and side: "preserves sideInv m" and refused: "\<And>s e s'. m s = (Inl e, s') \<Longrightarrow> s' = s"
  shows "safe (know h) (\<lambda>x N. (tid x, ty, n) \<in> N) (await m) N"
proof (rule safe_await)
  fix M s assume k: "know h M s"
  obtain r s' where run: "m s = (r, s')" by force
  show "\<exists>M'. M \<subseteq> M' \<and> know h M' (snd (m s)) \<and> (\<forall>x. fst (m s) = Inr x \<longrightarrow> (tid x, ty, n) \<in> M')"
  proof (cases r)
    case (Inl e)
    with k run refused show ?thesis by auto
  next
    case (Inr x)
    have "sideInv s'" using preserves_run [OF side run] know_sound(4) [OF k] by simp
    then have "know h (insert (tid x, ty, n) M) s'"
      using opened [OF know_sound(2) [OF k]] hist run Inr by (intro know_opened [OF k]) auto
    with run Inr show ?thesis by auto
  qed
qed

lemma atomically_opens:
  "atomically m s = (Inr x, s') \<Longrightarrow> m s = (Inr x, s')" "atomically m s = (Inl e, s') \<Longrightarrow> s' = s"
  by (cases "m s"; cases "fst (m s)"; simp add: atomically_def)+

lemma dep_openBody_safe:
  assumes n: "bigIntOf (dd_amount dto) = Some n" "0 \<le> n" and c: "dc_estimatedShares c = n"
  shows "safe (know h) (\<lambda>r N. (tr_transactionId (fst (snd r)), DEPOSIT, n) \<in> N) (await (atomically (dep_openBody u v dto c))) N"
proof (rule opens_safe)
  show "preserves sideInv (atomically (dep_openBody u v dto c))"
    unfolding dep_openBody_def by (intro pres frame earnFrame_sideInv)
  show "working sk UNIV (tr_transactionId (fst (snd r))) DEPOSIT n (Some (pr_positionId (fst r)))
      (\<lambda>sh. snd (snd r) \<longrightarrow> sh = 0) False s'"
    if "base sk UNIV s" "atomically (dep_openBody u v dto c) s = (Inr r, s')" for s r s' sk
    using dep_openBody_opened [OF n c that(1), of u v "fst r" "fst (snd r)" "snd (snd r)" s'] atomically_opens(1) [OF that(2)] by simp
  show "history h s' \<and> tr_transactionId (fst (snd r)) \<notin> fst h"
    if "atomically (dep_openBody u v dto c) s = (Inr r, s')" "history h s" for s r s' h
  proof -
    obtain p t isNew where r: "r = (p, t, isNew)" by (cases r)
    from dep_openBody_run [of u v dto c s p t isNew s'] atomically_opens(1) [OF that(1)] r obtain s1 where
      "pos_createPending u v s = (Inr p, s1) \<or> s1 = s"
      "tx_createTransaction (dep_transactionInput u v dto c (pr_positionId p)) s1 = (Inr t, s')" by blast
    moreover from this(1) have "history h s1"
      using that(2) createPending_row [of u v s p s1] history_frame [OF that(2), of s1] by fastforce
    ultimately show ?thesis using created_history r by simp
  qed
qed (rule atomically_opens(2))

lemma wd_openBody_run:
  assumes "wd_openBody u c s = (Inr t, s')"
  obtains r s1 where "pos_markWithdrawing (p_id (wc_position c)) s = (Inr r, s1)"
    and "tx_createTransaction (wd_transactionInput u c) s1 = (Inr t, s')"
proof -
  have read: "tx_hasOpenWithdraw i s = (Inr b, s0) \<Longrightarrow> s0 = s" for i b s0
    by (simp add: tx_hasOpenWithdraw_def txRepo_findOpenWithdraw_def)
  from assms show thesis
    unfolding wd_openBody_def Let_def by (elim andThen_InrE) (auto simp only: require_Inr dest!: read intro: that)
qed

lemma wd_openBody_working:
  assumes n: "bigIntOf (wc_withdrawAmount c) = Some n" "0 \<le> n" "wc_sharesToBurn c = n"
    and b: "base sk S s" and run: "wd_openBody u c s = (Inr t, s')"
  shows "working sk S (tr_transactionId t) WITHDRAW n (Some (p_id (wc_position c))) (\<lambda>_. True) False s'"
proof -
  from wd_openBody_run [OF run] obtain r s1 where mark: "pos_markWithdrawing (p_id (wc_position c)) s = (Inr r, s1)"
    and create: "tx_createTransaction (wd_transactionInput u c) s1 = (Inr t, s')" .
  from mark obtain p where p: "positionUpdate (p_id (wc_position c)) (setStatus P_WITHDRAWING) s = (Inr p, s1)"
    by (auto simp: pos_markWithdrawing_def posRepo_markWithdrawing_def asRecord_def elim: andThen_InrE)
  have "base sk S s1" using base_setStatus [OF b, of "p_id (wc_position c)" P_WITHDRAWING] p by simp
  moreover have "\<exists>q. find (\<lambda>q. p_id q = p_id (wc_position c)) (positions s1) = Some q"
    using positionTable.update_lookup [OF p [unfolded positionUpdate_def], of "p_id (wc_position c)"] by (auto simp: setStatus_def)
  ultimately show ?thesis
    using triple_Inr [OF book_create [of "wd_transactionInput u c" n sk S "\<lambda>_. True"] _ create] n
    by (simp add: wd_transactionInput_def metadataGood_def wd_metadata_def metadataString_def)
qed

lemma wd_openBody_safe:
  assumes n: "bigIntOf (wc_withdrawAmount c) = Some n" "0 \<le> n" "wc_sharesToBurn c = n"
  shows "safe (know h) (\<lambda>t N. (tr_transactionId t, WITHDRAW, n) \<in> N) (await (atomically (wd_openBody u c))) N"
proof (rule opens_safe)
  show "preserves sideInv (atomically (wd_openBody u c))"
    unfolding wd_openBody_def Let_def by (intro pres frame earnFrame_sideInv)
  show "history h s' \<and> tr_transactionId t \<notin> fst h" if "atomically (wd_openBody u c) s = (Inr t, s')" "history h s" for s t s' h
  proof -
    from wd_openBody_run [OF atomically_opens(1) [OF that(1)]] obtain r s1 where
      mark: "pos_markWithdrawing (p_id (wc_position c)) s = (Inr r, s1)"
      and create: "tx_createTransaction (wd_transactionInput u c) s1 = (Inr t, s')" .
    have "snd (pos_markWithdrawing (p_id (wc_position c)) s) = s1" using mark by simp
    then have "transactions s1 = transactions s" "nextId s1 = nextId s" by (auto simp: pos_markWithdrawing_def)
    then show ?thesis using created_history [OF create] history_frame [OF that(2)] by simp
  qed
qed (auto dest: atomically_opens intro: wd_openBody_working [OF n])

lemma ap_create_safe:
  assumes n: "bigIntOf (ad_amount dto) = Some n" "0 \<le> n"
  shows "safe (know h) (\<lambda>t N. (tr_transactionId t, APPROVAL, n) \<in> N) (await (tx_createTransaction (ap_transactionInput u dto c m))) N"
proof (rule opens_safe)
  show "preserves sideInv (tx_createTransaction (ap_transactionInput u dto c m))" by (intro frame earnFrame_sideInv)
  show "working sk UNIV (tr_transactionId t) APPROVAL n None (\<lambda>_. True) False s'"
    if "base sk UNIV s" "tx_createTransaction (ap_transactionInput u dto c m) s = (Inr t, s')" for s t s' sk
    using triple_Inr [OF book_create [of "ap_transactionInput u dto c m" n sk UNIV "\<lambda>_. True"] _ that(2)] n that(1)
    by (simp add: ap_transactionInput_def metadataGood_def sharesField_simps)
qed (auto dest: created_history create_refused)

section \<open>The requests\<close>

lemmas outside = pres aave.reads_only privy.writes_outside ignoresOutside_know

lemma safe_awaitWhen: "(\<And>M. preserves (I M) m) \<Longrightarrow> safe I anyhow (awaitWhen b m) N"
  by (auto simp: awaitWhen_def intro!: safe_step)

lemma safe_rethrow: "(\<And>M. preserves (I M) m) \<Longrightarrow> safe I Q (bindT (awaitWhen b m) (\<lambda>_. throwT e)) N"
  by (rule safe_bindT [OF safe_awaitWhen]) simp_all

text \<open>The checks: whatever the other requests do meanwhile, the amounts of the context are the same number.\<close>

lemma dep_checks_safe:
  assumes "bigIntOf (dd_amount dto) = Some n"
  shows "safe (know h) (\<lambda>c N. dc_estimatedShares c = n) (dep_checksT x u v dto) N"
  unfolding dep_checksT_def
  by (intro safe_step safe_require outside) (use assms in \<open>auto simp: bc_previewDepositShares_def\<close>)

definition sameWithdrawal :: "withdraw_context \<Rightarrow> int \<Rightarrow> bool" where
  "sameWithdrawal c n \<longleftrightarrow> bigIntOf (wc_withdrawAmount c) = Some n \<and> 0 \<le> n \<and> wc_sharesToBurn c = n"

lemma wd_checksOf_safe:
  assumes valid: "validWithdraw dto" and p: "goodPosition p"
  shows "safe (know h) (\<lambda>c N. \<exists>n. sameWithdrawal c n) (wd_checksOfT x u dto p v) N"
proof -
  have eq: "p_currentAmount p = p_shares p" "0 \<le> p_shares p" using p by (simp_all add: goodPosition_def)
  have "bigIntOf a = Some n \<Longrightarrow> wd_resolveWithdrawAmount p dto full = Inr a \<Longrightarrow> full = (wdd_fullWithdraw dto = Some True) \<Longrightarrow>
      0 \<le> n \<and> (full \<longrightarrow> n = p_shares p)" for a n full
    using valid eq positive_amount
    by (fastforce simp: wd_resolveWithdrawAmount_def validWithdraw_def split: if_splits option.splits)
  then show ?thesis unfolding wd_checksOfT_def Let_def
    by (intro safe_step safe_require outside)
       (auto simp: sameWithdrawal_def bc_previewWithdrawShares_def split: if_splits)
qed

lemma wd_checks_safe:
  assumes valid: "validWithdraw dto"
  shows "safe (know h) (\<lambda>c N. \<exists>n. sameWithdrawal c n) (wd_checksT x u i dto) N"
  unfolding wd_checksT_def
proof (rule safe_step)
  show "preserves (know h M) (wd_position u i)" for M unfolding wd_position_def by (intro outside)
next
  fix r M s s' assume k: "know h M s" and "wd_position u i s = (Inr r, s')"
  then have "fst r \<in> set (positions s)" by (cases r) (auto dest!: wd_position_Inr find_Some_iff_first)
  then have "goodPosition (fst r)" using know_sound(2) [OF k] by (auto simp: dbInv_def posInv_def)
  from wd_checksOf_safe [OF valid this]
  show "safe (know h) (\<lambda>c N. \<exists>n. sameWithdrawal c n) (case r of (p, v) \<Rightarrow> wd_checksOfT x u dto p v) M"
    by (simp add: case_prod_unfold)
qed

lemma ap_checks_safe: "safe (know h) anyhow (ap_checksT x u v dto) N"
  unfolding ap_checksT_def ap_readAllowance_def
  by (intro safe_step safe_require outside) simp

text \<open>A thread's own transaction: any of the writes to it is safe.\<close>

lemma know_own:
  assumes "(i, ty, n) \<in> N"
  shows "preserves (know h N) (tx_markFailed i m)" "preserves (know h N) (tx_markReverted i b m)"
    "preserves (know h N) (tx_markConfirmed i b m)" "preserves (know h N) (txRepo_updateSubmitted i b m)"
proof -
  have i: "i \<notin> fst h" if "know h N s" for s using assms that by (auto simp: know_def)
  show "preserves (know h N) (tx_markFailed i m)" "preserves (know h N) (tx_markReverted i b m)"
    "preserves (know h N) (tx_markConfirmed i b m)" "preserves (know h N) (txRepo_updateSubmitted i b m)"
    using know_close know_updateSubmitted i unfolding preserves_def by metis+
qed

lemma know_confirmBodies:
  assumes i: "(tr_transactionId sub, ty, n) \<in> N" and n: "0 \<le> n"
  shows "sameAmounts (dep_amounts dto c) n \<Longrightarrow> preserves (know h N) (atomically (dep_confirmBody dto c p isNew sub rc))"
    and "sameWithdrawal wc n \<Longrightarrow> preserves (know h N) (atomically (wd_confirmBody wc sub rc))"
proof -
  have fresh: "tr_transactionId sub \<notin> fst h" if "know h N s" for s using i that by (auto simp: know_def)
  have "preserves (know h N) (atomically (dep_confirmBody dto c p isNew sub rc))"
    if "sameAmounts (dep_amounts dto c) n" "tr_transactionId sub \<notin> fst h"
    unfolding dep_confirmBody_def
    by (intro preserves_know pres dbInv_pos_amounts(1,2) [OF that(1) n] frame sound_parts that; assumption?)
  with fresh show "sameAmounts (dep_amounts dto c) n \<Longrightarrow> preserves (know h N) (atomically (dep_confirmBody dto c p isNew sub rc))"
    unfolding preserves_def by metis
  have "preserves (know h N) (atomically (wd_confirmBody wc sub rc))"
    if w: "sameWithdrawal wc n" and f: "tr_transactionId sub \<notin> fst h"
    unfolding wd_confirmBody_def
    by (intro preserves_know pres dbInv_pos_amounts(3) [where n = n] frame sound_parts f n; assumption?)
       (use w in \<open>simp_all add: sameWithdrawal_def\<close>)
  with fresh show "sameWithdrawal wc n \<Longrightarrow> preserves (know h N) (atomically (wd_confirmBody wc sub rc))"
    unfolding preserves_def by metis
qed

text \<open>The three \<open>try\<close> blocks begin alike: ask the provider, record the hash, wait for the receipt.\<close>

lemma submit_safe:
  assumes i: "(tr_transactionId t, ty, n) \<in> N" and m: "\<And>b. metadataGood ty n (Some (meta b))"
  shows "safe (know h) (\<lambda>r N. (tr_transactionId (fst r), ty, n) \<in> N)
     (bindT (await (lift d)) (\<lambda>callData.
      bindT (await (privy_sendTransaction x (input callData))) (\<lambda>b.
      bindT (await (tx_markSubmitted (tr_transactionId t) (b_hash b) (Some (meta b)))) (\<lambda>submitted.
      bindT (await (bc_waitForTransactionReceipt x chain (b_hash b))) (\<lambda>receipt. finish (submitted, receipt)))))) N"
  by (intro safe_step know_submit [OF _ m] outside) (use i in \<open>auto dest!: submitted_id simp: subset_iff\<close>)

lemma submits_safe:
  "(tr_transactionId t, DEPOSIT, n) \<in> N \<Longrightarrow> dc_estimatedShares c = n \<Longrightarrow>
   safe (know h) (\<lambda>r N. (tr_transactionId (fst r), DEPOSIT, n) \<in> N) (dep_submitT x c t) N"
  "(tr_transactionId t, WITHDRAW, n) \<in> N \<Longrightarrow> sameWithdrawal wc n \<Longrightarrow>
   safe (know h) (\<lambda>r N. (tr_transactionId (fst r), WITHDRAW, n) \<in> N) (wd_submitT x wc t) N"
  "(tr_transactionId t, APPROVAL, n) \<in> N \<Longrightarrow>
   safe (know h) (\<lambda>r N. (tr_transactionId (fst r), APPROVAL, n) \<in> N) (ap_submitT x ac t) N"
  unfolding dep_submitT_def wd_submitT_def ap_submitT_def
  by (rule submit_safe, assumption, simp add: metadataGood_def dep_submittedMetadata_def wd_submittedMetadata_def
      sameWithdrawal_def metadataString_def optField_def split: option.split)+

lemma dep_attempt_safe:
  assumes n: "bigIntOf (dd_amount dto) = Some n" "0 \<le> n" and c: "dc_estimatedShares c = n" and i: "(tr_transactionId t, DEPOSIT, n) \<in> N"
  shows "safe (know h) anyhow (dep_attemptT x u dto c v p t isNew) N"
  unfolding dep_attemptT_def
proof (rule safe_catchT)
  have same: "sameAmounts (dep_amounts dto c) n" using n c by (simp add: sameAmounts_def dep_amounts_def)
  have "safe (know h) anyhow (dep_revertedT x u dto c v p isNew sub rc) M" if "(tr_transactionId sub, DEPOSIT, n) \<in> M" for sub rc M
    unfolding dep_revertedT_def
    by (rule safe_bindT [OF safe_awaitWhen], rule know_positions, intro safe_step know_own [where ty = DEPOSIT and n = n] outside)
       (use that in \<open>auto simp: subset_iff\<close>)
  moreover have "safe (know h) anyhow (dep_confirmedT x u dto c p isNew sub rc) M" if "(tr_transactionId sub, DEPOSIT, n) \<in> M" for sub rc M
    unfolding dep_confirmedT_def case_prod_unfold
    by (intro safe_step know_confirmBodies(1) [OF _ n(2) same] outside) (use that in \<open>auto simp: subset_iff\<close>)
  ultimately show "safe (know h) anyhow (bindT (dep_submitT x c t) (\<lambda>(submitted, receipt).
     if rc_status receipt \<noteq> Success then dep_revertedT x u dto c v p isNew submitted receipt
     else dep_confirmedT x u dto c p isNew submitted receipt)) N"
    by (intro safe_bindT [OF submits_safe(1) [OF i c]]) (auto split: prod.split)
next
  show "safe (know h) anyhow (dep_failT p isNew t e) M" if "N \<subseteq> M" for e M
    unfolding dep_failT_def
    by (intro safe_step safe_rethrow know_own [where ty = DEPOSIT and n = n] know_positions) (use i that in \<open>auto simp: subset_iff\<close>)
qed

lemma wd_attempt_safe:
  assumes c: "sameWithdrawal c n" and i: "(tr_transactionId t, WITHDRAW, n) \<in> N"
  shows "safe (know h) anyhow (wd_attemptT x u dto c t) N"
  unfolding wd_attemptT_def
proof (rule safe_catchT)
  have n: "0 \<le> n" using c by (simp add: sameWithdrawal_def)
  have "safe (know h) anyhow (wd_revertedT x dto c sub rc) M" if "(tr_transactionId sub, WITHDRAW, n) \<in> M" for sub rc M
    unfolding wd_revertedT_def
    by (intro safe_step know_own [where ty = WITHDRAW and n = n] know_positions) (use that in \<open>auto simp: subset_iff\<close>)
  moreover have "safe (know h) anyhow (wd_confirmedT x u dto c sub rc) M" if "(tr_transactionId sub, WITHDRAW, n) \<in> M" for sub rc M
    unfolding wd_confirmedT_def case_prod_unfold
    by (intro safe_step know_confirmBodies(2) [OF _ n c] outside) (use that in \<open>auto simp: subset_iff\<close>)
  ultimately show "safe (know h) anyhow (bindT (wd_submitT x c t) (\<lambda>(submitted, receipt).
     if rc_status receipt \<noteq> Success then wd_revertedT x dto c submitted receipt
     else wd_confirmedT x u dto c submitted receipt)) N"
    by (intro safe_bindT [OF submits_safe(2) [OF i c]]) (auto split: prod.split)
next
  show "safe (know h) anyhow (wd_failT c t e) M" if "N \<subseteq> M" for e M
    unfolding wd_failT_def
    by (intro safe_step know_own [where ty = WITHDRAW and n = n] know_positions) (use i that in \<open>auto simp: subset_iff\<close>)
qed

lemma confirmSubmitted_safe:
  assumes "(i, ty, n) \<in> N"
  shows "safe (know h) anyhow (tx_confirmSubmittedT i b m) N"
  unfolding tx_confirmSubmittedT_def txRepo_findUniqueOrThrow_def txRepo_findById_def
  by (intro safe_step know_own [where ty = ty and n = n] outside) (use assms in \<open>auto simp: subset_iff\<close>)

lemma ap_settle_safe:
  assumes i: "(tr_transactionId sub, APPROVAL, n) \<in> N"
  shows "safe (know h) anyhow (ap_settleT x u dto c sub rc) N"
proof -
  have "safe (know h) anyhow (ap_finalRecordT c sub rc) N"
    unfolding ap_finalRecordT_def
    by (auto intro!: safe_bindT [OF confirmSubmitted_safe [OF i]] safe_last know_own split: prod.split) (use i in blast)
  then show ?thesis unfolding ap_settleT_def ap_readAllowance_def
    by (rule safe_bindT) (intro safe_step outside, simp)
qed

lemma safe_case_prod: "safe I R (f (fst r) (snd r)) N \<Longrightarrow> safe I R (case r of (a, b) \<Rightarrow> f a b) N"
  by (simp add: case_prod_unfold)

lemma depositVault_safe:
  assumes n: "bigIntOf (dd_amount dto) = Some n" "0 \<le> n"
  shows "safe (know h) anyhow (depositVaultT x u v dto) N"
  unfolding depositVaultT_def
proof (rule safe_step)
  show "preserves (know h M) (assertDepositAllowed x u)" for M by (intro outside)
next
  fix M s r s' assume "assertDepositAllowed x u s = (Inr r, s')"
  show "safe (know h) anyhow (bindT (dep_checksT x u v dto) (\<lambda>c. bindT (dep_openT u dto c)
     (\<lambda>(dbVault, position, transaction, isNewPosition). bindT (await (dep_requested x u dto c position transaction))
       (\<lambda>_. dep_attemptT x u dto c dbVault position transaction isNewPosition)))) M"
  proof (rule safe_bindT [OF dep_checks_safe [OF n(1)]])
    fix c :: deposit_context and M assume c: "dc_estimatedShares c = n"
    have "safe (know h) (\<lambda>r N. (tr_transactionId (fst (snd (snd r))), DEPOSIT, n) \<in> N) (dep_openT u dto c) M"
      unfolding dep_openT_def dep_assertNoDuplicateDepositT_def
    proof (rule safe_step [OF know_findOrCreate])
      fix dv M
      show "safe (know h) (\<lambda>r N. (tr_transactionId (fst (snd (snd r))), DEPOSIT, n) \<in> N)
         (bindT (bindT (await (pos_findByUserAndVault u (v_id dv))) (\<lambda>existingPosition.
            bindT (await (tx_hasOpenDeposit u (v_id dv))) (\<lambda>hasOpenDeposit.
            bindT (requireT (map_option pr_status existingPosition \<noteq> Some P_PENDING) (depositInProgress (pv_vaultId (dc_vault c))))
              (\<lambda>_. requireT (\<not> hasOpenDeposit) (depositInProgress (pv_vaultId (dc_vault c)))))))
           (\<lambda>_. bindT (await (atomically (dep_openBody u (v_id dv) dto c)))
             (\<lambda>(position, transaction, isNewPosition). finish (dv, position, transaction, isNewPosition)))) M"
        by (rule safe_bindT [where Q = anyhow], (intro safe_step safe_require outside; simp),
            rule safe_bindT [OF dep_openBody_safe [OF n c]]) (auto split: prod.split)
    qed
    then show "safe (know h) anyhow (bindT (dep_openT u dto c)
       (\<lambda>(dbVault, position, transaction, isNewPosition). bindT (await (dep_requested x u dto c position transaction))
         (\<lambda>_. dep_attemptT x u dto c dbVault position transaction isNewPosition))) M"
      by (rule safe_bindT) (auto simp: dep_requested_def split: prod.split
          intro!: safe_step dep_attempt_safe [OF n c] preserves_auditLog)
  qed
qed

lemma withdrawPosition_safe:
  assumes "validWithdraw dto"
  shows "safe (know h) anyhow (withdrawPositionT x u i dto) N"
  unfolding withdrawPositionT_def
proof (rule safe_step)
  show "preserves (know h M) (assertWithdrawAllowed x u)" for M by (intro outside)
next
  fix M s r s' assume "assertWithdrawAllowed x u s = (Inr r, s')"
  show "safe (know h) anyhow (bindT (wd_checksT x u i dto) (\<lambda>c. bindT (wd_openT u c)
     (\<lambda>t. bindT (await (wd_requested x u c t)) (\<lambda>_. wd_attemptT x u dto c t)))) M"
  proof (rule safe_bindT [OF wd_checks_safe [OF assms]], elim exE)
    fix c M n assume c: "sameWithdrawal c n"
    then have n: "bigIntOf (wc_withdrawAmount c) = Some n" "0 \<le> n" "wc_sharesToBurn c = n" by (simp_all add: sameWithdrawal_def)
    have "safe (know h) (\<lambda>t N. (tr_transactionId t, WITHDRAW, n) \<in> N) (wd_openT u c) M"
      unfolding wd_openT_def by (intro safe_step safe_require wd_openBody_safe [OF n] outside)
    then show "safe (know h) anyhow (bindT (wd_openT u c)
       (\<lambda>t. bindT (await (wd_requested x u c t)) (\<lambda>_. wd_attemptT x u dto c t))) M"
      by (rule safe_bindT) (auto simp: wd_requested_def intro!: safe_step wd_attempt_safe [OF c] preserves_auditLog)
  qed
qed

lemma approveVault_safe:
  assumes n: "bigIntOf (ad_amount dto) = Some n" "0 \<le> n"
  shows "safe (know h) anyhow (approveVaultT x u v dto) N"
  unfolding approveVaultT_def
proof (rule safe_bindT [OF ap_checks_safe])
  fix c M
  have "safe (know h) anyhow (ap_skipT x u dto c) M" unfolding ap_skipT_def
    by (rule safe_bindT [OF ap_create_safe [OF n]], intro safe_step know_own [where ty = APPROVAL and n = n] outside)
       (auto simp: subset_iff)
  moreover have "safe (know h) anyhow (ap_requestT x u dto c) M" unfolding ap_requestT_def
  proof (rule safe_bindT [OF ap_create_safe [OF n]], rule safe_step [OF preserves_auditLog], simp, rule safe_catchT)
    fix t :: transaction_record and M M' assume t: "(tr_transactionId t, APPROVAL, n) \<in> M" "M \<subseteq> M'"
    then show "safe (know h) anyhow (bindT (ap_submitT x c t) (\<lambda>(submitted, receipt). ap_settleT x u dto c submitted receipt)) M'"
      by (intro safe_bindT [OF submits_safe(3) [where n = n]]) (auto intro!: ap_settle_safe [where n = n] split: prod.split)
    show "safe (know h) anyhow (ap_failT c t e) M''" if "M' \<subseteq> M''" for e M''
      unfolding ap_failT_def
      by (intro safe_step know_own [where ty = APPROVAL and n = n]) (use t that in \<open>auto simp: subset_iff\<close>)
  qed
  ultimately show "safe (know h) anyhow (if \<not> ac_allowance c < ac_amount c then ap_skipT x u dto c else ap_requestT x u dto c) M"
    by simp
qed

section \<open>The routes\<close>

lemma intercept_safe:
  assumes handler: "\<And>N. safe (know h) anyhow handler N"
  shows "safe (know h) anyhow (interceptT x op st q handler) N"
proof -
  have find: "preserves I (idemRepo_findByKeyAndPath k p)" and expiry: "preserves I (idem_computeExpiryDate x)" for I k p
    unfolding idemRepo_findByKeyAndPath_def idem_computeExpiryDate_def by (intro pres)+
  have finished: "safe (know h) anyhow (Finished r) M" for r :: "(http_response option \<times> uuid) res" and M
    by (simp split: sum.split)
  have "safe (know h) anyhow (idem_acquireT x input) M" for input M
    unfolding idem_acquireT_def
    by (intro safe_step find) (auto intro!: finished safe_catchT safe_step expiry know_keys find split: option.split)
  moreover have "safe (know h) anyhow (idem_runHandlerT x st i handler) M" for i M
    unfolding idem_runHandlerT_def
    by (auto intro!: safe_catchT safe_bindT [OF handler] safe_step know_keys)
  ultimately show ?thesis unfolding interceptT_def
    by (auto intro!: safe_bindT [where Q = anyhow] split: sum.split option.split prod.split)
qed

lemma guarded_safe: "(\<And>u. safe (know h) anyhow (route u) N) \<Longrightarrow> safe (know h) anyhow (guardedT q route) N"
  by (auto simp: guardedT_def split: option.split)

lemma routes_safe:
  "safe (know h) anyhow (postDepositT x q) N" "safe (know h) anyhow (postApproveT x q) N" "safe (know h) anyhow (postWithdrawT x q) N"
proof -
  show "safe (know h) anyhow (postDepositT x q) N"
    unfolding postDepositT_def
    by (intro guarded_safe intercept_safe safe_result, drule parsed_amounts(1), drule positive_amount)
       (auto intro!: safe_bindT [OF depositVault_safe])
  show "safe (know h) anyhow (postApproveT x q) N"
    unfolding postApproveT_def
    by (intro guarded_safe intercept_safe safe_result, drule parsed_amounts(2), drule positive_amount)
       (auto intro!: safe_bindT [OF approveVault_safe])
  show "safe (know h) anyhow (postWithdrawT x q) N"
    unfolding postWithdrawT_def
    by (intro guarded_safe intercept_safe)
       (auto intro!: safe_bindT [OF withdrawPosition_safe] intro: parsed_withdraw split: sum.split option.split)
qed

section \<open>The worker\<close>

lemma stale_safe:
  "list_all (openRecord h) rs \<Longrightarrow> safe (know h) anyhow (rec_staleLoopT summary rs) N"
proof (induction rs arbitrary: summary N)
  case (Cons r rs)
  then have i: "tr_transactionId r \<notin> fst h" and rest: "list_all (openRecord h) rs" by (auto simp: openRecord_def [of h r])
  show ?case unfolding rec_staleLoopT.simps
  proof (rule safe_step [OF know_close(1) [OF i]])
    fix M
    show "safe (know h) anyhow (bindT (case tr_positionId r of None \<Rightarrow> finish () | Some positionId \<Rightarrow>
         if tr_type r = DEPOSIT
         then bindT (await (pos_findById positionId)) (\<lambda>found. case found of None \<Rightarrow> finish ()
                | Some p \<Rightarrow> awaitWhen (pr_status p = P_PENDING) (pos_markFailed (pr_positionId p)))
         else finish ())
       (\<lambda>_. rec_staleLoopT (summary\<lparr>rs_scanned := rs_scanned summary + 1, rs_failed := rs_failed summary + 1\<rparr>) rs)) M"
      by (rule safe_bindT [where Q = anyhow])
         (auto intro!: Cons.IH [OF rest] safe_step safe_awaitWhen know_positions pres split: option.split)
  qed
qed simp

lemma know_reconcile:
  assumes open_r: "openRecord h r" and good: "goodRecord r"
  shows "tr_type r = DEPOSIT \<Longrightarrow> preserves (know h N) (rec_confirmDepositTransaction r b g)"
    and "tr_type r = WITHDRAW \<Longrightarrow> preserves (know h N) (rec_confirmWithdrawTransaction r b g)"
    and "preserves (know h N) (rec_handleRevertedTransaction r b g)"
proof -
  have i: "tr_transactionId r \<notin> fst h" using open_r by (simp add: openRecord_def)
  show "preserves (know h N) (rec_confirmDepositTransaction r b g)" if "tr_type r = DEPOSIT"
    by (rule preserves_know [OF rec_confirm_dbInv(1) [OF good that]]; unfold rec_bodies Let_def;
        intro pres sound_parts i frame; assumption?)
  show "preserves (know h N) (rec_confirmWithdrawTransaction r b g)" if "tr_type r = WITHDRAW"
    by (rule preserves_know [OF rec_confirm_dbInv(2) [OF good that]]; unfold rec_bodies Let_def;
        intro pres sound_parts i frame; assumption?)
  show "preserves (know h N) (rec_handleRevertedTransaction r b g)"
    unfolding rec_bodies by (intro preserves_know pres frame sound_parts i; assumption?)
qed

lemma reconcileTransaction_safe:
  assumes r: "openRecord h r" "goodRecord r"
  shows "safe (know h) anyhow (rec_reconcileTransactionT x r) N"
proof -
  have i: "tr_transactionId r \<notin> fst h" using r(1) by (simp add: openRecord_def)
  have confirm: "safe (know h) anyhow (tx_confirmSubmittedT (tr_transactionId r) b m) M" for b m M
    unfolding tx_confirmSubmittedT_def txRepo_findUniqueOrThrow_def txRepo_findById_def
    by (intro safe_step know_updateSubmitted [OF i] outside) simp
  have audit: "preserves (know h M) (rec_logConfirmedAudit x r j hash)" for M j hash
    unfolding rec_logConfirmedAudit_def by (intro outside)
  have "safe (know h) anyhow (rec_handleConfirmedTransactionT x r b g) M" for b g M
    unfolding rec_handleConfirmedTransactionT_def
    by (auto intro!: safe_last know_reconcile [OF r] safe_bindT [OF confirm] audit split: prod.split)
  then show ?thesis unfolding rec_reconcileTransactionT_def
    by (auto intro!: safe_step outside know_reconcile(3) [OF r] safe_bindT [where Q = anyhow and f = "\<lambda>_. finish OutConfirmed"] split: option.split)
qed

lemma pending_safe:
  assumes "list_all (\<lambda>r. openRecord h r \<and> goodRecord r) rs"
  shows "safe (know h) anyhow (rec_pendingLoopT x summary rs) N"
  using assms
proof (induction rs arbitrary: summary N)
  case (Cons r rs)
  then have r: "openRecord h r" "goodRecord r" and rest: "list_all (\<lambda>r. openRecord h r \<and> goodRecord r) rs" by simp_all
  show ?case unfolding rec_pendingLoopT.simps Let_def
    by (rule safe_bindT [where Q = anyhow])
       (auto intro!: safe_catchT safe_bindT [OF reconcileTransaction_safe [OF r]] Cons.IH [OF rest])
qed simp

lemma processJob_safe:
  assumes closed: "\<forall>t \<in> set (snd h). \<not> isOpen (t_status t)"
  shows "safe (know h) anyhow (processJobT x name jobId) N"
proof -
  have run: "safe (know h) anyhow (rec_runReconciliationT x) M" for M
    unfolding rec_runReconciliationT_def
  proof (rule safe_step, rule preserves_gets, rule safe_step, rule pres_reads)
    fix olderThan M s stale s' assume k: "know h M s" and run: "tx_findStaleCreated olderThan 50 s = (Inr stale, s')"
    show "safe (know h) anyhow (bindT (rec_staleLoopT emptySummary stale) (\<lambda>summary.
        bindT (await (tx_findPendingReconciliation 100)) (rec_pendingLoopT x summary))) M"
    proof (rule safe_bindT [OF stale_safe [OF fetched_open(2) [OF know_sound(3) [OF k] closed run]]], rule safe_step, rule pres_reads)
      fix summary M s rs s' assume k: "know h M s" and run: "tx_findPendingReconciliation 100 s = (Inr rs, s')"
      show "safe (know h) anyhow (rec_pendingLoopT x summary rs) M"
        using fetched_open(1) [OF know_sound(3) [OF k] closed run] findPending_good [OF know_sound(2) [OF k] run]
        by (intro pending_safe) (simp add: list_all_iff)
    qed
  qed
  have "safe (know h) anyhow (reconcilePendingTransactionsT x j) N" for j
    unfolding reconcilePendingTransactionsT_def
    by (rule safe_step) (auto intro!: safe_finallyT run safe_step [where m = "lockIsMine x j"] safe_awaitWhen outside)
  then show ?thesis unfolding processJobT_def by (auto intro!: safe_bindT [where Q = anyhow])
qed

section \<open>The pool\<close>

text \<open>What a thread answers goes to its client; the pool keeps only that it has ended.\<close>

definition detach :: "(world, exn, 'a) thread \<Rightarrow> (world, exn, unit) thread" where
  "detach t = bindT t (\<lambda>_. finish ())"

inductive earnThread :: "env \<Rightarrow> (world, exn, unit) thread \<Rightarrow> bool" for x where
  deposit: "earnThread x (detach (postDepositT x q))"
| approve: "earnThread x (detach (postApproveT x q))"
| withdraw: "earnThread x (detach (postWithdrawT x q))"
| job: "earnThread x (detach (processJobT x name jobId))"

abbreviation interleaved :: "env \<Rightarrow> auth_lib \<Rightarrow> (world, exn, unit) thread list \<times> world \<Rightarrow> (world, exn, unit) thread list \<times> world \<Rightarrow> bool" where
  "interleaved x a \<equiv> (pstep (earnThread x) (serve x a))\<^sup>*\<^sup>*"

definition closedHistory :: "world \<Rightarrow> uuid set \<times> transaction list" where
  "closedHistory s = (t_id ` set (closedTransactions s), closedTransactions s)"

lemma know_serve:
  assumes "serve x a s s'" and "know h N s"
  shows "know h N s'"
proof (rule know_by_history [OF assms(2)])
  have inv: "tablesInv s" using assms(2) by (simp add: know_def recorded_def)
  show "history h' s'" if "history h' s" for h'
    using serve_history [OF assms(1), of h'] inv that by (simp add: recorded_def)
  show "tablesInv s'" by (rule serve_inv [OF assms(1) inv])
qed

interpretation earnPool: rely "know (closedHistory s)" "earnThread x" "serve x a" for s x a
proof unfold_locales
  have closed: "\<forall>t \<in> set (snd (closedHistory s)). \<not> isOpen (t_status t)"
    by (simp add: closedHistory_def closedTransactions_def)
  show "safe (know (closedHistory s)) anyhow t {}" if "earnThread x t" for t
    using that by cases (auto simp: detach_def intro!: safe_bindT [OF routes_safe(1)] safe_bindT [OF routes_safe(2)]
        safe_bindT [OF routes_safe(3)] safe_bindT [OF processJob_safe [OF closed]])
qed (rule know_serve)

text \<open>
  Whatever interleaving of requests and runs of the worker follows, the tables keep their invariants, and what was
  closed before stays as it was.
\<close>

lemma pool_keeps_tables:
  assumes inv: "tablesInv s" and run: "interleaved x a ([], s) (ts, s')"
  shows "tablesInv s' \<and> set (closedTransactions s) \<subseteq> set (closedTransactions s')"
proof -
  have "know (closedHistory s) {} s"
    using inv closed_history [OF inv] by (simp add: know_def recorded_def closedHistory_def)
  from earnPool.pool_keeps [OF run this] have rec: "recorded (closedHistory s) s'" by (auto dest: know_recorded)
  then have "filter (\<lambda>t. t_id t \<in> t_id ` set (closedTransactions s)) (transactions s') = closedTransactions s"
    by (simp add: recorded_def history_def closedHistory_def)
  then have "set (closedTransactions s) \<subseteq> set (transactions s')" by (metis filter_is_subset)
  then show ?thesis using rec by (auto simp: recorded_def closedTransactions_def)
qed

text \<open>A request that nothing interrupts has the pool's run too.\<close>

lemma pool_serves:
  assumes "earnThread x t"
  shows "interleaved x a ([], s) ([Finished (fst (runT t s))], snd (runT t s))"
proof -
  have "pstep (earnThread x) (serve x a) ([], s) ([] @ [t], s)" by (rule pstep.arrive) (rule assms)
  moreover have "interleaved x a ([t], s) ([t][0 := Finished (fst (runT t s))], snd (runT t s))"
    by (rule pool_alone) simp_all
  ultimately show ?thesis by (simp add: converse_rtranclp_into_rtranclp)
qed

text \<open>Two of them, where the second overtakes the first between two of its awaits.\<close>

lemma pool_overtakes:
  assumes "earnThread x t" and "earnThread x u"
    and "tstep\<^sup>*\<^sup>* (t, s) (t', s1)" and "runT u s1 = (r, s2)" and "runT t' s2 = (r', s3)"
  shows "interleaved x a ([], s) ([Finished r', Finished r], s3)"
proof -
  have "pstep (earnThread x) (serve x a) ([], s) ([] @ [t], s)" by (rule pstep.arrive) (rule assms(1))
  then have "interleaved x a ([], s) ([t], s)" by auto
  also have "pstep (earnThread x) (serve x a) ([t], s) ([t] @ [u], s)" by (rule pstep.arrive) (rule assms(2))
  also have "interleaved x a ([t] @ [u], s) ([t', u], s1)"
    using tsteps_pool [OF assms(3), of 0 "[t, u]" "earnThread x" "serve x a"] by simp
  also have "interleaved x a ([t', u], s1) ([t', Finished r], s2)"
    using pool_alone [of 1 "[t', u]" u s1 r s2 "earnThread x" "serve x a"] assms(4) by simp
  also have "interleaved x a ([t', Finished r], s2) ([Finished r', Finished r], s3)"
    using pool_alone [of 0 "[t', Finished r]" t' s2 r' s3 "earnThread x" "serve x a"] assms(5) by simp
  finally show ?thesis .
qed

end
