(* ===== verification/Races.thy ===== *)
theory Races
  imports Concurrent Demo
begin

text \<open>
  What the checks before the writes do not exclude, shown at concrete runs: two withdrawals of one position that are
  both sent and confirmed for the whole position, since each was checked before the other was opened and
  opened after the other was settled (\<open>withdrawals_race\<close>), and two requests for a primary wallet that both get
  one (\<open>primaries_race\<close>).  And what overlapping creations of wallets do not break: a pool of them stays within the
  states of \<open>reachable\<close> (\<open>creations_reach\<close>).
\<close>

section \<open>Two withdrawals of one position\<close>

definition demoExit :: withdraw_dto where
  "demoExit = \<lparr>wdd_walletId = 1, wdd_amount = None, wdd_fullWithdraw = Some True\<rparr>"

text \<open>A withdrawal up to its checks, and the rest of it.\<close>

definition wd_rest :: "env \<Rightarrow> uuid \<Rightarrow> withdraw_dto \<Rightarrow> withdraw_context \<Rightarrow> withdraw_response io" where
  "wd_rest x userId dto c =
     andThen (wd_open userId c) (\<lambda>transaction.
     andThen (wd_requested x userId c transaction) (\<lambda>_. wd_attempt x userId dto c transaction))"

lemma withdraw_checked:
  assumes "andThen (assertWithdrawAllowed x u) (\<lambda>_. wd_checks x u i dto) s = (Inr c, s')"
  obtains t where "tstep\<^sup>*\<^sup>* (withdrawPositionT x u i dto, s) (t, s')" and "runT t = wd_rest x u dto c"
proof -
  let ?rest = "\<lambda>c. bindT (wd_openT u c) (\<lambda>t. bindT (await (wd_requested x u c t)) (\<lambda>_. wd_attemptT x u dto c t))"
  from assms obtain r s1 where a: "assertWithdrawAllowed x u s = (Inr r, s1)" and b: "wd_checks x u i dto s1 = (Inr c, s')"
    by (elim andThen_InrE)
  have "tstep\<^sup>*\<^sup>* (withdrawPositionT x u i dto, s) (bindT (wd_checksT x u i dto) ?rest, s1)"
    unfolding withdrawPositionT_def by (rule tsteps_part) (simp add: a)
  also have "tstep\<^sup>*\<^sup>* (bindT (wd_checksT x u i dto) ?rest, s1) (?rest c, s')"
    by (rule tsteps_part) (simp add: run_withdraw b)
  finally have "tstep\<^sup>*\<^sup>* (withdrawPositionT x u i dto, s) (?rest c, s')" .
  moreover have "runT (?rest c) = wd_rest x u dto c"
    by (simp add: wd_rest_def run_withdraw wd_attemptT_def wd_attempt_def wd_settle_def branches case_prod_unfold cong: if_cong)
  ultimately show thesis by (rule that)
qed

text \<open>The first withdrawal stops after its checks, the second runs to its end, the first goes on.\<close>

lemma demo_race:
  "(case andThen (assertWithdrawAllowed (demoEnv Success) 0) (\<lambda>_. wd_checks (demoEnv Success) 0 3 demoExit) demoHeld of
      (Inl e, s) \<Rightarrow> None
    | (Inr c, s) \<Rightarrow> (case withdrawPosition (demoEnv Success) 0 3 demoExit s of (r, s1) \<Rightarrow>
        (case wd_rest (demoEnv Success) 0 demoExit c s1 of (r', s2) \<Rightarrow>
           Some (isl r, isl r', map (\<lambda>p. (p_status p, p_shares p)) (positions s2),
             map (\<lambda>t. (t_type t, t_status t, t_amount t)) (transactions s2), length (sent s2)))))
   = Some (False, False, [(P_CLOSED, 0)], [(DEPOSIT, T_CONFIRMED, 25), (WITHDRAW, T_CONFIRMED, 25), (WITHDRAW, T_CONFIRMED, 25)], 2)"
  by (simp add: demo_withdraw_run wd_rest_def demoExit_def cong: lazy)

text \<open>
  The same in a pool: whatever else may arrive or move, both withdrawals can answer, be confirmed for the whole
  position, and have sent their requests.
\<close>

theorem withdrawals_race:
  fixes arrives moves
  defines "W \<equiv> withdrawPositionT (demoEnv Success) 0 3 demoExit"
  shows "\<exists>r r' s. (pstep arrives moves)\<^sup>*\<^sup>* ([W, W], demoHeld) ([Finished (Inr r'), Finished (Inr r)], s)
     \<and> map (\<lambda>t. (t_type t, t_status t, t_amount t)) (transactions s)
         = [(DEPOSIT, T_CONFIRMED, 25), (WITHDRAW, T_CONFIRMED, 25), (WITHDRAW, T_CONFIRMED, 25)]
     \<and> map (\<lambda>p. (p_status p, p_shares p)) (positions s) = [(P_CLOSED, 0)] \<and> length (sent s) = 2"
proof -
  let ?m = "andThen (assertWithdrawAllowed (demoEnv Success) 0) (\<lambda>_. wd_checks (demoEnv Success) 0 3 demoExit)"
  obtain q s0 where c: "?m demoHeld = (q, s0)" by force
  with demo_race obtain d where q: "q = Inr d" by (cases q) simp_all
  obtain p s1 where w: "withdrawPosition (demoEnv Success) 0 3 demoExit s0 = (p, s1)" by force
  obtain p' s2 where g: "wd_rest (demoEnv Success) 0 demoExit d s1 = (p', s2)" by force
  from demo_race c q w g have shown:
    "\<not> isl p" "\<not> isl p'" "map (\<lambda>p. (p_status p, p_shares p)) (positions s2) = [(P_CLOSED, 0)]"
    "map (\<lambda>t. (t_type t, t_status t, t_amount t)) (transactions s2)
       = [(DEPOSIT, T_CONFIRMED, 25), (WITHDRAW, T_CONFIRMED, 25), (WITHDRAW, T_CONFIRMED, 25)]"
    "length (sent s2) = 2" by auto
  obtain r r' where r: "p = Inr r" "p' = Inr r'" using shown(1,2) by (cases p; cases p') auto
  from withdraw_checked [OF c [unfolded q]] obtain t where
    t: "tstep\<^sup>*\<^sup>* (W, demoHeld) (t, s0)" and rest: "runT t = wd_rest (demoEnv Success) 0 demoExit d"
    unfolding W_def by blast
  have "(pstep arrives moves)\<^sup>*\<^sup>* ([W, W], demoHeld) ([t, W], s0)"
    using tsteps_pool [OF t, of 0 "[W, W]" arrives moves] by simp
  also have "(pstep arrives moves)\<^sup>*\<^sup>* ([t, W], s0) ([t, Finished p], s1)"
    using pool_alone [of 1 "[t, W]" W s0 p s1 arrives moves] w by (simp add: W_def run_withdrawPosition)
  also have "(pstep arrives moves)\<^sup>*\<^sup>* ([t, Finished p], s1) ([Finished p', Finished p], s2)"
    using pool_alone [of 0 "[t, Finished p]" t s1 p' s2 arrives moves] g by (simp add: rest)
  finally show ?thesis using shown r by (intro exI [of _ r] exI [of _ r'] exI [of _ s2]) simp
qed

section \<open>Two primary wallets\<close>

text \<open>Each wallet that Privy makes has an address of its own; the user has a Privy account already.\<close>

definition raceEnv :: env where
  "raceEnv = (demoEnv Success)\<lparr>e_privyCreateWallet := (\<lambda>n _. Inr \<lparr>pw_id = replicate n CHR ''w'', pw_address = replicate n CHR ''a'',
     pw_ownerId = Some ''q'', pw_additionalSigners = []\<rparr>)\<rparr>"

definition raceUser :: user where
  "raceUser = \<lparr>u_id = 0, u_privyUserId = Some ''u'', u_email = None, u_passwordHash = None, u_createdAt = 0, u_updatedAt = 0\<rparr>"

definition raceWorld :: world where
  "raceWorld = emptyWorld\<lparr>users := [raceUser], nextId := 1\<rparr>"

definition racePrimary :: create_wallet_dto where
  "racePrimary = \<lparr>cw_isPrimary = Some True, cw_chainId = None\<rparr>"

text \<open>What is left of a request once the primary wallet is cleared.\<close>

definition cw_rest :: "env \<Rightarrow> uuid \<Rightarrow> int \<Rightarrow> wallet_response io" where
  "cw_rest x userId chainId =
     andThen (privy_ensurePrivyUserId x userId) (\<lambda>privyUserId.
     andThen (privy_createWallet x userId chainId (Some privyUserId)) (\<lambda>providerWallet.
     andThen (insertWallet userId providerWallet True) (\<lambda>wallet.
     andThen (auditLog x \<lparr>al_userId = Some userId, al_action = WALLET_CREATED, al_entityType = ''wallet'',
                al_entityId = w_id wallet,
                al_metadata = Some [(''address'', JStr (w_address wallet)), (''chainId'', JNum (w_chainId wallet)),
                  (''providerType'', JStr ''PRIVY'')]\<rparr>) (\<lambda>_.
       ret (toPublicWallet wallet)))))"

lemma primary_cleared:
  obtains t where "tstep\<^sup>*\<^sup>* (createWalletT raceEnv u racePrimary, s) (t, snd (clearPrimaryWallet u s))"
    and "runT t = cw_rest raceEnv u 84532"
proof -
  let ?t = "bindT (await (privy_ensurePrivyUserId raceEnv u)) (\<lambda>privyUserId.
     bindT (await (privy_createWallet raceEnv u 84532 (Some privyUserId))) (\<lambda>providerWallet.
     bindT (await (insertWallet u providerWallet True)) (\<lambda>wallet.
     bindT (await (auditLog raceEnv \<lparr>al_userId = Some u, al_action = WALLET_CREATED, al_entityType = ''wallet'',
                al_entityId = w_id wallet,
                al_metadata = Some [(''address'', JStr (w_address wallet)), (''chainId'', JNum (w_chainId wallet)),
                  (''providerType'', JStr ''PRIVY'')]\<rparr>)) (\<lambda>_.
       finish (toPublicWallet wallet)))))"
  have "createWalletT raceEnv u racePrimary = bindT (awaitWhen True (clearPrimaryWallet u)) (\<lambda>_. ?t)"
    by (simp add: createWalletT_def racePrimary_def raceEnv_def bc_getBlockchainConfig_def demoEnv_def demoConfig_def orElse_def
        finish_def del: bindT.simps(2))
  moreover have "runT (awaitWhen True (clearPrimaryWallet u)) s = (Inr (), snd (clearPrimaryWallet u s))"
    by (simp add: clearPrimaryWallet_def andThen_def whenE_def)
  ultimately have "tstep\<^sup>*\<^sup>* (createWalletT raceEnv u racePrimary, s) (?t, snd (clearPrimaryWallet u s))"
    using tsteps_part [of "awaitWhen True (clearPrimaryWallet u)" s "()" _ "\<lambda>_. ?t"] by simp
  moreover have "runT ?t = cw_rest raceEnv u 84532" by (simp add: cw_rest_def)
  ultimately show thesis by (rule that)
qed

lemma demo_primaries:
  "(case cw_rest raceEnv 0 84532 raceWorld of (r, s) \<Rightarrow> (case cw_rest raceEnv 0 84532 s of (r', s') \<Rightarrow>
      (isl r, isl r', map (\<lambda>w. (w_userId w, w_isPrimary w)) (wallets s')))) = (False, False, [(0, True), (0, True)])"
  by (simp add: cw_rest_def raceWorld_def raceUser_def raceEnv_def demoEnv_def demoConfig_def emptyWorld_def insertWallet_def
      toPublicWallet_def run_defs cong: lazy)

theorem primaries_race:
  fixes arrives moves
  defines "W \<equiv> createWalletT raceEnv 0 racePrimary"
  shows "\<exists>r r' s. (pstep arrives moves)\<^sup>*\<^sup>* ([W, W], raceWorld) ([Finished (Inr r), Finished (Inr r')], s)
     \<and> map (\<lambda>w. (w_userId w, w_isPrimary w)) (wallets s) = [(0, True), (0, True)]"
proof -
  obtain t where t: "tstep\<^sup>*\<^sup>* (W, raceWorld) (t, raceWorld)" and rest: "runT t = cw_rest raceEnv 0 84532"
    using primary_cleared [of 0 raceWorld] by (auto simp: W_def clearPrimaryWallet_def raceWorld_def emptyWorld_def)
  obtain p s1 where a: "cw_rest raceEnv 0 84532 raceWorld = (p, s1)" by force
  obtain p' s2 where b: "cw_rest raceEnv 0 84532 s1 = (p', s2)" by force
  from demo_primaries a b have shown: "\<not> isl p" "\<not> isl p'" "map (\<lambda>w. (w_userId w, w_isPrimary w)) (wallets s2) = [(0, True), (0, True)]"
    by auto
  obtain r r' where r: "p = Inr r" "p' = Inr r'" using shown(1,2) by (cases p; cases p') auto
  have "(pstep arrives moves)\<^sup>*\<^sup>* ([W, W], raceWorld) ([t, W], raceWorld)"
    using tsteps_pool [OF t, of 0 "[W, W]" arrives moves] by simp
  also have "(pstep arrives moves)\<^sup>*\<^sup>* ([t, W], raceWorld) ([t, t], raceWorld)"
    using tsteps_pool [OF t, of 1 "[t, W]" arrives moves] by simp
  also have "(pstep arrives moves)\<^sup>*\<^sup>* ([t, t], raceWorld) ([Finished p, t], s1)"
    using pool_alone [of 0 "[t, t]" t raceWorld p s1 arrives moves] a by (simp add: rest)
  also have "(pstep arrives moves)\<^sup>*\<^sup>* ([Finished p, t], s1) ([Finished p, Finished p'], s2)"
    using pool_alone [of 1 "[Finished p, t]" t s1 p' s2 arrives moves] b by (simp add: rest)
  finally show ?thesis using shown r by (intro exI [of _ r] exI [of _ r'] exI [of _ s2]) simp
qed

text \<open>
  No more than this goes wrong: however creations of wallets, each cut at its awaits, are interleaved with each
  other and with other requests and runs of the worker, the states are the ones \<open>reachable\<close> has for
  overlapping creations, where the keys of all tables are still unique.
\<close>

inductive walletThread :: "env \<Rightarrow> (world, exn, unit) thread \<Rightarrow> bool" for x where
  created: "walletThread x (detach (createWalletT x u dto))"

lemma creates_reach:
  "preserves (reachable x a True) (countUserWallets u)" "preserves (reachable x a True) (clearPrimaryWallet u)"
  "preserves (reachable x a True) (privy_ensurePrivyUserId x u)" "preserves (reachable x a True) (privy_createWallet x u c p)"
  "preserves (reachable x a True) (insertWallet u pw one)" "preserves (reachable x a True) (auditLog x entry)"
  by (auto intro!: preservesI intro: reachable.create create.intros)

lemma creation_safe: "safe (\<lambda>_. reachable x a True) anyhow (detach (createWalletT x u dto)) N"
proof -
  have primary: "safe (\<lambda>_. reachable x a True) anyhow (case cw_isPrimary dto of
      Some b \<Rightarrow> finish b | None \<Rightarrow> bindT (await (countUserWallets u)) (\<lambda>n. finish (n = 0))) N" for N
    by (auto split: option.split intro!: safe_step creates_reach)
  show ?thesis
    unfolding detach_def createWalletT_def
    by (intro safe_bindT [where Q = anyhow] safe_result safe_bindT [OF primary] safe_bindT [OF safe_awaitWhen]
        safe_step creates_reach) simp_all
qed

interpretation creations: rely "\<lambda>_ :: unit set. reachable x a True" "walletThread x" "\<lambda>s t. serve x a s t \<or> die x s t \<or> work x s t" for x a
  by unfold_locales (auto elim!: walletThread.cases intro: creation_safe reachable.serve reachable.die reachable.work)

theorem creations_reach:
  assumes "reachable x a True s"
    and "(pstep (walletThread x) (\<lambda>s t. serve x a s t \<or> die x s t \<or> work x s t))\<^sup>*\<^sup>* ([], s) (ts, s')"
  shows "reachable x a True s'"
  using creations.pool_keeps [OF assms(2,1)] by simp

end
