(* ===== verification/Abis.thy ===== *)
theory Abis
  imports Blockchain
begin

text \<open>
  The ABI fragments of \<^verbatim>\<open>src/blockchain/abis\<close>, and what the encoders put into them.  \<open>Schema\<close> names the calls that are
  encoded (\<open>abi_call\<close>) and leaves the encoding to viem; here each call is its function and arguments, and it
  conforms to the declared types when its addresses are addresses and its amount fits a \<open>uint256\<close>.
\<close>

section \<open>Fragments\<close>

datatype abi_type = AddressT | UintT nat | BoolT | StringT | TupleT "(string \<times> abi_type) list"

datatype mutability = Nonpayable | View

record abi_function =
  af_name :: string
  af_stateMutability :: mutability
  af_inputs :: "(string \<times> abi_type) list"
  af_outputs :: "(string \<times> abi_type) list"

definition aavePoolAbi :: "abi_function list" where
  "aavePoolAbi =
    [\<lparr>af_name = ''supply'', af_stateMutability = Nonpayable,
      af_inputs = [(''asset'', AddressT), (''amount'', UintT 256), (''onBehalfOf'', AddressT), (''referralCode'', UintT 16)],
      af_outputs = []\<rparr>,
     \<lparr>af_name = ''withdraw'', af_stateMutability = Nonpayable,
      af_inputs = [(''asset'', AddressT), (''amount'', UintT 256), (''to'', AddressT)],
      af_outputs = [('''', UintT 256)]\<rparr>,
     \<lparr>af_name = ''getReserveData'', af_stateMutability = View,
      af_inputs = [(''asset'', AddressT)],
      af_outputs = [('''', TupleT
        [(''configuration'', UintT 256), (''liquidityIndex'', UintT 128), (''currentLiquidityRate'', UintT 128),
         (''variableBorrowIndex'', UintT 128), (''currentVariableBorrowRate'', UintT 128),
         (''currentStableBorrowRate'', UintT 128), (''lastUpdateTimestamp'', UintT 40), (''id'', UintT 16),
         (''aTokenAddress'', AddressT), (''stableDebtTokenAddress'', AddressT), (''variableDebtTokenAddress'', AddressT),
         (''interestRateStrategyAddress'', AddressT), (''accruedToTreasury'', UintT 128), (''unbacked'', UintT 128),
         (''isolationModeTotalDebt'', UintT 128)])]\<rparr>]"

definition erc20Abi :: "abi_function list" where
  "erc20Abi =
    [\<lparr>af_name = ''balanceOf'', af_stateMutability = View, af_inputs = [(''account'', AddressT)],
      af_outputs = [('''', UintT 256)]\<rparr>,
     \<lparr>af_name = ''allowance'', af_stateMutability = View, af_inputs = [(''owner'', AddressT), (''spender'', AddressT)],
      af_outputs = [('''', UintT 256)]\<rparr>,
     \<lparr>af_name = ''approve'', af_stateMutability = Nonpayable, af_inputs = [(''spender'', AddressT), (''amount'', UintT 256)],
      af_outputs = [('''', BoolT)]\<rparr>]"

text \<open>The faucet's, which \<open>mintAaveTestUsdc\<close> parses from its signature.\<close>

definition faucetAbi :: "abi_function list" where
  "faucetAbi =
    [\<lparr>af_name = ''mint'', af_stateMutability = Nonpayable,
      af_inputs = [(''token'', AddressT), (''to'', AddressT), (''amount'', UintT 256)], af_outputs = [('''', UintT 256)]\<rparr>]"

section \<open>Calls\<close>

datatype abi_value = AddressV string | IntV int

text \<open>The fragment, the function and the arguments that are handed to \<open>encodeFunctionData\<close>.\<close>

fun encoded :: "abi_call \<Rightarrow> abi_function list \<times> string \<times> abi_value list" where
  "encoded (Supply asset amount receiver referral) =
     (aavePoolAbi, ''supply'', [AddressV asset, IntV amount, AddressV receiver, IntV (int referral)])"
| "encoded (WithdrawCall asset amount receiver) = (aavePoolAbi, ''withdraw'', [AddressV asset, IntV amount, AddressV receiver])"
| "encoded (Approve spender amount) = (erc20Abi, ''approve'', [AddressV spender, IntV amount])"
| "encoded (Mint token receiver amount) = (faucetAbi, ''mint'', [AddressV token, AddressV receiver, IntV amount])"

fun fits :: "(string \<Rightarrow> bool) \<Rightarrow> abi_type \<Rightarrow> abi_value \<Rightarrow> bool" where
  "fits isAddress AddressT (AddressV a) \<longleftrightarrow> isAddress a"
| "fits isAddress (UintT n) (IntV i) \<longleftrightarrow> 0 \<le> i \<and> i < 2 ^ n"
| "fits isAddress _ _ \<longleftrightarrow> False"

definition conforms :: "(string \<Rightarrow> bool) \<Rightarrow> abi_call \<Rightarrow> bool" where
  "conforms isAddress c =
     (case encoded c of (abi, name, args) \<Rightarrow>
        (case find (\<lambda>f. af_name f = name) abi of
           None \<Rightarrow> False
         | Some f \<Rightarrow> af_stateMutability f = Nonpayable \<and> list_all2 (fits isAddress) (map snd (af_inputs f)) args))"

lemma conforms_calls:
  "conforms isAddress (Supply a n r k) \<longleftrightarrow> isAddress a \<and> 0 \<le> n \<and> n < 2 ^ 256 \<and> isAddress r \<and> k < 65536"
  "conforms isAddress (WithdrawCall a n r) \<longleftrightarrow> isAddress a \<and> 0 \<le> n \<and> n < 2 ^ 256 \<and> isAddress r"
  "conforms isAddress (Approve a n) \<longleftrightarrow> isAddress a \<and> 0 \<le> n \<and> n < 2 ^ 256"
  "conforms isAddress (Mint a r n) \<longleftrightarrow> isAddress a \<and> isAddress r \<and> 0 \<le> n \<and> n < 2 ^ 256"
  by (auto simp: conforms_def aavePoolAbi_def erc20Abi_def faucetAbi_def)

text \<open>
  So an encoder that refuses only what does not conform does not refuse what the services ask it for: a deposit or an approval of an
  amount on chain, a partial withdrawal of it, and a full withdrawal, which asks for the largest number.
\<close>

lemma encoders_accept:
  assumes "\<And>c. conforms isAddress c \<Longrightarrow> \<exists>d. e_encode x c = Inr d"
    and "isAddress (pv_assetAddress v)" and "isAddress r" and "0 \<le> n" and "n < 2 ^ 256"
  shows "\<exists>d. bc_encodeVaultDeposit x v n r = Inr d" and "\<exists>d. bc_encodeVaultWithdraw x v n r full = Inr d"
    and "\<exists>d. bc_encodeErc20Approve x r n = Inr d"
  using assms by (simp_all add: bc_encodeVaultDeposit_def bc_encodeVaultWithdraw_def bc_encodeErc20Approve_def
      conforms_calls maxUint256_def)

end
