(* ===== verification/Wiring.thy ===== *)
theory Wiring
  imports Startup
begin

text \<open>
  How the back end is put together: the modules of the framework, with the constructor of each class that they
  provide.  A module sees its own providers, what the modules it imports export (or re-export), and what the global modules
  export; the framework constructs each provider once, after what its constructor asks for.  What the modules of
  libraries export is a parameter.

  Shown: everything a constructor asks for is in sight of the module that provides the class (\<open>all_in_scope\<close>), no class waits for itself
  (\<open>no_cycle\<close>), every token has one provider, so that there is one instance of each service
  (\<open>one_provider\<close>), and a module exports only what it has (\<open>exports_own\<close>).  So the application can be constructed, whatever the order
  in which the modules are listed.
\<close>

section \<open>Modules and providers\<close>

text \<open>A provider by its token (the class, or the symbol of a factory) with the tokens that its constructor or factory is given.\<close>

record provider =
  pr_token :: string
  pr_inject :: "string list"

record nest_module =
  nm_name :: string
  nm_global :: bool
  nm_imports :: "string list"
  nm_controllers :: "provider list"
  nm_providers :: "provider list"
  nm_exports :: "string list"

text \<open>The options of the token library that \<open>AuthModule\<close> makes from the configuration: the secret and the life time.\<close>

definition jwtModuleOptions :: "jwt_config option \<Rightarrow> (string \<times> string) res" where
  "jwtModuleOptions c =
     (case c of
        Some j \<Rightarrow> if jw_secret j = [] then Inl (PlainError ''JWT configuration failed to load'')
                  else Inr (jw_secret j, jw_expiresIn j)
      | None \<Rightarrow> Inl (PlainError ''JWT configuration failed to load''))"

section \<open>The modules of the application\<close>

text \<open>\<^verbatim>\<open>prisma/prisma.module.ts\<close>\<close>

definition PrismaService :: provider where
  "PrismaService = \<lparr>pr_token = ''PrismaService'', pr_inject = [''ConfigService'']\<rparr>"

definition PrismaModule :: nest_module where
  "PrismaModule =
     \<lparr>nm_name = ''PrismaModule'', nm_global = True,
      nm_imports = [],
      nm_controllers = [],
      nm_providers = [PrismaService],
      nm_exports = [''PrismaService'']\<rparr>"

text \<open>\<^verbatim>\<open>audit/audit.module.ts\<close>\<close>

definition AuditService :: provider where
  "AuditService = \<lparr>pr_token = ''AuditService'', pr_inject = [''PrismaService'']\<rparr>"

definition AuditModule :: nest_module where
  "AuditModule =
     \<lparr>nm_name = ''AuditModule'', nm_global = True,
      nm_imports = [],
      nm_controllers = [],
      nm_providers = [AuditService],
      nm_exports = [''AuditService'']\<rparr>"

text \<open>\<^verbatim>\<open>idempotency/idempotency.module.ts\<close>\<close>

definition IdempotencyRepository :: provider where
  "IdempotencyRepository = \<lparr>pr_token = ''IdempotencyRepository'', pr_inject = [''PrismaService'']\<rparr>"

definition IdempotencyService :: provider where
  "IdempotencyService = \<lparr>pr_token = ''IdempotencyService'', pr_inject = [''IdempotencyRepository'', ''ConfigService'']\<rparr>"

definition IdempotencyInterceptor :: provider where
  "IdempotencyInterceptor = \<lparr>pr_token = ''IdempotencyInterceptor'', pr_inject = [''Reflector'', ''IdempotencyService'', ''ConfigService'']\<rparr>"

definition appInterceptor :: provider where
  "appInterceptor = \<lparr>pr_token = ''APP_INTERCEPTOR'', pr_inject = pr_inject IdempotencyInterceptor\<rparr>"

definition IdempotencyModule :: nest_module where
  "IdempotencyModule =
     \<lparr>nm_name = ''IdempotencyModule'', nm_global = True,
      nm_imports = [],
      nm_controllers = [],
      nm_providers = [IdempotencyRepository, IdempotencyService, IdempotencyInterceptor, appInterceptor],
      nm_exports = [''IdempotencyService'', ''IdempotencyRepository'']\<rparr>"

text \<open>\<^verbatim>\<open>redis/redis.module.ts\<close>\<close>

definition RedisService :: provider where
  "RedisService = \<lparr>pr_token = ''RedisService'', pr_inject = [''ConfigService'']\<rparr>"

definition BullmqRedisService :: provider where
  "BullmqRedisService = \<lparr>pr_token = ''BullmqRedisService'', pr_inject = [''ConfigService'']\<rparr>"

definition RedisModule :: nest_module where
  "RedisModule =
     \<lparr>nm_name = ''RedisModule'', nm_global = True,
      nm_imports = [],
      nm_controllers = [],
      nm_providers = [RedisService, BullmqRedisService],
      nm_exports = [''RedisService'', ''BullmqRedisService'']\<rparr>"

text \<open>\<^verbatim>\<open>auth/auth.module.ts\<close>\<close>

definition AuthService :: provider where
  "AuthService = \<lparr>pr_token = ''AuthService'', pr_inject = [''PrismaService'', ''JwtService'', ''AuditService'']\<rparr>"

definition PrivyService :: provider where
  "PrivyService = \<lparr>pr_token = ''PrivyService'', pr_inject = [''ConfigService'']\<rparr>"

definition PrivyAuthGuard :: provider where
  "PrivyAuthGuard = \<lparr>pr_token = ''PrivyAuthGuard'', pr_inject = [''PrivyService'']\<rparr>"

definition JwtAuthGuard :: provider where
  "JwtAuthGuard = \<lparr>pr_token = ''JwtAuthGuard'', pr_inject = []\<rparr>"

definition JwtStrategy :: provider where
  "JwtStrategy = \<lparr>pr_token = ''JwtStrategy'', pr_inject = [''ConfigService'']\<rparr>"

definition AuthController :: provider where
  "AuthController = \<lparr>pr_token = ''AuthController'', pr_inject = [''AuthService'']\<rparr>"

definition AuthModule :: nest_module where
  "AuthModule =
     \<lparr>nm_name = ''AuthModule'', nm_global = True,
      nm_imports = [''PassportModule'', ''JwtModule''],
      nm_controllers = [AuthController],
      nm_providers = [AuthService, PrivyService, PrivyAuthGuard, JwtAuthGuard, JwtStrategy],
      nm_exports = [''AuthService'', ''PrivyService'', ''PrivyAuthGuard'', ''JwtAuthGuard'', ''JwtModule'']\<rparr>"

text \<open>\<^verbatim>\<open>health/health.module.ts\<close>\<close>

definition HealthService :: provider where
  "HealthService = \<lparr>pr_token = ''HealthService'', pr_inject = [''PrismaService'', ''RedisService'', ''EarnBlockchainService'', ''PrivyService'', ''ConfigService'']\<rparr>"

definition HealthController :: provider where
  "HealthController = \<lparr>pr_token = ''HealthController'', pr_inject = [''HealthService'']\<rparr>"

definition HealthModule :: nest_module where
  "HealthModule =
     \<lparr>nm_name = ''HealthModule'', nm_global = False,
      nm_imports = [''PrismaModule'', ''RedisModule'', ''AuthModule'', ''EarnModule''],
      nm_controllers = [HealthController],
      nm_providers = [HealthService],
      nm_exports = []\<rparr>"

text \<open>\<^verbatim>\<open>system/system.module.ts\<close>\<close>

definition SystemService :: provider where
  "SystemService = \<lparr>pr_token = ''SystemService'', pr_inject = [''ConfigService'']\<rparr>"

definition SystemController :: provider where
  "SystemController = \<lparr>pr_token = ''SystemController'', pr_inject = [''SystemService'']\<rparr>"

definition SystemModule :: nest_module where
  "SystemModule =
     \<lparr>nm_name = ''SystemModule'', nm_global = False,
      nm_imports = [],
      nm_controllers = [SystemController],
      nm_providers = [SystemService],
      nm_exports = []\<rparr>"

text \<open>\<^verbatim>\<open>users/users.module.ts\<close>\<close>

definition UsersService :: provider where
  "UsersService = \<lparr>pr_token = ''UsersService'', pr_inject = [''AuthService'']\<rparr>"

definition UsersController :: provider where
  "UsersController = \<lparr>pr_token = ''UsersController'', pr_inject = [''UsersService'']\<rparr>"

definition UsersModule :: nest_module where
  "UsersModule =
     \<lparr>nm_name = ''UsersModule'', nm_global = False,
      nm_imports = [''AuthModule''],
      nm_controllers = [UsersController],
      nm_providers = [UsersService],
      nm_exports = []\<rparr>"

text \<open>\<^verbatim>\<open>wallets/wallets.module.ts\<close>\<close>

definition WalletsService :: provider where
  "WalletsService = \<lparr>pr_token = ''WalletsService'', pr_inject = [''PrismaService'', ''ConfigService'', ''WALLET_PROVIDER'', ''AuditService'']\<rparr>"

definition PrivyWalletService :: provider where
  "PrivyWalletService = \<lparr>pr_token = ''PrivyWalletService'', pr_inject = [''PrivyService'', ''PrismaService'']\<rparr>"

definition WalletProviderFactory :: provider where
  "WalletProviderFactory = \<lparr>pr_token = ''WalletProviderFactory'', pr_inject = [''ConfigService'', ''PrivyWalletService'']\<rparr>"

definition walletProviderFactory :: provider where
  "walletProviderFactory = \<lparr>pr_token = ''WALLET_PROVIDER'', pr_inject = [''WalletProviderFactory'']\<rparr>"

definition WalletsController :: provider where
  "WalletsController = \<lparr>pr_token = ''WalletsController'', pr_inject = [''WalletsService'']\<rparr>"

definition WalletsModule :: nest_module where
  "WalletsModule =
     \<lparr>nm_name = ''WalletsModule'', nm_global = False,
      nm_imports = [''AuthModule'', ''PrismaModule''],
      nm_controllers = [WalletsController],
      nm_providers = [WalletsService, PrivyWalletService, WalletProviderFactory, walletProviderFactory],
      nm_exports = [''WalletsService'', ''WALLET_PROVIDER'', ''PrivyWalletService'']\<rparr>"

text \<open>\<^verbatim>\<open>chains/chains.module.ts\<close>\<close>

definition ChainsService :: provider where
  "ChainsService = \<lparr>pr_token = ''ChainsService'', pr_inject = [''ConfigService'']\<rparr>"

definition ChainsController :: provider where
  "ChainsController = \<lparr>pr_token = ''ChainsController'', pr_inject = [''ChainsService'']\<rparr>"

definition ChainsModule :: nest_module where
  "ChainsModule =
     \<lparr>nm_name = ''ChainsModule'', nm_global = False,
      nm_imports = [],
      nm_controllers = [ChainsController],
      nm_providers = [ChainsService],
      nm_exports = [''ChainsService'']\<rparr>"

text \<open>\<^verbatim>\<open>assets/assets.module.ts\<close>\<close>

definition AssetsService :: provider where
  "AssetsService = \<lparr>pr_token = ''AssetsService'', pr_inject = [''ConfigService'']\<rparr>"

definition AssetsController :: provider where
  "AssetsController = \<lparr>pr_token = ''AssetsController'', pr_inject = [''AssetsService'']\<rparr>"

definition AssetsModule :: nest_module where
  "AssetsModule =
     \<lparr>nm_name = ''AssetsModule'', nm_global = False,
      nm_imports = [],
      nm_controllers = [AssetsController],
      nm_providers = [AssetsService],
      nm_exports = [''AssetsService'']\<rparr>"

text \<open>\<^verbatim>\<open>protocols/protocols.module.ts\<close>\<close>

definition AaveViemService :: provider where
  "AaveViemService = \<lparr>pr_token = ''AaveViemService'', pr_inject = [''ConfigService'']\<rparr>"

definition AaveProvider :: provider where
  "AaveProvider = \<lparr>pr_token = ''AaveProvider'', pr_inject = [''ConfigService'', ''AaveViemService'']\<rparr>"

definition EarnProtocolProviderFactory :: provider where
  "EarnProtocolProviderFactory = \<lparr>pr_token = ''EarnProtocolProviderFactory'', pr_inject = [''ConfigService'', ''AaveProvider'']\<rparr>"

definition earnProtocolProviderFactory :: provider where
  "earnProtocolProviderFactory = \<lparr>pr_token = ''EARN_PROTOCOL_PROVIDER'', pr_inject = [''EarnProtocolProviderFactory'']\<rparr>"

definition ProtocolsModule :: nest_module where
  "ProtocolsModule =
     \<lparr>nm_name = ''ProtocolsModule'', nm_global = False,
      nm_imports = [],
      nm_controllers = [],
      nm_providers = [AaveViemService, AaveProvider, EarnProtocolProviderFactory, earnProtocolProviderFactory],
      nm_exports = [''EARN_PROTOCOL_PROVIDER'', ''AaveProvider'']\<rparr>"

text \<open>\<^verbatim>\<open>earn/persistence/positions/positions.module.ts\<close>\<close>

definition PositionsRepository :: provider where
  "PositionsRepository = \<lparr>pr_token = ''PositionsRepository'', pr_inject = [''PrismaService'']\<rparr>"

definition PositionsService :: provider where
  "PositionsService = \<lparr>pr_token = ''PositionsService'', pr_inject = [''PositionsRepository'']\<rparr>"

definition PositionsModule :: nest_module where
  "PositionsModule =
     \<lparr>nm_name = ''PositionsModule'', nm_global = False,
      nm_imports = [],
      nm_controllers = [],
      nm_providers = [PositionsRepository, PositionsService],
      nm_exports = [''PositionsService'', ''PositionsRepository'']\<rparr>"

text \<open>\<^verbatim>\<open>earn/persistence/transactions/transactions.module.ts\<close>\<close>

definition TransactionsRepository :: provider where
  "TransactionsRepository = \<lparr>pr_token = ''TransactionsRepository'', pr_inject = [''PrismaService'']\<rparr>"

definition TransactionsService :: provider where
  "TransactionsService = \<lparr>pr_token = ''TransactionsService'', pr_inject = [''TransactionsRepository'']\<rparr>"

definition TransactionsModule :: nest_module where
  "TransactionsModule =
     \<lparr>nm_name = ''TransactionsModule'', nm_global = False,
      nm_imports = [],
      nm_controllers = [],
      nm_providers = [TransactionsRepository, TransactionsService],
      nm_exports = [''TransactionsService'', ''TransactionsRepository'']\<rparr>"

text \<open>\<^verbatim>\<open>earn/persistence/earn-persistence.module.ts\<close>\<close>

definition EarnPersistenceModule :: nest_module where
  "EarnPersistenceModule =
     \<lparr>nm_name = ''EarnPersistenceModule'', nm_global = False,
      nm_imports = [''PositionsModule'', ''TransactionsModule''],
      nm_controllers = [],
      nm_providers = [],
      nm_exports = [''PositionsModule'', ''TransactionsModule'']\<rparr>"

text \<open>\<^verbatim>\<open>earn/earn.module.ts\<close>\<close>

definition EarnService :: provider where
  "EarnService = \<lparr>pr_token = ''EarnService'', pr_inject = [''EARN_PROTOCOL_PROVIDER'', ''WalletsService'', ''EarnBlockchainService'']\<rparr>"

definition EarnApprovalService :: provider where
  "EarnApprovalService = \<lparr>pr_token = ''EarnApprovalService'', pr_inject = [''EARN_PROTOCOL_PROVIDER'', ''WALLET_PROVIDER'', ''EarnBlockchainService'', ''TransactionsService'',
    ''EarnTransactionValidationService'', ''ExplorerUrlService'', ''AuditService'']\<rparr>"

definition EarnDepositService :: provider where
  "EarnDepositService = \<lparr>pr_token = ''EarnDepositService'', pr_inject = [''EARN_PROTOCOL_PROVIDER'', ''WALLET_PROVIDER'', ''EarnBlockchainService'', ''TransactionsService'',
    ''PositionsService'', ''EarnVaultRepository'', ''PrismaService'', ''EarnTransactionValidationService'',
    ''EarnMutationRateLimitService'', ''ExplorerUrlService'', ''AuditService'']\<rparr>"

definition EarnWithdrawService :: provider where
  "EarnWithdrawService = \<lparr>pr_token = ''EarnWithdrawService'', pr_inject = [''PositionsService'', ''EARN_PROTOCOL_PROVIDER'', ''EarnTransactionValidationService'', ''WALLET_PROVIDER'',
    ''EarnBlockchainService'', ''TransactionsService'', ''PrismaService'', ''EarnMutationRateLimitService'',
    ''ExplorerUrlService'', ''AuditService'']\<rparr>"

definition EarnPositionsService :: provider where
  "EarnPositionsService = \<lparr>pr_token = ''EarnPositionsService'', pr_inject = [''PositionsService'', ''TransactionsService'', ''EarnTransactionsService'', ''EARN_PROTOCOL_PROVIDER'']\<rparr>"

definition EarnTransactionsService :: provider where
  "EarnTransactionsService = \<lparr>pr_token = ''EarnTransactionsService'', pr_inject = [''TransactionsService'', ''PrismaService'', ''ExplorerUrlService'']\<rparr>"

definition EarnTransactionValidationService :: provider where
  "EarnTransactionValidationService = \<lparr>pr_token = ''EarnTransactionValidationService'', pr_inject = [''ConfigService'', ''WalletsService'']\<rparr>"

definition EarnBlockchainService :: provider where
  "EarnBlockchainService = \<lparr>pr_token = ''EarnBlockchainService'', pr_inject = [''ConfigService'']\<rparr>"

definition EarnVaultRepository :: provider where
  "EarnVaultRepository = \<lparr>pr_token = ''EarnVaultRepository'', pr_inject = [''PrismaService'']\<rparr>"

definition EarnMutationRateLimitService :: provider where
  "EarnMutationRateLimitService = \<lparr>pr_token = ''EarnMutationRateLimitService'', pr_inject = [''RedisService'', ''ConfigService'']\<rparr>"

definition ExplorerUrlService :: provider where
  "ExplorerUrlService = \<lparr>pr_token = ''ExplorerUrlService'', pr_inject = [''ConfigService'']\<rparr>"

definition EarnController :: provider where
  "EarnController = \<lparr>pr_token = ''EarnController'', pr_inject = [''EarnService'', ''EarnApprovalService'', ''EarnDepositService'']\<rparr>"

definition EarnPositionsController :: provider where
  "EarnPositionsController = \<lparr>pr_token = ''EarnPositionsController'', pr_inject = [''EarnPositionsService'', ''EarnWithdrawService'']\<rparr>"

definition EarnTransactionsController :: provider where
  "EarnTransactionsController = \<lparr>pr_token = ''EarnTransactionsController'', pr_inject = [''EarnTransactionsService'']\<rparr>"

definition EarnModule :: nest_module where
  "EarnModule =
     \<lparr>nm_name = ''EarnModule'', nm_global = False,
      nm_imports = [''AuthModule'', ''ProtocolsModule'', ''WalletsModule'', ''EarnPersistenceModule'',
                    ''PrismaModule''],
      nm_controllers = [EarnController, EarnPositionsController, EarnTransactionsController],
      nm_providers = [EarnService, EarnApprovalService, EarnDepositService, EarnWithdrawService,
                      EarnPositionsService, EarnTransactionsService, EarnTransactionValidationService,
                      EarnBlockchainService, EarnVaultRepository, EarnMutationRateLimitService, ExplorerUrlService],
      nm_exports = [''EarnService'', ''EarnApprovalService'', ''EarnDepositService'', ''EarnWithdrawService'',
                    ''EarnBlockchainService'', ''EarnTransactionValidationService'', ''ExplorerUrlService'',
                    ''EarnPersistenceModule'']\<rparr>"

text \<open>\<^verbatim>\<open>reconciliation/reconciliation.module.ts\<close>\<close>

definition TransactionReconciliationService :: provider where
  "TransactionReconciliationService = \<lparr>pr_token = ''TransactionReconciliationService'', pr_inject = [''TransactionsService'', ''PositionsService'', ''EarnBlockchainService'', ''PrismaService'',
    ''ReconciliationLockService'', ''AuditService'']\<rparr>"

definition ReconciliationLockService :: provider where
  "ReconciliationLockService = \<lparr>pr_token = ''ReconciliationLockService'', pr_inject = [''RedisService'']\<rparr>"

definition TransactionReconciliationProcessor :: provider where
  "TransactionReconciliationProcessor = \<lparr>pr_token = ''TransactionReconciliationProcessor'', pr_inject = [''BullmqRedisService'', ''TransactionReconciliationService'']\<rparr>"

definition TransactionReconciliationScheduler :: provider where
  "TransactionReconciliationScheduler = \<lparr>pr_token = ''TransactionReconciliationScheduler'', pr_inject = [''BullmqRedisService'']\<rparr>"

definition ReconciliationModule :: nest_module where
  "ReconciliationModule =
     \<lparr>nm_name = ''ReconciliationModule'', nm_global = False,
      nm_imports = [''EarnPersistenceModule'', ''EarnModule'', ''RedisModule''],
      nm_controllers = [],
      nm_providers = [TransactionReconciliationService, ReconciliationLockService,
                      TransactionReconciliationProcessor, TransactionReconciliationScheduler],
      nm_exports = [''TransactionReconciliationService'']\<rparr>"

text \<open>\<^verbatim>\<open>app.module.ts\<close>\<close>

definition appGuard :: provider where
  "appGuard = \<lparr>pr_token = ''APP_GUARD'', pr_inject = []\<rparr>"

definition AppModule :: nest_module where
  "AppModule =
     \<lparr>nm_name = ''AppModule'', nm_global = False,
      nm_imports = [''ConfigModule'', ''ThrottlerModule'', ''PrismaModule'', ''AuditModule'', ''IdempotencyModule'',
                    ''RedisModule'', ''AuthModule'', ''HealthModule'', ''SystemModule'', ''UsersModule'',
                    ''WalletsModule'', ''ChainsModule'', ''AssetsModule'', ''ProtocolsModule'', ''EarnModule'',
                    ''ReconciliationModule''],
      nm_controllers = [],
      nm_providers = [appGuard],
      nm_exports = []\<rparr>"


text \<open>The namespaces of the configuration, in the order in which the root module loads them, and what every request goes through first.\<close>

definition configLoaders :: "string list" where
  "configLoaders =
     [''app'', ''security'', ''database'', ''blockchain'', ''redis'', ''privy'', ''jwt'', ''wallet'', ''chains'', ''assets'', ''aave'',
      ''protocols'', ''idempotency'']"

definition configureMiddleware :: "(string list \<times> string) list" where
  "configureMiddleware = [([''RequestIdMiddleware'', ''StructuredLoggingMiddleware''], ''*'')]"

section \<open>What a module sees\<close>

definition earnModules :: "nest_module list" where
  "earnModules =
     [PrismaModule, AuditModule, IdempotencyModule, RedisModule, AuthModule, HealthModule, SystemModule, UsersModule,
      WalletsModule, ChainsModule, AssetsModule, ProtocolsModule, PositionsModule, TransactionsModule,
      EarnPersistenceModule, EarnModule, ReconciliationModule, AppModule]"

definition moduleNamed :: "nest_module list \<Rightarrow> string \<Rightarrow> nest_module option" where
  "moduleNamed ms n = find (\<lambda>m. nm_name m = n) ms"

text \<open>What a module exports, following re-exported modules to a depth of \<open>k\<close>; \<open>lib\<close> is what the modules of libraries export.\<close>

fun exportsOf :: "(string \<Rightarrow> string list) \<Rightarrow> nest_module list \<Rightarrow> nat \<Rightarrow> string \<Rightarrow> string list" where
  "exportsOf lib ms 0 n = []"
| "exportsOf lib ms (Suc k) n =
     (case moduleNamed ms n of
        None \<Rightarrow> lib n
      | Some m \<Rightarrow> concat (map (\<lambda>e. if e \<in> set (nm_imports m) then exportsOf lib ms k e else [e]) (nm_exports m)))"

text \<open>The configuration module is global (\<open>isGlobal\<close>); \<open>core\<close> is what the framework itself provides everywhere.\<close>

definition scope :: "(string \<Rightarrow> string list) \<Rightarrow> string list \<Rightarrow> nest_module list \<Rightarrow> nest_module \<Rightarrow> string list" where
  "scope lib core ms m =
     map pr_token (nm_providers m)
     @ concat (map (exportsOf lib ms (Suc (Suc (Suc 0)))) (nm_imports m @ map nm_name (filter nm_global ms) @ [''ConfigModule'']))
     @ core"

definition declared :: "nest_module list \<Rightarrow> provider list" where
  "declared ms = concat (map nm_providers ms) @ concat (map nm_controllers ms)"


lemmas provider_defs =
  PrismaService_def AuditService_def IdempotencyRepository_def IdempotencyService_def IdempotencyInterceptor_def
  RedisService_def BullmqRedisService_def AuthService_def PrivyService_def PrivyAuthGuard_def JwtAuthGuard_def
  JwtStrategy_def AuthController_def HealthService_def HealthController_def SystemService_def SystemController_def
  UsersService_def UsersController_def WalletsService_def PrivyWalletService_def WalletProviderFactory_def
  walletProviderFactory_def WalletsController_def ChainsService_def ChainsController_def AssetsService_def
  AssetsController_def AaveViemService_def AaveProvider_def EarnProtocolProviderFactory_def
  earnProtocolProviderFactory_def PositionsRepository_def PositionsService_def TransactionsRepository_def
  TransactionsService_def EarnService_def EarnApprovalService_def EarnDepositService_def EarnWithdrawService_def
  EarnPositionsService_def EarnTransactionsService_def EarnTransactionValidationService_def EarnBlockchainService_def
  EarnVaultRepository_def EarnMutationRateLimitService_def ExplorerUrlService_def EarnController_def
  EarnPositionsController_def EarnTransactionsController_def TransactionReconciliationService_def
  ReconciliationLockService_def TransactionReconciliationProcessor_def TransactionReconciliationScheduler_def
  appInterceptor_def appGuard_def

lemmas module_defs =
  PrismaModule_def AuditModule_def IdempotencyModule_def RedisModule_def AuthModule_def HealthModule_def
  SystemModule_def UsersModule_def WalletsModule_def ChainsModule_def AssetsModule_def ProtocolsModule_def
  PositionsModule_def TransactionsModule_def EarnPersistenceModule_def EarnModule_def ReconciliationModule_def
  AppModule_def

text \<open>The modules by their names; the names of library modules are none of them.\<close>

lemma module_names:
  "map nm_name earnModules =
     [''PrismaModule'', ''AuditModule'', ''IdempotencyModule'', ''RedisModule'', ''AuthModule'', ''HealthModule'',
      ''SystemModule'', ''UsersModule'', ''WalletsModule'', ''ChainsModule'', ''AssetsModule'', ''ProtocolsModule'',
      ''PositionsModule'', ''TransactionsModule'', ''EarnPersistenceModule'', ''EarnModule'',
      ''ReconciliationModule'', ''AppModule'']"
  by (simp add: earnModules_def module_defs)

lemma named [simp]:
  "moduleNamed earnModules ''PrismaModule'' = Some PrismaModule"
  "moduleNamed earnModules ''AuditModule'' = Some AuditModule"
  "moduleNamed earnModules ''IdempotencyModule'' = Some IdempotencyModule"
  "moduleNamed earnModules ''RedisModule'' = Some RedisModule"
  "moduleNamed earnModules ''AuthModule'' = Some AuthModule"
  "moduleNamed earnModules ''HealthModule'' = Some HealthModule"
  "moduleNamed earnModules ''SystemModule'' = Some SystemModule"
  "moduleNamed earnModules ''UsersModule'' = Some UsersModule"
  "moduleNamed earnModules ''WalletsModule'' = Some WalletsModule"
  "moduleNamed earnModules ''ChainsModule'' = Some ChainsModule"
  "moduleNamed earnModules ''AssetsModule'' = Some AssetsModule"
  "moduleNamed earnModules ''ProtocolsModule'' = Some ProtocolsModule"
  "moduleNamed earnModules ''PositionsModule'' = Some PositionsModule"
  "moduleNamed earnModules ''TransactionsModule'' = Some TransactionsModule"
  "moduleNamed earnModules ''EarnPersistenceModule'' = Some EarnPersistenceModule"
  "moduleNamed earnModules ''EarnModule'' = Some EarnModule"
  "moduleNamed earnModules ''ReconciliationModule'' = Some ReconciliationModule"
  "moduleNamed earnModules ''AppModule'' = Some AppModule"
  by (simp_all add: moduleNamed_def earnModules_def module_defs)

lemma library_modules [simp]:
  "moduleNamed earnModules ''ConfigModule'' = None" "moduleNamed earnModules ''JwtModule'' = None"
  "moduleNamed earnModules ''PassportModule'' = None" "moduleNamed earnModules ''ThrottlerModule'' = None"
  by (simp_all add: moduleNamed_def earnModules_def module_defs)

lemma global_modules: "map nm_name (filter nm_global earnModules) = [''PrismaModule'', ''AuditModule'', ''IdempotencyModule'', ''RedisModule'', ''AuthModule'']"
  by (simp add: earnModules_def module_defs)

section \<open>The application can be constructed\<close>

lemma all_in_scope:
  assumes "''ConfigService'' \<in> set (lib ''ConfigModule'')" and "''JwtService'' \<in> set (lib ''JwtModule'')" and "''Reflector'' \<in> set core"
  shows "\<forall>m \<in> set earnModules. \<forall>p \<in> set (nm_controllers m @ nm_providers m). set (pr_inject p) \<subseteq> set (scope lib core earnModules m)"
proof -
  let ?ok = "\<lambda>m. \<forall>p \<in> set (nm_controllers m @ nm_providers m). set (pr_inject p) \<subseteq> set (scope lib core earnModules m)"
  note parts = scope_def global_modules module_defs provider_defs
  have "?ok PrismaModule" "?ok AuditModule" "?ok IdempotencyModule" "?ok RedisModule" "?ok AuthModule" "?ok HealthModule"
    using assms by (simp_all add: parts)
  moreover have "?ok SystemModule" "?ok UsersModule" "?ok WalletsModule" "?ok ChainsModule" "?ok AssetsModule" "?ok ProtocolsModule"
    using assms by (simp_all add: parts)
  moreover have "?ok PositionsModule" "?ok TransactionsModule" "?ok EarnPersistenceModule" "?ok ReconciliationModule" "?ok AppModule"
    using assms by (simp_all add: parts)
  moreover have "?ok EarnModule"
    using assms by (simp add: parts)
  ultimately show ?thesis unfolding earnModules_def by (simp only: list.set ball_simps simp_thms)
qed

definition layers :: "string list list" where
  "layers =
     [
      [''EarnController'', ''EarnPositionsController''],
      [''EarnApprovalService'', ''EarnDepositService'', ''EarnWithdrawService''],
      [''WalletsController'', ''EarnService'', ''EarnTransactionValidationService''],
      [''UsersController'', ''WalletsService'', ''EarnPositionsService'', ''EarnTransactionsController'',
       ''TransactionReconciliationProcessor''],
      [''IdempotencyInterceptor'', ''AuthController'', ''UsersService'', ''WALLET_PROVIDER'',
       ''EARN_PROTOCOL_PROVIDER'', ''EarnTransactionsService'', ''TransactionReconciliationService'',
       ''APP_INTERCEPTOR''],
      [''IdempotencyService'', ''AuthService'', ''HealthController'', ''WalletProviderFactory'',
       ''EarnProtocolProviderFactory'', ''PositionsService'', ''TransactionsService''],
      [''AuditService'', ''IdempotencyRepository'', ''PrivyAuthGuard'', ''HealthService'', ''SystemController'',
       ''PrivyWalletService'', ''ChainsController'', ''AssetsController'', ''AaveProvider'', ''PositionsRepository'',
       ''TransactionsRepository'', ''EarnVaultRepository'', ''EarnMutationRateLimitService'',
       ''ReconciliationLockService'', ''TransactionReconciliationScheduler''],
      [''PrismaService'', ''RedisService'', ''BullmqRedisService'', ''PrivyService'', ''JwtStrategy'',
       ''SystemService'', ''ChainsService'', ''AssetsService'', ''AaveViemService'', ''EarnBlockchainService'',
       ''ExplorerUrlService'']]"

fun layerOf :: "string list list \<Rightarrow> string \<Rightarrow> nat" where
  "layerOf [] t = 0"
| "layerOf (l # ls) t = (if t \<in> set l then Suc (length ls) else layerOf ls t)"

lemma no_cycle: "p \<in> set (declared earnModules) \<Longrightarrow> t \<in> set (pr_inject p) \<Longrightarrow> layerOf layers t < layerOf layers (pr_token p)"
proof -
  have "list_all (\<lambda>p. list_all (\<lambda>t. layerOf layers t < layerOf layers (pr_token p)) (pr_inject p)) (declared earnModules)"
    by code_simp
  then show "p \<in> set (declared earnModules) \<Longrightarrow> t \<in> set (pr_inject p) \<Longrightarrow> layerOf layers t < layerOf layers (pr_token p)"
    by (simp add: list_all_iff)
qed

lemma one_provider: "distinct (map pr_token (declared earnModules))"
  by (simp add: declared_def earnModules_def module_defs provider_defs)

text \<open>So the relation "is constructed before" is well-founded.\<close>

theorem construction_wf: "wf {(t, pr_token p) |t p. p \<in> set (declared earnModules) \<and> t \<in> set (pr_inject p)}"
  by (rule wf_subset [OF wf_measure [of "layerOf layers"]]) (auto simp: no_cycle)

lemma exports_own:
  "\<forall>m \<in> set earnModules. set (nm_exports m) \<subseteq> set (map pr_token (nm_providers m) @ nm_imports m)"
  by (simp add: earnModules_def module_defs provider_defs)

text \<open>The secret of the tokens is never empty: without one the application does not start.\<close>

lemma secret_nonempty: "jwtModuleOptions c = Inr (secret, life) \<Longrightarrow> secret \<noteq> [] \<and> c = Some \<lparr>jw_secret = secret, jw_expiresIn = life\<rparr>"
  by (auto simp: jwtModuleOptions_def split: option.splits if_splits)

end
