(* ===== verification/Spec2Isabelle.thy ===== *)
theory Spec2Isabelle
  imports Scenarios Races Abis Wiring
begin

text \<open>
  A verification library of the earn back end: a NestJS service in which a user registers, gets
  custodial wallets from a wallet provider (Privy), and deposits into and withdraws from lending
  vaults (Aave) on EVM chains, and of its web client, from its requests to its markup.

  \<^bold>\<open>How the code is modelled.\<close>  An \<open>async\<close> method is a function of the state, of type
  \<open>'a io\<close> (\<open>world \<Rightarrow> (exn + 'a) \<times> world\<close>, theory \<open>Prelude\<close>): a result or a thrown error, and the
  state after it; \<open>andThen\<close> is \<open>await\<close>, \<open>catching\<close> is \<open>try/catch\<close>, \<open>finallyDo\<close> is \<open>finally\<close>,
  \<open>atomically\<close> is \<open>prisma.$transaction\<close> (all or nothing).  The state (\<open>Schema\<close>) holds the tables of
  \<^verbatim>\<open>prisma/schema.prisma\<close> as lists of records, the audit log, the keys of Redis with their expiry,
  the clock, and what was asked of the wallet provider.  All that lies outside the repository is a
  field of the record \<open>env\<close>: the chain (balances, allowances, receipts), the ABI encoder, the
  wallet provider's answers, SHA-256, the configuration; an answer may differ at every call, as each
  takes the number of the call.  Nothing is assumed of it unless a statement says so.  The one column of
  type JSONB whose value is sent on, \<open>responseData\<close>, is read back as \<open>e_jsonb\<close> of what was written (the order of
  keys may be lost); the \<open>metadata\<close> columns are read by their keys only.  The order of transactions that were created at
  the same time is a parameter of their listing (\<open>ties\<close>).

  \<^bold>\<open>The theories\<close>, in the order in which they build on each other.
  \<^item> \<open>Prelude\<close>, \<open>JsBase\<close>: the effect type with its program logic (\<open>triple\<close>, \<open>preserves\<close>, the
    collection \<open>pres\<close>), list tables, JavaScript strings and bigints.
  \<^item> \<open>Errors\<close>, \<open>Config\<close>, \<open>Schema\<close>: the exceptions and the global filter, the configuration with its
    validators, rows and state.
  \<^item> \<open>Tables\<close>: the row update all repositories make; locale \<open>table\<close>, interpreted on each table.
  \<^item> \<open>Positions\<close>, \<open>Transactions\<close>: repositories and services of the two tables, with the invariants
    \<open>posInv\<close> and \<open>txInv\<close> (unique keys, amounts in range).
  \<^item> \<open>RedisLocks\<close>: the Redis commands, the mutation limit and the worker's lock, whose release is two commands.
  \<^item> \<open>Blockchain\<close>, \<open>Protocols\<close>, \<open>Privy\<close>, \<open>Validation\<close>: the services the handlers call; locale
    \<open>wallet_provider\<close>, interpreted on the Privy provider.
  \<^item> \<open>Deposit\<close>, \<open>Withdraw\<close>, \<open>Approval\<close>: the three mutating handlers, whole; \<open>Ledger\<close> and \<open>Sending\<close> hold
    what their proofs share, \<open>Frames\<close> what they leave alone.
  \<^item> \<open>Canonical\<close>, \<open>Idempotency\<close>: the canonical text of a request and the interceptor; locale
    \<open>idempotent_handler\<close>, interpreted on the routes in \<open>Controllers\<close>, which also has the pipe that
    validates bodies.
  \<^item> \<open>Reconcile\<close>, \<open>Settling\<close>: the worker that settles what was left open.
  \<^item> \<open>Wallets\<close>, \<open>Accounts\<close>, \<open>Queries\<close>, \<open>Catalog\<close>: wallets and the faucet, registration and login, the
    reads, chains, assets and health.
  \<^item> \<open>Startup\<close>: the schema of the environment, what is handed to the framework, and the start of the worker.
  \<^item> \<open>Routes\<close>: the other controllers, with what the pipe makes of path, query and body.
  \<^item> \<open>Frontend\<close>: amounts, chains and requests of the client; \<open>Views\<close>: its fetching hook, its contexts, its
    routing and what the pages compute; \<open>Flows\<close>: the dialogs that deposit and withdraw and the login form.
    A view is a record, its handlers and the answers to its requests are events, and its reachable states
    an inductive predicate; what the deposit dialog needs of the server is the locale \<open>preview_server\<close>,
    interpreted on the preview route of \<open>Routes\<close>.
  \<^item> \<open>Markup\<close>: trees of elements with their handlers, and what a tree offers; \<open>Components\<close>, \<open>Pages\<close>: the components and
    pages of the client as such trees, up to the whole client; \<open>Clicks\<close>: the deposit dialog driven by what it renders;
    \<open>Rendering\<close>: the client on the answers of the handlers of the server; \<open>Sessions\<close>: the access token and the tabs of a browser.
  \<^item> \<open>Abis\<close>: the ABI fragments and the arguments the encoders are given; \<open>Wiring\<close>: the modules of the back end with the
    constructors of their classes, and that all of them can be constructed.
  \<^item> \<open>Scripts\<close>: the migration script and the script that drives the API through a deposit.
  \<^item> \<open>System\<close>: all operations as steps of one transition relation, in which the creations of wallets may overlap at their
    awaits (\<open>create\<close>); \<open>Isolation\<close>, \<open>History\<close>, \<open>Holdings\<close>:
    what a request may touch, what no step may touch, and the account a request refines.
  \<^item> \<open>Threads\<close>: handlers cut at their awaits, pools of them over one state, and the locale \<open>rely\<close> for
    invariants of a pool; \<open>Interleave\<close>: the mutating routes, the worker and wallet creation as threads, each
    shown to be its handler when nothing interrupts it; \<open>Concurrent\<close>: the interpretation of \<open>rely\<close> on the
    pool of the mutating routes and the worker; \<open>Races\<close>: two runs in which requests get in each other's way, and its interpretation on
    a pool of creations of wallets.
  \<^item> \<open>Demo\<close>, \<open>Scenarios\<close>: a concrete deployment and requests on it, for the witnesses.

  \<^bold>\<open>What is shown.\<close>  The account of a position is the sum of its confirmed deposits minus its
  confirmed withdrawals (\<open>balanceOf\<close>); \<open>base sk S\<close> says that the table invariants hold, that every
  position \<open>p\<close> holds its account less \<open>sk p\<close> (the skew, zero in the ordinary case), and that no
  transaction outside \<open>S\<close> is open.  Deposits, withdrawals and approvals keep it on every path, refine
  the abstract account, touch nobody else's rows, and ask the provider only for what was checked.
  A transaction that was closed before a request or a run of the worker began is not written by it, and so final as long as
  these are served one after the other or die, and in a pool if it was closed when the first thread arrived; a handler can overwrite its own
  transaction after it was closed, in its catch block (\<open>approval_overwritten\<close>, \<open>late_failure\<close>).  No interleaving of handlers
  breaks an invariant of the tables but one, that a user has at most one primary wallet (\<open>primaries_race\<close>); the ledger itself can be broken
  by one (\<open>withdrawals_race\<close>).  The worker settles what it finds; where it does so without touching the position, the skew says by
  how much the position is off.  Keys, locks and limits are shown to exclude what they are to exclude, the lock
  only against releases that are not between their two commands (\<open>release_race\<close>).  The pages of a listing join to it when no two of its
  rows were created at the same time, and need not otherwise (\<open>pages_repeat\<close>).
  In the client, what is shown belongs to the latest run and to the user of the token, what the deposit
  dialog sends is of an amount that the server previewed, for the wallet that was primary then, which need not be the one it is sent
  for (\<open>deposit_after_swap\<close>), and what it renders lets the user do just what its handlers provide for, every link leads
  to a page (\<open>client_linked\<close>), and a client that the server feeds renders; on production the migration script runs only what is permitted.

  \<^bold>\<open>Bounds and fuel.\<close>  Amounts are \<open>bigint\<close>s in the code and \<open>int\<close>s here; what the database does to a
  number beyond \<open>Decimal(36,18)\<close> is modelled (\<open>decimalFits\<close>).  The loops are the retries (three
  attempts each, recursion on the attempts left) and the worker's loops over the rows it fetched, at
  most a hundred of each kind; there is no fuel.  Identifiers are numbers drawn from a counter and
  printed in decimal in place of random UUIDs, times are milliseconds, strings are ASCII.

  \<^bold>\<open>Not modelled.\<close>  Foreign-key checks of the database and failures of its connection other than the
  unique, not-found and range errors; of the requests that can be under way at the same
  time, those that register, sign in or only read are served whole (a step of \<open>System\<close> is a whole
  request, a prefix of one that dies, or one await of the creation of a wallet; in \<open>Concurrent\<close> the mutating routes and the worker are cut at every
  await, where a call that touches no table and a database transaction are one step each, and creations of wallets are whole); what the
  database does with ties in the order of other lists than that of transactions, where the order of the table is taken; logging, but for the level of
  a request's line; the limiter of the framework; percent-decoding of URLs and page numbers beyond the
  integers of the database; in the client the arithmetic of doubles, the dates of the locale and the clipboard, which are
  parameters or events, the style sheets, and characters beyond ASCII, which are named signs.
\<close>

section \<open>The earn handlers keep the books\<close>

text \<open>
  C1.  Whatever the chain, the wallet provider, Redis and the audit table answer, a deposit whose
  amount passed the request validator keeps the books: the tables' invariants hold, every position
  holds the sum of its confirmed deposits minus its confirmed withdrawals, and the request leaves
  no transaction open, on every way it ends (success, revert, refusal, error).
\<close>

theorem deposit_keeps_books:
  assumes "isPositiveBigIntString (JStr (dd_amount dto))" and "base sk S s"
  shows "base sk S (snd (depositVault x userId vaultId dto s))"
proof -
  from positive_amount [OF assms(1)] obtain n where "bigIntOf (dd_amount dto) = Some n" "0 \<le> n" by fastforce
  from preservesD [OF preserves_triple [OF depositVault_keeps [OF this]] assms(2)] show ?thesis .
qed

theorem deposit_keeps_books_witness:
  "base (\<lambda>_. 0) {} (snd (depositVault (demoEnv Success) 0 ''v'' demoDeposit demoWorld)) \<and>
   map (\<lambda>p. (p_status p, p_shares p)) (positions (snd (depositVault (demoEnv Success) 0 ''v'' demoDeposit demoWorld)))
     = [(P_ACTIVE, 25)]"
  using deposit_keeps_books [OF _ demo_base, of demoDeposit "demoEnv Success" 0 "''v''"] demo_deposit
  by (auto simp: demoDeposit_def isPositiveBigIntString_def allDigits_def isDigit_def code_def bigIntOf_def trim_def
      isSpace_def toLowerCase_def lowerChar_def parseDigits_def digitOf_def Let_def split: prod.splits)

text \<open>
  C2.  The same for a withdrawal whose body passed the validator: a partial or a full withdrawal,
  confirmed, reverted or failed, keeps the invariants and the ledger and leaves nothing open.
\<close>

theorem withdraw_keeps_books:
  assumes "validWithdraw dto" and "base sk S s"
  shows "base sk S (snd (withdrawPosition x userId positionId dto s))"
  by (rule preservesD [OF preserves_triple [OF withdrawPosition_keeps [OF assms(1)]] assms(2)])

theorem withdraw_keeps_books_witness:
  "base (\<lambda>_. 0) {} (snd (withdrawPosition (demoEnv Success) 0 3 demoWithdraw demoHeld)) \<and>
   map (\<lambda>p. (p_status p, p_shares p)) (positions (snd (withdrawPosition (demoEnv Success) 0 3 demoWithdraw demoHeld)))
     = [(P_ACTIVE, 15)]"
  using withdraw_keeps_books [OF _ demo_held_base, of demoWithdraw "demoEnv Success" 0 3] demo_withdraw
  by (auto simp: validWithdraw_def demoWithdraw_def isPositiveBigIntString_def allDigits_def isDigit_def code_def
      bigIntOf_def trim_def isSpace_def toLowerCase_def lowerChar_def parseDigits_def digitOf_def Let_def
      split: prod.splits)

text \<open>
  C3.  The same for an approval: it may write an approval transaction and send a request, and it
  leaves the positions' account as it was and no transaction of its own open.
\<close>

theorem approve_keeps_books:
  assumes "isPositiveBigIntString (JStr (ad_amount dto))" and "base sk S s"
  shows "base sk S (snd (approveVault x userId vaultId dto s))"
proof -
  from positive_amount [OF assms(1)] obtain n where "bigIntOf (ad_amount dto) = Some n" "0 \<le> n" by fastforce
  from preservesD [OF preserves_triple [OF approveVault_keeps [OF this]] assms(2)] show ?thesis .
qed

theorem approve_keeps_books_witness:
  "base (\<lambda>_. 0) {} (snd (approveVault (demoEnv Success) 0 ''v'' demoApprove demoWorld)) \<and>
   length (sent (snd (approveVault (demoEnv Success) 0 ''v'' demoApprove demoWorld))) = 1"
  using approve_keeps_books [OF _ demo_base, of demoApprove "demoEnv Success" 0 "''v''"] demo_approve
  by (auto simp: demoApprove_def isPositiveBigIntString_def allDigits_def isDigit_def code_def bigIntOf_def trim_def
      isSpace_def toLowerCase_def lowerChar_def parseDigits_def digitOf_def Let_def split: prod.splits)

section \<open>Every reachable state\<close>

text \<open>
  C4.  In every state the back end reaches from empty tables, by requests served one at a time or dying on the way, by the worker and by
  time, also when the creations of wallets overlap each other and the rest at every await, the keys of the tables are
  unique, a user has at most one position in a vault, an email belongs to one user, and the three amounts of every position
  are equal, not negative and fit their column.  A user has at most one primary wallet as long as each creation of a wallet
  is served whole; creations that overlap break this (\<open>primaries_race\<close>), and nothing more than this.
\<close>

theorem reachable_tables:
  assumes "reachable x a overlapping s"
  shows "distinct (map p_id (positions s)) \<and> distinct (map t_id (transactions s)) \<and> distinct (map w_id (wallets s))
     \<and> distinct (map u_id (users s)) \<and> distinct (map v_slug (vaults s))
     \<and> distinct (map (\<lambda>p. (p_userId p, p_vaultId p)) (positions s))
     \<and> distinct (map (\<lambda>w. (w_address w, w_chainId w)) (wallets s))
     \<and> distinct (map the (filter (\<lambda>e. e \<noteq> None) (map u_email (users s))))
     \<and> (\<forall>p \<in> set (positions s). 0 \<le> p_shares p \<and> p_currentAmount p = p_shares p
          \<and> p_depositedAmount p = p_shares p \<and> decimalFits (p_shares p))
     \<and> (overlapping \<or> (\<forall>u. length (filter (\<lambda>w. w_userId w = u \<and> w_isPrimary w) (wallets s)) \<le> 1))"
  using reachable_inv [OF assms]
  by (cases overlapping) (simp_all add: tablesInvs_def sound_def sideInvs_def dbInv_def posInv_def txInv_def vaultInv_def walletsInv_def userInv_def
      goodPosition_def primaries_def)

theorem reachable_tables_witness:
  "\<exists>s. map u_email (users s) = [Some ''a@b.c''] \<and> reachable (demoEnv Success) demoAuth False s
     \<and> distinct (map the (filter (\<lambda>e. e \<noteq> None) (map u_email (users s))))
     \<and> (\<forall>u. length (filter (\<lambda>w. w_userId w = u \<and> w_isPrimary w) (wallets s)) \<le> 1)"
proof -
  obtain r s where run: "register (demoEnv Success) demoAuth demoCredentials emptyWorld = (Inr r, s)"
    and us: "map u_email (users s) = [Some ''a@b.c'']" by (rule exE [OF demo_register], elim exE conjE)
  have "reachable (demoEnv Success) demoAuth False emptyWorld"
    using reachable.start [of "demoEnv Success" demoAuth False 0] by (simp add: emptyWorld_def)
  from reachable.serve [OF this serve.register [of _ _ _ demoCredentials]] run
  have "reachable (demoEnv Success) demoAuth False s" by simp
  with us reachable_tables [OF this] show ?thesis by (intro exI [of _ s]) simp
qed

text \<open>
  C5.  As long as no process dies, every position holds exactly its confirmed deposits minus its
  confirmed withdrawals, and no transaction is left open, after any sequence of requests of any
  users and runs of the worker.
\<close>

theorem served_books:
  assumes "base (\<lambda>_. 0) {} s" and "(\<lambda>s t. serve x a s t \<or> work x s t)\<^sup>*\<^sup>* s t"
  shows "(\<forall>p \<in> set (positions t). p_shares p = balanceOf t (p_id p))
     \<and> (\<forall>r \<in> set (transactions t). \<not> isOpen (t_status r))"
proof -
  from assms(2,1) have "base (\<lambda>_. 0) {} t"
    by (induction rule: rtranclp_induct) (auto intro: serve_base work_idle)
  then show ?thesis by (auto simp: base_def ledger_def openIn_def)
qed

theorem served_books_witness:
  "\<exists>t. map p_shares (positions t) = [25] \<and> map (\<lambda>p. balanceOf t (p_id p)) (positions t) = [25]"
proof -
  obtain body t where run: "postDeposit (demoEnv Success) demoRequest demoWorld = (Inr (201, body), t)"
    "map p_shares (positions t) = [25]" by (rule exE [OF demo_post], elim exE conjE)
  have "serve (demoEnv Success) demoAuth demoWorld t"
    using serve.deposit [of "demoEnv Success" demoAuth demoWorld demoRequest] run by simp
  then have "(\<lambda>s t. serve (demoEnv Success) demoAuth s t \<or> work (demoEnv Success) s t)\<^sup>*\<^sup>* demoWorld t"
    by (intro r_into_rtranclp) simp
  from served_books [OF demo_base this] have "map (\<lambda>p. balanceOf t (p_id p)) (positions t) = map p_shares (positions t)" by auto
  with run show ?thesis by (intro exI [of _ t]) simp
qed

text \<open>
  C6.  Processes that die never break the account either: after any sequence of requests served or
  dying at any point, every position still holds its confirmed deposits minus its confirmed
  withdrawals (what is left behind are open transactions, for the worker).
\<close>

theorem died_books:
  assumes "base (\<lambda>_. 0) UNIV s" and "(\<lambda>s t. serve x a s t \<or> die x s t)\<^sup>*\<^sup>* s t"
  shows "\<forall>p \<in> set (positions t). p_shares p = balanceOf t (p_id p)"
proof -
  from assms(2,1) have "base (\<lambda>_. 0) UNIV t"
    by (induction rule: rtranclp_induct) (auto intro: serve_base die_base)
  then show ?thesis by (simp add: base_def ledger_def)
qed

theorem died_books_witness:
  "map t_status (transactions demoDead) = [T_CREATED] \<and> length (sent demoDead) = 1
     \<and> map p_shares (positions demoDead) = map (\<lambda>p. balanceOf demoDead (p_id p)) (positions demoDead)"
  using died_books [of demoWorld "demoEnv Success" demoAuth demoDead] demo_base demo_dies demo_dead_state
  by (auto simp: base_def openIn_def)

text \<open>
  C7.  A transaction that is confirmed, failed or reverted is final: no sequence of requests, served or
  dying at any point, of runs of the worker and of time changes anything in its row or removes it.
\<close>

theorem closed_for_good:
  assumes "tablesInv s" and "(\<lambda>s t. serve x a s t \<or> die x s t \<or> work x s t)\<^sup>*\<^sup>* s s'"
    and "t \<in> set (transactions s)" and "t_status t \<in> {T_CONFIRMED, T_FAILED, T_REVERTED}"
  shows "t \<in> set (transactions s')"
proof -
  from assms(2) have "tablesInv s' \<and> t \<in> set (closedTransactions s')"
  proof (induction rule: rtranclp_induct)
    case base
    from assms show ?case by (auto simp: closedTransactions_def isOpen_def)
  next
    case (step u v)
    with step_keeps_closed [of x a u v t] show ?case by (auto intro: serve_inv die_inv work_inv)
  qed
  then show ?thesis by (simp add: closedTransactions_def)
qed

theorem closed_for_good_witness:
  "demoTx 4 DEPOSIT T_CONFIRMED 10 \<in> set (transactions (snd (processJob (demoEnv Success) reconciliationJob None demoTopUp)))"
proof (rule closed_for_good [of demoTopUp "demoEnv Success" demoAuth])
  have "sound demoTopUp" using demo_worker_base(2) by (simp add: base_def sound_def)
  then show "tablesInv demoTopUp"
    unfolding tablesInvs_def
    by (simp add: sideInvs_def vaultInv_def idemInv_def walletsInv_def userInv_def primaries_def demoTopUp_def demo_tables
        demoWallet_def emptyWorld_def)
  show "(\<lambda>s t. serve (demoEnv Success) demoAuth s t \<or> die (demoEnv Success) s t \<or> work (demoEnv Success) s t)\<^sup>*\<^sup>* demoTopUp
      (snd (processJob (demoEnv Success) reconciliationJob None demoTopUp))"
    by (intro r_into_rtranclp disjI2 work.job)
qed (simp_all add: demoTopUp_def demo_tables)

text \<open>
  C8.  Requests and runs of the worker that are under way at the same time: however deposits, withdrawals,
  approvals and worker runs of any users, each cut at its awaits, are interleaved, with other requests and
  time going by in between and with any of them never resumed, the keys of positions and transactions stay
  unique, a user has at most one position in a vault, the three amounts of every position are equal, not
  negative and fit their column, and every transaction that was closed at the start is still there as it was.
\<close>

theorem interleaved_tables:
  assumes "tablesInv s" and "interleaved x a ([], s) (ts, s')"
  shows "tablesInv s' \<and> distinct (map p_id (positions s')) \<and> distinct (map t_id (transactions s'))
     \<and> distinct (map (\<lambda>p. (p_userId p, p_vaultId p)) (positions s'))
     \<and> (\<forall>p \<in> set (positions s'). 0 \<le> p_shares p \<and> p_currentAmount p = p_shares p
          \<and> p_depositedAmount p = p_shares p \<and> decimalFits (p_shares p))
     \<and> set (closedTransactions s) \<subseteq> set (closedTransactions s')"
  using pool_keeps_tables [OF assms]
  by (simp add: tablesInvs_def sound_def dbInv_def posInv_def txInv_def goodPosition_def)

theorem interleaved_tables_witness:
  "\<exists>ts s'. interleaved (demoEnv Success) demoAuth ([], demoHeld) (ts, s') \<and> length ts = 2
     \<and> demoTx 4 DEPOSIT T_CONFIRMED 25 \<in> set (closedTransactions s')"
proof -
  let ?x = "demoEnv Success" let ?u = "detach (processJobT (demoEnv Success) reconciliationJob None)"
  have "\<exists>k. detach (postDepositT ?x demoRequest) = Await k"
    by (simp add: detach_def postDepositT_def guardedT_def demo_request(1) interceptT_def idem_getConfig_def demoEnv_sel
        demoConfig_def readIdempotencyKey_def demoRequest_def trim_def isSpace_def code_def idem_acquireT_def await_def)
  then obtain k where k: "detach (postDepositT ?x demoRequest) = Await k" ..
  obtain t s1 where "k demoHeld = (t, s1)" by force
  then have "tstep\<^sup>*\<^sup>* (detach (postDepositT ?x demoRequest), demoHeld) (t, s1)"
    unfolding k by (intro r_into_rtranclp tstep.intros)
  moreover obtain r s2 r' s3 where "runT ?u s1 = (r, s2)" "runT t s2 = (r', s3)" by (metis surj_pair)
  ultimately have run: "interleaved ?x demoAuth ([], demoHeld) ([Finished r', Finished r], s3)"
    by (rule pool_overtakes [OF earnThread.deposit earnThread.job])
  have "sound demoHeld" using demo_held_base by (simp add: base_def sound_def)
  then have inv: "tablesInv demoHeld"
    unfolding tablesInvs_def
    by (simp add: sideInvs_def vaultInv_def idemInv_def walletsInv_def userInv_def primaries_def demo_tables
        demoWallet_def emptyWorld_def)
  have "demoTx 4 DEPOSIT T_CONFIRMED 25 \<in> set (closedTransactions demoHeld)"
    by (simp add: closedTransactions_def isOpen_def demo_tables)
  with interleaved_tables [OF inv run] run show ?thesis
    by (intro exI [of _ "[Finished r', Finished r]"] exI [of _ s3]) auto
qed

section \<open>The account a request is posted to\<close>

text \<open>
  C9.  Deposits refine the abstract accounts: the holdings of all positions after a validated deposit
  are the ones before with the effect of its answer posted, which is a credit of exactly the amount
  asked for when the answer is CONFIRMED and nothing on every other end.
\<close>

theorem deposit_refines:
  assumes "isPositiveBigIntString (JStr (dd_amount dto))" and "bigIntOf (dd_amount dto) = Some n" and "base sk S s"
  shows "holdings (snd (depositVault x userId vaultId dto s))
       = post (depositEffect n (fst (depositVault x userId vaultId dto s))) (holdings s)"
proof -
  from positive_amount [OF assms(1)] assms(2) have "0 \<le> n" by auto
  from deposit_posts [OF assms(2) this assms(3)] show ?thesis .
qed

theorem deposit_refines_witness:
  "holdings (snd (depositVault (demoEnv Success) 0 ''v'' demoDeposit demoWorld))
     = post (depositEffect 25 (fst (depositVault (demoEnv Success) 0 ''v'' demoDeposit demoWorld))) (\<lambda>_. 0)"
proof -
  have "isPositiveBigIntString (JStr ''25'')" "bigIntOf ''25'' = Some 25" by code_simp+
  moreover have "holdings demoWorld = (\<lambda>_. 0)" by (simp add: holdings_def demoWorld_def emptyWorld_def)
  ultimately show ?thesis
    using deposit_refines [OF _ _ demo_base, of demoDeposit 25 "demoEnv Success" 0 "''v''"] by (simp add: demoDeposit_def)
qed

text \<open>
  C10.  Withdrawals refine them too: a confirmed withdrawal debits the amount asked for, a full one
  all that was held, and every other end leaves every position's holding as it was.
\<close>

theorem withdraw_refines:
  assumes "validWithdraw dto" and "base sk S s"
  shows "holdings (snd (withdrawPosition x userId positionId dto s))
       = post (withdrawEffect dto (holdings s) (fst (withdrawPosition x userId positionId dto s))) (holdings s)"
  by (rule withdraw_posts [OF assms])

theorem withdraw_refines_witness:
  "holdings (snd (withdrawPosition (demoEnv Success) 0 3 demoWithdraw demoHeld))
     = post (withdrawEffect demoWithdraw (holdings demoHeld) (fst (withdrawPosition (demoEnv Success) 0 3 demoWithdraw demoHeld)))
         (holdings demoHeld)
   \<and> holdings demoHeld 3 = 25"
proof -
  have "isPositiveBigIntString (JStr ''10'')" by code_simp
  then have "validWithdraw demoWithdraw" by (simp add: validWithdraw_def demoWithdraw_def)
  from withdraw_refines [OF this demo_held_base] show ?thesis by (simp add: holdings_def demo_tables)
qed

text \<open>
  C11.  Users do not interfere: a mutating request of one user, whatever it holds and however it ends,
  leaves the positions and the transactions of all other users exactly as they were.
\<close>

theorem requests_isolated:
  assumes "dbInv s" and "h_userId q = Some u" and "route \<in> {postDeposit, postWithdraw, postApprove}"
  shows "filter (\<lambda>p. p_userId p \<noteq> u) (positions (snd (route x q s))) = filter (\<lambda>p. p_userId p \<noteq> u) (positions s)
     \<and> filter (\<lambda>t. t_userId t \<noteq> u) (transactions (snd (route x q s))) = filter (\<lambda>t. t_userId t \<noteq> u) (transactions s)"
proof -
  have "othersOf u (snd (route x q s)) = othersOf u s"
    using assms(3) routes_apart [OF assms(2)] by (intro apart_others(1) [OF _ assms(1)]) auto
  then show ?thesis by (simp add: othersOf_def)
qed

theorem requests_isolated_witness:
  "filter (\<lambda>p. p_userId p \<noteq> 0) (positions (snd (postDeposit (demoEnv Success) demoRequest (demoBooks [demoPosition P_ACTIVE 0\<lparr>p_userId := 8\<rparr>] []))))
     = [demoPosition P_ACTIVE 0\<lparr>p_userId := 8\<rparr>]"
proof -
  let ?s = "demoBooks [demoPosition P_ACTIVE 0\<lparr>p_userId := 8\<rparr>] []"
  have "dbInv ?s"
    by (simp add: dbInv_def posInv_def txInv_def demo_tables emptyWorld_def goodPosition_def decimalFits_def decimalBound_def)
  from requests_isolated [OF this demo_request(1), of postDeposit "demoEnv Success"] show ?thesis
    by (simp add: demo_tables)
qed

section \<open>What is sent\<close>

text \<open>
  C12.  Every request a deposit hands to the wallet provider is the deposit the user asked for: the
  vault is the one the configuration has under that id, enabled, also for deposits, on a chain this deployment
  may use; the wallet is a row of the table, of that id, of that user, on the vault's chain; the request supplies the
  amount of the body, of the vault's asset, from that wallet to the vault's pool; and a balance and, unless
  the asset is the native one, an allowance for that pool were read from the chain that cover it.
\<close>

theorem deposit_sends_what_was_checked:
  "set (sent (snd (depositVault x userId vaultId dto s))) \<subseteq> set (sent s) \<union>
     {q. \<exists>cfg d w n data. c_aave (e_config x) = Some cfg
       \<and> find (\<lambda>d. av_vaultId d = vaultId \<and> av_isEnabled d) (aaveVaults cfg) = Some d
       \<and> av_depositEnabled d \<noteq> Some False \<and> chainUsable x (av_chainId d)
       \<and> w \<in> set (wallets s) \<and> w_id w = dd_walletId dto \<and> w_userId w = userId \<and> w_chainId w = av_chainId d
       \<and> bigIntOf (dd_amount dto) = Some n
       \<and> (\<exists>k b. (if av_assetAddress d = ''native'' then e_getBalance x k (av_chainId d) (w_address w)
                 else e_balanceOf x k (av_chainId d) (av_assetAddress d) (w_address w)) = Inr b \<and> n \<le> b)
       \<and> (av_assetAddress d = ''native'' \<or>
            (\<exists>k b. e_allowance x k (av_chainId d) (av_assetAddress d) (w_address w) (poolAddress d) = Inr b \<and> n \<le> b))
       \<and> e_encode x (Supply (av_assetAddress d) n (w_address w) 0) = Inr data
       \<and> asksFor \<lparr>s_providerWalletId = w_providerId w, s_chainId = av_chainId d, s_to = poolAddress d,
            s_value = Some ''0'', s_data = Some data\<rparr> q}"
  using deposit_asks [of _ x userId vaultId dto s] by blast


text \<open>
  C14.  One transaction handed to the wallet provider makes at most three requests (the retries of
  a failed call), all for that wallet, chain, target and payload, each with an idempotency key of
  its own; a call that succeeds has made at least one.
\<close>

theorem send_is_bounded:
  "sends 3 (asksFor input) (privy_sendTransaction x input)"
  by (rule privy.requests)

text \<open>
  C15.  While the user's position in the vault is pending, or a deposit transaction of theirs in it
  is created or submitted, a further deposit is refused and changes no position, no transaction
  and sends nothing.
\<close>

theorem deposit_refused_while_open:
  assumes "find (\<lambda>v. v_slug v = vaultId) (vaults s) = Some v" and "depositUnderWay userId (v_id v) s"
  shows "\<exists>e s'. depositVault x userId vaultId dto s = (Inl e, s')
     \<and> transactions s' = transactions s \<and> positions s' = positions s \<and> sent s' = sent s"
  by (rule deposit_single_flight [OF assms])

theorem deposit_refused_while_open_witness:
  "\<exists>e s'. depositVault (demoEnv Success) 0 ''v'' demoDeposit demoPending = (Inl e, s')
     \<and> positions s' = [demoPosition P_PENDING 0] \<and> sent s' = []"
  using deposit_refused_while_open [of "''v''" demoPending demoVault 0 "demoEnv Success" demoDeposit]
  by (auto simp: demoPending_def demoBooks_def demoVault_def depositUnderWay_def emptyWorld_def demoPosition_def)

section \<open>The worker\<close>

text \<open>
  C16.  The worker settles: when it holds the lock, at most a hundred transactions are submitted and
  their receipts can be read, no transaction is left submitted after its run, whatever the
  receipts say and whatever rows it finds.
\<close>

theorem worker_settles:
  assumes "dbInv s" and "lockAcquire x jobId s = (Inr True, s1)"
    and "length (filter (\<lambda>t. t_status t = T_SUBMITTED) (transactions s)) \<le> 100"
    and "\<forall>t \<in> set (transactions s). t_status t = T_SUBMITTED \<longrightarrow> readable x t"
  shows "\<forall>t \<in> set (transactions (snd (reconcilePendingTransactions x jobId s))). t_status t \<noteq> T_SUBMITTED"
  using job_settles [of s x jobId s1] assms by (auto simp: submitted_def filter_empty_conv)

theorem worker_settles_witness:
  "filter (\<lambda>t. t_status t = T_SUBMITTED) (transactions (snd (reconcilePendingTransactions (demoEnv Reverted) ''j'' demoPending))) = []"
  unfolding filter_empty_conv
proof (rule worker_settles)
  show "dbInv demoPending" using demo_worker_base(1) by (simp add: base_def)
  show "lockAcquire (demoEnv Reverted) ''j'' demoPending = (Inr True, snd (lockAcquire (demoEnv Reverted) ''j'' demoPending))"
    by (simp add: lockAcquire_def redis_defs andThen_def extCall_def demoEnv_sel redisLive_def demoPending_def demo_tables emptyWorld_def)
qed (auto simp: demoPending_def demoBooks_def demo_readable emptyWorld_def)

text \<open>
  C17.  The worker credits a first deposit: a submitted deposit whose position is pending and empty is
  confirmed in the block of its receipt, its amount becomes the balance of the position, which is active from then on, the call
  returns, and the books balance with the deposit in them.
\<close>

theorem worker_first_deposit:
  assumes "base sk (insert i S) s" and "find (\<lambda>t. t_id t = i) (transactions s) = Some t"
    and "t_status t = T_SUBMITTED" and "t_type t = DEPOSIT" and "t_positionId t = Some pid"
    and "find (\<lambda>p. p_id p = pid) (positions s) = Some p" and "p_status p = P_PENDING" and "p_shares p = 0"
  shows "\<exists>s' t' p'. rec_handleConfirmedTransaction x (toTransactionRecord slug t) b g s = (Inr (), s') \<and> base sk S s'
     \<and> find (\<lambda>t. t_id t = i) (transactions s') = Some t' \<and> t_status t' = T_CONFIRMED \<and> t_blockNumber t' = Some b
     \<and> find (\<lambda>p. p_id p = pid) (positions s') = Some p' \<and> p_status p' = P_ACTIVE \<and> p_shares p' = t_amount t"
proof -
  have inv: "dbInv s" using assms(1) by (simp add: base_def)
  note row = submitted_row [OF inv assms(2,3)]
  obtain s' where run: "rec_handleConfirmedTransaction x (toTransactionRecord slug t) b g s = (Inr (), s')"
    and booked: "confirmedIn b i s'"
      "\<exists>p'. find (\<lambda>p. p_id p = pid) (positions s') = Some p' \<and> p_status p' = P_ACTIVE \<and> p_shares p' = t_amount t"
    using deposit_booked [OF inv assms(2-7)] by blast
  have "working sk S i DEPOSIT (t_amount t) (Some pid) (\<lambda>_. True) True s" "positionIs pid (\<lambda>st sh. st = P_PENDING \<and> sh = 0) s"
    using assms by (simp_all add: working_def isOpen_def positionIs_def)
  then have "base sk S s'"
    using triple_Inr [OF rec_first_deposit [where r = "toTransactionRecord slug t"] _ run] row assms(4,5) by simp
  with run booked show ?thesis unfolding confirmedIn_def by blast
qed

theorem worker_first_deposit_witness:
  "\<exists>s' p'. rec_handleConfirmedTransaction (demoEnv Success) (toTransactionRecord None (demoTx 5 DEPOSIT T_SUBMITTED 25)) 7 9 demoPending
     = (Inr (), s') \<and> base (\<lambda>_. 0) {} s'
     \<and> find (\<lambda>p. p_id p = 3) (positions s') = Some p' \<and> p_shares p' = 25"
  using worker_first_deposit [OF demo_worker_base(1), of "demoTx 5 DEPOSIT T_SUBMITTED 25" 3 "demoPosition P_PENDING 0"
    "demoEnv Success" None 7 9]
  by (fastforce simp: demoPending_def demo_tables)

text \<open>
  C18.  The worker debits a withdrawal that is waiting for it: when the position is being withdrawn from and
  holds the amount, the withdrawal is confirmed in the block of its receipt, the amount is taken off the position, which is
  closed when nothing is left and active otherwise, the call returns, and the books balance with the withdrawal in them.
\<close>

theorem worker_withdrawal:
  assumes "base sk (insert i S) s" and "find (\<lambda>t. t_id t = i) (transactions s) = Some t"
    and "t_status t = T_SUBMITTED" and "t_type t = WITHDRAW" and "t_positionId t = Some pid"
    and "find (\<lambda>p. p_id p = pid) (positions s) = Some p" and "p_status p = P_WITHDRAWING" and "t_amount t \<le> p_shares p"
  shows "\<exists>s' t' p'. rec_handleConfirmedTransaction x (toTransactionRecord slug t) b g s = (Inr (), s') \<and> base sk S s'
     \<and> find (\<lambda>t. t_id t = i) (transactions s') = Some t' \<and> t_status t' = T_CONFIRMED \<and> t_blockNumber t' = Some b
     \<and> find (\<lambda>p. p_id p = pid) (positions s') = Some p' \<and> p_shares p' = p_shares p - t_amount t
     \<and> p_status p' = (if p_shares p = t_amount t then P_CLOSED else P_ACTIVE)"
proof -
  have inv: "dbInv s" using assms(1) by (simp add: base_def)
  note row = submitted_row [OF inv assms(2,3)]
  obtain s' where run: "rec_handleConfirmedTransaction x (toTransactionRecord slug t) b g s = (Inr (), s')"
    and booked: "confirmedIn b i s'"
      "\<exists>p'. find (\<lambda>p. p_id p = pid) (positions s') = Some p' \<and> p_shares p' = p_shares p - t_amount t
          \<and> p_status p' = (if p_shares p = t_amount t then P_CLOSED else P_ACTIVE)"
    using withdrawal_booked [OF inv assms(2-8)] by blast
  have "working sk S i WITHDRAW (t_amount t) (Some pid) (\<lambda>_. True) True s"
    "positionIs pid (\<lambda>st sh. st = P_WITHDRAWING \<and> t_amount t \<le> sh) s"
    using assms by (simp_all add: working_def isOpen_def positionIs_def)
  then have "base sk S s'"
    using triple_Inr [OF rec_withdrawal [where r = "toTransactionRecord slug t"] _ run] row assms(4,5) by simp
  with run booked show ?thesis unfolding confirmedIn_def by blast
qed

theorem worker_withdrawal_witness:
  "\<exists>s' p'. rec_handleConfirmedTransaction (demoEnv Success) (toTransactionRecord None (demoTx 5 WITHDRAW T_SUBMITTED 10)) 7 9
     (demoLeaving P_WITHDRAWING) = (Inr (), s') \<and> base (\<lambda>_. 0) {} s'
     \<and> find (\<lambda>p. p_id p = 3) (positions s') = Some p' \<and> p_shares p' = 15 \<and> p_status p' = P_ACTIVE"
  using worker_withdrawal [OF demo_worker_base(3) [of P_WITHDRAWING], of "demoTx 5 WITHDRAW T_SUBMITTED 10" 3 "demoPosition P_WITHDRAWING 25"
    "demoEnv Success" None 7 9]
  by (fastforce simp: demoLeaving_def demo_tables)

text \<open>
  C19.  A further deposit that the worker confirms is lost to the position: the transaction is
  confirmed, the position is not written, and from then on it holds less than its confirmed
  deposits minus its confirmed withdrawals, by the amount of that deposit.
\<close>

theorem worker_loses_topup:
  assumes "base sk (insert i S) s" and "find (\<lambda>t. t_id t = i) (transactions s) = Some t"
    and "t_status t = T_SUBMITTED" and "t_type t = DEPOSIT" and "t_positionId t = Some pid"
    and "find (\<lambda>p. p_id p = pid) (positions s) = Some p" and "p_status p \<noteq> P_PENDING"
  shows "\<exists>s'. rec_handleConfirmedTransaction x (toTransactionRecord slug t) b g s = (Inr (), s') \<and> positions s' = positions s
     \<and> base (sk(pid := sk pid - t_amount t)) S s'"
proof -
  have i: "t_id t = i" using assms(2) by (auto dest: find_Some_iff_first)
  have "working sk S i DEPOSIT (t_amount t) (Some pid) (\<lambda>_. True) True s" "positionIs pid (\<lambda>st _. st \<noteq> P_PENDING) s"
    using assms by (simp_all add: working_def isOpen_def positionIs_def)
  then show ?thesis
    using rec_topup_lost [where r = "toTransactionRecord slug t"] assms(4,5) i by simp
qed

theorem worker_loses_topup_witness:
  "\<exists>s'. rec_handleConfirmedTransaction (demoEnv Success) (toTransactionRecord None (demoTx 5 DEPOSIT T_SUBMITTED 25)) 7 9 demoTopUp
     = (Inr (), s') \<and> positions s' = positions demoTopUp \<and> base ((\<lambda>_. 0)(3 := - 25)) {} s'"
  using worker_loses_topup [OF demo_worker_base(2), of "demoTx 5 DEPOSIT T_SUBMITTED 25" 3 "demoPosition P_ACTIVE 10" "demoEnv Success" None 7 9]
  by (simp add: demoTopUp_def demo_tables)

text \<open>
  C20.  A withdrawal whose position is no longer being withdrawn from (a further deposit made it active
  again) is confirmed by the worker and the position keeps the shares that were burned.
\<close>

theorem worker_keeps_burned_shares:
  assumes "base sk (insert i S) s" and "find (\<lambda>t. t_id t = i) (transactions s) = Some t"
    and "t_status t = T_SUBMITTED" and "t_type t = WITHDRAW" and "t_positionId t = Some pid"
    and "find (\<lambda>p. p_id p = pid) (positions s) = Some p" and "p_status p \<noteq> P_WITHDRAWING"
  shows "\<exists>s'. rec_handleConfirmedTransaction x (toTransactionRecord slug t) b g s = (Inr (), s') \<and> positions s' = positions s
     \<and> base (sk(pid := sk pid + t_amount t)) S s'"
proof -
  have i: "t_id t = i" using assms(2) by (auto dest: find_Some_iff_first)
  have "working sk S i WITHDRAW (t_amount t) (Some pid) (\<lambda>_. True) True s" "positionIs pid (\<lambda>st _. st \<noteq> P_WITHDRAWING) s"
    using assms by (simp_all add: working_def isOpen_def positionIs_def)
  then show ?thesis
    using rec_withdrawal_lost [where r = "toTransactionRecord slug t"] assms(4,5) i by simp
qed

theorem worker_keeps_burned_shares_witness:
  "\<exists>s'. rec_handleConfirmedTransaction (demoEnv Success) (toTransactionRecord None (demoTx 5 WITHDRAW T_SUBMITTED 10)) 7 9
     (demoLeaving P_ACTIVE) = (Inr (), s') \<and> positions s' = [demoPosition P_ACTIVE 25] \<and> base ((\<lambda>_. 0)(3 := 10)) {} s'"
  using worker_keeps_burned_shares [OF demo_worker_base(3) [of P_ACTIVE], of "demoTx 5 WITHDRAW T_SUBMITTED 10" 3 "demoPosition P_ACTIVE 25"
    "demoEnv Success" None 7 9]
  by (simp add: demoLeaving_def demo_tables)

section \<open>Idempotency keys\<close>

text \<open>
  C21.  A deposit that was answered is answered once: from then on, after any sequence of requests served or dying, of
  runs of the worker and of time, every post with the same key and the same fingerprint gets one stored answer, with the
  status and the JSON value of the first (a JSONB column keeps the value and not the order of its keys), and changes
  nothing; this holds whichever user sends it, as the key is looked up without the user.
\<close>

theorem deposit_answered_once:
  assumes "\<And>v. wfJson v \<Longrightarrow> sameJson (e_jsonb x v) v" and "idemInv s" and "keyed x q key"
    and "postDeposit x q s = (Inr (st, body), s')"
  shows "\<exists>body'. sameJson body' body \<and> (\<forall>s'' q' u'. (\<lambda>s t. serve x a s t \<or> die x s t \<or> work x s t)\<^sup>*\<^sup>* s' s'' \<and> keyed x q' key
     \<and> requestHashOf x q' = requestHashOf x q \<and> h_userId q' = Some u' \<longrightarrow> postDeposit x q' s'' = (Inr (st, body'), s''))"
  by (rule answered_ever_after [OF assms])

theorem deposit_answered_once_witness:
  "\<exists>body body' s'. postDeposit (demoEnv Success) demoRequest demoWorld = (Inr (201, body), s') \<and> sameJson body' body
     \<and> (let s'' = snd (processJob (demoEnv Success) reconciliationJob None s')
        in postDeposit (demoEnv Success) (demoRequest\<lparr>h_userId := Some 9\<rparr>) s'' = (Inr (201, body'), s''))"
proof -
  let ?x = "demoEnv Success"
  obtain body s' where run: "postDeposit ?x demoRequest demoWorld = (Inr (201, body), s')"
    by (rule exE [OF demo_post], elim exE conjE)
  have jsonb: "sameJson (e_jsonb ?x v) v" if "wfJson v" for v
    using sameSym [OF sortValue_is_same [OF that]] by (simp add: demoEnv_def)
  have "idemInv demoWorld" by (simp add: idemInv_def demoWorld_def emptyWorld_def)
  from deposit_answered_once [OF jsonb this demo_request(4) run, of demoAuth] obtain body' where same: "sameJson body' body"
    and after: "\<And>s'' q' u'. (\<lambda>s t. serve ?x demoAuth s t \<or> die ?x s t \<or> work ?x s t)\<^sup>*\<^sup>* s' s'' \<and> keyed ?x q' ''k''
      \<and> requestHashOf ?x q' = requestHashOf ?x demoRequest \<and> h_userId q' = Some u' \<Longrightarrow> postDeposit ?x q' s'' = (Inr (201, body'), s'')"
    by blast
  have "keyed ?x (demoRequest\<lparr>h_userId := Some 9\<rparr>) ''k''"
    using demo_request(4) by (simp add: keyed_def readIdempotencyKey_def)
  moreover have "requestHashOf ?x (demoRequest\<lparr>h_userId := Some 9\<rparr>) = requestHashOf ?x demoRequest"
    by (simp add: requestHashOf_def fingerprintOf_def demoRequest_def)
  moreover have "(\<lambda>s t. serve ?x demoAuth s t \<or> die ?x s t \<or> work ?x s t)\<^sup>*\<^sup>* s' (snd (processJob ?x reconciliationJob None s'))"
    by (intro r_into_rtranclp disjI2 work.job)
  ultimately have "postDeposit ?x (demoRequest\<lparr>h_userId := Some 9\<rparr>) (snd (processJob ?x reconciliationJob None s'))
      = (Inr (201, body'), snd (processJob ?x reconciliationJob None s'))"
    by (intro after [of _ _ 9]) simp
  with run same show ?thesis
    by (intro exI [of _ body] exI [of _ body'] exI [of _ s']) (simp add: Let_def)
qed

text \<open>
  C22.  A key in use refuses: with another payload the request is refused as a conflict, and while the
  first request has no stored answer it is refused as in progress; either way nothing is written.
\<close>

theorem key_in_use_refuses:
  assumes "keyed x q key" and "rowFor key (requestPathOf OpWithdrawal) s = Some r" and "h_userId q = Some u"
  shows "(i_requestHash r \<noteq> requestHashOf x q \<longrightarrow> postWithdraw x q s = (Inl (idempotencyConflict key), s))
     \<and> (i_requestHash r = requestHashOf x q \<and> i_responseData r = None \<longrightarrow> postWithdraw x q s = (Inl (idempotencyInProgress key), s))"
  using intercept_refuses [OF assms(1,2)] by (simp add: postWithdraw_def guarded_def assms(3))

definition demoKeyRow :: idempotency_key where
  "demoKeyRow = \<lparr>i_id = 1, i_userId = None, i_key = ''k'', i_requestPath = requestPathOf OpWithdrawal, i_requestHash = [],
     i_responseData = None, i_statusCode = None, i_expiresAt = 0, i_createdAt = 0\<rparr>"

theorem key_in_use_refuses_witness:
  "let s = emptyWorld\<lparr>idempotencyKeys := [demoKeyRow\<lparr>i_requestHash := requestHashOf (demoEnv Success) demoRequest\<rparr>]\<rparr>
   in postWithdraw (demoEnv Success) demoRequest s = (Inl (idempotencyInProgress ''k''), s)"
proof -
  let ?r = "demoKeyRow\<lparr>i_requestHash := requestHashOf (demoEnv Success) demoRequest\<rparr>"
  let ?s = "emptyWorld\<lparr>idempotencyKeys := [?r]\<rparr>"
  have "rowFor ''k'' (requestPathOf OpWithdrawal) ?s = Some ?r" by (simp add: rowFor_def demoKeyRow_def)
  from key_in_use_refuses [OF demo_request(4) this demo_request(1)] show ?thesis by (simp add: Let_def demoKeyRow_def)
qed

text \<open>
  C23.  A request that fails gives its key back: the table of keys is as it was before the request, so
  that the client may try again under the same key.
\<close>

theorem failed_request_frees_key:
  assumes "idemInv s" and "keyed x q key" and "rowFor key (requestPathOf OpDeposit) s = None"
    and "postDeposit x q s = (Inl e, s')" and "\<not> shouldPersistResponse (exnStatus e)"
  shows "idempotencyKeys s' = idempotencyKeys s"
proof (cases "h_userId q")
  case None
  with assms(4) show ?thesis by (simp add: postDeposit_def guarded_def)
next
  case (Some u)
  have st: "shouldPersistResponse 201" by (simp add: shouldPersistResponse_def)
  from assms(4) Some have run: "intercept x (Some OpDeposit) 201 q (depositHandler x u q) s = (Inl e, s')"
    by (simp add: postDeposit_def guarded_def)
  from depositRoute.fails_as_handler [OF assms(1) st assms(2,3) run] obtain t where
    "depositHandler x u q (withRow (freshRow x (acquireInputOf x OpDeposit q key) s) s) = (Inl e, t)" by blast
  from depositRoute.failure_frees_key [OF assms(1,2,3) this assms(5), of 201] run
  have "s' = t\<lparr>idempotencyKeys := idempotencyKeys s\<rparr>" by simp
  then show ?thesis by simp
qed

theorem failed_request_frees_key_witness:
  "\<exists>e s'. postDeposit (demoEnv Success) (demoRequest\<lparr>h_body := None\<rparr>) demoWorld = (Inl e, s') \<and> idempotencyKeys s' = []"
proof -
  let ?q = "demoRequest\<lparr>h_body := None\<rparr>" and ?x = "demoEnv Success"
  let ?row = "freshRow ?x (acquireInputOf ?x OpDeposit ?q ''k'') demoWorld"
  have inv: "idemInv demoWorld" and none: "rowFor ''k'' (requestPathOf OpDeposit) demoWorld = None"
    by (simp_all add: idemInv_def rowFor_def demoWorld_def emptyWorld_def)
  have k: "keyed ?x ?q ''k''" using demo_request(4) by (simp add: keyed_def readIdempotencyKey_def)
  obtain ms where bad: "parseDepositDto None = Inl (invalidBody ms)"
    by (simp add: parseDepositDto_def bodyProps_def uuidProp_def Let_def)
  then have h: "depositHandler ?x 0 ?q (withRow ?row demoWorld) = (Inl (invalidBody ms), withRow ?row demoWorld)"
    by (simp add: depositHandler_def)
  have st: "\<not> shouldPersistResponse (exnStatus (invalidBody ms))" by (simp add: invalidBody_def exnStatus_def shouldPersistResponse_def)
  from depositRoute.failure_frees_key [OF inv k none h st] obtain s' where
    run: "postDeposit ?x ?q demoWorld = (Inl (invalidBody ms), s')" by (simp add: postDeposit_def guarded_def demo_request(1))
  from failed_request_frees_key [OF inv k none run st] run show ?thesis
    by (intro exI [of _ "invalidBody ms"] exI [of _ s']) (simp add: demoWorld_def emptyWorld_def)
qed

text \<open>
  C24.  The race for a key has one winner: when one call has created the row of a key, no other call that is past its look-up
  creates one for that key and path, in any later state, whatever rows are created, answered and deleted meanwhile,
  other than that row being deleted.
\<close>

theorem key_race_one_winner:
  assumes "idemInv s" and "idem_acquireNew x input s = (Inr (None, i), s')" and "KeyDelete i \<notin> set ops"
    and "idempotencyKeys t = idempotencyKeys (fold (keyStep x) ops s')"
    and "aq_key input' = aq_key input" and "aq_requestPath input' = aq_requestPath input"
  shows "fst (idem_acquireNew x input' t) \<noteq> Inr (None, j)"
  by (rule acquire_race [OF assms])

theorem key_race_one_winner_witness:
  "let x = demoEnv Success; a = \<lparr>aq_key = ''k'', aq_requestPath = ''p'', aq_requestHash = ''h'', aq_userId = None\<rparr>;
       s = snd (idem_acquireNew x a emptyWorld)
   in fst (idem_acquireNew x (a\<lparr>aq_requestHash := ''i''\<rparr>) (fold (keyStep x) [KeySave 0 (JStr ''done'') 201, KeyDelete 7] s)) \<noteq> Inr (None, 1)"
proof -
  let ?a = "\<lparr>aq_key = ''k'', aq_requestPath = ''p'', aq_requestHash = ''h'', aq_userId = None\<rparr>"
  obtain s where run: "idem_acquireNew (demoEnv Success) ?a emptyWorld = (Inr (None, 0), s)"
    by (simp add: idem_acquireNew_def idem_getConfig_def demoEnv_sel demoConfig_def idem_computeExpiryDate_def
        idemRepo_create_def emptyWorld_def catching_def andThen_def Let_def)
  have "idemInv emptyWorld" by (simp add: idemInv_def emptyWorld_def)
  from key_race_one_winner [OF this run, of "[KeySave 0 (JStr ''done'') 201, KeyDelete 7]" _ "?a\<lparr>aq_requestHash := ''i''\<rparr>"] run
  show ?thesis by (simp add: Let_def)
qed

text \<open>
  C25.  The canonical text of a request decides: two payloads have the same canonical text exactly when
  they are the same JSON value up to the order of the keys of their objects.
\<close>

theorem canonical_text_decides:
  assumes "wfJson v" and "wfJson w"
  shows "stableStringify v = stableStringify w \<longleftrightarrow> sameJson v w"
  by (rule stableStringify_iff [OF assms])

theorem canonical_text_decides_witness:
  "stableStringify (JObj [(''b'', JNum 1), (''a'', JNull)]) = stableStringify (JObj [(''a'', JNull), (''b'', JNum 1)])
     \<and> \<not> sameJson (JObj [(''a'', JNum 1)]) (JObj [(''a'', JStr ''1'')])"
proof
  have "sameJson (JObj [(''b'', JNum 1), (''a'', JNull)]) (JObj [(''a'', JNull), (''b'', JNum 1)])"
    by (rule sameOrder) simp_all
  then show "stableStringify (JObj [(''b'', JNum 1), (''a'', JNull)]) = stableStringify (JObj [(''a'', JNull), (''b'', JNum 1)])"
    using canonical_text_decides [of "JObj [(''b'', JNum 1), (''a'', JNull)]" "JObj [(''a'', JNull), (''b'', JNum 1)]"] by simp
  have "stableStringify (JObj [(''a'', JNum 1)]) \<noteq> stableStringify (JObj [(''a'', JStr ''1'')])" by code_simp
  then show "\<not> sameJson (JObj [(''a'', JNum 1)]) (JObj [(''a'', JStr ''1'')])"
    using canonical_text_decides [of "JObj [(''a'', JNum 1)]" "JObj [(''a'', JStr ''1'')]"] by simp
qed

section \<open>Limits and locks\<close>

text \<open>
  C26.  Per user, action and minute, at most the configured number of mutations is let through,
  however the requests of all users are interleaved and whenever Redis fails.
\<close>

theorem mutations_limited:
  assumes "redis s (rateLimitKey u a w) = None" and "0 \<le> lim"
  shows "int (allowedIn u a w rs (serveMutations x (Some lim) rs s)) \<le> lim"
  using allowed_bounded [of u a w 0 s rs x lim] assms by (simp add: counted_def)

theorem mutations_limited_witness:
  "int (allowedIn 7 DepositMutation 0 [(7, DepositMutation, 1), (7, DepositMutation, 2), (7, DepositMutation, 3)]
     (serveMutations (demoEnv Success) (Some 2) [(7, DepositMutation, 1), (7, DepositMutation, 2), (7, DepositMutation, 3)] emptyWorld)) \<le> 2"
  by (rule mutations_limited) (simp_all add: emptyWorld_def)

text \<open>
  C27.  The reconciliation lock excludes: once a job holds it, until its 25 seconds are over and as long as it has not begun
  to release it, no job acquires it, whatever jobs acquire, look up, delete and wait meanwhile, each command of
  a release a step of its own; provided that a job which was between the two commands of its release when
  the lock was acquired does not go on to delete (what it does otherwise is \<open>release_race\<close>).
\<close>

theorem lock_excludes:
  assumes "lockAcquire x j s = (Inr True, s')" and "LookUp j \<notin> set ops"
    and "\<forall>k \<in> set deleting. Delete k \<notin> set ops"
    and "now (snd (fold (lockStep x) ops (deleting, s'))) < now s + 25000"
  shows "fst (lockAcquire x j' (snd (fold (lockStep x) ops (deleting, s')))) \<noteq> Inr True"
  using held_excludes [OF held_lockSteps [OF conjunct1 [OF acquire_holds [OF assms(1)]] assms(4,2,3)] assms(4), of x j']
  by auto

theorem lock_excludes_witness:
  "fst (lockAcquire (demoEnv Success) ''b''
     (snd (fold (lockStep (demoEnv Success)) [LookUp ''b'', Delete ''b'', Wait 20000, Acquire ''c'', LookUp ''c'', Delete ''c'']
       ([''d''], snd (lockAcquire (demoEnv Success) ''a'' emptyWorld))))) \<noteq> Inr True"
  by (rule lock_excludes [where j = "''a''" and s = emptyWorld])
     (simp_all add: lockAcquire_def lockIsMine_def lockDelete_def redis_defs andThen_def extCall_def demoEnv_sel emptyWorld_def
        lockTtlSeconds_def lockKey_def redisLive_def)

section \<open>Owners, wallets and accounts\<close>

text \<open>
  C28.  What is not the user's is not found: without a row of that id that is the user's, the reads of a
  wallet, a position and a transaction answer the same not-found error and reveal nothing.
\<close>

theorem foreign_rows_hidden:
  assumes "\<forall>w \<in> set (wallets s). w_id w = i \<longrightarrow> w_userId w \<noteq> u"
    and "\<forall>p \<in> set (positions s). p_id p = i \<longrightarrow> p_userId p \<noteq> u"
    and "\<forall>t \<in> set (transactions s). t_id t = i \<longrightarrow> t_userId t \<noteq> u"
  shows "getWallet x u i s = (Inl (notFound ''Wallet not found''), s)
     \<and> epos_getPosition x u i s = (Inl (notFound ''Position not found''), s)
     \<and> etx_getTransaction x u i s = (Inl (notFound ''Transaction not found''), s)"
  using getWallet_foreign [of s i u x] getPosition_foreign [of s i u x] getTransaction_foreign [of s i u x] assms by blast

theorem foreign_rows_hidden_witness:
  "epos_getPosition (demoEnv Success) 8 3 demoHeld = (Inl (notFound ''Position not found''), demoHeld)"
  using foreign_rows_hidden [of demoHeld 3 8 "demoEnv Success"] by (simp add: demo_tables demoWallet_def)

text \<open>
  C29.  The faucet mints for the caller only: when it is enabled and not otherwise, every request it hands to the
  wallet provider mints the fixed amount of the test asset, on the test chain, to the address of a
  wallet of the table that has the id asked for and is the caller's, and is signed by that wallet.
\<close>

theorem faucet_mints_for_owner:
  "set (sent (snd (mintAaveTestUsdc x faucetEnabled userId walletId s))) \<subseteq> set (sent s) \<union>
     {q. assertFaucetEnabled x faucetEnabled = Inr () \<and>
        (\<exists>w. w \<in> set (wallets s) \<and> w_id w = walletId \<and> w_userId w = userId \<and> w_chainId w = 84532 \<and>
          (\<exists>r d. e_getAddress x (w_address w) = Inr r \<and> e_encode x (Mint testUsdcAddress r faucetMintAmount) = Inr d
             \<and> asksFor \<lparr>s_providerWalletId = w_providerId w, s_chainId = 84532, s_to = faucetAddress, s_value = None,
                  s_data = Some d\<rparr> q))}"
proof -
  have "mintInput w d = \<lparr>s_providerWalletId = w_providerId w, s_chainId = 84532, s_to = faucetAddress, s_value = None,
      s_data = Some d\<rparr>" if "w_chainId w = 84532" for w d using that by (simp add: mintInput_def)
  then show ?thesis using mint_sends [of _ x faucetEnabled userId walletId s] by fastforce
qed

text \<open>
  C30.  Who registered gets in: with the same password, under any spelling of the email that trims and
  lowers to the same text, the login answers with the profile the registration answered with, and
  the token it hands out passes the guard at that moment and names that user.
\<close>

theorem registered_gets_in:
  assumes "userInv s" and "register x a dto s = (Inr r, s1)"
    and "normalizeEmail (cr_email dto') = normalizeEmail (cr_email dto)" and "cr_password dto' = cr_password dto"
    and "normalizeEmail (cr_email dto) \<noteq> []"
    and bcrypt: "\<And>n p. ab_compare a p (ab_hash a n p)" "\<And>n p. ab_hash a n p \<noteq> []"
    and jwt: "\<And>t p. ab_verify a t (Some (''Bearer '' @ ab_sign a t p)) = Some p"
  shows "\<exists>r' s2. login x a dto' s1 = (Inr r', s2) \<and> au_user r' = au_user r
     \<and> jwtGuard a (Some (''Bearer '' @ au_accessToken r')) s2
         = (Inr (showNat (up_id (au_user r)), normalizeEmail (cr_email dto)), s2)"
proof -
  from register_then_login [OF assms(1-4) bcrypt] obtain r' s2 where
    run: "login x a dto' s1 = (Inr r', s2)" "au_user r' = au_user r"
      "au_accessToken r' = ab_sign a (now s2) (showNat (up_id (au_user r')), normalizeEmail (cr_email dto))" by blast
  have "jwtGuard a (Some (''Bearer '' @ au_accessToken r')) s2
      = (Inr (showNat (up_id (au_user r)), normalizeEmail (cr_email dto)), s2)"
    unfolding run(3) run(2) by (rule jwtGuard_login [OF jwt refl assms(5)])
  with run show ?thesis by blast
qed

theorem registered_gets_in_witness:
  "\<exists>r s1 r' s2. register (demoEnv Success) demoAuth demoCredentials emptyWorld = (Inr r, s1)
     \<and> login (demoEnv Success) demoAuth (demoCredentials\<lparr>cr_email := ''a@B.C''\<rparr>) s1 = (Inr r', s2) \<and> au_user r' = au_user r"
proof -
  obtain r s1 where run: "register (demoEnv Success) demoAuth demoCredentials emptyWorld = (Inr r, s1)"
    by (rule exE [OF demo_register], elim exE conjE)
  have inv: "userInv emptyWorld" by (simp add: userInv_def emptyWorld_def)
  have n: "normalizeEmail ''a@B.C'' = ''a@b.c''" by code_simp
  have "\<exists>r' s2. login (demoEnv Success) demoAuth (demoCredentials\<lparr>cr_email := ''a@B.C''\<rparr>) s1 = (Inr r', s2) \<and> au_user r' = au_user r
     \<and> jwtGuard demoAuth (Some (''Bearer '' @ au_accessToken r')) s2
         = (Inr (showNat (up_id (au_user r)), normalizeEmail (cr_email demoCredentials)), s2)"
    by (rule registered_gets_in [OF inv run _ _ _ demo_auth demo_token]) (simp_all add: demoCredentials_def n demo_email)
  with run show ?thesis by blast
qed

section \<open>Requests and answers\<close>


text \<open>
  C32.  The pages of a listing are the listing: when the transactions a query selects were all created at different
  times, the items of the first m pages, one after the other, are the first m times n of all of them,
  newest first, none lost and none twice, whatever order the database gives to rows it may order as it likes, in each
  query anew.  (With equal times a row can be on two pages and another on none: \<open>pages_repeat\<close>.)
\<close>

theorem pages_make_the_listing:
  assumes "distinct (map t_createdAt (filter (transactionMatches s (filterOf u q)) (transactions s)))"
  shows "\<exists>rows. sorted_wrt (\<lambda>t t'. t_createdAt t' < t_createdAt t) rows
     \<and> set rows = {t \<in> set (transactions s). transactionMatches s (filterOf u q) t}
     \<and> (\<forall>m n ties. concat (map (\<lambda>k. case fst (etx_listTransactions x (ties k) u (q\<lparr>tq_page := Some (Suc k), tq_limit := Some n\<rparr>) s) of
                      Inr l \<Rightarrow> tl_items l | Inl _ \<Rightarrow> []) [0..<m])
        = take (m * n) (map (\<lambda>t. etx_toResponse x (toTransactionRecord (vaultSlugOf s t) t)) rows))"
proof (intro exI conjI allI)
  let ?rows = "sortDesc t_createdAt (filter (transactionMatches s (filterOf u q)) (transactions s))"
  let ?shown = "map (\<lambda>t. etx_toResponse x (toTransactionRecord (vaultSlugOf s t) t)) ?rows"
  show "sorted_wrt (\<lambda>t t'. t_createdAt t' < t_createdAt t) ?rows" by (rule sortDesc_strict [OF assms])
  show "set ?rows = {t \<in> set (transactions s). transactionMatches s (filterOf u q) t}" by auto
  fix m n :: nat and ties :: "nat \<Rightarrow> transaction \<Rightarrow> nat"
  have same: "filterOf u (q\<lparr>tq_page := p, tq_limit := l\<rparr>) = filterOf u q" for p l by (simp add: filterOf_def)
  have page: "(case fst (etx_listTransactions x (ties k) u (q\<lparr>tq_page := Some (Suc k), tq_limit := Some n\<rparr>) s) of
      Inr l \<Rightarrow> tl_items l | Inl _ \<Rightarrow> []) = take n (drop (k * n) ?shown)" for k
    by (simp add: list_run Let_def same selected_def sortDesc_ties [OF assms] take_map drop_map)
  show "concat (map (\<lambda>k. case fst (etx_listTransactions x (ties k) u (q\<lparr>tq_page := Some (Suc k), tq_limit := Some n\<rparr>) s) of
      Inr l \<Rightarrow> tl_items l | Inl _ \<Rightarrow> []) [0..<m]) = take (m * n) ?shown"
    unfolding page by (rule concat_slices)
qed

theorem pages_make_the_listing_witness:
  "\<exists>rows. set rows = set (transactions demoTwo) \<and> sorted_wrt (\<lambda>t t'. t_createdAt t' < t_createdAt t) rows
     \<and> concat (map (\<lambda>k. case fst (etx_listTransactions (demoEnv Success) (\<lambda>t. t_id t * k) 0
            (demoListing\<lparr>tq_page := Some (Suc k), tq_limit := Some 1\<rparr>) demoTwo) of Inr l \<Rightarrow> tl_items l | Inl _ \<Rightarrow> []) [0..<2])
       = take 2 (map (\<lambda>t. etx_toResponse (demoEnv Success) (toTransactionRecord (vaultSlugOf demoTwo t) t)) rows)"
proof -
  have "distinct (map t_createdAt (filter (transactionMatches demoTwo (filterOf 0 demoListing)) (transactions demoTwo)))"
    by (simp add: demo_two)
  from pages_make_the_listing [OF this, of "demoEnv Success"] obtain rows where
    rows: "sorted_wrt (\<lambda>t t'. t_createdAt t' < t_createdAt t) rows"
      "set rows = {t \<in> set (transactions demoTwo). transactionMatches demoTwo (filterOf 0 demoListing) t}"
    and pages: "\<And>m n ties. concat (map (\<lambda>k. case fst (etx_listTransactions (demoEnv Success) (ties k) 0
          (demoListing\<lparr>tq_page := Some (Suc k), tq_limit := Some n\<rparr>) demoTwo) of Inr l \<Rightarrow> tl_items l | Inl _ \<Rightarrow> []) [0..<m])
        = take (m * n) (map (\<lambda>t. etx_toResponse (demoEnv Success) (toTransactionRecord (vaultSlugOf demoTwo t) t)) rows)" by blast
  from rows(2) have "set rows = set (transactions demoTwo)" using demo_two(1) by (metis set_filter)
  with rows(1) pages [of "\<lambda>k t. t_id t * k" 1 2] show ?thesis by (intro exI [of _ rows]) simp
qed

text \<open>
  C33.  The retried read of a receipt asks at most three times, and answers what the first request that
  succeeds answers, or the error of the third.
\<close>

theorem receipt_first_answer:
  assumes "bc_getChainDefinition x c = Inr d"
  shows "fst (bc_getTransactionReceiptWithRetry x c h s) =
     (let ask = (\<lambda>k. e_getReceipt x (calls s + k) c h)
      in if \<not> isl (ask 0) then ask 0 else if \<not> isl (ask 1) then ask 1 else ask 2)
     \<and> calls (snd (bc_getTransactionReceiptWithRetry x c h s)) \<le> calls s + 3"
proof
  show "calls (snd (bc_getTransactionReceiptWithRetry x c h s)) \<le> calls s + 3"
    unfolding bc_getTransactionReceiptWithRetry_def by (rule receiptRetry_calls)
  have three: "receiptRetry x c h 1 3 = receiptRetry x c h 1 (Suc (Suc (Suc 0)))" by (simp add: numeral_3_eq_3)
  show "fst (bc_getTransactionReceiptWithRetry x c h s) =
     (let ask = (\<lambda>k. e_getReceipt x (calls s + k) c h)
      in if \<not> isl (ask 0) then ask 0 else if \<not> isl (ask 1) then ask 1 else ask 2)"
    unfolding bc_getTransactionReceiptWithRetry_def three
    by (simp add: assms bc_getTransactionReceipt_def viaClient_def andThen_def extCall_def catching_def sleep_def Let_def
        numeral_2_eq_2 split: sum.splits)
qed

theorem receipt_first_answer_witness:
  "fst (bc_getTransactionReceiptWithRetry (demoEnv Success\<lparr>e_getReceipt := (\<lambda>n _ _. if n < 2 then Inl (PlainError ''late'')
      else Inr \<lparr>rc_status = Reverted, rc_blockNumber = 7, rc_gasUsed = 9\<rparr>)\<rparr>) 84532 ''0x1'' emptyWorld)
     = Inr \<lparr>rc_status = Reverted, rc_blockNumber = 7, rc_gasUsed = 9\<rparr>"
proof -
  let ?x = "demoEnv Success\<lparr>e_getReceipt := (\<lambda>n _ _. if n < 2 then Inl (PlainError ''late'')
      else Inr \<lparr>rc_status = Reverted, rc_blockNumber = 7, rc_gasUsed = 9\<rparr>)\<rparr>"
  obtain d where "bc_getChainDefinition ?x 84532 = Inr d"
    by (simp add: bc_getChainDefinition_def demoEnv_def demoConfig_def)
  from receipt_first_answer [OF this, of "''0x1''" emptyWorld] show ?thesis by (simp add: Let_def emptyWorld_def)
qed

section \<open>The front end\<close>

text \<open>
  C34.  An amount the client shows and then parses loses only the digits it does not show: with m of the
  d decimals shown, the parsed amount is the shown one cut to a multiple of 10 to the (d - m).
\<close>

theorem shown_amount_parses:
  assumes "formatAmount (showNat n) d m = Inr shown"
  shows "parseAmount shown d = Inr (showInt (int (n div 10 ^ (d - min m d) * 10 ^ (d - min m d))))"
  by (rule parse_format [OF assms])

theorem shown_amount_parses_witness:
  "formatAmount (showNat 1239) 3 2 = Inr ''1.23'' \<and> parseAmount ''1.23'' 3 = Inr (showInt 1230)"
proof -
  have "digitChar 1 = CHR ''1''" "digitChar 2 = CHR ''2''" "digitChar 3 = CHR ''3''" "digitChar 9 = CHR ''9''" by code_simp+
  then have "formatAmount (showNat 1239) 3 2 = Inr ''1.23''"
    by (simp add: formatAmount_nat shownFraction_def showNat.simps [of "Suc 0"] showNat.simps [of 239] showNat.simps [of 23]
        showNat.simps [of 2] padStart_def stripZeros_def)
  from this shown_amount_parses [OF this] show ?thesis by (simp add: min_def)
qed

text \<open>
  C35.  The client and the server agree on the bodies: what the client sends to deposit, approve and
  withdraw, in part or in full, is accepted by the server's validation and read as the wallet and
  the amount that were meant.
\<close>

theorem client_bodies_accepted:
  assumes "0 < n"
  shows "parseDepositDto (ac_body (api_deposit v (showNat w) (showInt n) k)) = Inr \<lparr>dd_walletId = w, dd_amount = showInt n\<rparr>
     \<and> parseApproveDto (ac_body (api_approve v (showNat w) (showInt n) k)) = Inr \<lparr>ad_walletId = w, ad_amount = showInt n\<rparr>
     \<and> parseWithdrawDto (ac_body (api_withdraw v (showNat w) (Some (showInt n)) None k))
         = Inr \<lparr>wdd_walletId = w, wdd_amount = Some (showInt n), wdd_fullWithdraw = None\<rparr>
     \<and> parseWithdrawDto (ac_body (api_withdraw v (showNat w) None (Some True) k))
         = Inr \<lparr>wdd_walletId = w, wdd_amount = None, wdd_fullWithdraw = Some True\<rparr>"
  by (simp add: client_bodies assms)

theorem client_bodies_accepted_witness:
  "parseDepositDto (ac_body (api_deposit ''v'' (showNat 1) (showInt 25) ''k'')) = Inr \<lparr>dd_walletId = 1, dd_amount = showInt 25\<rparr>"
  using client_bodies_accepted [of 25 "''v''" 1 "''k''"] by simp

text \<open>
  C36.  In the deposit dialog, whatever the user does, whatever the server answers and whenever a refresh of the
  wallets puts another one of them in place of the primary wallet: every approval and every deposit is of an amount
  that was previewed before, for this vault and for a wallet that was primary at the time; sent for that same wallet,
  the server reads it as that amount and wallet; each has an idempotency key of its own; and a deposit that is
  offered although the preview asked for an approval comes after an approval of its amount.
\<close>

theorem flow_sends_previewed:
  assumes "flowing serverPreviews keyOf vault W w f" and "inj keyOf"
  shows "(\<forall>before c after k. df_sent f = before @ c # after \<longrightarrow> ac_idempotencyKey c = Some k \<longrightarrow>
        (\<exists>seen v a d. seen \<in> W \<and> v \<in> W
           \<and> c \<in> {api_approve (cv_vaultId vault) (cl_walletId v) a k, api_deposit (cv_vaultId vault) (cl_walletId v) a k}
           \<and> api_previewDeposit (cv_vaultId vault) (cl_walletId seen) a \<in> set before
           \<and> parseDepositDto (Some (amountBody (cl_walletId seen) a)) = Inr d
           \<and> dd_amount d = a \<and> uuidOf (cl_walletId seen) = Some (dd_walletId d)
           \<and> (v = seen \<longrightarrow> parseDepositDto (ac_body c) = Inr d
                \<and> parseApproveDto (ac_body c) = Inr \<lparr>ad_walletId = dd_walletId d, ad_amount = dd_amount d\<rparr>)))
     \<and> distinct (map ac_idempotencyKey (mutations (df_sent f)))
     \<and> (df_step f = DepositStep \<longrightarrow> df_requiresApproval f \<longrightarrow>
          (\<exists>v \<in> W. \<exists>k. api_approve (cv_vaultId vault) (cl_walletId v) (df_baseAmount f) k \<in> set (df_sent f)))"
proof (intro conjI allI impI server.keys_distinct [OF assms] server.approval_before [OF assms(1)])
  fix before c after k assume "df_sent f = before @ c # after" and "ac_idempotencyKey c = Some k"
  from orderly_backed [OF server.sent_backed [OF assms(1)] this]
  show "\<exists>seen v a d. seen \<in> W \<and> v \<in> W
           \<and> c \<in> {api_approve (cv_vaultId vault) (cl_walletId v) a k, api_deposit (cv_vaultId vault) (cl_walletId v) a k}
           \<and> api_previewDeposit (cv_vaultId vault) (cl_walletId seen) a \<in> set before
           \<and> parseDepositDto (Some (amountBody (cl_walletId seen) a)) = Inr d
           \<and> dd_amount d = a \<and> uuidOf (cl_walletId seen) = Some (dd_walletId d)
           \<and> (v = seen \<longrightarrow> parseDepositDto (ac_body c) = Inr d
                \<and> parseApproveDto (ac_body c) = Inr \<lparr>ad_walletId = dd_walletId d, ad_amount = dd_amount d\<rparr>)" .
qed

theorem flow_sends_previewed_witness:
  "\<exists>d. parseDepositDto (ac_body (api_deposit ''v'' ''1'' ''25'' (showNat 0))) = Inr d \<and> dd_amount d = ''25''
     \<and> df_sent demoFlow = [api_previewDeposit ''v'' ''1'' ''25'', api_deposit ''v'' ''1'' ''25'' (showNat 0)]"
proof -
  have "df_sent demoFlow = [api_previewDeposit ''v'' ''1'' ''25''] @ api_deposit ''v'' ''1'' ''25'' (showNat 0) # []"
    by (simp add: demo_flow_sent)
  from flow_sends_previewed [OF demo_flowing keys_differ, THEN conjunct1, rule_format, OF this, of "showNat 0"]
  obtain a d where "api_previewDeposit ''v'' ''1'' a \<in> {api_previewDeposit ''v'' ''1'' ''25''}"
    and d: "parseDepositDto (ac_body (api_deposit ''v'' ''1'' ''25'' (showNat 0))) = Inr d" "dd_amount d = a"
    by (auto simp: call_bodies demoShelf_def demoPurse_def)
  then have "Some (amountBody ''1'' a) = Some (amountBody ''1'' ''25'')" by (metis call_bodies(1) singletonD)
  then have "a = ''25''" by (simp add: amountBody_def)
  with d demo_flow_sent show ?thesis by simp
qed

text \<open>
  C37.  The deposit dialog can be brought into a state by doing what its markup offers, with answers of the server and
  changes of the primary wallet in between, exactly when the machine of its handlers reaches that state; so no button that is
  rendered, enabled or disabled lets a user do more than that machine, or less.
\<close>

theorem dialog_is_its_machine:
  assumes "\<forall>w \<in> W. readableWallet w"
  shows "clicking serverPreviews keyOf vault W w f \<longleftrightarrow> flowing serverPreviews keyOf vault W w f"
  by (rule clicks_are_flows [OF assms])

theorem dialog_is_its_machine_witness:
  "clicking serverPreviews showNat demoShelf {demoPurse} demoPurse demoFlow
     \<and> df_sent demoFlow = [api_previewDeposit ''v'' ''1'' ''25'', api_deposit ''v'' ''1'' ''25'' (showNat 0)]"
proof -
  have "\<forall>w \<in> {demoPurse}. readableWallet w" by (simp add: readableWallet_def demoPurse_def)
  from dialog_is_its_machine [OF this] demo_flowing demo_flow_sent show ?thesis by blast
qed

text \<open>
  C38.  A client whose lists are what the server answered, at any time and whatever the chain says, renders on
  every path and in every state of its dialogs: nothing it holds makes rendering throw, as long as the
  balances that the wallet provider wrote are numbers.
\<close>

theorem served_client_renders:
  assumes "fed c" and "\<forall>w \<in> set (wv_wallets (cx_wallets c)). readableWallet w"
  shows "\<exists>ns. appView c segments = Inr ns"
  using fed_client_renders [OF assms, of segments] unfolding renders_def .

theorem served_client_renders_witness:
  "\<exists>ns ms. appView demoClient [''portfolio''] = Inr ns \<and> appView demoClient [''vaults'', ''v''] = Inr ms"
  using served_client_renders [OF demo_fed demo_purse, of "[''portfolio'']"]
    served_client_renders [OF demo_fed demo_purse, of "[''vaults'', ''v'']"] by blast

text \<open>
  C39.  In a browser with any number of tabs: whatever a tab offers beyond the form of the login page (a creation, an
  approval, a deposit, a withdrawal, signing out), it offers on no path to anyone but a signed-in user, and the requests
  of that tab carry a token that the server issued to the very user that is shown.
\<close>

theorem actions_need_a_user:
  assumes "browsing issued b" and "cx_auth c \<in> set (br_tabs b)" and "\<And>t u. issued t u \<Longrightarrow> t \<noteq> []"
    and "a \<in> set (offers (appView c segments))" and "a \<notin> {SubmitForm, TypeEmail, TypePassword, ToggleForm}"
  shows "\<exists>t u. ax_user (cx_auth c) = Some u \<and> issued t u
     \<and> (''Authorization'', ''Bearer '' @ t) \<in> set (headersOf (ax_token (cx_auth c)) call)"
proof -
  from offered_to_user [OF tabs_signed [OF assms(1,2)] assms(4,5)] obtain u where user: "ax_user (cx_auth c) = Some u" by blast
  from sends_as_shown [OF assms(1,2) _ this, of call] assms(3) user show ?thesis by blast
qed

theorem actions_need_a_user_witness:
  "SignOut \<in> set (offers (appView demoClient [''vaults'', ''v'']))
     \<and> (''Authorization'', ''Bearer t'') \<in> set (headersOf (ax_token (cx_auth demoClient)) api_getMe)"
proof -
  let ?page = "pageView demoClient (VaultsPage (Some ''v''))"
  have "protectedRoute (cx_auth demoClient) = ChildrenView"
    by (simp add: demoClient_def protectedRoute_def auth_signedIn_def auth_mount_def)
  then have view: "appView demoClient [''vaults'', ''v''] =
      layout (map_option ce_environment (cx_env demoClient)) (isTestnetView (cx_env demoClient)) (ax_user (cx_auth demoClient))
        (primaryWallet (cx_wallets demoClient)) ?page"
    by (simp add: appView_def pageOf_def protectedView_def)
  have "renders ?page"
    using fed_client_renders [OF demo_fed demo_purse, of "[''vaults'', ''v'']"] unfolding view by (simp add: layout_def)
  then have offered: "SignOut \<in> set (offers (appView demoClient [''vaults'', ''v'']))" by (simp add: view offers_layout)
  from actions_need_a_user [OF demo_browsing _ this, of api_getMe] offered show ?thesis by auto
qed

section \<open>Scripts\<close>

text \<open>
  C40.  The migration script on the production environment never runs \<open>migrate dev\<close>, runs a reset or a
  deployment only with the variable that permits it set to \<open>true\<close>, and hands every variable of the process
  on as it was, whatever the environment file says.
\<close>

theorem production_guarded:
  assumes "prismaEnv file vars argv = RunsPrisma args vars'" and "envOr vars ''APP_ENV'' ''local'' = ''production''"
  shows "take 2 args \<noteq> [''migrate'', ''dev'']
     \<and> (take 2 args = [''migrate'', ''reset''] \<longrightarrow> vars' ''ALLOW_PRODUCTION_DB_RESET'' = Some ''true'')
     \<and> (take 2 args = [''migrate'', ''deploy''] \<longrightarrow> vars' ''ALLOW_PRODUCTION_MIGRATION'' = Some ''true'')
     \<and> (\<forall>k v. vars k = Some v \<longrightarrow> vars' k = Some v)"
  using production_guard [OF assms] process_wins [OF assms(1)] by blast

theorem production_guarded_witness:
  "\<exists>vars'. prismaEnv (\<lambda>_. None) [''APP_ENV'' \<mapsto> ''production'', ''DATABASE_URL'' \<mapsto> ''x'', ''ALLOW_PRODUCTION_MIGRATION'' \<mapsto> ''true'']
      [''migrate:deploy''] = RunsPrisma [''migrate'', ''deploy''] vars'
     \<and> vars' ''ALLOW_PRODUCTION_MIGRATION'' = Some ''true''"
proof -
  let ?vars = "[''APP_ENV'' \<mapsto> ''production'', ''DATABASE_URL'' \<mapsto> ''x'', ''ALLOW_PRODUCTION_MIGRATION'' \<mapsto> ''true''] :: environment"
  have run: "prismaEnv (\<lambda>_. None) ?vars [''migrate:deploy''] = RunsPrisma [''migrate'', ''deploy''] ?vars"
    by (simp add: prismaEnv_def prisma_loadEnvFile_def assertMigrationSafety_def buildPrismaArgs_def envOr_def validEnvs_def
        truthyVar_def Let_def)
  have "envOr ?vars ''APP_ENV'' ''local'' = ''production''" by (simp add: envOr_def)
  from production_guarded [OF run this] run show ?thesis by (intro exI [of _ ?vars]) simp
qed

section \<open>Further facts\<close>

text \<open>
  A login that fails says nothing more: whether the email is unknown, the account has no password
  or the password is wrong, the error is the same, and nothing is written.
\<close>

theorem failed_login_says_nothing:
  assumes "userInv s" and "fst (login x a dto s) = Inl e"
  shows "e = unauthorized ''Invalid email or password'' \<and> snd (login x a dto s) = s"
  using login_fails [OF assms(2,1)] by (simp add: badCredentials_def)

theorem failed_login_says_nothing_witness:
  "login (demoEnv Success) demoAuth demoCredentials emptyWorld = (Inl (unauthorized ''Invalid email or password''), emptyWorld)"
proof -
  have "userInv emptyWorld" "fst (login (demoEnv Success) demoAuth demoCredentials emptyWorld) = Inl badCredentials"
    by (simp_all add: userInv_def emptyWorld_def login_def userByEmail_def Let_def)
  from failed_login_says_nothing [OF this] show ?thesis
    using \<open>fst _ = Inl badCredentials\<close> by (intro prod_eqI) (simp_all add: badCredentials_def)
qed

text \<open>
  Making a wallet primary is not atomic: the old primary flag is cleared first, and when the
  wallet provider then fails, the user is left without any primary wallet.
\<close>

theorem failed_wallet_drops_primary:
  assumes "bc_getBlockchainConfig x = Inr b" and "cw_isPrimary dto = Some True" and "cw_chainId dto = Some c"
    and "privy_ensurePrivyUserId x u (snd (clearPrimaryWallet u s)) = (Inl e, s')"
  shows "createWallet x u dto s = (Inl e, s') \<and> filter (\<lambda>w. w_userId w = u \<and> w_isPrimary w) (wallets s') = []"
  using createWallet_drops_primary [OF assms] by (simp add: primaries_def)

theorem failed_wallet_drops_primary_witness:
  "\<exists>e s'. createWallet (demoEnv Success) 0 \<lparr>cw_isPrimary = Some True, cw_chainId = Some 84532\<rparr> demoWorld = (Inl e, s')
     \<and> filter w_isPrimary (wallets demoWorld) = [demoWallet] \<and> filter (\<lambda>w. w_userId w = 0 \<and> w_isPrimary w) (wallets s') = []"
proof -
  let ?s = "snd (clearPrimaryWallet 0 demoWorld)"
  have "privy_ensurePrivyUserId (demoEnv Success) 0 ?s = (Inl recordNotFound, ?s)"
    by (simp add: privy_ensurePrivyUserId_def clearPrimaryWallet_def demoWorld_def emptyWorld_def andThen_def)
  from failed_wallet_drops_primary [OF _ _ _ this, of _ "\<lparr>cw_isPrimary = Some True, cw_chainId = Some 84532\<rparr>" 84532]
  show ?thesis by (simp add: bc_getBlockchainConfig_def demoEnv_sel demoConfig_def demoWorld_def demoWallet_def)
qed

text \<open>
  An approval asks the wallet provider for a token approval only when the allowance that was
  read is below the requested amount, and then for exactly that amount, for the vault's contract.
\<close>

theorem approve_sends_only_when_short:
  "set (sent (snd (approveVault x userId vaultId dto s))) \<subseteq> set (sent s) \<union>
     {q. \<exists>c k. approveRequest x c q \<and> ac_allowance c < ac_amount c \<and> bigIntOf (ad_amount dto) = Some (ac_amount c)
       \<and> w_userId (ac_wallet c) = userId \<and> pv_vaultId (ac_vault c) = vaultId
       \<and> e_allowance x k (pv_chainId (ac_vault c)) (pv_assetAddress (ac_vault c)) (w_address (ac_wallet c))
           (pv_contractAddress (ac_vault c)) = Inr (ac_allowance c)}" (is "_ \<subseteq> _ \<union> ?Q")
proof
  fix q assume q: "q \<in> set (sent (snd (approveVault x userId vaultId dto s)))"
  show "q \<in> set (sent s) \<union> ?Q"
  proof (cases "q \<in> set (sent s)")
    case False
    from approveVault_sends [OF q False] obtain c s1 where
      "ap_checks x userId vaultId dto s = (Inr c, s1)" "ac_allowance c < ac_amount c" "approveRequest x c q" by blast
    with ap_checks_passed [OF this(1)] show ?thesis by auto
  qed simp
qed

end
